(* ===== verification/NTS_Prelude.thy ===== *)
theory NTS_Prelude
  imports Main "HOL-Library.Word" "HOL-Library.AList"
begin

text \<open>
  Shared vocabulary of the development: the named theorem collections the component
  theories feed and use, Go's machine integers and time values, and the generic facts on
  options, sums, association lists and folds that several components need.
\<close>

named_theorems go_simps \<open>equations of the Go standard-library functions\<close>
named_theorems fs_simps \<open>laws of the file-system primitives\<close>
named_theorems inv_intros \<open>operations that preserve a component invariant\<close>

section \<open>Results\<close>

text \<open>A Go function that returns \<open>(T, error)\<close> returns a value of this type: \<open>Inl\<close> is
  the error branch, \<open>Inr\<close> the value.\<close>

type_synonym ('e, 'a) result = "'e + 'a"

definition is_ok :: "('e, 'a) result \<Rightarrow> bool" where
  "is_ok r = (case r of Inl _ \<Rightarrow> False | Inr _ \<Rightarrow> True)"

lemma is_ok_simps [simp]: "is_ok (Inr x)" "\<not> is_ok (Inl e)"
  by (simp_all add: is_ok_def)

lemma is_ok_iff: "is_ok r \<longleftrightarrow> (\<exists>x. r = Inr x)"
  by (cases r) simp_all

text \<open>What an HTTP client gets: the status and the body (\<open>None\<close> when reading it fails), or no response at all.\<close>

type_synonym http_reply = "(nat \<times> string option) option"

section \<open>Integers, durations and times\<close>

text \<open>Go's \<open>int\<close>, \<open>int64\<close> and \<open>time.Duration\<close> are 64-bit two's complement. They are
  modelled by \<open>int\<close>; where a product or sum can leave the range, the result goes through
  \<open>wrap64\<close>.\<close>

definition wrap64 :: "int \<Rightarrow> int" where
  "wrap64 x = sint (word_of_int x :: 64 word)"

lemma wrap64_id: "- (2 ^ 63) \<le> x \<Longrightarrow> x < 2 ^ 63 \<Longrightarrow> wrap64 x = x"
  by (simp add: wrap64_def sint_sbintrunc' signed_take_bit_int_eq_self)

lemma wrap64_range: "- (2 ^ 63) \<le> wrap64 x \<and> wrap64 x < 2 ^ 63"
  using sint_range_size [of "word_of_int x :: 64 word"]
  by (simp add: wrap64_def word_size)

text \<open>A \<open>time.Time\<close> is a number of nanoseconds since 1 January of year 1, UTC, so that the
  zero \<open>Time\<close> is 0; \<open>UTC()\<close> only changes the location, \<open>Before\<close>, \<open>After\<close> and
  \<open>Equal\<close> compare instants.\<close>

type_synonym gtime = int
type_synonym duration = int

definition IsZero :: "gtime \<Rightarrow> bool" where "IsZero t = (t = 0)"
definition After :: "gtime \<Rightarrow> gtime \<Rightarrow> bool" where "After t u = (t > u)"
definition Before :: "gtime \<Rightarrow> gtime \<Rightarrow> bool" where "Before t u = (t < u)"

definition Nanosecond :: duration where "Nanosecond = 1"
definition Millisecond :: duration where "Millisecond = 1000000"
definition Second :: duration where "Second = 1000000000"
definition Minute :: duration where "Minute = 60 * Second"
definition Hour :: duration where "Hour = 60 * Minute"

lemmas duration_defs = Nanosecond_def Millisecond_def Second_def Minute_def Hour_def
lemmas time_defs = IsZero_def After_def Before_def

declare time_defs [go_simps] duration_defs [go_simps]

text \<open>\<open>time.Duration(n) * time.Second\<close>, a 64-bit product.\<close>

definition seconds :: "int \<Rightarrow> duration" where
  "seconds n = wrap64 (n * Second)"

lemma seconds_exact: "0 \<le> n \<Longrightarrow> n \<le> 9223372036 \<Longrightarrow> seconds n = n * Second"
  unfolding seconds_def by (rule wrap64_id) (simp_all add: Second_def)

text \<open>\<open>Time.Sub\<close> saturates at the ends of the \<open>Duration\<close> range.\<close>

definition time_sub :: "gtime \<Rightarrow> gtime \<Rightarrow> duration" where
  "time_sub t u = max (- (2 ^ 63)) (min (2 ^ 63 - 1) (t - u))"

lemma time_sub_mono: "t \<le> t' \<Longrightarrow> time_sub t u \<le> time_sub t' u"
  by (auto simp: time_sub_def)

section \<open>Association lists\<close>

text \<open>Go maps are association lists with distinct keys; the model only reads them through
  \<open>map_of\<close> and only changes them through \<open>AList.update\<close> and \<open>AList.delete\<close>.\<close>

lemma map_of_update: "map_of (AList.update k v al) k' = (if k' = k then Some v else map_of al k')"
  by (simp add: update_conv')

lemma map_of_delete: "map_of (AList.delete k al) k' = (if k' = k then None else map_of al k')"
  by (simp add: delete_conv')

lemma length_update_le: "length (AList.update k v al) \<le> Suc (length al)"
  by (induction al) auto

lemma length_update_new: "map_of al k = None \<Longrightarrow> length (AList.update k v al) = Suc (length al)"
  by (induction al) (auto split: if_splits)

lemma length_delete_present:
  "distinct (map fst al) \<Longrightarrow> map_of al k \<noteq> None \<Longrightarrow> Suc (length (AList.delete k al)) = length al"
proof (induction al)
  case Nil
  then show ?case by simp
next
  case (Cons a al)
  show ?case
  proof (cases "fst a = k")
    case True
    with Cons.prems(1) have "k \<notin> fst ` set al" by auto
    then have "AList.delete k al = al" by simp
    with True show ?thesis by (cases a) simp
  next
    case False
    then have "Suc (length (AList.delete k al)) = length al"
      using Cons by (cases a) auto
    with False show ?thesis by (cases a) simp
  qed
qed

lemma mem_delete: "p \<in> set (AList.delete k al) \<longleftrightarrow> p \<in> set al \<and> fst p \<noteq> k"
  by (cases p) (auto simp: AList.delete_eq)

lemma map_of_Some_mem: "distinct (map fst al) \<Longrightarrow> map_of al k = Some v \<longleftrightarrow> (k, v) \<in> set al"
  by (rule map_of_eq_Some_iff)

section \<open>Lists\<close>

lemma prefix_take_eq: "take (length xs) (xs @ ys) = xs"
  by simp

lemma list_all_filter: "list_all P xs \<Longrightarrow> list_all P (filter Q xs)"
  by (induction xs) auto

lemma dropWhile_not_head: "dropWhile P xs = y # ys \<Longrightarrow> \<not> P y"
  by (metis hd_dropWhile list.distinct(1) list.sel(1))

end
