(* ===== verification/Go_Strings.thy ===== *)
theory Go_Strings
  imports NTS_Prelude "HOL-Library.Char_ord" "HOL-Library.List_Lexorder" "HOL-Library.Sublist"
begin

text \<open>
  The functions of Go's packages \<open>strings\<close>, \<open>encoding/hex\<close> and \<open>encoding/base64\<close> that the
  agent calls. A Go string is a sequence of bytes, a \<open>char list\<close> here; the case and space
  functions act on the ASCII range, and bytes above 127 are left alone.
\<close>

section \<open>Package strings\<close>

definition is_space :: "char \<Rightarrow> bool" where
  "is_space c = (c \<in> {CHR 0x09, CHR 0x0A, CHR 0x0B, CHR 0x0C, CHR 0x0D, CHR 0x20})"

definition trim_left_space :: "string \<Rightarrow> string" where
  "trim_left_space s = dropWhile is_space s"

definition TrimSpace :: "string \<Rightarrow> string" where
  "TrimSpace s = rev (dropWhile is_space (rev (dropWhile is_space s)))"

definition lower_char :: "char \<Rightarrow> char" where
  "lower_char c =
     (if 65 \<le> (of_char c :: nat) \<and> (of_char c :: nat) \<le> 90
      then char_of (of_char c + 32 :: nat) else c)"

definition upper_char :: "char \<Rightarrow> char" where
  "upper_char c =
     (if 97 \<le> (of_char c :: nat) \<and> (of_char c :: nat) \<le> 122
      then char_of (of_char c - 32 :: nat) else c)"

definition ToLower :: "string \<Rightarrow> string" where "ToLower s = map lower_char s"
definition ToUpper :: "string \<Rightarrow> string" where "ToUpper s = map upper_char s"

definition EqualFold :: "string \<Rightarrow> string \<Rightarrow> bool" where
  "EqualFold s t = (ToLower s = ToLower t)"

fun HasPrefix :: "string \<Rightarrow> string \<Rightarrow> bool" where
  "HasPrefix s [] = True"
| "HasPrefix [] (p # ps) = False"
| "HasPrefix (c # s) (p # ps) = (c = p \<and> HasPrefix s ps)"

definition HasSuffix :: "string \<Rightarrow> string \<Rightarrow> bool" where
  "HasSuffix s t = HasPrefix (rev s) (rev t)"

fun Contains :: "string \<Rightarrow> string \<Rightarrow> bool" where
  "Contains [] sub = (sub = [])"
| "Contains (c # s) sub = (HasPrefix (c # s) sub \<or> Contains s sub)"

definition TrimPrefix :: "string \<Rightarrow> string \<Rightarrow> string" where
  "TrimPrefix s p = (if HasPrefix s p then drop (length p) s else s)"

definition TrimSuffix :: "string \<Rightarrow> string \<Rightarrow> string" where
  "TrimSuffix s p = (if HasSuffix s p then take (length s - length p) s else s)"

definition ReplaceChar :: "char \<Rightarrow> char \<Rightarrow> string \<Rightarrow> string" where
  "ReplaceChar a b s = map (\<lambda>c. if c = a then b else c) s"

fun Join :: "string list \<Rightarrow> string \<Rightarrow> string" where
  "Join [] sep = []"
| "Join [x] sep = x"
| "Join (x # y # ys) sep = x @ sep @ Join (y # ys) sep"

text \<open>\<open>strings.Split\<close> on a one-byte separator.\<close>

fun SplitOn :: "char \<Rightarrow> string \<Rightarrow> string list" where
  "SplitOn c [] = [[]]"
| "SplitOn c (x # xs) =
     (if x = c then [] # SplitOn c xs
      else (case SplitOn c xs of [] \<Rightarrow> [[x]] | y # ys \<Rightarrow> (x # y) # ys))"

lemma TrimSpace_Nil [simp]: "TrimSpace [] = []"
  by (simp add: TrimSpace_def)

lemma HasPrefix_iff_prefix: "HasPrefix s p \<longleftrightarrow> prefix p s"
  by (induction s p rule: HasPrefix.induct) auto

lemma HasPrefix_append [simp]: "HasPrefix (p @ s) p"
  by (simp add: HasPrefix_iff_prefix)

lemma HasSuffix_iff_suffix: "HasSuffix s t \<longleftrightarrow> suffix t s"
  by (simp add: HasSuffix_def HasPrefix_iff_prefix suffix_to_prefix)

lemma Contains_iff_sublist: "Contains s t \<longleftrightarrow> sublist t s"
  by (induction s t rule: Contains.induct)
    (auto simp: HasPrefix_iff_prefix sublist_Cons_right)

lemma set_TrimSpace: "set (TrimSpace s) \<subseteq> set s"
  unfolding TrimSpace_def by (metis set_dropWhileD set_rev subsetI)

lemma TrimSpace_eq_Nil_iff: "TrimSpace s = [] \<longleftrightarrow> (\<forall>c\<in>set s. is_space c)"
proof -
  have "TrimSpace s = [] \<longleftrightarrow> (\<forall>c\<in>set (dropWhile is_space s). is_space c)"
    by (simp add: TrimSpace_def)
  also have "\<dots> \<longleftrightarrow> (\<forall>c\<in>set s. is_space c)"
  proof
    assume all: "\<forall>c\<in>set (dropWhile is_space s). is_space c"
    have "dropWhile is_space s = []"
    proof (rule ccontr)
      assume ne: "dropWhile is_space s \<noteq> []"
      then have "\<not> is_space (hd (dropWhile is_space s))" by (rule hd_dropWhile)
      with all ne show False by simp
    qed
    then show "\<forall>c\<in>set s. is_space c" by simp
  qed (auto dest: set_dropWhileD)
  finally show ?thesis .
qed

lemma lower_char_idem [simp]: "lower_char (lower_char c) = lower_char c"
proof (cases "65 \<le> (of_char c :: nat) \<and> (of_char c :: nat) \<le> 90")
  case True
  then have "(of_char (char_of (of_char c + 32 :: nat)) :: nat) = of_char c + 32"
    by simp
  then show ?thesis using True by (simp add: lower_char_def)
next
  case False
  then have "lower_char c = c" unfolding lower_char_def by (rule if_not_P)
  then show ?thesis by simp
qed

lemma ToLower_idem [simp]: "ToLower (ToLower s) = ToLower s"
  by (simp add: ToLower_def)

lemma EqualFold_refl [simp]: "EqualFold s s"
  by (simp add: EqualFold_def)

lemma EqualFold_sym: "EqualFold s t \<Longrightarrow> EqualFold t s"
  by (simp add: EqualFold_def)

lemma EqualFold_trans: "EqualFold s t \<Longrightarrow> EqualFold t u \<Longrightarrow> EqualFold s u"
  by (simp add: EqualFold_def)

lemma SplitOn_not_Nil [simp]: "SplitOn c s \<noteq> []"
  by (induction s) (auto split: list.splits)

lemma SplitOn_no_sep: "p \<in> set (SplitOn c s) \<Longrightarrow> c \<notin> set p"
proof (induction s arbitrary: p)
  case Nil
  then show ?case by simp
next
  case (Cons x xs)
  then show ?case
    by (cases "SplitOn c xs") (auto split: if_splits)
qed

lemma Join_SplitOn: "Join (SplitOn c s) [c] = s"
proof (induction s)
  case Nil
  then show ?case by simp
next
  case (Cons x xs)
  then show ?case
    by (cases "SplitOn c xs"; cases "tl (SplitOn c xs)") auto
qed

lemma SplitOn_append_sep: "c \<notin> set p \<Longrightarrow> SplitOn c (p @ c # s) = p # SplitOn c s"
  by (induction p) auto

lemma SplitOn_none: "c \<notin> set p \<Longrightarrow> SplitOn c p = [p]"
  by (induction p) auto

lemma SplitOn_Join:
  "ps \<noteq> [] \<Longrightarrow> \<forall>p\<in>set ps. c \<notin> set p \<Longrightarrow> SplitOn c (Join ps [c]) = ps"
  by (induction ps "[c]" rule: Join.induct) (auto simp: SplitOn_none SplitOn_append_sep)

text \<open>Joining fields that do not contain the separator is injective.\<close>

lemma Join_inject:
  assumes "ps \<noteq> []" "qs \<noteq> []" "\<forall>p\<in>set ps. c \<notin> set p" "\<forall>q\<in>set qs. c \<notin> set q"
    and "Join ps [c] = Join qs [c]"
  shows "ps = qs"
  using SplitOn_Join [OF assms(1,3)] SplitOn_Join [OF assms(2,4)] assms(5) by metis

text \<open>\<open>strings.Fields\<close>: the maximal runs of bytes that are not white space.\<close>

function Fields :: "string \<Rightarrow> string list" where
  "Fields s =
     (let s1 = dropWhile is_space s
      in if s1 = [] then [] else takeWhile (\<lambda>c. \<not> is_space c) s1 # Fields (dropWhile (\<lambda>c. \<not> is_space c) s1))"
  by pat_completeness auto
termination
proof (relation "measure length", goal_cases)
  case 1
  then show ?case by simp
next
  case (2 s s1)
  from 2(2) obtain c cs where s1: "s1 = c # cs" by (metis neq_Nil_conv)
  then have "\<not> is_space c" using 2 by (metis dropWhile_not_head)
  then have "length (dropWhile (\<lambda>c. \<not> is_space c) s1) \<le> length cs" using s1 by (simp add: length_dropWhile_le)
  moreover have "length s1 \<le> length s" using 2 by (simp add: length_dropWhile_le)
  ultimately show ?case using s1 by simp
qed

declare Fields.simps [simp del]

section \<open>Package encoding/hex\<close>

definition hex_digit :: "nat \<Rightarrow> char" where
  "hex_digit n = ''0123456789abcdef'' ! n"

definition hex_byte :: "char \<Rightarrow> string" where
  "hex_byte c = [hex_digit (of_char c div 16), hex_digit (of_char c mod 16)]"

definition hex_EncodeToString :: "string \<Rightarrow> string" where
  "hex_EncodeToString s = concat (map hex_byte s)"

definition is_hex_char :: "char \<Rightarrow> bool" where
  "is_hex_char c = (c \<in> set ''0123456789abcdefABCDEF'')"

text \<open>\<open>hex.DecodeString\<close> succeeds exactly on an even number of hexadecimal digits.\<close>

definition hex_decodable :: "string \<Rightarrow> bool" where
  "hex_decodable s = (even (length s) \<and> list_all is_hex_char s)"

lemma length_hex [simp]: "length (hex_EncodeToString s) = 2 * length s"
  by (induction s) (simp_all add: hex_EncodeToString_def hex_byte_def)

lemma of_char_less_256: "(of_char c :: nat) < 256"
  using of_char_mod_256 [of c, where 'a = nat] mod_less_divisor [of 256 "of_char c :: nat"]
  by simp

lemma hex_digit_mem: "n < 16 \<Longrightarrow> hex_digit n \<in> set ''0123456789abcdef''"
  unfolding hex_digit_def by (rule nth_mem) simp

lemma hex_byte_chars: "set (hex_byte c) \<subseteq> set ''0123456789abcdef''"
proof -
  have "(of_char c :: nat) div 16 < 16" using of_char_less_256 [of c] by (simp add: less_mult_imp_div_less)
  then show ?thesis unfolding hex_byte_def using hex_digit_mem by auto
qed

lemma hex_chars: "set (hex_EncodeToString s) \<subseteq> set ''0123456789abcdef''"
  unfolding hex_EncodeToString_def using hex_byte_chars by fastforce

lemma hex_decodable_hex: "hex_decodable (hex_EncodeToString s)"
proof -
  have "is_hex_char c" if "c \<in> set ''0123456789abcdef''" for c
    using that by (auto simp: is_hex_char_def)
  with hex_chars [of s] show ?thesis
    by (auto simp: hex_decodable_def list_all_iff)
qed

lemma hex_not_in: "c \<notin> set ''0123456789abcdef'' \<Longrightarrow> c \<notin> set (hex_EncodeToString s)"
  using hex_chars by blast

lemma hex_digit_inject: "m < 16 \<Longrightarrow> n < 16 \<Longrightarrow> hex_digit m = hex_digit n \<Longrightarrow> m = n"
proof -
  assume mn: "m < 16" "n < 16" "hex_digit m = hex_digit n"
  have "distinct ''0123456789abcdef''" by simp
  then show "m = n" using mn unfolding hex_digit_def by (subst (asm) nth_eq_iff_index_eq) simp_all
qed

lemma hex_byte_inject: "hex_byte c = hex_byte d \<Longrightarrow> c = d"
proof -
  assume eq: "hex_byte c = hex_byte d"
  have "(of_char c :: nat) div 16 = of_char d div 16"
    using eq of_char_less_256 [of c] of_char_less_256 [of d]
    by (auto simp: hex_byte_def less_mult_imp_div_less intro: hex_digit_inject)
  moreover have "(of_char c :: nat) mod 16 = of_char d mod 16"
    using eq by (auto simp: hex_byte_def intro: hex_digit_inject)
  ultimately have "(of_char c :: nat) = of_char d" by (metis div_mult_mod_eq)
  then show "c = d" by simp
qed

lemma hex_inject: "hex_EncodeToString s = hex_EncodeToString t \<longleftrightarrow> s = t"
proof
  assume "hex_EncodeToString s = hex_EncodeToString t"
  then show "s = t"
  proof (induction s arbitrary: t)
    case Nil
    then show ?case by (cases t) (simp_all add: hex_EncodeToString_def hex_byte_def)
  next
    case (Cons c s)
    then obtain d u where t: "t = d # u"
      by (cases t) (simp_all add: hex_EncodeToString_def hex_byte_def)
    with Cons.prems have "hex_byte c = hex_byte d" "hex_EncodeToString s = hex_EncodeToString u"
      by (simp_all add: hex_EncodeToString_def hex_byte_def)
    with Cons.IH t show ?case by (auto dest: hex_byte_inject)
  qed
qed simp

section \<open>Package encoding/base64, standard encoding\<close>

definition b64_alphabet :: string where
  "b64_alphabet = ''ABCDEFGHIJKLMNOPQRSTUVWXYZabcdefghijklmnopqrstuvwxyz0123456789+/''"

definition b64_char :: "nat \<Rightarrow> char" where
  "b64_char n = b64_alphabet ! n"

definition b64_val :: "char \<Rightarrow> nat option" where
  "b64_val c = map_of (zip b64_alphabet [0..<64]) c"

fun b64_EncodeToString :: "string \<Rightarrow> string" where
  "b64_EncodeToString [] = []"
| "b64_EncodeToString [a] =
     (let x = of_char a :: nat
      in [b64_char (x div 4), b64_char (x mod 4 * 16), CHR ''='', CHR ''=''])"
| "b64_EncodeToString [a, b] =
     (let x = of_char a :: nat; y = of_char b :: nat
      in [b64_char (x div 4), b64_char (x mod 4 * 16 + y div 16),
          b64_char (y mod 16 * 4), CHR ''=''])"
| "b64_EncodeToString (a # b # c # rest) =
     (let x = of_char a :: nat; y = of_char b :: nat; z = of_char c :: nat
      in [b64_char (x div 4), b64_char (x mod 4 * 16 + y div 16),
          b64_char (y mod 16 * 4 + z div 64), b64_char (z mod 64)]
         @ b64_EncodeToString rest)"

fun b64_quads :: "string \<Rightarrow> string option" where
  "b64_quads [] = Some []"
| "b64_quads (p # q # r # s # rest) =
     (case (b64_val p, b64_val q) of
        (Some w, Some x) \<Rightarrow>
          if r = CHR ''='' \<and> s = CHR ''='' \<and> rest = [] then
            Some [char_of (w * 4 + x div 16)]
          else (case b64_val r of
              None \<Rightarrow> None
            | Some y \<Rightarrow>
                if s = CHR ''='' \<and> rest = [] then
                  Some [char_of (w * 4 + x div 16), char_of (x mod 16 * 16 + y div 4)]
                else (case (b64_val s, b64_quads rest) of
                    (Some z, Some more) \<Rightarrow>
                      Some (char_of (w * 4 + x div 16) # char_of (x mod 16 * 16 + y div 4) #
                            char_of (y mod 4 * 64 + z) # more)
                  | _ \<Rightarrow> None))
      | _ \<Rightarrow> None)"
| "b64_quads _ = None"

text \<open>The decoder skips carriage returns and line feeds.\<close>

definition b64_DecodeString :: "string \<Rightarrow> string option" where
  "b64_DecodeString s = b64_quads (filter (\<lambda>c. c \<noteq> CHR 0x0A \<and> c \<noteq> CHR 0x0D) s)"

lemma length_b64_alphabet: "length b64_alphabet = 64"
  by (simp add: b64_alphabet_def)

lemma b64_alphabet_plain:
  "list_all (\<lambda>c. c \<noteq> CHR 0x0A \<and> c \<noteq> CHR 0x0D \<and> c \<noteq> CHR ''='' \<and> \<not> is_space c) b64_alphabet"
  by (simp add: b64_alphabet_def is_space_def)

lemma b64_char_mem: "n < 64 \<Longrightarrow> b64_char n \<in> set b64_alphabet"
  unfolding b64_char_def by (rule nth_mem) (simp add: length_b64_alphabet)

lemma b64_char_plain:
  "n < 64 \<Longrightarrow> b64_char n \<noteq> CHR 0x0A \<and> b64_char n \<noteq> CHR 0x0D \<and> b64_char n \<noteq> CHR ''=''
     \<and> \<not> is_space (b64_char n)"
  using b64_alphabet_plain b64_char_mem by (auto simp: list_all_iff)

lemma b64_val_char: "n < 64 \<Longrightarrow> b64_val (b64_char n) = Some n"
proof -
  assume n: "n < 64"
  have "distinct b64_alphabet" by (simp add: b64_alphabet_def)
  then have "map_of (zip b64_alphabet [0..<64]) (b64_alphabet ! n) = Some ([0..<64] ! n)"
    using n by (intro map_of_zip_nth) (simp_all add: length_b64_alphabet)
  with n show ?thesis by (simp add: b64_val_def b64_char_def)
qed

lemma digits_split:
  fixes a b :: nat
  shows "b < 16 \<Longrightarrow> (a * 16 + b) div 16 = a" "b < 16 \<Longrightarrow> (a * 16 + b) mod 16 = b"
    and "b < 4 \<Longrightarrow> (a * 4 + b) div 4 = a" "b < 4 \<Longrightarrow> (a * 4 + b) mod 4 = b"
  by simp_all

lemma b64_split:
  fixes x y z :: nat
  assumes "x < 256" "y < 256" "z < 256"
  shows "x div 4 < 64" "x mod 4 * 16 + y div 16 < 64" "y mod 16 * 4 + z div 64 < 64" "z mod 64 < 64"
    and "x mod 4 * 16 < 64" "y mod 16 * 4 < 64"
    and "x div 4 * 4 + (x mod 4 * 16 + y div 16) div 16 = x"
    and "(x mod 4 * 16 + y div 16) mod 16 * 16 + (y mod 16 * 4 + z div 64) div 4 = y"
    and "(y mod 16 * 4 + z div 64) mod 4 * 64 + z mod 64 = z"
    and "x div 4 * 4 + x mod 4 * 16 div 16 = x"
    and "(x mod 4 * 16 + y div 16) mod 16 * 16 + y mod 16 * 4 div 4 = y"
proof -
  have y: "y div 16 < 16" and z: "z div 64 < 4" using assms(2,3) by (simp_all add: less_mult_imp_div_less)
  have m: "x mod 4 < 4" "y mod 16 < 16" by simp_all
  show "x div 4 < 64" "z mod 64 < 64" using assms(1) by (simp_all add: less_mult_imp_div_less)
  show "x mod 4 * 16 + y div 16 < 64" "x mod 4 * 16 < 64" using y m by linarith+
  show "y mod 16 * 4 + z div 64 < 64" "y mod 16 * 4 < 64" using z m by linarith+
  show "x div 4 * 4 + (x mod 4 * 16 + y div 16) div 16 = x" using y by (simp only: digits_split div_mult_mod_eq)
  show "(x mod 4 * 16 + y div 16) mod 16 * 16 + (y mod 16 * 4 + z div 64) div 4 = y"
    using y z by (simp only: digits_split div_mult_mod_eq)
  show "(y mod 16 * 4 + z div 64) mod 4 * 64 + z mod 64 = z"
    using z by (simp only: digits_split div_mult_mod_eq)
  show "x div 4 * 4 + x mod 4 * 16 div 16 = x" by simp
  show "(x mod 4 * 16 + y div 16) mod 16 * 16 + y mod 16 * 4 div 4 = y"
    using y by (simp only: digits_split) simp
qed

lemma b64_quads_encode: "b64_quads (b64_EncodeToString s) = Some s"
proof (induction s rule: b64_EncodeToString.induct)
  case 1
  then show ?case by simp
next
  case (2 a)
  note s = b64_split [OF of_char_less_256 [of a] of_char_less_256 [of a] of_char_less_256 [of a]]
  show ?case using s by (simp add: Let_def b64_val_char)
next
  case (3 a b)
  note s = b64_split [OF of_char_less_256 [of a] of_char_less_256 [of b] of_char_less_256 [of b]]
  show ?case using s b64_char_plain [OF s(6)] by (simp add: Let_def b64_val_char)
next
  case (4 a b c rest)
  note s = b64_split [OF of_char_less_256 [of a] of_char_less_256 [of b] of_char_less_256 [of c]]
  show ?case
    using s "4.IH" b64_char_plain [OF s(3)] b64_char_plain [OF s(4)]
    by (simp add: Let_def b64_val_char)
qed

lemma b64_no_break: "c \<in> set (b64_EncodeToString s) \<Longrightarrow> \<not> is_space c"
proof (induction s rule: b64_EncodeToString.induct)
  case 1
  then show ?case by simp
next
  case (2 a)
  note s = b64_split [OF of_char_less_256 [of a] of_char_less_256 [of a] of_char_less_256 [of a]]
  show ?case using 2 b64_char_plain [OF s(1)] b64_char_plain [OF s(5)]
    by (auto simp: Let_def is_space_def)
next
  case (3 a b)
  note s = b64_split [OF of_char_less_256 [of a] of_char_less_256 [of b] of_char_less_256 [of b]]
  show ?case using 3 b64_char_plain [OF s(1)] b64_char_plain [OF s(2)] b64_char_plain [OF s(6)]
    by (auto simp: Let_def is_space_def)
next
  case (4 a b c rest)
  note s = b64_split [OF of_char_less_256 [of a] of_char_less_256 [of b] of_char_less_256 [of c]]
  show ?case
    using 4 b64_char_plain [OF s(1)] b64_char_plain [OF s(2)] b64_char_plain [OF s(3)]
      b64_char_plain [OF s(4)]
    by (auto simp: Let_def)
qed

lemma TrimSpace_no_space: "\<forall>c\<in>set s. \<not> is_space c \<Longrightarrow> TrimSpace s = s"
proof -
  assume ns: "\<forall>c\<in>set s. \<not> is_space c"
  then have "dropWhile is_space s = s" by (cases s) auto
  moreover have "dropWhile is_space (rev s) = rev s"
    using ns by (metis dropWhile_eq_self_iff hd_in_set set_rev)
  ultimately show "TrimSpace s = s" by (simp add: TrimSpace_def)
qed

theorem b64_round_trip: "b64_DecodeString (TrimSpace (b64_EncodeToString s)) = Some s"
proof -
  have ns: "\<forall>c\<in>set (b64_EncodeToString s). \<not> is_space c" using b64_no_break by blast
  then have "filter (\<lambda>c. c \<noteq> CHR 0x0A \<and> c \<noteq> CHR 0x0D) (b64_EncodeToString s) = b64_EncodeToString s"
    by (intro filter_True) (auto simp: is_space_def)
  then show ?thesis
    using ns by (simp add: TrimSpace_no_space b64_DecodeString_def b64_quads_encode)
qed

lemma b64_decode_encode [simp]: "b64_DecodeString (b64_EncodeToString s) = Some s"
  using b64_round_trip [of s] b64_no_break [of _ s] by (simp add: TrimSpace_no_space)

end
