(* ===== verification/Model.thy ===== *)
theory Model
  imports Complex_Main Go_Strings
begin

text \<open>
  Package \<open>internal/model\<close>: the data every component exchanges, and the three \<open>Prepare\<close> /
  \<open>NewFinding\<close> routines that normalise it. Go's string-based enumerations (\<open>TrustLevel\<close>,
  \<open>Severity\<close>, \<open>ActionRisk\<close>, \<open>ActionMode\<close>) stay strings: a value decoded from JSON can hold
  anything.
\<close>

section \<open>Dynamic values\<close>

text \<open>The values an \<open>interface{}\<close> holds in this program. A finite \<open>float64\<close> is the rational it
  denotes. \<open>VComposite v\<close> is a struct, array, or map or slice of another element type: \<open>v\<close> is what
  encoding it to JSON and decoding it again gives, \<open>None\<close> when encoding fails.\<close>

datatype float64 = FNaN | FInf bool | FFin rat

datatype gval =
    VNil
  | VBool bool
  | VInt int
  | VFloat float64
  | VNumber string
  | VString string
  | VStrings "string list"
  | VList "gval list"
  | VMap "(string \<times> gval) list"
  | VComposite "gval option"

type_synonym gmap = "(string \<times> gval) list"

definition SchemaVersion :: string where "SchemaVersion = ''0.1''"

section \<open>Trust levels\<close>

type_synonym TrustLevel = string

definition TrustSystem :: TrustLevel where "TrustSystem = ''system''"
definition TrustSignedPolicy :: TrustLevel where "TrustSignedPolicy = ''signed_policy''"
definition TrustOperator :: TrustLevel where "TrustOperator = ''operator''"
definition TrustTrustedConfig :: TrustLevel where "TrustTrustedConfig = ''trusted_config''"
definition TrustUntrustedTelemetry :: TrustLevel where "TrustUntrustedTelemetry = ''untrusted_telemetry''"
definition TrustUntrustedCode :: TrustLevel where "TrustUntrustedCode = ''untrusted_code''"
definition TrustUntrustedNetwork :: TrustLevel where "TrustUntrustedNetwork = ''untrusted_network''"

lemmas trust_defs = TrustSystem_def TrustSignedPolicy_def TrustOperator_def TrustTrustedConfig_def
  TrustUntrustedTelemetry_def TrustUntrustedCode_def TrustUntrustedNetwork_def

definition IsUntrusted :: "TrustLevel \<Rightarrow> bool" where
  "IsUntrusted t = (t \<in> {TrustUntrustedTelemetry, TrustUntrustedCode, TrustUntrustedNetwork})"

definition ParseTrustLevel :: "string \<Rightarrow> TrustLevel" where
  "ParseTrustLevel value =
     (let v = ToLower (TrimSpace value)
      in if v = TrustSystem then TrustSystem
         else if v = TrustSignedPolicy then TrustSignedPolicy
         else if v = TrustOperator then TrustOperator
         else if v = TrustTrustedConfig then TrustTrustedConfig
         else if v = TrustUntrustedCode then TrustUntrustedCode
         else if v = TrustUntrustedNetwork then TrustUntrustedNetwork
         else TrustUntrustedTelemetry)"

section \<open>Severities, risks and modes\<close>

type_synonym Severity = string

definition SeverityInfo :: Severity where "SeverityInfo = ''info''"
definition SeverityLow :: Severity where "SeverityLow = ''low''"
definition SeverityMedium :: Severity where "SeverityMedium = ''medium''"
definition SeverityHigh :: Severity where "SeverityHigh = ''high''"
definition SeverityCritical :: Severity where "SeverityCritical = ''critical''"

lemmas severity_defs = SeverityInfo_def SeverityLow_def SeverityMedium_def SeverityHigh_def
  SeverityCritical_def

type_synonym ActionRisk = string

definition RiskObserve :: ActionRisk where "RiskObserve = ''observe''"
definition RiskContain :: ActionRisk where "RiskContain = ''contain''"
definition RiskModify :: ActionRisk where "RiskModify = ''modify''"
definition RiskDestructive :: ActionRisk where "RiskDestructive = ''destructive''"

lemmas risk_defs = RiskObserve_def RiskContain_def RiskModify_def RiskDestructive_def

type_synonym ActionMode = string

definition ModeObserve :: ActionMode where "ModeObserve = ''observe''"
definition ModePlan :: ActionMode where "ModePlan = ''plan''"
definition ModeAct :: ActionMode where "ModeAct = ''act''"
definition ModeAuto :: ActionMode where "ModeAuto = ''auto''"

lemmas mode_defs = ModeObserve_def ModePlan_def ModeAct_def ModeAuto_def

section \<open>Events\<close>

record Asset =
  asset_ID :: string
  asset_Hostname :: string
  asset_OS :: string
  asset_IPs :: "string list"

record Actor =
  actor_User :: string
  actor_AccountID :: string
  actor_SessionID :: string

record ProcessContext =
  proc_PID :: int
  proc_PPID :: int
  proc_Image :: string
  proc_ParentImage :: string
  proc_CommandLine :: string
  proc_ExecutableSHA256 :: string
  proc_IntegrityLevel :: string
  proc_ContainerID :: string
  proc_CodeSignatureInfo :: string

record NetworkContext =
  net_SourceIP :: string
  net_SourcePort :: int
  net_DestinationIP :: string
  net_DestinationPort :: int
  net_Protocol :: string
  net_Domain :: string
  net_Direction :: string

record HTTPContext =
  http_Method :: string
  http_Path :: string
  http_Query :: string
  http_Status :: int
  http_UserAgent :: string
  http_Referer :: string
  http_Host :: string
  http_RequestID :: string
  http_BytesSent :: int
  http_DurationMS :: int

record DatabaseContext =
  db_Engine :: string
  db_Instance :: string
  db_User :: string
  db_Database :: string
  db_QueryFingerprint :: string
  db_QueryVerbs :: "string list"
  db_Rows :: int
  db_DurationMS :: int

record FileContext =
  file_Path :: string
  file_Operation :: string
  file_SHA256 :: string
  file_Size :: int
  file_Owner :: string
  file_Executable :: bool

record Provenance =
  prov_Source :: string
  prov_Collector :: string
  prov_OriginalPath :: string
  prov_LineNumber :: int
  prov_ReceivedAt :: gtime
  prov_ContentSHA256 :: string

record Event =
  ev_SchemaVersion :: string
  ev_ID :: string
  ev_Timestamp :: gtime
  ev_AgentID :: string
  ev_TenantID :: string
  ev_Kind :: string
  ev_Severity :: Severity
  ev_Trust :: TrustLevel
  ev_Asset :: Asset
  ev_Actor :: Actor
  ev_Process :: ProcessContext
  ev_Network :: NetworkContext
  ev_HTTP :: HTTPContext
  ev_Database :: DatabaseContext
  ev_File :: FileContext
  ev_Message :: string
  ev_Attributes :: "gmap option"
  ev_Provenance :: Provenance

text \<open>The zero value of an event.\<close>

definition zero_Event :: Event where
  "zero_Event =
     \<lparr>ev_SchemaVersion = [], ev_ID = [], ev_Timestamp = 0, ev_AgentID = [], ev_TenantID = [],
      ev_Kind = [], ev_Severity = [], ev_Trust = [],
      ev_Asset = \<lparr>asset_ID = [], asset_Hostname = [], asset_OS = [], asset_IPs = []\<rparr>,
      ev_Actor = \<lparr>actor_User = [], actor_AccountID = [], actor_SessionID = []\<rparr>,
      ev_Process = \<lparr>proc_PID = 0, proc_PPID = 0, proc_Image = [], proc_ParentImage = [],
        proc_CommandLine = [], proc_ExecutableSHA256 = [], proc_IntegrityLevel = [],
        proc_ContainerID = [], proc_CodeSignatureInfo = []\<rparr>,
      ev_Network = \<lparr>net_SourceIP = [], net_SourcePort = 0, net_DestinationIP = [],
        net_DestinationPort = 0, net_Protocol = [], net_Domain = [], net_Direction = []\<rparr>,
      ev_HTTP = \<lparr>http_Method = [], http_Path = [], http_Query = [], http_Status = 0,
        http_UserAgent = [], http_Referer = [], http_Host = [], http_RequestID = [],
        http_BytesSent = 0, http_DurationMS = 0\<rparr>,
      ev_Database = \<lparr>db_Engine = [], db_Instance = [], db_User = [], db_Database = [],
        db_QueryFingerprint = [], db_QueryVerbs = [], db_Rows = 0, db_DurationMS = 0\<rparr>,
      ev_File = \<lparr>file_Path = [], file_Operation = [], file_SHA256 = [], file_Size = 0,
        file_Owner = [], file_Executable = False\<rparr>,
      ev_Message = [], ev_Attributes = None,
      ev_Provenance = \<lparr>prov_Source = [], prov_Collector = [], prov_OriginalPath = [],
        prov_LineNumber = 0, prov_ReceivedAt = 0, prov_ContentSHA256 = []\<rparr>\<rparr>"

text \<open>\<open>Event.Prepare\<close>; \<open>newid\<close> is what \<open>NewID("evt")\<close> returns, \<open>now1\<close> and \<open>now2\<close> are the two
  readings of the clock.\<close>

definition Event_Prepare :: "string \<Rightarrow> gtime \<Rightarrow> gtime \<Rightarrow> Event \<Rightarrow> Event" where
  "Event_Prepare newid now1 now2 e =
     e\<lparr>ev_SchemaVersion := (if ev_SchemaVersion e = [] then SchemaVersion else ev_SchemaVersion e),
       ev_ID := (if ev_ID e = [] then newid else ev_ID e),
       ev_Timestamp := (if IsZero (ev_Timestamp e) then now1 else ev_Timestamp e),
       ev_Kind := (if ev_Kind e = [] then ''log.observation'' else ev_Kind e),
       ev_Severity := (if ev_Severity e = [] then SeverityInfo else ev_Severity e),
       ev_Trust := (if ev_Trust e = [] then TrustUntrustedTelemetry else ev_Trust e),
       ev_Attributes := (case ev_Attributes e of None \<Rightarrow> Some [] | Some m \<Rightarrow> Some m),
       ev_Provenance := (ev_Provenance e)\<lparr>prov_ReceivedAt :=
          (if IsZero (prov_ReceivedAt (ev_Provenance e)) then now2
           else prov_ReceivedAt (ev_Provenance e))\<rparr>\<rparr>"

section \<open>Findings\<close>

record Finding =
  fd_SchemaVersion :: string
  fd_ID :: string
  fd_Timestamp :: gtime
  fd_RuleID :: string
  fd_Title :: string
  fd_Description :: string
  fd_Severity :: Severity
  fd_Confidence :: int
  fd_Category :: string
  fd_TenantID :: string
  fd_AgentID :: string
  fd_Asset :: Asset
  fd_EvidenceEventIDs :: "string list"
  fd_MITRETactics :: "string list"
  fd_MITRETechniques :: "string list"
  fd_Attributes :: gmap
  fd_RecommendedSteps :: "string list"

text \<open>\<open>newid\<close> is what \<open>NewID("fnd")\<close> returns, \<open>now\<close> the reading of the clock.\<close>

definition NewFinding ::
  "string \<Rightarrow> gtime \<Rightarrow> Event \<Rightarrow> string \<Rightarrow> string \<Rightarrow> string \<Rightarrow> string \<Rightarrow> Severity \<Rightarrow> int \<Rightarrow> Finding" where
  "NewFinding newid now e ruleID title description category severity confidence =
     (let c0 = (if confidence < 0 then 0 else confidence);
          c1 = (if c0 > 100 then 100 else c0)
      in \<lparr>fd_SchemaVersion = SchemaVersion, fd_ID = newid, fd_Timestamp = now, fd_RuleID = ruleID,
          fd_Title = title, fd_Description = description, fd_Severity = severity,
          fd_Confidence = c1, fd_Category = category, fd_TenantID = ev_TenantID e,
          fd_AgentID = ev_AgentID e, fd_Asset = ev_Asset e, fd_EvidenceEventIDs = [ev_ID e],
          fd_MITRETactics = [], fd_MITRETechniques = [], fd_Attributes = [],
          fd_RecommendedSteps = []\<rparr>)"

section \<open>Actions\<close>

record Approval =
  app_ID :: string
  app_ActionDigest :: string
  app_ApprovedBy :: string
  app_ApprovedAt :: gtime
  app_ExpiresAt :: gtime

record ActionRequest =
  req_ID :: string
  req_Tool :: string
  req_Args :: "gmap option"
  req_Reason :: string
  req_Risk :: ActionRisk
  req_Mode :: ActionMode
  req_TriggerTrust :: TrustLevel
  req_RequestedBy :: string
  req_RequestedAt :: gtime
  req_ExpiresAt :: gtime
  req_Approval :: "Approval option"

definition ActionRequest_Prepare :: "string \<Rightarrow> gtime \<Rightarrow> ActionRequest \<Rightarrow> ActionRequest" where
  "ActionRequest_Prepare newid now a =
     a\<lparr>req_ID := (if req_ID a = [] then newid else req_ID a),
       req_Args := (case req_Args a of None \<Rightarrow> Some [] | Some m \<Rightarrow> Some m),
       req_Mode := (if req_Mode a = [] then ModeObserve else req_Mode a),
       req_TriggerTrust := (if req_TriggerTrust a = [] then TrustOperator else req_TriggerTrust a),
       req_RequestedAt := (if IsZero (req_RequestedAt a) then now else req_RequestedAt a)\<rparr>"

record Decision =
  dec_Allowed :: bool
  dec_RequiresApproval :: bool
  dec_Reason :: string
  dec_EvaluatedAt :: gtime
  dec_Risk :: ActionRisk

section \<open>Facts\<close>

lemma Event_Prepare_complete:
  assumes "newid \<noteq> []" "now1 \<noteq> 0" "now2 \<noteq> 0"
  shows "ev_ID (Event_Prepare newid now1 now2 e) \<noteq> []"
    and "ev_Timestamp (Event_Prepare newid now1 now2 e) \<noteq> 0"
    and "ev_Kind (Event_Prepare newid now1 now2 e) \<noteq> []"
    and "ev_Severity (Event_Prepare newid now1 now2 e) \<noteq> []"
    and "ev_Trust (Event_Prepare newid now1 now2 e) \<noteq> []"
    and "ev_Attributes (Event_Prepare newid now1 now2 e) \<noteq> None"
    and "prov_ReceivedAt (ev_Provenance (Event_Prepare newid now1 now2 e)) \<noteq> 0"
  using assms
  by (auto simp: Event_Prepare_def severity_defs trust_defs time_defs split: option.splits)

text \<open>Preparing twice is preparing once, whatever the second call reads.\<close>

lemma Event_Prepare_idem:
  assumes "newid \<noteq> []" "now1 \<noteq> 0" "now2 \<noteq> 0"
  shows "Event_Prepare newid' now1' now2' (Event_Prepare newid now1 now2 e) = Event_Prepare newid now1 now2 e"
  using assms
  by (simp add: Event_Prepare_def SchemaVersion_def severity_defs trust_defs time_defs
      split: option.splits)

lemma IsUntrusted_ParseTrustLevel:
  "IsUntrusted (ParseTrustLevel s) \<longleftrightarrow>
     ToLower (TrimSpace s) \<notin> {TrustSystem, TrustSignedPolicy, TrustOperator, TrustTrustedConfig}"
  by (auto simp: ParseTrustLevel_def IsUntrusted_def Let_def trust_defs)

lemma NewFinding_confidence:
  "0 \<le> fd_Confidence (NewFinding i n e r t d c s k) \<and> fd_Confidence (NewFinding i n e r t d c s k) \<le> 100"
  by (simp add: NewFinding_def Let_def)

end
