(* ===== verification/Go_Crypto.thy ===== *)
theory Go_Crypto
  imports Go_Strings
begin

text \<open>
  The cryptographic primitives the agent calls (\<open>crypto/sha256\<close>, \<open>crypto/ed25519\<close>) are a
  parameter of the model: a record that every definition using them takes as its argument \<open>C\<close>.
  What the code relies on is stated as named predicates on that record; everything else about
  the primitives is left open.
\<close>

record crypto =
  sha256_Sum :: "string \<Rightarrow> string"
  ed25519_Sign :: "string \<Rightarrow> string \<Rightarrow> string"
  ed25519_Verify :: "string \<Rightarrow> string \<Rightarrow> string \<Rightarrow> bool"
  ed25519_Public :: "string \<Rightarrow> string"

definition sha_hex :: "crypto \<Rightarrow> string \<Rightarrow> string" where
  "sha_hex C s = hex_EncodeToString (sha256_Sum C s)"

text \<open>A signature made with a private key verifies under its public key.\<close>

definition signatures_verify :: "crypto \<Rightarrow> bool" where
  "signatures_verify C = (\<forall>k m. ed25519_Verify C (ed25519_Public C k) m (ed25519_Sign C k m))"

text \<open>A SHA-256 digest has 32 bytes.\<close>

definition digests_fixed :: "crypto \<Rightarrow> bool" where
  "digests_fixed C = (\<forall>s. length (sha256_Sum C s) = 32)"

text \<open>\<open>collision C A\<close>: two different strings of \<open>A\<close> have the same digest. For the finite sets of
  strings a run has hashed this is an event that SHA-256 makes infeasible to bring about.\<close>

definition collision :: "crypto \<Rightarrow> string set \<Rightarrow> bool" where
  "collision C A = (\<exists>x\<in>A. \<exists>y\<in>A. x \<noteq> y \<and> sha256_Sum C x = sha256_Sum C y)"

lemma collision_mono: "collision C A \<Longrightarrow> A \<subseteq> B \<Longrightarrow> collision C B"
  by (auto simp: collision_def)

lemma sha_hex_eq: "sha_hex C x = sha_hex C y \<longleftrightarrow> sha256_Sum C x = sha256_Sum C y"
  by (simp add: sha_hex_def hex_inject)

lemma sha_hex_eq_or_collision: "sha_hex C x = sha_hex C y \<Longrightarrow> x \<noteq> y \<Longrightarrow> collision C {x, y}"
  by (auto simp: collision_def sha_hex_eq)

lemma sha_hex_no_nul: "CHR 0x00 \<notin> set (sha_hex C s)"
  unfolding sha_hex_def by (rule hex_not_in) simp

lemma length_sha_hex: "digests_fixed C \<Longrightarrow> length (sha_hex C s) = 64"
  by (simp add: sha_hex_def digests_fixed_def)

text \<open>A concrete instance, for evaluating the model: the digest is the padded or truncated input, a
  signature is the key followed by the message.\<close>

definition toy_crypto :: crypto where
  "toy_crypto = \<lparr>sha256_Sum = (\<lambda>s. take 32 (s @ replicate 32 CHR ''0'')),
     ed25519_Sign = (\<lambda>k m. k @ m), ed25519_Verify = (\<lambda>pk m s. s = pk @ m),
     ed25519_Public = (\<lambda>k. k)\<rparr>"

lemma toy_crypto_laws: "signatures_verify toy_crypto" "digests_fixed toy_crypto"
  by (auto simp: signatures_verify_def digests_fixed_def toy_crypto_def min_def)

end
