(* ===== verification/Policy.thy ===== *)
theory Policy
  imports Model Go_Crypto
begin

text \<open>
  Package \<open>internal/policy\<close>: the deterministic gate every action passes. \<open>Evaluate\<close> is modelled
  branch by branch; the theorems say exactly when it allows an action and what the operator's
  approval is bound to.
\<close>

section \<open>Policies\<close>

record Policy =
  pol_Version :: string
  pol_DenyTools :: "string list"
  pol_AutoAllowTools :: "string list"
  pol_ApprovalRequiredTools :: "string list"
  pol_NeverAllowDestructive :: bool
  pol_DenyUntrustedStateWrite :: bool
  pol_MaxActionTTLSeconds :: int

definition Default :: Policy where
  "Default =
     \<lparr>pol_Version = ''1'',
      pol_DenyTools = [''shell.exec'', ''powershell.exec'', ''cmd.exec''],
      pol_AutoAllowTools = [''host.info'', ''file.stat'', ''file.sha256'', ''file.read_lines''],
      pol_ApprovalRequiredTools =
        [''host.isolate'', ''process.terminate'', ''file.quarantine'', ''firewall.block'', ''firewall.port''],
      pol_NeverAllowDestructive = True,
      pol_DenyUntrustedStateWrite = True,
      pol_MaxActionTTLSeconds = 300\<rparr>"

datatype policy_error = ErrReadPolicy | ErrDecodePolicy | ErrPolicyVersion

text \<open>\<open>Load\<close>: \<open>read\<close> is the result of reading the file, \<open>unmarshal\<close> decodes JSON over the default
  policy it is given.\<close>

definition Load ::
  "(Policy \<Rightarrow> string \<Rightarrow> Policy option) \<Rightarrow> string option \<Rightarrow> (policy_error, Policy) result" where
  "Load unmarshal read =
     (case read of
        None \<Rightarrow> Inl ErrReadPolicy
      | Some text \<Rightarrow>
          (case unmarshal Default text of
             None \<Rightarrow> Inl ErrDecodePolicy
           | Some pol \<Rightarrow>
               if pol_Version pol = [] then Inl ErrPolicyVersion
               else if pol_MaxActionTTLSeconds pol \<le> 0
               then Inr (pol\<lparr>pol_MaxActionTTLSeconds := 300\<rparr>)
               else Inr pol))"

section \<open>The digest of an action\<close>

record canonical_action =
  can_Tool :: string
  can_Args :: "gmap option"
  can_Reason :: string
  can_Risk :: ActionRisk
  can_TriggerTrust :: TrustLevel

definition canonical_of :: "ActionRequest \<Rightarrow> canonical_action" where
  "canonical_of r =
     \<lparr>can_Tool = req_Tool r, can_Args = req_Args r, can_Reason = req_Reason r,
      can_Risk = req_Risk r, can_TriggerTrust = req_TriggerTrust r\<rparr>"

text \<open>\<open>ActionDigest\<close>: \<open>mj\<close> is \<open>json.Marshal\<close> on the canonical structure, \<open>None\<close> its error.\<close>

definition ActionDigest ::
  "crypto \<Rightarrow> (canonical_action \<Rightarrow> string option) \<Rightarrow> ActionRequest \<Rightarrow> string option" where
  "ActionDigest C mj r = map_option (sha_hex C) (mj (canonical_of r))"

section \<open>Evaluation\<close>

definition decide :: "gtime \<Rightarrow> ActionRisk \<Rightarrow> bool \<Rightarrow> bool \<Rightarrow> string \<Rightarrow> Decision" where
  "decide now risk allowed needs reason =
     \<lparr>dec_Allowed = allowed, dec_RequiresApproval = needs, dec_Reason = reason,
      dec_EvaluatedAt = now, dec_Risk = risk\<rparr>"

text \<open>\<open>Engine.Evaluate\<close>. \<open>newid\<close> and \<open>t0\<close> are what \<open>Prepare\<close> draws for a missing ID and request
  time, \<open>now\<close> is the clock reading that follows.\<close>

definition Evaluate ::
  "crypto \<Rightarrow> (canonical_action \<Rightarrow> string option) \<Rightarrow> Policy \<Rightarrow> string \<Rightarrow> gtime \<Rightarrow> gtime \<Rightarrow>
     ActionRequest \<Rightarrow> Decision" where
  "Evaluate C mj pol newid t0 now request0 =
     (let request = ActionRequest_Prepare newid t0 request0;
          risk = req_Risk request;
          ttl = seconds (pol_MaxActionTTLSeconds pol);
          stop = decide now risk False False
      in if req_Tool request \<in> set (pol_DenyTools pol) then stop ''tool is explicitly denied by policy''
         else
           let expires = (if IsZero (req_ExpiresAt request) then req_RequestedAt request + ttl
                          else req_ExpiresAt request)
           in if Before expires now then stop ''action request expired''
              else if After expires (req_RequestedAt request + ttl)
              then stop ''action request exceeds maximum TTL''
              else if pol_NeverAllowDestructive pol \<and> risk = RiskDestructive
              then stop ''destructive actions are disabled in the foundation policy''
              else if pol_DenyUntrustedStateWrite pol \<and> IsUntrusted (req_TriggerTrust request)
                      \<and> risk \<noteq> RiskObserve
              then stop ''untrusted evidence cannot directly trigger a state-changing action''
              else if risk = RiskObserve \<and> req_Tool request \<in> set (pol_AutoAllowTools pol)
              then decide now risk True False ''read-only tool is auto-allowed''
              else if risk = RiskObserve \<and> req_Mode request = ModeObserve
              then decide now risk True False ''read-only action allowed in observe mode''
              else if risk = RiskContain \<or> risk = RiskModify
                      \<or> req_Tool request \<in> set (pol_ApprovalRequiredTools pol)
              then (case req_Approval request of
                      None \<Rightarrow> decide now risk False True ''operator approval is required''
                    | Some a \<Rightarrow>
                        (case ActionDigest C mj (request\<lparr>req_ExpiresAt := expires\<rparr>) of
                           None \<Rightarrow> decide now risk False True ''unable to calculate action digest''
                         | Some digest \<Rightarrow>
                             if app_ActionDigest a \<noteq> digest \<or> Before (app_ExpiresAt a) now
                                \<or> app_ApprovedBy a = []
                             then decide now risk False True
                                    ''approval does not match this exact action or has expired''
                             else decide now risk True True ''exact action approved by operator''))
              else stop ''tool is not allowed by the active policy'')"

section \<open>When an action is allowed\<close>

text \<open>The request an evaluation is about, with the defaults \<open>Prepare\<close> and the expiry rule fill in.\<close>

definition effective :: "Policy \<Rightarrow> string \<Rightarrow> gtime \<Rightarrow> ActionRequest \<Rightarrow> ActionRequest" where
  "effective pol newid t0 r =
     (let q = ActionRequest_Prepare newid t0 r
      in q\<lparr>req_ExpiresAt := (if IsZero (req_ExpiresAt q)
            then req_RequestedAt q + seconds (pol_MaxActionTTLSeconds pol) else req_ExpiresAt q)\<rparr>)"

text \<open>An approval that covers a request at a given time.\<close>

definition approves :: "crypto \<Rightarrow> (canonical_action \<Rightarrow> string option) \<Rightarrow> gtime \<Rightarrow> Approval \<Rightarrow> ActionRequest \<Rightarrow> bool" where
  "approves C mj now a r =
     (ActionDigest C mj r = Some (app_ActionDigest a) \<and> now \<le> app_ExpiresAt a \<and> app_ApprovedBy a \<noteq> [])"

definition live :: "Policy \<Rightarrow> gtime \<Rightarrow> ActionRequest \<Rightarrow> bool" where
  "live pol now r =
     (now \<le> req_ExpiresAt r
      \<and> req_ExpiresAt r \<le> req_RequestedAt r + seconds (pol_MaxActionTTLSeconds pol))"

definition barred :: "Policy \<Rightarrow> ActionRequest \<Rightarrow> bool" where
  "barred pol r =
     (req_Tool r \<in> set (pol_DenyTools pol)
      \<or> (pol_NeverAllowDestructive pol \<and> req_Risk r = RiskDestructive)
      \<or> (pol_DenyUntrustedStateWrite pol \<and> IsUntrusted (req_TriggerTrust r) \<and> req_Risk r \<noteq> RiskObserve))"

definition read_only_ok :: "Policy \<Rightarrow> ActionRequest \<Rightarrow> bool" where
  "read_only_ok pol r =
     (req_Risk r = RiskObserve \<and> (req_Tool r \<in> set (pol_AutoAllowTools pol) \<or> req_Mode r = ModeObserve))"

definition needs_approval :: "Policy \<Rightarrow> ActionRequest \<Rightarrow> bool" where
  "needs_approval pol r =
     (req_Risk r = RiskContain \<or> req_Risk r = RiskModify \<or> req_Tool r \<in> set (pol_ApprovalRequiredTools pol))"

lemma effective_sel [simp]:
  "req_Tool (effective pol i t r) = req_Tool r" "req_Risk (effective pol i t r) = req_Risk r"
  "req_Approval (effective pol i t r) = req_Approval r" "req_Reason (effective pol i t r) = req_Reason r"
  by (simp_all add: effective_def ActionRequest_Prepare_def Let_def)

lemma effective_trust:
  "req_TriggerTrust (effective pol i t r) = (if req_TriggerTrust r = [] then TrustOperator else req_TriggerTrust r)"
  by (simp add: effective_def ActionRequest_Prepare_def Let_def)

text \<open>\<open>Evaluate\<close> as a function of the effective request: the outcome of each check in order.\<close>

definition gate :: "crypto \<Rightarrow> (canonical_action \<Rightarrow> string option) \<Rightarrow> Policy \<Rightarrow> gtime \<Rightarrow> ActionRequest \<Rightarrow> bool" where
  "gate C mj pol now q =
     (if barred pol q \<or> \<not> live pol now q then False
      else if read_only_ok pol q then True
      else if needs_approval pol q then
        (case req_Approval q of None \<Rightarrow> False | Some a \<Rightarrow> approves C mj now a q)
      else False)"

lemma dec_decide [simp]:
  "dec_Allowed (decide now risk a n s) = a" "dec_RequiresApproval (decide now risk a n s) = n"
  "dec_Risk (decide now risk a n s) = risk" "dec_EvaluatedAt (decide now risk a n s) = now"
  by (simp_all add: decide_def)

lemma if_select:
  "dec_Allowed (if b then x else y) = (if b then dec_Allowed x else dec_Allowed y)"
  "dec_RequiresApproval (if b then x else y) = (if b then dec_RequiresApproval x else dec_RequiresApproval y)"
  "dec_Risk (if b then x else y) = (if b then dec_Risk x else dec_Risk y)"
  by simp_all

lemma case_select:
  "dec_Allowed (case v of None \<Rightarrow> x | Some a \<Rightarrow> f a) = (case v of None \<Rightarrow> dec_Allowed x | Some a \<Rightarrow> dec_Allowed (f a))"
  "dec_RequiresApproval (case v of None \<Rightarrow> x | Some a \<Rightarrow> f a) =
     (case v of None \<Rightarrow> dec_RequiresApproval x | Some a \<Rightarrow> dec_RequiresApproval (f a))"
  "dec_Risk (case v of None \<Rightarrow> x | Some a \<Rightarrow> f a) = (case v of None \<Rightarrow> dec_Risk x | Some a \<Rightarrow> dec_Risk (f a))"
  by (simp_all split: option.split)

lemma check_order:
  "(if d then False else if b then False else if a then False else if n then False else if u then False
    else if r1 then True else if r2 then True else if na then v else False) =
   (if (d \<or> n \<or> u) \<or> \<not> (\<not> b \<and> \<not> a) then False else if r1 \<or> r2 then True
    else if na then v else False)"
  by simp

lemma allowed_gate:
  "dec_Allowed (Evaluate C mj pol newid t0 now r) = gate C mj pol now (effective pol newid t0 r)"
proof -
  define p where "p = ActionRequest_Prepare newid t0 r"
  define x where "x = (if IsZero (req_ExpiresAt p)
    then req_RequestedAt p + seconds (pol_MaxActionTTLSeconds pol) else req_ExpiresAt p)"
  define q where "q = p\<lparr>req_ExpiresAt := x\<rparr>"
  have q: "effective pol newid t0 r = q" by (simp add: effective_def p_def q_def x_def Let_def)
  have sel: "req_Tool q = req_Tool p" "req_Risk q = req_Risk p" "req_Mode q = req_Mode p"
    "req_TriggerTrust q = req_TriggerTrust p" "req_Approval q = req_Approval p"
    "req_RequestedAt q = req_RequestedAt p" "req_ExpiresAt q = x" by (simp_all add: q_def)
  have "dec_Allowed (Evaluate C mj pol newid t0 now r) =
    (if req_Tool p \<in> set (pol_DenyTools pol) then False
     else if Before x now then False
     else if After x (req_RequestedAt p + seconds (pol_MaxActionTTLSeconds pol)) then False
     else if pol_NeverAllowDestructive pol \<and> req_Risk p = RiskDestructive then False
     else if pol_DenyUntrustedStateWrite pol \<and> IsUntrusted (req_TriggerTrust p) \<and> req_Risk p \<noteq> RiskObserve then False
     else if req_Risk p = RiskObserve \<and> req_Tool p \<in> set (pol_AutoAllowTools pol) then True
     else if req_Risk p = RiskObserve \<and> req_Mode p = ModeObserve then True
     else if needs_approval pol q
     then (case req_Approval p of None \<Rightarrow> False
           | Some a \<Rightarrow> (case ActionDigest C mj q of None \<Rightarrow> False
              | Some d \<Rightarrow> if app_ActionDigest a \<noteq> d \<or> Before (app_ExpiresAt a) now \<or> app_ApprovedBy a = [] then False else True))
     else False)"
    unfolding Evaluate_def Let_def p_def [symmetric] x_def [symmetric] q_def [symmetric]
      needs_approval_def sel
    by (simp only: if_select case_select dec_decide)
  also have "\<dots> = gate C mj pol now q"
  proof -
    have v: "(case req_Approval p of None \<Rightarrow> False
           | Some a \<Rightarrow> (case ActionDigest C mj q of None \<Rightarrow> False
              | Some d \<Rightarrow> if app_ActionDigest a \<noteq> d \<or> Before (app_ExpiresAt a) now \<or> app_ApprovedBy a = [] then False else True)) =
      (case req_Approval q of None \<Rightarrow> False | Some a \<Rightarrow> approves C mj now a q)"
      by (cases "ActionDigest C mj q"; cases "req_Approval p")
        (auto simp: approves_def sel Before_def)
    have l: "live pol now q \<longleftrightarrow>
        \<not> Before x now \<and> \<not> After x (req_RequestedAt p + seconds (pol_MaxActionTTLSeconds pol))"
      unfolding live_def sel time_defs by linarith
    have r: "read_only_ok pol q \<longleftrightarrow>
        (req_Risk p = RiskObserve \<and> req_Tool p \<in> set (pol_AutoAllowTools pol))
        \<or> (req_Risk p = RiskObserve \<and> req_Mode p = ModeObserve)"
      unfolding read_only_ok_def sel by blast
    show ?thesis unfolding v gate_def l r barred_def sel by (rule check_order)
  qed
  finally show ?thesis by (simp add: q)
qed

lemma allowed_iff:
  "dec_Allowed (Evaluate C mj pol newid t0 now r) \<longleftrightarrow>
     (let q = effective pol newid t0 r
      in \<not> barred pol q \<and> live pol now q
         \<and> (read_only_ok pol q
            \<or> (needs_approval pol q \<and> (\<exists>a. req_Approval q = Some a \<and> approves C mj now a q))))"
  unfolding allowed_gate gate_def Let_def by (simp split: option.split)

lemma decision_risk: "dec_Risk (Evaluate C mj pol newid t0 now r) = req_Risk r"
proof -
  have "req_Risk (ActionRequest_Prepare newid t0 r) = req_Risk r" by (simp add: ActionRequest_Prepare_def)
  moreover have "dec_Risk (Evaluate C mj pol newid t0 now r) = req_Risk (ActionRequest_Prepare newid t0 r)"
    unfolding Evaluate_def Let_def by (simp only: if_select case_select dec_decide if_cancel option.case_eq_if)
  ultimately show ?thesis by simp
qed

section \<open>What the gate guarantees\<close>

text \<open>The consequences of an allowed state-changing action, shared by the properties below.\<close>

lemma allowed_approval:
  assumes "dec_Allowed (Evaluate C mj pol newid t0 now r)" and "req_Risk r \<noteq> RiskObserve"
  shows "\<exists>a. req_Approval r = Some a \<and> approves C mj now a (effective pol newid t0 r)"
  using assms by (auto simp: allowed_iff Let_def read_only_ok_def)

lemma allowed_live:
  "dec_Allowed (Evaluate C mj pol newid t0 now r) \<Longrightarrow> live pol now (effective pol newid t0 r)"
  by (simp add: allowed_iff Let_def)

lemma approves_text:
  assumes "approves C mj now a r"
  obtains j where "mj (canonical_of r) = Some j" "app_ActionDigest a = sha_hex C j"
  using assms by (auto simp: approves_def ActionDigest_def)

lemma effective_requested:
  "req_RequestedAt (effective pol newid t0 r) = (if req_RequestedAt r = 0 then t0 else req_RequestedAt r)"
  by (simp add: effective_def ActionRequest_Prepare_def Let_def time_defs)

text \<open>C1. Exactly when the engine allows an action: no deny rule of the policy hits the request as
  \<open>Prepare\<close> and the expiry rule complete it, the evaluation falls in its life time and that life
  time does not exceed the policy's maximum, and the request is either a read-only one the policy
  auto-allows (or made in observe mode), or one that needs approval and carries an unexpired
  approval, by a named operator, of the digest of this very action. The risk reported is the
  request's.\<close>

theorem Evaluate_allowed_iff:
  "(dec_Allowed (Evaluate C mj pol newid t0 now r) \<longleftrightarrow>
     \<not> barred pol (effective pol newid t0 r) \<and> live pol now (effective pol newid t0 r)
     \<and> (read_only_ok pol (effective pol newid t0 r)
        \<or> needs_approval pol (effective pol newid t0 r)
          \<and> (case req_Approval r of None \<Rightarrow> False
             | Some a \<Rightarrow> approves C mj now a (effective pol newid t0 r))))
   \<and> dec_Risk (Evaluate C mj pol newid t0 now r) = req_Risk r"
  by (auto simp: allowed_iff Let_def decision_risk split: option.splits)

text \<open>C2. A state-changing action the engine allows carries an operator's approval, and one approval
  never covers two different actions: if the same approval got two state-changing requests allowed,
  under whatever policies and at whatever times, then both have the same canonical JSON text (tool,
  arguments, reason, risk and trigger trust), or the run has hashed two different texts to the same
  SHA-256 digest.\<close>

theorem approval_covers_one_action:
  assumes "dec_Allowed (Evaluate C mj pol newid t0 now r)"
    and "dec_Allowed (Evaluate C mj pol' newid' t0' now' r')"
    and "req_Risk r \<noteq> RiskObserve" and "req_Risk r' \<noteq> RiskObserve"
    and "req_Approval r = req_Approval r'"
  shows "\<exists>a j j'. req_Approval r = Some a \<and> app_ApprovedBy a \<noteq> []
    \<and> now \<le> app_ExpiresAt a \<and> now' \<le> app_ExpiresAt a
    \<and> mj (canonical_of (effective pol newid t0 r)) = Some j
    \<and> mj (canonical_of (effective pol' newid' t0' r')) = Some j'
    \<and> (j = j' \<or> collision C {j, j'})"
proof -
  obtain a where a: "req_Approval r = Some a" "approves C mj now a (effective pol newid t0 r)"
    using allowed_approval assms(1,3) by blast
  obtain a' where "req_Approval r' = Some a'" "approves C mj now' a' (effective pol' newid' t0' r')"
    using allowed_approval assms(2,4) by blast
  with a assms(5) have a': "approves C mj now' a (effective pol' newid' t0' r')" by simp
  obtain j where j: "mj (canonical_of (effective pol newid t0 r)) = Some j" "app_ActionDigest a = sha_hex C j"
    using a(2) by (rule approves_text)
  obtain j' where j': "mj (canonical_of (effective pol' newid' t0' r')) = Some j'" "app_ActionDigest a = sha_hex C j'"
    using a' by (rule approves_text)
  have "j = j' \<or> collision C {j, j'}" using j(2) j'(2) sha_hex_eq_or_collision by metis
  with a a' j j' show ?thesis by (auto simp: approves_def)
qed

text \<open>A concrete approved containment request.\<close>

definition demo_mj :: "canonical_action \<Rightarrow> string option" where
  "demo_mj c = Some (can_Tool c @ can_Reason c)"

definition demo_request :: ActionRequest where
  "demo_request = \<lparr>req_ID = ''a1'', req_Tool = ''host.isolate'', req_Args = None, req_Reason = ''r'',
     req_Risk = ''contain'', req_Mode = ''act'', req_TriggerTrust = ''operator'', req_RequestedBy = ''op'',
     req_RequestedAt = 1000, req_ExpiresAt = 0,
     req_Approval = Some \<lparr>app_ID = ''p'',
       app_ActionDigest = sha_hex toy_crypto ''host.isolater'', app_ApprovedBy = ''op'',
       app_ApprovedAt = 1000, app_ExpiresAt = 5000\<rparr>\<rparr>"

lemma seconds_300: "seconds 300 = 300000000000"
  by (simp add: seconds_exact Second_def)

lemma demo_allowed: "dec_Allowed (Evaluate toy_crypto demo_mj Default i t 2000 demo_request)"
  by (simp add: allowed_iff Let_def effective_def barred_def live_def read_only_ok_def needs_approval_def
      approves_def ActionDigest_def canonical_of_def demo_mj_def demo_request_def Default_def
      ActionRequest_Prepare_def risk_defs trust_defs mode_defs IsUntrusted_def time_defs seconds_300)

theorem approval_covers_one_action_witness:
  "\<exists>a j j'. req_Approval demo_request = Some a \<and> app_ApprovedBy a \<noteq> []
    \<and> 2000 \<le> app_ExpiresAt a \<and> 2000 \<le> app_ExpiresAt a
    \<and> demo_mj (canonical_of (effective Default [] 0 demo_request)) = Some j
    \<and> demo_mj (canonical_of (effective Default ''b'' 7 demo_request)) = Some j'
    \<and> (j = j' \<or> collision toy_crypto {j, j'})"
  by (rule approval_covers_one_action [OF demo_allowed demo_allowed])
    (simp_all add: demo_request_def risk_defs)

text \<open>No approval overrides a deny rule: whatever approval it carries, a request for a tool on the
  deny list, a destructive request under \<open>never_allow_destructive\<close>, and a state-changing request
  triggered by untrusted evidence under \<open>deny_untrusted_state_write\<close> are refused. The default policy
  has all three rules.\<close>

theorem deny_rules_are_final:
  "\<not> (dec_Allowed (Evaluate C mj pol newid t0 now r)
     \<and> (req_Tool r \<in> set (pol_DenyTools pol)
        \<or> (pol_NeverAllowDestructive pol \<and> req_Risk r = RiskDestructive)
        \<or> (pol_DenyUntrustedStateWrite pol \<and> IsUntrusted (req_TriggerTrust r) \<and> req_Risk r \<noteq> RiskObserve)))
   \<and> set [''shell.exec'', ''powershell.exec'', ''cmd.exec''] \<subseteq> set (pol_DenyTools Default)
   \<and> pol_NeverAllowDestructive Default \<and> pol_DenyUntrustedStateWrite Default"
proof -
  have "IsUntrusted (req_TriggerTrust r) \<Longrightarrow> req_TriggerTrust r \<noteq> []"
    by (auto simp: IsUntrusted_def trust_defs)
  then show ?thesis
    by (auto simp: allowed_iff Let_def barred_def effective_trust Default_def)
qed

text \<open>Life time: for a policy whose maximum life time (in seconds) fits a \<open>Duration\<close>, an action is
  allowed only within that many seconds of the request time it states, and never after the expiry it
  states.\<close>

theorem allowed_within_ttl:
  assumes "dec_Allowed (Evaluate C mj pol newid t0 now r)"
    and "0 \<le> pol_MaxActionTTLSeconds pol" and "pol_MaxActionTTLSeconds pol \<le> 9223372036"
  shows "now \<le> (if req_RequestedAt r = 0 then t0 else req_RequestedAt r) + pol_MaxActionTTLSeconds pol * Second
    \<and> (req_ExpiresAt r = 0 \<or> now \<le> req_ExpiresAt r)"
proof -
  have l: "now \<le> req_ExpiresAt (effective pol newid t0 r)"
    "req_ExpiresAt (effective pol newid t0 r)
       \<le> (if req_RequestedAt r = 0 then t0 else req_RequestedAt r) + pol_MaxActionTTLSeconds pol * Second"
    using allowed_live [OF assms(1)] by (simp_all add: live_def effective_requested seconds_exact assms)
  have "req_ExpiresAt r \<noteq> 0 \<Longrightarrow> req_ExpiresAt (effective pol newid t0 r) = req_ExpiresAt r"
    by (simp add: effective_def ActionRequest_Prepare_def Let_def time_defs)
  with l show ?thesis by fastforce
qed

theorem allowed_within_ttl_witness:
  "2000 \<le> (if req_RequestedAt demo_request = 0 then 0 else req_RequestedAt demo_request)
      + pol_MaxActionTTLSeconds Default * Second
   \<and> (req_ExpiresAt demo_request = 0 \<or> 2000 \<le> req_ExpiresAt demo_request)"
  by (rule allowed_within_ttl [OF demo_allowed]) (simp_all add: Default_def)

end
