(* ===== verification/Go_OS.thy ===== *)
theory Go_OS
  imports Go_Strings
begin

text \<open>
  The operating system as the agent sees it through Go's packages \<open>os\<close> and \<open>time\<close>: a store
  of regular files, a wall clock, and failures. Every call may fail (\<open>faults\<close> says which),
  and every call that changes the store leaves an event in \<open>events\<close>, so that the states in
  which a crash can leave the disk are the prefixes of that log (\<open>crashes\<close>).
\<close>

section \<open>State\<close>

record gofile =
  content :: string
  perm :: nat
  mtime :: gtime

type_synonym fs = "(string \<times> gofile) list"

text \<open>\<open>FErr\<close>: the call fails without effect. \<open>FPart n\<close>: a write fails after \<open>n\<close> bytes (for
  every other call it is a failure without effect).\<close>

datatype fault = FOk | FErr | FPart nat

datatype oserr = ErrNotExist | ErrExist | ErrIO

datatype fsevent =
    EvWrite string string nat gtime
  | EvAppend string string gtime
  | EvChmod string nat
  | EvRemove string
  | EvRename string string

record world =
  files :: fs
  faults :: "fault list"
  events :: "fsevent list"
  clock :: gtime
  clock_steps :: "int list"

type_synonym 'a io = "world \<Rightarrow> (oserr, 'a) result \<times> world"

definition fs_get :: "fs \<Rightarrow> string \<Rightarrow> gofile option" where
  "fs_get s p = map_of s p"

definition fs_put :: "string \<Rightarrow> gofile \<Rightarrow> fs \<Rightarrow> fs" where
  "fs_put p f s = AList.update p f s"

definition fs_del :: "string \<Rightarrow> fs \<Rightarrow> fs" where
  "fs_del p s = AList.delete p s"

text \<open>The content of a file, if it exists.\<close>

definition fs_content :: "fs \<Rightarrow> string \<Rightarrow> string option" where
  "fs_content s p = map_option content (fs_get s p)"

fun ev_apply :: "fsevent \<Rightarrow> fs \<Rightarrow> fs" where
  "ev_apply (EvWrite p c m t) s =
     fs_put p \<lparr>content = c, perm = (case fs_get s p of Some f \<Rightarrow> perm f | None \<Rightarrow> m), mtime = t\<rparr> s"
| "ev_apply (EvAppend p c t) s =
     (case fs_get s p of None \<Rightarrow> s
      | Some f \<Rightarrow> fs_put p (f\<lparr>content := content f @ c, mtime := t\<rparr>) s)"
| "ev_apply (EvChmod p m) s =
     (case fs_get s p of None \<Rightarrow> s | Some f \<Rightarrow> fs_put p (f\<lparr>perm := m\<rparr>) s)"
| "ev_apply (EvRemove p) s = fs_del p s"
| "ev_apply (EvRename a b) s =
     (case fs_get s a of None \<Rightarrow> s | Some f \<Rightarrow> fs_put b f (fs_del a s))"

declare ev_apply.simps [simp del, fs_simps]

section \<open>The calls\<close>

text \<open>\<open>time.Now()\<close>: the clock moves by an arbitrary amount after every reading.\<close>

definition time_Now :: "world \<Rightarrow> gtime \<times> world" where
  "time_Now w =
     (case clock_steps w of
        [] \<Rightarrow> (clock w, w)
      | d # ds \<Rightarrow> (clock w, w\<lparr>clock := clock w + d, clock_steps := ds\<rparr>))"

definition next_fault :: "world \<Rightarrow> fault \<times> world" where
  "next_fault w = (case faults w of [] \<Rightarrow> (FOk, w) | f # fs \<Rightarrow> (f, w\<lparr>faults := fs\<rparr>))"

definition emit :: "fsevent \<Rightarrow> world \<Rightarrow> world" where
  "emit e w = w\<lparr>files := ev_apply e (files w), events := events w @ [e]\<rparr>"

definition os_ReadFile :: "string \<Rightarrow> string io" where
  "os_ReadFile p w =
     (let (f, w1) = next_fault w
      in if f \<noteq> FOk then (Inl ErrIO, w1)
         else (case fs_get (files w1) p of
                 None \<Rightarrow> (Inl ErrNotExist, w1)
               | Some x \<Rightarrow> (Inr (content x), w1)))"

definition os_Stat :: "string \<Rightarrow> gofile io" where
  "os_Stat p w =
     (let (f, w1) = next_fault w
      in if f \<noteq> FOk then (Inl ErrIO, w1)
         else (case fs_get (files w1) p of
                 None \<Rightarrow> (Inl ErrNotExist, w1)
               | Some x \<Rightarrow> (Inr x, w1)))"

definition os_MkdirAll :: "string \<Rightarrow> nat \<Rightarrow> unit io" where
  "os_MkdirAll p m w =
     (let (f, w1) = next_fault w in if f \<noteq> FOk then (Inl ErrIO, w1) else (Inr (), w1))"

definition os_WriteFile :: "string \<Rightarrow> string \<Rightarrow> nat \<Rightarrow> unit io" where
  "os_WriteFile p c m w =
     (let (f, w1) = next_fault w
      in case f of
           FOk \<Rightarrow> (Inr (), emit (EvWrite p c m (clock w1)) w1)
         | FErr \<Rightarrow> (Inl ErrIO, w1)
         | FPart n \<Rightarrow> (Inl ErrIO, emit (EvWrite p (take n c) m (clock w1)) w1))"

text \<open>A write on a descriptor opened with \<open>O_APPEND\<close>.\<close>

definition file_Append :: "string \<Rightarrow> string \<Rightarrow> unit io" where
  "file_Append p c w =
     (let (f, w1) = next_fault w
      in case f of
           FOk \<Rightarrow> (Inr (), emit (EvAppend p c (clock w1)) w1)
         | FErr \<Rightarrow> (Inl ErrIO, w1)
         | FPart n \<Rightarrow> (Inl ErrIO, emit (EvAppend p (take n c) (clock w1)) w1))"

text \<open>\<open>Sync\<close> and \<open>Close\<close> on a descriptor: no visible effect, but they can fail.\<close>

definition file_Sync :: "string \<Rightarrow> unit io" where
  "file_Sync p w =
     (let (f, w1) = next_fault w in if f \<noteq> FOk then (Inl ErrIO, w1) else (Inr (), w1))"

definition os_Chmod :: "string \<Rightarrow> nat \<Rightarrow> unit io" where
  "os_Chmod p m w =
     (let (f, w1) = next_fault w
      in if f \<noteq> FOk then (Inl ErrIO, w1)
         else (case fs_get (files w1) p of
                 None \<Rightarrow> (Inl ErrNotExist, w1)
               | Some _ \<Rightarrow> (Inr (), emit (EvChmod p m) w1)))"

definition os_Remove :: "string \<Rightarrow> unit io" where
  "os_Remove p w =
     (let (f, w1) = next_fault w
      in if f \<noteq> FOk then (Inl ErrIO, w1)
         else (case fs_get (files w1) p of
                 None \<Rightarrow> (Inl ErrNotExist, w1)
               | Some _ \<Rightarrow> (Inr (), emit (EvRemove p) w1)))"

definition os_Rename :: "string \<Rightarrow> string \<Rightarrow> unit io" where
  "os_Rename a b w =
     (let (f, w1) = next_fault w
      in if f \<noteq> FOk then (Inl ErrIO, w1)
         else (case fs_get (files w1) a of
                 None \<Rightarrow> (Inl ErrNotExist, w1)
               | Some _ \<Rightarrow> (Inr (), emit (EvRename a b) w1)))"

lemmas os_defs = os_ReadFile_def os_Stat_def os_MkdirAll_def os_WriteFile_def file_Append_def
  file_Sync_def os_Chmod_def os_Remove_def os_Rename_def

section \<open>Laws of the store\<close>

text \<open>The interface between the store and the code that installs files: what a lookup returns
  after a put and after a delete.\<close>

locale file_store =
  fixes get :: "'s \<Rightarrow> 'k \<Rightarrow> 'f option"
    and put :: "'k \<Rightarrow> 'f \<Rightarrow> 's \<Rightarrow> 's"
    and del :: "'k \<Rightarrow> 's \<Rightarrow> 's"
  assumes get_put: "get (put p f s) q = (if q = p then Some f else get s q)"
    and get_del: "get (del p s) q = (if q = p then None else get s q)"
begin

definition move :: "'k \<Rightarrow> 'k \<Rightarrow> 's \<Rightarrow> 's" where
  "move a b s = (case get s a of None \<Rightarrow> s | Some f \<Rightarrow> put b f (del a s))"

lemma get_move:
  "get (move a b s) q =
     (case get s a of None \<Rightarrow> get s q
      | Some f \<Rightarrow> if q = b then Some f else if q = a then None else get s q)"
  by (simp add: move_def get_put get_del split: option.splits)

lemma move_back:
  assumes "a \<noteq> b" and "get s b = None"
  shows "get (move b a (move a b s)) q = get s q"
  using assms by (auto simp: get_move split: option.splits)

lemma move_loses_nothing:
  "get s a = Some f \<Longrightarrow> get (move a b s) b = Some f"
  by (simp add: get_move)

end

interpretation afs: file_store fs_get fs_put fs_del
  by unfold_locales (simp_all add: fs_get_def fs_put_def fs_del_def map_of_update map_of_delete)

lemma ev_rename_move: "ev_apply (EvRename a b) s = afs.move a b s"
  by (simp add: afs.move_def fs_simps)

lemma fs_get_put [fs_simps]: "fs_get (fs_put p f s) q = (if q = p then Some f else fs_get s q)"
  by (rule afs.get_put)

lemma fs_get_del [fs_simps]: "fs_get (fs_del p s) q = (if q = p then None else fs_get s q)"
  by (rule afs.get_del)

text \<open>An event touches only the paths it names.\<close>

fun ev_paths :: "fsevent \<Rightarrow> string set" where
  "ev_paths (EvWrite p c m t) = {p}"
| "ev_paths (EvAppend p c t) = {p}"
| "ev_paths (EvChmod p m) = {p}"
| "ev_paths (EvRemove p) = {p}"
| "ev_paths (EvRename a b) = {a, b}"

lemma ev_apply_frame: "p \<notin> ev_paths e \<Longrightarrow> fs_get (ev_apply e s) p = fs_get s p"
  by (cases e) (auto simp: fs_simps split: option.splits)

definition ev_run :: "fsevent list \<Rightarrow> fs \<Rightarrow> fs" where
  "ev_run es s = fold ev_apply es s"

lemma ev_run_simps [simp]:
  "ev_run [] s = s" "ev_run (e # es) s = ev_run es (ev_apply e s)"
  "ev_run (es @ fs) s = ev_run fs (ev_run es s)"
  by (simp_all add: ev_run_def)

lemma ev_run_frame: "\<forall>e\<in>set es. p \<notin> ev_paths e \<Longrightarrow> fs_get (ev_run es s) p = fs_get s p"
  by (induction es arbitrary: s) (simp_all add: ev_apply_frame)

section \<open>Crashes\<close>

text \<open>\<open>crashes s es t\<close>: a process that starts with the store \<open>s\<close> and issues the events \<open>es\<close> can
  be killed in a way that leaves the store \<open>t\<close>: between two events, or inside a write, which
  then leaves a prefix. Renames and removals are atomic.\<close>

inductive crashes :: "fs \<Rightarrow> fsevent list \<Rightarrow> fs \<Rightarrow> bool" where
  crash_now: "crashes s es s"
| crash_torn_write: "crashes s (EvWrite p c m t # es) (ev_apply (EvWrite p (take n c) m t) s)"
| crash_torn_append: "crashes s (EvAppend p c t # es) (ev_apply (EvAppend p (take n c) t) s)"
| crash_later: "crashes (ev_apply e s) es u \<Longrightarrow> crashes s (e # es) u"

inductive_simps crashes_Nil [simp]: "crashes s [] u"
inductive_simps crashes_Cons: "crashes s (e # es) u"
inductive_cases crashes_writeE: "crashes s (EvWrite p c m t # es) u"

lemma crashes_end: "crashes s es (ev_run es s)"
  by (induction es arbitrary: s) (auto intro: crashes.intros)

lemma crashes_append:
  "crashes s (es @ fs) u \<Longrightarrow> crashes s es u \<or> crashes (ev_run es s) fs u"
proof (induction es arbitrary: s)
  case Nil
  then show ?case by simp
next
  case (Cons e es)
  from Cons.prems consider
      "u = s"
    | p c m t n where "e = EvWrite p c m t" "u = ev_apply (EvWrite p (take n c) m t) s"
    | p c t n where "e = EvAppend p c t" "u = ev_apply (EvAppend p (take n c) t) s"
    | "crashes (ev_apply e s) (es @ fs) u"
    by (auto simp: crashes_Cons )
  then show ?case
    by cases (auto intro: crashes.intros dest: Cons.IH )
qed

text \<open>A crash cannot change a path that no event of the run names.\<close>

lemma crashes_frame:
  "crashes s es u \<Longrightarrow> \<forall>e\<in>set es. p \<notin> ev_paths e \<Longrightarrow> fs_get u p = fs_get s p"
proof (induction rule: crashes.induct)
  case (crash_torn_write s q c m t es n)
  then show ?case by (auto simp: fs_simps)
next
  case (crash_torn_append s q c t es n)
  then show ?case by (auto simp: fs_simps split: option.splits)
next
  case (crash_later e s es u)
  then show ?case by (simp add: ev_apply_frame)
qed simp

section \<open>Worlds and calls\<close>

text \<open>\<open>steps w es w'\<close>: a call moved the world from \<open>w\<close> to \<open>w'\<close> by issuing the events \<open>es\<close>.\<close>

definition steps :: "world \<Rightarrow> fsevent list \<Rightarrow> world \<Rightarrow> bool" where
  "steps w es w' = (events w' = events w @ es \<and> files w' = ev_run es (files w))"

lemma steps_refl [simp, intro]: "steps w [] w"
  by (simp add: steps_def)

lemma steps_trans: "steps w es w1 \<Longrightarrow> steps w1 fs w2 \<Longrightarrow> steps w (es @ fs) w2"
  by (simp add: steps_def)

lemma files_emit [fs_simps]: "files (emit e w) = ev_apply e (files w)"
  by (simp add: emit_def)

lemma events_emit [fs_simps]: "events (emit e w) = events w @ [e]"
  by (simp add: emit_def)

lemma next_fault_eqs:
  "next_fault w = (f, w1) \<Longrightarrow> files w1 = files w \<and> events w1 = events w \<and> clock w1 = clock w"
  by (auto simp: next_fault_def split: list.splits)

lemma next_fault_none: "faults w = [] \<Longrightarrow> next_fault w = (FOk, w)"
  by (simp add: next_fault_def)

lemma time_Now_eqs:
  "time_Now w = (t, w1) \<Longrightarrow> files w1 = files w \<and> events w1 = events w \<and> faults w1 = faults w \<and> t = clock w"
  by (auto simp: time_Now_def split: list.splits)

text \<open>The outcome of each call, in terms of the store it starts from.\<close>

lemma os_ReadFile_cases:
  assumes "os_ReadFile p w = (r, w')"
  shows "files w' = files w" "events w' = events w"
    and "r = Inl ErrIO \<or> (r = Inl ErrNotExist \<and> fs_content (files w) p = None)
         \<or> (\<exists>c. r = Inr c \<and> fs_content (files w) p = Some c)"
proof -
  obtain f w1 where nf: "next_fault w = (f, w1)" by (cases "next_fault w")
  note e = next_fault_eqs [OF nf]
  show "files w' = files w" "events w' = events w"
    using assms nf e by (auto simp: os_ReadFile_def split: if_splits option.splits)
  show "r = Inl ErrIO \<or> (r = Inl ErrNotExist \<and> fs_content (files w) p = None)
         \<or> (\<exists>c. r = Inr c \<and> fs_content (files w) p = Some c)"
    using assms nf e by (auto simp: os_ReadFile_def fs_content_def split: if_splits option.splits)
qed

lemma os_Stat_cases:
  assumes "os_Stat p w = (r, w')"
  shows "files w' = files w" "events w' = events w" "clock w' = clock w"
    and "r = Inl ErrIO \<or> (r = Inl ErrNotExist \<and> fs_get (files w) p = None)
         \<or> (\<exists>x. r = Inr x \<and> fs_get (files w) p = Some x)"
proof -
  obtain f w1 where nf: "next_fault w = (f, w1)" by (cases "next_fault w")
  note e = next_fault_eqs [OF nf]
  show "files w' = files w" "events w' = events w" "clock w' = clock w"
    using assms nf e by (auto simp: os_Stat_def split: if_splits option.splits)
  show "r = Inl ErrIO \<or> (r = Inl ErrNotExist \<and> fs_get (files w) p = None)
         \<or> (\<exists>x. r = Inr x \<and> fs_get (files w) p = Some x)"
    using assms nf e by (auto simp: os_Stat_def split: if_splits option.splits)
qed

lemma os_MkdirAll_cases:
  assumes "os_MkdirAll p m w = (r, w')"
  shows "files w' = files w" "events w' = events w" "r = Inr () \<or> r = Inl ErrIO"
proof -
  obtain f w1 where nf: "next_fault w = (f, w1)" by (cases "next_fault w")
  note e = next_fault_eqs [OF nf]
  show "files w' = files w" "events w' = events w" "r = Inr () \<or> r = Inl ErrIO"
    using assms nf e by (auto simp: os_MkdirAll_def split: if_splits)
qed

lemma file_Sync_cases:
  assumes "file_Sync p w = (r, w')"
  shows "files w' = files w" "events w' = events w" "r = Inr () \<or> r = Inl ErrIO"
proof -
  obtain f w1 where nf: "next_fault w = (f, w1)" by (cases "next_fault w")
  note e = next_fault_eqs [OF nf]
  show "files w' = files w" "events w' = events w" "r = Inr () \<or> r = Inl ErrIO"
    using assms nf e by (auto simp: file_Sync_def split: if_splits)
qed

text \<open>Each call that may change the store does so by at most one event.\<close>

lemma os_WriteFile_steps:
  assumes "os_WriteFile p c m w = (r, w')"
  shows "(r = Inr () \<and> steps w [EvWrite p c m (clock w)] w')
         \<or> (r = Inl ErrIO \<and> (steps w [] w' \<or> (\<exists>n. steps w [EvWrite p (take n c) m (clock w)] w')))"
proof -
  obtain f w1 where nf: "next_fault w = (f, w1)" by (cases "next_fault w")
  note e = next_fault_eqs [OF nf]
  show ?thesis
    using assms nf e by (cases f) (auto simp: os_WriteFile_def steps_def fs_simps)
qed

lemma file_Append_steps:
  assumes "file_Append p c w = (r, w')"
  shows "(r = Inr () \<and> steps w [EvAppend p c (clock w)] w')
         \<or> (r = Inl ErrIO \<and> (steps w [] w' \<or> (\<exists>n. steps w [EvAppend p (take n c) (clock w)] w')))"
proof -
  obtain f w1 where nf: "next_fault w = (f, w1)" by (cases "next_fault w")
  note e = next_fault_eqs [OF nf]
  show ?thesis
    using assms nf e by (cases f) (auto simp: file_Append_def steps_def fs_simps)
qed

lemma os_Chmod_steps:
  assumes "os_Chmod p m w = (r, w')"
  shows "(r = Inr () \<and> fs_get (files w) p \<noteq> None \<and> steps w [EvChmod p m] w')
         \<or> (\<exists>e. r = Inl e \<and> steps w [] w')"
proof -
  obtain f w1 where nf: "next_fault w = (f, w1)" by (cases "next_fault w")
  note e = next_fault_eqs [OF nf]
  show ?thesis
    using assms nf e by (auto simp: os_Chmod_def steps_def fs_simps split: if_splits option.splits)
qed

lemma os_Remove_steps:
  assumes "os_Remove p w = (r, w')"
  shows "(r = Inr () \<and> fs_get (files w) p \<noteq> None \<and> steps w [EvRemove p] w')
         \<or> (r = Inl ErrNotExist \<and> fs_get (files w) p = None \<and> steps w [] w')
         \<or> (r = Inl ErrIO \<and> steps w [] w')"
proof -
  obtain f w1 where nf: "next_fault w = (f, w1)" by (cases "next_fault w")
  note e = next_fault_eqs [OF nf]
  show ?thesis
    using assms nf e by (auto simp: os_Remove_def steps_def fs_simps split: if_splits option.splits)
qed

lemma os_Rename_steps:
  assumes "os_Rename a b w = (r, w')"
  shows "(r = Inr () \<and> fs_get (files w) a \<noteq> None \<and> steps w [EvRename a b] w')
         \<or> (\<exists>e. r = Inl e \<and> steps w [] w')"
proof -
  obtain f w1 where nf: "next_fault w = (f, w1)" by (cases "next_fault w")
  note e = next_fault_eqs [OF nf]
  show ?thesis
    using assms nf e by (auto simp: os_Rename_def steps_def fs_simps split: if_splits option.splits)
qed

section \<open>Calls in a world without failures\<close>

text \<open>When no fault is pending, every call does what its name says.\<close>

definition healthy :: "world \<Rightarrow> bool" where "healthy w = (faults w = [])"

lemma healthy_calls [simp]:
  assumes "healthy w"
  shows "os_WriteFile p c m w = (Inr (), emit (EvWrite p c m (clock w)) w)"
    and "file_Append p c w = (Inr (), emit (EvAppend p c (clock w)) w)"
    and "file_Sync p w = (Inr (), w)"
    and "os_MkdirAll p m w = (Inr (), w)"
    and "os_ReadFile p w = (case fs_get (files w) p of None \<Rightarrow> (Inl ErrNotExist, w) | Some x \<Rightarrow> (Inr (content x), w))"
    and "os_Stat p w = (case fs_get (files w) p of None \<Rightarrow> (Inl ErrNotExist, w) | Some x \<Rightarrow> (Inr x, w))"
    and "os_Chmod p m w = (if fs_get (files w) p = None then (Inl ErrNotExist, w) else (Inr (), emit (EvChmod p m) w))"
    and "os_Remove p w = (if fs_get (files w) p = None then (Inl ErrNotExist, w) else (Inr (), emit (EvRemove p) w))"
    and "os_Rename a b w = (if fs_get (files w) a = None then (Inl ErrNotExist, w) else (Inr (), emit (EvRename a b) w))"
  using assms by (auto simp: healthy_def os_defs next_fault_none split: option.splits)

lemma healthy_emit [simp]: "healthy (emit e w) = healthy w"
  by (simp add: healthy_def emit_def)

lemma clock_emit [simp]: "clock (emit e w) = clock w"
  by (simp add: emit_def)

section \<open>Limited reads\<close>

text \<open>\<open>io.ReadAll(io.LimitReader(r, n))\<close> on the bytes \<open>s\<close>.\<close>

definition LimitRead :: "int \<Rightarrow> string \<Rightarrow> string" where
  "LimitRead n s = (if int (length s) \<le> n then s else take (nat n) s)"

section \<open>Decimal numerals\<close>

text \<open>\<open>strconv.Itoa\<close> and the verb \<open>%d\<close>.\<close>

fun nat_digits :: "nat \<Rightarrow> string" where
  "nat_digits n = (if n < 10 then [hex_digit n] else nat_digits (n div 10) @ [hex_digit (n mod 10)])"

declare nat_digits.simps [simp del]

declare nat_digits.simps [simp del]

text \<open>Evaluation on literals.\<close>

lemmas nat_digits_eval = nat_digits.simps [of 0] nat_digits.simps [of 1] nat_digits.simps [of "Suc 0"]
  nat_digits.simps [of "numeral k"] for k

definition Itoa :: "int \<Rightarrow> string" where
  "Itoa i = (if i < 0 then ''-'' @ nat_digits (nat (- i)) else nat_digits (nat i))"

lemma nat_digits_chars: "set (nat_digits n) \<subseteq> set ''0123456789''"
proof (induction n rule: nat_digits.induct)
  case (1 n)
  have d: "hex_digit k \<in> set ''0123456789''" if "k < 10" for k
  proof -
    have "hex_digit k = ''0123456789'' ! k"
      using that nth_append [of "''0123456789''" "''abcdef''" k] by (simp add: hex_digit_def)
    moreover have "''0123456789'' ! k \<in> set ''0123456789''" using that by (intro nth_mem) simp
    ultimately show ?thesis by (simp only:)
  qed
  show ?case
  proof (cases "n < 10")
    case True
    then show ?thesis using d by (subst nat_digits.simps) simp
  next
    case False
    then show ?thesis
      using 1 d [of "n mod 10"] by (subst nat_digits.simps) simp
  qed
qed

lemma nat_digits_inject: "nat_digits m = nat_digits n \<Longrightarrow> m = n"
proof (induction m arbitrary: n rule: nat_digits.induct)
  case (1 m)
  have ne: "nat_digits k \<noteq> []" for k by (subst nat_digits.simps) simp
  show ?case
  proof (cases "m < 10")
    case True
    note m = True
    show ?thesis
    proof (cases "n < 10")
      case True
      with m "1.prems" show ?thesis
        by (auto simp: nat_digits.simps [of m] nat_digits.simps [of n] intro: hex_digit_inject)
    next
      case False
      with m "1.prems" ne [of "n div 10"] show ?thesis
        by (simp add: nat_digits.simps [of m] nat_digits.simps [of n])
    qed
  next
    case False
    note m = False
    show ?thesis
    proof (cases "n < 10")
      case True
      with m "1.prems" ne [of "m div 10"] show ?thesis
        by (simp add: nat_digits.simps [of m] nat_digits.simps [of n])
    next
      case False
      with m "1.prems" have "nat_digits (m div 10) = nat_digits (n div 10)"
        and d: "hex_digit (m mod 10) = hex_digit (n mod 10)"
        by (simp_all add: nat_digits.simps [of m] nat_digits.simps [of n])
      then have "m div 10 = n div 10" using m "1.IH" by blast
      moreover have "m mod 10 = n mod 10" using d by (auto intro: hex_digit_inject)
      ultimately show ?thesis by (metis div_mult_mod_eq)
    qed
  qed
qed

end
