(* ===== verification/Go_Path.thy ===== *)
theory Go_Path
  imports Go_Strings
begin

text \<open>
  Go's package \<open>path/filepath\<close> on a Unix host (separator \<open>/\<close>, no volume names), as lexical
  functions on strings, and the lexical confinement test the agent builds from
  \<open>Clean\<close> and \<open>Rel\<close>.
\<close>

section \<open>Lexical functions\<close>

fun clean_step :: "bool \<Rightarrow> string list \<Rightarrow> string \<Rightarrow> string list" where
  "clean_step rooted st c =
     (if c = [] \<or> c = ''.'' then st
      else if c = ''..'' then
        (case st of
           [] \<Rightarrow> (if rooted then [] else [''..''])
         | t # ts \<Rightarrow> (if t = ''..'' then ''..'' # st else ts))
      else c # st)"

definition clean_comps :: "string \<Rightarrow> string list" where
  "clean_comps p = rev (foldl (clean_step (HasPrefix p ''/'')) [] (SplitOn (CHR ''/'') p))"

definition filepath_Clean :: "string \<Rightarrow> string" where
  "filepath_Clean p =
     (if p = [] then ''.''
      else let body = Join (clean_comps p) ''/''
           in if HasPrefix p ''/'' then CHR ''/'' # body
              else if body = [] then ''.'' else body)"

definition filepath_Join :: "string list \<Rightarrow> string" where
  "filepath_Join elems =
     (case filter (\<lambda>e. e \<noteq> []) elems of [] \<Rightarrow> [] | es \<Rightarrow> filepath_Clean (Join es ''/''))"

definition filepath_IsAbs :: "string \<Rightarrow> bool" where
  "filepath_IsAbs p = HasPrefix p ''/''"

definition filepath_Abs :: "string \<Rightarrow> string \<Rightarrow> string" where
  "filepath_Abs cwd p = (if filepath_IsAbs p then filepath_Clean p else filepath_Join [cwd, p])"

definition is_slash :: "char \<Rightarrow> bool" where "is_slash c = (c = CHR ''/'')"

definition filepath_Base :: "string \<Rightarrow> string" where
  "filepath_Base p =
     (if p = [] then ''.''
      else let q = rev (dropWhile is_slash (rev p));
               b = rev (takeWhile (\<lambda>c. \<not> is_slash c) (rev q))
           in if b = [] then ''/'' else b)"

definition filepath_Dir :: "string \<Rightarrow> string" where
  "filepath_Dir p = filepath_Clean (rev (dropWhile (\<lambda>c. \<not> is_slash c) (rev p)))"

definition filepath_Ext :: "string \<Rightarrow> string" where
  "filepath_Ext p =
     (let r = takeWhile (\<lambda>c. \<not> is_slash c) (rev p);
          e = takeWhile (\<lambda>c. c \<noteq> CHR ''.'') r
      in if length e < length r then CHR ''.'' # rev e else [])"

text \<open>The components of a path, and \<open>Rel\<close> on them.\<close>

definition path_comps :: "string \<Rightarrow> string list" where
  "path_comps p = filter (\<lambda>c. c \<noteq> []) (SplitOn (CHR ''/'') p)"

fun rel_comps :: "string list \<Rightarrow> string list \<Rightarrow> string list option" where
  "rel_comps [] ts = Some ts"
| "rel_comps (b # bs) ts =
     (case ts of
        t # ts' \<Rightarrow>
          (if b = t then rel_comps bs ts'
           else if b = ''..'' then None else Some (replicate (Suc (length bs)) ''..'' @ ts))
      | [] \<Rightarrow> if b = ''..'' then None else Some (replicate (Suc (length bs)) ''..''))"

definition filepath_Rel :: "string \<Rightarrow> string \<Rightarrow> string option" where
  "filepath_Rel base targ =
     (let b = filepath_Clean base; t = filepath_Clean targ
      in if t = b then Some ''.''
         else if HasPrefix b ''/'' \<noteq> HasPrefix t ''/'' then None
         else map_option (\<lambda>cs. Join cs ''/'')
                (rel_comps (if b = ''.'' then [] else path_comps b) (path_comps t)))"

section \<open>Cleaned absolute paths\<close>

definition plain_comp :: "string \<Rightarrow> bool" where
  "plain_comp c = (c \<noteq> [] \<and> c \<noteq> ''.'' \<and> c \<noteq> ''..'' \<and> CHR ''/'' \<notin> set c)"

lemma clean_step_plain:
  assumes "list_all plain_comp st" and "CHR ''/'' \<notin> set c"
  shows "list_all plain_comp (clean_step True st c)"
  using assms by (cases st) (auto simp: plain_comp_def)

lemma foldl_clean_plain:
  "list_all plain_comp st \<Longrightarrow> \<forall>c\<in>set cs. CHR ''/'' \<notin> set c \<Longrightarrow>
     list_all plain_comp (foldl (clean_step True) st cs)"
proof (induction cs arbitrary: st)
  case Nil
  then show ?case by simp
next
  case (Cons c cs)
  then have "list_all plain_comp (clean_step True st c)" by (intro clean_step_plain) simp_all
  with Cons show ?case by simp
qed

lemma clean_comps_plain: "HasPrefix p ''/'' \<Longrightarrow> list_all plain_comp (clean_comps p)"
  unfolding clean_comps_def
  using foldl_clean_plain [of "[]" "SplitOn (CHR ''/'') p"] SplitOn_no_sep by auto

lemma foldl_clean_id:
  "list_all plain_comp cs \<Longrightarrow> foldl (clean_step r) st cs = rev cs @ st"
  by (induction cs arbitrary: st) (auto simp: plain_comp_def)

lemma SplitOn_rooted_Join:
  assumes "list_all plain_comp cs"
  shows "filter (\<lambda>c. c \<noteq> []) (SplitOn (CHR ''/'') (CHR ''/'' # Join cs ''/'')) = cs"
proof (cases "cs = []")
  case True
  then show ?thesis by simp
next
  case False
  with assms have "SplitOn (CHR ''/'') (Join cs ''/'') = cs"
    by (intro SplitOn_Join) (auto simp: list_all_iff plain_comp_def)
  moreover have "filter (\<lambda>c. c \<noteq> []) cs = cs"
    using assms by (auto simp: list_all_iff plain_comp_def filter_id_conv)
  ultimately show ?thesis by simp
qed

lemma Clean_rooted: "HasPrefix p ''/'' \<Longrightarrow> filepath_Clean p = CHR ''/'' # Join (clean_comps p) ''/''"
  by (cases p) (simp_all add: filepath_Clean_def Let_def)

lemma HasPrefix_Clean [simp]: "HasPrefix p ''/'' \<Longrightarrow> HasPrefix (filepath_Clean p) ''/''"
  by (simp add: Clean_rooted)

lemma path_comps_Clean: "HasPrefix p ''/'' \<Longrightarrow> path_comps (filepath_Clean p) = clean_comps p"
  by (simp only: Clean_rooted path_comps_def SplitOn_rooted_Join clean_comps_plain)

lemma clean_comps_rooted_Join:
  assumes "list_all plain_comp cs"
  shows "clean_comps (CHR ''/'' # Join cs ''/'') = cs"
proof (cases "cs = []")
  case True
  then show ?thesis by (simp add: clean_comps_def)
next
  case False
  with assms have "SplitOn (CHR ''/'') (Join cs ''/'') = cs"
    by (intro SplitOn_Join) (auto simp: list_all_iff plain_comp_def)
  then show ?thesis using assms by (simp add: clean_comps_def foldl_clean_id)
qed

lemma Clean_idem: "HasPrefix p ''/'' \<Longrightarrow> filepath_Clean (filepath_Clean p) = filepath_Clean p"
  by (simp add: Clean_rooted clean_comps_rooted_Join clean_comps_plain)

lemma Clean_eq_iff:
  "HasPrefix p ''/'' \<Longrightarrow> HasPrefix q ''/'' \<Longrightarrow>
     filepath_Clean p = filepath_Clean q \<longleftrightarrow> clean_comps p = clean_comps q"
  by (metis Clean_rooted path_comps_Clean)

section \<open>A file of a directory\<close>

lemma SplitOn_append: "SplitOn c (p @ c # s) = SplitOn c p @ SplitOn c s"
proof (induction p)
  case (Cons x p)
  then show ?case by (cases "SplitOn c p") auto
qed simp

lemma clean_comps_file:
  assumes "HasPrefix d ''/''" "plain_comp n"
  shows "clean_comps (d @ ''/'' @ n) = clean_comps d @ [n]"
proof -
  have "HasPrefix (d @ ''/'' @ n) ''/''" using assms(1) by (cases d) auto
  moreover have "SplitOn (CHR ''/'') (d @ ''/'' @ n) = SplitOn (CHR ''/'') d @ [n]"
    using assms(2) by (simp add: SplitOn_append SplitOn_none plain_comp_def)
  ultimately show ?thesis using assms by (simp add: clean_comps_def plain_comp_def)
qed

lemma Join_file:
  assumes "HasPrefix d ''/''" "plain_comp n"
  shows "filepath_Join [d, n] = CHR ''/'' # Join (clean_comps d @ [n]) ''/''"
proof -
  have "HasPrefix (d @ ''/'' @ n) ''/''" "d \<noteq> []" "n \<noteq> []" using assms by (cases d; auto simp: plain_comp_def)+
  then show ?thesis using Clean_rooted clean_comps_file [OF assms] by (simp add: filepath_Join_def)
qed

lemma HasPrefix_Join_file [simp]:
  "HasPrefix d ''/'' \<Longrightarrow> plain_comp n \<Longrightarrow> HasPrefix (filepath_Join [d, n]) ''/''"
  by (simp add: Join_file)

lemma clean_comps_Join_file:
  "HasPrefix d ''/'' \<Longrightarrow> plain_comp n \<Longrightarrow> clean_comps (filepath_Join [d, n]) = clean_comps d @ [n]"
  by (simp add: Join_file clean_comps_rooted_Join clean_comps_plain)

lemma Join_file_eq_iff:
  assumes "HasPrefix d ''/''" "plain_comp n" "HasPrefix e ''/''" "plain_comp k"
  shows "filepath_Join [d, n] = filepath_Join [e, k] \<longleftrightarrow> clean_comps d = clean_comps e \<and> n = k"
  using assms clean_comps_Join_file by (metis Join_file append1_eq_conv)

lemma Join_snoc: "Join (cs @ [n]) s = (if cs = [] then n else Join cs s @ s @ n)"
  by (induction cs s rule: Join.induct) (auto simp: neq_Nil_conv)

lemma Join_file_append:
  assumes "HasPrefix d ''/''" "plain_comp n" "CHR ''/'' \<notin> set s" "plain_comp (n @ s)"
  shows "filepath_Join [d, n] @ s = filepath_Join [d, n @ s]"
  using assms by (simp add: Join_file Join_snoc)

lemma Join_file_ends:
  assumes "HasPrefix d ''/''" "plain_comp n"
  obtains d' where "filepath_Join [d, n] = d' @ ''/'' @ n" "clean_comps d' = clean_comps d" "d' = [] \<or> HasPrefix d' ''/''"
proof (cases "clean_comps d = []")
  case True
  then show ?thesis using that [of "[]"] Join_file [OF assms] by (simp add: clean_comps_def)
next
  case False
  let ?d = "CHR ''/'' # Join (clean_comps d) ''/''"
  have "filepath_Join [d, n] = ?d @ ''/'' @ n" using Join_file [OF assms] False by (simp add: Join_snoc)
  moreover have "clean_comps ?d = clean_comps d" using assms by (simp add: clean_comps_rooted_Join clean_comps_plain)
  ultimately show ?thesis using that [of ?d] by simp
qed

lemma Base_Join_file [simp]:
  assumes "HasPrefix d ''/''" "plain_comp n"
  shows "filepath_Base (filepath_Join [d, n]) = n"
proof -
  obtain d' where d: "filepath_Join [d, n] = d' @ ''/'' @ n" by (rule Join_file_ends [OF assms])
  have n: "n \<noteq> []" "\<forall>c\<in>set n. \<not> is_slash c" using assms(2) by (auto simp: plain_comp_def is_slash_def)
  then have "rev n \<noteq> []" "\<not> is_slash (hd (rev n))" by (metis rev_is_Nil_conv, metis hd_in_set rev_is_Nil_conv set_rev)
  then have "dropWhile is_slash (rev n @ r) = rev n @ r" for r by (cases "rev n") auto
  moreover have "takeWhile (\<lambda>c. \<not> is_slash c) (rev n @ CHR ''/'' # r) = rev n" for r
    using n(2) by (auto simp: is_slash_def takeWhile_append)
  ultimately show ?thesis using n(1) by (simp add: filepath_Base_def d)
qed

lemma Dir_Join_file [simp]:
  assumes "HasPrefix d ''/''" "plain_comp n"
  shows "filepath_Dir (filepath_Join [d, n]) = filepath_Clean d"
proof -
  obtain d' where d: "filepath_Join [d, n] = d' @ ''/'' @ n" "clean_comps d' = clean_comps d" "d' = [] \<or> HasPrefix d' ''/''"
    by (rule Join_file_ends [OF assms])
  have "\<forall>c\<in>set n. \<not> is_slash c" using assms(2) by (auto simp: plain_comp_def is_slash_def)
  then have "dropWhile (\<lambda>c. \<not> is_slash c) (rev n @ CHR ''/'' # r) = CHR ''/'' # r" for r
    by (subst dropWhile_append) (simp add: is_slash_def dropWhile_eq_Nil_conv)
  then have e: "filepath_Dir (filepath_Join [d, n]) = filepath_Clean (d' @ ''/'')" by (simp add: filepath_Dir_def d)
  have h: "HasPrefix (d' @ ''/'') ''/''" using d(3) by (cases d') auto
  have "SplitOn (CHR ''/'') (d' @ ''/'') = SplitOn (CHR ''/'') d' @ [[]]" using SplitOn_append [of "CHR ''/''" d' "[]"] by simp
  then have "clean_comps (d' @ ''/'') = clean_comps d'"
    using h d(3) by (auto simp: clean_comps_def)
  then show ?thesis using e d(2) Clean_rooted [OF h] Clean_rooted [OF assms(1)] by simp
qed

section \<open>Lexical confinement\<close>

text \<open>\<open>rel_inside r\<close> is the agent's test on a relative path: it does not lead out of the base.\<close>

definition rel_inside :: "string \<Rightarrow> bool" where
  "rel_inside r = (r = ''.'' \<or> (r \<noteq> ''..'' \<and> \<not> HasPrefix r ''../''))"

lemma rel_comps_prefix: "prefix bs ts \<Longrightarrow> rel_comps bs ts = Some (drop (length bs) ts)"
  by (induction bs ts rule: rel_comps.induct) (auto split: list.splits)

lemma rel_comps_outside:
  "\<not> prefix bs ts \<Longrightarrow> list_all plain_comp bs \<Longrightarrow> \<exists>cs. rel_comps bs ts = Some (''..'' # cs)"
proof (induction bs arbitrary: ts)
  case Nil
  then show ?case by simp
next
  case (Cons b bs)
  have "plain_comp b" and pl: "list_all plain_comp bs" using Cons.prems(2) by simp_all
  then have nd: "b \<noteq> ''..''" by (simp add: plain_comp_def)
  show ?case
  proof (cases ts)
    case Nil
    then show ?thesis using nd by simp
  next
    case (Cons t ts')
    show ?thesis
    proof (cases "b = t")
      case True
      with Cons Cons.prems(1) have "\<not> prefix bs ts'" by simp
      then show ?thesis using Cons.IH pl True Cons by simp
    next
      case False
      then show ?thesis using nd Cons by simp
    qed
  qed
qed

lemma Join_dotdot: "\<not> rel_inside (Join (''..'' # cs) ''/'')"
  by (cases cs) (simp_all add: rel_inside_def)

lemma Join_plain_inside:
  assumes "list_all plain_comp cs" "cs \<noteq> []"
  shows "rel_inside (Join cs ''/'')"
proof -
  obtain c ds where cs: "cs = c # ds" using assms(2) by (cases cs) auto
  with assms(1) have c: "c \<noteq> ''..''" "CHR ''/'' \<notin> set c" by (simp_all add: plain_comp_def)
  have "Join cs ''/'' \<noteq> ''..''"
  proof
    assume "Join cs ''/'' = ''..''"
    with c cs show False by (cases ds) (auto dest: arg_cong [where f = set])
  qed
  moreover have "\<not> HasPrefix (Join cs ''/'') ''../''"
  proof
    assume "HasPrefix (Join cs ''/'') ''../''"
    then obtain zs where z: "Join cs ''/'' = ''..'' @ CHR ''/'' # zs"
      by (auto simp: HasPrefix_iff_prefix prefix_def)
    show False
    proof (cases ds)
      case Nil
      with cs z c(2) show False by (metis Join.simps(2) in_set_conv_decomp)
    next
      case (Cons d es)
      with cs z have "c @ CHR ''/'' # Join ds ''/'' = ''..'' @ CHR ''/'' # zs" by simp
      then have "SplitOn (CHR ''/'') (c @ CHR ''/'' # Join ds ''/'')
          = SplitOn (CHR ''/'') (''..'' @ CHR ''/'' # zs)" by simp
      then have "c = ''..''" using c(2) SplitOn_append_sep [of "CHR ''/''" "''..''" zs]
        by (simp add: SplitOn_append_sep)
      with c(1) show False by simp
    qed
  qed
  ultimately show ?thesis by (simp add: rel_inside_def)
qed

text \<open>For absolute paths the string test on \<open>Rel\<close> is exactly the prefix relation on the
  components of the cleaned paths.\<close>

lemma Rel_inside_iff:
  assumes "HasPrefix base ''/''" "HasPrefix targ ''/''"
  shows "(\<exists>r. filepath_Rel base targ = Some r \<and> rel_inside r) \<longleftrightarrow>
         prefix (clean_comps base) (clean_comps targ)"
proof (cases "clean_comps targ = clean_comps base")
  case True
  then have "filepath_Clean targ = filepath_Clean base" using assms by (simp add: Clean_eq_iff)
  then show ?thesis using True by (simp add: filepath_Rel_def rel_inside_def)
next
  case False
  have b: "filepath_Clean base \<noteq> ''.''" using HasPrefix_Clean [OF assms(1)] by auto
  have ne: "filepath_Clean targ \<noteq> filepath_Clean base" using False assms by (simp add: Clean_eq_iff)
  then have rel: "filepath_Rel base targ =
      map_option (\<lambda>cs. Join cs ''/'') (rel_comps (clean_comps base) (clean_comps targ))"
    using assms b by (simp add: filepath_Rel_def Let_def path_comps_Clean)
  show ?thesis
  proof (cases "prefix (clean_comps base) (clean_comps targ)")
    case True
    then obtain cs where cs: "clean_comps targ = clean_comps base @ cs" by (auto elim: prefixE)
    with False have "cs \<noteq> []" by auto
    moreover have "list_all plain_comp cs" using clean_comps_plain [OF assms(2)] cs by simp
    ultimately have "rel_inside (Join cs ''/'')" by (intro Join_plain_inside)
    then show ?thesis using True rel cs by (simp add: rel_comps_prefix)
  next
    case False
    then obtain cs where "rel_comps (clean_comps base) (clean_comps targ) = Some (''..'' # cs)"
      using rel_comps_outside clean_comps_plain [OF assms(1)] by blast
    with rel have "filepath_Rel base targ = Some (Join (''..'' # cs) ''/'')" by simp
    then show ?thesis using False Join_dotdot [of cs] by (auto simp del: Join.simps)
  qed
qed

end
