(* ===== verification/File_Install.thy ===== *)
theory File_Install
  imports Go_OS Go_Path
begin

text \<open>
  The routines that put a new version of a state file in place: \<open>writePrivateFile\<close> (in
  \<open>identity\<close> and again in \<open>tools\<close>) and \<open>enrollment.atomicWrite\<close>, which write beside the target and rename over it, and
  \<open>replaceFile\<close> / \<open>replaceLedgerFile\<close> (in \<open>policyupdate\<close> and \<open>responseexec\<close>), which first move
  the old version to a backup name. Two locales state what a caller may rely on.
\<close>

section \<open>The routines\<close>

text \<open>The permission bits \<open>0o600\<close> and \<open>0o700\<close>.\<close>

abbreviation mode_private :: nat where "mode_private \<equiv> 6 * 64"
abbreviation mode_private_dir :: nat where "mode_private_dir \<equiv> 7 * 64"

text \<open>\<open>identity.writePrivateFile\<close>.\<close>

definition identity_writePrivateFile :: "string \<Rightarrow> string \<Rightarrow> unit io" where
  "identity_writePrivateFile path c w =
     (let temporary = path @ ''.tmp''
      in case os_WriteFile temporary c mode_private w of
           (Inl e, w1) \<Rightarrow> (Inl e, w1)
         | (Inr _, w1) \<Rightarrow>
             (case os_Chmod temporary mode_private w1 of
                (Inl e, w2) \<Rightarrow> (Inl e, snd (os_Remove temporary w2))
              | (Inr _, w2) \<Rightarrow>
                  (case os_Rename temporary path w2 of
                     (Inl e, w3) \<Rightarrow> (Inl e, snd (os_Remove temporary w3))
                   | (Inr _, w3) \<Rightarrow> (Inr (), w3))))"

text \<open>\<open>enrollment.atomicWrite\<close>: the same with the mode as a parameter.\<close>

definition atomicWrite :: "string \<Rightarrow> string \<Rightarrow> nat \<Rightarrow> unit io" where
  "atomicWrite path c mode w =
     (let temporary = path @ ''.tmp''
      in case os_WriteFile temporary c mode w of
           (Inl e, w1) \<Rightarrow> (Inl e, w1)
         | (Inr _, w1) \<Rightarrow>
             (case os_Chmod temporary mode w1 of
                (Inl e, w2) \<Rightarrow> (Inl e, snd (os_Remove temporary w2))
              | (Inr _, w2) \<Rightarrow>
                  (case os_Rename temporary path w2 of
                     (Inl e, w3) \<Rightarrow> (Inl e, snd (os_Remove temporary w3))
                   | (Inr _, w3) \<Rightarrow> (Inr (), w3))))"

text \<open>\<open>tools.writePrivateFile\<close>: the first \<open>Chmod\<close> is best effort, the last one is not.\<close>

definition tools_writePrivateFile :: "string \<Rightarrow> string \<Rightarrow> unit io" where
  "tools_writePrivateFile path c w =
     (case os_MkdirAll (filepath_Dir path) mode_private_dir w of
        (Inl e, w0) \<Rightarrow> (Inl e, w0)
      | (Inr _, w0) \<Rightarrow>
          (let temporary = path @ ''.tmp''
           in case os_WriteFile temporary c mode_private w0 of
                (Inl e, w1) \<Rightarrow> (Inl e, w1)
              | (Inr _, w1) \<Rightarrow>
                  (let w2 = snd (os_Chmod temporary mode_private w1)
                   in case os_Rename temporary path w2 of
                        (Inl e, w3) \<Rightarrow> (Inl e, snd (os_Remove temporary w3))
                      | (Inr _, w3) \<Rightarrow> os_Chmod path mode_private w3)))"

text \<open>The common tail of \<open>replaceFile\<close> and \<open>replaceLedgerFile\<close>: \<open>swap_in\<close> from
  \<open>os.Remove(backup)\<close> on, \<open>swap_rename\<close> from the rename of the temporary file on.\<close>

definition swap_rename :: "string \<Rightarrow> nat \<Rightarrow> bool \<Rightarrow> unit io" where
  "swap_rename path m hadExisting w5 =
     (let temporary = path @ ''.new''; backup = path @ ''.bak''
      in case os_Rename temporary path w5 of
           (Inl e, w6) \<Rightarrow>
             (let w7 = (if hadExisting then snd (os_Rename backup path w6) else w6)
              in (Inl e, snd (os_Remove temporary w7)))
         | (Inr _, w6) \<Rightarrow>
             (let w7 = (if hadExisting then snd (os_Remove backup w6) else w6)
              in os_Chmod path m w7))"

definition swap_in :: "string \<Rightarrow> nat \<Rightarrow> unit io" where
  "swap_in path m w2 =
     (let temporary = path @ ''.new''; backup = path @ ''.bak'';
          w3 = snd (os_Remove backup w2)
      in case os_Stat path w3 of
           (Inr _, w4) \<Rightarrow>
             (case os_Rename path backup w4 of
                (Inl e, w5) \<Rightarrow> (Inl e, snd (os_Remove temporary w5))
              | (Inr _, w5) \<Rightarrow> swap_rename path m True w5)
         | (Inl ErrNotExist, w4) \<Rightarrow> swap_rename path m False w4
         | (Inl e, w4) \<Rightarrow> (Inl e, snd (os_Remove temporary w4)))"

text \<open>\<open>policyupdate.replaceFile\<close> ignores a failing \<open>Chmod\<close> on the temporary file.\<close>

definition replaceFile :: "string \<Rightarrow> string \<Rightarrow> nat \<Rightarrow> unit io" where
  "replaceFile path c m w =
     (case os_MkdirAll (filepath_Dir path) mode_private_dir w of
        (Inl e, w0) \<Rightarrow> (Inl e, w0)
      | (Inr _, w0) \<Rightarrow>
          (case os_WriteFile (path @ ''.new'') c m w0 of
             (Inl e, w1) \<Rightarrow> (Inl e, w1)
           | (Inr _, w1) \<Rightarrow> swap_in path m (snd (os_Chmod (path @ ''.new'') m w1))))"

text \<open>\<open>responseexec.replaceLedgerFile\<close> gives up on a failing \<open>Chmod\<close>.\<close>

definition replaceLedgerFile :: "string \<Rightarrow> string \<Rightarrow> nat \<Rightarrow> unit io" where
  "replaceLedgerFile path c m w =
     (case os_MkdirAll (filepath_Dir path) mode_private_dir w of
        (Inl e, w0) \<Rightarrow> (Inl e, w0)
      | (Inr _, w0) \<Rightarrow>
          (case os_WriteFile (path @ ''.new'') c m w0 of
             (Inl e, w1) \<Rightarrow> (Inl e, w1)
           | (Inr _, w1) \<Rightarrow>
               (case os_Chmod (path @ ''.new'') m w1 of
                  (Inl e, w2) \<Rightarrow> (Inl e, snd (os_Remove (path @ ''.new'') w2))
                | (Inr _, w2) \<Rightarrow> swap_in path m w2)))"

text \<open>\<open>policyupdate.readOptionalFile\<close>: \<open>None\<close> is \<open>(nil, false)\<close>.\<close>

definition readOptionalFile :: "string \<Rightarrow> string option io" where
  "readOptionalFile path w =
     (case os_ReadFile path w of
        (Inl ErrNotExist, w1) \<Rightarrow> (Inr None, w1)
      | (Inl e, w1) \<Rightarrow> (Inl e, w1)
      | (Inr c, w1) \<Rightarrow> (Inr (Some c), w1))"

definition restoreOptionalFile :: "string \<Rightarrow> string option \<Rightarrow> nat \<Rightarrow> unit io" where
  "restoreOptionalFile path prev m w =
     (case prev of
        Some c \<Rightarrow> replaceFile path c m w
      | None \<Rightarrow>
          (case os_Remove path w of
             (Inl ErrNotExist, w1) \<Rightarrow> (Inr (), w1)
           | (Inl e, w1) \<Rightarrow> (Inl e, w1)
           | (Inr _, w1) \<Rightarrow> (Inr (), w1)))"

section \<open>Events that leave a file's content alone\<close>

definition harmless :: "string \<Rightarrow> fsevent \<Rightarrow> bool" where
  "harmless p e = (p \<notin> ev_paths e \<or> (\<exists>m. e = EvChmod p m))"

lemma harmless_content: "harmless p e \<Longrightarrow> fs_content (ev_apply e s) p = fs_content s p"
  by (auto simp: harmless_def fs_content_def ev_apply_frame fs_simps split: option.splits)

lemma harmless_run: "list_all (harmless p) es \<Longrightarrow> fs_content (ev_run es s) p = fs_content s p"
  by (induction es arbitrary: s) (simp_all add: harmless_content)

lemma harmless_crashes:
  "crashes s es u \<Longrightarrow> list_all (harmless p) es \<Longrightarrow> fs_content u p = fs_content s p"
proof (induction rule: crashes.induct)
  case (crash_torn_write s q c m t es n)
  then have "harmless p (EvWrite q (take n c) m t)" by (simp add: harmless_def)
  then show ?case by (rule harmless_content)
next
  case (crash_torn_append s q c t es n)
  then have "harmless p (EvAppend q (take n c) t)" by (simp add: harmless_def)
  then show ?case by (rule harmless_content)
next
  case (crash_later e s es u)
  then show ?case by (simp add: harmless_content)
qed simp

text \<open>\<open>quiet p w w'\<close>: the world moved from \<open>w\<close> to \<open>w'\<close> by events that are harmless to \<open>p\<close>.\<close>

definition quiet :: "string \<Rightarrow> world \<Rightarrow> world \<Rightarrow> bool" where
  "quiet p w w' = (\<exists>es. steps w es w' \<and> list_all (harmless p) es)"

lemma quiet_refl [simp, intro]: "quiet p w w"
  unfolding quiet_def by (rule exI [of _ "[]"]) simp

lemma quiet_trans [trans]: "quiet p w w1 \<Longrightarrow> quiet p w1 w2 \<Longrightarrow> quiet p w w2"
  unfolding quiet_def by (metis list_all_append steps_trans)

lemma quiet_steps: "steps w es w' \<Longrightarrow> list_all (harmless p) es \<Longrightarrow> quiet p w w'"
  by (auto simp: quiet_def)

lemma quiet_nil: "steps w [] w' \<Longrightarrow> quiet p w w'"
  by (erule quiet_steps) simp

lemma quiet_one: "steps w [e] w' \<Longrightarrow> harmless p e \<Longrightarrow> quiet p w w'"
  by (erule quiet_steps) simp

lemma harmless_other:
  "p \<noteq> q \<Longrightarrow> harmless p (EvWrite q c m t)" "p \<noteq> q \<Longrightarrow> harmless p (EvRemove q)"
  "harmless p (EvChmod q m)" "p \<noteq> a \<Longrightarrow> p \<noteq> b \<Longrightarrow> harmless p (EvRename a b)"
  "p \<noteq> q \<Longrightarrow> harmless p (EvAppend q c t)"
  by (simp_all add: harmless_def)

lemma quiet_content: "quiet p w w' \<Longrightarrow> fs_content (files w') p = fs_content (files w) p"
  by (auto simp: quiet_def steps_def harmless_run)

lemma quiet_MkdirAll: "os_MkdirAll d m w = (r, w') \<Longrightarrow> quiet p w w'"
  by (auto dest: os_MkdirAll_cases intro!: quiet_steps [of _ "[]"] simp: steps_def)

lemma quiet_Stat: "os_Stat q w = (r, w') \<Longrightarrow> quiet p w w'"
  by (auto dest: os_Stat_cases intro!: quiet_steps [of _ "[]"] simp: steps_def)

lemma quiet_ReadFile: "os_ReadFile q w = (r, w') \<Longrightarrow> quiet p w w'"
  by (auto dest: os_ReadFile_cases intro!: quiet_steps [of _ "[]"] simp: steps_def)

lemma quiet_WriteFile: "os_WriteFile q c m w = (r, w') \<Longrightarrow> p \<noteq> q \<Longrightarrow> quiet p w w'"
  by (drule os_WriteFile_steps) (blast intro: quiet_nil quiet_one harmless_other)

lemma quiet_Chmod: "os_Chmod q m w = (r, w') \<Longrightarrow> quiet p w w'"
  by (drule os_Chmod_steps) (blast intro: quiet_nil quiet_one harmless_other)

lemma quiet_Remove: "os_Remove q w = (r, w') \<Longrightarrow> p \<noteq> q \<Longrightarrow> quiet p w w'"
  by (drule os_Remove_steps) (blast intro: quiet_nil quiet_one harmless_other)

lemma quiet_Rename: "os_Rename a b w = (r, w') \<Longrightarrow> p \<noteq> a \<Longrightarrow> p \<noteq> b \<Longrightarrow> quiet p w w'"
  by (drule os_Rename_steps) (blast intro: quiet_nil quiet_one harmless_other)

lemmas quiet_calls = quiet_MkdirAll quiet_Stat quiet_ReadFile quiet_WriteFile quiet_Chmod
  quiet_Remove quiet_Rename

lemma quiet_snd_Chmod: "quiet p w (snd (os_Chmod q m w))"
  by (cases "os_Chmod q m w") (auto dest: quiet_Chmod)

lemma quiet_snd_Remove: "p \<noteq> q \<Longrightarrow> quiet p w (snd (os_Remove q w))"
  by (cases "os_Remove q w") (auto dest: quiet_Remove)

section \<open>Crash safety of a run\<close>

text \<open>\<open>crash_safe R w w'\<close>: the run from \<open>w\<close> to \<open>w'\<close> keeps \<open>R\<close> in every state a crash can leave.\<close>

definition crash_safe :: "(fs \<Rightarrow> bool) \<Rightarrow> world \<Rightarrow> world \<Rightarrow> bool" where
  "crash_safe R w w' = (\<exists>es. steps w es w' \<and> (\<forall>u. crashes (files w) es u \<longrightarrow> R u))"

lemma crash_safe_start: "crash_safe R w w' \<Longrightarrow> R (files w)"
  by (auto simp: crash_safe_def intro: crash_now)

lemma crash_safe_end: "crash_safe R w w' \<Longrightarrow> R (files w')"
  by (auto simp: crash_safe_def steps_def intro: crashes_end)

lemma crash_safe_trans: "crash_safe R w w1 \<Longrightarrow> crash_safe R w1 w2 \<Longrightarrow> crash_safe R w w2"
proof -
  assume "crash_safe R w w1" "crash_safe R w1 w2"
  then obtain es fs where s: "steps w es w1" "steps w1 fs w2"
    and es: "\<forall>u. crashes (files w) es u \<longrightarrow> R u" and fs: "\<forall>u. crashes (files w1) fs u \<longrightarrow> R u"
    by (auto simp: crash_safe_def)
  have "files w1 = ev_run es (files w)" using s(1) by (simp add: steps_def)
  then have "\<forall>u. crashes (files w) (es @ fs) u \<longrightarrow> R u"
    using es fs by (metis crashes_append)
  then show ?thesis using steps_trans [OF s] by (auto simp: crash_safe_def)
qed

lemma crash_safe_mono: "crash_safe R w w' \<Longrightarrow> (\<And>u. R u \<Longrightarrow> S u) \<Longrightarrow> crash_safe S w w'"
  by (auto simp: crash_safe_def)

lemma crash_safe_quiet:
  assumes "quiet p w w'" and "\<And>u. fs_content u p = fs_content (files w) p \<Longrightarrow> R u"
  shows "crash_safe R w w'"
  using assms by (auto simp: quiet_def crash_safe_def dest: harmless_crashes)

lemma crashes_rename: "crashes s [EvRename a b] u \<longleftrightarrow> u = s \<or> u = ev_apply (EvRename a b) s"
  by (auto simp: crashes_Cons intro: crashes.intros)

lemma crash_safe_rename:
  "steps w [EvRename a b] w' \<Longrightarrow> R (files w) \<Longrightarrow> R (files w') \<Longrightarrow> crash_safe R w w'"
  unfolding crash_safe_def by (rule exI [of _ "[EvRename a b]"]) (auto simp: crashes_rename steps_def)

lemma steps_rename_content:
  assumes "steps w [EvRename a b] w'" "fs_get (files w) a \<noteq> None"
  shows "fs_content (files w') b = fs_content (files w) a"
    and "a \<noteq> b \<Longrightarrow> fs_content (files w') a = None"
    and "q \<noteq> a \<Longrightarrow> q \<noteq> b \<Longrightarrow> fs_content (files w') q = fs_content (files w) q"
  using assms by (auto simp: steps_def fs_content_def fs_simps)

lemma steps_write_content: "steps w [EvWrite q c m t] w' \<Longrightarrow> fs_content (files w') q = Some c"
  by (simp add: steps_def fs_content_def fs_simps)

section \<open>The interfaces\<close>

text \<open>What every installing routine promises: after success the target holds the new content with
  the intended permissions, other files are untouched but for the routine's own scratch names, and the
  routine is a sequence of file-system events.\<close>

locale installer =
  fixes install :: "string \<Rightarrow> string \<Rightarrow> unit io"
    and scratch :: "string \<Rightarrow> string set"
    and mode :: nat
  assumes installs: "install p c w = (Inr (), w') \<Longrightarrow> fs_content (files w') p = Some c"
    and protected: "install p c w = (Inr (), w') \<Longrightarrow> map_option perm (fs_get (files w') p) = Some mode"
    and others: "install p c w = (r, w') \<Longrightarrow> q \<noteq> p \<Longrightarrow> q \<notin> scratch p \<Longrightarrow> quiet q w w'"
begin

lemma others_content:
  "install p c w = (r, w') \<Longrightarrow> q \<noteq> p \<Longrightarrow> q \<notin> scratch p \<Longrightarrow>
     fs_content (files w') q = fs_content (files w) q"
  by (rule quiet_content) (rule others)

end

text \<open>An atomic routine shows the old or the new content, whatever happens.\<close>

locale atomic_installer = installer +
  assumes atomic: "install p c w = (r, w') \<Longrightarrow>
     crash_safe (\<lambda>u. fs_content u p = fs_content (files w) p \<or> fs_content u p = Some c) w w'"
begin

lemma result_old_or_new:
  "install p c w = (r, w') \<Longrightarrow>
     fs_content (files w') p = fs_content (files w) p \<or> fs_content (files w') p = Some c"
  by (drule atomic) (drule crash_safe_end)

text \<open>A sequence of installations, each one tried whether or not the previous ones succeeded.\<close>

primrec install_all :: "string \<Rightarrow> string list \<Rightarrow> world \<Rightarrow> world" where
  "install_all p [] w = w"
| "install_all p (c # cs) w = install_all p cs (snd (install p c w))"

lemma install_all_versions:
  "crash_safe (\<lambda>u. fs_content u p = fs_content (files w) p \<or> fs_content u p \<in> Some ` set cs) w
     (install_all p cs w)"
proof (induction cs arbitrary: w)
  case Nil
  show ?case by (auto simp: crash_safe_def intro!: exI [of _ "[]"])
next
  case (Cons c cs)
  obtain r w1 where i: "install p c w = (r, w1)" by (cases "install p c w")
  let ?R = "\<lambda>u. fs_content u p = fs_content (files w) p \<or> fs_content u p \<in> Some ` set (c # cs)"
  have "crash_safe ?R w w1" by (rule crash_safe_mono [OF atomic [OF i]]) auto
  moreover have "crash_safe ?R w1 (install_all p cs w1)"
    by (rule crash_safe_mono [OF Cons.IH [of w1]]) (use result_old_or_new [OF i] in auto)
  ultimately show ?case using i by (auto intro: crash_safe_trans)
qed

end

section \<open>Write beside and rename\<close>

lemma tmp_ne [simp]: "p @ ''.tmp'' \<noteq> p" "p \<noteq> p @ ''.tmp''"
  "p @ ''.new'' \<noteq> p" "p \<noteq> p @ ''.new''" "p @ ''.bak'' \<noteq> p" "p \<noteq> p @ ''.bak''"
  by simp_all

text \<open>The last step of both routines: what the temporary file holds becomes the target.\<close>

lemma rename_installs:
  assumes "os_Rename a b w = (Inr (), w')"
  shows "fs_content (files w') b = fs_content (files w) a"
    and "fs_get (files w') b = fs_get (files w) a"
    and "fs_content (files w) a = Some c \<Longrightarrow>
      crash_safe (\<lambda>u. fs_content u b = fs_content (files w) b \<or> fs_content u b = Some c) w w'"
proof -
  from assms have s: "steps w [EvRename a b] w'" and a: "fs_get (files w) a \<noteq> None"
    by (auto dest: os_Rename_steps)
  show eq: "fs_content (files w') b = fs_content (files w) a" by (rule steps_rename_content(1) [OF s a])
  show "fs_get (files w') b = fs_get (files w) a" using s a by (auto simp: steps_def fs_simps)
  show "crash_safe (\<lambda>u. fs_content u b = fs_content (files w) b \<or> fs_content u b = Some c) w w'"
    if "fs_content (files w) a = Some c"
    by (rule crash_safe_rename [OF s]) (use eq that in auto)
qed

lemma write_content: "os_WriteFile q c m w = (Inr (), w') \<Longrightarrow> fs_content (files w') q = Some c"
  by (drule os_WriteFile_steps) (auto dest: steps_write_content)

lemma chmod_perm:
  "os_Chmod q m w = (Inr (), w') \<Longrightarrow> map_option perm (fs_get (files w') q) = Some m"
  by (drule os_Chmod_steps) (auto simp: steps_def fs_simps)

lemma crash_safe_content:
  "quiet p w w' \<Longrightarrow> crash_safe (\<lambda>u. fs_content u p = fs_content (files w) p \<or> Q u) w w'"
  by (erule crash_safe_quiet) simp

lemma atomicWrite_ok:
  assumes "atomicWrite p c m w = (Inr (), w')"
  obtains w1 w2 where "os_WriteFile (p @ ''.tmp'') c m w = (Inr (), w1)"
    "os_Chmod (p @ ''.tmp'') m w1 = (Inr (), w2)"
    "os_Rename (p @ ''.tmp'') p w2 = (Inr (), w')"
  using assms by (auto simp: atomicWrite_def Let_def split: prod.splits sum.splits)

lemma quiet_Rename_failed: "os_Rename a b w = (Inl e, w') \<Longrightarrow> quiet p w w'"
  by (drule os_Rename_steps) (auto intro: quiet_nil)

text \<open>The same facts as steps of a chain, applied from the last call backwards.\<close>

lemma quiet_via:
  "os_MkdirAll d m w1 = (r, w2) \<Longrightarrow> quiet p w w1 \<Longrightarrow> quiet p w w2"
  "os_Stat q w1 = (r', w2) \<Longrightarrow> quiet p w w1 \<Longrightarrow> quiet p w w2"
  "os_ReadFile q w1 = (r'', w2) \<Longrightarrow> quiet p w w1 \<Longrightarrow> quiet p w w2"
  "os_WriteFile q c m w1 = (r, w2) \<Longrightarrow> p \<noteq> q \<Longrightarrow> quiet p w w1 \<Longrightarrow> quiet p w w2"
  "os_Chmod q m w1 = (r, w2) \<Longrightarrow> quiet p w w1 \<Longrightarrow> quiet p w w2"
  "os_Remove q w1 = (r, w2) \<Longrightarrow> p \<noteq> q \<Longrightarrow> quiet p w w1 \<Longrightarrow> quiet p w w2"
  "os_Rename a b w1 = (r, w2) \<Longrightarrow> p \<noteq> a \<Longrightarrow> p \<noteq> b \<Longrightarrow> quiet p w w1 \<Longrightarrow> quiet p w w2"
  "os_Rename a b w1 = (Inl e, w2) \<Longrightarrow> quiet p w w1 \<Longrightarrow> quiet p w w2"
  by (meson quiet_calls quiet_Rename_failed quiet_trans)+

lemma quiet_via_snd:
  "quiet p w w1 \<Longrightarrow> p \<noteq> q \<Longrightarrow> quiet p w (snd (os_Remove q w1))"
  "quiet p w w1 \<Longrightarrow> quiet p w (snd (os_Chmod q m w1))"
  by (meson quiet_snd_Remove quiet_snd_Chmod quiet_trans)+

lemmas quiet_chain = quiet_via quiet_via_snd quiet_refl

lemma atomicWrite_failed:
  assumes "atomicWrite p c m w = (Inl e, w')" and q: "q \<noteq> p @ ''.tmp''"
  shows "quiet q w w'"
  using assms
  by (auto simp: atomicWrite_def Let_def split: prod.splits sum.splits)
    (meson quiet_chain)+

text \<open>The shape both routines share: prepare a temporary file, rename it over the target, and leave
  the target's content alone before and after.\<close>

lemma tmp_install_atomic:
  assumes q: "quiet p w w2" and t: "fs_content (files w2) a = Some c"
    and ren: "os_Rename a p w2 = (Inr (), w3)" and q': "quiet p w3 w'"
  shows "crash_safe (\<lambda>u. fs_content u p = fs_content (files w) p \<or> fs_content u p = Some c) w w'"
proof -
  let ?R = "\<lambda>u. fs_content u p = fs_content (files w) p \<or> fs_content u p = Some c"
  have "crash_safe ?R w w2" by (rule crash_safe_content [OF q])
  moreover have "crash_safe ?R w2 w3"
    using rename_installs(3) [OF ren t] quiet_content [OF q] by simp
  moreover have "crash_safe ?R w3 w'"
    by (rule crash_safe_quiet [OF q']) (use rename_installs(1) [OF ren] t in simp)
  ultimately show ?thesis by (blast intro: crash_safe_trans)
qed

interpretation enf: atomic_installer "\<lambda>p c. atomicWrite p c m" "\<lambda>p. {p @ ''.tmp''}" m for m
proof
  fix p c w w' r q
  show "fs_content (files w') p = Some c" "map_option perm (fs_get (files w') p) = Some m"
    if ok: "atomicWrite p c m w = (Inr (), w')"
  proof -
    from ok obtain w1 w2 where s: "os_WriteFile (p @ ''.tmp'') c m w = (Inr (), w1)"
      "os_Chmod (p @ ''.tmp'') m w1 = (Inr (), w2)"
      "os_Rename (p @ ''.tmp'') p w2 = (Inr (), w')" by (rule atomicWrite_ok)
    show "fs_content (files w') p = Some c"
      using rename_installs(1) [OF s(3)] write_content [OF s(1)] quiet_content [OF quiet_Chmod [OF s(2)]]
      by simp
    show "map_option perm (fs_get (files w') p) = Some m"
      using rename_installs(2) [OF s(3)] chmod_perm [OF s(2)] by simp
  qed
  show "quiet q w w'"
    if run: "atomicWrite p c m w = (r, w')" and "q \<noteq> p" "q \<notin> {p @ ''.tmp''}"
  proof (cases r)
    case (Inl e)
    then show ?thesis using atomicWrite_failed run that by auto
  next
    case (Inr x)
    with run have "atomicWrite p c m w = (Inr (), w')" by simp
    then obtain w1 w2 where "os_WriteFile (p @ ''.tmp'') c m w = (Inr (), w1)"
      "os_Chmod (p @ ''.tmp'') m w1 = (Inr (), w2)"
      "os_Rename (p @ ''.tmp'') p w2 = (Inr (), w')" by (rule atomicWrite_ok)
    moreover have "q \<noteq> p @ ''.tmp''" using that(3) by simp
    ultimately show ?thesis using that(2) by (meson quiet_chain)
  qed
  show "crash_safe (\<lambda>u. fs_content u p = fs_content (files w) p \<or> fs_content u p = Some c) w w'"
    if run: "atomicWrite p c m w = (r, w')"
  proof (cases r)
    case (Inl e)
    then have "quiet p w w'" using atomicWrite_failed run by auto
    then show ?thesis by (rule crash_safe_content)
  next
    case (Inr x)
    with run have "atomicWrite p c m w = (Inr (), w')" by simp
    then obtain w1 w2 where s: "os_WriteFile (p @ ''.tmp'') c m w = (Inr (), w1)"
      "os_Chmod (p @ ''.tmp'') m w1 = (Inr (), w2)"
      "os_Rename (p @ ''.tmp'') p w2 = (Inr (), w')" by (rule atomicWrite_ok)
    have q: "quiet p w w2" using s(1,2) by (meson quiet_chain tmp_ne)
    have "fs_content (files w2) (p @ ''.tmp'') = Some c"
      using write_content [OF s(1)] quiet_content [OF quiet_Chmod [OF s(2)]] by simp
    then show ?thesis by (rule tmp_install_atomic [OF q _ s(3) quiet_refl])
  qed
qed

lemma identity_writePrivateFile_eq: "identity_writePrivateFile p c = atomicWrite p c mode_private"
  by (rule ext) (simp only: identity_writePrivateFile_def atomicWrite_def)

interpretation idf: atomic_installer identity_writePrivateFile "\<lambda>p. {p @ ''.tmp''}" mode_private
  unfolding identity_writePrivateFile_eq [abs_def] by (rule enf.atomic_installer_axioms)

lemma tools_write_renamed:
  assumes "tools_writePrivateFile p c w = (r, w')"
  shows "(\<exists>e. r = Inl e \<and> (\<forall>q. q \<noteq> p @ ''.tmp'' \<longrightarrow> quiet q w w'))
    \<or> (\<exists>w2 w3. (\<forall>q. q \<noteq> p @ ''.tmp'' \<longrightarrow> quiet q w w2)
          \<and> fs_content (files w2) (p @ ''.tmp'') = Some c
          \<and> os_Rename (p @ ''.tmp'') p w2 = (Inr (), w3) \<and> os_Chmod p mode_private w3 = (r, w'))"
proof -
  obtain r0 w0 where m: "os_MkdirAll (filepath_Dir p) mode_private_dir w = (r0, w0)"
    by (cases "os_MkdirAll (filepath_Dir p) mode_private_dir w")
  obtain r1 w1 where wr: "os_WriteFile (p @ ''.tmp'') c mode_private w0 = (r1, w1)"
    by (cases "os_WriteFile (p @ ''.tmp'') c mode_private w0")
  obtain rc w2 where ch: "os_Chmod (p @ ''.tmp'') mode_private w1 = (rc, w2)"
    by (cases "os_Chmod (p @ ''.tmp'') mode_private w1")
  obtain r3 w3 where ren: "os_Rename (p @ ''.tmp'') p w2 = (r3, w3)"
    by (cases "os_Rename (p @ ''.tmp'') p w2")
  have q0: "quiet q w w0" for q using m by (rule quiet_calls)
  have q1: "quiet q w w1" if "q \<noteq> p @ ''.tmp''" for q using quiet_via(4) [OF wr that q0] .
  have q2: "quiet q w w2" if "q \<noteq> p @ ''.tmp''" for q using quiet_via(5) [OF ch q1 [OF that]] .
  show ?thesis
  proof (cases "is_ok r0 \<and> is_ok r1 \<and> is_ok r3")
    case False
    have q3: "quiet q w (snd (os_Remove (p @ ''.tmp'') w3))"
      if qn: "q \<noteq> p @ ''.tmp''" and nr: "\<not> is_ok r3" for q
    proof -
      obtain e where "r3 = Inl e" using nr by (cases r3) simp_all
      then have "quiet q w w3" using quiet_via(8) ren q2 [OF qn] by blast
      then show ?thesis using qn by (rule quiet_via_snd)
    qed
    show ?thesis
      using False assms m wr ch ren q0 q1 q3
      by (auto simp: tools_writePrivateFile_def Let_def is_ok_def split: sum.splits)
  next
    case True
    then have ok: "r0 = Inr ()" "r1 = Inr ()" "r3 = Inr ()" by (auto simp: is_ok_iff)
    have t: "fs_content (files w2) (p @ ''.tmp'') = Some c"
      using write_content wr ok(2) quiet_content [OF quiet_Chmod [OF ch]] by auto
    have "os_Chmod p mode_private w3 = (r, w')"
      using assms m wr ch ren ok by (simp add: tools_writePrivateFile_def Let_def)
    then show ?thesis using q2 t ren ok(3) by blast
  qed
qed

interpretation tlf: atomic_installer tools_writePrivateFile "\<lambda>p. {p @ ''.tmp''}" mode_private
proof
  fix p c w w' r q
  show "fs_content (files w') p = Some c" "map_option perm (fs_get (files w') p) = Some mode_private"
    if "tools_writePrivateFile p c w = (Inr (), w')"
  proof -
    from tools_write_renamed [OF that] obtain w2 w3 where
      t: "fs_content (files w2) (p @ ''.tmp'') = Some c" "os_Rename (p @ ''.tmp'') p w2 = (Inr (), w3)"
      and ch: "os_Chmod p mode_private w3 = (Inr (), w')" by auto
    show "fs_content (files w') p = Some c"
      using rename_installs(1) [OF t(2)] t(1) quiet_content [OF quiet_Chmod [OF ch]] by simp
    show "map_option perm (fs_get (files w') p) = Some mode_private" by (rule chmod_perm [OF ch])
  qed
  show "quiet q w w'" if run: "tools_writePrivateFile p c w = (r, w')" and "q \<noteq> p" "q \<notin> {p @ ''.tmp''}"
  proof -
    have q: "q \<noteq> p @ ''.tmp''" using that(3) by simp
    from tools_write_renamed [OF run] show ?thesis
    proof (elim disjE exE conjE)
      fix w2 w3
      assume "\<forall>q. q \<noteq> p @ ''.tmp'' \<longrightarrow> quiet q w w2"
        and c: "os_Rename (p @ ''.tmp'') p w2 = (Inr (), w3)" "os_Chmod p mode_private w3 = (r, w')"
      then have "quiet q w w2" using q by blast
      then show ?thesis using c q that(2) by (meson quiet_chain)
    qed (use q in blast)
  qed
  show "crash_safe (\<lambda>u. fs_content u p = fs_content (files w) p \<or> fs_content u p = Some c) w w'"
    if run: "tools_writePrivateFile p c w = (r, w')"
    using tools_write_renamed [OF run]
  proof (elim disjE exE conjE)
    fix e assume "\<forall>q. q \<noteq> p @ ''.tmp'' \<longrightarrow> quiet q w w'"
    then have "quiet p w w'" by simp
    then show ?thesis by (rule crash_safe_content)
  next
    fix w2 w3
    assume "\<forall>q. q \<noteq> p @ ''.tmp'' \<longrightarrow> quiet q w w2"
      and c: "fs_content (files w2) (p @ ''.tmp'') = Some c"
        "os_Rename (p @ ''.tmp'') p w2 = (Inr (), w3)" "os_Chmod p mode_private w3 = (r, w')"
    then have "quiet p w w2" by simp
    from tmp_install_atomic [OF this c(1,2) quiet_Chmod [OF c(3)]] show ?thesis .
  qed
qed

section \<open>Move away and rename\<close>

text \<open>A routine of the second kind goes through a state in which the target does not exist; the old
  version is then under the backup name.\<close>

locale backup_installer = installer +
  assumes with_backup: "install p c w = (r, w') \<Longrightarrow>
     crash_safe (\<lambda>u. fs_content u p = fs_content (files w) p \<or> fs_content u p = Some c
        \<or> (fs_content u p = None \<and> fs_content u (p @ ''.bak'') = fs_content (files w) p)) w w'"
begin

lemma nothing_lost:
  assumes "install p c w = (r, w')" "fs_content (files w) p = Some old"
  shows "crash_safe (\<lambda>u. Some old \<in> {fs_content u p, fs_content u (p @ ''.bak'')}
           \<or> fs_content u p = Some c) w w'"
  by (rule crash_safe_mono [OF with_backup [OF assms(1)]]) (use assms(2) in auto)

end

text \<open>The states a crash may leave, for the old content \<open>old\<close> and the new content \<open>c\<close>.\<close>

definition kept :: "string \<Rightarrow> string option \<Rightarrow> string \<Rightarrow> fs \<Rightarrow> bool" where
  "kept p old c u = (fs_content u p = old \<or> fs_content u p = Some c
      \<or> (fs_content u p = None \<and> fs_content u (p @ ''.bak'') = old))"

lemma kept_quiet:
  "quiet p w w' \<Longrightarrow> fs_content (files w) p \<in> {old, Some c} \<Longrightarrow> crash_safe (kept p old c) w w'"
  by (erule crash_safe_quiet) (auto simp: kept_def)

lemma kept_quiet_remove:
  assumes "kept p old c (files w)"
  shows "crash_safe (kept p old c) w (snd (os_Remove (p @ ''.new'') w))"
proof -
  obtain r w' where rm: "os_Remove (p @ ''.new'') w = (r, w')" by (cases "os_Remove (p @ ''.new'') w")
  from os_Remove_steps [OF rm] obtain es where st: "steps w es w'" and es: "es = [] \<or> es = [EvRemove (p @ ''.new'')]"
    by auto
  have "list_all (harmless p) es" "list_all (harmless (p @ ''.bak'')) es"
    using es by (auto simp: harmless_def)
  then have "kept p old c u" if "crashes (files w) es u" for u
    using harmless_crashes [OF that] assms by (auto simp: kept_def)
  then show ?thesis using st rm by (auto simp: crash_safe_def)
qed

lemma snd_Rename_kept:
  assumes "fs_content (files w) p = None" "fs_content (files w) (p @ ''.bak'') = old"
  shows "crash_safe (kept p old c) w (snd (os_Rename (p @ ''.bak'') p w))"
proof -
  obtain r w' where ren: "os_Rename (p @ ''.bak'') p w = (r, w')" by (cases "os_Rename (p @ ''.bak'') p w")
  have here: "kept p old c (files w)" using assms by (simp add: kept_def)
  show ?thesis
  proof (cases r)
    case (Inl e)
    then have "steps w [] w'" using os_Rename_steps [OF ren] by auto
    then show ?thesis using here ren by (auto simp: crash_safe_def intro!: exI [of _ "[]"])
  next
    case (Inr x)
    then have st: "steps w [EvRename (p @ ''.bak'') p] w'" using os_Rename_steps [OF ren] by auto
    have "fs_content (files w') p = old" using rename_installs(1) [of "p @ ''.bak''" p w w'] ren Inr assms(2) by simp
    then have "crash_safe (kept p old c) w w'"
      using crash_safe_rename [OF st, of "kept p old c"] here by (simp add: kept_def)
    then show ?thesis using ren by simp
  qed
qed

lemma swap_rename_kept:
  assumes t: "fs_content (files w) (p @ ''.new'') = Some c"
    and none: "fs_content (files w) p = None"
    and old: "if h then fs_content (files w) (p @ ''.bak'') = old else old = None"
    and run: "swap_rename p m h w = (r, w')"
  shows "crash_safe (kept p old c) w w'"
    and "r = Inr () \<Longrightarrow> fs_content (files w') p = Some c \<and> map_option perm (fs_get (files w') p) = Some m"
proof -
  obtain r6 w6 where ren: "os_Rename (p @ ''.new'') p w = (r6, w6)" by (cases "os_Rename (p @ ''.new'') p w")
  have here: "kept p old c (files w)" using none old by (auto simp: kept_def split: if_splits)
  have "crash_safe (kept p old c) w w' \<and>
    (r = Inr () \<longrightarrow> fs_content (files w') p = Some c \<and> map_option perm (fs_get (files w') p) = Some m)"
  proof (cases r6)
    case (Inl e)
    then have q: "quiet q w w6" for q using ren quiet_Rename_failed by blast
    have c6: "fs_content (files w6) q = fs_content (files w) q" for q using quiet_content [OF q] .
    let ?w7 = "if h then snd (os_Rename (p @ ''.bak'') p w6) else w6"
    have w': "w' = snd (os_Remove (p @ ''.new'') ?w7)" and r: "r = Inl e"
      using run ren Inl by (simp_all add: swap_rename_def Let_def)
    have s6: "crash_safe (kept p old c) w w6"
      using q ren Inl os_Rename_steps [OF ren] here by (auto simp: crash_safe_def intro!: exI [of _ "[]"])
    have s7: "crash_safe (kept p old c) w6 ?w7"
      using snd_Rename_kept [of w6 p old c] none old c6 here
      by (auto simp: crash_safe_def kept_def intro!: exI [of _ "[]"])
    have "crash_safe (kept p old c) ?w7 w'"
      unfolding w' by (rule kept_quiet_remove) (rule crash_safe_end [OF s7])
    then show ?thesis using s6 s7 r by (blast intro: crash_safe_trans)
  next
    case (Inr x)
    then have ren': "os_Rename (p @ ''.new'') p w = (Inr (), w6)" using ren by simp
    then have st: "steps w [EvRename (p @ ''.new'') p] w6" by (auto dest: os_Rename_steps)
    have c6: "fs_content (files w6) p = Some c" using rename_installs(1) [OF ren'] t by simp
    let ?w7 = "if h then snd (os_Remove (p @ ''.bak'') w6) else w6"
    have ch: "os_Chmod p m ?w7 = (r, w')" using run ren' by (simp add: swap_rename_def Let_def)
    have q: "quiet p w6 ?w7" by (auto intro: quiet_snd_Remove)
    have q': "quiet p w6 w'" by (rule quiet_via(5) [OF ch q])
    have "crash_safe (kept p old c) w w6"
      using crash_safe_rename [OF st, of "kept p old c"] here by (simp add: kept_def c6)
    moreover have "crash_safe (kept p old c) w6 w'" by (rule kept_quiet [OF q']) (simp add: c6)
    moreover have "r = Inr () \<longrightarrow> map_option perm (fs_get (files w') p) = Some m"
      using chmod_perm ch by blast
    ultimately show ?thesis using quiet_content [OF q'] c6 by (auto intro: crash_safe_trans)
  qed
  then show "crash_safe (kept p old c) w w'"
    and "r = Inr () \<Longrightarrow> fs_content (files w') p = Some c \<and> map_option perm (fs_get (files w') p) = Some m"
    by blast+
qed

lemma swap_rename_others:
  assumes "swap_rename p m h w = (r, w')" "q \<notin> {p, p @ ''.new'', p @ ''.bak''}"
  shows "quiet q w w'"
proof -
  have snd_ren: "quiet q w1 (snd (os_Rename (p @ ''.bak'') p w1))" for w1
    using assms(2) quiet_Rename [of "p @ ''.bak''" p w1 "fst (os_Rename (p @ ''.bak'') p w1)"
        "snd (os_Rename (p @ ''.bak'') p w1)" q] by simp
  have q: "q \<noteq> p" "q \<noteq> p @ ''.new''" "q \<noteq> p @ ''.bak''" using assms(2) by auto
  show ?thesis
    using assms(1) q snd_ren
    by (auto simp: swap_rename_def Let_def split: prod.splits sum.splits if_splits)
      (meson quiet_chain quiet_trans)+
qed

lemma swap_in_kept:
  assumes t: "fs_content (files w) (p @ ''.new'') = Some c" and run: "swap_in p m w = (r, w')"
  shows "crash_safe (kept p (fs_content (files w) p) c) w w'"
    and "r = Inr () \<Longrightarrow> fs_content (files w') p = Some c \<and> map_option perm (fs_get (files w') p) = Some m"
proof -
  let ?old = "fs_content (files w) p"
  define w3 where "w3 = snd (os_Remove (p @ ''.bak'') w)"
  obtain r4 w4 where st: "os_Stat p w3 = (r4, w4)" by (cases "os_Stat p w3")
  obtain r5 w5 where ren: "os_Rename p (p @ ''.bak'') w4 = (r5, w5)" by (cases "os_Rename p (p @ ''.bak'') w4")
  have q4: "quiet q w w4" if "q \<noteq> p @ ''.bak''" for q
    using quiet_via(2) [OF st] quiet_via_snd(1) [OF quiet_refl that, of w] by (simp add: w3_def)
  have c4: "fs_content (files w4) p = ?old" "fs_content (files w4) (p @ ''.new'') = Some c"
    using quiet_content [OF q4 [of p]] quiet_content [OF q4 [of "p @ ''.new''"]] t by simp_all
  have s4: "crash_safe (kept p ?old c) w w4" by (rule kept_quiet [OF q4]) simp_all
  have get3: "fs_get (files w3) p = fs_get (files w4) p" using os_Stat_cases(1) [OF st] by simp
  note unf = swap_in_def Let_def w3_def [symmetric]
  have rm: "crash_safe (kept p ?old c) w (snd (os_Remove (p @ ''.new'') v))"
    if "crash_safe (kept p ?old c) w v" for v
    using that kept_quiet_remove [OF crash_safe_end [OF that]] by (rule crash_safe_trans)
  have fin: "crash_safe (kept p ?old c) w w' \<and>
    (r = Inr () \<longrightarrow> fs_content (files w') p = Some c \<and> map_option perm (fs_get (files w') p) = Some m)"
    if sr: "swap_rename p m h v = (r, w')" and v: "crash_safe (kept p ?old c) w v"
      and n: "fs_content (files v) (p @ ''.new'') = Some c" "fs_content (files v) p = None"
      and o: "if h then fs_content (files v) (p @ ''.bak'') = ?old else ?old = None" for h v
    using swap_rename_kept [OF n o sr] crash_safe_trans [OF v] by blast
  have "crash_safe (kept p ?old c) w w' \<and>
    (r = Inr () \<longrightarrow> fs_content (files w') p = Some c \<and> map_option perm (fs_get (files w') p) = Some m)"
  proof (cases r4)
    case (Inl e)
    show ?thesis
    proof (cases "e = ErrNotExist")
      case True
      then have "fs_content (files w4) p = None"
        using os_Stat_cases(4) [OF st] Inl get3 by (auto simp: fs_content_def)
      then show ?thesis using run st Inl True c4 s4 by (intro fin [of False w4]) (simp_all add: unf)
    next
      case False
      then have "w' = snd (os_Remove (p @ ''.new'') w4)" "r = Inl e"
        using run st Inl by (cases e; simp add: unf)+
      then show ?thesis using rm [OF s4] by simp
    qed
  next
    case (Inr x)
    show ?thesis
    proof (cases r5)
      case (Inl e)
      have "w' = snd (os_Remove (p @ ''.new'') w5)" "r = Inl e"
        using run st ren Inr Inl by (simp_all add: unf)
      moreover have "crash_safe (kept p ?old c) w4 w5"
        using ren Inl c4 by (auto intro!: kept_quiet quiet_Rename_failed)
      ultimately show ?thesis using rm crash_safe_trans [OF s4] by simp
    next
      case (Inr y)
      then have ren': "os_Rename p (p @ ''.bak'') w4 = (Inr (), w5)" using ren by simp
      then have s: "steps w4 [EvRename p (p @ ''.bak'')] w5" and g: "fs_get (files w4) p \<noteq> None"
        by (auto dest: os_Rename_steps)
      note c5 = steps_rename_content [OF s g]
      have "crash_safe (kept p ?old c) w4 w5"
        using crash_safe_rename [OF s, of "kept p ?old c"] crash_safe_end [OF s4] c5(1,2) c4(1)
        by (simp add: kept_def)
      then have "crash_safe (kept p ?old c) w w5" by (rule crash_safe_trans [OF s4])
      moreover have "swap_rename p m True w5 = (r, w')"
        using run st ren' \<open>r4 = Inr x\<close> by (simp add: unf)
      ultimately show ?thesis
        using c5(1,2) c5(3) [of "p @ ''.new''"] c4 by (intro fin [of True w5]) simp_all
    qed
  qed
  then show "crash_safe (kept p ?old c) w w'"
    and "r = Inr () \<Longrightarrow> fs_content (files w') p = Some c \<and> map_option perm (fs_get (files w') p) = Some m"
    by blast+
qed

lemma swap_in_others:
  assumes run: "swap_in p m w = (r, w')" and q: "q \<notin> {p, p @ ''.new'', p @ ''.bak''}"
  shows "quiet q w w'"
proof -
  define w3 where "w3 = snd (os_Remove (p @ ''.bak'') w)"
  have q': "q \<noteq> p" "q \<noteq> p @ ''.new''" "q \<noteq> p @ ''.bak''" using q by auto
  have q3: "quiet q w w3" using q' by (simp add: w3_def quiet_snd_Remove)
  have sr: "quiet q w w'" if "swap_rename p m h v = (r, w')" "quiet q w v" for h v
    using swap_rename_others [OF that(1) q] that(2) by (blast intro: quiet_trans)
  show ?thesis
    using run q' q3 sr
    by (auto simp: swap_in_def Let_def w3_def [symmetric] split: prod.splits sum.splits oserr.splits)
      (meson quiet_chain)+
qed

text \<open>Both routines prepare the temporary file and then swap it in.\<close>

lemma replaceFile_swap:
  assumes "replaceFile p c m w = (r, w')"
  shows "((\<exists>e. r = Inl e) \<and> (\<forall>q. q \<noteq> p @ ''.new'' \<longrightarrow> quiet q w w'))
    \<or> (\<exists>w2. (\<forall>q. q \<noteq> p @ ''.new'' \<longrightarrow> quiet q w w2)
          \<and> fs_content (files w2) (p @ ''.new'') = Some c \<and> swap_in p m w2 = (r, w'))"
proof -
  obtain r0 w0 where m: "os_MkdirAll (filepath_Dir p) mode_private_dir w = (r0, w0)"
    by (cases "os_MkdirAll (filepath_Dir p) mode_private_dir w")
  obtain r1 w1 where wr: "os_WriteFile (p @ ''.new'') c m w0 = (r1, w1)"
    by (cases "os_WriteFile (p @ ''.new'') c m w0")
  have q0: "quiet q w w0" for q using m by (rule quiet_calls)
  have q1: "quiet q w w1" if "q \<noteq> p @ ''.new''" for q using quiet_via(4) [OF wr that q0] .
  let ?w2 = "snd (os_Chmod (p @ ''.new'') m w1)"
  have q2: "quiet q w ?w2" if "q \<noteq> p @ ''.new''" for q using quiet_via_snd(2) [OF q1 [OF that]] .
  have t: "fs_content (files ?w2) (p @ ''.new'') = Some c" if "r1 = Inr ()"
    using write_content wr that quiet_content [OF quiet_snd_Chmod] by simp
  show ?thesis
  proof (cases "is_ok r0 \<and> is_ok r1")
    case True
    then have "swap_in p m ?w2 = (r, w')" "r1 = Inr ()"
      using assms m wr by (auto simp: replaceFile_def is_ok_iff)
    then show ?thesis using q2 t by blast
  next
    case False
    then show ?thesis using assms m wr q0 q1 by (auto simp: replaceFile_def is_ok_def split: sum.splits)
  qed
qed

lemma replaceLedgerFile_swap:
  assumes "replaceLedgerFile p c m w = (r, w')"
  shows "((\<exists>e. r = Inl e) \<and> (\<forall>q. q \<noteq> p @ ''.new'' \<longrightarrow> quiet q w w'))
    \<or> (\<exists>w2. (\<forall>q. q \<noteq> p @ ''.new'' \<longrightarrow> quiet q w w2)
          \<and> fs_content (files w2) (p @ ''.new'') = Some c \<and> swap_in p m w2 = (r, w'))"
proof -
  obtain r0 w0 where m: "os_MkdirAll (filepath_Dir p) mode_private_dir w = (r0, w0)"
    by (cases "os_MkdirAll (filepath_Dir p) mode_private_dir w")
  obtain r1 w1 where wr: "os_WriteFile (p @ ''.new'') c m w0 = (r1, w1)"
    by (cases "os_WriteFile (p @ ''.new'') c m w0")
  obtain r2 w2 where ch: "os_Chmod (p @ ''.new'') m w1 = (r2, w2)"
    by (cases "os_Chmod (p @ ''.new'') m w1")
  have q0: "quiet q w w0" for q using m by (rule quiet_calls)
  have q1: "quiet q w w1" if "q \<noteq> p @ ''.new''" for q using quiet_via(4) [OF wr that q0] .
  have q2: "quiet q w w2" if "q \<noteq> p @ ''.new''" for q using quiet_via(5) [OF ch q1 [OF that]] .
  have t: "fs_content (files w2) (p @ ''.new'') = Some c" if "r1 = Inr ()"
    using write_content wr that quiet_content [OF quiet_Chmod [OF ch]] by simp
  have q3: "quiet q w (snd (os_Remove (p @ ''.new'') w2))" if "q \<noteq> p @ ''.new''" for q
    using quiet_via_snd(1) [OF q2 [OF that] that] .
  show ?thesis
  proof (cases "is_ok r0 \<and> is_ok r1 \<and> is_ok r2")
    case True
    then have "swap_in p m w2 = (r, w')" "r1 = Inr ()"
      using assms m wr ch by (auto simp: replaceLedgerFile_def is_ok_iff)
    then show ?thesis using q2 t by blast
  next
    case False
    then show ?thesis
      using assms m wr ch q0 q1 q3 by (auto simp: replaceLedgerFile_def is_ok_def split: sum.splits)
  qed
qed

text \<open>The laws follow from that shape alone.\<close>

lemma backup_installerI:
  assumes shape: "\<And>p c w r w'. f p c w = (r, w') \<Longrightarrow>
    ((\<exists>e. r = Inl e) \<and> (\<forall>q. q \<noteq> p @ ''.new'' \<longrightarrow> quiet q w w'))
    \<or> (\<exists>w2. (\<forall>q. q \<noteq> p @ ''.new'' \<longrightarrow> quiet q w w2)
          \<and> fs_content (files w2) (p @ ''.new'') = Some c \<and> swap_in p mode_private w2 = (r, w'))"
  shows "backup_installer f (\<lambda>p. {p @ ''.new'', p @ ''.bak''}) mode_private"
proof
  fix p c w w' r q
  show "fs_content (files w') p = Some c" "map_option perm (fs_get (files w') p) = Some mode_private"
    if "f p c w = (Inr (), w')"
  proof -
    from shape [OF that] obtain w2 where "fs_content (files w2) (p @ ''.new'') = Some c"
      "swap_in p mode_private w2 = (Inr (), w')" by auto
    from swap_in_kept(2) [OF this refl]
    show "fs_content (files w') p = Some c" "map_option perm (fs_get (files w') p) = Some mode_private"
      by simp_all
  qed
  show "quiet q w w'" if "f p c w = (r, w')" "q \<noteq> p" "q \<notin> {p @ ''.new'', p @ ''.bak''}"
  proof -
    have q: "q \<noteq> p @ ''.new''" "q \<notin> {p, p @ ''.new'', p @ ''.bak''}" using that(2,3) by auto
    from shape [OF that(1)] show ?thesis
    proof (elim disjE exE conjE)
      fix w2 assume "\<forall>q. q \<noteq> p @ ''.new'' \<longrightarrow> quiet q w w2" and s: "swap_in p mode_private w2 = (r, w')"
      then have "quiet q w w2" using q(1) by blast
      then show ?thesis using swap_in_others [OF s q(2)] by (rule quiet_trans)
    qed (use q(1) in blast)
  qed
  show "crash_safe (\<lambda>u. fs_content u p = fs_content (files w) p \<or> fs_content u p = Some c
        \<or> (fs_content u p = None \<and> fs_content u (p @ ''.bak'') = fs_content (files w) p)) w w'"
    if run: "f p c w = (r, w')"
  proof -
    have "crash_safe (kept p (fs_content (files w) p) c) w w'"
      using shape [OF run]
    proof (elim disjE exE conjE)
      fix w2 assume "\<forall>q. q \<noteq> p @ ''.new'' \<longrightarrow> quiet q w w2"
        and w2: "fs_content (files w2) (p @ ''.new'') = Some c" "swap_in p mode_private w2 = (r, w')"
      then have q: "quiet p w w2" by simp
      from swap_in_kept(1) [OF w2] kept_quiet [OF q] quiet_content [OF q] show ?thesis
        by (auto intro: crash_safe_trans)
    qed (auto intro!: kept_quiet)
    then show ?thesis by (simp add: kept_def [abs_def])
  qed
qed

interpretation rpl: backup_installer "\<lambda>p c. replaceFile p c mode_private" "\<lambda>p. {p @ ''.new'', p @ ''.bak''}" mode_private
  by (rule backup_installerI) (rule replaceFile_swap)

interpretation rll: backup_installer "\<lambda>p c. replaceLedgerFile p c mode_private" "\<lambda>p. {p @ ''.new'', p @ ''.bak''}" mode_private
  by (rule backup_installerI) (rule replaceLedgerFile_swap)

section \<open>The window of the second kind of routine\<close>

lemma crashes_prefix: "crashes s (es @ fs) (ev_run es s)"
proof (induction es arbitrary: s)
  case Nil
  show ?case by (simp add: crash_now)
next
  case (Cons e es)
  then show ?case by (simp add: crash_later)
qed

text \<open>A system call on a world without faults.\<close>

lemma healthy_Stat: "faults w = [] \<Longrightarrow> fs_get (files w) p = Some f \<Longrightarrow> os_Stat p w = (Inr f, w)"
  by (simp add: os_Stat_def next_fault_def)

lemma healthy_Rename: "faults w = [] \<Longrightarrow> fs_get (files w) a \<noteq> None \<Longrightarrow> os_Rename a b w = (Inr (), emit (EvRename a b) w)"
  by (auto simp: os_Rename_def next_fault_def)

lemma healthy_Remove:
  "faults w = [] \<Longrightarrow> snd (os_Remove p w) = (if fs_get (files w) p = None then w else emit (EvRemove p) w)"
  by (auto simp: os_Remove_def next_fault_def)

lemma healthy_Chmod: "faults w = [] \<Longrightarrow> fs_get (files w) p \<noteq> None \<Longrightarrow> os_Chmod p m w = (Inr (), emit (EvChmod p m) w)"
  by (auto simp: os_Chmod_def next_fault_def)

lemma healthy_WriteFile: "faults w = [] \<Longrightarrow> os_WriteFile p c m w = (Inr (), emit (EvWrite p c m (clock w)) w)"
  by (simp add: os_WriteFile_def next_fault_def)

lemma faults_emit [simp]: "faults (emit e w) = faults w"
  by (simp add: emit_def)

lemma steps_emit: "steps w [e] (emit e w)"
  by (simp add: steps_def emit_def)

text \<open>Even when no call fails, the routine passes through a state in which the target does not exist:
  \<open>a\<close> are the events up to there.\<close>

lemma swap_in_window:
  assumes h: "faults w = []" and p: "fs_get (files w) p \<noteq> None" and n: "fs_get (files w) (p @ ''.new'') \<noteq> None"
  shows "\<exists>a b w'. swap_in p m w = (Inr (), w') \<and> faults w' = [] \<and> steps w (a @ b) w' \<and> fs_content (ev_run a (files w)) p = None
    \<and> fs_content (ev_run a (files w)) (p @ ''.bak'') = fs_content (files w) p"
proof -
  let ?n = "p @ ''.new''" and ?b = "p @ ''.bak''"
  define es0 where "es0 = (if fs_get (files w) ?b = None then [] else [EvRemove ?b])"
  define w3 where "w3 = snd (os_Remove ?b w)"
  have w3: "steps w es0 w3" "faults w3 = []"
    unfolding w3_def es0_def using h by (auto simp: healthy_Remove steps_emit)
  have g3: "fs_get (files w3) q = (if q = ?b then None else fs_get (files w) q)" for q
    unfolding w3_def using h by (auto simp: healthy_Remove emit_def fs_simps)
  obtain f where f: "fs_get (files w3) p = Some f" using p g3 by auto
  define w5 where "w5 = emit (EvRename p ?b) w3"
  have g5: "fs_get (files w5) q = (if q = ?b then Some f else if q = p then None else fs_get (files w3) q)" for q
    unfolding w5_def emit_def using f by (simp add: fs_simps)
  have s5: "os_Stat p w3 = (Inr f, w3)" "os_Rename p ?b w3 = (Inr (), w5)" "faults w5 = []"
    unfolding w5_def using w3 f by (simp_all add: healthy_Stat healthy_Rename)
  define w6 where "w6 = emit (EvRename ?n p) w5"
  have nn: "fs_get (files w5) ?n \<noteq> None" using n g5 g3 by simp
  have s6: "os_Rename ?n p w5 = (Inr (), w6)" "faults w6 = []"
    unfolding w6_def using s5(3) nn by (simp_all add: healthy_Rename)
  have g6: "fs_get (files w6) p \<noteq> None" "fs_get (files w6) ?b \<noteq> None"
    using nn g5 by (auto simp: w6_def emit_def fs_simps)
  define w7 where "w7 = emit (EvRemove ?b) w6"
  have s7: "snd (os_Remove ?b w6) = w7" "faults w7 = []"
    unfolding w7_def using s6(2) g6(2) by (auto simp: healthy_Remove)
  have g7: "fs_get (files w7) p \<noteq> None" using g6(1) by (simp add: w7_def emit_def fs_simps)
  have run: "swap_in p m w = (Inr (), emit (EvChmod p m) w7)"
    using s5 s6 s7 g7 by (simp add: swap_in_def swap_rename_def Let_def w3_def [symmetric] healthy_Chmod)
  have 1: "steps w (es0 @ [EvRename p ?b]) w5" using steps_trans [OF w3(1) steps_emit] by (simp add: w5_def)
  have 2: "steps w5 [EvRename ?n p, EvRemove ?b, EvChmod p m] (emit (EvChmod p m) w7)"
    using steps_trans [OF steps_emit [of w5 "EvRename ?n p"] steps_trans [OF steps_emit steps_emit]]
    by (simp add: w6_def w7_def)
  have st: "files w5 = ev_run (es0 @ [EvRename p ?b]) (files w)" using 1 unfolding steps_def by (rule conjunct2)
  have c: "fs_content (files w5) p = None" "fs_content (files w5) ?b = fs_content (files w) p"
    using g5 f g3 by (simp_all add: fs_content_def)
  show ?thesis
    by (intro exI conjI) (rule run, simp add: s7(2), rule steps_trans [OF 1 2], (rule c [unfolded st])+)
qed

lemma replaceLedgerFile_window:
  assumes h: "faults w = []" and p: "fs_get (files w) p \<noteq> None"
  shows "\<exists>es w' u. replaceLedgerFile p c m w = (Inr (), w') \<and> faults w' = [] \<and> steps w es w' \<and> crashes (files w) es u
    \<and> fs_content u p = None"
proof -
  let ?n = "p @ ''.new''"
  define w1 where "w1 = emit (EvWrite ?n c m (clock w)) w"
  define w2 where "w2 = emit (EvChmod ?n m) w1"
  have n1: "fs_get (files w1) ?n \<noteq> None" by (simp add: w1_def emit_def fs_simps)
  have n2: "fs_get (files w2) ?n \<noteq> None" "fs_get (files w2) p \<noteq> None"
    using n1 p by (auto simp: w2_def w1_def emit_def fs_simps)
  have s: "os_MkdirAll (filepath_Dir p) mode_private_dir w = (Inr (), w)" "os_WriteFile ?n c m w = (Inr (), w1)"
    "os_Chmod ?n m w1 = (Inr (), w2)" "faults w2 = []"
    using h n1 by (simp_all add: os_MkdirAll_def next_fault_def healthy_WriteFile healthy_Chmod w1_def w2_def)
  obtain a b w' where w: "swap_in p m w2 = (Inr (), w')" "faults w' = []" "steps w2 (a @ b) w'" "fs_content (ev_run a (files w2)) p = None"
    using swap_in_window [OF s(4) n2(2,1)] by blast
  have st: "steps w [EvWrite ?n c m (clock w), EvChmod ?n m] w2"
    using steps_trans [OF steps_emit steps_emit] by (simp add: w1_def w2_def)
  have "replaceLedgerFile p c m w = (Inr (), w')"
    using s w(1) by (simp add: replaceLedgerFile_def)
  moreover have "steps w (([EvWrite ?n c m (clock w), EvChmod ?n m] @ a) @ b) w'"
    using steps_trans [OF st w(3)] by simp
  moreover have "crashes (files w) (([EvWrite ?n c m (clock w), EvChmod ?n m] @ a) @ b)
      (ev_run ([EvWrite ?n c m (clock w), EvChmod ?n m] @ a) (files w))" by (rule crashes_prefix)
  moreover have "ev_run ([EvWrite ?n c m (clock w), EvChmod ?n m] @ a) (files w) = ev_run a (files w2)"
    using st by (simp add: steps_def)
  ultimately show ?thesis using w by metis
qed

end
