(* ===== verification/Go_Time.thy ===== *)
theory Go_Time
  imports Go_OS
begin

text \<open>
  \<open>Time.UTC().Format(time.RFC3339Nano)\<close>, the text form of an instant that the journal hashes, and
  \<open>bufio.Scanner\<close> with the line splitter, the way line-oriented files are read.
\<close>

section \<open>Formatting instants\<close>

text \<open>The Gregorian date of a number of days since 1 January of year 1, by the 400-year cycle that
  starts on 1 March.\<close>

definition civil :: "int \<Rightarrow> int \<times> int \<times> int" where
  "civil days =
     (let z = days + 306;
          era = z div 146097;
          doe = z mod 146097;
          yoe = (doe - doe div 1460 + doe div 36524 - doe div 146096) div 365;
          doy = doe - (365 * yoe + yoe div 4 - yoe div 100);
          mp = (5 * doy + 2) div 153;
          d = doy - (153 * mp + 2) div 5 + 1;
          m = (if mp < 10 then mp + 3 else mp - 9)
      in (yoe + era * 400 + (if m \<le> 2 then 1 else 0), m, d))"

definition zero_pad :: "nat \<Rightarrow> int \<Rightarrow> string" where
  "zero_pad n x = (let s = nat_digits (nat \<bar>x\<bar>)
     in (if x < 0 then ''-'' else []) @ replicate (n - length s) CHR ''0'' @ s)"

definition frac_digits :: "int \<Rightarrow> string" where
  "frac_digits ns =
     (if ns = 0 then []
      else CHR ''.'' # rev (dropWhile (\<lambda>c. c = CHR ''0'') (rev (zero_pad 9 ns))))"

definition RFC3339Nano :: "gtime \<Rightarrow> string" where
  "RFC3339Nano t =
     (let secs = t div Second; ns = t mod Second;
          days = secs div 86400; sod = secs mod 86400;
          (y, m, d) = civil days
      in zero_pad 4 y @ ''-'' @ zero_pad 2 m @ ''-'' @ zero_pad 2 d @ ''T''
         @ zero_pad 2 (sod div 3600) @ '':'' @ zero_pad 2 (sod div 60 mod 60) @ '':''
         @ zero_pad 2 (sod mod 60) @ frac_digits ns @ ''Z'')"

text \<open>\<open>Unix\<close> and \<open>UnixNano\<close>: seconds and nanoseconds since 1970, the latter in 64 bits.\<close>

definition Unix :: "gtime \<Rightarrow> int" where "Unix t = t div Second - 62135596800"
definition UnixNano :: "gtime \<Rightarrow> int" where "UnixNano t = wrap64 (t - 62135596800 * Second)"

lemma civil_examples: "civil 0 = (1, 1, 1)" "civil 738944 = (2024, 2, 29)" "civil 738945 = (2024, 3, 1)"
  by (code_simp, code_simp, code_simp)

lemma zero_pad_chars: "set (zero_pad n x) \<subseteq> set ''0123456789-''"
proof -
  have "set (nat_digits k) \<subseteq> set ''0123456789-''" for k
    by (rule order_trans [OF nat_digits_chars]) simp
  then show ?thesis
    unfolding zero_pad_def Let_def set_append Un_subset_iff
    by (intro conjI) (auto simp: set_replicate_conv_if)
qed

lemma zero_pad_no_nul: "CHR 0x00 \<notin> set (zero_pad n x)"
  using zero_pad_chars [of n x] by auto

lemma frac_digits_no_nul: "CHR 0x00 \<notin> set (frac_digits ns)"
  using zero_pad_no_nul [of 9 ns] by (auto simp: frac_digits_def dest: set_dropWhileD)

lemma RFC3339Nano_no_nul: "CHR 0x00 \<notin> set (RFC3339Nano t)"
  by (simp add: RFC3339Nano_def Let_def zero_pad_no_nul frac_digits_no_nul split: prod.split)

section \<open>Reading lines\<close>

text \<open>One call of \<open>Scan\<close> on the unread input: the end, a line that does not fit the buffer of \<open>lim\<close>
  bytes together with its terminator, or a line without its terminator and the rest.\<close>

datatype token = TokEOF | TokTooLong | Tok string string

abbreviation newline :: char where "newline \<equiv> CHR 0x0A"

definition dropCR :: "string \<Rightarrow> string" where
  "dropCR s = (if s \<noteq> [] \<and> last s = CHR 0x0D then butlast s else s)"

definition Scan :: "nat \<Rightarrow> string \<Rightarrow> token" where
  "Scan lim s =
     (if s = [] then TokEOF
      else let line = takeWhile (\<lambda>c. c \<noteq> newline) s
           in if length line \<ge> lim then TokTooLong
              else Tok (dropCR line) (drop (Suc (length line)) s))"

lemma Scan_shorter: "Scan lim s = Tok l r \<Longrightarrow> length r < length s"
  by (auto simp: Scan_def Let_def split: if_splits)

lemma takeWhile_line: "newline \<notin> set l \<Longrightarrow> takeWhile (\<lambda>c. c \<noteq> newline) (l @ newline # r) = l"
  by (induction l) auto

lemma dropCR_id: "CHR 0x0D \<notin> set s \<Longrightarrow> dropCR s = s"
  by (cases s rule: rev_cases) (auto simp: dropCR_def)

text \<open>A line that was written with its terminator is read back whole.\<close>

lemma Scan_line:
  assumes "newline \<notin> set l" "CHR 0x0D \<notin> set l" "length l < lim"
  shows "Scan lim (l @ newline # r) = Tok l r"
  using assms by (simp add: Scan_def takeWhile_line dropCR_id)

text \<open>Text that ends with a terminator splits the same whatever follows it.\<close>

definition whole_lines :: "string \<Rightarrow> bool" where
  "whole_lines s = (s = [] \<or> last s = newline)"

lemma Scan_append:
  assumes "whole_lines s" "s \<noteq> []"
  shows "Scan lim (s @ t) = (case Scan lim s of TokEOF \<Rightarrow> TokEOF | TokTooLong \<Rightarrow> TokTooLong | Tok l r \<Rightarrow> Tok l (r @ t))"
proof -
  have nl: "newline \<in> set s" using assms by (metis last_in_set whole_lines_def)
  then obtain l r where s: "s = l @ newline # r" and l: "newline \<notin> set l"
    by (metis split_list_first)
  have 1: "takeWhile (\<lambda>c. c \<noteq> newline) s = l" using s l by (simp add: takeWhile_line)
  have 2: "takeWhile (\<lambda>c. c \<noteq> newline) (s @ t) = l" using s l takeWhile_line [of l "r @ t"] by simp
  have 3: "drop (Suc (length l)) s = r" "drop (Suc (length l)) (s @ t) = r @ t" using s by simp_all
  have 4: "s @ t \<noteq> []" using assms(2) by simp
  show ?thesis unfolding Scan_def 1 2 3 Let_def using assms(2) 4 by (simp only: if_False token.case split: if_split) simp
qed

lemma Scan_whole: "whole_lines s \<Longrightarrow> Scan lim s = Tok l r \<Longrightarrow> whole_lines r"
  by (cases "r = []") (auto simp: Scan_def Let_def whole_lines_def last_drop split: if_splits)

end
