(* ===== verification/Journal.thy ===== *)
theory Journal
  imports Go_Time Go_Crypto Go_Path
begin

text \<open>
  Package \<open>internal/store\<close>: the append-only, hash-chained journal. \<open>Append\<close> and \<open>VerifyFile\<close> are
  modelled on the bytes of the file. The JSON codec of the records is a parameter: \<open>mr\<close> encodes a
  record, \<open>ur\<close> decodes a line, \<open>mp\<close> encodes a payload.
\<close>

section \<open>Records and state\<close>

record Record =
  rec_Sequence :: "64 word"
  rec_RecordedAt :: gtime
  rec_Kind :: string
  rec_PreviousHash :: string
  rec_PayloadHash :: string
  rec_RecordHash :: string
  rec_Payload :: string

record Journal =
  jnl_path :: string
  jnl_file :: bool
  jnl_sequence :: "64 word"
  jnl_lastHash :: string

datatype journal_error =
    JErrOS oserr
  | JErrClosed
  | JErrEncode
  | JErrDecode nat
  | JErrSequence nat
  | JErrPrevious nat
  | JErrPayload nat
  | JErrRecord nat
  | JErrScan

definition hash :: "crypto \<Rightarrow> string \<Rightarrow> string" where
  "hash C value = sha_hex C value"

definition hashed_text :: "Record \<Rightarrow> string" where
  "hashed_text r =
     Join [nat_digits (unat (rec_Sequence r)), RFC3339Nano (rec_RecordedAt r), rec_Kind r,
           rec_PreviousHash r, rec_PayloadHash r] [CHR 0x00]"

definition calculateRecordHash :: "crypto \<Rightarrow> Record \<Rightarrow> string" where
  "calculateRecordHash C r = hash C (hashed_text r)"

section \<open>Verification\<close>

abbreviation scan_limit :: nat where "scan_limit \<equiv> 8 * 1024 * 1024"

text \<open>The checks on one decoded record, in the order of the code.\<close>

definition check_record ::
  "crypto \<Rightarrow> nat \<Rightarrow> 64 word \<Rightarrow> string \<Rightarrow> Record \<Rightarrow> journal_error option" where
  "check_record C n sequence previous r =
     (if rec_Sequence r \<noteq> sequence + 1 then Some (JErrSequence n)
      else if rec_PreviousHash r \<noteq> previous then Some (JErrPrevious n)
      else if hash C (rec_Payload r) \<noteq> rec_PayloadHash r then Some (JErrPayload n)
      else if calculateRecordHash C r \<noteq> rec_RecordHash r then Some (JErrRecord n)
      else None)"

text \<open>The scanning loop: the unread input, the number of the last line read, the sequence number and
  the hash so far.\<close>

function (sequential) verify_loop ::
  "crypto \<Rightarrow> (string \<Rightarrow> Record option) \<Rightarrow> string \<Rightarrow> nat \<Rightarrow> 64 word \<Rightarrow> string \<Rightarrow>
     64 word \<times> string \<times> journal_error option" where
  "verify_loop C ur input lineNumber sequence previous =
     (case Scan scan_limit input of
        TokEOF \<Rightarrow> (sequence, previous, None)
      | TokTooLong \<Rightarrow> (sequence, previous, Some JErrScan)
      | Tok line rest \<Rightarrow>
          (if TrimSpace line = [] then verify_loop C ur rest (Suc lineNumber) sequence previous
           else (case ur line of
                   None \<Rightarrow> (sequence, previous, Some (JErrDecode (Suc lineNumber)))
                 | Some r \<Rightarrow>
                     (case check_record C (Suc lineNumber) sequence previous r of
                        Some e \<Rightarrow> (sequence, previous, Some e)
                      | None \<Rightarrow> verify_loop C ur rest (Suc lineNumber) (rec_Sequence r) (rec_RecordHash r)))))"
  by pat_completeness auto
termination
  by (relation "measure (\<lambda>(C, ur, input, n, s, p). length input)") (auto dest: Scan_shorter)

declare verify_loop.simps [simp del]

definition VerifyFile ::
  "crypto \<Rightarrow> (string \<Rightarrow> Record option) \<Rightarrow> string \<Rightarrow> world \<Rightarrow>
     (64 word \<times> string \<times> journal_error option) \<times> world" where
  "VerifyFile C ur path w =
     (case os_ReadFile path w of
        (Inl e, w1) \<Rightarrow> ((0, [], Some (JErrOS e)), w1)
      | (Inr input, w1) \<Rightarrow> (verify_loop C ur input 0 0 [], w1))"

section \<open>Opening, appending, closing\<close>

text \<open>\<open>Open\<close>: create the file if there is none, make it private, verify it, and open it for appending
  (the last \<open>os_Stat\<close> stands for the system call of \<open>os.OpenFile\<close>, which has no effect on an
  existing file).\<close>

definition Open ::
  "crypto \<Rightarrow> (string \<Rightarrow> Record option) \<Rightarrow> string \<Rightarrow> world \<Rightarrow> (journal_error, Journal) result \<times> world" where
  "Open C ur path w =
     (case os_MkdirAll (filepath_Dir path) (7 * 64) w of
        (Inl e, w1) \<Rightarrow> (Inl (JErrOS e), w1)
      | (Inr _, w1) \<Rightarrow>
          (case (case os_Stat path w1 of
                   (Inl ErrNotExist, w2) \<Rightarrow> os_WriteFile path [] (6 * 64) w2
                 | (_, w2) \<Rightarrow> (Inr (), w2)) of
             (Inl e, w3) \<Rightarrow> (Inl (JErrOS e), w3)
           | (Inr _, w3) \<Rightarrow>
               (case os_Chmod path (6 * 64) w3 of
                  (Inl e, w4) \<Rightarrow> (Inl (JErrOS e), w4)
                | (Inr _, w4) \<Rightarrow>
                    (case VerifyFile C ur path w4 of
                       ((_, _, Some e), w5) \<Rightarrow> (Inl e, w5)
                     | ((sequence, lastHash, None), w5) \<Rightarrow>
                         (case os_Stat path w5 of
                            (Inl e, w6) \<Rightarrow> (Inl (JErrOS e), w6)
                          | (Inr _, w6) \<Rightarrow>
                              (Inr \<lparr>jnl_path = path, jnl_file = True, jnl_sequence = sequence,
                                    jnl_lastHash = lastHash\<rparr>, w6))))))"

text \<open>The record \<open>Append\<close> builds for an encoded payload.\<close>

definition next_record :: "crypto \<Rightarrow> Journal \<Rightarrow> gtime \<Rightarrow> string \<Rightarrow> string \<Rightarrow> Record" where
  "next_record C j now kind encoded =
     (let r = \<lparr>rec_Sequence = jnl_sequence j + 1, rec_RecordedAt = now, rec_Kind = kind,
               rec_PreviousHash = jnl_lastHash j, rec_PayloadHash = hash C encoded,
               rec_RecordHash = [], rec_Payload = encoded\<rparr>
      in r\<lparr>rec_RecordHash := calculateRecordHash C r\<rparr>)"

definition Append ::
  "crypto \<Rightarrow> ('p \<Rightarrow> string option) \<Rightarrow> (Record \<Rightarrow> string option) \<Rightarrow> Journal \<Rightarrow> string \<Rightarrow> 'p \<Rightarrow> world \<Rightarrow>
     (journal_error, Record) result \<times> Journal \<times> world" where
  "Append C mp mr j kind payload w =
     (if \<not> jnl_file j then (Inl JErrClosed, j, w)
      else case mp payload of
        None \<Rightarrow> (Inl JErrEncode, j, w)
      | Some encoded \<Rightarrow>
          (let (now, w0) = time_Now w; record = next_record C j now kind encoded
           in case mr record of
                None \<Rightarrow> (Inl JErrEncode, j, w0)
              | Some line \<Rightarrow>
                  (case file_Append (jnl_path j) (line @ [newline]) w0 of
                     (Inl e, w1) \<Rightarrow> (Inl (JErrOS e), j, w1)
                   | (Inr _, w1) \<Rightarrow>
                       (case file_Sync (jnl_path j) w1 of
                          (Inl e, w2) \<Rightarrow> (Inl (JErrOS e), j, w2)
                        | (Inr _, w2) \<Rightarrow>
                            (Inr record,
                             j\<lparr>jnl_sequence := rec_Sequence record, jnl_lastHash := rec_RecordHash record\<rparr>,
                             w2)))))"

definition Close :: "Journal \<Rightarrow> world \<Rightarrow> (oserr, unit) result \<times> Journal \<times> world" where
  "Close j w =
     (if \<not> jnl_file j then (Inr (), j, w)
      else let (r, w1) = file_Sync (jnl_path j) w in (r, j\<lparr>jnl_file := False\<rparr>, w1))"

section \<open>Chains of records\<close>

text \<open>The interface a hash chain offers to whoever holds its tip: the record with a given hash has only
  one possible body and predecessor, unless two records clash, and no record hashes to the value the
  chain starts from. Then the tip determines all the bodies.\<close>

locale hash_chain =
  fixes prev :: "'r \<Rightarrow> 'h" and own :: "'r \<Rightarrow> 'h" and body :: "'r \<Rightarrow> 'b" and genesis :: 'h
    and valid :: "'r \<Rightarrow> bool" and clash :: "'r \<Rightarrow> 'r \<Rightarrow> bool"
  assumes own_determines: "valid r \<Longrightarrow> valid r' \<Longrightarrow> own r = own r' \<Longrightarrow> \<not> clash r r' \<Longrightarrow>
      body r = body r' \<and> prev r = prev r'"
    and own_not_genesis: "valid r \<Longrightarrow> own r \<noteq> genesis"
begin

fun linked :: "'h \<Rightarrow> 'r list \<Rightarrow> bool" where
  "linked h [] = True"
| "linked h (r # rs) = (prev r = h \<and> valid r \<and> linked (own r) rs)"

definition tip :: "'h \<Rightarrow> 'r list \<Rightarrow> 'h" where
  "tip h rs = (if rs = [] then h else own (last rs))"

lemma linked_snoc: "linked h (rs @ [r]) \<longleftrightarrow> linked h rs \<and> prev r = tip h rs \<and> valid r"
  by (induction rs arbitrary: h) (auto simp: tip_def)

lemma tip_Cons: "tip h (r # rs) = tip (own r) rs"
  by (simp add: tip_def)

lemma tip_determines_bodies:
  assumes "linked genesis rs" "linked genesis rs'" "tip genesis rs = tip genesis rs'"
  shows "map body rs = map body rs' \<or> (\<exists>r\<in>set rs. \<exists>r'\<in>set rs'. clash r r')"
  using assms
proof (induction rs arbitrary: rs' rule: rev_induct)
  case Nil
  then show ?case
    by (cases rs' rule: rev_cases) (auto simp: tip_def linked_snoc dest: own_not_genesis)
next
  case (snoc r rs)
  show ?case
  proof (cases rs' rule: rev_cases)
    case Nil
    with snoc.prems show ?thesis by (auto simp: tip_def linked_snoc dest: own_not_genesis)
  next
    case (snoc rs2 r2)
    show ?thesis
    proof (cases "clash r r2")
      case True
      then show ?thesis using snoc by auto
    next
      case False
      have v: "valid r" "valid r2" "own r = own r2" "prev r = tip genesis rs" "prev r2 = tip genesis rs2"
        "linked genesis rs" "linked genesis rs2"
        using snoc.prems snoc by (auto simp: linked_snoc tip_def)
      have b: "body r = body r2" "prev r = prev r2" using own_determines v(1-3) False by auto
      then have "tip genesis rs = tip genesis rs2" using v by simp
      then have "map body rs = map body rs2 \<or> (\<exists>r\<in>set rs. \<exists>r'\<in>set rs2. clash r r')"
        using snoc.IH v by blast
      then show ?thesis using b snoc by auto
    qed
  qed
qed

end

section \<open>What a verified file contains\<close>

text \<open>The records of a file, \<open>None\<close> if a line cannot be read.\<close>

function (sequential) records_of :: "(string \<Rightarrow> Record option) \<Rightarrow> string \<Rightarrow> Record list option" where
  "records_of ur input =
     (case Scan scan_limit input of
        TokEOF \<Rightarrow> Some []
      | TokTooLong \<Rightarrow> None
      | Tok line rest \<Rightarrow>
          (if TrimSpace line = [] then records_of ur rest
           else (case ur line of None \<Rightarrow> None
                 | Some r \<Rightarrow> map_option ((#) r) (records_of ur rest))))"
  by pat_completeness auto
termination
  by (relation "measure (\<lambda>(ur, input). length input)") (auto dest: Scan_shorter)

declare records_of.simps [simp del]

definition record_valid :: "crypto \<Rightarrow> Record \<Rightarrow> bool" where
  "record_valid C r =
     (digests_fixed C \<and> rec_PayloadHash r = hash C (rec_Payload r)
      \<and> rec_RecordHash r = calculateRecordHash C r
      \<and> CHR 0x00 \<notin> set (rec_PreviousHash r))"

definition record_body :: "Record \<Rightarrow> string \<times> string \<times> string \<times> string" where
  "record_body r = (nat_digits (unat (rec_Sequence r)), RFC3339Nano (rec_RecordedAt r), rec_Kind r, rec_Payload r)"

definition record_clash :: "crypto \<Rightarrow> Record \<Rightarrow> Record \<Rightarrow> bool" where
  "record_clash C r r' = collision C {hashed_text r, hashed_text r', rec_Payload r, rec_Payload r'}"

lemma first_part:
  "c \<notin> set a \<Longrightarrow> c \<notin> set a' \<Longrightarrow> a @ c # x = a' @ c # x' \<longleftrightarrow> a = a' \<and> x = x'"
proof (induction a arbitrary: a')
  case Nil
  then show ?case by (cases a') auto
next
  case (Cons y ys)
  then show ?case by (cases a') auto
qed

lemma last_part:
  assumes "c \<notin> set a" "c \<notin> set a'"
  shows "x @ c # a = x' @ c # a' \<longleftrightarrow> x = x' \<and> a = a'"
proof -
  have "x @ c # a = x' @ c # a' \<longleftrightarrow> rev (x @ c # a) = rev (x' @ c # a')" by (rule rev_is_rev_conv [symmetric])
  also have "\<dots> \<longleftrightarrow> rev a @ c # rev x = rev a' @ c # rev x'" by simp
  also have "\<dots> \<longleftrightarrow> x = x' \<and> a = a'" using assms by (subst first_part) auto
  finally show ?thesis .
qed

text \<open>The kind may contain any byte; the other four parts contain no NUL, so the hashed text still has
  only one reading.\<close>

lemma hashed_text_inject:
  assumes "record_valid C r" "record_valid C r'" "hashed_text r = hashed_text r'"
  shows "nat_digits (unat (rec_Sequence r)) = nat_digits (unat (rec_Sequence r'))"
    and "RFC3339Nano (rec_RecordedAt r) = RFC3339Nano (rec_RecordedAt r')"
    and "rec_Kind r = rec_Kind r'" and "rec_PreviousHash r = rec_PreviousHash r'"
    and "rec_PayloadHash r = rec_PayloadHash r'"
proof -
  have n: "CHR 0x00 \<notin> set (nat_digits k)" for k
    by (rule contra_subsetD [OF nat_digits_chars]) simp
  have p: "CHR 0x00 \<notin> set (rec_PayloadHash r)" "CHR 0x00 \<notin> set (rec_PayloadHash r')"
    "CHR 0x00 \<notin> set (rec_PreviousHash r)" "CHR 0x00 \<notin> set (rec_PreviousHash r')"
    using assms(1,2) by (simp_all add: record_valid_def hash_def sha_hex_no_nul)
  have q: "(x @ CHR 0x00 # a @ CHR 0x00 # b = x' @ CHR 0x00 # a' @ CHR 0x00 # b') \<longleftrightarrow> x = x' \<and> a = a' \<and> b = b'"
    if "CHR 0x00 \<notin> set a" "CHR 0x00 \<notin> set b" "CHR 0x00 \<notin> set a'" "CHR 0x00 \<notin> set b'" for x x' a a' b b'
    using last_part [of "CHR 0x00" b b' "x @ CHR 0x00 # a" "x' @ CHR 0x00 # a'"] last_part [of "CHR 0x00" a a' x x'] that
    by simp
  have "nat_digits (unat (rec_Sequence r)) = nat_digits (unat (rec_Sequence r'))
    \<and> RFC3339Nano (rec_RecordedAt r) = RFC3339Nano (rec_RecordedAt r')
    \<and> rec_Kind r = rec_Kind r' \<and> rec_PreviousHash r = rec_PreviousHash r' \<and> rec_PayloadHash r = rec_PayloadHash r'"
    using assms(3)
    by (simp only: hashed_text_def Join.simps append.simps append_assoc
        first_part [OF n n] first_part [OF RFC3339Nano_no_nul RFC3339Nano_no_nul] q p not_False_eq_True)
  then show "nat_digits (unat (rec_Sequence r)) = nat_digits (unat (rec_Sequence r'))"
    "RFC3339Nano (rec_RecordedAt r) = RFC3339Nano (rec_RecordedAt r')"
    "rec_Kind r = rec_Kind r'" "rec_PreviousHash r = rec_PreviousHash r'"
    "rec_PayloadHash r = rec_PayloadHash r'" by simp_all
qed

lemma hash_eq_or_collision: "hash C x = hash C y \<Longrightarrow> x \<noteq> y \<Longrightarrow> x \<in> A \<Longrightarrow> y \<in> A \<Longrightarrow> collision C A"
  by (auto simp: hash_def sha_hex_eq collision_def)

interpretation jc: hash_chain rec_PreviousHash rec_RecordHash record_body "[]" "record_valid C" "record_clash C"
  for C
proof
  fix r r'
  assume v: "record_valid C r" "record_valid C r'" and eq: "rec_RecordHash r = rec_RecordHash r'"
    and nc: "\<not> record_clash C r r'"
  have "hash C (hashed_text r) = hash C (hashed_text r')"
    using v eq by (simp add: record_valid_def calculateRecordHash_def)
  then have "hashed_text r = hashed_text r'"
    using nc hash_eq_or_collision [of C "hashed_text r" "hashed_text r'"
      "{hashed_text r, hashed_text r', rec_Payload r, rec_Payload r'}"] by (auto simp: record_clash_def)
  note i = hashed_text_inject [OF v this]
  have "hash C (rec_Payload r) = hash C (rec_Payload r')" using v i(5) by (simp add: record_valid_def)
  then have "rec_Payload r = rec_Payload r'"
    using nc hash_eq_or_collision [of C "rec_Payload r" "rec_Payload r'"
      "{hashed_text r, hashed_text r', rec_Payload r, rec_Payload r'}"] by (auto simp: record_clash_def)
  with i show "record_body r = record_body r' \<and> rec_PreviousHash r = rec_PreviousHash r'"
    by (simp add: record_body_def)
next
  fix r
  assume "record_valid C r"
  then have "length (rec_RecordHash r) = 64"
    by (simp add: record_valid_def calculateRecordHash_def hash_def length_sha_hex)
  then show "rec_RecordHash r \<noteq> []" by auto
qed

lemma check_record_None:
  "check_record C n s p r = None \<longleftrightarrow> rec_Sequence r = s + 1 \<and> rec_PreviousHash r = p
     \<and> rec_PayloadHash r = hash C (rec_Payload r) \<and> rec_RecordHash r = calculateRecordHash C r"
  by (auto simp: check_record_def)

lemma verify_loop_linked:
  assumes "verify_loop C ur input n s p = (s', p', None)" "digests_fixed C" "CHR 0x00 \<notin> set p"
  shows "\<exists>rs. records_of ur input = Some rs \<and> jc.linked C p rs \<and> jc.tip p rs = p' \<and> s' = s + of_nat (length rs)"
  using assms
proof (induction C ur input n s p rule: verify_loop.induct)
  case (1 C ur input n s p)
  show ?case
  proof (cases "Scan scan_limit input")
    case TokEOF
    with 1(3) show ?thesis
      by (subst records_of.simps) (simp add: verify_loop.simps [of C ur input] jc.tip_def)
  next
    case TokTooLong
    with 1(3) show ?thesis by (simp add: verify_loop.simps [of C ur input])
  next
    case (Tok line rest)
    note tok = this
    show ?thesis
    proof (cases "TrimSpace line = []")
      case True
      with tok 1(3) have "verify_loop C ur rest (Suc n) s p = (s', p', None)"
        by (simp add: verify_loop.simps [of C ur input])
      from 1(1) [OF tok True this 1(4,5)] show ?thesis
        using tok True by (subst records_of.simps) simp
    next
      case False
      with tok 1(3) obtain r where r: "ur line = Some r" "check_record C (Suc n) s p r = None"
        and v: "verify_loop C ur rest (Suc n) (rec_Sequence r) (rec_RecordHash r) = (s', p', None)"
        by (auto simp: verify_loop.simps [of C ur input] split: option.splits)
      have c: "rec_Sequence r = s + 1" "rec_PreviousHash r = p" "record_valid C r"
        using r(2) 1(4,5) by (auto simp: check_record_None record_valid_def)
      have "CHR 0x00 \<notin> set (rec_RecordHash r)"
        using c(3) by (simp add: record_valid_def calculateRecordHash_def hash_def sha_hex_no_nul)
      then obtain rs where rs: "records_of ur rest = Some rs" "jc.linked C (rec_RecordHash r) rs"
        "jc.tip (rec_RecordHash r) rs = p'" "s' = rec_Sequence r + of_nat (length rs)"
        using 1(2) [OF tok False r v 1(4)] by blast
      have "records_of ur input = Some (r # rs)"
        using tok False r rs by (subst records_of.simps) simp
      moreover have "jc.linked C p (r # rs)" using c rs by simp
      moreover have "jc.tip p (r # rs) = p'" using rs(3) by (simp add: jc.tip_Cons)
      moreover have "s' = s + of_nat (length (r # rs))" using rs(4) c(1) by (simp add: algebra_simps)
      ultimately show ?thesis by blast
    qed
  qed
qed

section \<open>Appending to a verified file\<close>

text \<open>The codec's law at one record: the line decodes to the record again, and it is one line that the
  scanner can take.\<close>

definition line_ok :: "(string \<Rightarrow> Record option) \<Rightarrow> string \<Rightarrow> Record \<Rightarrow> bool" where
  "line_ok ur line r = (ur line = Some r \<and> newline \<notin> set line \<and> CHR 0x0D \<notin> set line
     \<and> TrimSpace line \<noteq> [] \<and> length line < scan_limit)"

text \<open>The state of an open journal agrees with its file.\<close>

definition journal_inv :: "crypto \<Rightarrow> (string \<Rightarrow> Record option) \<Rightarrow> Journal \<Rightarrow> world \<Rightarrow> bool" where
  "journal_inv C ur j w =
     (jnl_file j \<and> (case fs_content (files w) (jnl_path j) of
        None \<Rightarrow> False
      | Some s \<Rightarrow> whole_lines s \<and> verify_loop C ur s 0 0 [] = (jnl_sequence j, jnl_lastHash j, None)))"

lemma verify_loop_append:
  assumes "verify_loop C ur s n q p = (q', p', None)" "whole_lines s"
  shows "\<exists>n'. verify_loop C ur (s @ t) n q p = verify_loop C ur t n' q' p'"
  using assms
proof (induction C ur s n q p rule: verify_loop.induct)
  case (1 C ur s n q p)
  show ?case
  proof (cases "s = []")
    case True
    then show ?thesis using 1(3) by (auto simp: verify_loop.simps [of C ur "[]"] Scan_def)
  next
    case False
    then obtain line rest where tok: "Scan scan_limit s = Tok line rest"
      using 1(3) by (cases "Scan scan_limit s") (auto simp: verify_loop.simps [of C ur s] Scan_def Let_def split: if_splits)
    have tok': "Scan scan_limit (s @ t) = Tok line (rest @ t)"
      using Scan_append [OF 1(4) False] tok by simp
    have wl: "whole_lines rest" by (rule Scan_whole [OF 1(4) tok])
    show ?thesis
    proof (cases "TrimSpace line = []")
      case True
      then show ?thesis using 1(1) [OF tok True _ wl] 1(3) tok tok'
        by (simp add: verify_loop.simps [of C ur s] verify_loop.simps [of C ur "s @ t"])
    next
      case False
      then obtain r where r: "ur line = Some r" "check_record C (Suc n) q p r = None"
        and v: "verify_loop C ur rest (Suc n) (rec_Sequence r) (rec_RecordHash r) = (q', p', None)"
        using tok 1(3) by (auto simp: verify_loop.simps [of C ur s] split: option.splits)
      from 1(2) [OF tok False r v wl] show ?thesis
        using False tok' r by (simp add: verify_loop.simps [of C ur "s @ t"])
    qed
  qed
qed

lemma verify_loop_nil [simp]: "verify_loop C ur [] n q p = (q, p, None)"
  by (simp add: verify_loop.simps Scan_def)

lemma verify_one_line:
  assumes "line_ok ur line r"
  shows "verify_loop C ur (line @ newline # rest) n q p =
    (case check_record C (Suc n) q p r of Some e \<Rightarrow> (q, p, Some e)
     | None \<Rightarrow> verify_loop C ur rest (Suc n) (rec_Sequence r) (rec_RecordHash r))"
  using assms Scan_line [of line scan_limit rest]
  by (subst verify_loop.simps) (simp add: line_ok_def)

lemma whole_lines_snoc [simp]: "whole_lines (s @ line @ [newline])" "whole_lines (s @ [newline])"
  by (simp_all add: whole_lines_def)

lemma next_record_checks: "check_record C n (jnl_sequence j) (jnl_lastHash j) (next_record C j now kind enc) = None"
  by (simp add: check_record_None next_record_def Let_def calculateRecordHash_def hashed_text_def)

lemma next_record_sel:
  "rec_Sequence (next_record C j now kind enc) = jnl_sequence j + 1"
  "rec_Payload (next_record C j now kind enc) = enc" "rec_Kind (next_record C j now kind enc) = kind"
  "rec_RecordedAt (next_record C j now kind enc) = now"
  by (simp_all add: next_record_def Let_def)

text \<open>What a call of \<open>Append\<close> does to the journal's file, by outcome.\<close>

lemma append_content:
  assumes "file_Append p c w = (Inr (), w')" "fs_content (files w) p = Some s"
  shows "fs_content (files w') p = Some (s @ c)"
  using file_Append_steps [OF assms(1)] assms(2)
  by (auto simp: steps_def fs_simps fs_content_def)

lemma Append_ok_cases:
  assumes "Append C mp mr j kind payload w = (Inr r, j', w')" "fs_content (files w) (jnl_path j) = Some s"
  obtains enc line where "mp payload = Some enc" "r = next_record C j (clock w) kind enc" "mr r = Some line"
    "j' = j\<lparr>jnl_sequence := rec_Sequence r, jnl_lastHash := rec_RecordHash r\<rparr>"
    "fs_content (files w') (jnl_path j) = Some (s @ line @ [newline])"
proof -
  obtain now w0 where t: "time_Now w = (now, w0)" by (cases "time_Now w")
  from assms(1) t obtain enc line w1 where e: "mp payload = Some enc" "r = next_record C j now kind enc"
    "mr r = Some line" "file_Append (jnl_path j) (line @ [newline]) w0 = (Inr (), w1)"
    "file_Sync (jnl_path j) w1 = (Inr (), w')"
    "j' = j\<lparr>jnl_sequence := rec_Sequence r, jnl_lastHash := rec_RecordHash r\<rparr>"
    by (auto simp: Append_def Let_def split: if_splits option.splits sum.splits prod.splits)
  have "fs_content (files w1) (jnl_path j) = Some (s @ line @ [newline])"
    using append_content [OF e(4)] assms(2) time_Now_eqs [OF t] by simp
  then have "fs_content (files w') (jnl_path j) = Some (s @ line @ [newline])"
    using file_Sync_cases [OF e(5)] by simp
  then show thesis using that e time_Now_eqs [OF t] by simp
qed

text \<open>A failing call leaves the journal's state as it was; \<open>c\<close> is what it left in the file: a part of
  the line, or the whole line when only \<open>Sync\<close> failed.\<close>

lemma Append_failed_cases:
  assumes "Append C mp mr j kind payload w = (Inl e, j', w')" "fs_content (files w) (jnl_path j) = Some s"
  shows "j' = j \<and> (\<exists>c. fs_content (files w') (jnl_path j) = Some (s @ c)
    \<and> (c = [] \<or> (\<exists>enc line n. mp payload = Some enc \<and> mr (next_record C j (clock w) kind enc) = Some line
          \<and> c = take n (line @ [newline]))))"
proof -
  obtain now w0 where t: "time_Now w = (now, w0)" by (cases "time_Now w")
  note t' = time_Now_eqs [OF t]
  consider (untouched) "j' = j" "files w' = files w"
    | (torn) enc line e1 where "mp payload = Some enc" "mr (next_record C j now kind enc) = Some line" "j' = j"
        "file_Append (jnl_path j) (line @ [newline]) w0 = (Inl e1, w')"
    | (sync) enc line e1 w1 where "mp payload = Some enc" "mr (next_record C j now kind enc) = Some line" "j' = j"
        "file_Append (jnl_path j) (line @ [newline]) w0 = (Inr (), w1)" "file_Sync (jnl_path j) w1 = (Inl e1, w')"
  proof (cases "jnl_file j \<and> (\<exists>enc. mp payload = Some enc \<and> mr (next_record C j now kind enc) \<noteq> None)")
    case False
    then have "j' = j" "files w' = files w"
      using assms(1) t t' by (auto simp: Append_def split: if_splits option.splits)
    then show ?thesis by (rule untouched)
  next
    case True
    then obtain enc line where el: "jnl_file j" "mp payload = Some enc" "mr (next_record C j now kind enc) = Some line" by auto
    obtain ra w1 where fa: "file_Append (jnl_path j) (line @ [newline]) w0 = (ra, w1)" by (rule prod.exhaust)
    obtain rs w2 where fy: "file_Sync (jnl_path j) w1 = (rs, w2)" by (rule prod.exhaust)
    show ?thesis
    proof (cases ra)
      case (Inl e1)
      with assms(1) t el fa have "j' = j" "w' = w1" by (simp_all add: Append_def)
      then show ?thesis using torn el fa Inl by simp
    next
      case (Inr u)
      then obtain e1 where "rs = Inl e1" "j' = j" "w' = w2"
        using assms(1) t el fa fy by (cases rs) (simp_all add: Append_def Let_def)
      then show ?thesis using sync el fa fy Inr by simp
    qed
  qed
  then show ?thesis
  proof cases
    case untouched
    then show ?thesis using assms(2) by auto
  next
    case torn
    from file_Append_steps [OF torn(4)] consider (none) "files w' = files w0"
      | (some) n where "files w' = ev_run [EvAppend (jnl_path j) (take n (line @ [newline])) (clock w0)] (files w0)"
      by (auto simp: steps_def)
    then show ?thesis
    proof cases
      case none
      then show ?thesis using torn(3) assms(2) t' by auto
    next
      case (some n)
      then have "fs_content (files w') (jnl_path j) = Some (s @ take n (line @ [newline]))"
        using assms(2) t' by (auto simp: fs_simps fs_content_def)
      then show ?thesis using torn(1-3) t' by blast
    qed
  next
    case sync
    have "fs_content (files w1) (jnl_path j) = Some (s @ line @ [newline])"
      using append_content [OF sync(4)] assms(2) t' by simp
    then have "fs_content (files w') (jnl_path j) = Some (s @ line @ [newline])"
      using file_Sync_cases [OF sync(5)] by simp
    then have "fs_content (files w') (jnl_path j) = Some (s @ take (Suc (length line)) (line @ [newline]))" by simp
    then show ?thesis using sync(1-3) t' by blast
  qed
qed

lemma journal_inv_content:
  assumes "journal_inv C ur j w"
  obtains s where "fs_content (files w) (jnl_path j) = Some s" "whole_lines s"
    "verify_loop C ur s 0 0 [] = (jnl_sequence j, jnl_lastHash j, None)" "jnl_file j"
  using assms by (auto simp: journal_inv_def split: option.splits)

lemma verify_extended:
  assumes "verify_loop C ur s 0 0 [] = (jnl_sequence j, jnl_lastHash j, None)" "whole_lines s"
    and "line_ok ur line (next_record C j now kind enc)"
  shows "verify_loop C ur (s @ line @ [newline]) 0 0 [] =
    (rec_Sequence (next_record C j now kind enc), rec_RecordHash (next_record C j now kind enc), None)"
proof -
  obtain n where "verify_loop C ur (s @ line @ newline # []) 0 0 [] =
      verify_loop C ur (line @ newline # []) n (jnl_sequence j) (jnl_lastHash j)"
    using verify_loop_append [OF assms(1,2)] by blast
  then show ?thesis using verify_one_line [OF assms(3)] by (simp add: next_record_checks)
qed

text \<open>A concrete journal with a codec for two records, for the witnesses.\<close>

definition demo_journal :: Journal where
  "demo_journal = \<lparr>jnl_path = ''j'', jnl_file = True, jnl_sequence = 0, jnl_lastHash = []\<rparr>"

definition demo_world :: "fault list \<Rightarrow> world" where
  "demo_world fs = \<lparr>files = [(''j'', \<lparr>content = [], perm = 0, mtime = 0\<rparr>)], faults = fs, events = [],
     clock = 0, clock_steps = [1]\<rparr>"

definition demo_line :: "Record \<Rightarrow> string option" where
  "demo_line r = Some (if rec_RecordedAt r = 0 then ''x'' else ''y'')"

definition demo_unline :: "string \<Rightarrow> Record option" where
  "demo_unline s =
     (if s = ''x'' then Some (next_record toy_crypto demo_journal 0 ''k'' ''p'')
      else if s = ''y'' then Some (next_record toy_crypto demo_journal 1 ''k'' ''p'')
      else None)"

lemma demo_inv: "journal_inv toy_crypto demo_unline demo_journal (demo_world fs)"
  by (simp add: journal_inv_def demo_journal_def demo_world_def fs_content_def fs_get_def whole_lines_def)

lemma demo_line_ok: "line_ok demo_unline ''x'' (next_record toy_crypto demo_journal 0 ''k'' ''p'')"
  "line_ok demo_unline ''y'' (next_record toy_crypto demo_journal 1 ''k'' ''p'')"
  by (simp_all add: line_ok_def demo_unline_def TrimSpace_def is_space_def)

section \<open>Properties of the journal\<close>


lemma demo_append:
  "Append toy_crypto Some demo_line demo_journal ''k'' ''p'' (demo_world []) =
     (Inr (next_record toy_crypto demo_journal 0 ''k'' ''p''),
      demo_journal\<lparr>jnl_sequence := 1,
        jnl_lastHash := rec_RecordHash (next_record toy_crypto demo_journal 0 ''k'' ''p'')\<rparr>,
      snd (snd (Append toy_crypto Some demo_line demo_journal ''k'' ''p'' (demo_world []))))"
  by (simp add: Append_def demo_journal_def demo_world_def demo_line_def time_Now_def file_Append_def
      file_Sync_def next_fault_def next_record_sel Let_def emit_def next_record_def)


text \<open>C4. Tamper evidence: if \<open>VerifyFile\<close> accepts two files and reports the same last hash for both,
  the two files hold the same records in the same order (sequence number, time, kind and payload),
  or two different texts that verification hashed have the same SHA-256 digest. The record kind may
  contain any byte, the NUL separator of the hashed text included.\<close>

theorem VerifyFile_tip_determines_records:
  assumes "digests_fixed C"
    and "VerifyFile C ur p w = ((q, h, None), w1)" and "VerifyFile C ur p' w' = ((q', h, None), w1')"
  shows "\<exists>s rs s' rs'. fs_content (files w) p = Some s \<and> records_of ur s = Some rs
    \<and> fs_content (files w') p' = Some s' \<and> records_of ur s' = Some rs'
    \<and> q = of_nat (length rs) \<and> q' = of_nat (length rs')
    \<and> (map record_body rs = map record_body rs'
       \<or> (\<exists>r\<in>set rs. \<exists>r'\<in>set rs'.
            collision C {hashed_text r, hashed_text r', rec_Payload r, rec_Payload r'}))"
proof -
  have read: "\<exists>s. fs_content (files w) p = Some s \<and> verify_loop C ur s 0 0 [] = (q, h, None)"
    if v: "VerifyFile C ur p w = ((q, h, None), w1)" for p w q h w1
  proof -
    obtain rr w2 where r: "os_ReadFile p w = (rr, w2)" by (rule prod.exhaust)
    show ?thesis using os_ReadFile_cases [OF r] v by (auto simp: VerifyFile_def r)
  qed
  obtain s where s: "fs_content (files w) p = Some s" "verify_loop C ur s 0 0 [] = (q, h, None)"
    using read [OF assms(2)] by blast
  obtain s' where s': "fs_content (files w') p' = Some s'" "verify_loop C ur s' 0 0 [] = (q', h, None)"
    using read [OF assms(3)] by blast
  obtain rs where rs: "records_of ur s = Some rs" "jc.linked C [] rs" "jc.tip [] rs = h" "q = of_nat (length rs)"
    using verify_loop_linked [OF s(2) assms(1)] by auto
  obtain rs' where rs': "records_of ur s' = Some rs'" "jc.linked C [] rs'" "jc.tip [] rs' = h" "q' = of_nat (length rs')"
    using verify_loop_linked [OF s'(2) assms(1)] by auto
  have "map record_body rs = map record_body rs' \<or> (\<exists>r\<in>set rs. \<exists>r'\<in>set rs'. record_clash C r r')"
    using jc.tip_determines_bodies [OF rs(2) rs'(2)] rs(3) rs'(3) by simp
  then show ?thesis using s(1) rs(1,4) s'(1) rs'(1,4) unfolding record_clash_def by blast
qed

theorem VerifyFile_tip_determines_records_witness:
  "\<exists>s rs s' rs'. fs_content (files (demo_world [])) ''j'' = Some s \<and> records_of demo_unline s = Some rs
    \<and> fs_content (files (demo_world [FOk])) ''j'' = Some s' \<and> records_of demo_unline s' = Some rs'
    \<and> (0 :: 64 word) = of_nat (length rs) \<and> (0 :: 64 word) = of_nat (length rs')
    \<and> (map record_body rs = map record_body rs'
       \<or> (\<exists>r\<in>set rs. \<exists>r'\<in>set rs'.
            collision toy_crypto {hashed_text r, hashed_text r', rec_Payload r, rec_Payload r'}))"
  by (rule VerifyFile_tip_determines_records [OF toy_crypto_laws(2), of _ _ _ _ "[]" "demo_world []" _ _ _ "demo_world []"])
    (simp_all add: VerifyFile_def os_ReadFile_def demo_world_def next_fault_def fs_get_def Let_def)

text \<open>Closing a journal and opening it again returns to the same sequence number and hash: where
  no system call fails, \<open>Open\<close> accepts the file of any journal whose state agrees with it and
  rebuilds that state, leaving the content of the file as it was.\<close>

theorem Open_restores_state:
  assumes "journal_inv C ur j w" and "faults w = []"
  shows "\<exists>w'. Open C ur (jnl_path j) w = (Inr j, w') \<and> fs_content (files w') (jnl_path j) = fs_content (files w) (jnl_path j)"
proof -
  obtain s where s: "fs_content (files w) (jnl_path j) = Some s" "whole_lines s"
    "verify_loop C ur s 0 0 [] = (jnl_sequence j, jnl_lastHash j, None)" "jnl_file j"
    using assms(1) by (rule journal_inv_content)
  then obtain f where f: "fs_get (files w) (jnl_path j) = Some f" "content f = s" by (auto simp: fs_content_def)
  let ?w = "emit (EvChmod (jnl_path j) 384) w"
  have nf: "next_fault w = (FOk, w)" "next_fault ?w = (FOk, ?w)"
    using assms(2) by (simp_all add: next_fault_def emit_def)
  have g: "fs_get (files ?w) (jnl_path j) = Some (f\<lparr>perm := 384\<rparr>)"
    using f by (simp add: emit_def fs_simps)
  have "Open C ur (jnl_path j) w = (Inr j, ?w)"
    using s(3,4) f g by (simp add: Open_def os_MkdirAll_def os_Stat_def os_Chmod_def VerifyFile_def os_ReadFile_def nf Let_def)
  then show ?thesis using f g s(1) by (simp add: fs_content_def)
qed

theorem Open_restores_state_witness:
  "\<exists>w'. Open toy_crypto demo_unline (jnl_path demo_journal) (demo_world []) = (Inr demo_journal, w')
    \<and> fs_content (files w') (jnl_path demo_journal) = fs_content (files (demo_world [])) (jnl_path demo_journal)"
  by (rule Open_restores_state [OF demo_inv]) (simp add: demo_world_def)

text \<open>A failing \<open>Sync\<close> breaks the chain for good: \<open>Append\<close> reports an error and keeps its old
  sequence number and hash although the whole record is in the file, so the next \<open>Append\<close>, which
  succeeds, writes a record with the same sequence number, and from then on verification fails with a
  sequence mismatch.\<close>

theorem Append_after_failed_sync_breaks_chain:
  assumes "journal_inv C ur j w"
    and "Append C mp mr j kind payload w = (Inl e, j1, w1)"
    and "mp payload = Some enc" and "mr (next_record C j (clock w) kind enc) = Some line"
    and "line_ok ur line (next_record C j (clock w) kind enc)"
    and "fs_content (files w1) (jnl_path j) = map_option (\<lambda>s. s @ line @ [newline]) (fs_content (files w) (jnl_path j))"
    and "Append C mp mr j1 kind' payload' w1 = (Inr r, j2, w2)"
    and "\<forall>line'. mr r = Some line' \<longrightarrow> line_ok ur line' r"
  shows "\<exists>s n. fs_content (files w2) (jnl_path j) = Some s
    \<and> snd (snd (verify_loop C ur s 0 0 [])) = Some (JErrSequence n)"
proof -
  obtain s where s: "fs_content (files w) (jnl_path j) = Some s" "whole_lines s"
    "verify_loop C ur s 0 0 [] = (jnl_sequence j, jnl_lastHash j, None)" "jnl_file j"
    using assms(1) by (rule journal_inv_content)
  have j1: "j1 = j" using Append_failed_cases [OF assms(2) s(1)] by blast
  let ?s1 = "s @ line @ [newline]" and ?r1 = "next_record C j (clock w) kind enc"
  have c1: "fs_content (files w1) (jnl_path j) = Some ?s1" using assms(6) s(1) by simp
  have v1: "verify_loop C ur ?s1 0 0 [] = (rec_Sequence ?r1, rec_RecordHash ?r1, None)"
    by (rule verify_extended [OF s(3,2) assms(5)])
  obtain enc' line' where a: "r = next_record C j (clock w1) kind' enc'" "mr r = Some line'"
    "fs_content (files w2) (jnl_path j) = Some (?s1 @ line' @ [newline])"
    using assms(7) c1 unfolding j1 by (rule Append_ok_cases) blast
  obtain n where "verify_loop C ur (?s1 @ line' @ newline # []) 0 0 [] =
      verify_loop C ur (line' @ newline # []) n (rec_Sequence ?r1) (rec_RecordHash ?r1)"
    using verify_loop_append [OF v1 whole_lines_snoc(1)] by blast
  moreover have "check_record C (Suc n) (rec_Sequence ?r1) (rec_RecordHash ?r1) r = Some (JErrSequence (Suc n))"
    by (simp add: check_record_def a(1) next_record_sel)
  moreover have "line_ok ur line' r" using assms(8) a(2) by blast
  ultimately have "snd (snd (verify_loop C ur (?s1 @ line' @ [newline]) 0 0 [])) = Some (JErrSequence (Suc n))"
    using verify_one_line [of ur line' r C "[]" n] by simp
  then show ?thesis using a(3) by blast
qed

lemma demo_append_unsynced:
  "Append toy_crypto Some demo_line demo_journal ''k'' ''p'' (demo_world [FOk, FErr]) =
     (Inl (JErrOS ErrIO), demo_journal,
      \<lparr>files = [(''j'', \<lparr>content = ''x'' @ [newline], perm = 0, mtime = 1\<rparr>)], faults = [],
       events = [EvAppend ''j'' (''x'' @ [newline]) 1], clock = 1, clock_steps = []\<rparr>)"
  by (simp add: Append_def demo_journal_def demo_world_def demo_line_def time_Now_def file_Append_def
      file_Sync_def next_fault_def next_record_def Let_def emit_def fs_simps fs_get_def fs_put_def)

lemma demo_append_again:
  "Append toy_crypto Some demo_line demo_journal ''k'' ''p''
      \<lparr>files = [(''j'', \<lparr>content = ''x'' @ [newline], perm = 0, mtime = 1\<rparr>)], faults = [],
       events = [EvAppend ''j'' (''x'' @ [newline]) 1], clock = 1, clock_steps = []\<rparr> =
     (Inr (next_record toy_crypto demo_journal 1 ''k'' ''p''),
      demo_journal\<lparr>jnl_sequence := 1,
        jnl_lastHash := rec_RecordHash (next_record toy_crypto demo_journal 1 ''k'' ''p'')\<rparr>,
      \<lparr>files = [(''j'', \<lparr>content = ''x'' @ [newline] @ ''y'' @ [newline], perm = 0, mtime = 1\<rparr>)], faults = [],
       events = [EvAppend ''j'' (''x'' @ [newline]) 1, EvAppend ''j'' (''y'' @ [newline]) 1], clock = 1, clock_steps = []\<rparr>)"
  by (simp add: Append_def demo_journal_def demo_line_def time_Now_def file_Append_def
      file_Sync_def next_fault_def Let_def emit_def fs_simps fs_get_def fs_put_def next_record_def)

theorem Append_after_failed_sync_breaks_chain_witness:
  "\<exists>s n. Some (''x'' @ [newline] @ ''y'' @ [newline]) = Some s
    \<and> snd (snd (verify_loop toy_crypto demo_unline s 0 0 [])) = Some (JErrSequence n)"
  using Append_after_failed_sync_breaks_chain [OF demo_inv demo_append_unsynced _ _ _ _
      demo_append_again, of "''p''" "''x''"]
  by (simp add: demo_line_def demo_line_ok demo_world_def fs_content_def fs_get_def next_record_sel)
    (simp add: demo_journal_def)

end
