(* ===== verification/Tools.thy ===== *)
theory Tools
  imports Model Go_Time Go_Crypto File_Install
begin

text \<open>
  Package \<open>internal/tools\<close>: the argument readers, the path guard, the read-only tools, the process
  tool and the dispatch of the containment tools. A tool is its \<open>Spec\<close> and its \<open>Execute\<close>, a function
  on the state of the host.
\<close>

section \<open>The host\<close>

text \<open>IP addresses as \<open>net/netip\<close> has them: an IPv6 address carries its zone.\<close>

datatype addr = IP4 "32 word" | IP6 "128 word" string

definition Unmap :: "addr \<Rightarrow> addr" where
  "Unmap a = (case a of IP4 x \<Rightarrow> IP4 x
     | IP6 x z \<Rightarrow> if drop_bit 32 x = 65535 then IP4 (ucast x) else IP6 x z)"

definition IsUnspecified :: "addr \<Rightarrow> bool" where
  "IsUnspecified a = (a = IP4 0 \<or> a = IP6 0 [])"

definition IsMulticast :: "addr \<Rightarrow> bool" where
  "IsMulticast a = (case a of IP4 x \<Rightarrow> drop_bit 28 x = 14 | IP6 x _ \<Rightarrow> drop_bit 120 x = 255)"

definition Is6 :: "addr \<Rightarrow> bool" where
  "Is6 a = (case a of IP4 _ \<Rightarrow> False | IP6 _ _ \<Rightarrow> True)"

record PortRule =
  rule_Protocol :: string
  rule_Direction :: string
  rule_Port :: int

text \<open>The six methods of \<open>networkContainmentBackend\<close>.\<close>

datatype netop = Isolate | Release | Block addr | Unblock addr | OpenPort PortRule | ClosePort PortRule

text \<open>What the process sees of its environment. \<open>env_cwd\<close> is \<open>None\<close> when the working directory is
  gone; \<open>env_Kill\<close> says whether signalling a process succeeds.\<close>

record osenv =
  env_cwd :: "string option"
  env_EvalSymlinks :: "string \<Rightarrow> string option"
  env_ParseAddr :: "string \<Rightarrow> addr option"
  env_Getpid :: int
  env_FindProcess :: "int \<Rightarrow> bool"
  env_Kill :: "int \<Rightarrow> bool"
  env_Hostname :: string
  env_GOOS :: string
  env_GOARCH :: string
  env_NumCPU :: int

text \<open>The state tools act on: the files, the processes killed so far, the firewall operations asked of
  the platform's backend, and the commands it ran (arguments and standard input).\<close>

record host =
  hs_world :: world
  hs_killed :: "int list"
  hs_net :: "netop list"
  hs_cmds :: "(string list \<times> string) list"

datatype tool_error = TErr string | TErrOS oserr

type_synonym 'a tool_result = "(tool_error, 'a) result \<times> host"

definition on_world :: "'a io \<Rightarrow> host \<Rightarrow> (oserr, 'a) result \<times> host" where
  "on_world f h = (let (r, w) = f (hs_world h) in (r, h\<lparr>hs_world := w\<rparr>))"

record Spec =
  spec_Name :: string
  spec_Description :: string
  spec_Risk :: ActionRisk

record Tool =
  tool_Spec :: Spec
  tool_Execute :: "gmap option \<Rightarrow> host \<Rightarrow> gval tool_result"

section \<open>Arguments\<close>

text \<open>\<open>args[key]\<close>: reading a nil map finds nothing.\<close>

definition arg :: "gmap option \<Rightarrow> string \<Rightarrow> gval option" where
  "arg args key = (case args of None \<Rightarrow> None | Some m \<Rightarrow> map_of m key)"

definition rejectUnknownArgs :: "gmap option \<Rightarrow> string list \<Rightarrow> tool_error option" where
  "rejectUnknownArgs args allowed =
     (case args of None \<Rightarrow> None
      | Some m \<Rightarrow> if \<exists>k\<in>set (map fst m). k \<notin> set allowed then Some (TErr ''unsupported argument'') else None)"

definition exact_int :: "rat \<Rightarrow> bool" where
  "exact_int q = (rat_of_int \<lfloor>q\<rfloor> = q)"

definition exactPIDArg :: "gmap option \<Rightarrow> (tool_error, int) result" where
  "exactPIDArg args =
     (case arg args ''pid'' of
        None \<Rightarrow> Inl (TErr ''pid is required'')
      | Some (VInt i) \<Rightarrow> Inr i
      | Some (VFloat (FFin q)) \<Rightarrow>
          (if \<not> exact_int q \<or> q < 0 \<or> q > 2147483647
           then Inl (TErr ''pid must be an exact positive 32-bit integer'') else Inr \<lfloor>q\<rfloor>)
      | Some (VFloat _) \<Rightarrow> Inl (TErr ''pid must be an exact positive 32-bit integer'')
      | Some _ \<Rightarrow> Inl (TErr ''pid must be an exact integer''))"

definition exactPortArg :: "gmap option \<Rightarrow> (tool_error, int) result" where
  "exactPortArg args =
     (case arg args ''port'' of
        None \<Rightarrow> Inl (TErr ''port is required'')
      | Some (VInt i) \<Rightarrow>
          (if i < 1 \<or> i > 65535 then Inl (TErr ''port must be an exact integer between 1 and 65535'') else Inr i)
      | Some (VFloat (FFin q)) \<Rightarrow>
          (if \<not> exact_int q \<or> q < 1 \<or> q > 65535
           then Inl (TErr ''port must be an exact integer between 1 and 65535'') else Inr \<lfloor>q\<rfloor>)
      | Some _ \<Rightarrow> Inl (TErr ''port must be an exact integer between 1 and 65535''))"

definition stringArg :: "gmap option \<Rightarrow> string \<Rightarrow> (tool_error, string) result" where
  "stringArg args key =
     (case arg args key of
        None \<Rightarrow> Inl (TErr (key @ '' is required''))
      | Some (VString text) \<Rightarrow>
          (if TrimSpace text = [] then Inl (TErr (key @ '' must be a non-empty string'')) else Inr text)
      | Some _ \<Rightarrow> Inl (TErr (key @ '' must be a non-empty string'')))"

text \<open>\<open>int(f)\<close> for a \<open>float64\<close>: truncation, and the smallest \<open>int\<close> where the value does not fit.\<close>

definition int_of_float :: "float64 \<Rightarrow> int" where
  "int_of_float f =
     (case f of
        FFin q \<Rightarrow> (let t = (if q < 0 then \<lceil>q\<rceil> else \<lfloor>q\<rfloor>)
                  in if - (2 ^ 63) \<le> t \<and> t < 2 ^ 63 then t else - (2 ^ 63))
      | _ \<Rightarrow> - (2 ^ 63))"

definition intArg :: "gmap option \<Rightarrow> string \<Rightarrow> int \<Rightarrow> int" where
  "intArg args key fallback =
     (case arg args key of
        Some (VInt i) \<Rightarrow> i
      | Some (VFloat f) \<Rightarrow> int_of_float f
      | _ \<Rightarrow> fallback)"

section \<open>The path guard\<close>

definition abs_path :: "osenv \<Rightarrow> string \<Rightarrow> string option" where
  "abs_path E p =
     (if filepath_IsAbs p then Some (filepath_Clean p) else map_option (\<lambda>d. filepath_Abs d p) (env_cwd E))"

text \<open>An absolute path with its symbolic links resolved where they can be.\<close>

definition evaluated :: "osenv \<Rightarrow> string \<Rightarrow> string" where
  "evaluated E p = filepath_Clean (case env_EvalSymlinks E p of Some e \<Rightarrow> e | None \<Rightarrow> p)"

fun guard_roots :: "osenv \<Rightarrow> string list \<Rightarrow> string list option" where
  "guard_roots E [] = Some []"
| "guard_roots E (dir # roots) =
     (case abs_path E dir of
        None \<Rightarrow> None
      | Some absolute \<Rightarrow> map_option ((#) (evaluated E absolute)) (guard_roots E roots))"

definition newPathGuard :: "osenv \<Rightarrow> string list \<Rightarrow> (tool_error, string list) result" where
  "newPathGuard E roots =
     (if roots = [] then Inl (TErr ''at least one allowed root is required'')
      else case guard_roots E roots of None \<Rightarrow> Inl (TErr ''getwd'') | Some rs \<Rightarrow> Inr rs)"

definition inside_root :: "string \<Rightarrow> string \<Rightarrow> bool" where
  "inside_root base absolute =
     (case filepath_Rel base absolute of None \<Rightarrow> False
      | Some relative \<Rightarrow> relative = ''.'' \<or> (relative \<noteq> ''..'' \<and> \<not> HasPrefix relative ''../''))"

definition resolve :: "osenv \<Rightarrow> string list \<Rightarrow> string \<Rightarrow> (tool_error, string) result" where
  "resolve E allowedRoots path =
     (if path = [] then Inl (TErr ''path is required'')
      else case abs_path E path of
        None \<Rightarrow> Inl (TErr ''getwd'')
      | Some absolute0 \<Rightarrow>
          (let absolute = evaluated E absolute0
           in if \<exists>base\<in>set allowedRoots. inside_root base absolute then Inr absolute
              else Inl (TErr ''path is outside allowed roots'')))"

section \<open>Read-only tools\<close>

definition HostInfo :: "osenv \<Rightarrow> Tool" where
  "HostInfo E =
     \<lparr>tool_Spec = \<lparr>spec_Name = ''host.info'',
        spec_Description = ''Return non-sensitive local host and runtime information'', spec_Risk = RiskObserve\<rparr>,
      tool_Execute = (\<lambda>args h. (Inr (VMap [(''hostname'', VString (env_Hostname E)),
        (''goos'', VString (env_GOOS E)), (''goarch'', VString (env_GOARCH E)), (''cpus'', VInt (env_NumCPU E))]), h))\<rparr>"

text \<open>\<open>FileMode.String\<close> of a regular file.\<close>

definition mode_string :: "nat \<Rightarrow> string" where
  "mode_string m = CHR ''-'' # map (\<lambda>i. if bit m (8 - i) then ''rwxrwxrwx'' ! i else CHR ''-'') [0..<9]"

definition file_info :: "string \<Rightarrow> gofile \<Rightarrow> gval" where
  "file_info resolved f =
     VMap [(''path'', VString resolved), (''size'', VInt (int (length (content f)))),
           (''mode'', VString (mode_string (perm f))),
           (''modified_at'', VComposite (Some (VString (RFC3339Nano (mtime f))))),
           (''is_directory'', VBool False),
           (''is_executable'', VBool (bit (perm f) 0 \<or> bit (perm f) 3 \<or> bit (perm f) 6))]"

text \<open>The part the file tools share: the path argument, resolved within the allowed roots.\<close>

definition path_arg :: "osenv \<Rightarrow> string list \<Rightarrow> gmap option \<Rightarrow> (tool_error, string) result" where
  "path_arg E guard args =
     (case stringArg args ''path'' of Inl e \<Rightarrow> Inl e | Inr path \<Rightarrow> resolve E guard path)"

definition FileStat :: "osenv \<Rightarrow> string list \<Rightarrow> Tool" where
  "FileStat E guard =
     \<lparr>tool_Spec = \<lparr>spec_Name = ''file.stat'',
        spec_Description = ''Return metadata for a file within an allowlisted root'', spec_Risk = RiskObserve\<rparr>,
      tool_Execute = (\<lambda>args h.
        case path_arg E guard args of
          Inl e \<Rightarrow> (Inl e, h)
        | Inr resolved \<Rightarrow>
            (case on_world (os_Stat resolved) h of
               (Inl e, h1) \<Rightarrow> (Inl (TErrOS e), h1)
             | (Inr info, h1) \<Rightarrow> (Inr (file_info resolved info), h1)))\<rparr>"

definition FileSHA256 :: "crypto \<Rightarrow> osenv \<Rightarrow> string list \<Rightarrow> Tool" where
  "FileSHA256 C E guard =
     \<lparr>tool_Spec = \<lparr>spec_Name = ''file.sha256'',
        spec_Description = ''Calculate SHA-256 for a file within an allowlisted root'', spec_Risk = RiskObserve\<rparr>,
      tool_Execute = (\<lambda>args h.
        case path_arg E guard args of
          Inl e \<Rightarrow> (Inl e, h)
        | Inr resolved \<Rightarrow>
            (case on_world (os_ReadFile resolved) h of
               (Inl e, h1) \<Rightarrow> (Inl (TErrOS e), h1)
             | (Inr c, h1) \<Rightarrow> (Inr (VMap [(''path'', VString resolved), (''sha256'', VString (sha_hex C c))]), h1)))\<rparr>"

text \<open>The loop \<open>for scanner.Scan() && len(lines) < maxLines\<close>: \<open>n\<close> more lines may be kept. \<open>None\<close> is the
  scanner's error.\<close>

function (sequential) scan_some :: "nat \<Rightarrow> nat \<Rightarrow> string \<Rightarrow> string list option" where
  "scan_some cap n input =
     (case Scan cap input of
        TokEOF \<Rightarrow> Some []
      | TokTooLong \<Rightarrow> None
      | Tok line rest \<Rightarrow> (if n = 0 then Some [] else map_option ((#) line) (scan_some cap (n - 1) rest)))"
  by pat_completeness auto
termination by (relation "measure (\<lambda>(cap, n, input). n)") auto

declare scan_some.simps [simp del]

definition FileReadLines :: "osenv \<Rightarrow> string list \<Rightarrow> Tool" where
  "FileReadLines E guard =
     \<lparr>tool_Spec = \<lparr>spec_Name = ''file.read_lines'',
        spec_Description = ''Read a bounded number of text lines from an allowlisted file'', spec_Risk = RiskObserve\<rparr>,
      tool_Execute = (\<lambda>args h.
        case path_arg E guard args of
          Inl e \<Rightarrow> (Inl e, h)
        | Inr resolved \<Rightarrow>
            (let maxLines = intArg args ''max_lines'' 100
             in if maxLines < 1 \<or> maxLines > 500 then (Inl (TErr ''max_lines must be between 1 and 500''), h)
                else case on_world (os_ReadFile resolved) h of
                  (Inl e, h1) \<Rightarrow> (Inl (TErrOS e), h1)
                | (Inr c, h1) \<Rightarrow>
                    (case scan_some (512 * 1024) (nat maxLines) (take (512 * 1024) c) of
                       None \<Rightarrow> (Inl (TErr ''bufio.Scanner: token too long''), h1)
                     | Some ls \<Rightarrow>
                         (Inr (VMap [(''path'', VString resolved), (''lines'', VStrings ls),
                            (''truncated'', VBool (int (length ls) = maxLines))]), h1))))\<rparr>"

section \<open>Terminating a process\<close>

definition ProcessTerminate :: "osenv \<Rightarrow> Tool" where
  "ProcessTerminate E =
     \<lparr>tool_Spec = \<lparr>spec_Name = ''process.terminate'',
        spec_Description = ''Terminate one non-system process by exact PID after signed approval and local policy evaluation'',
        spec_Risk = RiskContain\<rparr>,
      tool_Execute = (\<lambda>args h.
        case rejectUnknownArgs args [''pid''] of
          Some e \<Rightarrow> (Inl e, h)
        | None \<Rightarrow>
            (case exactPIDArg args of
               Inl e \<Rightarrow> (Inl e, h)
             | Inr pid \<Rightarrow>
                 if pid \<le> 4 then (Inl (TErr ''pid must identify a non-system process greater than 4''), h)
                 else if pid = env_Getpid E then (Inl (TErr ''refusing to terminate the NTAgentShield process''), h)
                 else if \<not> env_FindProcess E pid then (Inl (TErr ''find process''), h)
                 else if \<not> env_Kill E pid then (Inl (TErr ''terminate process''), h)
                 else (Inr (VMap [(''pid'', VInt pid), (''terminated'', VBool True)]),
                       h\<lparr>hs_killed := hs_killed h @ [pid]\<rparr>)))\<rparr>"

section \<open>Containment dispatch\<close>

definition normalizeRemoteIP :: "osenv \<Rightarrow> string \<Rightarrow> (tool_error, addr) result" where
  "normalizeRemoteIP E value =
     (case env_ParseAddr E (TrimSpace value) of
        None \<Rightarrow> Inl (TErr ''remote_ip must be one exact IPv4 or IPv6 address'')
      | Some a \<Rightarrow>
          (let address = Unmap a
           in if IsUnspecified address \<or> IsMulticast address
              then Inl (TErr ''remote_ip cannot be unspecified or multicast'') else Inr address))"

definition normalizePortRule :: "string \<Rightarrow> string \<Rightarrow> int \<Rightarrow> (tool_error, PortRule) result" where
  "normalizePortRule protocol0 direction0 port =
     (let protocol = ToUpper (TrimSpace protocol0); direction = ToLower (TrimSpace direction0)
      in if protocol \<noteq> ''TCP'' \<and> protocol \<noteq> ''UDP'' then Inl (TErr ''protocol must be TCP or UDP'')
         else if direction \<noteq> ''inbound'' \<and> direction \<noteq> ''outbound'' then Inl (TErr ''direction must be inbound or outbound'')
         else if port < 1 \<or> port > 65535 then Inl (TErr ''port must be between 1 and 65535'')
         else Inr \<lparr>rule_Protocol = protocol, rule_Direction = direction, rule_Port = port\<rparr>)"

definition containmentOperation :: "gmap option \<Rightarrow> string \<Rightarrow> (tool_error, string) result" where
  "containmentOperation args fallback =
     (case arg args ''operation'' of
        None \<Rightarrow> Inr fallback
      | Some (VString text) \<Rightarrow>
          (let t = ToLower (TrimSpace text) in if t = [] then Inr fallback else Inr t)
      | Some _ \<Rightarrow> Inl (TErr ''operation must be a string''))"

type_synonym backend = "netop \<Rightarrow> host \<Rightarrow> gmap tool_result"

text \<open>Calling a backend method: the request is recorded, the result is the backend's.\<close>

definition call_backend :: "backend \<Rightarrow> netop \<Rightarrow> host \<Rightarrow> gval tool_result" where
  "call_backend B op h =
     (case B op (h\<lparr>hs_net := hs_net h @ [op]\<rparr>) of
        (Inl e, h1) \<Rightarrow> (Inl e, h1)
      | (Inr m, h1) \<Rightarrow> (Inr (VMap m), h1))"

definition HostContainment :: "backend \<Rightarrow> Tool" where
  "HostContainment B =
     \<lparr>tool_Spec = \<lparr>spec_Name = ''host.isolate'',
        spec_Description = ''Isolate or release host networking through one signed typed containment action'',
        spec_Risk = RiskContain\<rparr>,
      tool_Execute = (\<lambda>args h.
        case rejectUnknownArgs args [''operation''] of
          Some e \<Rightarrow> (Inl e, h)
        | None \<Rightarrow>
            (case containmentOperation args ''isolate'' of
               Inl e \<Rightarrow> (Inl e, h)
             | Inr operation \<Rightarrow>
                 if operation = ''isolate'' then call_backend B Isolate h
                 else if operation = ''release'' then call_backend B Release h
                 else (Inl (TErr ''host.isolate operation must be isolate or release''), h)))\<rparr>"

definition FirewallContainment :: "osenv \<Rightarrow> backend \<Rightarrow> Tool" where
  "FirewallContainment E B =
     \<lparr>tool_Spec = \<lparr>spec_Name = ''firewall.block'',
        spec_Description = ''Block or unblock one exact remote IP through one signed typed containment action'',
        spec_Risk = RiskContain\<rparr>,
      tool_Execute = (\<lambda>args h.
        case rejectUnknownArgs args [''operation'', ''remote_ip''] of
          Some e \<Rightarrow> (Inl e, h)
        | None \<Rightarrow>
            (case containmentOperation args ''block'' of
               Inl e \<Rightarrow> (Inl e, h)
             | Inr operation \<Rightarrow>
                 (case stringArg args ''remote_ip'' of
                    Inl e \<Rightarrow> (Inl e, h)
                  | Inr text \<Rightarrow>
                      (case normalizeRemoteIP E text of
                         Inl e \<Rightarrow> (Inl e, h)
                       | Inr address \<Rightarrow>
                           if operation = ''block'' then call_backend B (Block address) h
                           else if operation = ''unblock'' then call_backend B (Unblock address) h
                           else (Inl (TErr ''firewall.block operation must be block or unblock''), h)))))\<rparr>"

definition FirewallPortContainment :: "backend \<Rightarrow> Tool" where
  "FirewallPortContainment B =
     \<lparr>tool_Spec = \<lparr>spec_Name = ''firewall.port'',
        spec_Description = ''Open or close one exact TCP/UDP port through one signed typed containment action'',
        spec_Risk = RiskContain\<rparr>,
      tool_Execute = (\<lambda>args h.
        case rejectUnknownArgs args [''operation'', ''protocol'', ''direction'', ''port''] of
          Some e \<Rightarrow> (Inl e, h)
        | None \<Rightarrow>
            (case containmentOperation args ''open'' of
               Inl e \<Rightarrow> (Inl e, h)
             | Inr operation \<Rightarrow>
                 (case stringArg args ''protocol'' of
                    Inl e \<Rightarrow> (Inl e, h)
                  | Inr protocol \<Rightarrow>
                      (case stringArg args ''direction'' of
                         Inl e \<Rightarrow> (Inl e, h)
                       | Inr direction \<Rightarrow>
                           (case exactPortArg args of
                              Inl e \<Rightarrow> (Inl e, h)
                            | Inr port \<Rightarrow>
                                (case normalizePortRule protocol direction port of
                                   Inl e \<Rightarrow> (Inl e, h)
                                 | Inr rule \<Rightarrow>
                                     if operation = ''open'' then call_backend B (OpenPort rule) h
                                     else if operation = ''close'' then call_backend B (ClosePort rule) h
                                     else (Inl (TErr ''firewall.port operation must be open or close''), h)))))))\<rparr>"

definition FileContainment :: "Tool \<Rightarrow> Tool \<Rightarrow> Tool" where
  "FileContainment quarantine restore =
     \<lparr>tool_Spec = \<lparr>spec_Name = ''file.quarantine'',
        spec_Description = ''Quarantine or restore one allowlisted file through one signed typed containment action'',
        spec_Risk = RiskContain\<rparr>,
      tool_Execute = (\<lambda>args h.
        case containmentOperation args ''quarantine'' of
          Inl e \<Rightarrow> (Inl e, h)
        | Inr operation \<Rightarrow>
            if operation = ''quarantine'' then
              (case rejectUnknownArgs args [''operation'', ''path'', ''expected_sha256''] of
                 Some e \<Rightarrow> (Inl e, h) | None \<Rightarrow> tool_Execute quarantine args h)
            else if operation = ''restore'' then
              (case rejectUnknownArgs args [''operation'', ''quarantine_id''] of
                 Some e \<Rightarrow> (Inl e, h) | None \<Rightarrow> tool_Execute restore args h)
            else (Inl (TErr ''file.quarantine operation must be quarantine or restore''), h))\<rparr>"

section \<open>The path guard confines\<close>

text \<open>What the guard relies on: the working directory is absolute, and resolving the links of an
  absolute path gives an absolute path.\<close>

definition paths_absolute :: "osenv \<Rightarrow> bool" where
  "paths_absolute E = ((\<forall>d. env_cwd E = Some d \<longrightarrow> HasPrefix d ''/'')
     \<and> (\<forall>p e. HasPrefix p ''/'' \<longrightarrow> env_EvalSymlinks E p = Some e \<longrightarrow> HasPrefix e ''/''))"

lemma abs_path_rooted:
  assumes "paths_absolute E" "abs_path E p = Some a"
  shows "HasPrefix a ''/''"
proof (cases "filepath_IsAbs p")
  case True
  then show ?thesis using assms by (auto simp: abs_path_def filepath_IsAbs_def)
next
  case False
  then obtain d where d: "env_cwd E = Some d" "a = filepath_Join [d, p]"
    using assms(2) by (auto simp: abs_path_def filepath_Abs_def)
  then have "HasPrefix d ''/''" using assms(1) by (simp add: paths_absolute_def)
  then obtain d' where "d = CHR ''/'' # d'" by (cases d) auto
  then show ?thesis using d(2) by (cases "p = []") (auto simp: filepath_Join_def)
qed

lemma evaluated_rooted: "paths_absolute E \<Longrightarrow> HasPrefix a ''/'' \<Longrightarrow> HasPrefix (evaluated E a) ''/''"
  unfolding evaluated_def paths_absolute_def by (auto split: option.splits)

lemma evaluated_clean:
  assumes "paths_absolute E" "HasPrefix a ''/''"
  shows "filepath_Clean (evaluated E a) = evaluated E a"
  using assms unfolding evaluated_def paths_absolute_def by (auto simp: Clean_idem split: option.splits)

lemma guard_roots_rooted:
  "paths_absolute E \<Longrightarrow> guard_roots E roots = Some gs \<Longrightarrow> \<forall>g\<in>set gs. HasPrefix g ''/''"
proof (induction roots arbitrary: gs)
  case Nil
  then show ?case by simp
next
  case (Cons r rs)
  then obtain a gs' where a: "abs_path E r = Some a" "guard_roots E rs = Some gs'" "gs = evaluated E a # gs'"
    by (auto split: option.splits)
  have "HasPrefix (evaluated E a) ''/''"
    using abs_path_rooted [OF Cons.prems(1) a(1)] evaluated_rooted [OF Cons.prems(1)] by blast
  then show ?case using Cons.IH [OF Cons.prems(1) a(2)] a(3) by simp
qed

lemma inside_root_iff:
  "HasPrefix base ''/'' \<Longrightarrow> HasPrefix a ''/'' \<Longrightarrow> inside_root base a \<longleftrightarrow> prefix (clean_comps base) (clean_comps a)"
  by (subst Rel_inside_iff [symmetric]) (auto simp: inside_root_def rel_inside_def split: option.splits)

lemma newPathGuard_rooted: "paths_absolute E \<Longrightarrow> newPathGuard E roots = Inr guard \<Longrightarrow> g \<in> set guard \<Longrightarrow> HasPrefix g ''/''"
  by (auto simp: newPathGuard_def split: if_splits option.splits dest: guard_roots_rooted)

lemma resolve_cases:
  assumes "resolve E guard p = Inr q"
  obtains a where "abs_path E p = Some a" "q = evaluated E a" "\<exists>g\<in>set guard. inside_root g q" "p \<noteq> []"
  using assms by (auto simp: resolve_def Let_def split: if_splits option.splits)

text \<open>C5. The path guard confines the file tools: given a guard built for the configured roots, a path is
  accepted exactly when the absolute path it denotes, links resolved and cleaned, lies under one of
  the guard's roots component by component (so \<open>/var/log-evil\<close> is not under \<open>/var/log\<close>, and no
  \<open>..\<close> survives), and that path is what the tool gets.\<close>

theorem resolve_confines:
  assumes "paths_absolute E" and "newPathGuard E roots = Inr guard"
  shows "resolve E guard p = Inr q \<longleftrightarrow>
    p \<noteq> [] \<and> map_option (evaluated E) (abs_path E p) = Some q
    \<and> HasPrefix q ''/'' \<and> filepath_Clean q = q \<and> list_all plain_comp (clean_comps q)
    \<and> (\<exists>g\<in>set guard. HasPrefix g ''/'' \<and> prefix (clean_comps g) (clean_comps q))"
proof (cases "abs_path E p")
  case None
  then show ?thesis by (auto simp: resolve_def)
next
  case (Some a)
  have a: "HasPrefix a ''/''" by (rule abs_path_rooted [OF assms(1) Some])
  have e: "HasPrefix (evaluated E a) ''/''" "filepath_Clean (evaluated E a) = evaluated E a"
    using evaluated_rooted [OF assms(1) a] evaluated_clean [OF assms(1) a] .
  have g: "inside_root g (evaluated E a) \<longleftrightarrow> HasPrefix g ''/'' \<and> prefix (clean_comps g) (clean_comps (evaluated E a))"
    if "g \<in> set guard" for g
    using newPathGuard_rooted [OF assms that] inside_root_iff [OF _ e(1)] by blast
  show ?thesis using Some e g clean_comps_plain [OF e(1)] by (auto simp: resolve_def Let_def)
qed

definition demo_env :: osenv where
  "demo_env = \<lparr>env_cwd = Some ''/'', env_EvalSymlinks = Some, env_ParseAddr = (\<lambda>_. None), env_Getpid = 77,
     env_FindProcess = (\<lambda>_. True), env_Kill = (\<lambda>_. True), env_Hostname = ''h'', env_GOOS = ''linux'',
     env_GOARCH = ''amd64'', env_NumCPU = 1\<rparr>"

lemma demo_env_absolute: "paths_absolute demo_env"
  by (simp add: paths_absolute_def demo_env_def)

lemma demo_guard: "newPathGuard demo_env [''/var/log''] = Inr [''/var/log'']"
  by code_simp

theorem resolve_confines_witness:
  "resolve demo_env [''/var/log''] ''/var/log/../log/x'' = Inr ''/var/log/x'' \<longleftrightarrow>
    ''/var/log/../log/x'' \<noteq> [] \<and> map_option (evaluated demo_env) (abs_path demo_env ''/var/log/../log/x'') = Some ''/var/log/x''
    \<and> HasPrefix ''/var/log/x'' ''/'' \<and> filepath_Clean ''/var/log/x'' = ''/var/log/x''
    \<and> list_all plain_comp (clean_comps ''/var/log/x'')
    \<and> (\<exists>g\<in>set [''/var/log'']. HasPrefix g ''/'' \<and> prefix (clean_comps g) (clean_comps ''/var/log/x''))"
  by (rule resolve_confines [OF demo_env_absolute demo_guard])

section \<open>What the tools change\<close>

text \<open>\<open>undisturbed h h'\<close>: no file, process or firewall rule differs.\<close>

definition undisturbed :: "host \<Rightarrow> host \<Rightarrow> bool" where
  "undisturbed h h' = (files (hs_world h') = files (hs_world h) \<and> hs_killed h' = hs_killed h \<and> hs_net h' = hs_net h
     \<and> hs_cmds h' = hs_cmds h)"

lemma undisturbed_refl [simp]: "undisturbed h h"
  by (simp add: undisturbed_def)

lemma undisturbed_reads:
  "on_world (os_Stat p) h = (r, h') \<Longrightarrow> undisturbed h h'"
  "on_world (os_ReadFile p) h = (r', h') \<Longrightarrow> undisturbed h h'"
  by (auto simp: on_world_def undisturbed_def split: prod.splits dest: os_Stat_cases(1) os_ReadFile_cases(1))

definition read_only :: "Tool \<Rightarrow> bool" where
  "read_only t = (\<forall>args h. undisturbed h (snd (tool_Execute t args h)))"

lemma read_only_tools:
  "read_only (HostInfo E)" "read_only (FileStat E g)" "read_only (FileSHA256 C E g)" "read_only (FileReadLines E g)"
proof -
  show "read_only (HostInfo E)" by (simp add: read_only_def HostInfo_def)
  show "read_only (FileStat E g)" "read_only (FileSHA256 C E g)" "read_only (FileReadLines E g)"
    unfolding read_only_def FileStat_def FileSHA256_def FileReadLines_def Let_def
    by (auto split: sum.splits prod.splits option.splits dest: undisturbed_reads)
qed

text \<open>\<open>process.terminate\<close> kills at most the one process its \<open>pid\<close> argument names exactly (an
  integral number, no other argument present), never a system process (PID 4 or less) and never the
  agent; in every error case no process is killed, and files and firewall are never touched.\<close>

theorem ProcessTerminate_kills_only_named:
  "\<exists>r h'. tool_Execute (ProcessTerminate E) args h = (r, h') \<and>
     (case r of
        Inl e \<Rightarrow> h' = h
      | Inr v \<Rightarrow> \<exists>pid. h' = h\<lparr>hs_killed := hs_killed h @ [pid]\<rparr> \<and> 4 < pid \<and> pid \<noteq> env_Getpid E
          \<and> (\<exists>m. args = Some m \<and> fst ` set m = {''pid''}
               \<and> (map_of m ''pid'' = Some (VInt pid)
                  \<or> map_of m ''pid'' = Some (VFloat (FFin (of_int pid))) \<and> pid \<le> 2147483647)))"
proof -
  obtain r h' where ex: "tool_Execute (ProcessTerminate E) args h = (r, h')" by (rule prod.exhaust)
  show ?thesis
  proof (cases r)
    case (Inl e)
    then have "h' = h" using ex
      by (auto simp: ProcessTerminate_def split: option.splits sum.splits if_splits)
    then show ?thesis using ex Inl by simp
  next
    case (Inr v)
    with ex obtain pid where p: "exactPIDArg args = Inr pid" "rejectUnknownArgs args [''pid''] = None"
      "h' = h\<lparr>hs_killed := hs_killed h @ [pid]\<rparr>" "4 < pid" "pid \<noteq> env_Getpid E"
      by (auto simp: ProcessTerminate_def split: option.splits sum.splits if_splits)
    from p(1) obtain m where m: "args = Some m" by (cases args) (auto simp: exactPIDArg_def arg_def)
    have v: "map_of m ''pid'' = Some (VInt pid)
        \<or> map_of m ''pid'' = Some (VFloat (FFin (of_int pid))) \<and> pid \<le> 2147483647"
      using p(1) m
      by (auto simp: exactPIDArg_def arg_def exact_int_def le_floor_iff floor_le_iff split: option.splits gval.splits float64.splits if_splits)
    then have "''pid'' \<in> fst ` set m" by (auto dest!: map_of_SomeD intro: rev_image_eqI)
    moreover have "fst ` set m \<subseteq> {''pid''}"
      using p(2) m by (auto simp: rejectUnknownArgs_def split: if_splits)
    ultimately have "fst ` set m = {''pid''}" by blast
    then show ?thesis using ex Inr p m v by auto
  qed
qed

end
