(* ===== verification/Registry.thy ===== *)
theory Registry
  imports Tools Policy
begin

text \<open>
  \<open>tools.Registry\<close>: the table of tools and the only way to run one, which asks the policy engine
  first. The locale \<open>policy_gate\<close> is what the registry needs of the engine.
\<close>

section \<open>The registry\<close>

record Registry =
  reg_tools :: "(string \<times> Tool) list"
  reg_policy :: Policy

record Result =
  res_Tool :: string
  res_Data :: gval

definition NewRegistry :: "Policy \<Rightarrow> Registry" where
  "NewRegistry pol = \<lparr>reg_tools = [], reg_policy = pol\<rparr>"

definition Register :: "Registry \<Rightarrow> Tool \<Rightarrow> (tool_error, Registry) result" where
  "Register reg tool =
     (let name = spec_Name (tool_Spec tool)
      in if name = [] then Inl (TErr ''tool name is required'')
         else if map_of (reg_tools reg) name \<noteq> None then Inl (TErr ''tool is already registered'')
         else Inr (reg\<lparr>reg_tools := reg_tools reg @ [(name, tool)]\<rparr>))"

fun Register_all :: "Registry \<Rightarrow> Tool list \<Rightarrow> (tool_error, Registry) result" where
  "Register_all reg [] = Inr reg"
| "Register_all reg (tool # tools) =
     (case Register reg tool of Inl e \<Rightarrow> Inl e | Inr reg1 \<Rightarrow> Register_all reg1 tools)"

definition Specs :: "Registry \<Rightarrow> Spec list" where
  "Specs reg = map (\<lambda>(_, tool). tool_Spec tool) (reg_tools reg)"

text \<open>\<open>Registry.Execute\<close>, over the engine's evaluation function: \<open>Inl\<close> is an error, \<open>Inr None\<close> a
  denied request (an empty result and no error).\<close>

definition execute_with ::
  "(ActionRequest \<Rightarrow> Decision) \<Rightarrow> (string \<times> Tool) list \<Rightarrow> ActionRequest \<Rightarrow> host \<Rightarrow>
     (tool_error, Result option) result \<times> Decision \<times> host" where
  "execute_with evaluate tools request h =
     (case map_of tools (req_Tool request) of
        None \<Rightarrow>
          (Inl (TErr ''unknown tool''),
           \<lparr>dec_Allowed = False, dec_RequiresApproval = False, dec_Reason = ''unknown tool'',
            dec_EvaluatedAt = 0, dec_Risk = req_Risk request\<rparr>, h)
      | Some tool \<Rightarrow>
          (let request1 = request\<lparr>req_Risk := spec_Risk (tool_Spec tool)\<rparr>;
               decision = evaluate request1
           in if \<not> dec_Allowed decision then (Inr None, decision, h)
              else case tool_Execute tool (req_Args request1) h of
                     (Inl e, h1) \<Rightarrow> (Inl e, decision, h1)
                   | (Inr d, h1) \<Rightarrow>
                       (Inr (Some \<lparr>res_Tool = req_Tool request1, res_Data = d\<rparr>), decision, h1)))"

definition Registry_Execute ::
  "crypto \<Rightarrow> (canonical_action \<Rightarrow> string option) \<Rightarrow> string \<Rightarrow> gtime \<Rightarrow> gtime \<Rightarrow> Registry \<Rightarrow>
     ActionRequest \<Rightarrow> host \<Rightarrow> (tool_error, Result option) result \<times> Decision \<times> host" where
  "Registry_Execute C mj newid t0 now reg request h =
     execute_with (Evaluate C mj (reg_policy reg) newid t0 now) (reg_tools reg) request h"

text \<open>\<open>NewFoundationRegistry\<close>: \<open>pol\<close> is what \<open>policy.Load\<close> returned.\<close>

definition NewFoundationRegistry ::
  "crypto \<Rightarrow> osenv \<Rightarrow> (policy_error, Policy) result \<Rightarrow> string list \<Rightarrow> (tool_error, Registry) result" where
  "NewFoundationRegistry C E pol allowedPaths =
     (case pol of
        Inl _ \<Rightarrow> Inl (TErr ''load policy'')
      | Inr activePolicy \<Rightarrow>
          (case Register_all (NewRegistry activePolicy) [HostInfo E, ProcessTerminate E] of
             Inl e \<Rightarrow> Inl e
           | Inr reg1 \<Rightarrow>
               (case newPathGuard E allowedPaths of
                  Inl e \<Rightarrow> Inl e
                | Inr guard \<Rightarrow>
                    Register_all reg1 [FileStat E guard, FileSHA256 C E guard, FileReadLines E guard])))"

section \<open>The engine as the registry sees it\<close>

text \<open>\<open>honest\<close>: every tool registered under a read-only risk changes nothing.\<close>

definition honest :: "(string \<times> Tool) list \<Rightarrow> bool" where
  "honest tools = (\<forall>(n, t)\<in>set tools. spec_Risk (tool_Spec t) = RiskObserve \<longrightarrow> read_only t)"

locale policy_gate =
  fixes evaluate :: "ActionRequest \<Rightarrow> Decision" and cleared :: "ActionRequest \<Rightarrow> bool"
    and covers :: "Approval \<Rightarrow> ActionRequest \<Rightarrow> bool"
  assumes allowed_cleared: "dec_Allowed (evaluate r) \<Longrightarrow> cleared r"
    and state_change_covered: "dec_Allowed (evaluate r) \<Longrightarrow> req_Risk r \<noteq> RiskObserve \<Longrightarrow>
      \<exists>a. req_Approval r = Some a \<and> covers a r"
begin

lemma execute_denied:
  assumes "execute_with evaluate tools request h = (r, d, h')" "\<not> dec_Allowed d"
  shows "h' = h \<and> (\<forall>x. r \<noteq> Inr (Some x))"
  using assms
  by (auto simp: execute_with_def Let_def split: option.splits if_splits sum.splits prod.splits)

lemma disturbed_covered:
  assumes "execute_with evaluate tools request h = (r, d, h')" "honest tools" "\<not> undisturbed h h'"
  shows "\<exists>t a. map_of tools (req_Tool request) = Some t \<and> spec_Risk (tool_Spec t) \<noteq> RiskObserve
    \<and> snd (tool_Execute t (req_Args request) h) = h'
    \<and> cleared (request\<lparr>req_Risk := spec_Risk (tool_Spec t)\<rparr>)
    \<and> req_Approval request = Some a \<and> covers a (request\<lparr>req_Risk := spec_Risk (tool_Spec t)\<rparr>)"
proof -
  from assms(1,3) obtain t where t: "map_of tools (req_Tool request) = Some t"
    "dec_Allowed (evaluate (request\<lparr>req_Risk := spec_Risk (tool_Spec t)\<rparr>))"
    "snd (tool_Execute t (req_Args request) h) = h'"
    by (auto simp: execute_with_def Let_def split: option.splits if_splits sum.splits prod.splits)
  have "spec_Risk (tool_Spec t) \<noteq> RiskObserve"
  proof
    assume "spec_Risk (tool_Spec t) = RiskObserve"
    moreover have "(req_Tool request, t) \<in> set tools" using t(1) by (rule map_of_SomeD)
    ultimately have "read_only t" using assms(2) by (auto simp: honest_def)
    then show False using t(3) assms(3) by (auto simp: read_only_def)
  qed
  then show ?thesis using t allowed_cleared [OF t(2)] state_change_covered [OF t(2)] by auto
qed

end

text \<open>The model's engine is such a gate.\<close>

definition clears :: "crypto \<Rightarrow> (canonical_action \<Rightarrow> string option) \<Rightarrow> Policy \<Rightarrow> string \<Rightarrow> gtime \<Rightarrow> gtime \<Rightarrow> ActionRequest \<Rightarrow> bool" where
  "clears C mj pol newid t0 now r =
     (\<not> barred pol (effective pol newid t0 r) \<and> live pol now (effective pol newid t0 r))"

interpretation engine: policy_gate "Evaluate C mj pol newid t0 now" "clears C mj pol newid t0 now"
  "\<lambda>a r. approves C mj now a (effective pol newid t0 r)" for C mj pol newid t0 now
  by unfold_locales (auto simp: clears_def allowed_iff Let_def read_only_ok_def)

section \<open>Registration\<close>

text \<open>Registered names are distinct and each tool is stored under its own name.\<close>

definition reg_inv :: "Registry \<Rightarrow> bool" where
  "reg_inv reg = (distinct (map fst (reg_tools reg))
     \<and> (\<forall>(n, t)\<in>set (reg_tools reg). n = spec_Name (tool_Spec t) \<and> n \<noteq> []))"

lemma Register_cases:
  assumes "Register reg t = Inr reg'"
  shows "reg' = reg\<lparr>reg_tools := reg_tools reg @ [(spec_Name (tool_Spec t), t)]\<rparr>"
    "spec_Name (tool_Spec t) \<noteq> []" "spec_Name (tool_Spec t) \<notin> fst ` set (reg_tools reg)"
  using assms by (auto simp: Register_def Let_def map_of_eq_None_iff split: if_splits)

lemma Register_inv [inv_intros]: "reg_inv reg \<Longrightarrow> Register reg t = Inr reg' \<Longrightarrow> reg_inv reg'"
  using Register_cases [of reg t reg'] by (auto simp: reg_inv_def)

lemma Register_all_cases:
  "Register_all reg ts = Inr reg' \<Longrightarrow>
     reg' = reg\<lparr>reg_tools := reg_tools reg @ map (\<lambda>t. (spec_Name (tool_Spec t), t)) ts\<rparr> \<and> (reg_inv reg \<longrightarrow> reg_inv reg')"
proof (induction ts arbitrary: reg)
  case Nil
  then show ?case by simp
next
  case (Cons t ts)
  then obtain reg1 where r: "Register reg t = Inr reg1" "Register_all reg1 ts = Inr reg'"
    by (auto split: sum.splits)
  show ?case using Cons.IH [OF r(2)] Register_cases(1) [OF r(1)] Register_inv [OF _ r(1)] by auto
qed

lemma Register_all_sel:
  assumes "Register_all reg ts = Inr reg'"
  shows "reg_policy reg' = reg_policy reg" "map snd (reg_tools reg') = map snd (reg_tools reg) @ ts"
    "reg_inv reg \<Longrightarrow> reg_inv reg'"
proof -
  have e: "reg' = reg\<lparr>reg_tools := reg_tools reg @ map (\<lambda>t. (spec_Name (tool_Spec t), t)) ts\<rparr>" "reg_inv reg \<longrightarrow> reg_inv reg'"
    using Register_all_cases [OF assms] by auto
  show "reg_policy reg' = reg_policy reg" unfolding e(1) by simp
  show "map snd (reg_tools reg') = map snd (reg_tools reg) @ ts" unfolding e(1) by (simp add: comp_def)
  show "reg_inv reg'" if "reg_inv reg" using e(2) that by blast
qed

lemma NewRegistry_inv [simp]: "reg_inv (NewRegistry pol)"
  by (simp add: reg_inv_def NewRegistry_def)

section \<open>Properties\<close>

text \<open>C6. The registry is the only gate and it holds: whatever the request claims, running it changes a
  file, a process or the firewall only if its tool is registered as state-changing, the policy engine
  cleared the request with the risk the tool itself declares (not the one claimed), and the request
  carries an approval of exactly that action, unexpired and by a named operator. A denied request
  changes nothing and gives no result.\<close>

theorem Registry_Execute_gated:
  assumes "Registry_Execute C mj newid t0 now reg request h = (r, d, h')" and "honest (reg_tools reg)"
  shows "(dec_Allowed d \<or> h' = h \<and> (\<forall>x. r \<noteq> Inr (Some x)))
    \<and> (undisturbed h h' \<or> (\<exists>t a. map_of (reg_tools reg) (req_Tool request) = Some t
        \<and> spec_Risk (tool_Spec t) \<noteq> RiskObserve \<and> dec_Allowed d
        \<and> snd (tool_Execute t (req_Args request) h) = h'
        \<and> \<not> barred (reg_policy reg) (effective (reg_policy reg) newid t0 (request\<lparr>req_Risk := spec_Risk (tool_Spec t)\<rparr>))
        \<and> live (reg_policy reg) now (effective (reg_policy reg) newid t0 (request\<lparr>req_Risk := spec_Risk (tool_Spec t)\<rparr>))
        \<and> req_Approval request = Some a
        \<and> approves C mj now a (effective (reg_policy reg) newid t0 (request\<lparr>req_Risk := spec_Risk (tool_Spec t)\<rparr>))))"
proof -
  have ex: "execute_with (Evaluate C mj (reg_policy reg) newid t0 now) (reg_tools reg) request h = (r, d, h')"
    using assms(1) by (simp add: Registry_Execute_def)
  have d: "dec_Allowed d \<or> h' = h \<and> (\<forall>x. r \<noteq> Inr (Some x))" using engine.execute_denied [OF ex] by blast
  show ?thesis
  proof (cases "undisturbed h h'")
    case True
    then show ?thesis using d by blast
  next
    case False
    then have "dec_Allowed d" using d by auto
    then show ?thesis using engine.disturbed_covered [OF ex assms(2) False] by (auto simp: clears_def)
  qed
qed

definition demo_registry :: Registry where
  "demo_registry = \<lparr>reg_tools = [(''host.isolate'', HostContainment (\<lambda>op h. (Inr [], h)))], reg_policy = Default\<rparr>"

definition demo_host :: host where
  "demo_host = \<lparr>hs_world = \<lparr>files = [], faults = [], events = [], clock = 0, clock_steps = []\<rparr>,
     hs_killed = [], hs_net = [], hs_cmds = []\<rparr>"

lemma demo_execute:
  "Registry_Execute toy_crypto demo_mj [] 0 2000 demo_registry demo_request demo_host =
     (Inr (Some \<lparr>res_Tool = ''host.isolate'', res_Data = VMap []\<rparr>),
      Evaluate toy_crypto demo_mj Default [] 0 2000 demo_request, demo_host\<lparr>hs_net := [Isolate]\<rparr>)"
proof -
  have r: "demo_request\<lparr>req_Risk := ''contain''\<rparr> = demo_request" "req_Tool demo_request = ''host.isolate''"
    "req_Args demo_request = None" by (simp_all add: demo_request_def)
  have a: "dec_Allowed (Evaluate toy_crypto demo_mj Default [] 0 2000 demo_request)" by (rule demo_allowed)
  show ?thesis
    by (simp add: Registry_Execute_def execute_with_def demo_registry_def HostContainment_def RiskContain_def
        Let_def r a rejectUnknownArgs_def containmentOperation_def arg_def call_backend_def demo_host_def)
qed

theorem Registry_Execute_gated_witness:
  "\<exists>t a. map_of (reg_tools demo_registry) ''host.isolate'' = Some t \<and> spec_Risk (tool_Spec t) \<noteq> RiskObserve
     \<and> req_Approval demo_request = Some a
     \<and> approves toy_crypto demo_mj 2000 a (effective Default [] 0 (demo_request\<lparr>req_Risk := spec_Risk (tool_Spec t)\<rparr>))"
proof -
  have "honest (reg_tools demo_registry)"
    by (simp add: honest_def demo_registry_def HostContainment_def risk_defs)
  moreover have "\<not> undisturbed demo_host (demo_host\<lparr>hs_net := [Isolate]\<rparr>)"
    by (simp add: undisturbed_def demo_host_def)
  moreover have "req_Tool demo_request = ''host.isolate''" "reg_policy demo_registry = Default"
    by (simp_all add: demo_request_def demo_registry_def)
  ultimately show ?thesis using Registry_Execute_gated [OF demo_execute] by metis
qed

end
