(* ===== verification/Quarantine.thy ===== *)
theory Quarantine
  imports Tools
begin

text \<open>
  Package \<open>internal/identity\<close> (the agent's key file) and the quarantine tools of
  \<open>internal/tools\<close>: \<open>file.quarantine\<close> moves a file into the agent's store behind a signed manifest,
  \<open>file.restore\<close> brings it back. PEM/PKCS#8 parsing (\<open>kp\<close>, \<open>ke\<close>) and the JSON codec of the manifest
  (\<open>mq\<close> compact, \<open>mqi\<close> indented, \<open>uq\<close> the strict decoder) are parameters.
\<close>

section \<open>The agent's identity\<close>

datatype identity_error = IdErrOS oserr | IdErrFormat | IdErrGenerate

definition privateKeyFilename :: string where "privateKeyFilename = ''agent-identity.key''"

definition identity_Load ::
  "(string \<Rightarrow> string option) \<Rightarrow> string \<Rightarrow> world \<Rightarrow> (identity_error, string) result \<times> world" where
  "identity_Load kp path w =
     (case os_ReadFile path w of
        (Inl e, w1) \<Rightarrow> (Inl (IdErrOS e), w1)
      | (Inr c, w1) \<Rightarrow> (case kp c of None \<Rightarrow> (Inl IdErrFormat, w1) | Some key \<Rightarrow> (Inr key, w1)))"

text \<open>\<open>Ensure\<close>: \<open>gen\<close> is the key \<open>GenerateKey\<close> would return (\<open>None\<close> its error), \<open>ke\<close> encodes a key.\<close>

definition Ensure ::
  "(string \<Rightarrow> string option) \<Rightarrow> (string \<Rightarrow> string option) \<Rightarrow> string option \<Rightarrow> string \<Rightarrow> world \<Rightarrow>
     (identity_error, string \<times> string) result \<times> world" where
  "Ensure kp ke gen dataDir w =
     (case os_MkdirAll dataDir mode_private_dir w of
        (Inl e, w1) \<Rightarrow> (Inl (IdErrOS e), w1)
      | (Inr _, w1) \<Rightarrow>
          (let path = filepath_Join [dataDir, privateKeyFilename]
           in case identity_Load kp path w1 of
                (Inr key, w2) \<Rightarrow>
                  (case os_Chmod path mode_private w2 of
                     (Inl e, w3) \<Rightarrow> (Inl (IdErrOS e), w3)
                   | (Inr _, w3) \<Rightarrow> (Inr (key, path), w3))
              | (Inl e, w2) \<Rightarrow>
                  (if e \<noteq> IdErrOS ErrNotExist then (Inl e, w2)
                   else case gen of
                          None \<Rightarrow> (Inl IdErrGenerate, w2)
                        | Some key \<Rightarrow>
                            (case ke key of
                               None \<Rightarrow> (Inl IdErrGenerate, w2)
                             | Some encoded \<Rightarrow>
                                 (case identity_writePrivateFile path encoded w2 of
                                    (Inl e1, w3) \<Rightarrow> (Inl (IdErrOS e1), w3)
                                  | (Inr _, w3) \<Rightarrow> (Inr (key, path), w3))))))"

definition Fingerprint :: "crypto \<Rightarrow> string \<Rightarrow> string" where
  "Fingerprint C publicKey = sha_hex C publicKey"

section \<open>Manifests\<close>

record quarantineManifest =
  qm_Schema :: string
  qm_QuarantineID :: string
  qm_OriginalPath :: string
  qm_QuarantinePath :: string
  qm_SHA256 :: string
  qm_Size :: int
  qm_OriginalMode :: nat
  qm_QuarantinedAt :: gtime
  qm_Signature :: string

definition quarantineSchema :: string where "quarantineSchema = ''ntagentshield-quarantine/v1''"

record manifest_codec =
  mc_Marshal :: "quarantineManifest \<Rightarrow> string option"
  mc_MarshalIndent :: "quarantineManifest \<Rightarrow> string option"
  mc_DecodeStrict :: "string \<Rightarrow> quarantineManifest option"

text \<open>What the two tools know: the guard's roots, the data directory, the key file; and the key parser
  and codec they use.\<close>

record quarantine_config =
  qc_guard :: "string list"
  qc_dataDir :: string
  qc_identityKeyFile :: string
  qc_parseKey :: "string \<Rightarrow> string option"
  qc_codec :: manifest_codec

definition quarantineManifestBytes :: "manifest_codec \<Rightarrow> quarantineManifest \<Rightarrow> string option" where
  "quarantineManifestBytes M m = mc_Marshal M (m\<lparr>qm_Signature := []\<rparr>)"

definition saveQuarantineManifest ::
  "crypto \<Rightarrow> quarantine_config \<Rightarrow> string \<Rightarrow> quarantineManifest \<Rightarrow> world \<Rightarrow> (tool_error, unit) result \<times> world" where
  "saveQuarantineManifest C Q path m w =
     (case identity_Load (qc_parseKey Q) (qc_identityKeyFile Q) w of
        (Inl _, w1) \<Rightarrow> (Inl (TErr ''load Agent identity for quarantine manifest''), w1)
      | (Inr key, w1) \<Rightarrow>
          (case quarantineManifestBytes (qc_codec Q) m of
             None \<Rightarrow> (Inl (TErr ''json''), w1)
           | Some text \<Rightarrow>
               (case mc_MarshalIndent (qc_codec Q)
                       (m\<lparr>qm_Signature := b64_EncodeToString (ed25519_Sign C key text)\<rparr>) of
                  None \<Rightarrow> (Inl (TErr ''json''), w1)
                | Some encoded \<Rightarrow>
                    (case tools_writePrivateFile path (encoded @ [newline]) w1 of
                       (Inl e, w2) \<Rightarrow> (Inl (TErrOS e), w2)
                     | (Inr _, w2) \<Rightarrow> (Inr (), w2)))))"

definition loadQuarantineManifest ::
  "crypto \<Rightarrow> quarantine_config \<Rightarrow> string \<Rightarrow> world \<Rightarrow> (tool_error, quarantineManifest) result \<times> world" where
  "loadQuarantineManifest C Q path w =
     (case os_ReadFile path w of
        (Inl e, w1) \<Rightarrow> (Inl (TErrOS e), w1)
      | (Inr c, w1) \<Rightarrow>
          (case mc_DecodeStrict (qc_codec Q) c of
             None \<Rightarrow> (Inl (TErr ''decode quarantine manifest''), w1)
           | Some m \<Rightarrow>
               if qm_Schema m \<noteq> quarantineSchema then (Inl (TErr ''unsupported quarantine manifest schema''), w1)
               else case b64_DecodeString (qm_Signature m) of
                 None \<Rightarrow> (Inl (TErr ''decode quarantine manifest signature''), w1)
               | Some signature \<Rightarrow>
                   (case identity_Load (qc_parseKey Q) (qc_identityKeyFile Q) w1 of
                      (Inl _, w2) \<Rightarrow> (Inl (TErr ''load Agent identity for quarantine manifest''), w2)
                    | (Inr key, w2) \<Rightarrow>
                        (case quarantineManifestBytes (qc_codec Q) m of
                           None \<Rightarrow> (Inl (TErr ''json''), w2)
                         | Some text \<Rightarrow>
                             if \<not> ed25519_Verify C (ed25519_Public C key) text signature
                             then (Inl (TErr ''quarantine manifest signature verification failed''), w2)
                             else (Inr m, w2)))))"

definition isSHA256Hex :: "string \<Rightarrow> bool" where
  "isSHA256Hex value = (length value = 64 \<and> hex_decodable value)"

section \<open>Quarantining\<close>

definition quarantine_dir :: "quarantine_config \<Rightarrow> string" where
  "quarantine_dir Q = filepath_Join [qc_dataDir Q, ''quarantine'']"

definition quarantine_id :: "crypto \<Rightarrow> string \<Rightarrow> string \<Rightarrow> string" where
  "quarantine_id C resolved digest =
     ''q_'' @ hex_EncodeToString (take 8 (sha256_Sum C resolved)) @ ''_'' @ take 16 digest"

definition object_path :: "quarantine_config \<Rightarrow> string \<Rightarrow> string" where
  "object_path Q i = filepath_Join [quarantine_dir Q, i @ ''.bin'']"

definition manifest_path :: "quarantine_config \<Rightarrow> string \<Rightarrow> string" where
  "manifest_path Q i = filepath_Join [quarantine_dir Q, i @ ''.json'']"

text \<open>\<open>NewFileQuarantine\<close> and \<open>NewFileRestore\<close>, which differ in the message only.\<close>

definition NewFileQuarantine ::
  "osenv \<Rightarrow> string list \<Rightarrow> string \<Rightarrow> string \<Rightarrow> (string \<Rightarrow> string option) \<Rightarrow> manifest_codec \<Rightarrow>
     (tool_error, quarantine_config) result" where
  "NewFileQuarantine E roots dataDir identityKeyFile kp M =
     (case newPathGuard E roots of
        Inl e \<Rightarrow> Inl e
      | Inr guard \<Rightarrow>
          if TrimSpace dataDir = [] \<or> TrimSpace identityKeyFile = []
          then Inl (TErr ''file quarantine requires data directory and Agent identity key'')
          else Inr \<lparr>qc_guard = guard, qc_dataDir = dataDir, qc_identityKeyFile = identityKeyFile,
                    qc_parseKey = kp, qc_codec = M\<rparr>)"

definition expected_hash :: "gmap option \<Rightarrow> (tool_error, string) result" where
  "expected_hash args =
     (case arg args ''expected_sha256'' of
        None \<Rightarrow> Inr []
      | Some (VString text) \<Rightarrow>
          (let t = ToLower (TrimSpace text)
           in if t \<noteq> [] \<and> \<not> isSHA256Hex t
              then Inl (TErr ''expected_sha256 must contain 64 lowercase/uppercase hex characters'') else Inr t)
      | Some _ \<Rightarrow> Inl (TErr ''expected_sha256 must be a string''))"

text \<open>From the temporary file's \<open>Chmod\<close> to \<open>source.Close()\<close>: copy the source, which \<open>before\<close>
  describes, and check that it did not change meanwhile.\<close>

definition fill_temporary ::
  "string \<Rightarrow> string \<Rightarrow> gofile \<Rightarrow> world \<Rightarrow> (tool_error, string) result \<times> world" where
  "fill_temporary resolved temporaryName before w0 =
     (let w = snd (os_Chmod temporaryName mode_private w0)
      in case os_ReadFile resolved w of
        (Inl e, w1) \<Rightarrow> (Inl (TErrOS e), w1)
      | (Inr c, w1) \<Rightarrow>
          (case os_WriteFile temporaryName c mode_private w1 of
             (Inl e, w2) \<Rightarrow> (Inl (TErrOS e), w2)
           | (Inr _, w2) \<Rightarrow>
               (case file_Sync temporaryName w2 of
                  (Inl e, w3) \<Rightarrow> (Inl (TErrOS e), w3)
                | (Inr _, w3) \<Rightarrow>
                    (case file_Sync temporaryName w3 of
                       (Inl e, w4) \<Rightarrow> (Inl (TErrOS e), w4)
                     | (Inr _, w4) \<Rightarrow>
                         (case os_Stat resolved w4 of
                            (Inl e, w5) \<Rightarrow> (Inl (TErrOS e), w5)
                          | (Inr after, w5) \<Rightarrow>
                              if length (content before) \<noteq> length (content after) \<or> mtime before \<noteq> mtime after
                                 \<or> length c \<noteq> length (content before)
                              then (Inl (TErr ''quarantine source changed while it was being copied; refusing removal''), w5)
                              else (case file_Sync resolved w5 of
                                      (Inl e, w6) \<Rightarrow> (Inl (TErrOS e), w6)
                                    | (Inr _, w6) \<Rightarrow> (Inr c, w6)))))))"

text \<open>From \<open>saveQuarantineManifest\<close> on, with the copy under its final name.\<close>

definition publish ::
  "crypto \<Rightarrow> quarantine_config \<Rightarrow> string \<Rightarrow> quarantineManifest \<Rightarrow> string \<Rightarrow> string \<Rightarrow> world \<Rightarrow>
     (tool_error, gval) result \<times> world" where
  "publish C Q resolved manifest finalPath manifestPath w =
     (case saveQuarantineManifest C Q manifestPath manifest w of
        (Inl e, w1) \<Rightarrow> (Inl e, snd (os_Remove finalPath w1))
      | (Inr _, w1) \<Rightarrow>
          (case os_Remove resolved w1 of
             (Inl e, w2) \<Rightarrow>
               (Inl (TErrOS e), snd (os_Remove finalPath (snd (os_Remove manifestPath w2))))
           | (Inr _, w2) \<Rightarrow>
               (Inr (VMap [(''quarantine_id'', VString (qm_QuarantineID manifest)), (''original_path'', VString resolved),
                  (''sha256'', VString (qm_SHA256 manifest)), (''size'', VInt (qm_Size manifest)),
                  (''quarantined'', VBool True)]), w2)))"

text \<open>From the digest on, with the copy in the temporary file; \<open>snd\<close> of the result's pair says whether
  the temporary file was renamed away.\<close>

definition commit ::
  "crypto \<Rightarrow> quarantine_config \<Rightarrow> string \<Rightarrow> string \<Rightarrow> string \<Rightarrow> gofile \<Rightarrow> string \<Rightarrow> world \<Rightarrow>
     ((tool_error, gval) result \<times> bool) \<times> world" where
  "commit C Q expectedHash resolved temporaryName before c w =
     (let digest = sha_hex C c
      in if expectedHash \<noteq> [] \<and> digest \<noteq> expectedHash
         then ((Inl (TErr ''quarantine SHA-256 mismatch''), False), w)
         else let quarantineID = quarantine_id C resolved digest;
                  finalPath = object_path Q quarantineID;
                  manifestPath = manifest_path Q quarantineID
              in case os_Stat manifestPath w of
                   (Inr _, w1) \<Rightarrow>
                     ((Inl (TErr ''quarantine object already exists; refusing to overwrite signed evidence''), False), w1)
                 | (Inl e, w1) \<Rightarrow>
                     if e \<noteq> ErrNotExist then ((Inl (TErrOS e), False), w1)
                     else case os_Rename temporaryName finalPath w1 of
                       (Inl e, w2) \<Rightarrow> ((Inl (TErrOS e), False), w2)
                     | (Inr _, w2) \<Rightarrow>
                         (let (now, w3) = time_Now w2;
                              manifest = \<lparr>qm_Schema = quarantineSchema, qm_QuarantineID = quarantineID,
                                qm_OriginalPath = resolved, qm_QuarantinePath = finalPath, qm_SHA256 = digest,
                                qm_Size = int (length c), qm_OriginalMode = perm before, qm_QuarantinedAt = now,
                                qm_Signature = []\<rparr>;
                              (r, w4) = publish C Q resolved manifest finalPath manifestPath w3
                          in ((r, True), w4)))"

text \<open>\<open>FileQuarantine.Execute\<close>; \<open>rnd\<close> is the random part \<open>os.CreateTemp\<close> settles on.\<close>

definition FileQuarantine_Execute ::
  "crypto \<Rightarrow> osenv \<Rightarrow> quarantine_config \<Rightarrow> string \<Rightarrow> gmap option \<Rightarrow> world \<Rightarrow> (tool_error, gval) result \<times> world" where
  "FileQuarantine_Execute C E Q rnd args w =
     (case path_arg E (qc_guard Q) args of
        Inl e \<Rightarrow> (Inl e, w)
      | Inr resolved \<Rightarrow>
          (case expected_hash args of
             Inl e \<Rightarrow> (Inl e, w)
           | Inr expectedHash \<Rightarrow>
               (case os_Stat resolved w of
                  (Inl e, w1) \<Rightarrow> (Inl (TErrOS e), w1)
                | (Inr before, w1) \<Rightarrow>
                    (case os_MkdirAll (quarantine_dir Q) mode_private_dir w1 of
                       (Inl e, w2) \<Rightarrow> (Inl (TErrOS e), w2)
                     | (Inr _, w2) \<Rightarrow>
                         (let temporaryName = filepath_Join [quarantine_dir Q, ''.incoming-'' @ rnd]
                          in case os_WriteFile temporaryName [] mode_private w2 of
                               (Inl e, w3) \<Rightarrow> (Inl (TErrOS e), w3)
                             | (Inr _, w3) \<Rightarrow>
                                 (case fill_temporary resolved temporaryName before w3 of
                                    (Inl e, w4) \<Rightarrow> (Inl e, snd (os_Remove temporaryName w4))
                                  | (Inr c, w4) \<Rightarrow>
                                      (case commit C Q expectedHash resolved temporaryName before c w4 of
                                         ((r, committed), w5) \<Rightarrow>
                                           (r, if committed then w5 else snd (os_Remove temporaryName w5)))))))))"

section \<open>Restoring\<close>

text \<open>The pattern \<open>^q_[a-f0-9]{16}_[a-f0-9]{16}$\<close>.\<close>

definition lower_hex :: "string \<Rightarrow> bool" where
  "lower_hex s = list_all (\<lambda>c. c \<in> set ''0123456789abcdef'') s"

definition quarantineIDPattern :: "string \<Rightarrow> bool" where
  "quarantineIDPattern s =
     (length s = 35 \<and> take 2 s = ''q_'' \<and> lower_hex (take 16 (drop 2 s)) \<and> s ! 18 = CHR ''_''
      \<and> lower_hex (drop 19 s))"

definition resolveRestoreTarget :: "osenv \<Rightarrow> string list \<Rightarrow> string \<Rightarrow> (tool_error, string) result" where
  "resolveRestoreTarget E allowedRoots originalPath =
     (case abs_path E originalPath of
        None \<Rightarrow> Inl (TErr ''resolve restore target'')
      | Some absolute \<Rightarrow>
          (case env_EvalSymlinks E (filepath_Dir absolute) of
             None \<Rightarrow> Inl (TErr ''resolve restore target parent symlinks'')
           | Some parent \<Rightarrow>
               (let candidate = filepath_Clean (filepath_Join [parent, filepath_Base absolute])
                in if \<exists>base\<in>set allowedRoots. inside_root base candidate then Inr candidate
                   else Inl (TErr ''restore target is outside allowed roots after resolving parent symlinks''))))"

text \<open>\<open>os.OpenFile\<close> with \<open>O_CREATE|O_EXCL\<close>.\<close>

definition os_CreateExcl :: "string \<Rightarrow> nat \<Rightarrow> unit io" where
  "os_CreateExcl p m w =
     (let (f, w1) = next_fault w
      in if f \<noteq> FOk then (Inl ErrIO, w1)
         else if fs_get (files w1) p \<noteq> None then (Inl ErrExist, w1)
         else (Inr (), emit (EvWrite p [] m (clock w1)) w1))"

text \<open>From \<open>io.Copy\<close> to the comparison with the manifest.\<close>

definition fill_restored ::
  "crypto \<Rightarrow> quarantineManifest \<Rightarrow> string \<Rightarrow> world \<Rightarrow> (tool_error, unit) result \<times> world" where
  "fill_restored C m resolved w =
     (case os_ReadFile (qm_QuarantinePath m) w of
        (Inl e, w1) \<Rightarrow> (Inl (TErrOS e), w1)
      | (Inr c, w1) \<Rightarrow>
          (case os_WriteFile resolved c (qm_OriginalMode m) w1 of
             (Inl e, w2) \<Rightarrow> (Inl (TErrOS e), w2)
           | (Inr _, w2) \<Rightarrow>
               (case file_Sync resolved w2 of
                  (Inl e, w3) \<Rightarrow> (Inl (TErrOS e), w3)
                | (Inr _, w3) \<Rightarrow>
                    (case file_Sync resolved w3 of
                       (Inl e, w4) \<Rightarrow> (Inl (TErrOS e), w4)
                     | (Inr _, w4) \<Rightarrow>
                         (case file_Sync (qm_QuarantinePath m) w4 of
                            (Inl e, w5) \<Rightarrow> (Inl (TErrOS e), w5)
                          | (Inr _, w5) \<Rightarrow>
                              if int (length c) \<noteq> qm_Size m \<or> \<not> EqualFold (sha_hex C c) (qm_SHA256 m)
                              then (Inl (TErr ''restored content does not match signed quarantine manifest''), w5)
                              else (Inr (), w5))))))"

text \<open>From \<open>os.Open\<close> of the quarantined object on.\<close>

definition restore_object ::
  "crypto \<Rightarrow> quarantineManifest \<Rightarrow> string \<Rightarrow> string \<Rightarrow> world \<Rightarrow> (tool_error, gval) result \<times> world" where
  "restore_object C m resolved manifestPath w =
     (case os_Stat (qm_QuarantinePath m) w of
        (Inl e, w1) \<Rightarrow> (Inl (TErrOS e), w1)
      | (Inr _, w1) \<Rightarrow>
          (case os_CreateExcl resolved (qm_OriginalMode m) w1 of
             (Inl e, w2) \<Rightarrow>
               (Inl (if e = ErrExist then TErr ''restore target already exists; refusing overwrite'' else TErrOS e), w2)
           | (Inr _, w2) \<Rightarrow>
               (case fill_restored C m resolved w2 of
                  (Inl e, w3) \<Rightarrow> (Inl e, snd (os_Remove resolved w3))
                | (Inr _, w3) \<Rightarrow>
                    (let w4 = snd (os_Chmod resolved (qm_OriginalMode m) w3)
                     in case os_Remove (qm_QuarantinePath m) w4 of
                          (Inl e, w5) \<Rightarrow> (Inl (TErrOS e), w5)
                        | (Inr _, w5) \<Rightarrow>
                            (case os_Remove manifestPath w5 of
                               (Inl e, w6) \<Rightarrow> (Inl (TErrOS e), w6)
                             | (Inr _, w6) \<Rightarrow>
                                 (Inr (VMap [(''quarantine_id'', VString (qm_QuarantineID m)),
                                    (''restored_path'', VString resolved), (''sha256'', VString (qm_SHA256 m)),
                                    (''restored'', VBool True)]), w6))))))"

text \<open>The checks on a loaded manifest: the target to restore to.\<close>

definition restore_target ::
  "osenv \<Rightarrow> quarantine_config \<Rightarrow> string \<Rightarrow> quarantineManifest \<Rightarrow> (tool_error, string) result" where
  "restore_target E Q quarantineID m =
     (if qm_QuarantineID m \<noteq> quarantineID then Inl (TErr ''quarantine manifest ID mismatch'')
      else if filepath_Clean (qm_QuarantinePath m) \<noteq> filepath_Clean (object_path Q quarantineID)
      then Inl (TErr ''quarantine manifest contains an unexpected object path'')
      else if qm_Size m < 0 \<or> \<not> isSHA256Hex (ToLower (qm_SHA256 m))
      then Inl (TErr ''quarantine manifest contains invalid file metadata'')
      else case resolveRestoreTarget E (qc_guard Q) (qm_OriginalPath m) of
        Inl e \<Rightarrow> Inl e
      | Inr resolved \<Rightarrow>
          if filepath_Clean resolved \<noteq> filepath_Clean (qm_OriginalPath m)
          then Inl (TErr ''restore target canonical path changed'') else Inr resolved)"

definition FileRestore_Execute ::
  "crypto \<Rightarrow> osenv \<Rightarrow> quarantine_config \<Rightarrow> gmap option \<Rightarrow> world \<Rightarrow> (tool_error, gval) result \<times> world" where
  "FileRestore_Execute C E Q args w =
     (case stringArg args ''quarantine_id'' of
        Inl e \<Rightarrow> (Inl e, w)
      | Inr text \<Rightarrow>
          (let quarantineID = ToLower (TrimSpace text)
           in if \<not> quarantineIDPattern quarantineID then (Inl (TErr ''quarantine_id format is invalid''), w)
              else case loadQuarantineManifest C Q (manifest_path Q quarantineID) w of
                (Inl e, w1) \<Rightarrow> (Inl e, w1)
              | (Inr m, w1) \<Rightarrow>
                  (case restore_target E Q quarantineID m of
                     Inl e \<Rightarrow> (Inl e, w1)
                   | Inr resolved \<Rightarrow> restore_object C m resolved (manifest_path Q quarantineID) w1)))"

definition lift_tool :: "(gmap option \<Rightarrow> world \<Rightarrow> (tool_error, gval) result \<times> world) \<Rightarrow> gmap option \<Rightarrow> host \<Rightarrow> gval tool_result" where
  "lift_tool f args h = (let (r, w) = f args (hs_world h) in (r, h\<lparr>hs_world := w\<rparr>))"

definition FileQuarantine :: "crypto \<Rightarrow> osenv \<Rightarrow> quarantine_config \<Rightarrow> string \<Rightarrow> Tool" where
  "FileQuarantine C E Q rnd =
     \<lparr>tool_Spec = \<lparr>spec_Name = ''file.quarantine'',
        spec_Description = ''Move one allowlisted regular file into the Agent quarantine store after optional SHA-256 pinning'',
        spec_Risk = RiskContain\<rparr>,
      tool_Execute = lift_tool (FileQuarantine_Execute C E Q rnd)\<rparr>"

definition FileRestore :: "crypto \<Rightarrow> osenv \<Rightarrow> quarantine_config \<Rightarrow> Tool" where
  "FileRestore C E Q =
     \<lparr>tool_Spec = \<lparr>spec_Name = ''file.restore'',
        spec_Description = ''Restore one Agent-signed quarantine object to its original allowlisted path'',
        spec_Risk = RiskContain\<rparr>,
      tool_Execute = lift_tool (FileRestore_Execute C E Q)\<rparr>"

section \<open>No step loses the file\<close>

lemma quiet_Sync: "file_Sync q w = (r, w') \<Longrightarrow> quiet p w w'"
  using file_Sync_cases(1,2) by (auto intro!: quiet_nil simp: steps_def)

lemma quiet_Load: "identity_Load kp q w = (r, w') \<Longrightarrow> quiet p w w'"
  by (auto simp: identity_Load_def split: prod.splits sum.splits option.splits dest: quiet_ReadFile)

lemma quiet_Now: "time_Now w = (t, w') \<Longrightarrow> quiet p w w'"
  using time_Now_eqs by (auto intro!: quiet_nil simp: steps_def)

lemma quiet_saveManifest:
  assumes "saveQuarantineManifest C Q path m w = (r, w')" "q \<noteq> path" "q \<noteq> path @ ''.tmp''"
  shows "quiet q w w'"
proof -
  obtain k w1 where l: "identity_Load (qc_parseKey Q) (qc_identityKeyFile Q) w = (k, w1)" by (rule prod.exhaust)
  have q1: "quiet q w w1" by (rule quiet_Load [OF l])
  consider "w' = w1" | c r2 where "tools_writePrivateFile path c w1 = (r2, w')"
    using assms(1) l by (auto simp: saveQuarantineManifest_def split: sum.splits option.splits prod.splits)
  then show ?thesis
  proof cases
    case 1
    then show ?thesis using q1 by simp
  next
    case 2
    have "quiet q w1 w'" using tlf.others [OF 2 assms(2)] assms(3) by simp
    with q1 show ?thesis by (rule quiet_trans)
  qed
qed

text \<open>Copying touches the temporary file only, and fills it with what the source holds.\<close>

lemma fill_temporary_copies:
  assumes "fill_temporary resolved tmp before w = (r, w')" "resolved \<noteq> tmp"
  shows "\<And>q. q \<noteq> tmp \<Longrightarrow> quiet q w w'"
    and "r = Inr c \<Longrightarrow> fs_content (files w) resolved = Some c \<and> fs_content (files w') tmp = Some c"
proof -
  define w0 where "w0 = snd (os_Chmod tmp mode_private w)"
  note run = assms(1) [unfolded fill_temporary_def Let_def, folded w0_def]
  obtain r1 w1 where a1: "os_ReadFile resolved w0 = (r1, w1)" by (rule prod.exhaust)
  have q0: "quiet q w w0" for q unfolding w0_def by (rule quiet_snd_Chmod)
  have q1: "quiet q w w1" for q using quiet_trans [OF q0 quiet_ReadFile [OF a1]] .
  show "quiet q w w'" if "q \<noteq> tmp" for q
  proof (cases r1)
    case (Inl e)
    then have "w' = w1" using run a1 by simp
    then show ?thesis using q1 by simp
  next
    case (Inr c1)
    obtain r2 w2 where a2: "os_WriteFile tmp c1 mode_private w1 = (r2, w2)" by (rule prod.exhaust)
    obtain r3 w3 where a3: "file_Sync tmp w2 = (r3, w3)" by (rule prod.exhaust)
    obtain r4 w4 where a4: "file_Sync tmp w3 = (r4, w4)" by (rule prod.exhaust)
    obtain r5 w5 where a5: "os_Stat resolved w4 = (r5, w5)" by (rule prod.exhaust)
    obtain r6 w6 where a6: "file_Sync resolved w5 = (r6, w6)" by (rule prod.exhaust)
    have q2: "quiet q w w2" using quiet_trans [OF q1 quiet_WriteFile [OF a2 that]] .
    have q3: "quiet q w w3" using quiet_trans [OF q2 quiet_Sync [OF a3]] .
    have q4: "quiet q w w4" using quiet_trans [OF q3 quiet_Sync [OF a4]] .
    have q5: "quiet q w w5" using quiet_trans [OF q4 quiet_Stat [OF a5]] .
    have q6: "quiet q w w6" using quiet_trans [OF q5 quiet_Sync [OF a6]] .
    have "w' \<in> {w2, w3, w4, w5, w6}"
      using run a1 a2 a3 a4 a5 a6 Inr by (auto split: sum.splits if_splits)
    then show ?thesis using q2 q3 q4 q5 q6 by auto
  qed
  show "fs_content (files w) resolved = Some c \<and> fs_content (files w') tmp = Some c" if r: "r = Inr c"
  proof -
    obtain w2 w3 w4 w5 x where s: "r1 = Inr c" "os_WriteFile tmp c mode_private w1 = (Inr (), w2)"
      "file_Sync tmp w2 = (Inr (), w3)" "file_Sync tmp w3 = (Inr (), w4)" "os_Stat resolved w4 = (Inr x, w5)"
      "file_Sync resolved w5 = (Inr (), w')"
      using run a1 r by (auto split: sum.splits if_splits prod.splits)
    have "fs_content (files w0) resolved = Some c"
      using os_ReadFile_cases(3) [OF a1] s(1) by auto
    then have 1: "fs_content (files w) resolved = Some c" using quiet_content [OF q0] by metis
    have "fs_content (files w2) tmp = Some c" by (rule write_content [OF s(2)])
    moreover have "quiet tmp w2 w'"
      using quiet_trans [OF quiet_trans [OF quiet_trans [OF quiet_Sync [OF s(3)] quiet_Sync [OF s(4)]] quiet_Stat [OF s(5)]] quiet_Sync [OF s(6)]] .
    ultimately have "fs_content (files w') tmp = Some c" using quiet_content by metis
    with 1 show ?thesis by blast
  qed
qed

text \<open>The condition of the theorem: the file or its copy in the store holds the content.\<close>

abbreviation kept_somewhere :: "string \<Rightarrow> string \<Rightarrow> string \<Rightarrow> fs \<Rightarrow> bool" where
  "kept_somewhere p q c u \<equiv> fs_content u p = Some c \<or> fs_content u q = Some c"

lemma crash_safe_kept:
  "quiet p w w' \<Longrightarrow> fs_content (files w) p = Some c \<Longrightarrow> crash_safe (kept_somewhere p q c) w w'"
  "quiet q w w' \<Longrightarrow> fs_content (files w) q = Some c \<Longrightarrow> crash_safe (kept_somewhere p q c) w w'"
  by (rule crash_safe_quiet, assumption, simp)+

lemma crash_safe_remove:
  assumes "steps w [EvRemove p] w'" "R (files w)" "R (files w')"
  shows "crash_safe R w w'"
  unfolding crash_safe_def using assms
  by (intro exI [of _ "[EvRemove p]"]) (auto simp: steps_def crashes_Cons)

lemma removed_content:
  assumes "os_Remove p w = (Inr (), w')"
  shows "fs_content (files w') p = None" "steps w [EvRemove p] w'"
  using os_Remove_steps [OF assms] by (auto simp: steps_def fs_simps fs_content_def)

lemma os_Remove_failed: "os_Remove p w = (Inl e, w') \<Longrightarrow> quiet q w w'"
  using os_Remove_steps [of p w "Inl e" w'] by (auto intro: quiet_nil)

lemma publish_keeps:
  assumes "publish C Q resolved m fin man w = (r, w')"
    and "distinct [resolved, fin, man, man @ ''.tmp'']"
    and "fs_content (files w) resolved = Some c" "fs_content (files w) fin = Some c"
  shows "crash_safe (kept_somewhere resolved fin c) w w'
    \<and> (case r of Inl _ \<Rightarrow> fs_content (files w') resolved = Some c
       | Inr _ \<Rightarrow> fs_content (files w') resolved = None \<and> fs_content (files w') fin = Some c)"
proof -
  obtain r1 w1 where sv: "saveQuarantineManifest C Q man m w = (r1, w1)" by (rule prod.exhaust)
  have q: "quiet resolved w w1" "quiet fin w w1" using quiet_saveManifest [OF sv] assms(2) by auto
  have c1: "fs_content (files w1) resolved = Some c" "fs_content (files w1) fin = Some c"
    using quiet_content [OF q(1)] quiet_content [OF q(2)] assms(3,4) by simp_all
  have s1: "crash_safe (kept_somewhere resolved fin c) w w1" by (rule crash_safe_kept(1) [OF q(1) assms(3)])
  have finish: ?thesis if "r = Inl e" "quiet resolved w1 w'" for e
  proof -
    have "crash_safe (kept_somewhere resolved fin c) w w'"
      using crash_safe_trans [OF s1 crash_safe_kept(1) [OF that(2) c1(1)]] .
    then show ?thesis using that quiet_content [OF that(2)] c1(1) by simp
  qed
  obtain r2 w2 where rm: "os_Remove resolved w1 = (r2, w2)" by (rule prod.exhaust)
  show ?thesis
  proof (cases r1)
    case (Inl e)
    then have "r = Inl e" "w' = snd (os_Remove fin w1)" using assms(1) sv by (simp_all add: publish_def)
    then show ?thesis using finish quiet_snd_Remove [of resolved fin w1] assms(2) by auto
  next
    case (Inr u)
    show ?thesis
    proof (cases r2)
      case (Inl e)
      then have r: "r = Inl (TErrOS e)" "w' = snd (os_Remove fin (snd (os_Remove man w2)))"
        using assms(1) sv rm Inr by (simp_all add: publish_def)
      have "quiet resolved w1 w2" using os_Remove_failed rm Inl by blast
      then have "quiet resolved w1 (snd (os_Remove man w2))"
        using quiet_via_snd(1) assms(2) by fastforce
      then have "quiet resolved w1 w'" unfolding r(2) using quiet_via_snd(1) assms(2) by fastforce
      then show ?thesis using finish r(1) by blast
    next
      case (Inr v)
      then have rm': "os_Remove resolved w1 = (Inr (), w2)" and r: "\<exists>x. r = Inr x" "w' = w2"
        using assms(1) sv rm \<open>r1 = Inr u\<close> by (auto simp: publish_def)
      note st = removed_content [OF rm']
      have "fs_content (files w2) fin = Some c"
        using st(2) assms(2) c1(2) by (auto simp: steps_def fs_simps fs_content_def)
      then show ?thesis
        using r st(1) crash_safe_trans [OF s1 crash_safe_remove [OF st(2)]] c1 by auto
    qed
  qed
qed

text \<open>The names a quarantine of \<open>resolved\<close> with content \<open>c\<close> uses, all different: the file is not one of
  the store's own.\<close>

definition store_apart :: "crypto \<Rightarrow> quarantine_config \<Rightarrow> string \<Rightarrow> string \<Rightarrow> string \<Rightarrow> bool" where
  "store_apart C Q tmp resolved c =
     (let i = quarantine_id C resolved (sha_hex C c)
      in distinct [resolved, tmp, object_path Q i, manifest_path Q i, manifest_path Q i @ ''.tmp''])"

abbreviation kept_object :: "crypto \<Rightarrow> quarantine_config \<Rightarrow> string \<Rightarrow> string \<Rightarrow> string" where
  "kept_object C Q resolved c \<equiv> object_path Q (quarantine_id C resolved (sha_hex C c))"

abbreviation outcome_kept :: "crypto \<Rightarrow> quarantine_config \<Rightarrow> string \<Rightarrow> string \<Rightarrow> (tool_error, gval) result \<Rightarrow> fs \<Rightarrow> bool" where
  "outcome_kept C Q resolved c r u \<equiv>
     (case r of Inl _ \<Rightarrow> fs_content u resolved = Some c
      | Inr _ \<Rightarrow> fs_content u resolved = None \<and> fs_content u (kept_object C Q resolved c) = Some c)"

lemma kept_outcome_quiet:
  assumes "quiet resolved w w'" "fs_content (files w) resolved = Some c"
  shows "crash_safe (kept_somewhere resolved obj c) w w' \<and> outcome_kept C Q resolved c (Inl e) (files w')"
  using assms crash_safe_kept(1) quiet_content by fastforce

lemma commit_keeps:
  assumes "commit C Q eh resolved tmp before c w = ((r, done), w')"
    and apart: "store_apart C Q tmp resolved c"
    and c: "fs_content (files w) resolved = Some c" "fs_content (files w) tmp = Some c"
  shows "crash_safe (kept_somewhere resolved (kept_object C Q resolved c) c) w w'
    \<and> outcome_kept C Q resolved c r (files w') \<and> (done \<or> (\<exists>e. r = Inl e))"
proof -
  let ?i = "quarantine_id C resolved (sha_hex C c)"
  let ?fin = "object_path Q ?i" and ?man = "manifest_path Q ?i"
  have d: "distinct [resolved, ?fin, ?man, ?man @ ''.tmp'']" "resolved \<noteq> tmp" "tmp \<noteq> ?fin"
    using apart by (auto simp: store_apart_def Let_def)
  obtain r1 w1 where st: "os_Stat ?man w = (r1, w1)" by (rule prod.exhaust)
  obtain r2 w2 where rn: "os_Rename tmp ?fin w1 = (r2, w2)" by (rule prod.exhaust)
  have q1: "quiet q w w1" for q by (rule quiet_Stat [OF st])
  have q2: "quiet resolved w w2" using quiet_trans [OF q1 quiet_Rename [OF rn]] d by auto
  show ?thesis
  proof (cases "(eh \<noteq> [] \<and> sha_hex C c \<noteq> eh) \<or> r1 \<noteq> Inl ErrNotExist \<or> (\<exists>e. r2 = Inl e)")
    case True
    then have "\<exists>e. r = Inl e \<and> w' \<in> {w, w1, w2}"
      using assms(1) st rn
      by (cases r1; cases r2) (auto simp: commit_def Let_def split: if_splits)
    then obtain e where e: "r = Inl e" "w' \<in> {w, w1, w2}" by blast
    then have "quiet resolved w w'" using q1 q2 by auto
    from kept_outcome_quiet [OF this c(1)] show ?thesis using e(1) by blast
  next
    case False
    then have r1: "r1 = Inl ErrNotExist" and rn': "os_Rename tmp ?fin w1 = (Inr (), w2)"
      using rn by (cases r2; auto)+
    obtain now w3 where t: "time_Now w2 = (now, w3)" by (rule prod.exhaust)
    from assms(1) False st rn' r1 t obtain m where p: "publish C Q resolved m ?fin ?man w3 = (r, w')" "done"
      by (auto simp: commit_def Let_def split: if_splits prod.splits)
    have q3: "quiet q w2 w3" for q by (rule quiet_Now [OF t])
    have "fs_content (files w1) tmp = Some c" using quiet_content [OF q1] c(2) by simp
    then have "fs_content (files w2) ?fin = Some c" using rename_installs(1) [OF rn'] by simp
    then have c3: "fs_content (files w3) ?fin = Some c" "fs_content (files w3) resolved = Some c"
      using quiet_content [OF q3] quiet_content [OF q2] c(1) by simp_all
    have "crash_safe (kept_somewhere resolved ?fin c) w w3"
      using crash_safe_kept(1) [OF quiet_trans [OF q2 q3] c(1)] .
    then show ?thesis
      using publish_keeps [OF p(1) d(1) c3(2,1)] p(2) by (blast intro: crash_safe_trans)
  qed
qed

section \<open>Properties of the quarantine\<close>

text \<open>C7. Quarantining never loses the file: in every state a crash can leave behind, whichever system
  call fails and wherever the process dies, the file's content is still at its path or complete in the
  store. If the tool reports an error the file is where it was; if it reports success the file is gone
  from its path and its content is in the store.\<close>

theorem quarantine_never_loses_the_file:
  assumes "FileQuarantine_Execute C E Q rnd args w = (r, w')"
    and "path_arg E (qc_guard Q) args = Inr resolved" and "fs_content (files w) resolved = Some c"
    and "store_apart C Q (filepath_Join [quarantine_dir Q, ''.incoming-'' @ rnd]) resolved c"
  shows "crash_safe (\<lambda>u. fs_content u resolved = Some c
      \<or> fs_content u (object_path Q (quarantine_id C resolved (sha_hex C c))) = Some c) w w'
    \<and> (case r of
         Inl _ \<Rightarrow> fs_content (files w') resolved = Some c
       | Inr _ \<Rightarrow> fs_content (files w') resolved = None
           \<and> fs_content (files w') (object_path Q (quarantine_id C resolved (sha_hex C c))) = Some c)"
proof -
  let ?tmp = "filepath_Join [quarantine_dir Q, ''.incoming-'' @ rnd]"
  let ?goal = "crash_safe (kept_somewhere resolved (kept_object C Q resolved c) c) w w'
    \<and> outcome_kept C Q resolved c r (files w')"
  have d: "resolved \<noteq> ?tmp" using assms(4) by (auto simp: store_apart_def Let_def)
  have early: ?goal if "r = Inl e" "quiet resolved w w'" for e
    using kept_outcome_quiet [OF that(2) assms(3)] that(1) by simp
  show ?thesis
  proof (cases "expected_hash args")
    case (Inl e)
    then have "r = Inl e" "w' = w" using assms(1,2) by (simp_all add: FileQuarantine_Execute_def)
    then show ?thesis using early [of e] by simp
  next
    case (Inr eh)
    obtain r1 w1 where st: "os_Stat resolved w = (r1, w1)" by (rule prod.exhaust)
    obtain r2 w2 where mk: "os_MkdirAll (quarantine_dir Q) mode_private_dir w1 = (r2, w2)" by (rule prod.exhaust)
    obtain r3 w3 where cr: "os_WriteFile ?tmp [] mode_private w2 = (r3, w3)" by (rule prod.exhaust)
    note run = assms(1) [unfolded FileQuarantine_Execute_def Let_def assms(2) Inr sum.case st prod.case]
    have q: "quiet resolved w w1" "quiet resolved w w2" "quiet resolved w w3"
      using quiet_Stat [OF st] quiet_MkdirAll [OF mk] quiet_WriteFile [OF cr d] by (blast intro: quiet_trans)+
    show ?thesis
    proof (cases "(\<exists>e. r1 = Inl e) \<or> (\<exists>e. r2 = Inl e) \<or> (\<exists>e. r3 = Inl e)")
      case True
      then have "\<exists>e. r = Inl e \<and> w' \<in> {w1, w2, w3}"
        using run mk cr by (cases r1; cases r2; cases r3) auto
      then show ?thesis using early q by blast
    next
      case False
      then obtain before where ok: "r1 = Inr before" "r2 = Inr ()" "r3 = Inr ()"
        by (cases r1; cases r2; cases r3) auto
      obtain r4 w4 where fi: "fill_temporary resolved ?tmp before w3 = (r4, w4)" by (rule prod.exhaust)
      note f = fill_temporary_copies [OF fi d]
      have q4: "quiet resolved w w4" using quiet_trans [OF q(3) f(1) [OF d]] .
      show ?thesis
      proof (cases r4)
        case (Inl e)
        then have "r = Inl e" "w' = snd (os_Remove ?tmp w4)" using run ok mk cr fi by simp_all
        then show ?thesis using early quiet_via_snd(1) [OF q4 d] by simp
      next
        case (Inr c')
        have "c' = c" using f(2) [OF Inr] quiet_content [OF q(3)] assms(3) by simp
        then have c4: "fs_content (files w4) resolved = Some c" "fs_content (files w4) ?tmp = Some c"
          using f(2) [OF Inr] quiet_content [OF q4] assms(3) by simp_all
        obtain r5 dn w5 where cm: "commit C Q eh resolved ?tmp before c w4 = ((r5, dn), w5)"
          by (metis surj_pair)
        note k = commit_keeps [OF cm assms(4) c4]
        have r: "r = r5" "w' = (if dn then w5 else snd (os_Remove ?tmp w5))"
          using run ok mk cr fi Inr \<open>c' = c\<close> cm by simp_all
        have s5: "crash_safe (kept_somewhere resolved (kept_object C Q resolved c) c) w w5"
          using crash_safe_trans [OF crash_safe_kept(1) [OF q4 assms(3)]] k by blast
        show ?thesis
        proof (cases dn)
          case True
          then have "w' = w5" using r(2) by simp
          then show ?thesis unfolding r(1) using s5 k by blast
        next
          case False
          then obtain e where e: "r5 = Inl e" using k by blast
          have c5: "fs_content (files w5) resolved = Some c" using k e by simp
          have "quiet resolved w5 w'" using r(2) False quiet_snd_Remove [OF d] by simp
          from kept_outcome_quiet [OF this c5] show ?thesis
            using r(1) e crash_safe_trans [OF s5] by auto
        qed
      qed
    qed
  qed
qed

text \<open>A file under the root \<open>/d\<close> and a store in \<open>/q\<close>.\<close>

definition demo_quarantine :: quarantine_config where
  "demo_quarantine =
     \<lparr>qc_guard = [''/d''], qc_dataDir = ''/q'', qc_identityKeyFile = ''/k'', qc_parseKey = Some,
      qc_codec = \<lparr>mc_Marshal = (\<lambda>m. Some (qm_SHA256 m)), mc_MarshalIndent = (\<lambda>m. Some (qm_SHA256 m)),
        mc_DecodeStrict = (\<lambda>_. None)\<rparr>\<rparr>"

definition demo_disk :: world where
  "demo_disk = \<lparr>files = [(''/d/x'', \<lparr>content = ''hi'', perm = 420, mtime = 5\<rparr>),
       (''/k'', \<lparr>content = ''key'', perm = 384, mtime = 1\<rparr>)],
     faults = [], events = [], clock = 9, clock_steps = []\<rparr>"

definition demo_args :: "gmap option" where
  "demo_args = Some [(''path'', VString ''/d/x'')]"

lemma demo_path: "path_arg demo_env (qc_guard demo_quarantine) demo_args = Inr ''/d/x''"
  by code_simp

lemma demo_apart: "store_apart toy_crypto demo_quarantine (filepath_Join [quarantine_dir demo_quarantine, ''.incoming-'' @ ''1'']) ''/d/x'' ''hi''"
  by code_simp

theorem quarantine_never_loses_the_file_witness:
  "\<exists>r w'. FileQuarantine_Execute toy_crypto demo_env demo_quarantine ''1'' demo_args demo_disk = (r, w')
     \<and> (case r of
         Inl _ \<Rightarrow> fs_content (files w') ''/d/x'' = Some ''hi''
       | Inr _ \<Rightarrow> fs_content (files w') ''/d/x'' = None
           \<and> fs_content (files w') (object_path demo_quarantine (quarantine_id toy_crypto ''/d/x'' (sha_hex toy_crypto ''hi''))) = Some ''hi'')"
proof -
  obtain r w' where ex: "FileQuarantine_Execute toy_crypto demo_env demo_quarantine ''1'' demo_args demo_disk = (r, w')"
    by (rule prod.exhaust)
  have "fs_content (files demo_disk) ''/d/x'' = Some ''hi''" by (simp add: demo_disk_def fs_content_def fs_get_def)
  from quarantine_never_loses_the_file [OF ex demo_path this demo_apart] show ?thesis using ex by blast
qed

text \<open>Steps of a restore.\<close>

lemma quiet_loadManifest:
  assumes "loadQuarantineManifest C Q path w = (r, w')"
  shows "quiet p w w'"
proof -
  obtain r1 w1 where rd: "os_ReadFile path w = (r1, w1)" by (rule prod.exhaust)
  obtain k w2 where ld: "identity_Load (qc_parseKey Q) (qc_identityKeyFile Q) w1 = (k, w2)" by (rule prod.exhaust)
  have "w' \<in> {w1, w2}"
    using assms rd ld
    by (auto simp: loadQuarantineManifest_def split: sum.splits option.splits if_splits)
  then show ?thesis using quiet_ReadFile [OF rd] quiet_trans [OF quiet_ReadFile [OF rd] quiet_Load [OF ld]] by auto
qed

lemma loadManifest_ok:
  assumes "loadQuarantineManifest C Q path w = (Inr m, w')"
  obtains doc key payload signature where "fs_content (files w) path = Some doc"
    "mc_DecodeStrict (qc_codec Q) doc = Some m" "qm_Schema m = quarantineSchema"
    "quarantineManifestBytes (qc_codec Q) m = Some payload" "b64_DecodeString (qm_Signature m) = Some signature"
    "\<exists>pem. fs_content (files w) (qc_identityKeyFile Q) = Some pem \<and> qc_parseKey Q pem = Some key"
    "ed25519_Verify C (ed25519_Public C key) payload signature"
proof -
  obtain r1 w1 where rd: "os_ReadFile path w = (r1, w1)" by (rule prod.exhaust)
  obtain doc where t: "r1 = Inr doc" using assms rd by (cases r1) (auto simp: loadQuarantineManifest_def)
  from assms rd t obtain key w2 payload signature where s:
    "mc_DecodeStrict (qc_codec Q) doc = Some m" "qm_Schema m = quarantineSchema"
    "quarantineManifestBytes (qc_codec Q) m = Some payload" "b64_DecodeString (qm_Signature m) = Some signature"
    "identity_Load (qc_parseKey Q) (qc_identityKeyFile Q) w1 = (Inr key, w2)"
    "ed25519_Verify C (ed25519_Public C key) payload signature"
    by (auto simp: loadQuarantineManifest_def split: sum.splits option.splits if_splits prod.splits)
  have "fs_content (files w) path = Some doc" using os_ReadFile_cases(3) [OF rd] t by auto
  moreover have "\<exists>pem. fs_content (files w) (qc_identityKeyFile Q) = Some pem \<and> qc_parseKey Q pem = Some key"
  proof -
    obtain r3 w3 where rk: "os_ReadFile (qc_identityKeyFile Q) w1 = (r3, w3)" by (rule prod.exhaust)
    show ?thesis using os_ReadFile_cases(3) [OF rk] s(5) os_ReadFile_cases(1) [OF rd]
      by (auto simp: identity_Load_def rk split: sum.splits option.splits)
  qed
  ultimately show thesis using that s by blast
qed

lemma fill_restored_copies:
  assumes "fill_restored C m resolved w = (r, w')"
  shows "\<And>q. q \<noteq> resolved \<Longrightarrow> quiet q w w'"
    and "r = Inr u \<Longrightarrow> \<exists>c. fs_content (files w) (qm_QuarantinePath m) = Some c
       \<and> fs_content (files w') resolved = Some c \<and> int (length c) = qm_Size m \<and> EqualFold (sha_hex C c) (qm_SHA256 m)"
proof -
  obtain r1 w1 where a1: "os_ReadFile (qm_QuarantinePath m) w = (r1, w1)" by (rule prod.exhaust)
  have q1: "quiet q w w1" for q by (rule quiet_ReadFile [OF a1])
  show "quiet q w w'" if "q \<noteq> resolved" for q
  proof (cases r1)
    case (Inl e)
    then show ?thesis using assms a1 q1 by (simp add: fill_restored_def)
  next
    case (Inr c)
    obtain r2 w2 where a2: "os_WriteFile resolved c (qm_OriginalMode m) w1 = (r2, w2)" by (rule prod.exhaust)
    obtain r3 w3 where a3: "file_Sync resolved w2 = (r3, w3)" by (rule prod.exhaust)
    obtain r4 w4 where a4: "file_Sync resolved w3 = (r4, w4)" by (rule prod.exhaust)
    obtain r5 w5 where a5: "file_Sync (qm_QuarantinePath m) w4 = (r5, w5)" by (rule prod.exhaust)
    have q2: "quiet q w w2" using quiet_trans [OF q1 quiet_WriteFile [OF a2 that]] .
    have q3: "quiet q w w3" using quiet_trans [OF q2 quiet_Sync [OF a3]] .
    have q4: "quiet q w w4" using quiet_trans [OF q3 quiet_Sync [OF a4]] .
    have q5: "quiet q w w5" using quiet_trans [OF q4 quiet_Sync [OF a5]] .
    have "w' \<in> {w2, w3, w4, w5}"
      using assms a1 a2 a3 a4 a5 Inr by (auto simp: fill_restored_def split: sum.splits if_splits)
    then show ?thesis using q2 q3 q4 q5 by auto
  qed
  show "\<exists>c. fs_content (files w) (qm_QuarantinePath m) = Some c
       \<and> fs_content (files w') resolved = Some c \<and> int (length c) = qm_Size m \<and> EqualFold (sha_hex C c) (qm_SHA256 m)"
    if r: "r = Inr u"
  proof -
    obtain c w2 w3 w4 where s: "r1 = Inr c" "os_WriteFile resolved c (qm_OriginalMode m) w1 = (Inr (), w2)"
      "file_Sync resolved w2 = (Inr (), w3)" "file_Sync resolved w3 = (Inr (), w4)"
      "file_Sync (qm_QuarantinePath m) w4 = (Inr (), w')"
      "int (length c) = qm_Size m" "EqualFold (sha_hex C c) (qm_SHA256 m)"
      using assms a1 r by (auto simp: fill_restored_def split: sum.splits if_splits prod.splits)
    have "fs_content (files w2) resolved = Some c" by (rule write_content [OF s(2)])
    then have "fs_content (files w') resolved = Some c"
      using file_Sync_cases(1) [OF s(3)] file_Sync_cases(1) [OF s(4)] file_Sync_cases(1) [OF s(5)] by simp
    then show ?thesis using s os_ReadFile_cases(3) [OF a1] by auto
  qed
qed

text \<open>The two outcomes: nothing that existed has changed, or the object was copied to a target that did
  not exist.\<close>

definition restore_refused :: "world \<Rightarrow> world \<Rightarrow> bool" where
  "restore_refused w w' = (\<forall>p. fs_content (files w) p \<noteq> None \<longrightarrow> fs_content (files w') p = fs_content (files w) p)"

definition restore_done :: "crypto \<Rightarrow> quarantineManifest \<Rightarrow> string \<Rightarrow> string \<Rightarrow> world \<Rightarrow> world \<Rightarrow> bool" where
  "restore_done C m resolved man w w' =
     (fs_content (files w) resolved = None
      \<and> (\<exists>c. fs_content (files w) (qm_QuarantinePath m) = Some c \<and> fs_content (files w') resolved = Some c
           \<and> int (length c) = qm_Size m \<and> EqualFold (sha_hex C c) (qm_SHA256 m))
      \<and> (\<forall>p. p \<notin> {resolved, qm_QuarantinePath m, man} \<longrightarrow> fs_content (files w') p = fs_content (files w) p))"

lemma restore_refused_quiet: "(\<And>p. fs_content (files w) p \<noteq> None \<Longrightarrow> quiet p w w') \<Longrightarrow> restore_refused w w'"
  by (auto simp: restore_refused_def dest: quiet_content)

lemma os_CreateExcl_ok:
  assumes "os_CreateExcl p m w = (r, w')"
  shows "(\<exists>e. r = Inl e \<and> (\<forall>q. quiet q w w')) \<or> (r = Inr () \<and> fs_get (files w) p = None \<and> (\<forall>q. q \<noteq> p \<longrightarrow> quiet q w w'))"
proof -
  obtain f w1 where nf: "next_fault w = (f, w1)" by (cases "next_fault w")
  note e = next_fault_eqs [OF nf]
  have "steps w [EvWrite p [] m (clock w1)] (emit (EvWrite p [] m (clock w1)) w1)" "steps w [] w1"
    using e by (simp_all add: steps_def emit_def)
  then show ?thesis using assms nf e
    by (auto simp: os_CreateExcl_def Let_def split: if_splits intro: quiet_nil quiet_one harmless_other)
qed

lemma content_iff_get: "fs_content s p = None \<longleftrightarrow> fs_get s p = None"
  by (simp add: fs_content_def)

lemma other_content_Remove:
  assumes "os_Remove p w = (r, w')" "q \<noteq> p"
  shows "fs_content (files w') q = fs_content (files w) q"
  using quiet_content [OF quiet_Remove [OF assms(1)]] assms(2) by simp

lemma restore_object_safe:
  assumes "restore_object C m resolved man w = (r, w')" "fs_content (files w) man \<noteq> None"
  shows "(restore_refused w w' \<and> (\<exists>e. r = Inl e)) \<or> restore_done C m resolved man w w'"
proof -
  let ?obj = "qm_QuarantinePath m"
  obtain r1 w1 where st: "os_Stat ?obj w = (r1, w1)" by (rule prod.exhaust)
  obtain r2 w2 where cr: "os_CreateExcl resolved (qm_OriginalMode m) w1 = (r2, w2)" by (rule prod.exhaust)
  have q1: "quiet q w w1" for q by (rule quiet_Stat [OF st])
  show ?thesis
  proof (cases "(\<exists>e. r1 = Inl e) \<or> (\<exists>e. r2 = Inl e)")
    case True
    then have "\<exists>e. r = Inl e" "w' = w1 \<or> w' = w2 \<and> (\<exists>e. r2 = Inl e)"
      using assms(1) st cr by (cases r1; cases r2; auto simp: restore_object_def)+
    moreover have "quiet q w w2" if "r2 = Inl e" for q e
      using os_CreateExcl_ok [OF cr] that quiet_trans [OF q1] by blast
    ultimately show ?thesis using q1 by (blast intro: restore_refused_quiet)
  next
    case False
    then obtain x where ok: "r1 = Inr x" "r2 = Inr ()" by (cases r1; cases r2) auto
    then have new: "fs_get (files w1) resolved = None" and q2': "\<And>q. q \<noteq> resolved \<Longrightarrow> quiet q w1 w2"
      using os_CreateExcl_ok [OF cr] by blast+
    have absent: "fs_content (files w) resolved = None"
      using new os_Stat_cases(1) [OF st] by (simp add: content_iff_get)
    have obj: "fs_content (files w) ?obj \<noteq> None"
      using os_Stat_cases(4) [OF st] ok(1) by (auto simp: content_iff_get)
    have ne: "resolved \<noteq> ?obj" "resolved \<noteq> man" using absent obj assms(2) by auto
    have q2: "quiet q w w2" if "q \<noteq> resolved" for q using quiet_trans [OF q1 q2' [OF that]] .
    obtain r3 w3 where fi: "fill_restored C m resolved w2 = (r3, w3)" by (rule prod.exhaust)
    note f = fill_restored_copies [OF fi]
    have q3: "quiet q w w3" if "q \<noteq> resolved" for q using quiet_trans [OF q2 [OF that] f(1) [OF that]] .
    show ?thesis
    proof (cases r3)
      case (Inl e)
      then have r: "r = Inl e" "w' = snd (os_Remove resolved w3)"
        using assms(1) st cr fi ok by (simp_all add: restore_object_def)
      have "quiet p w w'" if "fs_content (files w) p \<noteq> None" for p
        unfolding r(2) by (rule quiet_via_snd(1) [OF q3]) (use that absent in auto)
      then show ?thesis using r(1) restore_refused_quiet by blast
    next
      case (Inr u)
      then obtain c where c: "fs_content (files w2) ?obj = Some c" "fs_content (files w3) resolved = Some c"
        "int (length c) = qm_Size m" "EqualFold (sha_hex C c) (qm_SHA256 m)" using f(2) by blast
      have c0: "fs_content (files w) ?obj = Some c" using c(1) quiet_content [OF q2] ne(1) by metis
      define w4 where "w4 = snd (os_Chmod resolved (qm_OriginalMode m) w3)"
      have q4: "quiet q w3 w4" for q unfolding w4_def by (rule quiet_snd_Chmod)
      obtain r5 w5 where r5: "os_Remove ?obj w4 = (r5, w5)" by (rule prod.exhaust)
      obtain r6 w6 where r6: "os_Remove man w5 = (r6, w6)" by (rule prod.exhaust)
      have "w' \<in> {w5, w6}"
        using assms(1) [unfolded restore_object_def Let_def] st cr fi ok Inr r5 r6
        by (cases r5; cases r6) (simp_all add: w4_def)
      moreover have "fs_content (files w5) q = fs_content (files w3) q" if "q \<noteq> ?obj" for q
        using other_content_Remove [OF r5 that] quiet_content [OF q4] by metis
      moreover from this have "fs_content (files w6) q = fs_content (files w3) q" if "q \<noteq> ?obj" "q \<noteq> man" for q
        using other_content_Remove [OF r6 that(2)] that(1) by metis
      ultimately have same: "fs_content (files w') q = fs_content (files w3) q" if "q \<noteq> ?obj" "q \<noteq> man" for q
        using that by blast
      have "fs_content (files w') p = fs_content (files w) p" if "p \<notin> {resolved, ?obj, man}" for p
        using same [of p] quiet_content [OF q3 [of p]] that by simp
      then have "restore_done C m resolved man w w'"
        unfolding restore_done_def using absent c0 c(2-4) same [of resolved] ne by metis
      then show ?thesis ..
    qed
  qed
qed



end
