(* ===== verification/Containment.thy ===== *)
theory Containment
  imports Registry Quarantine
begin

text \<open>
  The Linux firewall backend (\<open>tools/containment_linux.go\<close>), the signed ownership state it keeps
  (\<open>tools/containment_common.go\<close>), and the registry of response tools. \<open>nft\<close> is a program outside
  the repository: \<open>ne_Run\<close> says, for the commands run so far, whether the last one succeeded. URL
  parsing, name lookup and the text form of addresses are further parameters.
\<close>

section \<open>Parameters and options\<close>

record netenv =
  ne_Run :: "(string list \<times> string) list \<Rightarrow> bool"
  ne_ParseURL :: "string \<Rightarrow> (string \<times> string \<times> string) option"
  ne_Lookup :: "string \<Rightarrow> addr list option"
  ne_String :: "addr \<Rightarrow> string"

record ContainmentOptions =
  co_DataDir :: string
  co_IdentityKeyFile :: string
  co_ControlEndpoint :: string
  co_AllowedPaths :: "string list"

record signedContainmentState =
  cs_Schema :: string
  cs_Kind :: string
  cs_CreatedAt :: gtime
  cs_Data :: gmap
  cs_Signature :: string

record containment_codec =
  cc_Marshal :: "signedContainmentState \<Rightarrow> string option"
  cc_MarshalIndent :: "signedContainmentState \<Rightarrow> string option"
  cc_DecodeStrict :: "string \<Rightarrow> signedContainmentState option"

definition containmentStateSchema :: string where "containmentStateSchema = ''ntagentshield-containment-state/v1''"
definition linuxIsolationTable :: string where "linuxIsolationTable = ''ntshield_isolation''"
definition linuxBlockTable :: string where "linuxBlockTable = ''ntshield_block''"

record linuxNetworkBackend =
  lb_dataDir :: string
  lb_identityKeyFile :: string
  lb_controlEndpoint :: string
  lb_parseKey :: "string \<Rightarrow> string option"
  lb_codec :: containment_codec

definition newNetworkContainmentBackend ::
  "(string \<Rightarrow> string option) \<Rightarrow> containment_codec \<Rightarrow> ContainmentOptions \<Rightarrow> (tool_error, linuxNetworkBackend) result" where
  "newNetworkContainmentBackend kp M opts =
     (if co_DataDir opts = [] \<or> co_IdentityKeyFile opts = [] \<or> co_ControlEndpoint opts = []
      then Inl (TErr ''network containment requires data directory, Agent identity key, and Control Plane endpoint'')
      else Inr \<lparr>lb_dataDir = co_DataDir opts, lb_identityKeyFile = co_IdentityKeyFile opts,
                lb_controlEndpoint = co_ControlEndpoint opts, lb_parseKey = kp, lb_codec = M\<rparr>)"

definition isolationStatePath :: "linuxNetworkBackend \<Rightarrow> string" where
  "isolationStatePath b = filepath_Join [lb_dataDir b, ''containment'', ''host-isolation.json'']"

definition blockStatePath :: "linuxNetworkBackend \<Rightarrow> string" where
  "blockStatePath b = filepath_Join [lb_dataDir b, ''containment'', ''firewall-block-linux.json'']"

section \<open>Signed ownership state\<close>

definition containmentStateBytes :: "containment_codec \<Rightarrow> signedContainmentState \<Rightarrow> string option" where
  "containmentStateBytes M st = cc_Marshal M (st\<lparr>cs_Signature := []\<rparr>)"

text \<open>An error of \<open>identity.Load\<close> is wrapped, so that a missing key file is still \<open>os.ErrNotExist\<close>.\<close>

definition wrap_identity :: "identity_error \<Rightarrow> tool_error" where
  "wrap_identity e = (case e of IdErrOS o1 \<Rightarrow> TErrOS o1 | _ \<Rightarrow> TErr ''load Agent identity for containment state'')"

definition saveSignedContainmentState ::
  "crypto \<Rightarrow> linuxNetworkBackend \<Rightarrow> string \<Rightarrow> string \<Rightarrow> gmap \<Rightarrow> world \<Rightarrow> (tool_error, unit) result \<times> world" where
  "saveSignedContainmentState C b path kind data w =
     (case identity_Load (lb_parseKey b) (lb_identityKeyFile b) w of
        (Inl e, w1) \<Rightarrow> (Inl (wrap_identity e), w1)
      | (Inr key, w1) \<Rightarrow>
          (let (now, w2) = time_Now w1;
               st = \<lparr>cs_Schema = containmentStateSchema, cs_Kind = kind, cs_CreatedAt = now, cs_Data = data, cs_Signature = []\<rparr>
           in case containmentStateBytes (lb_codec b) st of
                None \<Rightarrow> (Inl (TErr ''json''), w2)
              | Some plain \<Rightarrow>
                  (case cc_MarshalIndent (lb_codec b) (st\<lparr>cs_Signature := b64_EncodeToString (ed25519_Sign C key plain)\<rparr>) of
                     None \<Rightarrow> (Inl (TErr ''json''), w2)
                   | Some encoded \<Rightarrow>
                       (case tools_writePrivateFile path (encoded @ [newline]) w2 of
                          (Inl e, w3) \<Rightarrow> (Inl (TErrOS e), w3)
                        | (Inr _, w3) \<Rightarrow> (Inr (), w3)))))"

definition loadSignedContainmentState ::
  "crypto \<Rightarrow> linuxNetworkBackend \<Rightarrow> string \<Rightarrow> string \<Rightarrow> world \<Rightarrow> (tool_error, signedContainmentState) result \<times> world" where
  "loadSignedContainmentState C b path expectedKind w =
     (case os_ReadFile path w of
        (Inl e, w1) \<Rightarrow> (Inl (TErrOS e), w1)
      | (Inr c, w1) \<Rightarrow>
          (case cc_DecodeStrict (lb_codec b) c of
             None \<Rightarrow> (Inl (TErr ''decode containment state''), w1)
           | Some st \<Rightarrow>
               if cs_Schema st \<noteq> containmentStateSchema \<or> cs_Kind st \<noteq> expectedKind
               then (Inl (TErr ''containment state schema/kind mismatch''), w1)
               else case b64_DecodeString (cs_Signature st) of
                 None \<Rightarrow> (Inl (TErr ''decode containment state signature''), w1)
               | Some signature \<Rightarrow>
                   (case identity_Load (lb_parseKey b) (lb_identityKeyFile b) w1 of
                      (Inl e, w2) \<Rightarrow> (Inl (wrap_identity e), w2)
                    | (Inr key, w2) \<Rightarrow>
                        (case containmentStateBytes (lb_codec b) st of
                           None \<Rightarrow> (Inl (TErr ''json''), w2)
                         | Some plain \<Rightarrow>
                             if \<not> ed25519_Verify C (ed25519_Public C key) plain signature
                             then (Inl (TErr ''containment state signature verification failed''), w2)
                             else (Inr st, w2)))))"

section \<open>Control-plane targets\<close>

record controlTarget =
  ct_IP :: addr
  ct_Port :: nat

text \<open>\<open>net.JoinHostPort\<close> brackets a host that contains a colon.\<close>

definition target_String :: "netenv \<Rightarrow> controlTarget \<Rightarrow> string" where
  "target_String N t =
     (let h = ne_String N (ct_IP t)
      in (if CHR '':'' \<in> set h then ''['' @ h @ '']'' else h) @ '':'' @ nat_digits (ct_Port t))"

text \<open>\<open>strconv.ParseUint(text, 10, 16)\<close> on digits.\<close>

definition digit_value :: "char \<Rightarrow> nat" where "digit_value c = of_char c - 48"

definition parse_port :: "string \<Rightarrow> nat option" where
  "parse_port s =
     (if s \<noteq> [] \<and> list_all (\<lambda>c. c \<in> set ''0123456789'') s
      then let v = foldl (\<lambda>n c. 10 * n + digit_value c) 0 s in if v < 65536 then Some v else None
      else None)"

fun distinct_targets :: "netenv \<Rightarrow> nat \<Rightarrow> string list \<Rightarrow> addr list \<Rightarrow> controlTarget list" where
  "distinct_targets N port seen [] = []"
| "distinct_targets N port seen (a # as) =
     (let a' = Unmap a; key = ne_String N a'
      in if key \<in> set seen then distinct_targets N port seen as
         else \<lparr>ct_IP = a', ct_Port = port\<rparr> # distinct_targets N port (key # seen) as)"

definition resolveControlTargets ::
  "osenv \<Rightarrow> netenv \<Rightarrow> string \<Rightarrow> (tool_error, controlTarget list) result" where
  "resolveControlTargets E N endpoint =
     (case ne_ParseURL N (TrimSpace endpoint) of
        None \<Rightarrow> Inl (TErr ''parse control endpoint'')
      | Some (scheme, hostname, port0) \<Rightarrow>
          if scheme \<noteq> ''https'' then Inl (TErr ''host isolation requires an https control endpoint'')
          else if hostname = [] then Inl (TErr ''control endpoint hostname is required'')
          else case (if port0 = [] then Some 443 else parse_port port0) of
            None \<Rightarrow> Inl (TErr ''control endpoint port is invalid'')
          | Some port \<Rightarrow>
              if port = 0 then Inl (TErr ''control endpoint port is invalid'')
              else case env_ParseAddr E hostname of
                Some a \<Rightarrow> Inr [\<lparr>ct_IP = Unmap a, ct_Port = port\<rparr>]
              | None \<Rightarrow>
                  (case ne_Lookup N hostname of
                     None \<Rightarrow> Inl (TErr ''resolve control endpoint before isolation'')
                   | Some addresses \<Rightarrow>
                       (let targets = distinct_targets N port [] addresses
                        in if targets = [] then Inl (TErr ''control endpoint resolved to no usable IP addresses'')
                           else Inr targets)))"

definition controlTargetStrings :: "netenv \<Rightarrow> controlTarget list \<Rightarrow> string list" where
  "controlTargetStrings N targets = map (target_String N) targets"

section \<open>Running nft\<close>

definition run_cmd :: "netenv \<Rightarrow> string \<Rightarrow> string list \<Rightarrow> host \<Rightarrow> bool \<times> host" where
  "run_cmd N input argv h =
     (let cmds = hs_cmds h @ [(argv, input)] in (ne_Run N cmds, h\<lparr>hs_cmds := cmds\<rparr>))"

definition nft_list :: "string \<Rightarrow> string list" where "nft_list table = [''nft'', ''list'', ''table'', ''inet'', table]"
definition nft_delete :: "string \<Rightarrow> string list" where "nft_delete table = [''nft'', ''delete'', ''table'', ''inet'', table]"
definition nft_version :: "string list" where "nft_version = [''nft'', ''--version'']"
definition nft_script :: "string list" where "nft_script = [''nft'', ''-f'', ''-'']"

definition nft_element :: "string \<Rightarrow> string \<Rightarrow> string \<Rightarrow> string list" where
  "nft_element verb familySet a = [''nft'', verb, ''element'', ''inet'', linuxBlockTable, familySet, ''{'', a, ''}'']"

definition text_line :: "string \<Rightarrow> string" where "text_line s = s @ [newline]"

definition target_rule :: "netenv \<Rightarrow> controlTarget \<Rightarrow> string" where
  "target_rule N t =
     text_line ((if Is6 (ct_IP t) then ''        ip6 daddr '' else ''        ip daddr '') @ ne_String N (ct_IP t)
       @ '' tcp dport '' @ nat_digits (ct_Port t) @ '' accept'')"

definition linuxIsolationScript :: "netenv \<Rightarrow> controlTarget list \<Rightarrow> string" where
  "linuxIsolationScript N targets =
     concat (map text_line [''table inet ntshield_isolation {'', ''    chain input {'',
       ''        type filter hook input priority -300; policy drop;'', ''        iifname \"lo\" accept'',
       ''        ct state established,related accept'', ''        udp sport 67 udp dport 68 accept'', ''    }'',
       ''    chain output {'', ''        type filter hook output priority -300; policy drop;'',
       ''        oifname \"lo\" accept'', ''        ct state established,related accept''])
     @ concat (map (target_rule N) targets)
     @ concat (map text_line [''        udp dport 53 accept'', ''        tcp dport 53 accept'',
       ''        udp sport 68 udp dport 67 accept'', ''    }'', ''}''])"

definition block_script :: string where
  "block_script =
     concat (map text_line [''table inet ntshield_block {'', ''    set blocked4 { type ipv4_addr; }'',
       ''    set blocked6 { type ipv6_addr; }'', ''    chain input {'',
       ''        type filter hook input priority -250; policy accept;'', ''        ip saddr @blocked4 drop'',
       ''        ip6 saddr @blocked6 drop'', ''    }'', ''    chain output {'',
       ''        type filter hook output priority -250; policy accept;'', ''        ip daddr @blocked4 drop'',
       ''        ip6 daddr @blocked6 drop'', ''    }'', ''}''])"

section \<open>The backend's methods\<close>

definition owned_state :: "string \<Rightarrow> signedContainmentState \<Rightarrow> bool" where
  "owned_state table st = (map_of (cs_Data st) ''table'' = Some (VString table) \<and> map_of (cs_Data st) ''backend'' = Some (VString ''nftables''))"

definition isolation_kind :: string where "isolation_kind = ''host-isolation-linux-nft''"
definition block_kind :: string where "block_kind = ''firewall-block-linux-nft''"

definition on_host :: "(world \<Rightarrow> 'r \<times> world) \<Rightarrow> host \<Rightarrow> 'r \<times> host" where
  "on_host f h = (let (r, w) = f (hs_world h) in (r, h\<lparr>hs_world := w\<rparr>))"

definition applyIsolationTable :: "netenv \<Rightarrow> controlTarget list \<Rightarrow> host \<Rightarrow> (tool_error, unit) result \<times> host" where
  "applyIsolationTable N targets h =
     (case run_cmd N [] (nft_list linuxIsolationTable) h of
        (True, h1) \<Rightarrow> (Inr (), h1)
      | (False, h1) \<Rightarrow>
          (case run_cmd N (linuxIsolationScript N targets) nft_script h1 of
             (True, h2) \<Rightarrow> (Inr (), h2)
           | (False, h2) \<Rightarrow> (Inl (TErr ''install nftables host isolation''), h2)))"

definition linux_Isolate :: "crypto \<Rightarrow> osenv \<Rightarrow> netenv \<Rightarrow> linuxNetworkBackend \<Rightarrow> host \<Rightarrow> gmap tool_result" where
  "linux_Isolate C E N b h =
     (case run_cmd N [] nft_version h of
        (False, h1) \<Rightarrow> (Inl (TErr ''nftables is required for Linux host isolation''), h1)
      | (True, h1) \<Rightarrow>
          (case on_host (loadSignedContainmentState C b (isolationStatePath b) isolation_kind) h1 of
             (state, h2) \<Rightarrow>
               if \<not> is_ok state \<and> state \<noteq> Inl (TErrOS ErrNotExist) then (map_sum id cs_Data state, h2)
               else (case run_cmd N [] (nft_list linuxIsolationTable) h2 of
                 (tableExists, h3) \<Rightarrow>
                   (case state of
                      Inl _ \<Rightarrow>
                        if tableExists
                        then (Inl (TErr ''nftables isolation table exists without signed NTAgentShield state''), h3)
                        else (case resolveControlTargets E N (lb_controlEndpoint b) of
                          Inl e \<Rightarrow> (Inl e, h3)
                        | Inr targets \<Rightarrow>
                            (case on_host (saveSignedContainmentState C b (isolationStatePath b) isolation_kind
                                    [(''backend'', VString ''nftables''), (''table'', VString linuxIsolationTable),
                                     (''control_targets'', VStrings (controlTargetStrings N targets)), (''dns_allowed'', VBool True)]) h3 of
                               (Inl e, h4) \<Rightarrow> (Inl e, h4)
                             | (Inr _, h4) \<Rightarrow>
                                 (case applyIsolationTable N targets h4 of
                                    (Inl e, h5) \<Rightarrow> (Inl e, snd (on_host (os_Remove (isolationStatePath b)) h5))
                                  | (Inr _, h5) \<Rightarrow>
                                      (Inr [(''isolated'', VBool True), (''backend'', VString ''nftables''),
                                         (''control_targets'', VStrings (controlTargetStrings N targets)), (''recovered'', VBool False)], h5))))
                    | Inr st \<Rightarrow>
                        if \<not> owned_state linuxIsolationTable st
                        then (Inl (TErr ''signed Linux isolation ownership state is invalid''), h3)
                        else if tableExists
                        then (Inr [(''isolated'', VBool True), (''already_isolated'', VBool True), (''state'', VMap (cs_Data st))], h3)
                        else (case resolveControlTargets E N (lb_controlEndpoint b) of
                          Inl e \<Rightarrow> (Inl e, h3)
                        | Inr targets \<Rightarrow>
                            (case applyIsolationTable N targets h3 of
                               (Inl e, h5) \<Rightarrow> (Inl e, h5)
                             | (Inr _, h5) \<Rightarrow>
                                 (Inr [(''isolated'', VBool True), (''backend'', VString ''nftables''),
                                    (''control_targets'', VStrings (controlTargetStrings N targets)), (''recovered'', VBool True)], h5)))))))"

definition remove_state :: "string \<Rightarrow> gmap \<Rightarrow> host \<Rightarrow> gmap tool_result" where
  "remove_state path out h =
     (case on_host (os_Remove path) h of
        (Inl e, h1) \<Rightarrow> (if e = ErrNotExist then (Inr out, h1) else (Inl (TErrOS e), h1))
      | (Inr _, h1) \<Rightarrow> (Inr out, h1))"

definition linux_Release :: "crypto \<Rightarrow> netenv \<Rightarrow> linuxNetworkBackend \<Rightarrow> host \<Rightarrow> gmap tool_result" where
  "linux_Release C N b h =
     (case on_host (loadSignedContainmentState C b (isolationStatePath b) isolation_kind) h of
        (Inl e, h1) \<Rightarrow>
          (if e \<noteq> TErrOS ErrNotExist then (Inl e, h1)
           else (case run_cmd N [] (nft_list linuxIsolationTable) h1 of
             (True, h2) \<Rightarrow> (Inl (TErr ''nftables isolation table exists without signed state; refusing blind deletion''), h2)
           | (False, h2) \<Rightarrow> (Inr [(''released'', VBool True), (''already_released'', VBool True)], h2)))
      | (Inr st, h1) \<Rightarrow>
          (if \<not> owned_state linuxIsolationTable st
           then (Inl (TErr ''signed Linux isolation ownership state is invalid''), h1)
           else (case run_cmd N [] (nft_list linuxIsolationTable) h1 of
             (False, h2) \<Rightarrow>
               remove_state (isolationStatePath b)
                 [(''released'', VBool True), (''already_released'', VBool True), (''recovered_stale_state'', VBool True)] h2
           | (True, h2) \<Rightarrow>
               (case run_cmd N [] (nft_delete linuxIsolationTable) h2 of
                  (False, h3) \<Rightarrow> (Inl (TErr ''delete nftables isolation table''), h3)
                | (True, h3) \<Rightarrow>
                    remove_state (isolationStatePath b)
                      [(''released'', VBool True), (''backend'', VString ''nftables'')] h3))))"

definition createBlockTable :: "netenv \<Rightarrow> host \<Rightarrow> bool \<times> host" where
  "createBlockTable N h = run_cmd N block_script nft_script h"

definition ensureBlockTable :: "crypto \<Rightarrow> netenv \<Rightarrow> linuxNetworkBackend \<Rightarrow> bool \<Rightarrow> host \<Rightarrow> bool tool_result" where
  "ensureBlockTable C N b create h =
     (case on_host (loadSignedContainmentState C b (blockStatePath b) block_kind) h of
        (state, h1) \<Rightarrow>
          if \<not> is_ok state \<and> state \<noteq> Inl (TErrOS ErrNotExist) then (map_sum id (\<lambda>_. False) state, h1)
          else if (case state of Inl _ \<Rightarrow> False | Inr st \<Rightarrow> \<not> owned_state linuxBlockTable st)
          then (Inl (TErr ''signed nftables block-table ownership state is invalid''), h1)
          else (case run_cmd N [] (nft_list linuxBlockTable) h1 of
            (tableExists, h2) \<Rightarrow>
              if tableExists \<and> \<not> is_ok state
              then (Inl (TErr ''nftables block table exists without signed NTAgentShield ownership state''), h2)
              else if is_ok state \<and> tableExists then (Inr True, h2)
              else if is_ok state \<and> \<not> create
              then (case on_host (os_Remove (blockStatePath b)) h2 of
                      (Inl e, h3) \<Rightarrow> (if e = ErrNotExist then (Inr False, h3) else (Inl (TErrOS e), h3))
                    | (Inr _, h3) \<Rightarrow> (Inr False, h3))
              else if \<not> create then (Inr False, h2)
              else if is_ok state
              then (case createBlockTable N h2 of
                      (True, h3) \<Rightarrow> (Inr True, h3)
                    | (False, h3) \<Rightarrow> (Inl (TErr ''create NTAgentShield nftables block table''), h3))
              else (case on_host (saveSignedContainmentState C b (blockStatePath b) block_kind
                            [(''backend'', VString ''nftables''), (''table'', VString linuxBlockTable)]) h2 of
                      (Inl e, h3) \<Rightarrow> (Inl e, h3)
                    | (Inr _, h3) \<Rightarrow>
                        (case createBlockTable N h3 of
                           (True, h4) \<Rightarrow> (Inr True, h4)
                         | (False, h4) \<Rightarrow>
                             (Inl (TErr ''create NTAgentShield nftables block table''),
                              snd (on_host (os_Remove (blockStatePath b)) h4))))))"

definition family_set :: "addr \<Rightarrow> string" where
  "family_set a = (if Is6 a then ''blocked6'' else ''blocked4'')"

definition linux_Block :: "crypto \<Rightarrow> netenv \<Rightarrow> linuxNetworkBackend \<Rightarrow> addr \<Rightarrow> host \<Rightarrow> gmap tool_result" where
  "linux_Block C N b address h =
     (case run_cmd N [] nft_version h of
        (False, h1) \<Rightarrow> (Inl (TErr ''nftables is required for Linux firewall containment''), h1)
      | (True, h1) \<Rightarrow>
          (case ensureBlockTable C N b True h1 of
             (Inl e, h2) \<Rightarrow> (Inl e, h2)
           | (Inr _, h2) \<Rightarrow>
               (let a = ne_String N address;
                    h3 = snd (run_cmd N [] (nft_element ''delete'' (family_set address) a) h2)
                in case run_cmd N [] (nft_element ''add'' (family_set address) a) h3 of
                     (False, h4) \<Rightarrow> (Inl (TErr ''add nftables blocked IP''), h4)
                   | (True, h4) \<Rightarrow>
                       (Inr [(''remote_ip'', VString a), (''blocked'', VBool True), (''backend'', VString ''nftables'')], h4))))"

definition linux_Unblock :: "crypto \<Rightarrow> netenv \<Rightarrow> linuxNetworkBackend \<Rightarrow> addr \<Rightarrow> host \<Rightarrow> gmap tool_result" where
  "linux_Unblock C N b address h =
     (case ensureBlockTable C N b False h of
        (Inl e, h1) \<Rightarrow> (Inl e, h1)
      | (Inr owned, h1) \<Rightarrow>
          (let a = ne_String N address
           in if \<not> owned
              then (Inr [(''remote_ip'', VString a), (''unblocked'', VBool True), (''already_unblocked'', VBool True)], h1)
              else (case run_cmd N [] (nft_element ''delete'' (family_set address) a) h1 of
                      (False, h2) \<Rightarrow> (Inl (TErr ''delete nftables blocked IP''), h2)
                    | (True, h2) \<Rightarrow>
                        (Inr [(''remote_ip'', VString a), (''unblocked'', VBool True), (''backend'', VString ''nftables'')], h2))))"

definition linux_OpenPort :: "PortRule \<Rightarrow> host \<Rightarrow> gmap tool_result" where
  "linux_OpenPort r h = (Inl (TErr ''firewall port containment is currently implemented for Windows only''), h)"

definition linux_ClosePort :: "PortRule \<Rightarrow> host \<Rightarrow> gmap tool_result" where
  "linux_ClosePort r h = (Inl (TErr ''firewall port containment is currently implemented for Windows only''), h)"

definition linux_backend :: "crypto \<Rightarrow> osenv \<Rightarrow> netenv \<Rightarrow> linuxNetworkBackend \<Rightarrow> backend" where
  "linux_backend C E N b op =
     (case op of
        Isolate \<Rightarrow> linux_Isolate C E N b
      | Release \<Rightarrow> linux_Release C N b
      | Block a \<Rightarrow> linux_Block C N b a
      | Unblock a \<Rightarrow> linux_Unblock C N b a
      | OpenPort r \<Rightarrow> linux_OpenPort r
      | ClosePort r \<Rightarrow> linux_ClosePort r)"

section \<open>The response registry\<close>

definition NewResponseRegistry ::
  "crypto \<Rightarrow> osenv \<Rightarrow> netenv \<Rightarrow> (string \<Rightarrow> string option) \<Rightarrow> containment_codec \<Rightarrow> manifest_codec \<Rightarrow> string \<Rightarrow>
     (policy_error, Policy) result \<Rightarrow> ContainmentOptions \<Rightarrow> (tool_error, Registry) result" where
  "NewResponseRegistry C E N kp M MQ rnd pol opts =
     (case NewFoundationRegistry C E pol (co_AllowedPaths opts) of
        Inl e \<Rightarrow> Inl e
      | Inr registry \<Rightarrow>
          (case newNetworkContainmentBackend kp M opts of
             Inl e \<Rightarrow> Inl e
           | Inr b \<Rightarrow>
               (case NewFileQuarantine E (co_AllowedPaths opts) (co_DataDir opts) (co_IdentityKeyFile opts) kp MQ of
                  Inl e \<Rightarrow> Inl e
                | Inr Q \<Rightarrow>
                    Register_all registry
                      [HostContainment (linux_backend C E N b), FirewallContainment E (linux_backend C E N b),
                       FirewallPortContainment (linux_backend C E N b),
                       FileContainment (FileQuarantine C E Q rnd) (FileRestore C E Q)])))"

section \<open>Properties\<close>

lemma NewFoundationRegistry_tools:
  assumes "NewFoundationRegistry C E pol paths = Inr reg"
  shows "\<exists>g p. newPathGuard E paths = Inr g \<and> pol = Inr p \<and> reg_policy reg = p \<and> reg_inv reg
    \<and> map snd (reg_tools reg) = [HostInfo E, ProcessTerminate E, FileStat E g, FileSHA256 C E g, FileReadLines E g]"
proof -
  from assms obtain p reg1 g where r: "pol = Inr p" "Register_all (NewRegistry p) [HostInfo E, ProcessTerminate E] = Inr reg1"
    "newPathGuard E paths = Inr g" "Register_all reg1 [FileStat E g, FileSHA256 C E g, FileReadLines E g] = Inr reg"
    unfolding NewFoundationRegistry_def by (auto split: sum.splits simp del: Register_all.simps)
  note 1 = Register_all_sel [OF r(2)] and 2 = Register_all_sel [OF r(4)]
  have t: "map snd (reg_tools (NewRegistry p)) = []" "reg_policy (NewRegistry p) = p" by (simp_all add: NewRegistry_def)
  have "map snd (reg_tools reg) = [HostInfo E, ProcessTerminate E, FileStat E g, FileSHA256 C E g, FileReadLines E g]"
    unfolding 2(2) 1(2) t by simp
  moreover have "reg_inv reg" by (rule 2(3) [OF 1(3) [OF NewRegistry_inv]])
  moreover have "reg_policy reg = p" unfolding 2(1) 1(1) by (rule t(2))
  ultimately show ?thesis using r(1,3) by (intro exI conjI)
qed

text \<open>The registry a response runs in holds exactly nine tools, under distinct names, with the active
  policy. The four read-only ones change nothing on the host; all the others declare the risk
  \<open>contain\<close>, so that the gate above demands an approved action for each of them.\<close>

theorem NewResponseRegistry_tools:
  assumes "NewResponseRegistry C E N kp M MQ rnd (Inr pol) opts = Inr reg"
  shows "map fst (reg_tools reg) = [''host.info'', ''process.terminate'', ''file.stat'', ''file.sha256'', ''file.read_lines'',
      ''host.isolate'', ''firewall.block'', ''firewall.port'', ''file.quarantine'']
    \<and> reg_policy reg = pol \<and> reg_inv reg \<and> honest (reg_tools reg)
    \<and> (\<forall>(n, t)\<in>set (reg_tools reg). spec_Risk (tool_Spec t) \<in> {RiskObserve, RiskContain}
         \<and> (spec_Risk (tool_Spec t) = RiskContain \<or> read_only t))"
proof -
  from assms obtain reg0 b Q where r: "NewFoundationRegistry C E (Inr pol) (co_AllowedPaths opts) = Inr reg0"
    "Register_all reg0 [HostContainment (linux_backend C E N b), FirewallContainment E (linux_backend C E N b),
       FirewallPortContainment (linux_backend C E N b),
       FileContainment (FileQuarantine C E Q rnd) (FileRestore C E Q)] = Inr reg"
    unfolding NewResponseRegistry_def by (auto split: sum.splits simp del: Register_all.simps)
  obtain g where f: "reg_policy reg0 = pol" "reg_inv reg0"
    "map snd (reg_tools reg0) = [HostInfo E, ProcessTerminate E, FileStat E g, FileSHA256 C E g, FileReadLines E g]"
    using NewFoundationRegistry_tools [OF r(1)] by auto
  note 2 = Register_all_sel [OF r(2)]
  define ts where "ts = [HostInfo E, ProcessTerminate E, FileStat E g, FileSHA256 C E g, FileReadLines E g,
    HostContainment (linux_backend C E N b), FirewallContainment E (linux_backend C E N b),
    FirewallPortContainment (linux_backend C E N b), FileContainment (FileQuarantine C E Q rnd) (FileRestore C E Q)]"
  have inv: "reg_inv reg" "reg_policy reg = pol" using 2(3) [OF f(2)] 2(1) f(1) by simp_all
  have snds: "map snd (reg_tools reg) = ts" unfolding 2(2) f(3) ts_def by simp
  have names: "map fst (reg_tools reg) = map (\<lambda>t. spec_Name (tool_Spec t)) ts"
  proof -
    have "map fst (reg_tools reg) = map (\<lambda>t. spec_Name (tool_Spec t)) (map snd (reg_tools reg))"
      using inv(1) by (auto simp: reg_inv_def)
    then show ?thesis by (simp add: snds)
  qed
  have each: "spec_Risk (tool_Spec t) = RiskContain \<or> spec_Risk (tool_Spec t) = RiskObserve \<and> read_only t"
    if "(n, t) \<in> set (reg_tools reg)" for n t
  proof -
    have "t \<in> set ts" using that snds by (metis image_eqI list.set_map snd_conv)
    then have "t \<in> {HostInfo E, FileStat E g, FileSHA256 C E g, FileReadLines E g} \<or> spec_Risk (tool_Spec t) = RiskContain"
      by (auto simp: ts_def ProcessTerminate_def HostContainment_def FirewallContainment_def FirewallPortContainment_def FileContainment_def)
    then show ?thesis
      using read_only_tools by (auto simp: HostInfo_def FileStat_def FileSHA256_def FileReadLines_def)
  qed
  have "map (\<lambda>t. spec_Name (tool_Spec t)) ts = [''host.info'', ''process.terminate'', ''file.stat'', ''file.sha256'', ''file.read_lines'',
      ''host.isolate'', ''firewall.block'', ''firewall.port'', ''file.quarantine'']"
    by (simp add: ts_def HostInfo_def ProcessTerminate_def FileStat_def FileSHA256_def FileReadLines_def HostContainment_def
        FirewallContainment_def FirewallPortContainment_def FileContainment_def)
  moreover have "RiskObserve \<noteq> RiskContain" by (simp add: risk_defs)
  then have "honest (reg_tools reg)" using each unfolding honest_def by fastforce
  ultimately show ?thesis using inv names each by auto
qed

definition demo_netenv :: netenv where
  "demo_netenv = \<lparr>ne_Run = (\<lambda>cs. fst (last cs) \<noteq> nft_list linuxIsolationTable),
     ne_ParseURL = (\<lambda>_. Some (''https'', ''c'', [])), ne_Lookup = (\<lambda>_. Some [IP4 7]), ne_String = (\<lambda>_. ''0.0.0.7'')\<rparr>"

definition demo_containment_codec :: containment_codec where
  "demo_containment_codec = \<lparr>cc_Marshal = (\<lambda>_. Some ''s''), cc_MarshalIndent = (\<lambda>_. Some ''i''), cc_DecodeStrict = (\<lambda>_. None)\<rparr>"

definition demo_options :: ContainmentOptions where
  "demo_options = \<lparr>co_DataDir = ''/q'', co_IdentityKeyFile = ''/k'', co_ControlEndpoint = ''https://c'', co_AllowedPaths = [''/d'']\<rparr>"

lemma demo_response_registry:
  "is_ok (NewResponseRegistry toy_crypto demo_env demo_netenv Some demo_containment_codec (qc_codec demo_quarantine) ''1'' (Inr Default) demo_options)"
  by code_simp

theorem NewResponseRegistry_tools_witness:
  "\<exists>reg. NewResponseRegistry toy_crypto demo_env demo_netenv Some demo_containment_codec (qc_codec demo_quarantine) ''1''
      (Inr Default) demo_options = Inr reg
    \<and> reg_policy reg = Default \<and> reg_inv reg \<and> honest (reg_tools reg)"
  using demo_response_registry NewResponseRegistry_tools unfolding is_ok_iff by blast

text \<open>Running a command changes nothing but the log.\<close>

lemma run_cmd_eq: "run_cmd N i a h = (ok, h') \<longleftrightarrow> h' = h\<lparr>hs_cmds := hs_cmds h @ [(a, i)]\<rparr> \<and> ok = ne_Run N (hs_cmds h @ [(a, i)])"
  by (auto simp: run_cmd_def Let_def)

lemma on_host_cmds: "on_host f h = (r, h') \<Longrightarrow> hs_cmds h' = hs_cmds h"
  by (auto simp: on_host_def split: prod.splits)

lemma on_host_world: "on_host f h = (r, h') \<Longrightarrow> f (hs_world h) = (r, hs_world h')"
  by (auto simp: on_host_def split: prod.splits)

lemma nft_commands_differ [simp]:
  "nft_list t \<noteq> nft_delete u" "nft_delete u \<noteq> nft_list t" "nft_version \<noteq> nft_delete u" "nft_delete u \<noteq> nft_version"
  "nft_list t \<noteq> nft_script" "nft_script \<noteq> nft_list t" "nft_version \<noteq> nft_script" "nft_script \<noteq> nft_version"
  "nft_script \<noteq> nft_delete u" "nft_delete u \<noteq> nft_script" "nft_element v f a \<noteq> nft_script" "nft_element v f a \<noteq> nft_delete u"
  by (simp_all add: nft_list_def nft_delete_def nft_version_def nft_script_def nft_element_def)

text \<open>C9. No blind deletion: releasing the host deletes the isolation table only if the agent's signed
  ownership state was on disk, verified, and names that table, and only after seeing the table exist. It
  runs no other command than listing and deleting that table. If it reports success, the table was
  deleted in this run or did not exist.\<close>

theorem Release_deletes_only_owned_table:
  assumes "linux_Release C N b h = (r, h')"
  shows "\<exists>cs. hs_cmds h' = hs_cmds h @ cs
    \<and> cs \<in> {[], [(nft_list linuxIsolationTable, [])], [(nft_list linuxIsolationTable, []), (nft_delete linuxIsolationTable, [])]}
    \<and> ((nft_delete linuxIsolationTable, []) \<notin> set cs
       \<or> (\<exists>st. fst (loadSignedContainmentState C b (isolationStatePath b) isolation_kind (hs_world h)) = Inr st
             \<and> owned_state linuxIsolationTable st
             \<and> ne_Run N (hs_cmds h @ [(nft_list linuxIsolationTable, [])])))
    \<and> (case r of Inl _ \<Rightarrow> True
       | Inr _ \<Rightarrow> cs \<noteq> [] \<and> (if tl cs = [] then \<not> ne_Run N (hs_cmds h @ cs) else ne_Run N (hs_cmds h @ cs)))"
proof -
  let ?l = "(nft_list linuxIsolationTable, [])" and ?d = "(nft_delete linuxIsolationTable, [])"
  obtain st h1 where ld: "on_host (loadSignedContainmentState C b (isolationStatePath b) isolation_kind) h = (st, h1)"
    by (rule prod.exhaust)
  have c1: "hs_cmds h1 = hs_cmds h" by (rule on_host_cmds [OF ld])
  have fs: "fst (loadSignedContainmentState C b (isolationStatePath b) isolation_kind (hs_world h)) = st"
    using on_host_world [OF ld] by simp
  have rm: "hs_cmds (snd (remove_state p out h2)) = hs_cmds h2" for p out h2
    by (auto simp: remove_state_def split: prod.splits sum.splits dest: on_host_cmds)
  consider (none) "hs_cmds h' = hs_cmds h" "\<exists>e. r = Inl e"
    | (absent) "hs_cmds h' = hs_cmds h @ [?l]" "(\<exists>e. r = Inl e) \<or> \<not> ne_Run N (hs_cmds h @ [?l])"
    | (deleted) x where "hs_cmds h' = hs_cmds h @ [?l, ?d]" "st = Inr x" "owned_state linuxIsolationTable x"
        "ne_Run N (hs_cmds h @ [?l])" "(\<exists>e. r = Inl e) \<or> ne_Run N (hs_cmds h @ [?l, ?d])"
  proof (cases st)
    case (Inl e)
    then show ?thesis using assms ld c1 none absent
      by (auto simp: linux_Release_def run_cmd_eq split: if_splits prod.splits bool.splits)
  next
    case (Inr x)
    show ?thesis
    proof (cases "owned_state linuxIsolationTable x")
      case False
      then show ?thesis using assms ld c1 none Inr by (auto simp: linux_Release_def)
    next
      case True
      define h2 where "h2 = h1\<lparr>hs_cmds := hs_cmds h @ [?l]\<rparr>"
      define h3 where "h3 = h2\<lparr>hs_cmds := hs_cmds h @ [?l, ?d]\<rparr>"
      have r1: "run_cmd N [] (nft_list linuxIsolationTable) h1 = (ne_Run N (hs_cmds h @ [?l]), h2)"
        and r2: "run_cmd N [] (nft_delete linuxIsolationTable) h2 = (ne_Run N (hs_cmds h @ [?l, ?d]), h3)"
        by (simp_all add: run_cmd_def Let_def h2_def h3_def c1)
      show ?thesis
      proof (cases "ne_Run N (hs_cmds h @ [?l])")
        case False
        then obtain out where eq: "remove_state (isolationStatePath b) out h2 = (r, h')"
          using assms ld Inr True r1 by (simp add: linux_Release_def)
        then have "hs_cmds h' = hs_cmds h @ [?l]" using rm [of "isolationStatePath b" out h2] unfolding eq
          by (simp add: h2_def)
        then show ?thesis using absent False by blast
      next
        case run: True
        show ?thesis
        proof (cases "ne_Run N (hs_cmds h @ [?l, ?d])")
          case False
          then have "h' = h3" "\<exists>e. r = Inl e" using assms ld Inr True r1 r2 run by (auto simp: linux_Release_def)
          then show ?thesis using deleted [of x] Inr True run by (simp add: h3_def)
        next
          case ok: True
          then obtain out where eq: "remove_state (isolationStatePath b) out h3 = (r, h')"
            using assms ld Inr True r1 r2 run by (simp add: linux_Release_def)
          then have "hs_cmds h' = hs_cmds h @ [?l, ?d]" using rm [of "isolationStatePath b" out h3] unfolding eq
            by (simp add: h3_def)
          then show ?thesis using deleted [of x] Inr True run ok by blast
        qed
      qed
    qed
  qed
  then show ?thesis
  proof cases
    case none
    then show ?thesis by (intro exI [of _ "[]"]) auto
  next
    case absent
    then show ?thesis by (intro exI [of _ "[?l]"]) (auto split: sum.splits)
  next
    case (deleted x)
    then show ?thesis using fs by (intro exI [of _ "[?l, ?d]"]) (auto split: sum.splits)
  qed
qed

definition demo_backend :: linuxNetworkBackend where
  "demo_backend = \<lparr>lb_dataDir = ''/q'', lb_identityKeyFile = ''/k'', lb_controlEndpoint = ''https://c'', lb_parseKey = Some,
     lb_codec = demo_containment_codec\<rparr>"

theorem Release_deletes_only_owned_table_witness:
  "\<exists>cs r h'. linux_Release toy_crypto demo_netenv demo_backend demo_host = (r, h') \<and> hs_cmds h' = hs_cmds demo_host @ cs
    \<and> cs \<in> {[], [(nft_list linuxIsolationTable, [])], [(nft_list linuxIsolationTable, []), (nft_delete linuxIsolationTable, [])]}"
proof -
  obtain r h' where ex: "linux_Release toy_crypto demo_netenv demo_backend demo_host = (r, h')" by (rule prod.exhaust)
  from Release_deletes_only_owned_table [OF ex] show ?thesis using ex by blast
qed

lemma quiet_loadContainment:
  assumes "loadSignedContainmentState C b path kind w = (r, w')"
  shows "quiet p w w'" and "\<exists>st. r = Inr st \<Longrightarrow> fs_content (files w) path \<noteq> None"
proof -
  obtain r1 w1 where rd: "os_ReadFile path w = (r1, w1)" by (rule prod.exhaust)
  obtain k w2 where ld: "identity_Load (lb_parseKey b) (lb_identityKeyFile b) w1 = (k, w2)" by (rule prod.exhaust)
  have "w' \<in> {w1, w2}"
    using assms rd ld
    by (auto simp: loadSignedContainmentState_def split: sum.splits option.splits if_splits)
  then show "quiet p w w'" using quiet_ReadFile [OF rd] quiet_trans [OF quiet_ReadFile [OF rd] quiet_Load [OF ld]] by auto
  show "fs_content (files w) path \<noteq> None" if "\<exists>st. r = Inr st"
    using os_ReadFile_cases(3) [OF rd] assms rd that
    by (cases r1) (auto simp: loadSignedContainmentState_def)
qed

lemma saveContainment_ok:
  assumes "saveSignedContainmentState C b path kind data w = (Inr (), w')"
  shows "fs_content (files w') path \<noteq> None"
proof -
  obtain c w2 where "tools_writePrivateFile path c w2 = (Inr (), w')"
    using assms by (auto simp: saveSignedContainmentState_def Let_def split: prod.splits sum.splits option.splits)
  then show ?thesis using tlf.installs by fastforce
qed

lemma applyIsolationTable_ok:
  assumes "applyIsolationTable N targets h = (Inr (), h')"
  shows "hs_world h' = hs_world h \<and> hs_cmds h' \<noteq> [] \<and> ne_Run N (hs_cmds h')
    \<and> (last (hs_cmds h') = (nft_list linuxIsolationTable, []) \<or> last (hs_cmds h') = (nft_script, linuxIsolationScript N targets))"
  using assms by (auto simp: applyIsolationTable_def run_cmd_eq split: prod.splits bool.splits)

text \<open>A reported isolation is real and can be undone: if \<open>Isolate\<close> succeeds, the last command it ran
  succeeded and either showed that the isolation table exists or installed the rules for the targets the
  control endpoint resolves to; and the ownership state that \<open>Release\<close> needs is on disk.\<close>

theorem Isolate_success_is_recorded:
  assumes "linux_Isolate C E N b h = (Inr out, h')"
  shows "fs_content (files (hs_world h')) (isolationStatePath b) \<noteq> None
    \<and> hs_cmds h' \<noteq> [] \<and> ne_Run N (hs_cmds h')
    \<and> (last (hs_cmds h') = (nft_list linuxIsolationTable, [])
       \<or> (\<exists>targets. resolveControlTargets E N (lb_controlEndpoint b) = Inr targets
            \<and> last (hs_cmds h') = (nft_script, linuxIsolationScript N targets)))"
proof -
  define h1 where "h1 = h\<lparr>hs_cmds := hs_cmds h @ [(nft_version, [])]\<rparr>"
  obtain st h2 where ld: "on_host (loadSignedContainmentState C b (isolationStatePath b) isolation_kind) h1 = (st, h2)"
    by (rule prod.exhaust)
  define h3 where "h3 = h2\<lparr>hs_cmds := hs_cmds h2 @ [(nft_list linuxIsolationTable, [])]\<rparr>"
  have v: "ne_Run N (hs_cmds h @ [(nft_version, [])])"
    using assms by (auto simp: linux_Isolate_def run_cmd_eq split: prod.splits bool.splits)
  have r1: "run_cmd N [] nft_version h = (True, h1)" and r3: "run_cmd N [] (nft_list linuxIsolationTable) h2 = (ne_Run N (hs_cmds h3), h3)"
    using v by (simp_all add: run_cmd_eq h1_def h3_def)
  have w3: "hs_world h3 = hs_world h2" by (simp add: h3_def)
  have lw: "loadSignedContainmentState C b (isolationStatePath b) isolation_kind (hs_world h1) = (st, hs_world h2)"
    by (rule on_host_world [OF ld])
  note run = assms [unfolded linux_Isolate_def r1 prod.case bool.case ld]
  show ?thesis
  proof (cases st)
    case (Inl e)
    then obtain targets data h4 where s: "resolveControlTargets E N (lb_controlEndpoint b) = Inr targets"
      "on_host (saveSignedContainmentState C b (isolationStatePath b) isolation_kind data) h3 = (Inr (), h4)"
      "applyIsolationTable N targets h4 = (Inr (), h')"
      using run r3 by (auto split: if_splits sum.splits prod.splits)
    have "fs_content (files (hs_world h4)) (isolationStatePath b) \<noteq> None"
      by (rule saveContainment_ok [OF on_host_world [OF s(2)]])
    then show ?thesis using applyIsolationTable_ok [OF s(3)] s(1) by auto
  next
    case (Inr x)
    have there: "fs_content (files (hs_world h3)) (isolationStatePath b) \<noteq> None"
      using quiet_loadContainment(2) [OF lw] quiet_content [OF quiet_loadContainment(1) [OF lw]] Inr w3 by auto
    show ?thesis
    proof (cases "ne_Run N (hs_cmds h3)")
      case True
      then have "h' = h3" using run r3 Inr by (auto split: if_splits sum.splits prod.splits)
      then show ?thesis using there True by (auto simp: h3_def)
    next
      case False
      then obtain targets where s: "resolveControlTargets E N (lb_controlEndpoint b) = Inr targets"
        "applyIsolationTable N targets h3 = (Inr (), h')"
        using run r3 Inr by (auto split: if_splits sum.splits prod.splits)
      then show ?thesis using applyIsolationTable_ok [OF s(2)] there by auto
    qed
  qed
qed

lemma demo_isolates:
  "is_ok (fst (linux_Isolate toy_crypto demo_env demo_netenv demo_backend (demo_host\<lparr>hs_world := demo_disk\<rparr>)))"
  by code_simp

theorem Isolate_success_is_recorded_witness:
  "\<exists>out h'. linux_Isolate toy_crypto demo_env demo_netenv demo_backend (demo_host\<lparr>hs_world := demo_disk\<rparr>) = (Inr out, h')
    \<and> fs_content (files (hs_world h')) (isolationStatePath demo_backend) \<noteq> None"
proof -
  obtain out where "fst (linux_Isolate toy_crypto demo_env demo_netenv demo_backend (demo_host\<lparr>hs_world := demo_disk\<rparr>)) = Inr out"
    using demo_isolates unfolding is_ok_iff by blast
  then obtain h' where ex: "linux_Isolate toy_crypto demo_env demo_netenv demo_backend (demo_host\<lparr>hs_world := demo_disk\<rparr>) = (Inr out, h')"
    by (metis prod.collapse)
  from Isolate_success_is_recorded [OF ex] show ?thesis using ex by blast
qed

end
