(* ===== verification/Lease.thy ===== *)
theory Lease
  imports Policy File_Install
begin

text \<open>
  Package \<open>internal/responseexec\<close>, file \<open>lease.go\<close>: signed response leases. The JSON decoder is a
  parameter \<open>jd\<close>: it reads one value of the wanted type from the front of its input and returns the
  rest; \<open>ja\<close> does so for a value of any type. \<open>pk\<close> parses a PEM public key.
\<close>

section \<open>Strict decoding\<close>

abbreviation json_space :: "char \<Rightarrow> bool" where
  "json_space c \<equiv> c \<in> {CHR '' '', CHR 0x09, CHR 0x0A, CHR 0x0D}"

text \<open>\<open>Decoder.More\<close> at the top level: something other than a closing bracket follows.\<close>

definition decoder_More :: "string \<Rightarrow> bool" where
  "decoder_More rest =
     (case dropWhile json_space rest of [] \<Rightarrow> False | c # _ \<Rightarrow> c \<noteq> CHR '']'' \<and> c \<noteq> CHR ''}'')"

definition decodeStrict ::
  "(string \<Rightarrow> ('a \<times> string) option) \<Rightarrow> (string \<Rightarrow> ('b \<times> string) option) \<Rightarrow> string \<Rightarrow> 'a option" where
  "decodeStrict jd ja s =
     (case jd s of
        None \<Rightarrow> None
      | Some (v, rest) \<Rightarrow>
          if decoder_More rest then None
          else if ja rest \<noteq> None then None else Some v)"

section \<open>Leases\<close>

definition responseSchema :: string where "responseSchema = ''ntshield-response/v1''"

record SignedLease =
  sl_PayloadB64 :: string
  sl_SignatureB64 :: string
  sl_SHA256 :: string

record Lease =
  ls_Schema :: string
  ls_ActionID :: string
  ls_TenantID :: string
  ls_AgentID :: string
  ls_IncidentID :: string
  ls_Tool :: string
  ls_Args :: "gmap option"
  ls_Reason :: string
  ls_Risk :: ActionRisk
  ls_RequestedBy :: string
  ls_RequestedAt :: gtime
  ls_ApprovedBy :: string
  ls_ApprovedAt :: gtime
  ls_ActionExpiresAt :: gtime
  ls_LeaseIssuedAt :: gtime
  ls_LeaseExpiresAt :: gtime

datatype lease_error =
    LErrPayload | LErrSignatureText | LErrDigest | LErrTrustRoot | LErrSignature | LErrDecode | LErrSchema
  | LErrRequired | LErrScope | LErrRisk | LErrOperator | LErrTimes | LErrFuture | LErrExpired | LErrOrder

text \<open>\<open>loadResponseTrustRoot\<close>.\<close>

definition loadResponseTrustRoot ::
  "(string \<Rightarrow> string option) \<Rightarrow> string \<Rightarrow> world \<Rightarrow> (lease_error, string) result \<times> world" where
  "loadResponseTrustRoot pk path w =
     (case os_ReadFile path w of
        (Inl _, w1) \<Rightarrow> (Inl LErrTrustRoot, w1)
      | (Inr c, w1) \<Rightarrow> (case pk c of None \<Rightarrow> (Inl LErrTrustRoot, w1) | Some key \<Rightarrow> (Inr key, w1)))"

text \<open>The checks on a decoded lease, in the order of the code. \<open>now\<close> is the time the caller gives;
  \<open>t\<close> is the clock reading taken when that is zero.\<close>

definition check_lease :: "string \<Rightarrow> string \<Rightarrow> gtime \<Rightarrow> gtime \<Rightarrow> Lease \<Rightarrow> (lease_error, Lease) result" where
  "check_lease tenantID agentID now0 t l =
     (if ls_Schema l \<noteq> responseSchema then Inl LErrSchema
      else if TrimSpace (ls_ActionID l) = [] \<or> TrimSpace (ls_Tool l) = [] then Inl LErrRequired
      else if ls_TenantID l \<noteq> tenantID \<or> ls_AgentID l \<noteq> agentID then Inl LErrScope
      else if ls_Risk l \<noteq> RiskContain \<and> ls_Risk l \<noteq> RiskModify then Inl LErrRisk
      else if TrimSpace (ls_RequestedBy l) = [] \<or> TrimSpace (ls_ApprovedBy l) = [] then Inl LErrOperator
      else if IsZero (ls_RequestedAt l) \<or> IsZero (ls_ApprovedAt l) \<or> IsZero (ls_ActionExpiresAt l)
              \<or> IsZero (ls_LeaseIssuedAt l) \<or> IsZero (ls_LeaseExpiresAt l) then Inl LErrTimes
      else let now = (if IsZero now0 then t else now0)
           in if After (ls_LeaseIssuedAt l) (now + 5 * Minute) then Inl LErrFuture
              else if \<not> After (ls_LeaseExpiresAt l) now \<or> \<not> After (ls_ActionExpiresAt l) now then Inl LErrExpired
              else if After (ls_LeaseExpiresAt l) (ls_ActionExpiresAt l) \<or> Before (ls_ApprovedAt l) (ls_RequestedAt l)
              then Inl LErrOrder
              else Inr (l\<lparr>ls_Args := (case ls_Args l of None \<Rightarrow> Some [] | Some m \<Rightarrow> Some m)\<rparr>))"

definition VerifyLease ::
  "crypto \<Rightarrow> (string \<Rightarrow> string option) \<Rightarrow> (string \<Rightarrow> (Lease \<times> string) option) \<Rightarrow> (string \<Rightarrow> (gval \<times> string) option) \<Rightarrow>
     SignedLease \<Rightarrow> string \<Rightarrow> string \<Rightarrow> string \<Rightarrow> gtime \<Rightarrow> gtime \<Rightarrow> world \<Rightarrow> (lease_error, Lease) result \<times> world" where
  "VerifyLease C pk jd ja bundle trustRootFile tenantID agentID now t w =
     (case b64_DecodeString (TrimSpace (sl_PayloadB64 bundle)) of
        None \<Rightarrow> (Inl LErrPayload, w)
      | Some payloadBytes \<Rightarrow>
          (case b64_DecodeString (TrimSpace (sl_SignatureB64 bundle)) of
             None \<Rightarrow> (Inl LErrSignatureText, w)
           | Some signature \<Rightarrow>
               if \<not> EqualFold (sha_hex C payloadBytes) (TrimSpace (sl_SHA256 bundle)) then (Inl LErrDigest, w)
               else (case loadResponseTrustRoot pk trustRootFile w of
                       (Inl e, w1) \<Rightarrow> (Inl e, w1)
                     | (Inr trustRoot, w1) \<Rightarrow>
                         if \<not> ed25519_Verify C trustRoot payloadBytes signature then (Inl LErrSignature, w1)
                         else (case decodeStrict jd ja payloadBytes of
                                 None \<Rightarrow> (Inl LErrDecode, w1)
                               | Some l \<Rightarrow> (check_lease tenantID agentID now t l, w1)))))"

text \<open>\<open>Lease.ActionRequest\<close>: the request to execute, with the approval the broker vouches for, and its
  digest.\<close>

definition lease_request :: "Lease \<Rightarrow> ActionRequest" where
  "lease_request l =
     \<lparr>req_ID = ls_ActionID l, req_Tool = ls_Tool l, req_Args = ls_Args l, req_Reason = ls_Reason l,
      req_Risk = ls_Risk l, req_Mode = ModeAct, req_TriggerTrust = TrustOperator,
      req_RequestedBy = ls_RequestedBy l, req_RequestedAt = ls_RequestedAt l,
      req_ExpiresAt = ls_ActionExpiresAt l, req_Approval = None\<rparr>"

definition Lease_ActionRequest ::
  "crypto \<Rightarrow> (canonical_action \<Rightarrow> string option) \<Rightarrow> Lease \<Rightarrow> (ActionRequest \<times> string) option" where
  "Lease_ActionRequest C mj l =
     (case ActionDigest C mj (lease_request l) of
        None \<Rightarrow> None
      | Some digest \<Rightarrow>
          Some ((lease_request l)\<lparr>req_Approval := Some
                  \<lparr>app_ID = ''broker:'' @ ls_ActionID l, app_ActionDigest = digest, app_ApprovedBy = ls_ApprovedBy l,
                   app_ApprovedAt = ls_ApprovedAt l, app_ExpiresAt = ls_LeaseExpiresAt l\<rparr>\<rparr>, digest))"

section \<open>What a verified lease guarantees\<close>

definition lease_valid :: "string \<Rightarrow> string \<Rightarrow> gtime \<Rightarrow> Lease \<Rightarrow> bool" where
  "lease_valid tenantID agentID now l =
     (ls_Schema l = responseSchema \<and> TrimSpace (ls_ActionID l) \<noteq> [] \<and> TrimSpace (ls_Tool l) \<noteq> []
      \<and> ls_TenantID l = tenantID \<and> ls_AgentID l = agentID
      \<and> ls_Risk l \<in> {RiskContain, RiskModify}
      \<and> TrimSpace (ls_RequestedBy l) \<noteq> [] \<and> TrimSpace (ls_ApprovedBy l) \<noteq> []
      \<and> ls_RequestedAt l \<noteq> 0 \<and> ls_ActionExpiresAt l \<noteq> 0
      \<and> ls_LeaseIssuedAt l \<le> now + 5 * Minute
      \<and> now < ls_LeaseExpiresAt l \<and> ls_LeaseExpiresAt l \<le> ls_ActionExpiresAt l
      \<and> ls_RequestedAt l \<le> ls_ApprovedAt l)"

lemma check_lease_valid:
  assumes "check_lease tenantID agentID now t l0 = Inr l" "now \<noteq> 0"
  shows "lease_valid tenantID agentID now l \<and> ls_Args l \<noteq> None
    \<and> l = l0\<lparr>ls_Args := (case ls_Args l0 of None \<Rightarrow> Some [] | Some m \<Rightarrow> Some m)\<rparr>"
  using assms
  by (auto simp: check_lease_def lease_valid_def Let_def time_defs split: if_splits option.splits)

lemma quiet_trustRoot: "loadResponseTrustRoot pk path w = (r, w') \<Longrightarrow> quiet p w w'"
  by (auto simp: loadResponseTrustRoot_def split: prod.splits sum.splits option.splits dest: quiet_ReadFile)

lemma quiet_VerifyLease: "VerifyLease C pk jd ja b trf ten ag now t w = (r, w') \<Longrightarrow> quiet p w w'"
  by (auto simp: VerifyLease_def split: prod.splits sum.splits option.splits if_splits dest: quiet_trustRoot)

text \<open>C10. A lease is accepted only if the key pinned in the trust-root file signed its payload, the
  payload decodes to it, it is addressed to this tenant and agent, it names a state-changing risk and a
  requesting and an approving operator, and the time falls before the lease's expiry, which is not after
  the action's own expiry.\<close>

theorem VerifyLease_sound:
  assumes "VerifyLease C pk jd ja bundle trf tenantID agentID now t w = (Inr l, w')" and "now \<noteq> 0"
  shows "lease_valid tenantID agentID now l
    \<and> (\<exists>payload signature pem key l0.
         b64_DecodeString (TrimSpace (sl_PayloadB64 bundle)) = Some payload
         \<and> b64_DecodeString (TrimSpace (sl_SignatureB64 bundle)) = Some signature
         \<and> fs_content (files w) trf = Some pem \<and> pk pem = Some key
         \<and> ed25519_Verify C key payload signature
         \<and> decodeStrict jd ja payload = Some l0
         \<and> l = l0\<lparr>ls_Args := (case ls_Args l0 of None \<Rightarrow> Some [] | Some m \<Rightarrow> Some m)\<rparr>)"
proof -
  obtain payload signature key l0 where v:
    "b64_DecodeString (TrimSpace (sl_PayloadB64 bundle)) = Some payload"
    "b64_DecodeString (TrimSpace (sl_SignatureB64 bundle)) = Some signature"
    "loadResponseTrustRoot pk trf w = (Inr key, w')" "ed25519_Verify C key payload signature"
    "decodeStrict jd ja payload = Some l0" "check_lease tenantID agentID now t l0 = Inr l"
    using assms(1) by (auto simp: VerifyLease_def split: prod.splits sum.splits option.splits if_splits)
  obtain r w1 where rd: "os_ReadFile trf w = (r, w1)" by (rule prod.exhaust)
  have "\<exists>pem. fs_content (files w) trf = Some pem \<and> pk pem = Some key"
    using os_ReadFile_cases(3) [OF rd] v(3)
    by (auto simp: loadResponseTrustRoot_def rd split: sum.splits option.splits)
  then show ?thesis using v check_lease_valid [OF v(6) assms(2)] by blast
qed

definition demo_lease :: Lease where
  "demo_lease = \<lparr>ls_Schema = ''ntshield-response/v1'', ls_ActionID = ''a1'', ls_TenantID = ''t'', ls_AgentID = ''g'',
     ls_IncidentID = [], ls_Tool = ''host.isolate'', ls_Args = Some [], ls_Reason = ''r'', ls_Risk = ''contain'',
     ls_RequestedBy = ''op'', ls_RequestedAt = 1000, ls_ApprovedBy = ''boss'', ls_ApprovedAt = 1500,
     ls_ActionExpiresAt = 9000, ls_LeaseIssuedAt = 1600, ls_LeaseExpiresAt = 8000\<rparr>"

definition demo_bundle :: SignedLease where
  "demo_bundle = \<lparr>sl_PayloadB64 = b64_EncodeToString ''P'', sl_SignatureB64 = b64_EncodeToString ''kP'',
     sl_SHA256 = sha_hex toy_crypto ''P''\<rparr>"

definition demo_trust :: world where
  "demo_trust = \<lparr>files = [(''/tr'', \<lparr>content = ''k'', perm = 384, mtime = 1\<rparr>)], faults = [], events = [], clock = 2000,
     clock_steps = []\<rparr>"

definition demo_decode :: "string \<Rightarrow> (Lease \<times> string) option" where
  "demo_decode s = (if s = ''P'' then Some (demo_lease, []) else None)"

lemma demo_verifies:
  "VerifyLease toy_crypto Some demo_decode (\<lambda>_. None) demo_bundle ''/tr'' ''t'' ''g'' 2000 0 demo_trust = (Inr demo_lease, demo_trust)"
  by code_simp

theorem VerifyLease_sound_witness: "lease_valid ''t'' ''g'' 2000 demo_lease"
  using VerifyLease_sound [OF demo_verifies] by simp

text \<open>What the agent builds from a verified lease is exactly an approved action: the policy engine
  finds the approval to cover the request (same digest, unexpired, named approver) as long as the lease
  has not expired, so the engine refuses it only for a deny rule, for its life time, or for a tool that
  needs no approval.\<close>

theorem lease_request_is_approved:
  assumes "lease_valid tenantID agentID now0 l" and "ls_Args l \<noteq> None"
    and "Lease_ActionRequest C mj l = Some (request, digest)" and "now \<le> ls_LeaseExpiresAt l"
  shows "dec_Allowed (Evaluate C mj pol newid t now request) \<longleftrightarrow>
    ls_Tool l \<notin> set (pol_DenyTools pol)
    \<and> ls_ActionExpiresAt l \<le> ls_RequestedAt l + seconds (pol_MaxActionTTLSeconds pol)"
proof -
  have r: "request = (lease_request l)\<lparr>req_Approval := Some
      \<lparr>app_ID = ''broker:'' @ ls_ActionID l, app_ActionDigest = digest, app_ApprovedBy = ls_ApprovedBy l,
       app_ApprovedAt = ls_ApprovedAt l, app_ExpiresAt = ls_LeaseExpiresAt l\<rparr>\<rparr>"
    and d: "ActionDigest C mj (lease_request l) = Some digest"
    using assms(3) by (auto simp: Lease_ActionRequest_def split: option.splits)
  have v: "ls_Risk l \<in> {RiskContain, RiskModify}" "ls_RequestedAt l \<noteq> 0" "ls_ActionExpiresAt l \<noteq> 0"
    "ls_ApprovedBy l \<noteq> []" "ls_LeaseExpiresAt l \<le> ls_ActionExpiresAt l" "ls_ActionID l \<noteq> []"
    using assms(1) by (auto simp: lease_valid_def TrimSpace_def)
  have e: "effective pol newid t request = request"
    using v assms(2)
    by (auto simp: effective_def ActionRequest_Prepare_def r lease_request_def Let_def time_defs mode_defs trust_defs)
  have "ActionDigest C mj request = Some digest"
    using d by (simp add: ActionDigest_def canonical_of_def r)
  then have a: "approves C mj now (the (req_Approval request)) request"
    using v(4) assms(4) by (simp add: approves_def r)
  have s: "req_Tool request = ls_Tool l" "req_Risk request = ls_Risk l" "req_ExpiresAt request = ls_ActionExpiresAt l"
    "req_RequestedAt request = ls_RequestedAt l" "req_TriggerTrust request = TrustOperator"
    "\<exists>a. req_Approval request = Some a"
    by (simp_all add: r lease_request_def)
  have "barred pol request \<longleftrightarrow> ls_Tool l \<in> set (pol_DenyTools pol)"
    using v(1) by (auto simp: barred_def s risk_defs IsUntrusted_def trust_defs)
  moreover have "live pol now request \<longleftrightarrow>
      ls_ActionExpiresAt l \<le> ls_RequestedAt l + seconds (pol_MaxActionTTLSeconds pol)"
    using v(5) assms(4) by (auto simp: live_def s)
  moreover have "needs_approval pol request" using v(1) by (auto simp: needs_approval_def s)
  moreover have "\<exists>a. req_Approval request = Some a \<and> approves C mj now a request" using a s(6) by auto
  ultimately show ?thesis by (auto simp: allowed_iff Let_def e)
qed

lemma demo_lease_valid: "lease_valid ''t'' ''g'' 2000 demo_lease"
  by code_simp

theorem lease_request_is_approved_witness:
  "\<exists>request digest. Lease_ActionRequest toy_crypto demo_mj demo_lease = Some (request, digest)
     \<and> (dec_Allowed (Evaluate toy_crypto demo_mj Default [] 0 2500 request) \<longleftrightarrow>
       ls_Tool demo_lease \<notin> set (pol_DenyTools Default)
       \<and> ls_ActionExpiresAt demo_lease \<le> ls_RequestedAt demo_lease + seconds (pol_MaxActionTTLSeconds Default))"
proof -
  obtain request digest where r: "Lease_ActionRequest toy_crypto demo_mj demo_lease = Some (request, digest)"
    by (auto simp: Lease_ActionRequest_def ActionDigest_def demo_mj_def)
  have "ls_Args demo_lease \<noteq> None" "2500 \<le> ls_LeaseExpiresAt demo_lease" by (simp_all add: demo_lease_def)
  from lease_request_is_approved [OF demo_lease_valid this(1) r this(2)] show ?thesis using r by blast
qed

end
