(* ===== verification/Ledger.thy ===== *)
theory Ledger
  imports Lease Quarantine
begin

text \<open>
  \<open>responseexec/ledger.go\<close>: the signed, persistent replay ledger. The JSON codec of its state is a
  parameter: \<open>lc_Marshal\<close> (compact), \<open>lc_MarshalIndent\<close>, \<open>lc_Unmarshal\<close>, and \<open>lc_Valid\<close> for
  \<open>json.Valid\<close>.
\<close>

section \<open>State\<close>

record LedgerEntry =
  le_ActionDigest :: string
  le_Status :: string
  le_StartedAt :: gtime
  le_CompletedAt :: gtime
  le_Result :: string

type_synonym entries = "(string \<times> LedgerEntry) list"

record ledgerState =
  lst_Entries :: "entries option"
  lst_Signature :: string

record Ledger =
  lg_path :: string
  lg_identityKey :: string
  lg_entries :: entries

record ledger_codec =
  lc_Marshal :: "ledgerState \<Rightarrow> string option"
  lc_MarshalIndent :: "ledgerState \<Rightarrow> string option"
  lc_Unmarshal :: "string \<Rightarrow> ledgerState option"
  lc_Valid :: "string \<Rightarrow> bool"

definition maxLedgerEntries :: nat where "maxLedgerEntries = 4096"

datatype ledger_error =
    GErrIdentity | GErrRead oserr | GErrDecode | GErrSignature | GErrEntry | GErrEncode | GErrWrite oserr
  | GErrRequired | GErrConflict | GErrIndeterminate | GErrNotStarted | GErrDifferentResult | GErrInvalidJSON

section \<open>Loading and saving\<close>

definition entry_ok :: "ledger_codec \<Rightarrow> LedgerEntry \<Rightarrow> bool" where
  "entry_ok L e =
     (le_ActionDigest e \<noteq> [] \<and> (le_Status e = ''started'' \<or> le_Status e = ''completed'')
      \<and> (le_Status e = ''completed'' \<longrightarrow> lc_Valid L (le_Result e)))"

definition load ::
  "crypto \<Rightarrow> ledger_codec \<Rightarrow> Ledger \<Rightarrow> world \<Rightarrow> (ledger_error, Ledger) result \<times> world" where
  "load C L l w =
     (case os_ReadFile (lg_path l) w of
        (Inl ErrNotExist, w1) \<Rightarrow> (Inr l, w1)
      | (Inl e, w1) \<Rightarrow> (Inl (GErrRead e), w1)
      | (Inr c, w1) \<Rightarrow>
          (case lc_Unmarshal L c of
             None \<Rightarrow> (Inl GErrDecode, w1)
           | Some st \<Rightarrow>
               (case b64_DecodeString (lst_Signature st) of
                  None \<Rightarrow> (Inl GErrSignature, w1)
                | Some signature \<Rightarrow>
                    (case lc_Marshal L (st\<lparr>lst_Signature := []\<rparr>) of
                       None \<Rightarrow> (Inl GErrEncode, w1)
                     | Some plain \<Rightarrow>
                         if \<not> ed25519_Verify C (ed25519_Public C (lg_identityKey l)) plain signature
                         then (Inl GErrSignature, w1)
                         else let es = (case lst_Entries st of None \<Rightarrow> [] | Some es \<Rightarrow> es)
                              in if list_all (\<lambda>(_, e). entry_ok L e) es then (Inr (l\<lparr>lg_entries := es\<rparr>), w1)
                                 else (Inl GErrEntry, w1)))))"

definition OpenLedger ::
  "crypto \<Rightarrow> ledger_codec \<Rightarrow> (string \<Rightarrow> string option) \<Rightarrow> string \<Rightarrow> string \<Rightarrow> world \<Rightarrow>
     (ledger_error, Ledger) result \<times> world" where
  "OpenLedger C L kp path identityKeyFile w =
     (case identity_Load kp identityKeyFile w of
        (Inl _, w1) \<Rightarrow> (Inl GErrIdentity, w1)
      | (Inr key, w1) \<Rightarrow> load C L \<lparr>lg_path = path, lg_identityKey = key, lg_entries = []\<rparr> w1)"

definition saveLocked ::
  "crypto \<Rightarrow> ledger_codec \<Rightarrow> Ledger \<Rightarrow> world \<Rightarrow> (ledger_error, unit) result \<times> world" where
  "saveLocked C L l w =
     (let st = \<lparr>lst_Entries = Some (lg_entries l), lst_Signature = []\<rparr>
      in case lc_Marshal L st of
           None \<Rightarrow> (Inl GErrEncode, w)
         | Some plain \<Rightarrow>
             (case lc_MarshalIndent L
                     (st\<lparr>lst_Signature := b64_EncodeToString (ed25519_Sign C (lg_identityKey l) plain)\<rparr>) of
                None \<Rightarrow> (Inl GErrEncode, w)
              | Some encoded \<Rightarrow>
                  (case replaceLedgerFile (lg_path l) (encoded @ [CHR 0x0A]) mode_private w of
                     (Inl e, w1) \<Rightarrow> (Inl (GErrWrite e), w1)
                   | (Inr _, w1) \<Rightarrow> (Inr (), w1))))"

section \<open>Pruning\<close>

text \<open>\<open>pruneLocked\<close>: while there are too many entries, drop completed ones, the oldest first. Entries of
  the same age are taken in the order of the list; the code takes them in an unspecified order.\<close>

definition entry_time :: "LedgerEntry \<Rightarrow> gtime" where
  "entry_time e = (if IsZero (le_CompletedAt e) then le_StartedAt e else le_CompletedAt e)"

fun prune_loop :: "string list \<Rightarrow> entries \<Rightarrow> entries" where
  "prune_loop [] es = es"
| "prune_loop (i # is) es =
     (if length es \<le> maxLedgerEntries then es else prune_loop is (AList.delete i es))"

definition pruneLocked :: "entries \<Rightarrow> entries" where
  "pruneLocked es =
     (if length es \<le> maxLedgerEntries then es
      else prune_loop (map fst (sort_key (\<lambda>(_, e). entry_time e) (filter (\<lambda>(_, e). le_Status e = ''completed'') es))) es)"

section \<open>Begin and Complete\<close>

datatype begin_outcome = Refused ledger_error | Replay string | Fresh

definition Begin ::
  "crypto \<Rightarrow> ledger_codec \<Rightarrow> string \<Rightarrow> string \<Rightarrow> Ledger \<Rightarrow> world \<Rightarrow> begin_outcome \<times> Ledger \<times> world" where
  "Begin C L actionID actionDigest l w =
     (if TrimSpace actionID = [] \<or> TrimSpace actionDigest = [] then (Refused GErrRequired, l, w)
      else case map_of (lg_entries l) actionID of
        Some existing \<Rightarrow>
          (if le_ActionDigest existing \<noteq> actionDigest then (Refused GErrConflict, l, w)
           else if le_Status existing = ''completed'' \<and> le_Result existing \<noteq> [] then (Replay (le_Result existing), l, w)
           else (Refused GErrIndeterminate, l, w))
      | None \<Rightarrow>
          (let (now, w0) = time_Now w;
               l1 = l\<lparr>lg_entries := pruneLocked (AList.update actionID
                       \<lparr>le_ActionDigest = actionDigest, le_Status = ''started'', le_StartedAt = now,
                        le_CompletedAt = 0, le_Result = []\<rparr> (lg_entries l))\<rparr>
           in case saveLocked C L l1 w0 of
                (Inl e, w1) \<Rightarrow> (Refused e, l1\<lparr>lg_entries := AList.delete actionID (lg_entries l1)\<rparr>, w1)
              | (Inr _, w1) \<Rightarrow> (Fresh, l1, w1)))"

definition Complete ::
  "crypto \<Rightarrow> ledger_codec \<Rightarrow> string \<Rightarrow> string \<Rightarrow> string \<Rightarrow> Ledger \<Rightarrow> world \<Rightarrow>
     (ledger_error, unit) result \<times> Ledger \<times> world" where
  "Complete C L actionID actionDigest res l w =
     (case map_of (lg_entries l) actionID of
        None \<Rightarrow> (Inl GErrNotStarted, l, w)
      | Some entry \<Rightarrow>
          if le_ActionDigest entry \<noteq> actionDigest then (Inl GErrConflict, l, w)
          else if le_Status entry = ''completed'' then
            (if le_Result entry \<noteq> res then (Inl GErrDifferentResult, l, w) else (Inr (), l, w))
          else if \<not> lc_Valid L res then (Inl GErrInvalidJSON, l, w)
          else (let (now, w0) = time_Now w;
                    l1 = l\<lparr>lg_entries := AList.update actionID
                      (entry\<lparr>le_Status := ''completed'', le_CompletedAt := now, le_Result := res\<rparr>) (lg_entries l)\<rparr>
                in case saveLocked C L l1 w0 of (r, w1) \<Rightarrow> (r, l1, w1)))"

section \<open>What pruning keeps\<close>

lemma prune_loop_mem: "p \<in> set (prune_loop is es) \<Longrightarrow> p \<in> set es"
  by (induction "is" es rule: prune_loop.induct) (auto simp: mem_delete split: if_splits)

lemma prune_loop_distinct: "distinct (map fst es) \<Longrightarrow> distinct (map fst (prune_loop is es))"
  by (induction "is" es rule: prune_loop.induct) (auto intro: distinct_delete)

lemma prune_loop_other: "i \<notin> set is \<Longrightarrow> map_of (prune_loop is es) i = map_of es i"
  by (induction "is" es rule: prune_loop.induct) (auto simp: map_of_delete)

lemma prune_loop_length:
  "distinct is \<Longrightarrow> set is \<subseteq> fst ` set es \<Longrightarrow> distinct (map fst es) \<Longrightarrow>
     length (prune_loop is es) \<le> max maxLedgerEntries (length es - length is)"
proof (induction "is" es rule: prune_loop.induct)
  case (1 es)
  then show ?case by simp
next
  case (2 i "is" es)
  show ?case
  proof (cases "length es \<le> maxLedgerEntries")
    case True
    then show ?thesis by simp
  next
    case False
    have "map_of es i \<noteq> None" using 2(3) by (auto simp: map_of_eq_None_iff)
    then have len: "Suc (length (AList.delete i es)) = length es" using 2(4) by (intro length_delete_present)
    have "set is \<subseteq> fst ` set (AList.delete i es)"
      using 2(2,3) by (force simp: mem_delete)
    then have "length (prune_loop is (AList.delete i es)) \<le> max maxLedgerEntries (length (AList.delete i es) - length is)"
      using 2 False by (intro "2.IH") (auto intro: distinct_delete)
    then show ?thesis using False len by auto
  qed
qed

lemma pruneLocked_id: "length es \<le> maxLedgerEntries \<Longrightarrow> pruneLocked es = es"
  by (simp add: pruneLocked_def)

lemma pruneLocked_mem: "p \<in> set (pruneLocked es) \<Longrightarrow> p \<in> set es"
  by (auto simp: pruneLocked_def dest: prune_loop_mem split: if_splits)

lemma pruneLocked_distinct: "distinct (map fst es) \<Longrightarrow> distinct (map fst (pruneLocked es))"
  by (simp add: pruneLocked_def prune_loop_distinct)

lemma pruneLocked_started:
  assumes "distinct (map fst es)" "map_of es i = Some e" "le_Status e \<noteq> ''completed''"
  shows "map_of (pruneLocked es) i = Some e"
proof -
  have "i \<notin> fst ` set (filter (\<lambda>(_, e). le_Status e = ''completed'') es)"
  proof
    assume "i \<in> fst ` set (filter (\<lambda>(_, e). le_Status e = ''completed'') es)"
    then obtain e' where "(i, e') \<in> set es" "le_Status e' = ''completed''" by auto
    then show False using assms by (auto simp: map_of_eq_Some_iff [OF assms(1)] dest: map_of_is_SomeI [OF assms(1)])
  qed
  then show ?thesis using assms(2) by (simp add: pruneLocked_def prune_loop_other)
qed

section \<open>The ledger as a replay guard\<close>

text \<open>What the runner relies on: starting an action succeeds only for an action that is not known, makes
  it known, and forgets nothing while there is room; completing one forgets nothing.\<close>

locale replay_guard =
  fixes start :: "'i \<Rightarrow> 'd \<Rightarrow> 's \<Rightarrow> 'w \<Rightarrow> bool \<times> 's \<times> 'w"
    and finish :: "'i \<Rightarrow> 'd \<Rightarrow> 'r \<Rightarrow> 's \<Rightarrow> 'w \<Rightarrow> 's \<times> 'w"
    and known :: "'s \<Rightarrow> 'i set" and room :: "'s \<Rightarrow> nat" and ok :: "'s \<Rightarrow> bool"
  assumes start_new: "ok s \<Longrightarrow> start i d s w = (True, s', w') \<Longrightarrow> i \<notin> known s \<and> i \<in> known s'"
    and start_keeps: "ok s \<Longrightarrow> start i d s w = (b, s', w') \<Longrightarrow> 0 < room s \<Longrightarrow>
      known s \<subseteq> known s' \<and> room s \<le> Suc (room s')"
    and start_ok: "ok s \<Longrightarrow> start i d s w = (b, s', w') \<Longrightarrow> ok s'"
    and finish_keeps: "ok s \<Longrightarrow> finish i d r s w = (s', w') \<Longrightarrow> ok s' \<and> known s' = known s \<and> room s' = room s"
begin

text \<open>One turn of a client: it asks at most once, executes only when told so, and may complete. The list
  holds the action executed, if any.\<close>

inductive turn :: "'s \<Rightarrow> 'i list \<Rightarrow> 's \<Rightarrow> bool" where
  turn_idle: "turn s [] s"
| turn_refused: "start i d s w = (False, s', w') \<Longrightarrow> turn s [] s'"
| turn_closed: "start i d s w = (False, s1, w1) \<Longrightarrow> finish i d r s1 w2 = (s', w') \<Longrightarrow> turn s [] s'"
| turn_executed: "start i d s w = (True, s1, w1) \<Longrightarrow> finish i d r s1 w2 = (s', w') \<Longrightarrow> turn s [i] s'"

inductive turns :: "'s \<Rightarrow> nat \<Rightarrow> 'i list \<Rightarrow> 's \<Rightarrow> bool" where
  turns_none: "turns s 0 [] s"
| turns_more: "turn s xs s1 \<Longrightarrow> turns s1 n ys s' \<Longrightarrow> turns s (Suc n) (xs @ ys) s'"

lemma turn_safe:
  assumes "turn s xs s'" "ok s" "0 < room s"
  shows "ok s' \<and> known s \<subseteq> known s' \<and> room s \<le> Suc (room s') \<and> distinct xs
    \<and> set xs \<inter> known s = {} \<and> set xs \<subseteq> known s'"
  using assms
proof (induction rule: turn.induct)
  case (turn_idle s)
  then show ?case by simp
next
  case (turn_refused i d s w s' w')
  then show ?case using start_ok start_keeps by simp
next
  case (turn_closed i d s w s1 w1 r w2 s' w')
  have "ok s1" using start_ok turn_closed by blast
  then show ?case using start_keeps [OF _ turn_closed(1)] finish_keeps [OF _ turn_closed(2)] turn_closed by simp
next
  case (turn_executed i d s w s1 w1 r w2 s' w')
  have "ok s1" using start_ok turn_executed by blast
  then show ?case
    using start_keeps [OF _ turn_executed(1)] finish_keeps [OF _ turn_executed(2)]
      start_new [OF _ turn_executed(1)] turn_executed by simp
qed

lemma at_most_once:
  assumes "turns s n xs s'" "ok s" "n \<le> room s"
  shows "distinct xs \<and> set xs \<inter> known s = {}"
  using assms
proof (induction rule: turns.induct)
  case (turns_none s)
  then show ?case by simp
next
  case (turns_more s xs s1 n ys s')
  have t: "ok s1 \<and> known s \<subseteq> known s1 \<and> room s \<le> Suc (room s1) \<and> distinct xs
      \<and> set xs \<inter> known s = {} \<and> set xs \<subseteq> known s1"
    using turn_safe [OF turns_more(1,4)] turns_more(5) by simp
  then have "distinct ys \<and> set ys \<inter> known s1 = {}" using turns_more(3,5) by simp
  then show ?case using t by auto
qed

end

definition ledger_ok :: "Ledger \<Rightarrow> bool" where
  "ledger_ok l = distinct (map fst (lg_entries l))"

definition recorded :: "Ledger \<Rightarrow> string set" where
  "recorded l = fst ` set (lg_entries l)"

definition ledger_room :: "Ledger \<Rightarrow> nat" where
  "ledger_room l = maxLedgerEntries - length (lg_entries l)"

definition start_action ::
  "crypto \<Rightarrow> ledger_codec \<Rightarrow> string \<Rightarrow> string \<Rightarrow> Ledger \<Rightarrow> world \<Rightarrow> bool \<times> Ledger \<times> world" where
  "start_action C L i d l w = (case Begin C L i d l w of (out, l', w') \<Rightarrow> (out = Fresh, l', w'))"

definition finish_action ::
  "crypto \<Rightarrow> ledger_codec \<Rightarrow> string \<Rightarrow> string \<Rightarrow> string \<Rightarrow> Ledger \<Rightarrow> world \<Rightarrow> Ledger \<times> world" where
  "finish_action C L i d r l w = (case Complete C L i d r l w of (_, l', w') \<Rightarrow> (l', w'))"

lemma not_recorded: "i \<notin> recorded l \<longleftrightarrow> map_of (lg_entries l) i = None"
  by (simp add: recorded_def map_of_eq_None_iff)

text \<open>The three shapes of a call of \<open>Begin\<close>.\<close>

lemma Begin_cases:
  assumes "Begin C L i d l w = (out, l', w')"
  obtains (kept) "l' = l" "out \<noteq> Fresh" "w' = w"
  | (failed) es e where "map_of (lg_entries l) i = None" "es = AList.update i e (lg_entries l)"
      "l' = l\<lparr>lg_entries := AList.delete i (pruneLocked es)\<rparr>" "out \<noteq> Fresh"
  | (fresh) e t w0 where "map_of (lg_entries l) i = None" "out = Fresh" "TrimSpace i \<noteq> []" "TrimSpace d \<noteq> []"
      "time_Now w = (t, w0)"
      "e = \<lparr>le_ActionDigest = d, le_Status = ''started'', le_StartedAt = t, le_CompletedAt = 0, le_Result = []\<rparr>"
      "l' = l\<lparr>lg_entries := pruneLocked (AList.update i e (lg_entries l))\<rparr>"
      "saveLocked C L l' w0 = (Inr (), w')"
proof (cases "TrimSpace i = [] \<or> TrimSpace d = [] \<or> map_of (lg_entries l) i \<noteq> None")
  case True
  then have "l' = l" "out \<noteq> Fresh" "w' = w" using assms by (auto simp: Begin_def split: option.splits if_splits)
  then show thesis by (rule kept)
next
  case False
  obtain t w0 where t: "time_Now w = (t, w0)" by (rule prod.exhaust)
  define e where "e = \<lparr>le_ActionDigest = d, le_Status = ''started'', le_StartedAt = t, le_CompletedAt = 0, le_Result = []\<rparr>"
  define l1 where "l1 = l\<lparr>lg_entries := pruneLocked (AList.update i e (lg_entries l))\<rparr>"
  obtain r w1 where sv: "saveLocked C L l1 w0 = (r, w1)" by (rule prod.exhaust)
  show thesis
  proof (cases r)
    case (Inl x)
    then have "l' = l\<lparr>lg_entries := AList.delete i (pruneLocked (AList.update i e (lg_entries l)))\<rparr>" "out = Refused x"
      using assms False t sv by (auto simp: Begin_def Let_def e_def l1_def)
    then show thesis using failed False by auto
  next
    case (Inr u)
    then have "l' = l1" "out = Fresh" "w' = w1"
      using assms False t sv by (auto simp: Begin_def Let_def e_def l1_def)
    then show thesis using fresh [OF _ _ _ _ t e_def] False sv Inr by (simp add: l1_def)
  qed
qed

lemma Complete_entries:
  assumes "Complete C L i d r l w = (q, l', w')"
  shows "fst ` set (lg_entries l') = fst ` set (lg_entries l) \<and> length (lg_entries l') = length (lg_entries l)
    \<and> (distinct (map fst (lg_entries l)) \<longrightarrow> distinct (map fst (lg_entries l')))"
proof (cases "l' = l")
  case True
  then show ?thesis by simp
next
  case False
  then obtain e0 e where m: "map_of (lg_entries l) i = Some e0" "lg_entries l' = AList.update i e (lg_entries l)"
    using assms by (auto simp: Complete_def Let_def split: option.splits if_splits prod.splits)
  have e: "i \<in> fst ` set (lg_entries l)" "lg_entries l' = AList.update i e (lg_entries l)"
    using map_of_SomeD [OF m(1)] m(2) by (auto intro: rev_image_eqI)
  have "map fst (AList.update i e (lg_entries l)) = map fst (lg_entries l)" using e(1) by (simp add: update_keys)
  then show ?thesis using e(2) by (metis length_map list.set_map)
qed

interpretation lgr: replay_guard "start_action C L" "finish_action C L" recorded ledger_room ledger_ok for C L
proof
  fix s s' :: Ledger and i d r :: string and w w' :: world and b
  assume ok: "ledger_ok s"
  show "i \<notin> recorded s \<and> i \<in> recorded s'" if "start_action C L i d s w = (True, s', w')"
  proof -
    from that have "Begin C L i d s w = (Fresh, s', w')" by (auto simp: start_action_def split: prod.splits)
    then show ?thesis
    proof (cases rule: Begin_cases)
      case (fresh e t w0)
      have "map_of (lg_entries s') i = Some e"
        using fresh(6,7) ok pruneLocked_started [of "AList.update i e (lg_entries s)" i e]
        by (simp add: ledger_ok_def distinct_update map_of_update)
      then show ?thesis using fresh(1) by (metis not_recorded option.distinct(1))
    qed auto
  qed
  show "ledger_ok s'" if "start_action C L i d s w = (b, s', w')"
  proof -
    from that obtain out where "Begin C L i d s w = (out, s', w')" by (auto simp: start_action_def split: prod.splits)
    then show ?thesis using ok
      by (cases rule: Begin_cases) (auto simp: ledger_ok_def intro: distinct_update distinct_delete pruneLocked_distinct)
  qed
  show "recorded s \<subseteq> recorded s' \<and> ledger_room s \<le> Suc (ledger_room s')"
    if "start_action C L i d s w = (b, s', w')" "0 < ledger_room s"
  proof -
    have small: "length (AList.update i e (lg_entries s)) \<le> maxLedgerEntries" for e
      using length_update_le [of i e "lg_entries s"] that(2) by (simp add: ledger_room_def)
    from that obtain out where "Begin C L i d s w = (out, s', w')" by (auto simp: start_action_def split: prod.splits)
    then show ?thesis
    proof (cases rule: Begin_cases)
      case kept
      then show ?thesis by simp
    next
      case (failed es e)
      have "length (AList.delete i (pruneLocked es)) \<le> length es" using small [of e] failed(2)
        by (simp add: pruneLocked_id length_delete_le)
      moreover have "length es = Suc (length (lg_entries s))" using failed(1,2) by (simp add: length_update_new)
      moreover have "fst ` set (AList.delete i (pruneLocked es)) = fst ` set (lg_entries s) - {i}"
        using small [of e] failed(2) by (simp add: pruneLocked_id dom_map_of_conv_image_fst [symmetric] delete_conv' update_conv')
      moreover have "i \<notin> fst ` set (lg_entries s)" using failed(1) by (simp add: map_of_eq_None_iff)
      ultimately show ?thesis using failed(3) by (auto simp: recorded_def ledger_room_def)
    next
      case (fresh e t w0)
      then have "lg_entries s' = AList.update i e (lg_entries s)" using small [of e] by (simp add: pruneLocked_id)
      moreover have "length (AList.update i e (lg_entries s)) = Suc (length (lg_entries s))"
        using fresh(1) by (rule length_update_new)
      ultimately show ?thesis
        by (auto simp: recorded_def ledger_room_def dom_map_of_conv_image_fst [symmetric] update_conv')
    qed
  qed
  show "ledger_ok s' \<and> recorded s' = recorded s \<and> ledger_room s' = ledger_room s"
    if "finish_action C L i d r s w = (s', w')"
  proof -
    from that obtain q where "Complete C L i d r s w = (q, s', w')" by (auto simp: finish_action_def split: prod.splits)
    from Complete_entries [OF this] ok show ?thesis by (simp add: ledger_ok_def recorded_def ledger_room_def)
  qed
qed

section \<open>Persistence\<close>

text \<open>The codec's laws at one state: what \<open>MarshalIndent\<close> wrote, with the final newline, decodes to the
  state again.\<close>

definition state_round_trip :: "ledger_codec \<Rightarrow> ledgerState \<Rightarrow> bool" where
  "state_round_trip L st = (\<forall>text. lc_MarshalIndent L st = Some text \<longrightarrow> lc_Unmarshal L (text @ [CHR 0x0A]) = Some st)"

definition signed_state :: "crypto \<Rightarrow> ledger_codec \<Rightarrow> Ledger \<Rightarrow> ledgerState" where
  "signed_state C L l =
     (let st = \<lparr>lst_Entries = Some (lg_entries l), lst_Signature = []\<rparr>
      in st\<lparr>lst_Signature := b64_EncodeToString (ed25519_Sign C (lg_identityKey l) (the (lc_Marshal L st)))\<rparr>)"

lemma saveLocked_ok:
  assumes "saveLocked C L l w = (Inr (), w')"
  obtains plain enc where "lc_Marshal L \<lparr>lst_Entries = Some (lg_entries l), lst_Signature = []\<rparr> = Some plain"
    "lc_MarshalIndent L (signed_state C L l) = Some enc"
    "replaceLedgerFile (lg_path l) (enc @ [CHR 0x0A]) mode_private w = (Inr (), w')"
  using assms by (auto simp: saveLocked_def signed_state_def Let_def split: option.splits sum.splits prod.splits)

lemma load_saved:
  assumes save: "saveLocked C L l w = (Inr (), w')" and h: "faults w' = []" "signatures_verify C"
    and rt: "state_round_trip L (signed_state C L l)" and ok: "list_all (\<lambda>(_, e). entry_ok L e) (lg_entries l)"
  shows "load C L (l\<lparr>lg_entries := []\<rparr>) w' = (Inr l, w')"
proof -
  obtain plain enc where s: "lc_Marshal L \<lparr>lst_Entries = Some (lg_entries l), lst_Signature = []\<rparr> = Some plain"
    "lc_MarshalIndent L (signed_state C L l) = Some enc"
    "replaceLedgerFile (lg_path l) (enc @ [CHR 0x0A]) mode_private w = (Inr (), w')"
    using save by (rule saveLocked_ok)
  have "fs_content (files w') (lg_path l) = Some (enc @ [CHR 0x0A])" by (rule rll.installs [OF s(3)])
  then obtain f where f: "fs_get (files w') (lg_path l) = Some f" "content f = enc @ [CHR 0x0A]"
    by (auto simp: fs_content_def)
  have rd: "os_ReadFile (lg_path l) w' = (Inr (enc @ [CHR 0x0A]), w')"
    using h(1) f by (simp add: os_ReadFile_def next_fault_def)
  have un: "lc_Unmarshal L (enc @ [CHR 0x0A]) = Some (signed_state C L l)"
    using rt s(2) by (simp add: state_round_trip_def)
  have sg: "lst_Signature (signed_state C L l) = b64_EncodeToString (ed25519_Sign C (lg_identityKey l) plain)"
    "lc_Marshal L ((signed_state C L l)\<lparr>lst_Signature := []\<rparr>) = Some plain"
    "lst_Entries (signed_state C L l) = Some (lg_entries l)"
    using s(1) by (simp_all add: signed_state_def Let_def)
  have "ed25519_Verify C (ed25519_Public C (lg_identityKey l)) plain (ed25519_Sign C (lg_identityKey l) plain)"
    using h(2) by (simp add: signatures_verify_def)
  then show ?thesis using rd un sg s(1) ok by (simp add: load_def)
qed

lemma list_all_update:
  "P (k, v) \<Longrightarrow> list_all P al \<Longrightarrow> list_all P (AList.update k v al)"
  by (induction al) auto


text \<open>A codec for the witnesses: it names a state by its signature.\<close>

definition demo_ledger :: Ledger where
  "demo_ledger = \<lparr>lg_path = ''/l'', lg_identityKey = ''k'', lg_entries = []\<rparr>"

definition demo_entry :: LedgerEntry where
  "demo_entry = \<lparr>le_ActionDigest = ''d'', le_Status = ''started'', le_StartedAt = 7, le_CompletedAt = 0, le_Result = []\<rparr>"

definition demo_ledger_codec :: ledger_codec where
  "demo_ledger_codec = \<lparr>lc_Marshal = (\<lambda>_. Some ''s''), lc_MarshalIndent = (\<lambda>st. Some (lst_Signature st)),
     lc_Unmarshal = (\<lambda>t. if t = b64_EncodeToString ''ks'' @ [CHR 0x0A]
        then Some \<lparr>lst_Entries = Some [(''a'', demo_entry)], lst_Signature = b64_EncodeToString ''ks''\<rparr> else None),
     lc_Valid = (\<lambda>_. True)\<rparr>"

definition demo_ledger_world :: world where
  "demo_ledger_world = \<lparr>files = [(''/k'', \<lparr>content = ''k'', perm = 384, mtime = 0\<rparr>), (''/l'', \<lparr>content = ''x'', perm = 384, mtime = 0\<rparr>)],
     faults = [], events = [], clock = 7, clock_steps = []\<rparr>"

lemma demo_begin:
  "\<exists>w'. Begin toy_crypto demo_ledger_codec ''a'' ''d'' demo_ledger demo_ledger_world =
     (Fresh, demo_ledger\<lparr>lg_entries := [(''a'', demo_entry)]\<rparr>, w') \<and> faults w' = [] \<and> fs_content (files w') ''/k'' = Some ''k''"
proof -
  have "fst (Begin toy_crypto demo_ledger_codec ''a'' ''d'' demo_ledger demo_ledger_world) = Fresh"
    "fst (snd (Begin toy_crypto demo_ledger_codec ''a'' ''d'' demo_ledger demo_ledger_world)) =
      demo_ledger\<lparr>lg_entries := [(''a'', demo_entry)]\<rparr>"
    "faults (snd (snd (Begin toy_crypto demo_ledger_codec ''a'' ''d'' demo_ledger demo_ledger_world))) = []"
    "fs_content (files (snd (snd (Begin toy_crypto demo_ledger_codec ''a'' ''d'' demo_ledger demo_ledger_world)))) ''/k'' = Some ''k''"
    by (code_simp, code_simp, code_simp, code_simp)
  then show ?thesis by (metis prod.collapse)
qed


text \<open>C12. The ledger's promise has a hole: replacing the file first moves the old version away, so a
  crash between the two renames leaves no ledger at its path, and opening the ledger then starts from an
  empty one. Every action recorded so far, completed or started, is forgotten and would be executed
  again. This happens without any failing system call, each time a new action begins.\<close>

theorem crash_during_Begin_forgets_all_actions:
  assumes "faults w = []" and "fs_content (files w) (lg_path l) \<noteq> None"
    and "map_of (lg_entries l) i = None" and "TrimSpace i \<noteq> []" and "TrimSpace d \<noteq> []"
    and "\<forall>st. lc_Marshal L st \<noteq> None \<and> lc_MarshalIndent L st \<noteq> None"
    and "fs_content (files w) kf = Some pem" and "kp pem = Some key"
    and "kf \<notin> {lg_path l, lg_path l @ ''.new'', lg_path l @ ''.bak''}"
  shows "\<exists>es u l' w'. Begin C L i d l w = (Fresh, l', w') \<and> steps w es w' \<and> crashes (files w) es u
    \<and> (\<forall>w1. files w1 = u \<and> faults w1 = [] \<longrightarrow>
         OpenLedger C L kp (lg_path l) kf w1 = (Inr \<lparr>lg_path = lg_path l, lg_identityKey = key, lg_entries = []\<rparr>, w1))"
proof -
  obtain t w0 where t: "time_Now w = (t, w0)" by (rule prod.exhaust)
  note t' = time_Now_eqs [OF t]
  define l1 where "l1 = l\<lparr>lg_entries := pruneLocked (AList.update i
      \<lparr>le_ActionDigest = d, le_Status = ''started'', le_StartedAt = t, le_CompletedAt = 0, le_Result = []\<rparr> (lg_entries l))\<rparr>"
  have p: "lg_path l1 = lg_path l" by (simp add: l1_def)
  obtain plain enc where m: "lc_Marshal L \<lparr>lst_Entries = Some (lg_entries l1), lst_Signature = []\<rparr> = Some plain"
    "lc_MarshalIndent L \<lparr>lst_Entries = Some (lg_entries l1), lst_Signature = b64_EncodeToString (ed25519_Sign C (lg_identityKey l1) plain)\<rparr> = Some enc"
    using assms(6) by (metis option.exhaust)
  have "fs_get (files w0) (lg_path l) \<noteq> None" "faults w0 = []" using assms(1,2) t' by (auto simp: fs_content_def)
  then obtain es w' u where r: "replaceLedgerFile (lg_path l) (enc @ [CHR 0x0A]) mode_private w0 = (Inr (), w')"
    "steps w0 es w'" "crashes (files w0) es u" "fs_content u (lg_path l) = None"
    using replaceLedgerFile_window by blast
  have b: "Begin C L i d l w = (Fresh, l1, w')"
    using assms(3-5) t m r(1) p by (simp add: Begin_def Let_def saveLocked_def l1_def)
  have st: "steps w es w'" "crashes (files w) es u" using r(2,3) t' by (simp_all add: steps_def)
  have "quiet kf w0 w'" using rll.others [OF r(1)] assms(9) by simp
  have kf: "fs_content u kf = Some pem"
  proof -
    obtain es' where es': "steps w0 es' w'" "list_all (harmless kf) es'"
      using \<open>quiet kf w0 w'\<close> by (auto simp: quiet_def)
    then have "es' = es" using r(2) by (simp add: steps_def)
    then show ?thesis using harmless_crashes [OF r(3)] es'(2) assms(7) t' by simp
  qed
  have "OpenLedger C L kp (lg_path l) kf w1 = (Inr \<lparr>lg_path = lg_path l, lg_identityKey = key, lg_entries = []\<rparr>, w1)"
    if asm: "files w1 = u" "faults w1 = []" for w1
  proof -
    obtain f where "fs_get (files w1) kf = Some f" "content f = pem"
      using kf unfolding asm(1) [symmetric] fs_content_def by auto
    moreover have "fs_get (files w1) (lg_path l) = None" using r(4) unfolding asm(1) [symmetric] fs_content_def by simp
    ultimately show ?thesis
      using asm assms(8) by (simp add: OpenLedger_def identity_Load_def load_def os_ReadFile_def next_fault_def)
  qed
  then show ?thesis using b st by blast
qed

theorem crash_during_Begin_forgets_all_actions_witness:
  "\<exists>es u l' w'. Begin toy_crypto demo_ledger_codec ''a'' ''d'' demo_ledger demo_ledger_world = (Fresh, l', w')
    \<and> steps demo_ledger_world es w' \<and> crashes (files demo_ledger_world) es u
    \<and> (\<forall>w1. files w1 = u \<and> faults w1 = [] \<longrightarrow>
         OpenLedger toy_crypto demo_ledger_codec Some (lg_path demo_ledger) ''/k'' w1 =
           (Inr \<lparr>lg_path = lg_path demo_ledger, lg_identityKey = ''k'', lg_entries = []\<rparr>, w1))"
  by (rule crash_during_Begin_forgets_all_actions [where pem = "''k''"])
    (simp_all add: demo_ledger_def demo_ledger_world_def demo_ledger_codec_def TrimSpace_def is_space_def fs_content_def fs_get_def)

end
