(* ===== verification/Responder.thy ===== *)
theory Responder
  imports Ledger Containment
begin

text \<open>
  \<open>responseexec/runner.go\<close> and the parts of \<open>client.go\<close> it drives: one round of the response runner,
  from the pinned trust root through lease, ledger and tool registry to the acknowledged result. What
  the network returns is input; HTTP and TLS themselves are outside the model.
\<close>

section \<open>The client\<close>

text \<open>The outcome of a signed GET: no response, or a status and a body.\<close>

datatype http = NoResponse | Response nat string

datatype client_error = CErrNetwork | CErrStatus nat | CErrDecode | CErrKey | CErrOS oserr | CErrRootChanged

text \<open>\<open>pk\<close> parses a PEM public key, \<open>jt\<close> extracts \<open>public_key_pem\<close> from the body.\<close>

definition EnsureTrustRoot ::
  "(string \<Rightarrow> string option) \<Rightarrow> (string \<Rightarrow> string option) \<Rightarrow> http \<Rightarrow> string \<Rightarrow> world \<Rightarrow> (client_error, unit) result \<times> world" where
  "EnsureTrustRoot pk jt reply trustRootFile w =
     (case reply of
        NoResponse \<Rightarrow>
          (case os_Stat trustRootFile w of
             (Inr _, w1) \<Rightarrow> (Inr (), w1)
           | (Inl _, w1) \<Rightarrow> (Inl CErrNetwork, w1))
      | Response status body \<Rightarrow>
          if status \<noteq> 200 then (Inl (CErrStatus status), w)
          else case jt body of
            None \<Rightarrow> (Inl CErrDecode, w)
          | Some pem \<Rightarrow>
              (case pk pem of
                 None \<Rightarrow> (Inl CErrKey, w)
               | Some remoteKey \<Rightarrow>
                   (case os_ReadFile trustRootFile w of
                      (Inl ErrNotExist, w1) \<Rightarrow>
                        (case os_MkdirAll (filepath_Dir trustRootFile) mode_private_dir w1 of
                           (Inl e, w2) \<Rightarrow> (Inl (CErrOS e), w2)
                         | (Inr _, w2) \<Rightarrow>
                             (case os_WriteFile trustRootFile pem mode_private w2 of
                                (Inl e, w3) \<Rightarrow> (Inl (CErrOS e), w3)
                              | (Inr _, w3) \<Rightarrow>
                                  (case os_Chmod trustRootFile mode_private w3 of
                                     (Inl e, w4) \<Rightarrow> (Inl (CErrOS e), w4)
                                   | (Inr _, w4) \<Rightarrow> (Inr (), w4))))
                    | (Inl e, w1) \<Rightarrow> (Inl (CErrOS e), w1)
                    | (Inr current, w1) \<Rightarrow>
                        (case pk current of
                           None \<Rightarrow> (Inl CErrKey, w1)
                         | Some localKey \<Rightarrow>
                             if localKey \<noteq> remoteKey then (Inl CErrRootChanged, w1) else (Inr (), w1)))))"

definition Fetch :: "(string \<Rightarrow> SignedLease option) \<Rightarrow> http \<Rightarrow> (client_error, SignedLease option) result" where
  "Fetch jb reply =
     (case reply of
        NoResponse \<Rightarrow> Inl CErrNetwork
      | Response status body \<Rightarrow>
          if status = 204 then Inr None
          else if status \<noteq> 200 then Inl (CErrStatus status)
          else case jb body of None \<Rightarrow> Inl CErrDecode | Some l \<Rightarrow> Inr (Some l))"

section \<open>Results\<close>

record ResultPayload =
  rp_ActionID :: string
  rp_TenantID :: string
  rp_AgentID :: string
  rp_Tool :: string
  rp_Status :: string
  rp_DecisionReason :: string
  rp_Error :: "string option"
  rp_ExecutedAt :: gtime
  rp_Data :: gmap

text \<open>The parameters of the runner: cryptography, codecs and the options it uses.\<close>

record runner_env =
  rx_crypto :: crypto
  rx_parsePublic :: "string \<Rightarrow> string option"
  rx_trustReply :: "string \<Rightarrow> string option"
  rx_bundle :: "string \<Rightarrow> SignedLease option"
  rx_lease :: "string \<Rightarrow> (Lease \<times> string) option"
  rx_any :: "string \<Rightarrow> (gval \<times> string) option"
  rx_canonical :: "canonical_action \<Rightarrow> string option"
  rx_result :: "ResultPayload \<Rightarrow> string option"
  rx_fallback :: "Lease \<Rightarrow> gtime \<Rightarrow> string"
  rx_errorText :: "tool_error \<Rightarrow> string"
  rx_ledger :: ledger_codec
  rx_DataDir :: string
  rx_TenantID :: string
  rx_AgentID :: string

text \<open>\<open>resultJSON\<close>: \<open>rx_fallback\<close> is the text built with \<open>fmt.Sprintf\<close> when encoding fails.\<close>

definition resultJSON ::
  "runner_env \<Rightarrow> Lease \<Rightarrow> string \<Rightarrow> string \<Rightarrow> string option \<Rightarrow> gmap \<Rightarrow> world \<Rightarrow> string \<times> world" where
  "resultJSON X l status reason err data w =
     (let (now, w1) = time_Now w;
          payload = \<lparr>rp_ActionID = ls_ActionID l, rp_TenantID = ls_TenantID l, rp_AgentID = ls_AgentID l,
            rp_Tool = ls_Tool l, rp_Status = status, rp_DecisionReason = reason, rp_Error = err,
            rp_ExecutedAt = now, rp_Data = data\<rparr>
      in case rx_result X payload of
           Some encoded \<Rightarrow> (encoded, w1)
         | None \<Rightarrow> (let (now2, w2) = time_Now w1 in (rx_fallback X l now2, w2)))"

text \<open>What a round reads from outside: the two replies, the registry the
  options give at that moment, and a fresh ID.\<close>

record round_input =
  ri_trust :: http
  ri_fetch :: http
  ri_registry :: "(tool_error, Registry) result"
  ri_newid :: string

definition result_data :: "gval \<Rightarrow> gmap" where
  "result_data d = (case d of VNil \<Rightarrow> [] | VMap m \<Rightarrow> m | v \<Rightarrow> [(''value'', v)])"

text \<open>\<open>Runner.execute\<close>.\<close>

definition execute ::
  "runner_env \<Rightarrow> round_input \<Rightarrow> Lease \<Rightarrow> ActionRequest \<Rightarrow> host \<Rightarrow> string \<times> host" where
  "execute X inp l request h =
     (case ri_registry inp of
        Inl e \<Rightarrow>
          on_host (resultJSON X l ''failed'' ''unable to load active local policy/tool registry'' (Some (rx_errorText X e)) []) h
      | Inr reg \<Rightarrow>
          (case find (\<lambda>spec. spec_Name spec = ls_Tool l) (Specs reg) of
             None \<Rightarrow> on_host (resultJSON X l ''rejected'' ''response tool is not registered on this Agent'' None []) h
           | Some spec \<Rightarrow>
               if spec_Risk spec \<noteq> ls_Risk l
               then on_host (resultJSON X l ''rejected'' ''signed response risk does not match local tool risk'' None []) h
               else (case on_host time_Now h of
                 (t0, h1) \<Rightarrow>
                   (case on_host time_Now h1 of
                      (now, h2) \<Rightarrow>
                        (case Registry_Execute (rx_crypto X) (rx_canonical X) (ri_newid inp) t0 now reg request h2 of
                           (res, decision, h3) \<Rightarrow>
                             if \<not> dec_Allowed decision
                             then on_host (resultJSON X l ''rejected'' (dec_Reason decision) None []) h3
                             else (case res of
                               Inl e \<Rightarrow> on_host (resultJSON X l ''failed'' (dec_Reason decision) (Some (rx_errorText X e)) []) h3
                             | Inr out \<Rightarrow>
                                 on_host (resultJSON X l ''succeeded'' (dec_Reason decision) None
                                   (case out of None \<Rightarrow> [] | Some d \<Rightarrow> result_data (res_Data d))) h3))))))"

section \<open>One round\<close>

text \<open>What a round does, for its observers: the action it executed and the result it sent to the control
  plane (whether or not the control plane accepts it).\<close>

datatype action = Executed string | Posted string string

definition trust_file :: "runner_env \<Rightarrow> string" where
  "trust_file X = filepath_Join [rx_DataDir X, ''response-signing.pub'']"

definition post :: "runner_env \<Rightarrow> string \<Rightarrow> string \<Rightarrow> action list" where
  "post X i body = (if TrimSpace i = [] \<or> \<not> lc_Valid (rx_ledger X) body then [] else [Posted i body])"

text \<open>From \<open>ledger.Begin\<close> on.\<close>

definition respond ::
  "runner_env \<Rightarrow> round_input \<Rightarrow> Lease \<Rightarrow> ActionRequest \<Rightarrow> string \<Rightarrow> Ledger \<Rightarrow> host \<Rightarrow> action list \<times> Ledger \<times> host" where
  "respond X inp l request digest ledger h =
     (let C = rx_crypto X; L = rx_ledger X; i = ls_ActionID l
      in case Begin C L i digest ledger (hs_world h) of
           (Replay stored, ledger1, w1) \<Rightarrow> (post X i stored, ledger1, h\<lparr>hs_world := w1\<rparr>)
         | (Refused e, ledger1, w1) \<Rightarrow>
             (if e \<noteq> GErrIndeterminate then ([], ledger1, h\<lparr>hs_world := w1\<rparr>)
              else (case resultJSON X l ''failed'' ''action state is indeterminate after restart; duplicate execution refused''
                           (Some ''response action was started before restart; refusing to execute it again'') [] w1 of
                      (body, w2) \<Rightarrow>
                        (case Complete C L i digest body ledger1 w2 of
                           (Inl _, ledger2, w3) \<Rightarrow> ([], ledger2, h\<lparr>hs_world := w3\<rparr>)
                         | (Inr _, ledger2, w3) \<Rightarrow> (post X i body, ledger2, h\<lparr>hs_world := w3\<rparr>))))
         | (Fresh, ledger1, w1) \<Rightarrow>
             (case execute X inp l request (h\<lparr>hs_world := w1\<rparr>) of
                (body, h2) \<Rightarrow>
                  (case Complete C L i digest body ledger1 (hs_world h2) of
                     (Inl _, ledger2, w3) \<Rightarrow> ([Executed i], ledger2, h2\<lparr>hs_world := w3\<rparr>)
                   | (Inr _, ledger2, w3) \<Rightarrow> (Executed i # post X i body, ledger2, h2\<lparr>hs_world := w3\<rparr>))))"

definition sync :: "runner_env \<Rightarrow> round_input \<Rightarrow> Ledger \<Rightarrow> host \<Rightarrow> action list \<times> Ledger \<times> host" where
  "sync X inp ledger h =
     (case on_host (EnsureTrustRoot (rx_parsePublic X) (rx_trustReply X) (ri_trust inp) (trust_file X)) h of
        (Inl _, h1) \<Rightarrow> ([], ledger, h1)
      | (Inr _, h1) \<Rightarrow>
          (case Fetch (rx_bundle X) (ri_fetch inp) of
             Inl _ \<Rightarrow> ([], ledger, h1)
           | Inr None \<Rightarrow> ([], ledger, h1)
           | Inr (Some bundle) \<Rightarrow>
               (case on_host time_Now h1 of
                  (now, h2) \<Rightarrow>
                    (case on_host (VerifyLease (rx_crypto X) (rx_parsePublic X) (rx_lease X) (rx_any X) bundle
                            (trust_file X) (rx_TenantID X) (rx_AgentID X) now now) h2 of
                       (Inl _, h3) \<Rightarrow> ([], ledger, h3)
                     | (Inr l, h3) \<Rightarrow>
                         (case Lease_ActionRequest (rx_crypto X) (rx_canonical X) l of
                            None \<Rightarrow> ([], ledger, h3)
                          | Some (request, digest) \<Rightarrow> respond X inp l request digest ledger h3)))))"

text \<open>A run of the runner: round after round.\<close>

fun rounds :: "runner_env \<Rightarrow> round_input list \<Rightarrow> Ledger \<Rightarrow> host \<Rightarrow> action list \<times> Ledger \<times> host" where
  "rounds X [] ledger h = ([], ledger, h)"
| "rounds X (inp # inps) ledger h =
     (case sync X inp ledger h of
        (as, ledger1, h1) \<Rightarrow> (case rounds X inps ledger1 h1 of (bs, ledger2, h2) \<Rightarrow> (as @ bs, ledger2, h2)))"

fun executed_id :: "action \<Rightarrow> string list" where
  "executed_id (Executed i) = [i]"
| "executed_id (Posted i b) = []"

definition executions :: "action list \<Rightarrow> string list" where
  "executions as = concat (map executed_id as)"

section \<open>At most once\<close>

lemma executions_simps [simp]:
  "executions [] = []" "executions (a # as) = executed_id a @ executions as"
  "executions (as @ bs) = executions as @ executions bs" "executions (post X i body) = []"
  by (simp_all add: executions_def post_def)

lemma respond_turn:
  assumes "respond X inp l request digest ledger h = (as, ledger', h')"
  shows "lgr.turn (rx_crypto X) (rx_ledger X) ledger (executions as) ledger'"
proof -
  let ?C = "rx_crypto X" and ?L = "rx_ledger X" and ?i = "ls_ActionID l"
  obtain out l1 w1 where b: "Begin ?C ?L ?i digest ledger (hs_world h) = (out, l1, w1)" by (metis surj_pair)
  have st: "start_action ?C ?L ?i digest ledger (hs_world h) = (out = Fresh, l1, w1)"
    by (simp add: start_action_def b)
  have fin: "finish_action ?C ?L ?i digest body l1 w2 = (l2, w3)"
    if "Complete ?C ?L ?i digest body l1 w2 = (q, l2, w3)" for q l2 w2 w3 body
    using that by (simp add: finish_action_def)
  show ?thesis
  proof (cases out)
    case Fresh
    obtain body h2 where e: "execute X inp l request (h\<lparr>hs_world := w1\<rparr>) = (body, h2)" by (metis surj_pair)
    obtain q l2 w3 where c: "Complete ?C ?L ?i digest body l1 (hs_world h2) = (q, l2, w3)" by (metis surj_pair)
    have "executions as = [?i]" "ledger' = l2"
      using assms b Fresh e c by (cases q; auto simp: respond_def Let_def)+
    then show ?thesis using lgr.turn_executed [OF st [unfolded Fresh, simplified] fin [OF c]] by simp
  next
    case (Replay stored)
    then have "executions as = []" "ledger' = l1" using assms b by (auto simp: respond_def Let_def)
    then show ?thesis using lgr.turn_refused [OF st [unfolded Replay, simplified]] by simp
  next
    case (Refused e)
    show ?thesis
    proof (cases "e = GErrIndeterminate")
      case False
      then have "executions as = []" "ledger' = l1" using assms b Refused by (auto simp: respond_def Let_def)
      then show ?thesis using lgr.turn_refused [OF st [unfolded Refused, simplified]] by simp
    next
      case True
      obtain body w2 where r: "resultJSON X l ''failed'' ''action state is indeterminate after restart; duplicate execution refused''
          (Some ''response action was started before restart; refusing to execute it again'') [] w1 = (body, w2)"
        by (metis surj_pair)
      obtain q l2 w3 where c: "Complete ?C ?L ?i digest body l1 w2 = (q, l2, w3)" by (metis surj_pair)
      have "executions as = []" "ledger' = l2"
        using assms b Refused True r c by (cases q; auto simp: respond_def Let_def)+
      then show ?thesis using lgr.turn_closed [OF st [unfolded Refused, simplified] fin [OF c]] by simp
    qed
  qed
qed

lemma sync_cases:
  assumes "sync X inp ledger h = (as, ledger', h')"
  obtains (idle) "as = []" "ledger' = ledger"
  | (active) h1 h2 h3 now bdl l request digest where
      "on_host time_Now h1 = (now, h2)"
      "on_host (VerifyLease (rx_crypto X) (rx_parsePublic X) (rx_lease X) (rx_any X) bdl (trust_file X)
         (rx_TenantID X) (rx_AgentID X) now now) h2 = (Inr l, h3)"
      "Lease_ActionRequest (rx_crypto X) (rx_canonical X) l = Some (request, digest)"
      "respond X inp l request digest ledger h3 = (as, ledger', h')"
  using assms
  by (auto simp: sync_def split: prod.splits sum.splits option.splits)

lemma sync_turn: "sync X inp ledger h = (as, ledger', h') \<Longrightarrow> lgr.turn (rx_crypto X) (rx_ledger X) ledger (executions as) ledger'"
  by (erule sync_cases) (auto intro: lgr.turn_idle respond_turn)

lemma rounds_turns:
  "rounds X inps ledger h = (as, ledger', h') \<Longrightarrow>
     lgr.turns (rx_crypto X) (rx_ledger X) ledger (length inps) (executions as) ledger'"
proof (induction X inps ledger h arbitrary: as ledger' h' rule: rounds.induct)
  case (1 X ledger h)
  then show ?case by (auto intro: lgr.turns_none)
next
  case (2 X inp inps ledger h)
  obtain as1 l1 h1 where s: "sync X inp ledger h = (as1, l1, h1)" by (metis surj_pair)
  obtain bs l2 h2 where r: "rounds X inps l1 h1 = (bs, l2, h2)" by (metis surj_pair)
  have "as = as1 @ bs" "ledger' = l2" using 2(2) s r by auto
  then show ?case using lgr.turns_more [OF sync_turn [OF s] 2(1) [OF s [symmetric] refl r]] by simp
qed

text \<open>C13. At most once: whatever bundles the network delivers, in whatever order and however often, a
  running agent executes each action ID at most once, and never one its ledger already knows, for as many
  rounds as the ledger has room for (4096 entries less those it holds; beyond that, completed entries
  are pruned and their protection ends).\<close>

theorem responses_execute_at_most_once:
  assumes "rounds X inps ledger h = (as, ledger', h')" and "ledger_ok ledger"
    and "length inps + length (lg_entries ledger) \<le> maxLedgerEntries"
  shows "distinct (executions as) \<and> set (executions as) \<inter> recorded ledger = {}"
  by (rule lgr.at_most_once [OF rounds_turns [OF assms(1)] assms(2)]) (use assms(3) in \<open>simp add: ledger_room_def\<close>)

definition demo_runner :: runner_env where
  "demo_runner = \<lparr>rx_crypto = toy_crypto, rx_parsePublic = Some, rx_trustReply = Some,
     rx_bundle = (\<lambda>_. Some demo_bundle), rx_lease = demo_decode, rx_any = (\<lambda>_. None), rx_canonical = demo_mj,
     rx_result = (\<lambda>p. Some (rp_Status p)), rx_fallback = (\<lambda>_ _. []), rx_errorText = (\<lambda>_. []),
     rx_ledger = demo_ledger_codec, rx_DataDir = ''/q'', rx_TenantID = ''t'', rx_AgentID = ''g''\<rparr>"

definition demo_round :: round_input where
  "demo_round = \<lparr>ri_trust = Response 200 ''k'', ri_fetch = Response 200 [], ri_registry = Inr demo_registry, ri_newid = ''n''\<rparr>"

definition demo_responder_host :: host where
  "demo_responder_host = demo_host\<lparr>hs_world := demo_trust\<rparr>"

lemma demo_rounds:
  "executions (fst (rounds demo_runner [demo_round, demo_round] demo_ledger demo_responder_host)) = [''a1'']"
  by code_simp

theorem responses_execute_at_most_once_witness:
  "\<exists>as ledger' h'. rounds demo_runner [demo_round, demo_round] demo_ledger demo_responder_host = (as, ledger', h')
     \<and> executions as = [''a1''] \<and> distinct (executions as) \<and> set (executions as) \<inter> recorded demo_ledger = {}"
proof -
  obtain as ledger' h' where r: "rounds demo_runner [demo_round, demo_round] demo_ledger demo_responder_host = (as, ledger', h')"
    by (metis surj_pair)
  have "ledger_ok demo_ledger" "length [demo_round, demo_round] + length (lg_entries demo_ledger) \<le> maxLedgerEntries"
    by (simp_all add: ledger_ok_def demo_ledger_def maxLedgerEntries_def)
  from responses_execute_at_most_once [OF r this] show ?thesis using r demo_rounds by simp
qed

section \<open>Results are durable before they are sent\<close>

lemma Complete_ok:
  assumes "Complete C L i d body l w = (Inr (), l', w')"
  shows "\<exists>e. map_of (lg_entries l') i = Some e \<and> le_Status e = ''completed'' \<and> le_Result e = body \<and> le_ActionDigest e = d"
  using assms
  by (auto simp: Complete_def Let_def map_of_update split: option.splits if_splits prod.splits)

lemma respond_posted:
  assumes "respond X inp l request digest ledger h = (as, ledger', h')" "Posted i body \<in> set as"
  shows "i = ls_ActionID l \<and> (\<exists>e. map_of (lg_entries ledger') i = Some e \<and> le_Status e = ''completed'' \<and> le_Result e = body
     \<and> le_ActionDigest e = digest)"
proof -
  let ?C = "rx_crypto X" and ?L = "rx_ledger X" and ?i = "ls_ActionID l"
  obtain out l1 w1 where b: "Begin ?C ?L ?i digest ledger (hs_world h) = (out, l1, w1)" by (metis surj_pair)
  have post: "Posted i body \<in> set (post X j c) \<Longrightarrow> i = j \<and> body = c" for j c
    by (auto simp: post_def split: if_splits)
  show ?thesis
  proof (cases out)
    case Fresh
    obtain c h2 where e: "execute X inp l request (h\<lparr>hs_world := w1\<rparr>) = (c, h2)" by (metis surj_pair)
    obtain q l2 w3 where k: "Complete ?C ?L ?i digest c l1 (hs_world h2) = (q, l2, w3)" by (metis surj_pair)
    then have "q = Inr ()" "ledger' = l2" "i = ?i" "body = c"
      using assms b Fresh e post by (cases q; auto simp: respond_def Let_def)+
    then show ?thesis using Complete_ok k by blast
  next
    case (Replay stored)
    then have "i = ?i" "body = stored" "ledger' = ledger"
      using assms b post by (auto simp: respond_def Let_def Begin_def split: option.splits if_splits prod.splits sum.splits)
    moreover have "\<exists>e. map_of (lg_entries ledger) ?i = Some e \<and> le_Status e = ''completed'' \<and> le_Result e = stored \<and> le_ActionDigest e = digest"
      using b Replay by (auto simp: Begin_def Let_def split: option.splits if_splits prod.splits sum.splits)
    ultimately show ?thesis by simp
  next
    case (Refused e)
    obtain c w2 where r: "resultJSON X l ''failed'' ''action state is indeterminate after restart; duplicate execution refused''
        (Some ''response action was started before restart; refusing to execute it again'') [] w1 = (c, w2)"
      by (metis surj_pair)
    obtain q l2 w3 where k: "Complete ?C ?L ?i digest c l1 w2 = (q, l2, w3)" by (metis surj_pair)
    then have "q = Inr ()" "ledger' = l2" "i = ?i" "body = c"
      using assms b Refused r post by (cases q; auto simp: respond_def Let_def split: if_splits)+
    then show ?thesis using Complete_ok k by blast
  qed
qed

text \<open>A result is sent only once it is settled: every result the runner sends in a round is, at the
  end of that round, the completed entry of its action in the ledger, bound to the digest of the lease's
  action; so a lost acknowledgement is answered with the same result again.\<close>

theorem posted_results_are_recorded:
  assumes "sync X inp ledger h = (as, ledger', h')" and "Posted i body \<in> set as"
  shows "\<exists>e. map_of (lg_entries ledger') i = Some e \<and> le_Status e = ''completed'' \<and> le_Result e = body
    \<and> (\<forall>w. TrimSpace i \<noteq> [] \<and> TrimSpace (le_ActionDigest e) \<noteq> [] \<and> body \<noteq> [] \<longrightarrow>
         Begin (rx_crypto X) (rx_ledger X) i (le_ActionDigest e) ledger' w = (Replay body, ledger', w))"
  using assms(1)
proof (cases rule: sync_cases)
  case idle
  then show ?thesis using assms(2) by simp
next
  case (active h1 h2 h3 now bdl l request digest)
  from respond_posted [OF active(4) assms(2)] show ?thesis by (auto simp: Begin_def)
qed

lemma demo_posts: "Posted ''a1'' ''succeeded'' \<in> set (fst (sync demo_runner demo_round demo_ledger demo_responder_host))"
  by code_simp

theorem posted_results_are_recorded_witness:
  "\<exists>as ledger' h' e. sync demo_runner demo_round demo_ledger demo_responder_host = (as, ledger', h')
     \<and> map_of (lg_entries ledger') ''a1'' = Some e \<and> le_Result e = ''succeeded''"
proof -
  obtain as ledger' h' where s: "sync demo_runner demo_round demo_ledger demo_responder_host = (as, ledger', h')"
    by (metis surj_pair)
  then have "Posted ''a1'' ''succeeded'' \<in> set as" using demo_posts by simp
  from posted_results_are_recorded [OF s this] show ?thesis using s by blast
qed

end
