(* ===== verification/PolicyUpdate.thy ===== *)
theory PolicyUpdate
  imports Lease Quarantine
begin

text \<open>
  Package \<open>internal/policyupdate\<close>: signed policy bundles with rollback protection. The manager's state is
  the epoch it has applied; \<open>Apply\<close> installs the policy file and then the signed rollback state.
\<close>

section \<open>Data\<close>

definition policySchema :: string where "policySchema = ''ntshield-policy/v1''"

record Bundle =
  bn_PayloadB64 :: string
  bn_SignatureB64 :: string
  bn_SHA256 :: string

record Payload =
  pl_Schema :: string
  pl_Epoch :: "64 word"
  pl_Version :: string
  pl_TenantID :: string
  pl_AgentIDs :: "string list"
  pl_IssuedAt :: gtime
  pl_ExpiresAt :: gtime
  pl_Policy :: string

record State =
  ps_Epoch :: "64 word"
  ps_Version :: string
  ps_BundleDigest :: string
  ps_PolicyDigest :: string
  ps_BundleExpiresAt :: gtime
  ps_AppliedAt :: gtime
  ps_Signature :: string

definition zero_State :: State where
  "zero_State = \<lparr>ps_Epoch = 0, ps_Version = [], ps_BundleDigest = [], ps_PolicyDigest = [], ps_BundleExpiresAt = 0,
     ps_AppliedAt = 0, ps_Signature = []\<rparr>"

record ApplyResult =
  ar_Applied :: bool
  ar_Epoch :: "64 word"
  ar_Version :: string
  ar_Digest :: string
  ar_Policy :: "Policy option"

record ManagerOptions =
  mo_AgentID :: string
  mo_TenantID :: string
  mo_PolicyFile :: string
  mo_TrustRootFile :: string
  mo_IdentityKeyFile :: string
  mo_StateFile :: string

record Manager =
  mg_options :: ManagerOptions
  mg_trustRoot :: string
  mg_identityKey :: string
  mg_state :: State

text \<open>The JSON decoders (each reads one value and returns the rest) and encoders the package uses.\<close>

record policy_codec =
  pc_payload :: "string \<Rightarrow> (Payload \<times> string) option"
  pc_policy :: "Policy \<Rightarrow> string \<Rightarrow> (Policy \<times> string) option"
  pc_state :: "string \<Rightarrow> (State \<times> string) option"
  pc_policyIndent :: "Policy \<Rightarrow> string option"
  pc_stateMarshal :: "State \<Rightarrow> string option"
  pc_stateIndent :: "State \<Rightarrow> string option"
  pc_bundle :: "string \<Rightarrow> Bundle option"

datatype update_error =
    UErrFetch | UErrPayload | UErrSignatureText | UErrDigest | UErrSignature | UErrDecode | UErrSchema | UErrEpoch | UErrVersion
  | UErrTenant | UErrScope | UErrWindow | UErrFuture | UErrExpired | UErrDocument | UErrMismatch | UErrTTL
  | UErrRollback | UErrConflict | UErrEncode | UErrRead oserr | UErrInstall oserr | UErrSave | UErrRestore oserr
  | UErrOptions | UErrTrustRoot | UErrIdentity | UErrState | UErrStateSignature | UErrPolicyRead oserr | UErrPolicyMismatch

text \<open>\<open>decodeJSONStrict\<close>: after the value only white space may follow.\<close>

definition decodeJSONStrict :: "(string \<Rightarrow> ('a \<times> string) option) \<Rightarrow> string \<Rightarrow> 'a option" where
  "decodeJSONStrict jd s =
     (case jd s of None \<Rightarrow> None | Some (v, rest) \<Rightarrow> if dropWhile json_space rest = [] then Some v else None)"

section \<open>State on disk\<close>

definition saveState :: "crypto \<Rightarrow> policy_codec \<Rightarrow> Manager \<Rightarrow> State \<Rightarrow> world \<Rightarrow> (update_error, unit) result \<times> world" where
  "saveState C J m st0 w =
     (let st = st0\<lparr>ps_Signature := []\<rparr>
      in case pc_stateMarshal J st of
           None \<Rightarrow> (Inl UErrEncode, w)
         | Some plain \<Rightarrow>
             (case pc_stateIndent J (st\<lparr>ps_Signature := b64_EncodeToString (ed25519_Sign C (mg_identityKey m) plain)\<rparr>) of
                None \<Rightarrow> (Inl UErrEncode, w)
              | Some encoded \<Rightarrow>
                  (case replaceFile (mo_StateFile (mg_options m)) (encoded @ [newline]) mode_private w of
                     (Inl _, w1) \<Rightarrow> (Inl UErrSave, w1)
                   | (Inr _, w1) \<Rightarrow> (Inr (), w1))))"

definition loadState :: "crypto \<Rightarrow> policy_codec \<Rightarrow> Manager \<Rightarrow> world \<Rightarrow> (update_error, Manager) result \<times> world" where
  "loadState C J m w =
     (case os_ReadFile (mo_StateFile (mg_options m)) w of
        (Inl ErrNotExist, w1) \<Rightarrow> (Inr m, w1)
      | (Inl e, w1) \<Rightarrow> (Inl (UErrRead e), w1)
      | (Inr c, w1) \<Rightarrow>
          (case decodeJSONStrict (pc_state J) c of
             None \<Rightarrow> (Inl UErrState, w1)
           | Some st \<Rightarrow>
               (case b64_DecodeString (ps_Signature st) of
                  None \<Rightarrow> (Inl UErrStateSignature, w1)
                | Some signature \<Rightarrow>
                    (case pc_stateMarshal J (st\<lparr>ps_Signature := []\<rparr>) of
                       None \<Rightarrow> (Inl UErrEncode, w1)
                     | Some plain \<Rightarrow>
                         if \<not> ed25519_Verify C (ed25519_Public C (mg_identityKey m)) plain signature
                         then (Inl UErrStateSignature, w1)
                         else if ps_Epoch st > 0
                         then (case os_ReadFile (mo_PolicyFile (mg_options m)) w1 of
                                 (Inl e, w2) \<Rightarrow> (Inl (UErrPolicyRead e), w2)
                               | (Inr policyBytes, w2) \<Rightarrow>
                                   if \<not> EqualFold (sha_hex C policyBytes) (ps_PolicyDigest st)
                                   then (Inl UErrPolicyMismatch, w2)
                                   else (Inr (m\<lparr>mg_state := st\<lparr>ps_Signature := []\<rparr>\<rparr>), w2))
                         else (Inr (m\<lparr>mg_state := st\<lparr>ps_Signature := []\<rparr>\<rparr>), w1)))))"

definition loadTrustRoot :: "(string \<Rightarrow> string option) \<Rightarrow> string \<Rightarrow> world \<Rightarrow> (update_error, string) result \<times> world" where
  "loadTrustRoot pk path w =
     (case os_ReadFile path w of
        (Inl _, w1) \<Rightarrow> (Inl UErrTrustRoot, w1)
      | (Inr c, w1) \<Rightarrow> (case pk c of None \<Rightarrow> (Inl UErrTrustRoot, w1) | Some key \<Rightarrow> (Inr key, w1)))"

definition NewManager ::
  "crypto \<Rightarrow> policy_codec \<Rightarrow> (string \<Rightarrow> string option) \<Rightarrow> (string \<Rightarrow> string option) \<Rightarrow> ManagerOptions \<Rightarrow> world \<Rightarrow>
     (update_error, Manager) result \<times> world" where
  "NewManager C J pk kp opts w =
     (if TrimSpace (mo_AgentID opts) = [] \<or> TrimSpace (mo_TenantID opts) = [] then (Inl UErrOptions, w)
      else if mo_PolicyFile opts = [] \<or> mo_TrustRootFile opts = [] \<or> mo_IdentityKeyFile opts = [] \<or> mo_StateFile opts = []
      then (Inl UErrOptions, w)
      else (case loadTrustRoot pk (mo_TrustRootFile opts) w of
              (Inl e, w1) \<Rightarrow> (Inl e, w1)
            | (Inr trustRoot, w1) \<Rightarrow>
                (case identity_Load kp (mo_IdentityKeyFile opts) w1 of
                   (Inl _, w2) \<Rightarrow> (Inl UErrIdentity, w2)
                 | (Inr key, w2) \<Rightarrow>
                     loadState C J \<lparr>mg_options = opts, mg_trustRoot = trustRoot, mg_identityKey = key, mg_state = zero_State\<rparr> w2)))"

section \<open>Applying a bundle\<close>

definition validatePayload :: "Manager \<Rightarrow> gtime \<Rightarrow> Payload \<Rightarrow> update_error option" where
  "validatePayload m now p =
     (if pl_Schema p \<noteq> policySchema then Some UErrSchema
      else if pl_Epoch p < 1 then Some UErrEpoch
      else if TrimSpace (pl_Version p) = [] then Some UErrVersion
      else if pl_TenantID p \<noteq> mo_TenantID (mg_options m) then Some UErrTenant
      else if ''*'' \<notin> set (pl_AgentIDs p) \<and> mo_AgentID (mg_options m) \<notin> set (pl_AgentIDs p) then Some UErrScope
      else if IsZero (pl_IssuedAt p) \<or> IsZero (pl_ExpiresAt p) then Some UErrWindow
      else if After (pl_IssuedAt p) (now + 5 * Minute) then Some UErrFuture
      else if \<not> After (pl_ExpiresAt p) now \<or> \<not> After (pl_ExpiresAt p) (pl_IssuedAt p) then Some UErrExpired
      else None)"

text \<open>The policy document of a payload: \<open>Default\<close> overlaid with the signed document, checked.\<close>

definition policy_document :: "policy_codec \<Rightarrow> Payload \<Rightarrow> (update_error, Policy) result" where
  "policy_document J p =
     (case decodeJSONStrict (pc_policy J Default) (pl_Policy p) of
        None \<Rightarrow> Inl UErrDocument
      | Some active \<Rightarrow>
          if TrimSpace (pol_Version active) = [] then Inl UErrVersion
          else if pol_Version active \<noteq> pl_Version p then Inl UErrMismatch
          else if pol_MaxActionTTLSeconds active \<le> 0 \<or> pol_MaxActionTTLSeconds active > 86400 then Inl UErrTTL
          else Inr active)"

text \<open>From \<open>json.MarshalIndent\<close> on: install the policy, then the state; undo the first if the second fails.\<close>

definition install ::
  "crypto \<Rightarrow> policy_codec \<Rightarrow> Payload \<Rightarrow> string \<Rightarrow> Policy \<Rightarrow> Manager \<Rightarrow> world \<Rightarrow>
     (update_error, ApplyResult) result \<times> Manager \<times> world" where
  "install C J payload digestHex active m w =
     (case pc_policyIndent J active of
        None \<Rightarrow> (Inl UErrEncode, m, w)
      | Some encoded \<Rightarrow>
          (let policyBytes = encoded @ [newline]; file = mo_PolicyFile (mg_options m)
           in case readOptionalFile file w of
                (Inl e, w1) \<Rightarrow> (Inl (UErrRead e), m, w1)
              | (Inr previous, w1) \<Rightarrow>
                  (case replaceFile file policyBytes mode_private w1 of
                     (Inl e, w2) \<Rightarrow> (Inl (UErrInstall e), m, w2)
                   | (Inr _, w2) \<Rightarrow>
                       (let (now, w3) = time_Now w2;
                            st = \<lparr>ps_Epoch = pl_Epoch payload, ps_Version = pl_Version payload, ps_BundleDigest = digestHex,
                              ps_PolicyDigest = sha_hex C policyBytes, ps_BundleExpiresAt = pl_ExpiresAt payload,
                              ps_AppliedAt = now, ps_Signature = []\<rparr>
                        in case saveState C J m st w3 of
                             (Inl e, w4) \<Rightarrow>
                               (case restoreOptionalFile file previous mode_private w4 of
                                  (Inl e1, w5) \<Rightarrow> (Inl (UErrRestore e1), m, w5)
                                | (Inr _, w5) \<Rightarrow> (Inl e, m, w5))
                           | (Inr _, w4) \<Rightarrow>
                               (Inr \<lparr>ar_Applied = True, ar_Epoch = pl_Epoch payload, ar_Version = pl_Version payload,
                                     ar_Digest = digestHex, ar_Policy = Some active\<rparr>,
                                m\<lparr>mg_state := st\<rparr>, w4)))))"

text \<open>From \<open>decodeJSONStrict\<close> of the payload on.\<close>

definition apply_payload ::
  "crypto \<Rightarrow> policy_codec \<Rightarrow> string \<Rightarrow> string \<Rightarrow> Manager \<Rightarrow> world \<Rightarrow>
     (update_error, ApplyResult) result \<times> Manager \<times> world" where
  "apply_payload C J payloadBytes digestHex m w =
     (case decodeJSONStrict (pc_payload J) payloadBytes of
        None \<Rightarrow> (Inl UErrDecode, m, w)
      | Some payload \<Rightarrow>
          (let (now, w1) = time_Now w
           in case validatePayload m now payload of
                Some e \<Rightarrow> (Inl e, m, w1)
              | None \<Rightarrow>
                  (case policy_document J payload of
                     Inl e \<Rightarrow> (Inl e, m, w1)
                   | Inr active \<Rightarrow>
                       if pl_Epoch payload < ps_Epoch (mg_state m) then (Inl UErrRollback, m, w1)
                       else if pl_Epoch payload = ps_Epoch (mg_state m)
                       then (if EqualFold digestHex (ps_BundleDigest (mg_state m))
                             then (Inr \<lparr>ar_Applied = False, ar_Epoch = pl_Epoch payload, ar_Version = pl_Version payload,
                                        ar_Digest = digestHex, ar_Policy = Some active\<rparr>, m, w1)
                             else (Inl UErrConflict, m, w1))
                       else install C J payload digestHex active m w1)))"

definition Apply ::
  "crypto \<Rightarrow> policy_codec \<Rightarrow> Bundle \<Rightarrow> Manager \<Rightarrow> world \<Rightarrow> (update_error, ApplyResult) result \<times> Manager \<times> world" where
  "Apply C J bdl m w =
     (case b64_DecodeString (TrimSpace (bn_PayloadB64 bdl)) of
        None \<Rightarrow> (Inl UErrPayload, m, w)
      | Some payloadBytes \<Rightarrow>
          (case b64_DecodeString (TrimSpace (bn_SignatureB64 bdl)) of
             None \<Rightarrow> (Inl UErrSignatureText, m, w)
           | Some signature \<Rightarrow>
               (let digestHex = sha_hex C payloadBytes
                in if \<not> EqualFold digestHex (TrimSpace (bn_SHA256 bdl)) then (Inl UErrDigest, m, w)
                   else if \<not> ed25519_Verify C (mg_trustRoot m) payloadBytes signature then (Inl UErrSignature, m, w)
                   else apply_payload C J payloadBytes digestHex m w)))"

text \<open>\<open>Client.Fetch\<close>: \<open>reply\<close> is the status and body of the response (\<open>None\<close>: no response, or a body that could
  not be read).\<close>

definition maxPolicyResponseBytes :: int where "maxPolicyResponseBytes = 4 * 1024 * 1024"

definition policy_Fetch :: "policy_codec \<Rightarrow> http_reply \<Rightarrow> (update_error, Bundle option) result" where
  "policy_Fetch J reply =
     (case reply of
        None \<Rightarrow> Inl UErrFetch
      | Some (status, rest) \<Rightarrow>
          if status = 204 then Inr None
          else (case rest of
                  None \<Rightarrow> Inl UErrFetch
                | Some body \<Rightarrow>
                    if status \<noteq> 200 then Inl UErrFetch
                    else (case pc_bundle J (LimitRead maxPolicyResponseBytes body) of
                            None \<Rightarrow> Inl UErrDecode | Some b \<Rightarrow> Inr (Some b))))"

definition empty_result :: ApplyResult where
  "empty_result = \<lparr>ar_Applied = False, ar_Epoch = 0, ar_Version = [], ar_Digest = [], ar_Policy = None\<rparr>"

text \<open>\<open>Runner.Sync\<close>.\<close>

definition policy_Sync ::
  "crypto \<Rightarrow> policy_codec \<Rightarrow> http_reply \<Rightarrow> Manager \<Rightarrow> world \<Rightarrow> (update_error, ApplyResult) result \<times> Manager \<times> world" where
  "policy_Sync C J reply m w =
     (case policy_Fetch J reply of
        Inl e \<Rightarrow> (Inl e, m, w)
      | Inr None \<Rightarrow> (Inr empty_result, m, w)
      | Inr (Some b) \<Rightarrow> Apply C J b m w)"

text \<open>\<open>Runner.Run\<close>: the sequence of synchronisations; the results of those that applied a policy.\<close>

fun policy_rounds ::
  "crypto \<Rightarrow> policy_codec \<Rightarrow> http_reply list \<Rightarrow> Manager \<Rightarrow> world \<Rightarrow> ApplyResult list \<times> Manager \<times> world" where
  "policy_rounds C J [] m w = ([], m, w)"
| "policy_rounds C J (r # rs) m w =
     (case policy_Sync C J r m w of
        (res, m1, w1) \<Rightarrow>
          (case policy_rounds C J rs m1 w1 of
             (out, m2, w2) \<Rightarrow> ((case res of Inr a \<Rightarrow> if ar_Applied a then [a] else [] | Inl _ \<Rightarrow> []) @ out, m2, w2)))"

definition RequestMessage :: "string \<Rightarrow> string \<Rightarrow> string \<Rightarrow> string" where
  "RequestMessage agentID tenantID timestamp =
     ''GET'' @ [newline] @ ''/v1/agent/policy'' @ [newline] @ timestamp @ [newline] @ tenantID @ [newline] @ agentID"

section \<open>The shape of a run\<close>

text \<open>The state \<open>Apply\<close> saves for a payload.\<close>

definition applied_state :: "crypto \<Rightarrow> Payload \<Rightarrow> string \<Rightarrow> string \<Rightarrow> gtime \<Rightarrow> State" where
  "applied_state C payload digestHex policyBytes now =
     \<lparr>ps_Epoch = pl_Epoch payload, ps_Version = pl_Version payload, ps_BundleDigest = digestHex,
       ps_PolicyDigest = sha_hex C policyBytes, ps_BundleExpiresAt = pl_ExpiresAt payload, ps_AppliedAt = now,
       ps_Signature = []\<rparr>"

lemma install_error: "install C J p d a m w = (Inl e, m', w') \<Longrightarrow> m' = m"
  by (auto simp: install_def Let_def split: option.splits prod.splits sum.splits)

lemma install_ok:
  assumes "install C J p d a m w = (Inr x, m', w')"
  obtains enc prev w1 w2 now w3 where "pc_policyIndent J a = Some enc"
    "readOptionalFile (mo_PolicyFile (mg_options m)) w = (Inr prev, w1)"
    "replaceFile (mo_PolicyFile (mg_options m)) (enc @ [newline]) mode_private w1 = (Inr (), w2)"
    "time_Now w2 = (now, w3)" "saveState C J m (applied_state C p d (enc @ [newline]) now) w3 = (Inr (), w')"
    "x = \<lparr>ar_Applied = True, ar_Epoch = pl_Epoch p, ar_Version = pl_Version p, ar_Digest = d, ar_Policy = Some a\<rparr>"
    "m' = m\<lparr>mg_state := applied_state C p d (enc @ [newline]) now\<rparr>"
  using assms unfolding install_def Let_def
  by (auto simp: applied_state_def split: option.splits prod.splits sum.splits)

lemma Apply_error: "Apply C J b m w = (Inl e, m', w') \<Longrightarrow> m' = m"
  by (auto simp: Apply_def apply_payload_def Let_def dest: install_error
      split: option.splits prod.splits sum.splits if_splits)

lemma Apply_repeated: "Apply C J b m w = (Inr x, m', w') \<Longrightarrow> \<not> ar_Applied x \<Longrightarrow> m' = m \<and> files w' = files w"
  by (auto simp: Apply_def apply_payload_def Let_def dest: install_error time_Now_eqs elim!: install_ok
      split: option.splits prod.splits sum.splits if_splits)

lemma Apply_applied:
  assumes "Apply C J b m w = (Inr x, m', w')" "ar_Applied x"
  obtains payloadBytes signature payload active w1 where
    "b64_DecodeString (TrimSpace (bn_PayloadB64 b)) = Some payloadBytes"
    "b64_DecodeString (TrimSpace (bn_SignatureB64 b)) = Some signature"
    "EqualFold (sha_hex C payloadBytes) (TrimSpace (bn_SHA256 b))"
    "ed25519_Verify C (mg_trustRoot m) payloadBytes signature"
    "decodeJSONStrict (pc_payload J) payloadBytes = Some payload"
    "time_Now w = (clock w, w1)" "validatePayload m (clock w) payload = None"
    "policy_document J payload = Inr active" "ps_Epoch (mg_state m) < pl_Epoch payload"
    "install C J payload (sha_hex C payloadBytes) active m w1 = (Inr x, m', w')"
proof -
  obtain now w1 where t: "time_Now w = (now, w1)" by (rule prod.exhaust)
  have now: "now = clock w" using time_Now_eqs [OF t] by simp
  from assms(1) obtain pb where 1: "b64_DecodeString (TrimSpace (bn_PayloadB64 b)) = Some pb"
    by (auto simp: Apply_def split: option.splits)
  from assms(1) 1 obtain sg where 2: "b64_DecodeString (TrimSpace (bn_SignatureB64 b)) = Some sg"
    by (auto simp: Apply_def split: option.splits)
  have 3: "EqualFold (sha_hex C pb) (TrimSpace (bn_SHA256 b))" "ed25519_Verify C (mg_trustRoot m) pb sg"
    and a: "apply_payload C J pb (sha_hex C pb) m w = (Inr x, m', w')"
    using assms(1) 1 2 by (auto simp: Apply_def Let_def split: if_splits)
  from a obtain p where 4: "decodeJSONStrict (pc_payload J) pb = Some p"
    by (auto simp: apply_payload_def split: option.splits)
  from a 4 t now have 5: "validatePayload m (clock w) p = None"
    by (auto simp: apply_payload_def split: option.splits)
  from a 4 t now 5 obtain ac where 6: "policy_document J p = Inr ac"
    by (auto simp: apply_payload_def split: sum.splits)
  have 7: "ps_Epoch (mg_state m) < pl_Epoch p" "install C J p (sha_hex C pb) ac m w1 = (Inr x, m', w')"
    using a 4 t now 5 6 assms(2) by (auto simp: apply_payload_def split: if_splits)
  show ?thesis by (rule that [OF 1 2 3 4 _ 5 6 7]) (use t now in simp)
qed

lemma Apply_epoch:
  assumes "Apply C J b m w = (r, m', w')"
  shows "(case r of Inr x \<Rightarrow> if ar_Applied x then ps_Epoch (mg_state m) < ar_Epoch x \<and> ps_Epoch (mg_state m') = ar_Epoch x
            else m' = m | Inl _ \<Rightarrow> m' = m)"
proof (cases r)
  case (Inr x)
  show ?thesis
  proof (cases "ar_Applied x")
    case True
    show ?thesis
      by (rule Apply_applied [OF assms [unfolded Inr] True], erule install_ok)
        (use Inr True in \<open>simp add: applied_state_def\<close>)
  qed (use assms Inr Apply_repeated in auto)
qed (use assms Apply_error in auto)

lemma policy_Sync_epoch:
  assumes "policy_Sync C J reply m w = (r, m', w')"
  shows "(case r of Inr x \<Rightarrow> if ar_Applied x then ps_Epoch (mg_state m) < ar_Epoch x \<and> ps_Epoch (mg_state m') = ar_Epoch x
            else m' = m | Inl _ \<Rightarrow> m' = m)"
proof (cases "\<exists>b. policy_Fetch J reply = Inr (Some b)")
  case True
  then obtain b where "Apply C J b m w = (r, m', w')" using assms by (auto simp: policy_Sync_def)
  then show ?thesis by (rule Apply_epoch)
next
  case False
  then show ?thesis using assms by (auto simp: policy_Sync_def empty_result_def split: sum.splits option.splits)
qed

text \<open>Every applied epoch is above all that came before it.\<close>

lemma policy_rounds_epochs:
  assumes "policy_rounds C J rs m w = (out, m', w')"
  shows "sorted_wrt (<) (ps_Epoch (mg_state m) # map ar_Epoch out)
    \<and> ps_Epoch (mg_state m') = last (ps_Epoch (mg_state m) # map ar_Epoch out)"
  using assms
proof (induction rs arbitrary: m w out)
  case (Cons r rs)
  obtain res m1 w1 where s: "policy_Sync C J r m w = (res, m1, w1)" by (metis prod.exhaust)
  obtain out1 m2 w2 where t: "policy_rounds C J rs m1 w1 = (out1, m2, w2)" by (metis prod.exhaust)
  note h = policy_Sync_epoch [OF s]
  have e: "m2 = m'" "w2 = w'" "out = (case res of Inr a \<Rightarrow> if ar_Applied a then [a] else [] | Inl _ \<Rightarrow> []) @ out1"
    using Cons.prems s t by simp_all
  note ih = Cons.IH [OF t [unfolded e(1,2)]]
  show ?case
  proof (cases "\<exists>x. res = Inr x \<and> ar_Applied x")
    case True
    then obtain x where x: "res = Inr x" "ar_Applied x" by blast
    have e1: "ps_Epoch (mg_state m) < ar_Epoch x" "ps_Epoch (mg_state m1) = ar_Epoch x" using h x by simp_all
    have "out = x # out1" using e x by simp
    moreover have "\<forall>y\<in>set (map ar_Epoch out1). ar_Epoch x < y" using ih e1(2) by simp
    ultimately show ?thesis using ih e e1 less_trans [OF e1(1)] by auto
  next
    case False
    then have "m1 = m" "out = out1" using h e by (auto split: sum.splits if_splits)
    then show ?thesis using ih e by simp
  qed
qed simp

section \<open>Restarting\<close>

lemma saveState_ok:
  assumes "saveState C J m st w = (Inr (), w')"
  obtains plain enc where "pc_stateMarshal J (st\<lparr>ps_Signature := []\<rparr>) = Some plain"
    "pc_stateIndent J (st\<lparr>ps_Signature := b64_EncodeToString (ed25519_Sign C (mg_identityKey m) plain)\<rparr>) = Some enc"
    "replaceFile (mo_StateFile (mg_options m)) (enc @ [newline]) mode_private w = (Inr (), w')"
  using assms by (auto simp: saveState_def Let_def split: option.splits sum.splits prod.splits)

text \<open>The files of a manager's configuration are apart from each other and from the scratch names the
  installation uses.\<close>

definition separate_files :: "ManagerOptions \<Rightarrow> bool" where
  "separate_files o1 =
     (let p = mo_PolicyFile o1; s = mo_StateFile o1; W = [p, p @ ''.new'', p @ ''.bak'', s, s @ ''.new'', s @ ''.bak'']
      in distinct W \<and> mo_TrustRootFile o1 \<notin> set W \<and> mo_IdentityKeyFile o1 \<notin> set W)"

lemma fs_content_SomeD: "fs_content s p = Some c \<Longrightarrow> \<exists>f. fs_get s p = Some f \<and> content f = c"
  by (auto simp: fs_content_def)

lemma read_healthy: "healthy w \<Longrightarrow> fs_content (files w) p = Some c \<Longrightarrow> os_ReadFile p w = (Inr c, w)"
  by (auto dest: fs_content_SomeD)

lemma readOptionalFile_files: "readOptionalFile p w = (r, w') \<Longrightarrow> files w' = files w \<and> events w' = events w"
  by (auto simp: readOptionalFile_def dest: os_ReadFile_cases split: prod.splits sum.splits oserr.splits)

lemma replaceFile_steps:
  assumes "replaceFile p c mode_private w = (r, w')"
  obtains es where "steps w es w'"
  using rpl.others [OF assms, of "p @ ''.other''"] by (auto simp: quiet_def)

text \<open>What a successful installation leaves on disk: half way (\<open>w2\<close>) the new policy with the old state, at the
  end the new policy with the new state.\<close>

lemma install_files:
  assumes i: "install C J p d a m w = (Inr x, m', w')" and sep: "separate_files (mg_options m)"
  obtains enc now plain senc w2 es1 es2 where "pc_policyIndent J a = Some enc"
    "m' = m\<lparr>mg_state := applied_state C p d (enc @ [newline]) now\<rparr>"
    "pc_stateMarshal J (mg_state m') = Some plain"
    "pc_stateIndent J (mg_state m'\<lparr>ps_Signature := b64_EncodeToString (ed25519_Sign C (mg_identityKey m) plain)\<rparr>) = Some senc"
    "steps w es1 w2" "steps w2 es2 w'"
    "fs_content (files w2) (mo_PolicyFile (mg_options m)) = Some (enc @ [newline])"
    "fs_content (files w') (mo_PolicyFile (mg_options m)) = Some (enc @ [newline])"
    "fs_content (files w2) (mo_StateFile (mg_options m)) = fs_content (files w) (mo_StateFile (mg_options m))"
    "fs_content (files w') (mo_StateFile (mg_options m)) = Some (senc @ [newline])"
    "\<forall>q\<in>{mo_TrustRootFile (mg_options m), mo_IdentityKeyFile (mg_options m)}.
       fs_content (files w2) q = fs_content (files w) q \<and> fs_content (files w') q = fs_content (files w) q"
proof -
  let ?p = "mo_PolicyFile (mg_options m)" and ?s = "mo_StateFile (mg_options m)"
  from install_ok [OF i] obtain enc prev w1 w2 now w3 where 1: "pc_policyIndent J a = Some enc"
    "readOptionalFile ?p w = (Inr prev, w1)" "replaceFile ?p (enc @ [newline]) mode_private w1 = (Inr (), w2)"
    "time_Now w2 = (now, w3)" "saveState C J m (applied_state C p d (enc @ [newline]) now) w3 = (Inr (), w')"
    "m' = m\<lparr>mg_state := applied_state C p d (enc @ [newline]) now\<rparr>" by metis
  from saveState_ok [OF 1(5)] obtain plain senc where
    2: "pc_stateMarshal J (mg_state m') = Some plain"
    "pc_stateIndent J (mg_state m'\<lparr>ps_Signature := b64_EncodeToString (ed25519_Sign C (mg_identityKey m) plain)\<rparr>) = Some senc"
    "replaceFile ?s (senc @ [newline]) mode_private w3 = (Inr (), w')"
    by (auto simp: 1(6) applied_state_def)
  have w1: "files w1 = files w" "events w1 = events w" using readOptionalFile_files [OF 1(2)] by simp_all
  have w3: "files w3 = files w2" "events w3 = events w2" using time_Now_eqs [OF 1(4)] by simp_all
  obtain es1 where "steps w1 es1 w2" using replaceFile_steps [OF 1(3)] .
  then have s1: "steps w es1 w2" using w1 by (simp add: steps_def)
  obtain es2 where "steps w3 es2 w'" using replaceFile_steps [OF 2(3)] .
  then have s2: "steps w2 es2 w'" using w3 by (simp add: steps_def)
  have c1: "fs_content (files w2) q = fs_content (files w) q" if "q \<notin> {?p, ?p @ ''.new'', ?p @ ''.bak''}" for q
    using rpl.others_content [OF 1(3), of q] that w1 by simp
  have c2: "fs_content (files w') q = fs_content (files w2) q" if "q \<notin> {?s, ?s @ ''.new'', ?s @ ''.bak''}" for q
    using rpl.others_content [OF 2(3), of q] that w3 by simp
  have p2: "fs_content (files w2) ?p = Some (enc @ [newline])" by (rule rpl.installs [OF 1(3)])
  have s': "fs_content (files w') ?s = Some (senc @ [newline])" by (rule rpl.installs [OF 2(3)])
  have d: "?p \<notin> {?s, ?s @ ''.new'', ?s @ ''.bak''}" "?s \<notin> {?p, ?p @ ''.new'', ?p @ ''.bak''}"
    using sep unfolding separate_files_def Let_def by auto
  have k: "q \<notin> {?p, ?p @ ''.new'', ?p @ ''.bak''} \<and> q \<notin> {?s, ?s @ ''.new'', ?s @ ''.bak''}"
    if "q \<in> {mo_TrustRootFile (mg_options m), mo_IdentityKeyFile (mg_options m)}" for q
    using sep that by (auto simp: separate_files_def Let_def)
  show ?thesis
    by (rule that [OF 1(1,6) 2(1,2) s1 s2 p2 _ c1 [OF d(2)] s']) (use c1 c2 d p2 k in auto)
qed

text \<open>Starting on a healthy disk: what \<open>loadState\<close> answers for a state file that was written by \<open>saveState\<close>.\<close>

definition keys_on_disk :: "(string \<Rightarrow> string option) \<Rightarrow> (string \<Rightarrow> string option) \<Rightarrow> Manager \<Rightarrow> fs \<Rightarrow> bool" where
  "keys_on_disk pk kp m s =
     (TrimSpace (mo_AgentID (mg_options m)) \<noteq> [] \<and> TrimSpace (mo_TenantID (mg_options m)) \<noteq> []
      \<and> [] \<notin> {mo_PolicyFile (mg_options m), mo_TrustRootFile (mg_options m), mo_IdentityKeyFile (mg_options m),
               mo_StateFile (mg_options m)}
      \<and> Option.bind (fs_content s (mo_TrustRootFile (mg_options m))) pk = Some (mg_trustRoot m)
      \<and> Option.bind (fs_content s (mo_IdentityKeyFile (mg_options m))) kp = Some (mg_identityKey m))"

lemma NewManager_loads:
  assumes h: "healthy w" and k: "keys_on_disk pk kp m (files w)"
  shows "NewManager C J pk kp (mg_options m) w = loadState C J (m\<lparr>mg_state := zero_State\<rparr>) w"
proof -
  from k obtain t i where t: "fs_content (files w) (mo_TrustRootFile (mg_options m)) = Some t" "pk t = Some (mg_trustRoot m)"
    and i: "fs_content (files w) (mo_IdentityKeyFile (mg_options m)) = Some i" "kp i = Some (mg_identityKey m)"
    by (auto simp: keys_on_disk_def bind_eq_Some_conv)
  have "loadTrustRoot pk (mo_TrustRootFile (mg_options m)) w = (Inr (mg_trustRoot m), w)"
    "identity_Load kp (mo_IdentityKeyFile (mg_options m)) w = (Inr (mg_identityKey m), w)"
    using read_healthy [OF h t(1)] read_healthy [OF h i(1)] t(2) i(2)
    by (simp_all add: loadTrustRoot_def identity_Load_def)
  moreover have "mo_PolicyFile (mg_options m) \<noteq> []" "mo_TrustRootFile (mg_options m) \<noteq> []"
    "mo_IdentityKeyFile (mg_options m) \<noteq> []" "mo_StateFile (mg_options m) \<noteq> []"
    using k by (auto simp: keys_on_disk_def)
  moreover have r: "\<lparr>mg_options = mg_options m, mg_trustRoot = mg_trustRoot m, mg_identityKey = mg_identityKey m,
      mg_state = zero_State\<rparr> = m\<lparr>mg_state := zero_State\<rparr>" by (cases m) simp
  ultimately show ?thesis using k unfolding r [symmetric] by (simp add: NewManager_def keys_on_disk_def)
qed

lemma loadState_present:
  assumes h: "healthy w" and s: "fs_content (files w) (mo_StateFile (mg_options m)) = Some text1"
    and d: "decodeJSONStrict (pc_state J) text1 = Some st" and e: "0 < ps_Epoch st"
    and b: "b64_DecodeString (ps_Signature st) = Some signature"
    and p: "pc_stateMarshal J (st\<lparr>ps_Signature := []\<rparr>) = Some plain"
    and v: "ed25519_Verify C (ed25519_Public C (mg_identityKey m)) plain signature"
    and f: "fs_content (files w) (mo_PolicyFile (mg_options m)) = Some policyBytes"
  shows "loadState C J m w =
    (if EqualFold (sha_hex C policyBytes) (ps_PolicyDigest st) then Inr (m\<lparr>mg_state := st\<lparr>ps_Signature := []\<rparr>\<rparr>)
     else Inl UErrPolicyMismatch, w)"
  using read_healthy [OF h s] read_healthy [OF h f] d e b p v by (simp add: loadState_def)

lemma loadState_positive:
  assumes h: "healthy w" and l: "loadState C J (m\<lparr>mg_state := zero_State\<rparr>) w = (Inr m, w1)" and e: "0 < ps_Epoch (mg_state m)"
  obtains text1 st signature plain where "fs_content (files w) (mo_StateFile (mg_options m)) = Some text1"
    "decodeJSONStrict (pc_state J) text1 = Some st" "b64_DecodeString (ps_Signature st) = Some signature"
    "pc_stateMarshal J (st\<lparr>ps_Signature := []\<rparr>) = Some plain"
    "ed25519_Verify C (ed25519_Public C (mg_identityKey m)) plain signature" "mg_state m = st\<lparr>ps_Signature := []\<rparr>"
proof -
  have "fs_get (files w) (mo_StateFile (mg_options m)) \<noteq> None"
  proof
    assume "fs_get (files w) (mo_StateFile (mg_options m)) = None"
    then have "m\<lparr>mg_state := zero_State\<rparr> = m" using h l by (simp add: loadState_def)
    then have "mg_state m = zero_State" by (metis Manager.select_convs(4) Manager.update_convs(4) Manager.surjective)
    then show False using e by (simp add: zero_State_def)
  qed
  then obtain t where s: "fs_content (files w) (mo_StateFile (mg_options m)) = Some t" by (auto simp: fs_content_def)
  note rd = read_healthy [OF h s]
  from l rd obtain st where d: "decodeJSONStrict (pc_state J) t = Some st" by (auto simp: loadState_def split: option.splits)
  from l rd d obtain sg where g: "b64_DecodeString (ps_Signature st) = Some sg" by (auto simp: loadState_def split: option.splits)
  from l rd d g obtain pl where p: "pc_stateMarshal J (st\<lparr>ps_Signature := []\<rparr>) = Some pl"
    by (auto simp: loadState_def split: option.splits)
  have v: "ed25519_Verify C (ed25519_Public C (mg_identityKey m)) pl sg" using l rd d g p by (auto simp: loadState_def split: if_splits)
  have "m\<lparr>mg_state := st\<lparr>ps_Signature := []\<rparr>\<rparr> = m"
    using l rd d g p v by (auto simp: loadState_def split: if_splits prod.splits sum.splits)
  then have "mg_state m = st\<lparr>ps_Signature := []\<rparr>"
    by (metis Manager.select_convs(4) Manager.update_convs(4) Manager.surjective)
  then show ?thesis using that s d g p v by blast
qed

section \<open>Properties\<close>

text \<open>C14. Over any sequence of synchronisations, whatever the endpoint answers and whatever fails, the epochs of the
  policies that were applied increase strictly from the epoch the manager started with: an old signed bundle is
  never applied again.\<close>

theorem policy_epochs_strictly_increase:
  "case policy_rounds C J replies m w of (out, m', w') \<Rightarrow>
     sorted_wrt (<) (ps_Epoch (mg_state m) # map ar_Epoch out)
     \<and> ps_Epoch (mg_state m') = last (ps_Epoch (mg_state m) # map ar_Epoch out)"
  by (cases "policy_rounds C J replies m w") (use policy_rounds_epochs in blast)

text \<open>C15. A bundle that was applied was signed by the trust root over a payload that is in scope, inside its validity
  window and above the manager's epoch; the policy has the payload's version and a bounded action TTL, and it is
  what the policy file then holds.\<close>

theorem applied_policy_was_authorised:
  assumes "Apply C J b m w = (Inr x, m', w')" "ar_Applied x" "separate_files (mg_options m)"
  shows "\<exists>payloadBytes signature p active enc.
    b64_DecodeString (TrimSpace (bn_PayloadB64 b)) = Some payloadBytes
    \<and> b64_DecodeString (TrimSpace (bn_SignatureB64 b)) = Some signature
    \<and> ed25519_Verify C (mg_trustRoot m) payloadBytes signature
    \<and> decodeJSONStrict (pc_payload J) payloadBytes = Some p
    \<and> pl_Schema p = policySchema \<and> pl_TenantID p = mo_TenantID (mg_options m)
    \<and> (''*'' \<in> set (pl_AgentIDs p) \<or> mo_AgentID (mg_options m) \<in> set (pl_AgentIDs p))
    \<and> pl_IssuedAt p \<le> clock w + 5 * Minute \<and> clock w < pl_ExpiresAt p
    \<and> ps_Epoch (mg_state m) < pl_Epoch p
    \<and> ar_Policy x = Some active \<and> pol_Version active = pl_Version p
    \<and> 0 < pol_MaxActionTTLSeconds active \<and> pol_MaxActionTTLSeconds active \<le> 86400
    \<and> pc_policyIndent J active = Some enc
    \<and> fs_content (files w') (mo_PolicyFile (mg_options m)) = Some (enc @ [newline])"
proof -
  obtain pb sg p ac w1 where a: "b64_DecodeString (TrimSpace (bn_PayloadB64 b)) = Some pb"
    "b64_DecodeString (TrimSpace (bn_SignatureB64 b)) = Some sg" "ed25519_Verify C (mg_trustRoot m) pb sg"
    "decodeJSONStrict (pc_payload J) pb = Some p"
    and v: "validatePayload m (clock w) p = None" "policy_document J p = Inr ac" "ps_Epoch (mg_state m) < pl_Epoch p"
    and i: "install C J p (sha_hex C pb) ac m w1 = (Inr x, m', w')" by (rule Apply_applied [OF assms(1,2)])
  obtain enc where e: "pc_policyIndent J ac = Some enc"
    "fs_content (files w') (mo_PolicyFile (mg_options m)) = Some (enc @ [newline])"
    by (rule install_files [OF i assms(3)])
  have x: "ar_Policy x = Some ac" by (rule install_ok [OF i]) simp
  have p: "pl_Schema p = policySchema" "pl_TenantID p = mo_TenantID (mg_options m)"
    "''*'' \<in> set (pl_AgentIDs p) \<or> mo_AgentID (mg_options m) \<in> set (pl_AgentIDs p)"
    "pl_IssuedAt p \<le> clock w + 5 * Minute" "clock w < pl_ExpiresAt p"
    using v(1) by (auto simp: validatePayload_def After_def split: if_splits)
  have d: "pol_Version ac = pl_Version p" "0 < pol_MaxActionTTLSeconds ac" "pol_MaxActionTTLSeconds ac \<le> 86400"
    using v(2) by (auto simp: policy_document_def split: option.splits if_splits)
  show ?thesis using a v(3) p d x e by blast
qed

text \<open>After a bundle was applied, a restart finds the same manager again (keys from the same files, state record
  with the same epoch), so that what was refused as a rollback before the restart is refused after it.\<close>

theorem restart_keeps_applied_epoch:
  assumes a: "Apply C J b m w = (Inr x, m', w')" "ar_Applied x" and sep: "separate_files (mg_options m)"
    and k: "keys_on_disk pk kp m (files w)" and C: "signatures_verify C"
    and rt: "\<And>sig enc. pc_stateIndent J (mg_state m'\<lparr>ps_Signature := sig\<rparr>) = Some enc \<Longrightarrow>
      pc_state J (enc @ [newline]) = Some (mg_state m'\<lparr>ps_Signature := sig\<rparr>, [newline])"
    and w'': "healthy w''" "files w'' = files w'"
  shows "NewManager C J pk kp (mg_options m) w'' = (Inr m', w'')"
proof -
  obtain pb p ac w1 where t: "time_Now w = (clock w, w1)" and lt: "ps_Epoch (mg_state m) < pl_Epoch p"
    and i: "install C J p (sha_hex C pb) ac m w1 = (Inr x, m', w')" by (rule Apply_applied [OF a])
  have fw: "files w1 = files w" using time_Now_eqs [OF t] by simp
  obtain enc now plain senc where e: "m' = m\<lparr>mg_state := applied_state C p (sha_hex C pb) (enc @ [newline]) now\<rparr>"
    "pc_stateMarshal J (mg_state m') = Some plain"
    and se: "pc_stateIndent J (mg_state m'\<lparr>ps_Signature := b64_EncodeToString (ed25519_Sign C (mg_identityKey m) plain)\<rparr>) = Some senc"
    and f: "fs_content (files w') (mo_PolicyFile (mg_options m)) = Some (enc @ [newline])"
    "fs_content (files w') (mo_StateFile (mg_options m)) = Some (senc @ [newline])"
    "\<forall>q\<in>{mo_TrustRootFile (mg_options m), mo_IdentityKeyFile (mg_options m)}. fs_content (files w') q = fs_content (files w1) q"
    by (rule install_files [OF i sep]) blast
  let ?st = "mg_state m'\<lparr>ps_Signature := b64_EncodeToString (ed25519_Sign C (mg_identityKey m) plain)\<rparr>"
  have k'': "keys_on_disk pk kp m (files w'')" using k f(3) w''(2) fw by (simp add: keys_on_disk_def)
  have d: "decodeJSONStrict (pc_state J) (senc @ [newline]) = Some ?st"
    using rt [OF se] by (simp add: decodeJSONStrict_def)
  have e0: "0 < ps_Epoch ?st" using lt e(1) by (simp add: applied_state_def word_gt_0) (metis word_not_simps(1))
  have sg: "ps_Signature (mg_state m') = []" "ps_PolicyDigest (mg_state m') = sha_hex C (enc @ [newline])"
    using e(1) by (simp_all add: applied_state_def)
  have mp: "pc_stateMarshal J (?st\<lparr>ps_Signature := []\<rparr>) = Some plain"
    using e sg by (simp add: applied_state_def)
  have bs: "b64_DecodeString (ps_Signature ?st) = Some (ed25519_Sign C (mg_identityKey m) plain)" by simp
  have "loadState C J (m\<lparr>mg_state := zero_State\<rparr>) w'' =
    (if EqualFold (sha_hex C (enc @ [newline])) (ps_PolicyDigest ?st) then Inr (m\<lparr>mg_state := zero_State, mg_state := ?st\<lparr>ps_Signature := []\<rparr>\<rparr>)
     else Inl UErrPolicyMismatch, w'')"
    by (rule loadState_present [OF w''(1) _ d e0 bs mp])
      (use f w'' C in \<open>simp_all add: signatures_verify_def\<close>)
  also have "\<dots> = (Inr m', w'')" using sg e(1) by (simp add: applied_state_def)
  finally show ?thesis using NewManager_loads [OF w''(1) k''] by simp
qed

text \<open>C16. A crash between the two installations of \<open>Apply\<close> stops the updater for good: on a disk that held an applied
  policy, there is a point of every later successful application at which a crash leaves files that every following
  start rejects with a policy mismatch.\<close>

theorem crash_in_Apply_blocks_restart:
  assumes a: "Apply C J b m w = (Inr x, m', w')" "ar_Applied x" and sep: "separate_files (mg_options m)"
    and k: "keys_on_disk pk kp m (files w)"
    and l: "loadState C J (m\<lparr>mg_state := zero_State\<rparr>) w0 = (Inr m, w1)" "healthy w0" "files w0 = files w"
    and e0: "0 < ps_Epoch (mg_state m)"
    and other: "\<not> EqualFold (ps_PolicyDigest (mg_state m')) (ps_PolicyDigest (mg_state m))"
  shows "\<exists>es u. steps w es w' \<and> crashes (files w) es u
    \<and> (\<forall>v. healthy v \<and> files v = u \<longrightarrow> NewManager C J pk kp (mg_options m) v = (Inl UErrPolicyMismatch, v))"
proof -
  obtain pb p ac w1 where t: "time_Now w = (clock w, w1)"
    and i: "install C J p (sha_hex C pb) ac m w1 = (Inr x, m', w')" by (rule Apply_applied [OF a])
  have fw: "files w1 = files w" "events w1 = events w" using time_Now_eqs [OF t] by simp_all
  obtain enc now w2 es1 es2 where e: "m' = m\<lparr>mg_state := applied_state C p (sha_hex C pb) (enc @ [newline]) now\<rparr>"
    and s: "steps w1 es1 w2" "steps w2 es2 w'"
    and f: "fs_content (files w2) (mo_PolicyFile (mg_options m)) = Some (enc @ [newline])"
    "fs_content (files w2) (mo_StateFile (mg_options m)) = fs_content (files w1) (mo_StateFile (mg_options m))"
    "\<forall>q\<in>{mo_TrustRootFile (mg_options m), mo_IdentityKeyFile (mg_options m)}. fs_content (files w2) q = fs_content (files w1) q"
    by (rule install_files [OF i sep]) blast
  obtain text1 st sg plain where st: "fs_content (files w0) (mo_StateFile (mg_options m)) = Some text1"
    "decodeJSONStrict (pc_state J) text1 = Some st" "b64_DecodeString (ps_Signature st) = Some sg"
    "pc_stateMarshal J (st\<lparr>ps_Signature := []\<rparr>) = Some plain"
    "ed25519_Verify C (ed25519_Public C (mg_identityKey m)) plain sg" "mg_state m = st\<lparr>ps_Signature := []\<rparr>"
    by (rule loadState_positive [OF l(2,1) e0])
  have stw: "steps w (es1 @ es2) w'" using steps_trans [OF s] fw by (simp add: steps_def)
  have u: "crashes (files w) (es1 @ es2) (files w2)" using crashes_prefix [of "files w" es1 es2] s(1) fw by (simp add: steps_def)
  have "NewManager C J pk kp (mg_options m) v = (Inl UErrPolicyMismatch, v)" if v: "healthy v" "files v = files w2" for v
  proof -
    have kv: "keys_on_disk pk kp m (files v)" using k f(3) v(2) fw by (simp add: keys_on_disk_def)
    have "ps_PolicyDigest (mg_state m') = sha_hex C (enc @ [newline])" using e by (simp add: applied_state_def)
    then have ne: "\<not> EqualFold (sha_hex C (enc @ [newline])) (ps_PolicyDigest st)" using other st(6) by simp
    have "loadState C J (m\<lparr>mg_state := zero_State\<rparr>) v =
      (if EqualFold (sha_hex C (enc @ [newline])) (ps_PolicyDigest st) then Inr (m\<lparr>mg_state := zero_State, mg_state := st\<lparr>ps_Signature := []\<rparr>\<rparr>)
       else Inl UErrPolicyMismatch, v)"
      by (rule loadState_present [OF v(1) _ st(2) _ st(3,4)]) (use f v st e0 fw l(3) in simp_all)
    then show ?thesis using NewManager_loads [OF v(1) kv] ne by simp
  qed
  then show ?thesis using stw u by blast
qed

text \<open>A manager at epoch 1, a bundle for epoch 2, and codecs that know the two.\<close>

definition demo_options :: ManagerOptions where
  "demo_options = \<lparr>mo_AgentID = ''a'', mo_TenantID = ''t'', mo_PolicyFile = ''/p'', mo_TrustRootFile = ''/r'',
     mo_IdentityKeyFile = ''/i'', mo_StateFile = ''/s''\<rparr>"

definition demo_state :: "64 word \<Rightarrow> string \<Rightarrow> string \<Rightarrow> State" where
  "demo_state e c b = \<lparr>ps_Epoch = e, ps_Version = c, ps_BundleDigest = b,
     ps_PolicyDigest = sha_hex toy_crypto (c @ [newline]), ps_BundleExpiresAt = 1000, ps_AppliedAt = 50, ps_Signature = []\<rparr>"

definition demo_codec :: policy_codec where
  "demo_codec = \<lparr>
     pc_payload = (\<lambda>s. if s = ''pay'' then Some (\<lparr>pl_Schema = policySchema, pl_Epoch = 2, pl_Version = ''v2'', pl_TenantID = ''t'',
         pl_AgentIDs = [''a''], pl_IssuedAt = 10, pl_ExpiresAt = 1000, pl_Policy = ''doc''\<rparr>, []) else None),
     pc_policy = (\<lambda>d s. if s = ''doc'' then Some (d\<lparr>pol_Version := ''v2''\<rparr>, []) else None),
     pc_state = (\<lambda>s. if s = [] \<or> last s \<noteq> newline then None
        else if hd s = CHR ''1'' then Some (demo_state 1 ''v1'' []\<lparr>ps_Signature := butlast (tl s)\<rparr>, [newline])
        else Some (demo_state 2 ''v2'' (sha_hex toy_crypto ''pay'')\<lparr>ps_Signature := butlast (tl s)\<rparr>, [newline])),
     pc_policyIndent = (\<lambda>p. Some (pol_Version p)),
     pc_stateMarshal = (\<lambda>st. Some (ps_Version st)),
     pc_stateIndent = (\<lambda>st. Some ((if ps_Epoch st = 1 then ''1'' else ''2'') @ ps_Signature st)),
     pc_bundle = (\<lambda>s. None)\<rparr>"

definition demo_manager :: Manager where
  "demo_manager = \<lparr>mg_options = demo_options, mg_trustRoot = ''k'', mg_identityKey = ''id'', mg_state = demo_state 1 ''v1'' []\<rparr>"

definition demo_manager2 :: Manager where
  "demo_manager2 = demo_manager\<lparr>mg_state := demo_state 2 ''v2'' (sha_hex toy_crypto ''pay'')\<rparr>"

definition demo_disk :: world where
  "demo_disk = \<lparr>files = [(''/p'', \<lparr>content = ''v1'' @ [newline], perm = 384, mtime = 0\<rparr>),
       (''/r'', \<lparr>content = ''k'', perm = 384, mtime = 0\<rparr>), (''/i'', \<lparr>content = ''id'', perm = 384, mtime = 0\<rparr>),
       (''/s'', \<lparr>content = ''1'' @ b64_EncodeToString (''id'' @ ''v1'') @ [newline], perm = 384, mtime = 0\<rparr>)],
     faults = [], events = [], clock = 50, clock_steps = []\<rparr>"

definition demo_bundle :: Bundle where
  "demo_bundle = \<lparr>bn_PayloadB64 = b64_EncodeToString ''pay'', bn_SignatureB64 = b64_EncodeToString (''k'' @ ''pay''),
     bn_SHA256 = sha_hex toy_crypto ''pay''\<rparr>"

lemma demo_apply:
  "\<exists>x w'. Apply toy_crypto demo_codec demo_bundle demo_manager demo_disk = (Inr x, demo_manager2, w') \<and> ar_Applied x \<and> healthy w'"
proof -
  have 1: "(case Apply toy_crypto demo_codec demo_bundle demo_manager demo_disk of
          (Inr x, m', w') \<Rightarrow> m' = demo_manager2 \<and> ar_Applied x \<and> faults w' = [] | _ \<Rightarrow> False)"
    by code_simp
  then show ?thesis by (auto simp: healthy_def split: prod.splits sum.splits)
qed

lemma demo_facts:
  "separate_files (mg_options demo_manager)" "keys_on_disk Some Some demo_manager (files demo_disk)"
  "loadState toy_crypto demo_codec (demo_manager\<lparr>mg_state := zero_State\<rparr>) demo_disk = (Inr demo_manager, demo_disk)"
  "healthy demo_disk" "0 < ps_Epoch (mg_state demo_manager)"
  "\<not> EqualFold (ps_PolicyDigest (mg_state demo_manager2)) (ps_PolicyDigest (mg_state demo_manager))"
  by code_simp+

text \<open>The three theorems on this disk.\<close>

theorem applied_policy_was_authorised_witness:
  "\<exists>x w' active enc. Apply toy_crypto demo_codec demo_bundle demo_manager demo_disk = (Inr x, demo_manager2, w')
     \<and> ar_Policy x = Some active \<and> pol_Version active = ''v2'' \<and> 0 < pol_MaxActionTTLSeconds active
     \<and> fs_content (files w') ''/p'' = Some (enc @ [newline])"
proof -
  obtain x w' where a: "Apply toy_crypto demo_codec demo_bundle demo_manager demo_disk = (Inr x, demo_manager2, w')" "ar_Applied x"
    using demo_apply by blast
  have o: "mo_PolicyFile (mg_options demo_manager) = ''/p''" by (simp add: demo_manager_def demo_options_def)
  have pb: "b64_DecodeString (TrimSpace (bn_PayloadB64 demo_bundle)) = Some ''pay''" by code_simp
  have v: "decodeJSONStrict (pc_payload demo_codec) ''pay'' = Some p \<Longrightarrow> pl_Version p = ''v2''" for p
    by (auto simp: demo_codec_def decodeJSONStrict_def)
  show ?thesis using applied_policy_was_authorised [OF a demo_facts(1)] a(1) pb v unfolding o by fastforce
qed

theorem restart_keeps_applied_epoch_witness:
  "\<exists>x w'. Apply toy_crypto demo_codec demo_bundle demo_manager demo_disk = (Inr x, demo_manager2, w')
     \<and> NewManager toy_crypto demo_codec Some Some demo_options w' = (Inr demo_manager2, w')"
proof -
  obtain x w' where a: "Apply toy_crypto demo_codec demo_bundle demo_manager demo_disk = (Inr x, demo_manager2, w')" "ar_Applied x"
    and h: "healthy w'" using demo_apply by blast
  have e: "ps_Epoch (mg_state demo_manager2) = 2" "mg_state demo_manager2 = demo_state 2 ''v2'' (sha_hex toy_crypto ''pay'')"
    by (simp_all add: demo_manager2_def demo_state_def)
  have rt: "pc_state demo_codec (enc @ [newline]) = Some (mg_state demo_manager2\<lparr>ps_Signature := sig\<rparr>, [newline])"
    if "pc_stateIndent demo_codec (mg_state demo_manager2\<lparr>ps_Signature := sig\<rparr>) = Some enc" for sig enc
    using that e(1) unfolding e(2) by (auto simp: demo_codec_def demo_state_def)
  have o: "mg_options demo_manager = demo_options" by (simp add: demo_manager_def)
  show ?thesis
    using restart_keeps_applied_epoch [OF a demo_facts(1,2) toy_crypto_laws(1) rt h refl] a(1) unfolding o by blast
qed

theorem crash_in_Apply_blocks_restart_witness:
  "\<exists>u. \<forall>v. healthy v \<and> files v = u \<longrightarrow>
     NewManager toy_crypto demo_codec Some Some demo_options v = (Inl UErrPolicyMismatch, v)"
proof -
  obtain x w' where a: "Apply toy_crypto demo_codec demo_bundle demo_manager demo_disk = (Inr x, demo_manager2, w')" "ar_Applied x"
    using demo_apply by blast
  have o: "mg_options demo_manager = demo_options" by (simp add: demo_manager_def)
  show ?thesis
    using crash_in_Apply_blocks_restart [OF a demo_facts(1,2,3,4) refl demo_facts(5,6)] unfolding o by blast
qed

end
