(* ===== verification/Outbox.thy ===== *)
theory Outbox
  imports Model Go_Time Go_Crypto File_Install "HOL-Library.Product_Lexorder"
begin

text \<open>
  Package \<open>internal/transport\<close>, \<open>outbox.go\<close>: the directory queue between the event pipeline and the control plane.
  One file per event under \<open>outbox/pending\<close>, written beside and renamed; events that can never be sent move to
  \<open>outbox/dead-letter\<close> with a reason file. Every operation is modelled call by call on the store.
\<close>

section \<open>Reading a directory\<close>

text \<open>\<open>os.ReadDir\<close>: the names of the files of a directory, in order (the store holds regular files only).\<close>

definition dir_names :: "string \<Rightarrow> fs \<Rightarrow> string list" where
  "dir_names d s = sort (remdups (map filepath_Base (filter (\<lambda>p. filepath_Dir p = filepath_Clean d) (map fst s))))"

definition os_ReadDir :: "string \<Rightarrow> string list io" where
  "os_ReadDir d w =
     (let (f, w1) = next_fault w in if f \<noteq> FOk then (Inl ErrIO, w1) else (Inr (dir_names d (files w1)), w1))"

section \<open>The outbox\<close>

record Outbox =
  ob_pendingDir :: string
  ob_deadDir :: string

record Item =
  it_Path :: string
  it_Event :: Event
  it_Size :: nat

record OutboxStats =
  os_Pending :: nat
  os_PendingBytes :: nat
  os_DeadLetter :: nat
  os_DeadLetterBty :: nat

datatype outbox_error =
    OErrMkdir oserr | OErrID | OErrEncode | OErrCheck oserr | OErrWrite oserr | OErrProtect oserr | OErrInstall oserr
  | OErrReadDir oserr | OErrStat oserr | OErrRead oserr | OErrAck oserr | OErrDeadCheck oserr | OErrDeadMove oserr
  | OErrDeadReason oserr

text \<open>The JSON codec of events; a decoding error carries its text.\<close>

record event_codec =
  ec_marshal :: "Event \<Rightarrow> string option"
  ec_unmarshal :: "string \<Rightarrow> string + Event"

definition OpenOutbox :: "string \<Rightarrow> world \<Rightarrow> (outbox_error, Outbox) result \<times> world" where
  "OpenOutbox dataDir w =
     (let base = filepath_Join [dataDir, ''outbox'']; pending = filepath_Join [base, ''pending''];
          dead = filepath_Join [base, ''dead-letter'']
      in case os_MkdirAll base mode_private_dir w of
           (Inl e, w1) \<Rightarrow> (Inl (OErrMkdir e), w1)
         | (Inr _, w1) \<Rightarrow>
             (case os_MkdirAll pending mode_private_dir w1 of
                (Inl e, w2) \<Rightarrow> (Inl (OErrMkdir e), w2)
              | (Inr _, w2) \<Rightarrow>
                  (case os_MkdirAll dead mode_private_dir w2 of
                     (Inl e, w3) \<Rightarrow> (Inl (OErrMkdir e), w3)
                   | (Inr _, w3) \<Rightarrow> (Inr \<lparr>ob_pendingDir = pending, ob_deadDir = dead\<rparr>, w3))))"

definition eventFilename :: "crypto \<Rightarrow> string \<Rightarrow> string" where
  "eventFilename C eventID = sha_hex C eventID @ ''.json''"

text \<open>The temporary name \<open>.<name>.<ns>.tmp\<close>.\<close>

definition temporary_name :: "string \<Rightarrow> gtime \<Rightarrow> string" where
  "temporary_name name now = ''.'' @ name @ ''.'' @ Itoa (UnixNano now) @ ''.tmp''"

definition Enqueue :: "crypto \<Rightarrow> event_codec \<Rightarrow> Outbox \<Rightarrow> Event \<Rightarrow> world \<Rightarrow> (outbox_error, unit) result \<times> world" where
  "Enqueue C J ob event w =
     (if TrimSpace (ev_ID event) = [] then (Inl OErrID, w)
      else case ec_marshal J event of
             None \<Rightarrow> (Inl OErrEncode, w)
           | Some enc \<Rightarrow>
               (let encoded = enc @ [newline]; name = eventFilename C (ev_ID event);
                    finalPath = filepath_Join [ob_pendingDir ob, name]
                in case os_Stat finalPath w of
                     (Inr _, w1) \<Rightarrow> (Inr (), w1)
                   | (Inl e, w1) \<Rightarrow>
                       if e \<noteq> ErrNotExist then (Inl (OErrCheck e), w1)
                       else (let (now, w2) = time_Now w1;
                                 temporary = filepath_Join [ob_pendingDir ob, temporary_name name now]
                             in case os_WriteFile temporary encoded mode_private w2 of
                                  (Inl e1, w3) \<Rightarrow> (Inl (OErrWrite e1), w3)
                                | (Inr _, w3) \<Rightarrow>
                                    (case os_Chmod temporary mode_private w3 of
                                       (Inl e1, w4) \<Rightarrow> (Inl (OErrProtect e1), snd (os_Remove temporary w4))
                                     | (Inr _, w4) \<Rightarrow>
                                         (case os_Rename temporary finalPath w4 of
                                            (Inl e1, w5) \<Rightarrow> (Inl (OErrInstall e1), snd (os_Remove temporary w5))
                                          | (Inr _, w5) \<Rightarrow> (Inr (), w5))))))"

section \<open>Dead letters\<close>

text \<open>The tail of \<open>deadLetterLocked\<close>: move the file, then write the reason.\<close>

definition dead_move :: "string \<Rightarrow> string \<Rightarrow> string \<Rightarrow> world \<Rightarrow> (outbox_error, unit) result \<times> world" where
  "dead_move path destination reason w =
     (case os_Rename path destination w of
        (Inl e, w1) \<Rightarrow> (Inl (OErrDeadMove e), w1)
      | (Inr _, w1) \<Rightarrow>
          (case os_WriteFile (destination @ ''.reason.txt'') (TrimSpace reason @ [newline]) mode_private w1 of
             (Inl e, w2) \<Rightarrow> (Inl (OErrDeadReason e), w2)
           | (Inr _, w2) \<Rightarrow> (Inr (), w2)))"

definition deadLetterLocked :: "Outbox \<Rightarrow> string \<Rightarrow> string \<Rightarrow> world \<Rightarrow> (outbox_error, unit) result \<times> world" where
  "deadLetterLocked ob path reason w =
     (let name = filepath_Base path; destination0 = filepath_Join [ob_deadDir ob, name]
      in case os_Stat destination0 w of
           (Inl e, w1) \<Rightarrow>
             if e \<noteq> ErrNotExist then (Inl (OErrDeadCheck e), w1) else dead_move path destination0 reason w1
         | (Inr _, w1) \<Rightarrow>
             (let (now, w2) = time_Now w1
              in dead_move path (filepath_Join [ob_deadDir ob, Itoa (UnixNano now) @ ''-'' @ name]) reason w2))"

section \<open>Reading the queue\<close>

record candidate =
  cd_path :: string
  cd_name :: string
  cd_modTime :: gtime
  cd_size :: nat

text \<open>The first loop of \<open>Peek\<close>: one candidate per \<open>.json\<close> entry.\<close>

fun candidates :: "Outbox \<Rightarrow> string list \<Rightarrow> world \<Rightarrow> (outbox_error, candidate list) result \<times> world" where
  "candidates ob [] w = (Inr [], w)"
| "candidates ob (n # ns) w =
     (if \<not> HasSuffix n ''.json'' then candidates ob ns w
      else case os_Stat (filepath_Join [ob_pendingDir ob, n]) w of
             (Inl e, w1) \<Rightarrow> (Inl (OErrStat e), w1)
           | (Inr info, w1) \<Rightarrow>
               (case candidates ob ns w1 of
                  (Inl e, w2) \<Rightarrow> (Inl e, w2)
                | (Inr cs, w2) \<Rightarrow>
                    (Inr (\<lparr>cd_path = filepath_Join [ob_pendingDir ob, n], cd_name = n, cd_modTime = mtime info,
                           cd_size = length (content info)\<rparr> # cs), w2)))"

text \<open>The second loop: decode in order, move what does not decode to the dead letters. The result is the items
  collected and the error, if any.\<close>

fun peek_items ::
  "event_codec \<Rightarrow> Outbox \<Rightarrow> int \<Rightarrow> Item list \<Rightarrow> candidate list \<Rightarrow> world \<Rightarrow> (Item list \<times> outbox_error option) \<times> world" where
  "peek_items J ob limit items [] w = ((items, None), w)"
| "peek_items J ob limit items (c # cs) w =
     (if int (length items) \<ge> limit then ((items, None), w)
      else case os_ReadFile (cd_path c) w of
             (Inl e, w1) \<Rightarrow> ((items, Some (OErrRead e)), w1)
           | (Inr text1, w1) \<Rightarrow>
               (case ec_unmarshal J text1 of
                  Inl err \<Rightarrow>
                    (case deadLetterLocked ob (cd_path c) (''invalid queued event: '' @ err) w1 of
                       (Inl e, w2) \<Rightarrow> ((items, Some e), w2)
                     | (Inr _, w2) \<Rightarrow> peek_items J ob limit items cs w2)
                | Inr event \<Rightarrow>
                    peek_items J ob limit (items @ [\<lparr>it_Path = cd_path c, it_Event = event, it_Size = cd_size c\<rparr>]) cs w1))"

definition Peek :: "event_codec \<Rightarrow> Outbox \<Rightarrow> int \<Rightarrow> world \<Rightarrow> (Item list \<times> outbox_error option) \<times> world" where
  "Peek J ob limit w =
     (if limit \<le> 0 then (([], None), w)
      else case os_ReadDir (ob_pendingDir ob) w of
             (Inl e, w1) \<Rightarrow> (([], Some (OErrReadDir e)), w1)
           | (Inr names, w1) \<Rightarrow>
               (case candidates ob names w1 of
                  (Inl e, w2) \<Rightarrow> (([], Some e), w2)
                | (Inr cs, w2) \<Rightarrow> peek_items J ob limit [] (sort_key (\<lambda>c. (cd_modTime c, cd_name c)) cs) w2))"

definition Ack :: "Item \<Rightarrow> world \<Rightarrow> (outbox_error, unit) result \<times> world" where
  "Ack item w =
     (case os_Remove (it_Path item) w of
        (Inl e, w1) \<Rightarrow> (if e \<noteq> ErrNotExist then Inl (OErrAck e) else Inr (), w1)
      | (Inr _, w1) \<Rightarrow> (Inr (), w1))"

definition DeadLetter :: "Outbox \<Rightarrow> Item \<Rightarrow> string \<Rightarrow> world \<Rightarrow> (outbox_error, unit) result \<times> world" where
  "DeadLetter ob item reason w = deadLetterLocked ob (it_Path item) reason w"

fun stats_loop :: "string \<Rightarrow> string \<Rightarrow> string list \<Rightarrow> nat \<Rightarrow> nat \<Rightarrow> world \<Rightarrow> (outbox_error, nat \<times> nat) result \<times> world" where
  "stats_loop d suf [] count bytes w = (Inr (count, bytes), w)"
| "stats_loop d suf (n # ns) count bytes w =
     (if \<not> HasSuffix n suf then stats_loop d suf ns count bytes w
      else case os_Stat (filepath_Join [d, n]) w of
             (Inl e, w1) \<Rightarrow> (Inl (OErrStat e), w1)
           | (Inr info, w1) \<Rightarrow> stats_loop d suf ns (count + 1) (bytes + length (content info)) w1)"

definition directoryStats :: "string \<Rightarrow> string \<Rightarrow> world \<Rightarrow> (outbox_error, nat \<times> nat) result \<times> world" where
  "directoryStats path suf w =
     (case os_ReadDir path w of
        (Inl e, w1) \<Rightarrow> (Inl (OErrReadDir e), w1)
      | (Inr names, w1) \<Rightarrow> stats_loop path suf names 0 0 w1)"

definition Stats :: "Outbox \<Rightarrow> world \<Rightarrow> (outbox_error, OutboxStats) result \<times> world" where
  "Stats ob w =
     (case directoryStats (ob_pendingDir ob) ''.json'' w of
        (Inl e, w1) \<Rightarrow> (Inl e, w1)
      | (Inr (pending, pendingBytes), w1) \<Rightarrow>
          (case directoryStats (ob_deadDir ob) ''.json'' w1 of
             (Inl e, w2) \<Rightarrow> (Inl e, w2)
           | (Inr (dead, deadBytes), w2) \<Rightarrow>
               (Inr \<lparr>os_Pending = pending, os_PendingBytes = pendingBytes, os_DeadLetter = dead, os_DeadLetterBty = deadBytes\<rparr>, w2)))"

section \<open>Names and places\<close>

text \<open>A queue file has a plain name without a dash, ending in \<open>.json\<close>: what \<open>eventFilename\<close> produces.\<close>

definition good_name :: "string \<Rightarrow> bool" where
  "good_name n = (plain_comp n \<and> HasSuffix n ''.json'' \<and> CHR ''-'' \<notin> set n)"

definition wf_outbox :: "Outbox \<Rightarrow> bool" where
  "wf_outbox ob = (HasPrefix (ob_pendingDir ob) ''/'' \<and> HasPrefix (ob_deadDir ob) ''/''
     \<and> clean_comps (ob_pendingDir ob) \<noteq> clean_comps (ob_deadDir ob))"

abbreviation pending_file :: "Outbox \<Rightarrow> string \<Rightarrow> string" where
  "pending_file ob n \<equiv> filepath_Join [ob_pendingDir ob, n]"

text \<open>The names a file of the queue can get among the dead letters.\<close>

definition dead_names :: "string \<Rightarrow> string set" where
  "dead_names n = insert n {Itoa k @ ''-'' @ n |k. True}"

definition dead_files :: "Outbox \<Rightarrow> string \<Rightarrow> string set" where
  "dead_files ob n = (\<lambda>m. filepath_Join [ob_deadDir ob, m]) ` dead_names n"

lemma Itoa_no_slash: "CHR ''/'' \<notin> set (Itoa k)"
proof -
  have "CHR ''/'' \<notin> set ''0123456789''" by simp
  then have "CHR ''/'' \<notin> set (nat_digits m)" for m using nat_digits_chars [of m] by (rule contra_subsetD [rotated])
  then show ?thesis by (simp add: Itoa_def)
qed

lemma dead_name_plain: "plain_comp n \<Longrightarrow> m \<in> dead_names n \<Longrightarrow> plain_comp m"
  using Itoa_no_slash by (auto simp: dead_names_def plain_comp_def append_eq_Cons_conv)

lemma dead_name_suffix: "m \<in> dead_names n \<Longrightarrow> HasSuffix n s \<Longrightarrow> HasSuffix m s"
  by (auto simp: dead_names_def HasSuffix_iff_suffix suffix_def)

lemma takeWhile_rev_all: "x \<notin> set n \<Longrightarrow> takeWhile (\<lambda>c. c \<noteq> x) (rev n) = rev n"
  by (simp add: takeWhile_eq_all_conv) blast

lemma dead_names_tail:
  assumes "m \<in> dead_names n" "CHR ''-'' \<notin> set n"
  shows "takeWhile (\<lambda>c. c \<noteq> CHR ''-'') (rev m) = rev n"
proof -
  from assms(1) have "m = n \<or> (\<exists>k. rev m = rev n @ CHR ''-'' # rev (Itoa k))" by (auto simp: dead_names_def)
  then show ?thesis using takeWhile_rev_all [OF assms(2)] by (elim disjE exE) (simp_all only: takeWhile_tail simp_thms)
qed

lemma dead_names_disjoint:
  "good_name n \<Longrightarrow> good_name n' \<Longrightarrow> m \<in> dead_names n \<Longrightarrow> m \<in> dead_names n' \<Longrightarrow> n = n'"
  using dead_names_tail [of m n] dead_names_tail [of m n'] by (simp add: good_name_def)

lemma good_eventFilename: "good_name (eventFilename C i)"
proof -
  have "CHR ''/'' \<notin> set (sha_hex C i)" "CHR ''-'' \<notin> set (sha_hex C i)"
    unfolding sha_hex_def by (rule hex_not_in, simp)+
  then show ?thesis
    by (simp add: good_name_def plain_comp_def eventFilename_def HasSuffix_iff_suffix suffixI append_eq_Cons_conv)
qed

text \<open>Where a queue file may be: in its place, or complete among the dead letters.\<close>

definition safe :: "Outbox \<Rightarrow> string \<Rightarrow> string \<Rightarrow> fs \<Rightarrow> bool" where
  "safe ob n c s = (fs_content s (pending_file ob n) = Some c \<or> (\<exists>d\<in>dead_files ob n. fs_content s d = Some c))"

lemma safe_quiet:
  assumes "safe ob n c (files w)" and "\<And>x. x = pending_file ob n \<or> x \<in> dead_files ob n \<Longrightarrow> quiet x w w'"
  shows "crash_safe (safe ob n c) w w'"
proof -
  from assms(1) obtain x where x: "x = pending_file ob n \<or> x \<in> dead_files ob n" "fs_content (files w) x = Some c"
    by (auto simp: safe_def)
  show ?thesis by (rule crash_safe_quiet [OF assms(2) [OF x(1)]]) (use x in \<open>auto simp: safe_def\<close>)
qed

lemma pending_ne_dead:
  assumes "wf_outbox ob" "good_name n" "good_name n'" "d \<in> dead_files ob n'"
  shows "pending_file ob n \<noteq> d" "pending_file ob n \<noteq> d @ ''.reason.txt''"
proof -
  from assms(4) obtain m where m: "m \<in> dead_names n'" "d = filepath_Join [ob_deadDir ob, m]" by (auto simp: dead_files_def)
  have p: "plain_comp n" "plain_comp m" "HasPrefix (ob_pendingDir ob) ''/''" "HasPrefix (ob_deadDir ob) ''/''"
    using assms m(1) dead_name_plain by (auto simp: good_name_def wf_outbox_def)
  have r: "plain_comp (m @ ''.reason.txt'')" using p(2) by (simp add: plain_comp_def append_eq_Cons_conv)
  have "d @ ''.reason.txt'' = filepath_Join [ob_deadDir ob, m @ ''.reason.txt'']"
    unfolding m(2) by (rule Join_file_append [OF p(4,2) _ r]) simp
  then show "pending_file ob n \<noteq> d" "pending_file ob n \<noteq> d @ ''.reason.txt''"
    using assms(1) m(2) Join_file_eq_iff [OF p(3,1,4,2)] Join_file_eq_iff [OF p(3,1,4) r] by (auto simp: wf_outbox_def)
qed

lemma dead_ne_dead:
  assumes "wf_outbox ob" "good_name n" "good_name n'" "d \<in> dead_files ob n" "d' \<in> dead_files ob n'"
  shows "d \<noteq> d' @ ''.reason.txt''" "n \<noteq> n' \<Longrightarrow> d \<noteq> d'"
proof -
  from assms(4,5) obtain m m' where m: "m \<in> dead_names n" "d = filepath_Join [ob_deadDir ob, m]"
    "m' \<in> dead_names n'" "d' = filepath_Join [ob_deadDir ob, m']" by (auto simp: dead_files_def)
  have p: "plain_comp m" "plain_comp m'" "HasPrefix (ob_deadDir ob) ''/''"
    using assms m(1,3) dead_name_plain by (auto simp: good_name_def wf_outbox_def)
  have r: "plain_comp (m' @ ''.reason.txt'')" using p(2) by (simp add: plain_comp_def append_eq_Cons_conv)
  have e: "d' @ ''.reason.txt'' = filepath_Join [ob_deadDir ob, m' @ ''.reason.txt'']"
    unfolding m(4) by (rule Join_file_append [OF p(3,2) _ r]) simp
  have "HasSuffix m ''.json''" using assms(2) m(1) dead_name_suffix by (auto simp: good_name_def)
  then have "m \<noteq> m' @ ''.reason.txt''" by (auto simp: HasSuffix_iff_suffix suffix_def)
  then show "d \<noteq> d' @ ''.reason.txt''" unfolding e m(2) using Join_file_eq_iff [OF p(3,1,3) r] by simp
  show "d \<noteq> d'" if "n \<noteq> n'"
    using that dead_names_disjoint [OF assms(2,3) m(1)] m Join_file_eq_iff [OF p(3,1,3,2)] by auto
qed

text \<open>Moving a file to the dead letters: it is never in neither place, and no other queue file is touched.\<close>

lemma deadLetterLocked_moves:
  assumes "deadLetterLocked ob (pending_file ob n) reason w = (r, w')" "wf_outbox ob" "good_name n"
  obtains "\<And>x. quiet x w w'"
  | w1 d where "\<And>x. quiet x w w1" "d \<in> dead_files ob n" "dead_move (pending_file ob n) d reason w1 = (r, w')"
proof -
  let ?p = "pending_file ob n" and ?d = "filepath_Join [ob_deadDir ob, n]"
  have b: "filepath_Base ?p = n" using assms(2,3) by (simp add: wf_outbox_def good_name_def)
  obtain r1 w1 where st: "os_Stat ?d w = (r1, w1)" by (rule prod.exhaust)
  obtain now w2 where t: "time_Now w1 = (now, w2)" by (rule prod.exhaust)
  have q1: "quiet x w w1" for x using st by (rule quiet_Stat)
  have "steps w1 [] w2" using time_Now_eqs [OF t] by (simp add: steps_def)
  then have q2: "quiet x w w2" for x using q1 quiet_nil quiet_trans by blast
  have d: "?d \<in> dead_files ob n" "filepath_Join [ob_deadDir ob, Itoa k @ ''-'' @ n] \<in> dead_files ob n" for k
    by (auto simp: dead_files_def dead_names_def)
  show ?thesis
  proof (cases r1)
    case (Inr f)
    then have "dead_move ?p (filepath_Join [ob_deadDir ob, Itoa (UnixNano now) @ ''-'' @ n]) reason w2 = (r, w')"
      using assms(1) st t b by (simp add: deadLetterLocked_def)
    then show ?thesis by (rule that(2) [OF q2 d(2)])
  next
    case (Inl e)
    show ?thesis
    proof (cases "e = ErrNotExist")
      case True
      then have "dead_move ?p ?d reason w1 = (r, w')" using assms(1) st b Inl by (simp add: deadLetterLocked_def)
      then show ?thesis by (rule that(2) [OF q1 d(1)])
    next
      case False
      then have "w' = w1" using assms(1) st b Inl by (simp add: deadLetterLocked_def)
      then show ?thesis using that(1) q1 by blast
    qed
  qed
qed

lemma dead_move_quiet: "dead_move p d reason w = (r, w') \<Longrightarrow> x \<notin> {p, d, d @ ''.reason.txt''} \<Longrightarrow> quiet x w w'"
  by (auto simp: dead_move_def split: prod.splits sum.splits) (meson quiet_chain)+

lemma deadLetter_other:
  assumes run: "deadLetterLocked ob (pending_file ob n) reason w = (r, w')" and wf: "wf_outbox ob"
    and g: "good_name n" "good_name n'" "n' \<noteq> n" and x: "x = pending_file ob n' \<or> x \<in> dead_files ob n'"
  shows "quiet x w w'"
proof (rule deadLetterLocked_moves [OF run wf g(1)])
  fix w1 d assume d: "quiet x w w1" for x
  assume dd: "d \<in> dead_files ob n" "dead_move (pending_file ob n) d reason w1 = (r, w')"
  have pp: "pending_file ob n' \<noteq> pending_file ob n"
    using wf g by (simp add: wf_outbox_def good_name_def Join_file_eq_iff)
  have "x \<notin> {pending_file ob n, d, d @ ''.reason.txt''}"
  proof (cases "x = pending_file ob n'")
    case True
    then show ?thesis using pp pending_ne_dead [OF wf g(2,1) dd(1)] by simp
  next
    case False
    then have "x \<in> dead_files ob n'" using x by blast
    then show ?thesis
      using pending_ne_dead(1) [OF wf g(1,2), of x] dead_ne_dead [OF wf g(2,1) _ dd(1), of x] g(3) by auto
  qed
  then show ?thesis using dead_move_quiet [OF dd(2)] d quiet_trans by blast
qed

lemma deadLetter_self:
  assumes run: "deadLetterLocked ob (pending_file ob n) reason w = (r, w')" and wf: "wf_outbox ob" "good_name n"
    and c: "fs_content (files w) (pending_file ob n) = Some c"
  shows "crash_safe (safe ob n c) w w'"
proof -
  let ?p = "pending_file ob n"
  have s: "safe ob n c (files w)" using c by (simp add: safe_def)
  show ?thesis
  proof (rule deadLetterLocked_moves [OF run wf])
    fix w1 d assume q: "\<And>x. quiet x w w1" and d: "d \<in> dead_files ob n" and mv: "dead_move ?p d reason w1 = (r, w')"
    have c1: "fs_content (files w1) ?p = Some c" using quiet_content [OF q] c by simp
    have ne: "?p \<noteq> d" "d \<noteq> d @ ''.reason.txt''" using pending_ne_dead [OF wf(1,2,2) d] by auto
    obtain r2 w2 where rn: "os_Rename ?p d w1 = (r2, w2)" by (rule prod.exhaust)
    obtain r3 w3 where wr: "os_WriteFile (d @ ''.reason.txt'') (TrimSpace reason @ [newline]) mode_private w2 = (r3, w3)"
      by (rule prod.exhaust)
    have "crash_safe (safe ob n c) w1 w'"
    proof (cases r2)
      case (Inl e)
      then have "w' = w2" using mv rn by (simp add: dead_move_def)
      then have "quiet x w1 w'" for x using quiet_Rename_failed rn Inl by blast
      then show ?thesis using safe_quiet [of ob n c w1 w'] c1 by (auto simp: safe_def)
    next
      case (Inr _)
      then have w': "w' = w3" using mv rn wr by (auto simp: dead_move_def split: sum.splits)
      have ok: "os_Rename ?p d w1 = (Inr (), w2)" using rn Inr by simp
      have st: "steps w1 [EvRename ?p d] w2" using os_Rename_steps [OF ok] by auto
      have c2: "fs_content (files w2) d = Some c" using rename_installs(1) [OF ok] c1 by simp
      have 1: "crash_safe (safe ob n c) w1 w2"
        by (rule crash_safe_rename [OF st]) (use c1 c2 d in \<open>auto simp: safe_def\<close>)
      have "quiet d w2 w3" using quiet_WriteFile [OF wr] ne(2) by blast
      then have "crash_safe (safe ob n c) w2 w3" by (rule crash_safe_quiet) (use c2 d in \<open>auto simp: safe_def\<close>)
      then show ?thesis using 1 w' crash_safe_trans by blast
    qed
    then show ?thesis using crash_safe_trans safe_quiet [OF s q] by blast
  qed (rule safe_quiet [OF s])
qed

section \<open>The queue as an interface\<close>

text \<open>What the sender relies on. \<open>places p\<close> are the paths at which the content of the queue file \<open>p\<close> may be; an
  operation on one file never touches the places of another, and discarding moves content between its places.\<close>

datatype verdict = Acknowledge | Discard string

locale durable_queue =
  fixes peek :: "int \<Rightarrow> world \<Rightarrow> (Item list \<times> 'e option) \<times> world"
    and ack :: "Item \<Rightarrow> world \<Rightarrow> ('e, unit) result \<times> world"
    and discard :: "Item \<Rightarrow> string \<Rightarrow> world \<Rightarrow> ('e, unit) result \<times> world"
    and decode :: "string \<Rightarrow> Event \<Rightarrow> bool"
    and member :: "string \<Rightarrow> bool"
    and places :: "string \<Rightarrow> string set"
    and invar :: "fs \<Rightarrow> bool"
  assumes own_place: "p \<in> places p"
    and peek_keeps: "invar (files w) \<Longrightarrow> peek l w = ((items, e), w') \<Longrightarrow> member p \<Longrightarrow> fs_content (files w) p = Some c \<Longrightarrow>
      crash_safe (\<lambda>u. \<exists>x\<in>places p. fs_content u x = Some c) w w'"
    and peek_distinct: "invar (files w) \<Longrightarrow> peek l w = ((items, e), w') \<Longrightarrow> distinct (map it_Path items)"
    and peek_items: "invar (files w) \<Longrightarrow> peek l w = ((items, e), w') \<Longrightarrow> it \<in> set items \<Longrightarrow>
      member (it_Path it) \<and> (\<exists>c. fs_content (files w) (it_Path it) = Some c \<and> fs_content (files w') (it_Path it) = Some c
        \<and> decode c (it_Event it))"
    and ack_other: "ack it w = (r, w') \<Longrightarrow> member p \<Longrightarrow> member (it_Path it) \<Longrightarrow> p \<noteq> it_Path it \<Longrightarrow> x \<in> places p \<Longrightarrow> quiet x w w'"
    and discard_other: "discard it reason w = (r, w') \<Longrightarrow> member p \<Longrightarrow> member (it_Path it) \<Longrightarrow> p \<noteq> it_Path it \<Longrightarrow>
      x \<in> places p \<Longrightarrow> quiet x w w'"
    and discard_self: "discard it reason w = (r, w') \<Longrightarrow> member (it_Path it) \<Longrightarrow> fs_content (files w) (it_Path it) = Some c \<Longrightarrow>
      crash_safe (\<lambda>u. \<exists>x\<in>places (it_Path it). fs_content u x = Some c) w w'"
begin

abbreviation stays :: "string \<Rightarrow> string \<Rightarrow> fs \<Rightarrow> bool" where
  "stays p c u \<equiv> (\<exists>x\<in>places p. fs_content u x = Some c)"

lemma stays_quiet:
  assumes "stays p c (files w)" "\<And>x. x \<in> places p \<Longrightarrow> quiet x w w'"
  shows "crash_safe (stays p c) w w'"
proof -
  from assms(1) obtain x where x: "x \<in> places p" "fs_content (files w) x = Some c" by blast
  show ?thesis by (rule crash_safe_quiet [OF assms(2) [OF x(1)]]) (use x in auto)
qed

text \<open>Working through a list of items, each with its verdict; it stops at the first error. The first component of the
  result are the items that were acknowledged.\<close>

primrec process :: "(Item \<times> verdict) list \<Rightarrow> world \<Rightarrow> (Item list \<times> 'e option) \<times> world" where
  "process [] w = (([], None), w)"
| "process (iv # ivs) w =
     (case snd iv of
        Acknowledge \<Rightarrow>
          (case ack (fst iv) w of
             (Inl e, w1) \<Rightarrow> (([fst iv], Some e), w1)
           | (Inr _, w1) \<Rightarrow> (case process ivs w1 of ((as, e), w2) \<Rightarrow> ((fst iv # as, e), w2)))
      | Discard reason \<Rightarrow>
          (case discard (fst iv) reason w of
             (Inl e, w1) \<Rightarrow> (([], Some e), w1)
           | (Inr _, w1) \<Rightarrow> process ivs w1))"

lemma process_keeps:
  assumes "process ivs w = ((as, e), w')" "distinct (map (it_Path \<circ> fst) ivs)" "\<forall>iv\<in>set ivs. member (it_Path (fst iv))"
    and p: "member p" "stays p c (files w)" "p \<in> it_Path ` fst ` set ivs \<Longrightarrow> fs_content (files w) p = Some c" "p \<notin> it_Path ` set as"
  shows "crash_safe (stays p c) w w'"
  using assms
proof (induction ivs arbitrary: w as e w')
  case Nil
  then show ?case using stays_quiet [of p w c w] by simp
next
  case (Cons iv ivs)
  obtain it v where iv: "iv = (it, v)" by (cases iv)
  define as1 e1 w2 where "as1 v = fst (fst (process ivs v))" and "e1 v = snd (fst (process ivs v))"
    and "w2 v = snd (process ivs v)" for v
  then have rest: "process ivs v = ((as1 v, e1 v), w2 v)" for v by simp
  have m: "member (it_Path it)" using Cons.prems(3) iv by simp
  have step: "crash_safe (stays p c) w1 (w2 w1)"
    if q: "\<And>x. p \<noteq> it_Path it \<Longrightarrow> x \<in> places p \<Longrightarrow> quiet x w w1" and k: "stays p c (files w1)" and n: "p \<notin> it_Path ` set (as1 w1)" for w1
  proof (rule Cons.IH [OF rest])
    show "fs_content (files w1) p = Some c" if i: "p \<in> it_Path ` fst ` set ivs"
    proof -
      have "p \<noteq> it_Path it" using i Cons.prems(2) iv by (auto simp: image_image image_iff)
      then have "quiet p w w1" using q own_place by blast
      moreover have "fs_content (files w) p = Some c" using Cons.prems(6) i iv by auto
      ultimately show ?thesis by (simp add: quiet_content)
    qed
  qed (use Cons.prems k n in auto)
  show ?case
  proof (cases v)
    case Acknowledge
    obtain r w1 where a: "ack it w = (r, w1)" by (rule prod.exhaust)
    have "p \<noteq> it_Path it" "w' = (if is_ok r then w2 w1 else w1)" "is_ok r \<Longrightarrow> as = it # as1 w1"
      using Cons.prems(1,7) iv Acknowledge a rest by (auto split: sum.splits simp: is_ok_def)
    then have ne: "p \<noteq> it_Path it" "\<And>x. x \<in> places p \<Longrightarrow> quiet x w w1" and w': "w' = (if is_ok r then w2 w1 else w1)"
      "is_ok r \<Longrightarrow> p \<notin> it_Path ` set (as1 w1)"
      using ack_other [OF a Cons.prems(4) m] Cons.prems(7) by auto
    have 1: "crash_safe (stays p c) w w1" by (rule stays_quiet [OF Cons.prems(5) ne(2)])
    then show ?thesis using w' step [OF _ crash_safe_end [OF 1]] ne(2) crash_safe_trans by (cases "is_ok r") auto
  next
    case (Discard reason)
    obtain r w1 where a: "discard it reason w = (r, w1)" by (rule prod.exhaust)
    have w': "w' = (if is_ok r then w2 w1 else w1)" "is_ok r \<Longrightarrow> as = as1 w1"
      using Cons.prems(1) iv Discard a rest by (auto split: sum.splits simp: is_ok_def)
    have ne: "\<And>x. p \<noteq> it_Path it \<Longrightarrow> x \<in> places p \<Longrightarrow> quiet x w w1"
      using discard_other [OF a Cons.prems(4) m] by blast
    have 1: "crash_safe (stays p c) w w1"
    proof (cases "p = it_Path it")
      case True
      then have "fs_content (files w) (it_Path it) = Some c" using Cons.prems(6) iv by simp
      then show ?thesis using discard_self [OF a m] True by simp
    qed (rule stays_quiet [OF Cons.prems(5) ne])
    then show ?thesis using w' step [OF ne crash_safe_end [OF 1]] Cons.prems(7) crash_safe_trans by (cases "is_ok r") auto
  qed
qed

text \<open>A whole flush: peek, then work through a part of the items.\<close>

lemma flush_keeps:
  assumes i: "invar (files w)" and pk: "peek l w = ((items, None), w1)" and pr: "process ivs w1 = ((as, e), w')"
    and sub: "map fst ivs = take k items" and p: "member p" "fs_content (files w) p = Some c" "p \<notin> it_Path ` set as"
  shows "crash_safe (stays p c) w w'"
proof -
  have 1: "crash_safe (stays p c) w w1" by (rule peek_keeps [OF i pk p(1,2)])
  have paths: "map (it_Path \<circ> fst) ivs = take k (map it_Path items)" using sub by (metis map_map take_map)
  have d: "distinct (map (it_Path \<circ> fst) ivs)" unfolding paths using peek_distinct [OF i pk] by (rule distinct_take)
  have "fst ` set ivs \<subseteq> set items" using sub by (metis list.set_map set_take_subset)
  then have m: "\<forall>iv\<in>set ivs. member (it_Path (fst iv))" and c: "p \<in> it_Path ` fst ` set ivs \<Longrightarrow> fs_content (files w1) p = Some c"
    using peek_items [OF i pk] p(2) by (blast, fastforce)
  show ?thesis using 1 process_keeps [OF pr d m p(1) crash_safe_end [OF 1] c p(3)] by (rule crash_safe_trans)
qed

end

section \<open>The outbox provides the interface\<close>

text \<open>The store is well formed for the outbox: files of the pending directory are at their canonical path, and those
  ending in \<open>.json\<close> have good names.\<close>

definition queue_path :: "Outbox \<Rightarrow> string \<Rightarrow> bool" where
  "queue_path ob p = (filepath_Dir p = filepath_Clean (ob_pendingDir ob) \<longrightarrow>
     p = pending_file ob (filepath_Base p) \<and> (HasSuffix (filepath_Base p) ''.json'' \<longrightarrow> good_name (filepath_Base p)))"

definition queue_ok :: "Outbox \<Rightarrow> fs \<Rightarrow> bool" where
  "queue_ok ob s = (wf_outbox ob \<and> list_all (\<lambda>p. queue_path ob p) (map fst s))"

definition queue_member :: "Outbox \<Rightarrow> string \<Rightarrow> bool" where
  "queue_member ob p = (wf_outbox ob \<and> good_name (filepath_Base p) \<and> p = pending_file ob (filepath_Base p))"

definition queue_places :: "Outbox \<Rightarrow> string \<Rightarrow> string set" where
  "queue_places ob p = insert p (dead_files ob (filepath_Base p))"

lemma queue_member_file: "wf_outbox ob \<Longrightarrow> good_name n \<Longrightarrow> queue_member ob (pending_file ob n)"
  by (simp add: queue_member_def good_name_def wf_outbox_def)

lemma queue_memberE:
  assumes "queue_member ob p"
  obtains n where "wf_outbox ob" "good_name n" "p = pending_file ob n"
    "\<And>c u. safe ob n c u = (\<exists>x\<in>queue_places ob p. fs_content u x = Some c)"
    "\<And>x. x \<in> queue_places ob p \<longleftrightarrow> x = p \<or> x \<in> dead_files ob n"
  using assms that [of "filepath_Base p"] by (auto simp: queue_member_def queue_places_def safe_def)

lemma dir_names_iff: "n \<in> set (dir_names d s) \<longleftrightarrow> (\<exists>p\<in>fst ` set s. filepath_Dir p = filepath_Clean d \<and> filepath_Base p = n)"
  by (auto simp: dir_names_def)

lemma distinct_dir_names: "distinct (dir_names d s)"
  by (simp add: dir_names_def)

lemma queue_names_good:
  "queue_ok ob s \<Longrightarrow> n \<in> set (dir_names (ob_pendingDir ob) s) \<Longrightarrow> HasSuffix n ''.json'' \<Longrightarrow> good_name n"
  by (auto simp: queue_ok_def queue_path_def dir_names_iff list_all_iff)

lemma candidates_shape:
  assumes "candidates ob ns w = (r, w')"
  shows "steps w [] w'" "r = Inr cs \<Longrightarrow> map cd_name cs = filter (\<lambda>n. HasSuffix n ''.json'') ns \<and>
    (\<forall>c\<in>set cs. cd_path c = pending_file ob (cd_name c))"
proof -
  have "steps w [] w' \<and> (\<forall>cs. r = Inr cs \<longrightarrow> map cd_name cs = filter (\<lambda>n. HasSuffix n ''.json'') ns \<and>
    (\<forall>c\<in>set cs. cd_path c = pending_file ob (cd_name c)))"
    using assms
  proof (induction ns arbitrary: w r w')
    case (Cons n ns)
    obtain r1 w1 where st: "os_Stat (pending_file ob n) w = (r1, w1)" by (rule prod.exhaust)
    obtain r2 w2 where cn: "candidates ob ns w1 = (r2, w2)" by (rule prod.exhaust)
    have s1: "steps w [] w1" using os_Stat_cases [OF st] by (simp add: steps_def)
    have s2: "steps w [] w2" using Cons.IH [OF cn] steps_trans [OF s1] by fastforce
    show ?case using Cons.prems Cons.IH [of w] Cons.IH [OF cn] st cn s1 s2
      by (auto split: if_splits sum.splits)
  qed simp
  then show "steps w [] w'" "r = Inr cs \<Longrightarrow> map cd_name cs = filter (\<lambda>n. HasSuffix n ''.json'') ns \<and>
    (\<forall>c\<in>set cs. cd_path c = pending_file ob (cd_name c))" by simp_all
qed

lemma quiet_read: "os_ReadFile q w = (r, w') \<Longrightarrow> files w' = files w"
  by (drule os_ReadFile_cases) simp

text \<open>The decoding loop leaves a queue file alone, or moves it to the dead letters.\<close>

lemma peek_items_other:
  assumes "peek_items J ob limit items cs w = (x, w')" "wf_outbox ob" "good_name n" "n \<notin> cd_name ` set cs"
    "\<forall>c\<in>set cs. good_name (cd_name c) \<and> cd_path c = pending_file ob (cd_name c)" "y = pending_file ob n \<or> y \<in> dead_files ob n"
  shows "quiet y w w'"
  using assms
proof (induction cs arbitrary: items w)
  case (Cons c cs)
  obtain r w1 where rd: "os_ReadFile (cd_path c) w = (r, w1)" by (rule prod.exhaust)
  have q1: "quiet y w w1" by (rule quiet_ReadFile [OF rd])
  have c: "good_name (cd_name c)" "cd_path c = pending_file ob (cd_name c)" "n \<noteq> cd_name c" using Cons.prems(4,5) by auto
  have IH: "quiet y v w'" if "peek_items J ob limit it cs v = (x, w')" for it v
    by (rule Cons.IH [OF that]) (use Cons.prems in auto)
  show ?case
  proof (cases "\<exists>t err. r = Inr t \<and> ec_unmarshal J t = Inl err \<and> \<not> int (length items) \<ge> limit")
    case True
    then obtain t err where t: "r = Inr t" "ec_unmarshal J t = Inl err" "\<not> int (length items) \<ge> limit" by blast
    obtain r2 w2 where d: "deadLetterLocked ob (cd_path c) (''invalid queued event: '' @ err) w1 = (r2, w2)" by (rule prod.exhaust)
    have "quiet y w1 w2" using deadLetter_other [OF d [unfolded c(2)] Cons.prems(2) c(1) Cons.prems(3) c(3) Cons.prems(6)] .
    then have q2: "quiet y w w2" using q1 quiet_trans by blast
    show ?thesis
    proof (cases r2)
      case (Inl e)
      then show ?thesis using Cons.prems(1) rd t d q2 by simp
    next
      case (Inr _)
      then have "peek_items J ob limit items cs w2 = (x, w')" using Cons.prems(1) rd t d by simp
      then show ?thesis using IH q2 quiet_trans by blast
    qed
  next
    case False
    then consider "w' = w" | "w' = w1" | it where "peek_items J ob limit it cs w1 = (x, w')"
      using Cons.prems(1) rd by (auto split: if_splits sum.splits)
    then show ?thesis using q1 IH quiet_trans by cases blast+
  qed
qed simp

lemma subseq_set: "subseq xs ys \<Longrightarrow> set xs \<subseteq> set ys"
  by (induction rule: list_emb.induct) auto

lemma distinct_subseq: "subseq xs ys \<Longrightarrow> distinct ys \<Longrightarrow> distinct xs"
  by (induction rule: list_emb.induct) (use subseq_set in auto)

abbreviation wf_candidates :: "Outbox \<Rightarrow> candidate list \<Rightarrow> bool" where
  "wf_candidates ob cs \<equiv> distinct (map cd_name cs) \<and> (\<forall>c\<in>set cs. good_name (cd_name c) \<and> cd_path c = pending_file ob (cd_name c))"

lemma peek_items_keeps:
  assumes "peek_items J ob limit items cs w = (x, w')" "wf_outbox ob" "good_name n" "wf_candidates ob cs"
    "fs_content (files w) (pending_file ob n) = Some t"
  shows "crash_safe (safe ob n t) w w'"
  using assms
proof (induction cs arbitrary: items w)
  case Nil
  then have "w' = w" "safe ob n t (files w)" by (simp_all add: safe_def)
  then show ?case using safe_quiet [of ob n t w w] by simp
next
  case (Cons c cs)
  obtain r w1 where rd: "os_ReadFile (cd_path c) w = (r, w1)" by (rule prod.exhaust)
  have q1: "quiet y w w1" for y by (rule quiet_ReadFile [OF rd])
  have s0: "safe ob n t (files w)" using Cons.prems(5) by (simp add: safe_def)
  have s1: "crash_safe (safe ob n t) w w1" by (rule safe_quiet [OF s0 q1])
  have c: "good_name (cd_name c)" "cd_path c = pending_file ob (cd_name c)" "cd_name c \<notin> cd_name ` set cs"
    "wf_candidates ob cs" using Cons.prems(4) by auto
  have rest: "crash_safe (safe ob n t) v w'"
    if r: "peek_items J ob limit it cs v = (x, w')" and sv: "safe ob n t (files v)"
      and ne: "n \<noteq> cd_name c \<Longrightarrow> fs_content (files v) (pending_file ob n) = Some t" for it v
  proof (cases "n = cd_name c")
    case True
    show ?thesis
      by (rule safe_quiet [OF sv]) (use peek_items_other [OF r Cons.prems(2,3)] True c in auto)
  next
    case False
    show ?thesis by (rule Cons.IH [OF r Cons.prems(2,3) c(4) ne [OF False]])
  qed
  show ?case
  proof (cases "\<exists>u err. r = Inr u \<and> ec_unmarshal J u = Inl err \<and> \<not> int (length items) \<ge> limit")
    case True
    then obtain u err where u: "r = Inr u" "ec_unmarshal J u = Inl err" "\<not> int (length items) \<ge> limit" by blast
    obtain r2 w2 where d: "deadLetterLocked ob (cd_path c) (''invalid queued event: '' @ err) w1 = (r2, w2)" by (rule prod.exhaust)
    have t1: "fs_content (files w1) (pending_file ob n) = Some t" using quiet_content [OF q1] Cons.prems(5) by simp
    have 2: "crash_safe (safe ob n t) w1 w2 \<and> (n \<noteq> cd_name c \<longrightarrow> fs_content (files w2) (pending_file ob n) = Some t)"
    proof (cases "n = cd_name c")
      case True
      then show ?thesis using deadLetter_self [OF d [unfolded c(2)] Cons.prems(2) c(1)] t1 by simp
    next
      case False
      then have "quiet y w1 w2" if "y = pending_file ob n \<or> y \<in> dead_files ob n" for y
        using deadLetter_other [OF d [unfolded c(2)] Cons.prems(2) c(1) Cons.prems(3) _ that] by blast
      then show ?thesis using safe_quiet [of ob n t w1 w2] crash_safe_end [OF s1] quiet_content t1 by metis
    qed
    have w2: "crash_safe (safe ob n t) w w2" using s1 2 crash_safe_trans by blast
    show ?thesis
    proof (cases r2)
      case (Inl e)
      then show ?thesis using Cons.prems(1) rd u d w2 by simp
    next
      case (Inr _)
      then have "peek_items J ob limit items cs w2 = (x, w')" using Cons.prems(1) rd u d by simp
      then show ?thesis using rest [OF _ crash_safe_end [OF w2]] 2 w2 crash_safe_trans by blast
    qed
  next
    case False
    then consider "w' = w" | "w' = w1" | it where "peek_items J ob limit it cs w1 = (x, w')"
      using Cons.prems(1) rd by (auto split: if_splits sum.splits)
    then show ?thesis
    proof cases
      case 1
      then show ?thesis using safe_quiet [OF s0] by simp
    next
      case 3
      then show ?thesis
        using rest [OF 3 crash_safe_end [OF s1]] s1 crash_safe_trans quiet_content [OF q1] Cons.prems(5) by metis
    qed (use s1 in simp)
  qed
qed

text \<open>The items it returns: in the order of the candidates, each with the decoded content of its file, which is still there.\<close>

definition item_of :: "event_codec \<Rightarrow> world \<Rightarrow> world \<Rightarrow> Item \<Rightarrow> bool" where
  "item_of J w w' it = (\<exists>t. fs_content (files w) (it_Path it) = Some t \<and> fs_content (files w') (it_Path it) = Some t
     \<and> ec_unmarshal J t = Inr (it_Event it))"

lemma peek_items_items:
  assumes "peek_items J ob limit items cs w = ((items', e), w')" "wf_outbox ob" "wf_candidates ob cs"
  shows "\<exists>new. items' = items @ new \<and> subseq (map it_Path new) (map cd_path cs) \<and> (\<forall>it\<in>set new. item_of J w w' it)
    \<and> (int (length items) \<le> limit \<longrightarrow> int (length items') \<le> limit)"
  using assms
proof (induction cs arbitrary: items w)
  case (Cons c cs)
  obtain r w1 where rd: "os_ReadFile (cd_path c) w = (r, w1)" by (rule prod.exhaust)
  have f1: "files w1 = files w" by (rule quiet_read [OF rd])
  have c: "good_name (cd_name c)" "cd_path c = pending_file ob (cd_name c)" "cd_name c \<notin> cd_name ` set cs"
    "wf_candidates ob cs" using Cons.prems(3) by auto
  have same: "item_of J w v it" if "item_of J w0 v it" "it_Path it \<in> cd_path ` set cs"
    and q: "\<And>n. n \<in> cd_name ` set cs \<Longrightarrow> fs_content (files w0) (pending_file ob n) = fs_content (files w) (pending_file ob n)" for w0 v and it
    using that c(4) by (auto simp: item_of_def)
  have paths: "it_Path it \<in> cd_path ` set cs" if "subseq (map it_Path new) (map cd_path cs)" "it \<in> set new" for it new
    using subseq_set [OF that(1)] that(2) by force
  show ?case
  proof (cases "\<exists>u. r = Inr u \<and> \<not> int (length items) \<ge> limit")
    case False
    then have "items' = items" "int (length items) \<le> limit \<longrightarrow> int (length items') \<le> limit"
      using Cons.prems(1) rd by (auto split: if_splits sum.splits)
    then show ?thesis by (intro exI [of _ "[]"]) simp
  next
    case True
    then obtain u where u: "r = Inr u" "\<not> int (length items) \<ge> limit" by blast
    then have cu: "fs_content (files w) (cd_path c) = Some u" using os_ReadFile_cases(3) [OF rd] by auto
    show ?thesis
    proof (cases "ec_unmarshal J u")
      case (Inl err)
      obtain r2 w2 where d: "deadLetterLocked ob (cd_path c) (''invalid queued event: '' @ err) w1 = (r2, w2)" by (rule prod.exhaust)
      show ?thesis
      proof (cases r2)
        case (Inl e2)
        then have "items' = items" using Cons.prems(1) rd u d \<open>ec_unmarshal J u = Inl err\<close> by simp
        then show ?thesis by (intro exI [of _ "[]"]) simp
      next
        case (Inr _)
        then have p: "peek_items J ob limit items cs w2 = ((items', e), w')"
          using Cons.prems(1) rd u d \<open>ec_unmarshal J u = Inl err\<close> by simp
        have q: "fs_content (files w2) (pending_file ob n) = fs_content (files w) (pending_file ob n)" if "n \<in> cd_name ` set cs" for n
        proof -
          have "good_name n" "n \<noteq> cd_name c" using that c(3,4) by (blast, blast)
          then show ?thesis
            using quiet_content [OF deadLetter_other [OF d [unfolded c(2)] Cons.prems(2) c(1)]] f1 by metis
        qed
        from Cons.IH [OF p Cons.prems(2) c(4)] obtain new where n: "items' = items @ new"
          "subseq (map it_Path new) (map cd_path cs)" "\<forall>it\<in>set new. item_of J w2 w' it"
          "int (length items) \<le> limit \<longrightarrow> int (length items') \<le> limit" by blast
        then have "\<forall>it\<in>set new. item_of J w w' it" using same [OF _ _ q] paths [OF n(2)] by blast
        then show ?thesis using n by (intro exI [of _ new]) auto
      qed
    next
      case (Inr ev)
      let ?it = "\<lparr>it_Path = cd_path c, it_Event = ev, it_Size = cd_size c\<rparr>"
      have p: "peek_items J ob limit (items @ [?it]) cs w1 = ((items', e), w')" using Cons.prems(1) rd u Inr by simp
      from Cons.IH [OF p Cons.prems(2) c(4)] obtain new where n: "items' = (items @ [?it]) @ new"
        "subseq (map it_Path new) (map cd_path cs)" "\<forall>it\<in>set new. item_of J w1 w' it"
        "int (length (items @ [?it])) \<le> limit \<longrightarrow> int (length items') \<le> limit" by blast
      have "quiet (cd_path c) w1 w'"
        using peek_items_other [OF p Cons.prems(2) c(1,3)] c by auto
      then have "item_of J w w' ?it" using cu Inr f1 quiet_content by (auto simp: item_of_def)
      moreover have "\<forall>it\<in>set new. item_of J w w' it" using n(3) f1 by (simp add: item_of_def)
      ultimately show ?thesis using n u(2) by (intro exI [of _ "?it # new"]) auto
    qed
  qed
qed simp

lemma ReadDir_names:
  "os_ReadDir d w = (r, w') \<Longrightarrow> steps w [] w' \<and> (\<forall>ns. r = Inr ns \<longrightarrow> ns = dir_names d (files w))"
  by (auto simp: os_ReadDir_def steps_def dest: next_fault_eqs split: prod.splits if_splits)

text \<open>\<open>Peek\<close> is the decoding loop on a list of well-formed candidates, or it stops before touching anything.\<close>

lemma Peek_shape:
  assumes "Peek J ob limit w = ((items, e), w')" "queue_ok ob (files w)"
  obtains "items = []" "steps w [] w'"
  | cs w2 where "steps w [] w2" "wf_candidates ob cs" "sorted_wrt (\<lambda>a b. (cd_modTime a, cd_name a) \<le> (cd_modTime b, cd_name b)) cs"
      "peek_items J ob limit [] cs w2 = ((items, e), w')" "0 < limit"
proof (cases "limit \<le> 0")
  case True
  then show ?thesis using assms(1) that(1) by (simp add: Peek_def)
next
  case pos: False
  obtain r1 w1 where rd: "os_ReadDir (ob_pendingDir ob) w = (r1, w1)" by (rule prod.exhaust)
  have s1: "steps w [] w1" and ns: "\<And>ns. r1 = Inr ns \<Longrightarrow> ns = dir_names (ob_pendingDir ob) (files w)"
    using ReadDir_names [OF rd] by auto
  show ?thesis
  proof (cases r1)
    case (Inl e1)
    then show ?thesis using assms(1) rd pos s1 that(1) by (simp add: Peek_def)
  next
    case (Inr names)
    obtain r2 w2 where cn: "candidates ob names w1 = (r2, w2)" by (rule prod.exhaust)
    have s2: "steps w [] w2" using steps_trans [OF s1 candidates_shape(1) [OF cn]] by simp
    show ?thesis
    proof (cases r2)
      case (Inl e2)
      then show ?thesis using assms(1) rd cn pos s2 that(1) \<open>r1 = Inr names\<close> by (simp add: Peek_def)
    next
      case (Inr cs)
      let ?cs = "sort_key (\<lambda>c. (cd_modTime c, cd_name c)) cs"
      have n: "map cd_name cs = filter (\<lambda>n. HasSuffix n ''.json'') names" "\<forall>c\<in>set cs. cd_path c = pending_file ob (cd_name c)"
        using candidates_shape(2) [OF cn Inr] by simp_all
      have nm: "names = dir_names (ob_pendingDir ob) (files w)" by (rule ns [OF \<open>r1 = Inr names\<close>])
      have "distinct (map cd_name cs)" unfolding n(1) nm by (simp add: distinct_dir_names)
      then have d: "distinct (map cd_name ?cs)" by (simp add: distinct_map)
      have "good_name (cd_name c)" if "c \<in> set cs" for c
      proof -
        have "cd_name c \<in> set (map cd_name cs)" using that by simp
        then show ?thesis unfolding n(1) nm using queue_names_good [OF assms(2)] by simp
      qed
      then have wf: "wf_candidates ob ?cs" using d n(2) by simp
      have srt: "sorted_wrt (\<lambda>a b. (cd_modTime a, cd_name a) \<le> (cd_modTime b, cd_name b)) ?cs"
        using sorted_sort_key [of "\<lambda>c. (cd_modTime c, cd_name c)" cs] by (simp add: sorted_wrt_map)
      have "peek_items J ob limit [] ?cs w2 = ((items, e), w')"
        using assms(1) rd cn pos Inr \<open>r1 = Inr names\<close> by (simp add: Peek_def)
      then show ?thesis using that(2) [OF s2 wf srt] pos by simp
    qed
  qed
qed

lemma steps_nil_quiet: "steps w [] w' \<Longrightarrow> quiet x w w'"
  by (rule quiet_nil)

lemma Peek_keeps:
  assumes "queue_ok ob (files w)" "Peek J ob limit w = ((items, e), w')" "good_name n"
    "fs_content (files w) (pending_file ob n) = Some t"
  shows "crash_safe (safe ob n t) w w'"
proof -
  have s0: "safe ob n t (files w)" using assms(4) by (simp add: safe_def)
  have wf: "wf_outbox ob" using assms(1) by (simp add: queue_ok_def)
  show ?thesis
  proof (rule Peek_shape [OF assms(2,1)])
    fix cs w2 assume s: "steps w [] w2" "wf_candidates ob cs" "peek_items J ob limit [] cs w2 = ((items, e), w')"
    have "fs_content (files w2) (pending_file ob n) = Some t" using s(1) assms(4) by (simp add: steps_def)
    from peek_items_keeps [OF s(3) wf assms(3) s(2) this]
    show ?thesis using safe_quiet [OF s0 steps_nil_quiet [OF s(1)]] crash_safe_trans by blast
  qed (rule safe_quiet [OF s0], rule steps_nil_quiet)
qed

lemma Peek_items:
  assumes "queue_ok ob (files w)" "Peek J ob limit w = ((items, e), w')"
  shows "distinct (map it_Path items)" "\<forall>it\<in>set items. queue_member ob (it_Path it) \<and> item_of J w w' it"
    "int (length items) \<le> max 0 limit"
proof -
  have wf: "wf_outbox ob" using assms(1) by (simp add: queue_ok_def)
  have "distinct (map it_Path items) \<and> (\<forall>it\<in>set items. queue_member ob (it_Path it) \<and> item_of J w w' it) \<and> int (length items) \<le> max 0 limit"
  proof (rule Peek_shape [OF assms(2,1)])
    fix cs w2 assume s: "steps w [] w2" "wf_candidates ob cs" "peek_items J ob limit [] cs w2 = ((items, e), w')" "0 < limit"
    from peek_items_items [OF s(3) wf s(2)] s(4) have i: "subseq (map it_Path items) (map cd_path cs)"
      "\<forall>it\<in>set items. item_of J w2 w' it" "int (length items) \<le> limit" by auto
    have f: "files w2 = files w" using s(1) by (simp add: steps_def)
    have dirs: "HasPrefix (ob_pendingDir ob) ''/''" using wf by (simp add: wf_outbox_def)
    have "inj_on cd_path (set cs)"
    proof (rule inj_onI)
      fix a b assume ab: "a \<in> set cs" "b \<in> set cs" "cd_path a = cd_path b"
      then have "cd_name a = cd_name b" using s(2) dirs Join_file_eq_iff [OF dirs _ dirs] by (auto simp: good_name_def)
      then show "a = b" using s(2) ab by (auto simp: distinct_map dest: inj_onD)
    qed
    then have "distinct (map cd_path cs)" using s(2) by (simp add: distinct_map)
    then have d: "distinct (map it_Path items)" by (rule distinct_subseq [OF i(1)])
    have "queue_member ob (it_Path it)" if "it \<in> set items" for it
    proof -
      have "it_Path it \<in> cd_path ` set cs" using subseq_set [OF i(1)] that by force
      then show ?thesis using s(2) queue_member_file [OF wf] by auto
    qed
    then show ?thesis using d i f by (simp add: item_of_def)
  qed simp
  then show "distinct (map it_Path items)" "\<forall>it\<in>set items. queue_member ob (it_Path it) \<and> item_of J w w' it"
    "int (length items) \<le> max 0 limit" by blast+
qed

interpretation obx: durable_queue "Peek J ob" Ack "DeadLetter ob" "\<lambda>t ev. ec_unmarshal J t = Inr ev" "queue_member ob"
  "queue_places ob" "queue_ok ob" for J ob
proof
  fix p w l items e w' c it r x reason
  show "p \<in> queue_places ob p" by (simp add: queue_places_def)
  show "crash_safe (\<lambda>u. \<exists>x\<in>queue_places ob p. fs_content u x = Some c) w w'"
    if "queue_ok ob (files w)" "Peek J ob l w = ((items, e), w')" "queue_member ob p" "fs_content (files w) p = Some c"
    using that(3)
  proof (rule queue_memberE)
    fix n assume n: "good_name n" "p = pending_file ob n" "\<And>c u. safe ob n c u = (\<exists>x\<in>queue_places ob p. fs_content u x = Some c)"
    show ?thesis using Peek_keeps [OF that(1,2) n(1)] that(4) unfolding n(2,3) [symmetric] by simp
  qed
  show "distinct (map it_Path items)" if "queue_ok ob (files w)" "Peek J ob l w = ((items, e), w')"
    by (rule Peek_items(1) [OF that])
  show "queue_member ob (it_Path it) \<and> (\<exists>c. fs_content (files w) (it_Path it) = Some c \<and>
      fs_content (files w') (it_Path it) = Some c \<and> ec_unmarshal J c = Inr (it_Event it))"
    if "queue_ok ob (files w)" "Peek J ob l w = ((items, e), w')" "it \<in> set items"
    using Peek_items(2) [OF that(1,2)] that(3) by (simp add: item_of_def)
  show "quiet x w w'"
    if a: "Ack it w = (r, w')" and m: "queue_member ob p" "queue_member ob (it_Path it)" "p \<noteq> it_Path it" and x: "x \<in> queue_places ob p"
  proof -
    have "x \<noteq> it_Path it"
    proof (cases "x = p")
      case False
      then have d: "x \<in> dead_files ob (filepath_Base p)" using x by (simp add: queue_places_def)
      show ?thesis using m pending_ne_dead(1) [OF _ _ _ d] unfolding queue_member_def by metis
    qed (use m in simp)
    then show ?thesis using a by (auto simp: Ack_def split: prod.splits sum.splits if_splits dest: quiet_Remove)
  qed
  show "quiet x w w'"
    if a: "DeadLetter ob it reason w = (r, w')" and m: "queue_member ob p" "queue_member ob (it_Path it)" "p \<noteq> it_Path it"
      and x: "x \<in> queue_places ob p"
    using m(1)
  proof (rule queue_memberE)
    fix n assume n: "wf_outbox ob" "good_name n" "p = pending_file ob n" "\<And>x. x \<in> queue_places ob p \<longleftrightarrow> x = p \<or> x \<in> dead_files ob n"
    from m(2) obtain n' where n': "good_name n'" "it_Path it = pending_file ob n'" by (rule queue_memberE)
    have d: "deadLetterLocked ob (pending_file ob n') reason w = (r, w')" using a n'(2) by (simp add: DeadLetter_def)
    show ?thesis by (rule deadLetter_other [OF d n(1) n'(1) n(2)]) (use m(3) n n' x in auto)
  qed
  show "crash_safe (\<lambda>u. \<exists>x\<in>queue_places ob (it_Path it). fs_content u x = Some c) w w'"
    if a: "DeadLetter ob it reason w = (r, w')" and m: "queue_member ob (it_Path it)" and c: "fs_content (files w) (it_Path it) = Some c"
    using m
  proof (rule queue_memberE)
    fix n assume n: "wf_outbox ob" "good_name n" "it_Path it = pending_file ob n"
      "\<And>c u. safe ob n c u = (\<exists>x\<in>queue_places ob (it_Path it). fs_content u x = Some c)"
    have d: "deadLetterLocked ob (pending_file ob n) reason w = (r, w')" using a n(3) by (simp add: DeadLetter_def)
    show ?thesis using deadLetter_self [OF d n(1,2)] c n(3) unfolding n(4) [symmetric] by simp
  qed
qed

section \<open>The invariant of the store\<close>

lemma queue_ok_iff: "queue_ok ob s \<longleftrightarrow> wf_outbox ob \<and> (\<forall>p. fs_content s p \<noteq> None \<longrightarrow> queue_path ob p)"
proof -
  have "fs_content s p \<noteq> None \<longleftrightarrow> p \<in> fst ` set s" for p
    by (simp add: fs_content_def fs_get_def map_of_eq_None_iff)
  then show ?thesis by (auto simp: queue_ok_def list_all_iff)
qed

lemma steps_unique: "steps w es w' \<Longrightarrow> steps w es' w' \<Longrightarrow> es = es'"
  by (simp add: steps_def)

lemma queue_ok_quiet:
  assumes ok: "queue_ok ob (files w)" and st: "quiet x0 w w'" and q: "\<And>p. \<not> queue_path ob p \<Longrightarrow> quiet p w w'"
  shows "crash_safe (queue_ok ob) w w'"
proof -
  from st obtain es where es: "steps w es w'" by (auto simp: quiet_def)
  have "queue_ok ob u" if u: "crashes (files w) es u" for u
    unfolding queue_ok_iff
  proof (intro conjI allI impI)
    show "wf_outbox ob" using ok by (simp add: queue_ok_def)
    fix p assume p: "fs_content u p \<noteq> None"
    show "queue_path ob p"
    proof (rule ccontr)
      assume np: "\<not> queue_path ob p"
      from q [OF this] es have "list_all (harmless p) es" by (auto simp: quiet_def dest: steps_unique)
      then have "fs_content u p = fs_content (files w) p" by (rule harmless_crashes [OF u])
      then show False using p np ok by (simp add: queue_ok_iff)
    qed
  qed
  then show ?thesis using es by (auto simp: crash_safe_def)
qed

lemma queue_path_pending: "wf_outbox ob \<Longrightarrow> plain_comp n \<Longrightarrow> (HasSuffix n ''.json'' \<Longrightarrow> good_name n) \<Longrightarrow> queue_path ob (pending_file ob n)"
  by (simp add: queue_path_def wf_outbox_def)

lemma queue_path_dead: "wf_outbox ob \<Longrightarrow> plain_comp n \<Longrightarrow> queue_path ob (filepath_Join [ob_deadDir ob, n])"
  using Clean_eq_iff by (auto simp: queue_path_def wf_outbox_def)

lemma queue_path_temporary:
  assumes "wf_outbox ob" "good_name n"
  shows "queue_path ob (pending_file ob (temporary_name n now))"
proof (rule queue_path_pending [OF assms(1)])
  show "plain_comp (temporary_name n now)"
    using assms(2) Itoa_no_slash by (simp add: good_name_def plain_comp_def temporary_name_def)
  have "last (temporary_name n now) = CHR ''p''" by (simp add: temporary_name_def)
  then show "HasSuffix (temporary_name n now) ''.json'' \<Longrightarrow> good_name (temporary_name n now)"
    by (auto simp: HasSuffix_iff_suffix suffix_def)
qed

text \<open>\<open>Enqueue\<close> touches the temporary and the final file only, and the final file only by the rename.\<close>

lemma Enqueue_shape:
  assumes "Enqueue C J ob ev w = (r, w')"
  defines "n \<equiv> eventFilename C (ev_ID ev)"
  obtains "\<And>x. quiet x w w'" "r = Inr () \<Longrightarrow> fs_content (files w) (pending_file ob n) \<noteq> None"
  | now where "\<And>x. x \<noteq> pending_file ob (temporary_name n now) \<Longrightarrow> quiet x w w'" "\<exists>e. r = Inl e"
  | enc now w4 where "ec_marshal J ev = Some enc" "fs_content (files w) (pending_file ob n) = None"
      "\<And>x. x \<noteq> pending_file ob (temporary_name n now) \<Longrightarrow> quiet x w w4"
      "fs_content (files w4) (pending_file ob (temporary_name n now)) = Some (enc @ [newline])"
      "os_Rename (pending_file ob (temporary_name n now)) (pending_file ob n) w4 = (Inr (), w')" "r = Inr ()"
proof (cases "TrimSpace (ev_ID ev) = [] \<or> ec_marshal J ev = None")
  case True
  then show ?thesis using assms(1) that(1) by (auto simp: Enqueue_def split: if_splits)
next
  case False
  then obtain enc where enc: "ec_marshal J ev = Some enc" "TrimSpace (ev_ID ev) \<noteq> []" by blast
  let ?f = "pending_file ob n"
  obtain r1 w1 where st: "os_Stat ?f w = (r1, w1)" by (rule prod.exhaust)
  have q1: "quiet x w w1" for x by (rule quiet_Stat [OF st])
  show ?thesis
  proof (cases "r1 = Inl ErrNotExist")
    case False
    then have "w' = w1" "r = Inr () \<Longrightarrow> \<exists>f. r1 = Inr f" using assms(1) enc st
      by (auto simp: Enqueue_def Let_def n_def [symmetric] split: sum.splits if_splits)
    then show ?thesis using that(1) q1 os_Stat_cases(4) [OF st] by (auto simp: fs_content_def)
  next
    case absent: True
    obtain now w2 where t: "time_Now w1 = (now, w2)" by (rule prod.exhaust)
    let ?t = "pending_file ob (temporary_name n now)"
    obtain r3 w3 where wr: "os_WriteFile ?t (enc @ [newline]) mode_private w2 = (r3, w3)" by (rule prod.exhaust)
    obtain r4 w4 where ch: "os_Chmod ?t mode_private w3 = (r4, w4)" by (rule prod.exhaust)
    obtain r5 w5 where rn: "os_Rename ?t ?f w4 = (r5, w5)" by (rule prod.exhaust)
    note run = assms(1) [unfolded Enqueue_def Let_def n_def [symmetric]]
    have none: "fs_content (files w) ?f = None" using os_Stat_cases(4) [OF st] absent by (auto simp: fs_content_def)
    have "steps w1 [] w2" using time_Now_eqs [OF t] by (simp add: steps_def)
    then have q2: "quiet x w w2" for x using q1 quiet_nil quiet_trans by blast
    have q3: "quiet x w w3" if "x \<noteq> ?t" for x using quiet_via(4) [OF wr that q2] .
    have q4: "quiet x w w4" if "x \<noteq> ?t" for x using quiet_via(5) [OF ch q3 [OF that]] .
    show ?thesis
    proof (cases "is_ok r3 \<and> is_ok r4 \<and> is_ok r5")
      case True
      then have ok: "r3 = Inr ()" "r4 = Inr ()" "r5 = Inr ()" by (auto simp: is_ok_iff)
      have c: "fs_content (files w4) ?t = Some (enc @ [newline])"
        using write_content wr ok(1) quiet_content [OF quiet_Chmod [OF ch]] by auto
      have "w' = w5" "r = Inr ()" using run enc st absent t wr ch rn ok by simp_all
      then show ?thesis using that(3) [OF enc(1) none q4 c] rn ok(3) by simp
    next
      case False
      have q5: "quiet x w w5" if x: "x \<noteq> ?t" and f5: "\<not> is_ok r5" for x
      proof -
        from f5 have "\<exists>e. r5 = Inl e" by (cases r5) auto
        then show ?thesis using quiet_via(8) rn q4 [OF x] by blast
      qed
      have "(\<exists>e. r = Inl e) \<and> (w' = w3 \<or> w' = snd (os_Remove ?t w4) \<or> \<not> is_ok r5 \<and> w' = snd (os_Remove ?t w5))"
        using run enc st absent t wr ch rn False by (cases r3; cases r4; cases r5) auto
      then show ?thesis using that(2) [of now] q3 q5 quiet_via_snd(1) [OF q4] quiet_via_snd(1) [OF q5] by blast
    qed
  qed
qed

lemma Enqueue_invariant:
  assumes "Enqueue C J ob ev w = (r, w')" "queue_ok ob (files w)"
  shows "crash_safe (queue_ok ob) w w'"
proof -
  let ?n = "eventFilename C (ev_ID ev)"
  have wf: "wf_outbox ob" using assms(2) by (simp add: queue_ok_def)
  have f: "queue_path ob (pending_file ob ?n)"
    by (rule queue_path_pending [OF wf]) (use good_eventFilename in \<open>auto simp: good_name_def\<close>)
  have t: "queue_path ob (pending_file ob (temporary_name ?n now))" for now
    by (rule queue_path_temporary [OF wf good_eventFilename])
  show ?thesis
  proof (rule Enqueue_shape [OF assms(1)])
    fix now w4 assume q: "\<And>x. x \<noteq> pending_file ob (temporary_name ?n now) \<Longrightarrow> quiet x w w4"
      and rn: "os_Rename (pending_file ob (temporary_name ?n now)) (pending_file ob ?n) w4 = (Inr (), w')"
    have "quiet x w w'" if "x \<noteq> pending_file ob (temporary_name ?n now)" "x \<noteq> pending_file ob ?n" for x
      using quiet_via(7) [OF rn that q [OF that(1)]] .
    then have "quiet x w w'" if "\<not> queue_path ob x" for x using that f t by metis
    moreover have "\<exists>x. quiet x w w'"
      using quiet_via(7) [OF rn _ _ q, of "pending_file ob (temporary_name ?n now) @ ''x'' @ pending_file ob ?n"] by auto
    ultimately show ?thesis using queue_ok_quiet [OF assms(2)] by blast
  next
    fix now assume q: "\<And>x. x \<noteq> pending_file ob (temporary_name ?n now) \<Longrightarrow> quiet x w w'"
    have "quiet x w w'" if "\<not> queue_path ob x" for x using that t q by metis
    moreover have "quiet (pending_file ob (temporary_name ?n now) @ ''x'') w w'" by (rule q) simp
    ultimately show ?thesis using queue_ok_quiet [OF assms(2)] by blast
  qed (use queue_ok_quiet [OF assms(2)] in blast)
qed

lemma deadLetter_invariant:
  assumes "deadLetterLocked ob (pending_file ob n) reason w = (r, w')" "queue_ok ob (files w)" "good_name n"
  shows "crash_safe (queue_ok ob) w w'"
proof -
  have wf: "wf_outbox ob" using assms(2) by (simp add: queue_ok_def)
  have dd: "HasPrefix (ob_deadDir ob) ''/''" using wf by (simp add: wf_outbox_def)
  have p: "queue_path ob (pending_file ob n)"
    by (rule queue_path_pending [OF wf]) (use assms(3) in \<open>auto simp: good_name_def\<close>)
  show ?thesis
  proof (rule deadLetterLocked_moves [OF assms(1) wf assms(3)])
    fix w1 d assume q: "\<And>x. quiet x w w1" and d: "d \<in> dead_files ob n" and mv: "dead_move (pending_file ob n) d reason w1 = (r, w')"
    from d obtain m where m: "m \<in> dead_names n" "d = filepath_Join [ob_deadDir ob, m]" by (auto simp: dead_files_def)
    have pl: "plain_comp m" using m(1) assms(3) dead_name_plain by (auto simp: good_name_def)
    then have pr: "plain_comp (m @ ''.reason.txt'')" by (simp add: plain_comp_def append_eq_Cons_conv)
    have "d @ ''.reason.txt'' = filepath_Join [ob_deadDir ob, m @ ''.reason.txt'']"
      unfolding m(2) by (rule Join_file_append [OF dd pl _ pr]) simp
    then have ok: "queue_path ob d" "queue_path ob (d @ ''.reason.txt'')"
      using queue_path_dead [OF wf] pl pr m(2) by simp_all
    have mq: "quiet x w w'" if "x \<notin> {pending_file ob n, d, d @ ''.reason.txt''}" for x
      using quiet_trans [OF q dead_move_quiet [OF mv that]] .
    have 1: "\<And>x. \<not> queue_path ob x \<Longrightarrow> quiet x w w'" by (rule mq) (use ok p in auto)
    obtain x where "x \<notin> {pending_file ob n, d, d @ ''.reason.txt''}"
      using ex_new_if_finite [OF infinite_UNIV_listI, of "{pending_file ob n, d, d @ ''.reason.txt''}"] by blast
    then have "quiet x w w'" by (rule mq)
    then show ?thesis using queue_ok_quiet [OF assms(2)] 1 by blast
  qed (use queue_ok_quiet [OF assms(2)] in blast)
qed

lemma peek_items_invariant:
  assumes "peek_items J ob limit items cs w = (x, w')" "queue_ok ob (files w)"
    "\<forall>c\<in>set cs. good_name (cd_name c) \<and> cd_path c = pending_file ob (cd_name c)"
  shows "crash_safe (queue_ok ob) w w'"
  using assms
proof (induction cs arbitrary: items w)
  case Nil
  then show ?case using queue_ok_quiet [of ob w] by simp
next
  case (Cons c cs)
  obtain r w1 where rd: "os_ReadFile (cd_path c) w = (r, w1)" by (rule prod.exhaust)
  have 1: "crash_safe (queue_ok ob) w w1" using queue_ok_quiet [OF Cons.prems(2)] quiet_ReadFile [OF rd] by blast
  have c: "good_name (cd_name c)" "cd_path c = pending_file ob (cd_name c)" using Cons.prems(3) by auto
  have rest: "crash_safe (queue_ok ob) w w'"
    if "peek_items J ob limit it cs v = (x, w')" "crash_safe (queue_ok ob) w v" for it v
    using crash_safe_trans [OF that(2) Cons.IH [OF that(1) crash_safe_end [OF that(2)]]] Cons.prems(3) by simp
  show ?case
  proof (cases "\<exists>u err. r = Inr u \<and> ec_unmarshal J u = Inl err \<and> \<not> int (length items) \<ge> limit")
    case True
    then obtain u err where u: "r = Inr u" "ec_unmarshal J u = Inl err" "\<not> int (length items) \<ge> limit" by blast
    obtain r2 w2 where d: "deadLetterLocked ob (cd_path c) (''invalid queued event: '' @ err) w1 = (r2, w2)" by (rule prod.exhaust)
    have 2: "crash_safe (queue_ok ob) w w2"
      using crash_safe_trans [OF 1 deadLetter_invariant [OF d [unfolded c(2)] crash_safe_end [OF 1] c(1)]] .
    show ?thesis using Cons.prems(1) rd u d 2 rest [of items w2] by (auto split: sum.splits)
  next
    case False
    then consider "w' = w" | "w' = w1" | it where "peek_items J ob limit it cs w1 = (x, w')"
      using Cons.prems(1) rd by (auto split: if_splits sum.splits)
    then show ?thesis
    proof cases
      case 1
      then show ?thesis using queue_ok_quiet [OF Cons.prems(2)] by blast
    qed (use 1 rest in auto)
  qed
qed

lemma Peek_invariant:
  assumes "Peek J ob limit w = ((items, e), w')" "queue_ok ob (files w)"
  shows "crash_safe (queue_ok ob) w w'"
proof (rule Peek_shape [OF assms])
  fix cs w2 assume s: "steps w [] w2" "wf_candidates ob cs" "peek_items J ob limit [] cs w2 = ((items, e), w')"
  have 1: "crash_safe (queue_ok ob) w w2" using queue_ok_quiet [OF assms(2)] steps_nil_quiet [OF s(1)] by blast
  show ?thesis by (rule crash_safe_trans [OF 1 peek_items_invariant [OF s(3) crash_safe_end [OF 1]]]) (use s(2) in blast)
qed (use queue_ok_quiet [OF assms(2)] steps_nil_quiet in blast)

lemma Ack_invariant:
  assumes "Ack it w = (r, w')" "queue_ok ob (files w)" "queue_member ob (it_Path it)"
  shows "crash_safe (queue_ok ob) w w'"
proof -
  have q: "x \<noteq> it_Path it \<Longrightarrow> quiet x w w'" for x
    using assms(1) by (auto simp: Ack_def split: prod.splits sum.splits if_splits dest: quiet_Remove)
  have "queue_path ob (it_Path it)"
    using assms(3) queue_path_pending unfolding queue_member_def good_name_def by metis
  then have "\<And>x. \<not> queue_path ob x \<Longrightarrow> quiet x w w'" using q by metis
  moreover have "quiet (it_Path it @ ''x'') w w'" by (rule q) simp
  ultimately show ?thesis using queue_ok_quiet [OF assms(2)] by blast
qed

text \<open>The states of the store: any number of operations in any order, with any system call failing, and a crash at any
  point of any of them.\<close>

inductive outbox_reach :: "crypto \<Rightarrow> event_codec \<Rightarrow> Outbox \<Rightarrow> fs \<Rightarrow> fs \<Rightarrow> bool" for C J ob s0 where
  reach_start: "outbox_reach C J ob s0 s0"
| reach_enqueue: "outbox_reach C J ob s0 (files w) \<Longrightarrow> Enqueue C J ob ev w = (r, w') \<Longrightarrow> steps w es w' \<Longrightarrow>
    crashes (files w) es u \<Longrightarrow> outbox_reach C J ob s0 u"
| reach_peek: "outbox_reach C J ob s0 (files w) \<Longrightarrow> Peek J ob limit w = ((items, e), w') \<Longrightarrow> steps w es w' \<Longrightarrow>
    crashes (files w) es u \<Longrightarrow> outbox_reach C J ob s0 u"
| reach_ack: "outbox_reach C J ob s0 (files w) \<Longrightarrow> queue_member ob (it_Path it) \<Longrightarrow> Ack it w = (r, w') \<Longrightarrow> steps w es w' \<Longrightarrow>
    crashes (files w) es u \<Longrightarrow> outbox_reach C J ob s0 u"
| reach_dead: "outbox_reach C J ob s0 (files w) \<Longrightarrow> queue_member ob (it_Path it) \<Longrightarrow> DeadLetter ob it reason w = (r, w') \<Longrightarrow>
    steps w es w' \<Longrightarrow> crashes (files w) es u \<Longrightarrow> outbox_reach C J ob s0 u"

lemma crash_safeD: "crash_safe R w w' \<Longrightarrow> steps w es w' \<Longrightarrow> crashes (files w) es u \<Longrightarrow> R u"
  by (auto simp: crash_safe_def dest: steps_unique)

lemma outbox_reach_ok: "outbox_reach C J ob s0 u \<Longrightarrow> queue_ok ob s0 \<Longrightarrow> queue_ok ob u"
proof (induction rule: outbox_reach.induct)
  case (reach_dead w it reason r w' es u)
  from reach_dead(2) obtain n where n: "good_name n" "it_Path it = pending_file ob n" by (rule queue_memberE)
  have "deadLetterLocked ob (pending_file ob n) reason w = (r, w')" using reach_dead(3) n(2) by (simp add: DeadLetter_def)
  from deadLetter_invariant [OF this reach_dead.IH [OF reach_dead.prems] n(1)] show ?case
    by (rule crash_safeD [OF _ reach_dead(4,5)])
next
  case (reach_ack w it r w' es u)
  from Ack_invariant [OF reach_ack(3) reach_ack.IH [OF reach_ack.prems] reach_ack(2)] show ?case
    by (rule crash_safeD [OF _ reach_ack(4,5)])
next
  case (reach_peek w limit items e w' es u)
  from Peek_invariant [OF reach_peek(2) reach_peek.IH [OF reach_peek.prems]] show ?case
    by (rule crash_safeD [OF _ reach_peek(3,4)])
next
  case (reach_enqueue w ev r w' es u)
  from Enqueue_invariant [OF reach_enqueue(2) reach_enqueue.IH [OF reach_enqueue.prems]] show ?case
    by (rule crash_safeD [OF _ reach_enqueue(3,4)])
qed

lemma Enqueue_atomic:
  assumes "Enqueue C J ob ev w = (r, w')" "wf_outbox ob"
  defines "f \<equiv> pending_file ob (eventFilename C (ev_ID ev))"
  shows "crash_safe (\<lambda>u. fs_content u f = fs_content (files w) f
      \<or> (fs_content (files w) f = None \<and> fs_content u f = map_option (\<lambda>e. e @ [newline]) (ec_marshal J ev))) w w'"
    and "r = Inr () \<Longrightarrow> fs_content (files w') f \<noteq> None"
    and "r = Inr () \<Longrightarrow> fs_content (files w) f = None \<Longrightarrow>
      fs_content (files w') f = map_option (\<lambda>e. e @ [newline]) (ec_marshal J ev) \<and> ec_marshal J ev \<noteq> None"
proof -
  let ?n = "eventFilename C (ev_ID ev)"
  have ft: "f \<noteq> pending_file ob (temporary_name ?n now)" for now
  proof -
    have p: "HasPrefix (ob_pendingDir ob) ''/''" using assms(2) by (simp add: wf_outbox_def)
    have n: "plain_comp ?n" using good_eventFilename by (simp add: good_name_def)
    have t: "plain_comp (temporary_name ?n now)"
      using n Itoa_no_slash by (simp add: plain_comp_def temporary_name_def)
    have "?n \<noteq> temporary_name ?n now" by (auto simp: temporary_name_def dest: arg_cong [of _ _ length])
    then show ?thesis unfolding f_def using Join_file_eq_iff [OF p n p t] by simp
  qed
  have "crash_safe (\<lambda>u. fs_content u f = fs_content (files w) f
      \<or> (fs_content (files w) f = None \<and> fs_content u f = map_option (\<lambda>e. e @ [newline]) (ec_marshal J ev))) w w'
    \<and> (r = Inr () \<longrightarrow> fs_content (files w') f \<noteq> None)
    \<and> (r = Inr () \<and> fs_content (files w) f = None \<longrightarrow>
        fs_content (files w') f = map_option (\<lambda>e. e @ [newline]) (ec_marshal J ev) \<and> ec_marshal J ev \<noteq> None)"
  proof (rule Enqueue_shape [OF assms(1)])
    assume q: "\<And>x. quiet x w w'" and "r = Inr () \<Longrightarrow> fs_content (files w) (pending_file ob ?n) \<noteq> None"
    then show ?thesis using crash_safe_content [OF q] quiet_content [OF q] by (auto simp: f_def)
  next
    fix now assume q: "\<And>x. x \<noteq> pending_file ob (temporary_name ?n now) \<Longrightarrow> quiet x w w'" and r: "\<exists>e. r = Inl e"
    show ?thesis using crash_safe_content [OF q [OF ft]] r by auto
  next
    fix enc now w4 assume a: "ec_marshal J ev = Some enc" "fs_content (files w) (pending_file ob ?n) = None"
      and q: "\<And>x. x \<noteq> pending_file ob (temporary_name ?n now) \<Longrightarrow> quiet x w w4"
      and t: "fs_content (files w4) (pending_file ob (temporary_name ?n now)) = Some (enc @ [newline])"
      and rn: "os_Rename (pending_file ob (temporary_name ?n now)) (pending_file ob ?n) w4 = (Inr (), w')"
    have "fs_content (files w') f = Some (enc @ [newline])" using rename_installs(1) [OF rn] t by (simp add: f_def)
    moreover have "crash_safe (\<lambda>u. fs_content u f = fs_content (files w) f \<or> fs_content u f = Some (enc @ [newline])) w w'"
      by (rule tmp_install_atomic [OF q [OF ft] t rn [folded f_def] quiet_refl])
    ultimately show ?thesis using a by (simp add: f_def)
  qed
  then show "crash_safe (\<lambda>u. fs_content u f = fs_content (files w) f
      \<or> (fs_content (files w) f = None \<and> fs_content u f = map_option (\<lambda>e. e @ [newline]) (ec_marshal J ev))) w w'"
    "r = Inr () \<Longrightarrow> fs_content (files w') f \<noteq> None"
    "r = Inr () \<Longrightarrow> fs_content (files w) f = None \<Longrightarrow>
      fs_content (files w') f = map_option (\<lambda>e. e @ [newline]) (ec_marshal J ev) \<and> ec_marshal J ev \<noteq> None"
    by blast+
qed

lemma Enqueue_again:
  assumes "healthy w" "TrimSpace (ev_ID ev) \<noteq> []" "ec_marshal J ev \<noteq> None"
    "fs_content (files w) (pending_file ob (eventFilename C (ev_ID ev))) \<noteq> None"
  shows "Enqueue C J ob ev w = (Inr (), w)"
  using assms by (auto simp: Enqueue_def Let_def fs_content_def split: option.splits)

section \<open>Properties\<close>

text \<open>Whatever calls fail and wherever a crash strikes, the store stays well formed for the outbox: from a well-formed
  store, any sequence of outbox operations leaves only queue files with proper names at their canonical places.\<close>

theorem outbox_store_stays_wellformed:
  assumes "outbox_reach C J ob s0 u" "queue_ok ob s0"
  shows "queue_ok ob u"
  using assms by (rule outbox_reach_ok)

text \<open>Enqueueing is durable and atomic: a crash leaves the event's file as it was or completely written; after success
  the event is in the queue, and enqueueing it a second time changes nothing.\<close>

theorem Enqueue_is_durable:
  assumes run: "Enqueue C J ob ev w = (r, w')" and wf: "wf_outbox ob"
    and f: "f = pending_file ob (eventFilename C (ev_ID ev))"
  shows "crash_safe (\<lambda>u. fs_content u f = fs_content (files w) f
      \<or> (fs_content (files w) f = None \<and> fs_content u f = map_option (\<lambda>e. e @ [newline]) (ec_marshal J ev))) w w'
    \<and> (r = Inr () \<and> fs_content (files w) f = None \<longrightarrow> fs_content (files w') f = map_option (\<lambda>e. e @ [newline]) (ec_marshal J ev))
    \<and> (\<forall>v. r = Inr () \<and> healthy v \<and> files v = files w' \<longrightarrow> Enqueue C J ob ev v = (Inr (), v))"
proof (intro conjI allI impI)
  show "crash_safe (\<lambda>u. fs_content u f = fs_content (files w) f
      \<or> (fs_content (files w) f = None \<and> fs_content u f = map_option (\<lambda>e. e @ [newline]) (ec_marshal J ev))) w w'"
    unfolding f by (rule Enqueue_atomic(1) [OF run wf])
  show "fs_content (files w') f = map_option (\<lambda>e. e @ [newline]) (ec_marshal J ev)" if "r = Inr () \<and> fs_content (files w) f = None"
    using that Enqueue_atomic(3) [OF run wf] unfolding f by blast
  fix v assume v: "r = Inr () \<and> healthy v \<and> files v = files w'"
  have "TrimSpace (ev_ID ev) \<noteq> []" "ec_marshal J ev \<noteq> None"
    using run v by (auto simp: Enqueue_def split: if_splits option.splits)
  then show "Enqueue C J ob ev v = (Inr (), v)" using Enqueue_again [of v] Enqueue_atomic(2) [OF run wf] v by metis
qed

text \<open>An outbox, a codec and a world for evaluating the model.\<close>

definition demo_outbox :: Outbox where "demo_outbox = \<lparr>ob_pendingDir = ''/d/outbox/pending'', ob_deadDir = ''/d/outbox/dead-letter''\<rparr>"

definition demo_event :: Event where "demo_event = zero_Event\<lparr>ev_ID := ''e1'', ev_AgentID := ''a'', ev_TenantID := ''t''\<rparr>"

definition demo_event_codec :: event_codec where
  "demo_event_codec = \<lparr>ec_marshal = (\<lambda>e. Some (ev_ID e)),
     ec_unmarshal = (\<lambda>s. if s = ''e1'' @ [newline] then Inr demo_event else Inl ''bad'')\<rparr>"

definition empty_world :: world where
  "empty_world = \<lparr>files = [], faults = [], events = [], clock = 62135596800 * Second, clock_steps = []\<rparr>"

lemma demo_outbox_ok: "queue_ok demo_outbox []" "wf_outbox demo_outbox" "healthy empty_world" "files empty_world = []"
  by code_simp+

theorem outbox_store_stays_wellformed_witness:
  "queue_ok demo_outbox (files (snd (Enqueue toy_crypto demo_event_codec demo_outbox demo_event empty_world)))"
proof -
  obtain r w' where e: "Enqueue toy_crypto demo_event_codec demo_outbox demo_event empty_world = (r, w')" by (rule prod.exhaust)
  obtain es where s: "steps empty_world es w'"
    using Enqueue_atomic(1) [OF e demo_outbox_ok(2)] by (auto simp: crash_safe_def)
  then have "crashes (files empty_world) es (files w')" using crashes_end by (simp add: steps_def)
  then have "outbox_reach toy_crypto demo_event_codec demo_outbox [] (files w')"
    using reach_enqueue [OF _ e s] reach_start demo_outbox_ok(4) by metis
  from outbox_store_stays_wellformed [OF this demo_outbox_ok(1)] show ?thesis using e by simp
qed

theorem Enqueue_is_durable_witness:
  "\<exists>w'. Enqueue toy_crypto demo_event_codec demo_outbox demo_event empty_world = (Inr (), w')
     \<and> fs_content (files w') (pending_file demo_outbox (eventFilename toy_crypto ''e1'')) = Some (''e1'' @ [newline])
     \<and> Enqueue toy_crypto demo_event_codec demo_outbox demo_event w' = (Inr (), w')"
proof -
  obtain r w' where e: "Enqueue toy_crypto demo_event_codec demo_outbox demo_event empty_world = (r, w')" by (rule prod.exhaust)
  have "fst (Enqueue toy_crypto demo_event_codec demo_outbox demo_event empty_world) = Inr ()"
    "faults (snd (Enqueue toy_crypto demo_event_codec demo_outbox demo_event empty_world)) = []" by code_simp+
  then have r: "r = Inr ()" "healthy w'" using e by (simp_all add: healthy_def)
  have i: "ev_ID demo_event = ''e1''" "ec_marshal demo_event_codec demo_event = Some ''e1''"
    by (simp_all add: demo_event_def demo_event_codec_def)
  note t = Enqueue_is_durable [OF e demo_outbox_ok(2) refl]
  show ?thesis using t e r i demo_outbox_ok(4) by (simp add: fs_content_def fs_get_def)
qed

end
