(* ===== verification/Go_Net.thy ===== *)
theory Go_Net
  imports Go_Strings
begin

text \<open>
  \<open>net.ParseIP\<close> and the address classes the agent asks for. An address is its 16 bytes (an IPv4 address in its
  mapped form), as in \<open>net.IP\<close>.
\<close>

section \<open>Parsing\<close>

definition dec_digit :: "char \<Rightarrow> bool" where "dec_digit c = (CHR ''0'' \<le> c \<and> c \<le> CHR ''9'')"

definition dec_value :: "string \<Rightarrow> int" where
  "dec_value s = foldl (\<lambda>a c. 10 * a + (of_char c - 48)) 0 s"

definition hex_value :: "string \<Rightarrow> int" where
  "hex_value s = foldl (\<lambda>a c. 16 * a + (if dec_digit c then of_char c - 48 else of_char (lower_char c) - 87)) 0 s"

definition v4_octet :: "string \<Rightarrow> int option" where
  "v4_octet s =
     (if s = [] \<or> length s > 3 \<or> \<not> list_all dec_digit s \<or> (length s > 1 \<and> hd s = CHR ''0'') \<or> dec_value s > 255
      then None else Some (dec_value s))"

definition parse_v4 :: "string \<Rightarrow> int list option" where
  "parse_v4 s = (let fs = SplitOn (CHR ''.'') s in if length fs \<noteq> 4 then None else those (map v4_octet fs))"

text \<open>The groups of an IPv6 address: \<open>n\<close> groups may still follow, \<open>acc\<close> are the bytes read so far and \<open>ell\<close> the
  position of the double colon.\<close>

fun v6_groups :: "nat \<Rightarrow> string \<Rightarrow> int list \<Rightarrow> nat option \<Rightarrow> (int list \<times> nat option \<times> string) option" where
  "v6_groups 0 s acc ell = Some (acc, ell, s)"
| "v6_groups (Suc n) s acc ell =
     (let ds = takeWhile is_hex_char s; rest = dropWhile is_hex_char s; v = hex_value ds;
          acc1 = acc @ [v div 256, v mod 256]
      in if ds = [] \<or> length ds > 4 then None
         else if HasPrefix rest ''.''
         then (if (ell = None \<and> length acc \<noteq> 12) \<or> length acc + 4 > 16 then None
               else case parse_v4 s of None \<Rightarrow> None | Some b \<Rightarrow> Some (acc @ b, ell, []))
         else (case rest of
                 [] \<Rightarrow> Some (acc1, ell, [])
               | [_] \<Rightarrow> None
               | c # d # rs \<Rightarrow>
                   if c \<noteq> CHR '':'' then None
                   else if d = CHR '':''
                   then (if ell \<noteq> None then None
                         else if rs = [] then Some (acc1, Some (length acc1), [])
                         else v6_groups n rs acc1 (Some (length acc1)))
                   else v6_groups n (d # rs) acc1 ell))"

definition parse_v6 :: "string \<Rightarrow> int list option" where
  "parse_v6 s =
     (if CHR ''%'' \<in> set s then None
      else if s = ''::'' then Some (replicate 16 0)
      else case (if HasPrefix s ''::'' then v6_groups 8 (drop 2 s) [] (Some 0) else v6_groups 8 s [] None) of
             None \<Rightarrow> None
           | Some (acc, ell, rest) \<Rightarrow>
               if rest \<noteq> [] then None
               else if length acc < 16
               then (case ell of None \<Rightarrow> None
                     | Some k \<Rightarrow> Some (take k acc @ replicate (16 - length acc) 0 @ drop k acc))
               else if ell \<noteq> None then None else Some acc)"

definition mapped_prefix :: "int list" where "mapped_prefix = replicate 10 0 @ [255, 255]"

definition ParseIP :: "string \<Rightarrow> int list option" where
  "ParseIP s =
     (case filter (\<lambda>c. c \<in> {CHR ''.'', CHR '':'', CHR ''%''}) s of
        [] \<Rightarrow> None
      | c # _ \<Rightarrow>
          if c = CHR ''.'' then map_option (\<lambda>b. mapped_prefix @ b) (parse_v4 s)
          else if c = CHR '':'' then parse_v6 s
          else None)"

section \<open>Classes\<close>

definition To4 :: "int list \<Rightarrow> int list option" where
  "To4 ip = (if length ip = 16 \<and> take 12 ip = mapped_prefix then Some (drop 12 ip) else None)"

definition IsPrivate :: "int list \<Rightarrow> bool" where
  "IsPrivate ip =
     (case To4 ip of
        Some b \<Rightarrow> b ! 0 = 10 \<or> (b ! 0 = 172 \<and> b ! 1 div 16 = 1) \<or> (b ! 0 = 192 \<and> b ! 1 = 168)
      | None \<Rightarrow> length ip = 16 \<and> ip ! 0 div 2 = 126)"

definition IsLoopback :: "int list \<Rightarrow> bool" where
  "IsLoopback ip = (case To4 ip of Some b \<Rightarrow> b ! 0 = 127 | None \<Rightarrow> ip = replicate 15 0 @ [1])"

definition IsLinkLocalUnicast :: "int list \<Rightarrow> bool" where
  "IsLinkLocalUnicast ip =
     (case To4 ip of Some b \<Rightarrow> b ! 0 = 169 \<and> b ! 1 = 254
      | None \<Rightarrow> length ip = 16 \<and> ip ! 0 = 254 \<and> ip ! 1 div 64 = 2)"

definition IsLinkLocalMulticast :: "int list \<Rightarrow> bool" where
  "IsLinkLocalMulticast ip =
     (case To4 ip of Some b \<Rightarrow> b ! 0 = 224 \<and> b ! 1 = 0 \<and> b ! 2 = 0
      | None \<Rightarrow> length ip = 16 \<and> ip ! 0 = 255 \<and> ip ! 1 mod 16 = 2)"

definition IsUnspecified :: "int list \<Rightarrow> bool" where
  "IsUnspecified ip = (ip = mapped_prefix @ [0, 0, 0, 0] \<or> ip = replicate 16 0)"

text \<open>Some addresses, to pin the parser down.\<close>

lemma ParseIP_examples:
  "ParseIP ''10.0.0.7'' = Some (mapped_prefix @ [10, 0, 0, 7])" "ParseIP ''10.0.0.07'' = None" "ParseIP ''1.2.3'' = None"
  "ParseIP ''::1'' = Some (replicate 15 0 @ [1])" "ParseIP ''fe80::1:2'' = Some ([254, 128] @ replicate 10 0 @ [0, 1, 0, 2])"
  "ParseIP ''::ffff:1.2.3.4'' = Some (mapped_prefix @ [1, 2, 3, 4])" "ParseIP ''1::2::3'' = None" "ParseIP ''fe80::1%eth0'' = None"
  "ParseIP ''host'' = None"
  by code_simp+

end
