(* ===== verification/Schema.thy ===== *)
theory Schema
  imports Model Go_Net Go_Path
begin

text \<open>
  Package \<open>internal/transport\<close>, \<open>schema.go\<close>: the event as the control plane receives it. Every field of the source
  structs is a field here; \<open>MapEvent\<close> fills them as the source does, defaults included.
\<close>

section \<open>Data\<close>

record AssetContext =
  cpa_ID :: string
  cpa_Hostname :: string
  cpa_IP :: string
  cpa_OS :: string
  cpa_Role :: string
  cpa_Criticality :: int

record ActorContext =
  cpu_User :: string
  cpu_Domain :: string
  cpu_SessionID :: string
  cpu_Integrity :: string

record ProcessContext =
  cpp_Name :: string
  cpp_Path :: string
  cpp_PID :: int
  cpp_ParentName :: string
  cpp_ParentPath :: string
  cpp_ParentPID :: int
  cpp_CommandLine :: string
  cpp_SHA256 :: string
  cpp_Signer :: string

record NetworkContext =
  cpn_SourceIP :: string
  cpn_SourcePort :: int
  cpn_DestinationIP :: string
  cpn_DestinationPort :: int
  cpn_Protocol :: string
  cpn_Direction :: string
  cpn_Domain :: string
  cpn_IsExternal :: "bool option"

record FileContext =
  cpf_Path :: string
  cpf_Operation :: string
  cpf_SHA256 :: string
  cpf_Extension :: string

record ServiceContext =
  cps_Name :: string
  cps_BinaryPath :: string
  cps_StartType :: string
  cps_Action :: string

record RegistryContext =
  cpr_Path :: string
  cpr_ValueName :: string
  cpr_ValueData :: string
  cpr_Operation :: string

record WebContext =
  cpw_Method :: string
  cpw_Path :: string
  cpw_Status :: int
  cpw_UserAgent :: string
  cpw_RequestID :: string
  cpw_Route :: string

record DatabaseContext =
  cpd_Engine :: string
  cpd_Database :: string
  cpd_Statement :: string
  cpd_QueryShape :: string
  cpd_Rows :: int
  cpd_DurationMS :: float64

record ControlPlaneEvent =
  cp_EventID :: string
  cp_AgentID :: string
  cp_TenantID :: string
  cp_ObservedAt :: gtime
  cp_SourceType :: string
  cp_EventType :: string
  cp_Asset :: AssetContext
  cp_Actor :: ActorContext
  cp_Process :: ProcessContext
  cp_Network :: NetworkContext
  cp_File :: FileContext
  cp_Service :: ServiceContext
  cp_Registry :: RegistryContext
  cp_Web :: WebContext
  cp_Database :: DatabaseContext
  cp_Message :: string
  cp_Tags :: "string list"
  cp_Raw :: gmap

section \<open>Helpers\<close>

text \<open>The conversion \<open>float64(int64)\<close>: the nearest number with 53 significant bits, ties to even.\<close>

definition round53 :: "int \<Rightarrow> int" where
  "round53 n =
     (let a = \<bar>n\<bar>
      in if a \<le> 2 ^ 53 then n
         else let e = length (filter (\<lambda>k. 2 ^ (53 + k) \<le> a) [0..<11]); d = 2 ^ e; q = a div d; r = a mod d;
                  q1 = (if 2 * r > d \<or> (2 * r = d \<and> odd q) then q + 1 else q)
              in sgn n * (q1 * d))"

definition cloneMap :: "gmap option \<Rightarrow> gmap" where
  "cloneMap source = (case source of None \<Rightarrow> [] | Some a \<Rightarrow> a)"

fun attributeString :: "gmap option \<Rightarrow> string list \<Rightarrow> string" where
  "attributeString attrs [] = []"
| "attributeString attrs (key # keys) =
     (case map_of (cloneMap attrs) key of
        Some (VString text1) \<Rightarrow> TrimSpace text1
      | _ \<Rightarrow> attributeString attrs keys)"

definition pathBase :: "string \<Rightarrow> string" where
  "pathBase value = filepath_Base (ReplaceChar (CHR 0x5C) (CHR ''/'') value)"

definition externalIP :: "string \<Rightarrow> bool option" where
  "externalIP value =
     (case ParseIP (TrimSpace value) of
        None \<Rightarrow> None
      | Some ip \<Rightarrow> Some (\<not> IsPrivate ip \<and> \<not> IsLoopback ip \<and> \<not> IsLinkLocalUnicast ip \<and> \<not> IsLinkLocalMulticast ip))"

section \<open>The mapping\<close>

text \<open>The first value that is not blank, or the default.\<close>

definition asset_id :: "Event \<Rightarrow> string" where
  "asset_id event =
     (if TrimSpace (asset_ID (ev_Asset event)) \<noteq> [] then TrimSpace (asset_ID (ev_Asset event))
      else if TrimSpace (ev_AgentID event) \<noteq> [] then TrimSpace (ev_AgentID event)
      else if TrimSpace (asset_Hostname (ev_Asset event)) \<noteq> [] then TrimSpace (asset_Hostname (ev_Asset event))
      else ''unknown-asset'')"

definition source_type :: "Event \<Rightarrow> string" where
  "source_type event =
     (if TrimSpace (prov_Collector (ev_Provenance event)) \<noteq> [] then TrimSpace (prov_Collector (ev_Provenance event))
      else if TrimSpace (prov_Source (ev_Provenance event)) \<noteq> [] then TrimSpace (prov_Source (ev_Provenance event))
      else ''ntagentshield-agent'')"

definition put_if :: "bool \<Rightarrow> string \<Rightarrow> gval \<Rightarrow> gmap \<Rightarrow> gmap" where
  "put_if b k v m = (if b then AList.update k v m else m)"

definition raw_map :: "Event \<Rightarrow> gmap" where
  "raw_map event =
     (let p = ev_Provenance event; f = ev_File event;
          raw0 = AList.update ''agent_event_id'' (VString (ev_ID event)) (cloneMap (ev_Attributes event));
          raw1 = AList.update ''agent_id'' (VString (ev_AgentID event)) raw0;
          raw2 = AList.update ''trust'' (VString (ev_Trust event)) raw1;
          raw3 = AList.update ''severity'' (VString (ev_Severity event)) raw2;
          raw4 = put_if (prov_OriginalPath p \<noteq> []) ''original_path'' (VString (prov_OriginalPath p)) raw3;
          raw5 = put_if (prov_LineNumber p \<noteq> 0) ''line_number'' (VInt (prov_LineNumber p)) raw4;
          raw6 = put_if (prov_ContentSHA256 p \<noteq> []) ''content_sha256'' (VString (prov_ContentSHA256 p)) raw5;
          raw7 = put_if (http_Query (ev_HTTP event) \<noteq> []) ''http_query'' (VString (http_Query (ev_HTTP event))) raw6;
          raw8 = put_if (actor_AccountID (ev_Actor event) \<noteq> []) ''actor_account_id'' (VString (actor_AccountID (ev_Actor event))) raw7;
          raw9 = put_if (file_Owner f \<noteq> []) ''file_owner'' (VString (file_Owner f)) raw8;
          raw10 = put_if (file_Size f \<noteq> 0) ''file_size'' (VInt (file_Size f)) raw9
      in put_if (file_Executable f) ''file_executable'' (VBool True) raw10)"

definition zero_Service :: ServiceContext where
  "zero_Service = \<lparr>cps_Name = [], cps_BinaryPath = [], cps_StartType = [], cps_Action = []\<rparr>"

definition zero_Registry :: RegistryContext where
  "zero_Registry = \<lparr>cpr_Path = [], cpr_ValueName = [], cpr_ValueData = [], cpr_Operation = []\<rparr>"

definition service_context :: "Event \<Rightarrow> ServiceContext" where
  "service_context event =
     (if HasPrefix (ev_Kind event) ''service.'' \<or> HasPrefix (ev_Kind event) ''persistence.service''
      then \<lparr>cps_Name = attributeString (ev_Attributes event) [''service_name'', ''service''],
             cps_BinaryPath = attributeString (ev_Attributes event) [''binary_path'', ''image_path'', ''path''],
             cps_StartType = attributeString (ev_Attributes event) [''start_type'', ''start_mode''],
             cps_Action = TrimPrefix (ev_Kind event) ''service.''\<rparr>
      else zero_Service)"

definition registry_context :: "Event \<Rightarrow> RegistryContext" where
  "registry_context event =
     (if HasPrefix (ev_Kind event) ''registry.''
      then \<lparr>cpr_Path = attributeString (ev_Attributes event) [''registry_path'', ''path''],
             cpr_ValueName = attributeString (ev_Attributes event) [''value_name''],
             cpr_ValueData = attributeString (ev_Attributes event) [''value_data''],
             cpr_Operation = TrimPrefix (ev_Kind event) ''registry.''\<rparr>
      else zero_Registry)"

definition MapEvent :: "Event \<Rightarrow> ControlPlaneEvent" where
  "MapEvent event =
     (let a = ev_Asset event; u = ev_Actor event; p = ev_Process event; n = ev_Network event; f = ev_File event;
          h = ev_HTTP event; d = ev_Database event
      in \<lparr>cp_EventID = ev_ID event, cp_AgentID = ev_AgentID event, cp_TenantID = ev_TenantID event,
           cp_ObservedAt = ev_Timestamp event, cp_SourceType = source_type event, cp_EventType = ev_Kind event,
           cp_Asset = \<lparr>cpa_ID = asset_id event, cpa_Hostname = asset_Hostname a,
             cpa_IP = (case asset_IPs a of [] \<Rightarrow> [] | ip # _ \<Rightarrow> ip), cpa_OS = asset_OS a, cpa_Role = [], cpa_Criticality = 3\<rparr>,
           cp_Actor = \<lparr>cpu_User = actor_User u, cpu_Domain = [], cpu_SessionID = actor_SessionID u,
             cpu_Integrity = proc_IntegrityLevel p\<rparr>,
           cp_Process = \<lparr>cpp_Name = pathBase (proc_Image p), cpp_Path = proc_Image p, cpp_PID = proc_PID p,
             cpp_ParentName = pathBase (proc_ParentImage p), cpp_ParentPath = proc_ParentImage p, cpp_ParentPID = proc_PPID p,
             cpp_CommandLine = proc_CommandLine p, cpp_SHA256 = proc_ExecutableSHA256 p, cpp_Signer = proc_CodeSignatureInfo p\<rparr>,
           cp_Network = \<lparr>cpn_SourceIP = net_SourceIP n, cpn_SourcePort = net_SourcePort n,
             cpn_DestinationIP = net_DestinationIP n, cpn_DestinationPort = net_DestinationPort n, cpn_Protocol = net_Protocol n,
             cpn_Direction = net_Direction n, cpn_Domain = net_Domain n, cpn_IsExternal = externalIP (net_DestinationIP n)\<rparr>,
           cp_File = \<lparr>cpf_Path = file_Path f, cpf_Operation = file_Operation f, cpf_SHA256 = file_SHA256 f,
             cpf_Extension = ToLower (filepath_Ext (file_Path f))\<rparr>,
           cp_Service = service_context event, cp_Registry = registry_context event,
           cp_Web = \<lparr>cpw_Method = http_Method h, cpw_Path = http_Path h, cpw_Status = http_Status h,
             cpw_UserAgent = http_UserAgent h, cpw_RequestID = http_RequestID h, cpw_Route = []\<rparr>,
           cp_Database = \<lparr>cpd_Engine = db_Engine d, cpd_Database = db_Database d,
             cpd_Statement = attributeString (ev_Attributes event) [''statement'', ''query'', ''sql''],
             cpd_QueryShape = db_QueryFingerprint d, cpd_Rows = db_Rows d,
             cpd_DurationMS = FFin (of_int (round53 (db_DurationMS d)))\<rparr>,
           cp_Message = ev_Message event, cp_Tags = [''trust:'' @ ev_Trust event, ''severity:'' @ ev_Severity event],
           cp_Raw = raw_map event\<rparr>)"

section \<open>Properties\<close>

lemma map_of_put_if: "map_of (put_if b k v m) k' = (if b \<and> k' = k then Some v else map_of m k')"
  by (simp add: put_if_def map_of_update)

lemmas raw_lookup = map_of_put_if map_of_update

text \<open>The raw map, key by key.\<close>

lemma raw_map_identity:
  "map_of (raw_map event) ''agent_event_id'' = Some (VString (ev_ID event))"
  "map_of (raw_map event) ''agent_id'' = Some (VString (ev_AgentID event))"
  "map_of (raw_map event) ''trust'' = Some (VString (ev_Trust event))"
  "map_of (raw_map event) ''severity'' = Some (VString (ev_Severity event))"
  unfolding raw_map_def Let_def by (simp_all add: raw_lookup)

lemma raw_map_original_path:
  "prov_OriginalPath (ev_Provenance event) = [] \<Longrightarrow>
     map_of (raw_map event) ''original_path'' = map_of (cloneMap (ev_Attributes event)) ''original_path''"
  unfolding raw_map_def Let_def by (simp add: raw_lookup)

definition optional_keys :: "string list" where
  "optional_keys = [''original_path'', ''line_number'', ''content_sha256'', ''http_query'', ''actor_account_id'', ''file_owner'',
     ''file_size'', ''file_executable'']"

lemma raw_map_other:
  "k \<notin> set ([''agent_event_id'', ''agent_id'', ''trust'', ''severity''] @ optional_keys) \<Longrightarrow>
     map_of (raw_map event) k = map_of (cloneMap (ev_Attributes event)) k"
  unfolding raw_map_def Let_def optional_keys_def by (simp only: raw_lookup set_append list.set) simp

lemma MapEvent_raw [simp]: "cp_Raw (MapEvent event) = raw_map event"
  by (simp add: MapEvent_def Let_def)

lemma MapEvent_identity [simp]:
  "cp_EventID (MapEvent event) = ev_ID event" "cp_AgentID (MapEvent event) = ev_AgentID event"
  "cp_TenantID (MapEvent event) = ev_TenantID event" "cpa_ID (cp_Asset (MapEvent event)) = asset_id event"
  "cp_SourceType (MapEvent event) = source_type event"
  by (simp_all add: MapEvent_def Let_def)

lemma asset_id_not_empty: "asset_id event \<noteq> []" "source_type event \<noteq> []"
  by (simp_all add: asset_id_def source_type_def)


text \<open>The optional keys are not protected in the same way: with no path in the provenance, the raw map shows whatever
  path the attributes claim.\<close>

lemma MapEvent_optional_key_passes:
  "prov_OriginalPath (ev_Provenance event) = [] \<Longrightarrow>
     map_of (cp_Raw (MapEvent event)) ''original_path'' = map_of (cloneMap (ev_Attributes event)) ''original_path''"
  by (simp add: raw_map_original_path)

text \<open>An event without a process is sent with the process name \<open>.\<close>, the base of the empty path.\<close>

lemma MapEvent_empty_process_name: "proc_Image (ev_Process event) = [] \<Longrightarrow> cpp_Name (cp_Process (MapEvent event)) = ''.''"
  by (simp add: MapEvent_def Let_def pathBase_def ReplaceChar_def filepath_Base_def)

end
