(* ===== verification/Go_IO.thy ===== *)
theory Go_IO
  imports File_Install
begin

text \<open>
  Straight-line code with early returns: a call that can fail, and what follows it when it does not. The theories that
  model long sequences of calls use these combinators; facts about a sequence follow from facts about its calls by
  the rules collected in \<open>io_intros\<close>.
\<close>

named_theorems io_intros \<open>facts of a sequence of calls from facts of the calls\<close>

section \<open>Combinators\<close>

type_synonym ('e, 'a) call = "world \<Rightarrow> ('e, 'a) result \<times> world"

definition io_return :: "'a \<Rightarrow> ('e, 'a) call" where "io_return x w = (Inr x, w)"
definition io_fail :: "'e \<Rightarrow> ('e, 'a) call" where "io_fail e w = (Inl e, w)"

definition io_bind :: "('e, 'a) call \<Rightarrow> ('a \<Rightarrow> ('e, 'b) call) \<Rightarrow> ('e, 'b) call" where
  "io_bind m f w = (case m w of (Inl e, w1) \<Rightarrow> (Inl e, w1) | (Inr x, w1) \<Rightarrow> f x w1)"

text \<open>\<open>fmt.Errorf\<close> around an error.\<close>

definition io_wrap :: "('e \<Rightarrow> 'f) \<Rightarrow> ('e, 'a) call \<Rightarrow> ('f, 'a) call" where
  "io_wrap g m w = (case m w of (Inl e, w1) \<Rightarrow> (Inl (g e), w1) | (Inr x, w1) \<Rightarrow> (Inr x, w1))"

text \<open>\<open>if bad { return err }\<close>, and a computation that may fail without touching the world.\<close>

definition io_check :: "bool \<Rightarrow> 'e \<Rightarrow> ('e, unit) call" where
  "io_check bad e = (if bad then io_fail e else io_return ())"

definition io_some :: "'e \<Rightarrow> 'a option \<Rightarrow> ('e, 'a) call" where
  "io_some e x = (case x of None \<Rightarrow> io_fail e | Some y \<Rightarrow> io_return y)"

definition io_lift :: "('e, 'a) result \<Rightarrow> ('e, 'a) call" where
  "io_lift r = (case r of Inl e \<Rightarrow> io_fail e | Inr x \<Rightarrow> io_return x)"

definition io_now :: "('e, gtime) call" where
  "io_now w = (case time_Now w of (t, w1) \<Rightarrow> (Inr t, w1))"

section \<open>Successful runs\<close>

lemma io_bind_ok: "io_bind m f w = (Inr y, w') \<longleftrightarrow> (\<exists>x w1. m w = (Inr x, w1) \<and> f x w1 = (Inr y, w'))"
  by (auto simp: io_bind_def split: prod.splits sum.splits)

lemma io_wrap_ok: "io_wrap g m w = (Inr y, w') \<longleftrightarrow> m w = (Inr y, w')"
  by (auto simp: io_wrap_def split: prod.splits sum.splits)

lemma io_check_ok: "io_check b e w = (Inr y, w') \<longleftrightarrow> \<not> b \<and> w' = w"
  by (auto simp: io_check_def io_fail_def io_return_def)

lemma io_some_ok: "io_some e x w = (Inr y, w') \<longleftrightarrow> x = Some y \<and> w' = w"
  by (auto simp: io_some_def io_fail_def io_return_def split: option.splits)

lemma io_lift_ok: "io_lift r w = (Inr y, w') \<longleftrightarrow> r = Inr y \<and> w' = w"
  by (auto simp: io_lift_def io_fail_def io_return_def split: sum.splits)

lemma io_return_ok: "io_return x w = (Inr y, w') \<longleftrightarrow> y = x \<and> w' = w"
  by (auto simp: io_return_def)

lemma io_fail_ok: "io_fail e w = (Inr y, w') \<longleftrightarrow> False"
  by (simp add: io_fail_def)

lemmas io_ok = io_bind_ok io_wrap_ok io_check_ok io_some_ok io_lift_ok io_return_ok io_fail_ok

text \<open>Runs that end with an error.\<close>

lemma io_bind_err:
  "io_bind m f w = (Inl e, w') \<longleftrightarrow> m w = (Inl e, w') \<or> (\<exists>x w1. m w = (Inr x, w1) \<and> f x w1 = (Inl e, w'))"
  by (auto simp: io_bind_def split: prod.splits sum.splits)

lemma io_wrap_err: "io_wrap g m w = (Inl e, w') \<longleftrightarrow> (\<exists>e1. m w = (Inl e1, w') \<and> e = g e1)"
  by (auto simp: io_wrap_def split: prod.splits sum.splits)

lemma io_check_err: "io_check b e w = (Inl e', w') \<longleftrightarrow> b \<and> e' = e \<and> w' = w"
  by (auto simp: io_check_def io_fail_def io_return_def)

lemma io_some_err: "io_some e x w = (Inl e', w') \<longleftrightarrow> x = None \<and> e' = e \<and> w' = w"
  by (auto simp: io_some_def io_fail_def io_return_def split: option.splits)

lemma io_lift_err: "io_lift r w = (Inl e', w') \<longleftrightarrow> r = Inl e' \<and> w' = w"
  by (auto simp: io_lift_def io_fail_def io_return_def split: sum.splits)

lemma io_return_err: "io_return x w = (Inl e', w') \<longleftrightarrow> False"
  by (simp add: io_return_def)

lemma io_fail_err: "io_fail e w = (Inl e', w') \<longleftrightarrow> e' = e \<and> w' = w"
  by (auto simp: io_fail_def)

lemma io_now_err: "io_now w = (Inl e', w') \<longleftrightarrow> False"
  by (simp add: io_now_def split: prod.splits)

lemmas io_err = io_bind_err io_wrap_err io_check_err io_some_err io_lift_err io_return_err io_fail_err io_now_err

section \<open>What a sequence leaves alone\<close>

text \<open>\<open>io_quiet p m\<close>: whatever happens in \<open>m\<close>, the file \<open>p\<close> keeps its content in every intermediate state.\<close>

definition io_quiet :: "string \<Rightarrow> ('e, 'a) call \<Rightarrow> bool" where
  "io_quiet p m = (\<forall>w r w'. m w = (r, w') \<longrightarrow> quiet p w w')"

lemma io_quietD: "io_quiet p m \<Longrightarrow> m w = (r, w') \<Longrightarrow> quiet p w w'"
  by (simp add: io_quiet_def)

lemma io_quietI: "(\<And>w r w'. m w = (r, w') \<Longrightarrow> quiet p w w') \<Longrightarrow> io_quiet p m"
  by (simp add: io_quiet_def)

lemma io_quiet_bind [io_intros]:
  assumes "io_quiet p m" "\<And>x. io_quiet p (f x)"
  shows "io_quiet p (io_bind m f)"
proof (rule io_quietI)
  fix w r w' assume run: "io_bind m f w = (r, w')"
  obtain r1 w1 where m: "m w = (r1, w1)" by (rule prod.exhaust)
  have q: "quiet p w w1" by (rule io_quietD [OF assms(1) m])
  show "quiet p w w'"
  proof (cases r1)
    case (Inl e)
    then show ?thesis using run m q by (simp add: io_bind_def)
  next
    case (Inr x)
    then have "f x w1 = (r, w')" using run m by (simp add: io_bind_def)
    then show ?thesis using quiet_trans [OF q] io_quietD [OF assms(2)] by blast
  qed
qed

lemma io_quiet_wrap [io_intros]: "io_quiet p m \<Longrightarrow> io_quiet p (io_wrap g m)"
  by (auto simp: io_quiet_def io_wrap_def split: prod.splits sum.splits)

lemma io_quiet_pure [io_intros]:
  "io_quiet p (io_return x)" "io_quiet p (io_fail e)" "io_quiet p (io_check b e')" "io_quiet p (io_some e'' y)" "io_quiet p (io_lift z)"
  by (auto simp: io_quiet_def io_return_def io_fail_def io_check_def io_some_def io_lift_def split: option.splits sum.splits)

lemma io_quiet_now [io_intros]: "io_quiet p io_now"
  by (auto simp: io_quiet_def io_now_def steps_def dest: time_Now_eqs intro!: quiet_nil split: prod.splits)

lemma io_quiet_if [io_intros]: "(b \<Longrightarrow> io_quiet p m) \<Longrightarrow> (\<not> b \<Longrightarrow> io_quiet p m') \<Longrightarrow> io_quiet p (if b then m else m')"
  by simp

lemma io_quiet_calls [io_intros]:
  "io_quiet p (os_ReadFile q)" "io_quiet p (os_Stat q)" "io_quiet p (os_MkdirAll q m)" "io_quiet p (os_Chmod q m)"
  "p \<noteq> q \<Longrightarrow> io_quiet p (os_WriteFile q c m)" "p \<noteq> q \<Longrightarrow> io_quiet p (os_Remove q)"
  "p \<noteq> q \<Longrightarrow> p \<noteq> q' \<Longrightarrow> io_quiet p (os_Rename q q')"
  by (auto intro: io_quietI quiet_calls)

lemma io_quiet_atomicWrite [io_intros]: "p \<noteq> q \<Longrightarrow> p \<noteq> q @ ''.tmp'' \<Longrightarrow> io_quiet p (atomicWrite q c m)"
  by (auto intro!: io_quietI enf.others)

lemma io_quiet_identityWrite [io_intros]: "p \<noteq> q \<Longrightarrow> p \<noteq> q @ ''.tmp'' \<Longrightarrow> io_quiet p (identity_writePrivateFile q c)"
  by (auto intro!: io_quietI idf.others)

text \<open>A property of the store that survives every crash.\<close>

definition io_safe :: "(fs \<Rightarrow> bool) \<Rightarrow> ('e, 'a) call \<Rightarrow> bool" where
  "io_safe R m = (\<forall>w r w'. R (files w) \<and> m w = (r, w') \<longrightarrow> crash_safe R w w')"

lemma io_safeD: "io_safe R m \<Longrightarrow> R (files w) \<Longrightarrow> m w = (r, w') \<Longrightarrow> crash_safe R w w'"
  by (simp add: io_safe_def)

lemma io_safe_bind:
  assumes "io_safe R m" "\<And>x. io_safe R (f x)"
  shows "io_safe R (io_bind m f)"
  unfolding io_safe_def
proof (intro allI impI, elim conjE)
  fix w r w' assume R: "R (files w)" and run: "io_bind m f w = (r, w')"
  obtain r1 w1 where m: "m w = (r1, w1)" by (rule prod.exhaust)
  have 1: "crash_safe R w w1" by (rule io_safeD [OF assms(1) R m])
  show "crash_safe R w w'"
  proof (cases r1)
    case (Inl e)
    then show ?thesis using run m 1 by (simp add: io_bind_def)
  next
    case (Inr x)
    then have "f x w1 = (r, w')" using run m by (simp add: io_bind_def)
    then show ?thesis using crash_safe_trans [OF 1 io_safeD [OF assms(2) crash_safe_end [OF 1]]] by blast
  qed
qed

lemma io_safe_quiet: "io_quiet p m \<Longrightarrow> io_safe (\<lambda>u. fs_content u p = c) m"
  unfolding io_safe_def by (blast intro: crash_safe_quiet dest: io_quietD)

end
