(* ===== verification/Enrollment.thy ===== *)
theory Enrollment
  imports Quarantine Go_IO
begin

text \<open>
  Package \<open>internal/enrollment\<close>: the bootstrap enrolment and the renewal of the client certificate, and the pinning of
  the policy signing key on first use. PEM, X.509, TLS, URL and JSON are parameters (the record \<open>pki\<close>); the
  control plane's answer is an argument.
\<close>

section \<open>Data\<close>

definition maxEnrollmentResponseBytes :: int where "maxEnrollmentResponseBytes = 2 * 1024 * 1024"

record Options =
  eo_Endpoint :: string
  eo_BootstrapToken :: string
  eo_BootstrapCAFile :: string
  eo_DataDir :: string
  eo_AgentID :: string
  eo_TenantID :: string
  eo_Hostname :: string
  eo_Timeout :: duration

record RenewalOptions =
  rn_Endpoint :: string
  rn_AgentID :: string
  rn_TenantID :: string
  rn_CertFile :: string
  rn_KeyFile :: string
  rn_CAFile :: string
  rn_ServerName :: string
  rn_Timeout :: duration

record Request =
  rq_AgentID :: string
  rq_TenantID :: string
  rq_Hostname :: string
  rq_CSRPEM :: string

record RenewalRequest =
  rr_AgentID :: string
  rr_TenantID :: string
  rr_CSRPEM :: string

record Response =
  rs_AgentID :: string
  rs_TenantID :: string
  rs_CertificatePEM :: string
  rs_CACertificatePEM :: string
  rs_ExpiresAt :: gtime
  rs_PolicySigningPublicKeyPEM :: string

record EnrollmentBundle =
  eb_AgentID :: string
  eb_TenantID :: string
  eb_Certificate :: string
  eb_PrivateKey :: string
  eb_CA :: string
  eb_ExpiresAt :: gtime
  eb_Fingerprint :: string

text \<open>What the package reads of a certificate, and asks for in a signing request.\<close>

record certificate =
  ct_PublicKey :: "string option"
  ct_CommonName :: string
  ct_NotAfter :: gtime

record csr_template =
  tp_CommonName :: string
  tp_OrganizationalUnit :: "string list"
  tp_DNSNames :: "string list"

record pki =
  pem_Decode :: "string \<Rightarrow> (string \<times> string) option"
  x509_ParseCertificate :: "string \<Rightarrow> certificate option"
  x509_AppendCerts :: "string \<Rightarrow> bool"
  x509_Verify :: "certificate \<Rightarrow> string \<Rightarrow> gtime \<Rightarrow> bool"
  x509_CreateCertificateRequest :: "csr_template \<Rightarrow> string \<Rightarrow> string option"
  x509_ParsePKIXPublicKey :: "string \<Rightarrow> bool option"
  tls_X509KeyPair :: "string \<Rightarrow> string \<Rightarrow> bool"
  url_https :: "string \<Rightarrow> bool"
  key_parse :: "string \<Rightarrow> string option"
  key_encode :: "string \<Rightarrow> string option"
  json_Request :: "Request \<Rightarrow> string option"
  json_RenewalRequest :: "RenewalRequest \<Rightarrow> string option"
  json_Response :: "string \<Rightarrow> Response option"

datatype enroll_error =
    EErrOptions | EErrIdentity identity_error | EErrCSR | EErrEncode | EErrCA | EErrClientCert | EErrRequest | EErrRejected nat
  | EErrDecode | EErrMismatch | EErrCertificate | EErrForeignKey | EErrCommonName | EErrResponseCA | EErrVerify | EErrOS oserr
  | EErrTrustFormat | EErrTrustChanged

section \<open>Certificates\<close>

definition validateHTTPSEndpoint :: "pki \<Rightarrow> string \<Rightarrow> bool" where
  "validateHTTPSEndpoint K value = url_https K (TrimSpace value)"

definition validateOptions :: "pki \<Rightarrow> Options \<Rightarrow> bool" where
  "validateOptions K o1 =
     (TrimSpace (eo_AgentID o1) \<noteq> [] \<and> TrimSpace (eo_TenantID o1) \<noteq> [] \<and> TrimSpace (eo_BootstrapToken o1) \<noteq> []
      \<and> validateHTTPSEndpoint K (eo_Endpoint o1) \<and> Second \<le> eo_Timeout o1 \<and> eo_Timeout o1 \<le> 2 * Minute)"

definition validateRenewalOptions :: "pki \<Rightarrow> RenewalOptions \<Rightarrow> bool" where
  "validateRenewalOptions K o1 =
     (TrimSpace (rn_AgentID o1) \<noteq> [] \<and> TrimSpace (rn_TenantID o1) \<noteq> [] \<and> validateHTTPSEndpoint K (rn_Endpoint o1)
      \<and> rn_CertFile o1 \<noteq> [] \<and> rn_KeyFile o1 \<noteq> [] \<and> rn_CAFile o1 \<noteq> []
      \<and> Second \<le> rn_Timeout o1 \<and> rn_Timeout o1 \<le> 2 * Minute)"

definition createCSR :: "pki \<Rightarrow> string \<Rightarrow> string \<Rightarrow> string \<Rightarrow> string \<Rightarrow> string option" where
  "createCSR K privateKey agentID tenantID hostname =
     x509_CreateCertificateRequest K
       \<lparr>tp_CommonName = TrimSpace agentID, tp_OrganizationalUnit = [TrimSpace tenantID],
         tp_DNSNames = (if TrimSpace hostname \<noteq> [] then [TrimSpace hostname] else [])\<rparr> privateKey"

definition loadCertPool :: "pki \<Rightarrow> string \<Rightarrow> (enroll_error, string) call" where
  "loadCertPool K path =
     io_bind (io_wrap EErrOS (os_ReadFile path)) (\<lambda>c.
     io_bind (io_check (\<not> x509_AppendCerts K c) EErrCA) (\<lambda>_. io_return c))"

definition bootstrapTLSConfig :: "pki \<Rightarrow> string \<Rightarrow> (enroll_error, string option) call" where
  "bootstrapTLSConfig K caFile =
     (if TrimSpace caFile = [] then io_return None else io_bind (loadCertPool K caFile) (\<lambda>c. io_return (Some c)))"

definition ClientTLSConfig :: "pki \<Rightarrow> string \<Rightarrow> string \<Rightarrow> string \<Rightarrow> (enroll_error, string) call" where
  "ClientTLSConfig K certFile keyFile caFile =
     io_bind (io_wrap (\<lambda>_. EErrClientCert) (os_ReadFile certFile)) (\<lambda>c.
     io_bind (io_wrap (\<lambda>_. EErrClientCert) (os_ReadFile keyFile)) (\<lambda>k.
     io_bind (io_check (\<not> tls_X509KeyPair K c k) EErrClientCert) (\<lambda>_. loadCertPool K caFile)))"

definition CertificateExpiry :: "pki \<Rightarrow> string \<Rightarrow> (enroll_error, gtime) call" where
  "CertificateExpiry K certFile =
     io_bind (io_wrap EErrOS (os_ReadFile certFile)) (\<lambda>c.
     case pem_Decode K c of
       Some (ty, der) \<Rightarrow>
         if ty \<noteq> ''CERTIFICATE'' then io_fail EErrCertificate
         else io_bind (io_some EErrCertificate (x509_ParseCertificate K der)) (\<lambda>crt. io_return (ct_NotAfter crt))
     | None \<Rightarrow> io_fail EErrCertificate)"

definition verifyIssuedCertificate :: "crypto \<Rightarrow> pki \<Rightarrow> Response \<Rightarrow> string \<Rightarrow> string \<Rightarrow> (enroll_error, unit) call" where
  "verifyIssuedCertificate C K response privateKey agentID =
     (case pem_Decode K (rs_CertificatePEM response) of
        None \<Rightarrow> io_fail EErrCertificate
      | Some (ty, der) \<Rightarrow>
          if ty \<noteq> ''CERTIFICATE'' then io_fail EErrCertificate
          else io_bind (io_some EErrCertificate (x509_ParseCertificate K der)) (\<lambda>crt.
               io_bind (io_check (ct_PublicKey crt \<noteq> Some (ed25519_Public C privateKey)) EErrForeignKey) (\<lambda>_.
               io_bind (io_check (ct_CommonName crt \<noteq> agentID) EErrCommonName) (\<lambda>_.
               io_bind (io_check (\<not> x509_AppendCerts K (rs_CACertificatePEM response)) EErrResponseCA) (\<lambda>_.
               io_bind io_now (\<lambda>now.
               io_check (\<not> x509_Verify K crt (rs_CACertificatePEM response) now) EErrVerify))))))"

definition decodeAndVerifyResponse :: "crypto \<Rightarrow> pki \<Rightarrow> string \<Rightarrow> string \<Rightarrow> string \<Rightarrow> string \<Rightarrow> (enroll_error, Response) call" where
  "decodeAndVerifyResponse C K body privateKey agentID tenantID =
     io_bind (io_some EErrDecode (json_Response K body)) (\<lambda>response.
     io_bind (io_check (rs_AgentID response \<noteq> agentID \<or> rs_TenantID response \<noteq> tenantID) EErrMismatch) (\<lambda>_.
     io_bind (verifyIssuedCertificate C K response privateKey agentID) (\<lambda>_. io_return response)))"

text \<open>The policy signing key is installed once; a different key is an error.\<close>

abbreviation mode_public :: nat where "mode_public \<equiv> 6 * 64 + 4 * 8 + 4"

definition persistPolicySigningKey :: "pki \<Rightarrow> string \<Rightarrow> string \<Rightarrow> (enroll_error, unit) call" where
  "persistPolicySigningKey K path text0 =
     (let text1 = TrimSpace text0
      in if text1 = [] then io_return ()
         else case pem_Decode K text1 of
                None \<Rightarrow> io_fail EErrTrustFormat
              | Some (ty, der) \<Rightarrow>
                  if ty \<noteq> ''PUBLIC KEY'' then io_fail EErrTrustFormat
                  else io_bind (io_some EErrTrustFormat (x509_ParsePKIXPublicKey K der)) (\<lambda>ed.
                       io_bind (io_check (\<not> ed) EErrTrustFormat) (\<lambda>_ w.
                         case os_ReadFile path w of
                           (Inr existing, w1) \<Rightarrow>
                             if TrimSpace existing = TrimSpace (text1 @ [newline]) then (Inr (), w1) else (Inl EErrTrustChanged, w1)
                         | (Inl e, w1) \<Rightarrow>
                             if e \<noteq> ErrNotExist then (Inl (EErrOS e), w1)
                             else io_wrap EErrOS (atomicWrite path (text1 @ [newline]) mode_public) w1)))"

text \<open>\<open>client.Do\<close> and \<open>readResponse\<close>.\<close>

definition enroll_reply :: "http_reply \<Rightarrow> (enroll_error, nat \<times> string) result" where
  "enroll_reply reply =
     (case reply of
        Some (status, Some body) \<Rightarrow> Inr (status, LimitRead maxEnrollmentResponseBytes body)
      | _ \<Rightarrow> Inl EErrRequest)"

section \<open>Enrolment and renewal\<close>

text \<open>\<open>gen\<close> is the key a first start generates.\<close>

definition Enroll :: "crypto \<Rightarrow> pki \<Rightarrow> string option \<Rightarrow> Options \<Rightarrow> http_reply \<Rightarrow> (enroll_error, EnrollmentBundle) call" where
  "Enroll C K gen o1 reply =
     io_bind (io_check (\<not> validateOptions K o1) EErrOptions) (\<lambda>_.
     io_bind (io_wrap EErrIdentity (Ensure (key_parse K) (key_encode K) gen (eo_DataDir o1))) (\<lambda>(privateKey, privateKeyPath).
     io_bind (io_some EErrCSR (createCSR K privateKey (eo_AgentID o1) (eo_TenantID o1) (eo_Hostname o1))) (\<lambda>csrPEM.
     io_bind (io_some EErrEncode (json_Request K \<lparr>rq_AgentID = eo_AgentID o1, rq_TenantID = eo_TenantID o1,
         rq_Hostname = eo_Hostname o1, rq_CSRPEM = csrPEM\<rparr>)) (\<lambda>requestBody.
     io_bind (bootstrapTLSConfig K (eo_BootstrapCAFile o1)) (\<lambda>_.
     io_bind (io_lift (enroll_reply reply)) (\<lambda>(status, body).
     io_bind (io_check (status \<noteq> 200) (EErrRejected status)) (\<lambda>_.
     io_bind (decodeAndVerifyResponse C K body privateKey (eo_AgentID o1) (eo_TenantID o1)) (\<lambda>response.
     let certDir = filepath_Join [eo_DataDir o1, ''certs'']; certPath = filepath_Join [certDir, ''client.crt''];
         caPath = filepath_Join [certDir, ''ca.crt'']
     in io_bind (io_wrap EErrOS (os_MkdirAll certDir mode_private_dir)) (\<lambda>_.
        io_bind (io_wrap EErrOS (atomicWrite certPath (rs_CertificatePEM response) mode_private)) (\<lambda>_.
        io_bind (io_wrap EErrOS (atomicWrite caPath (rs_CACertificatePEM response) mode_public)) (\<lambda>_.
        io_bind (persistPolicySigningKey K (filepath_Join [eo_DataDir o1, ''policy-signing.pub'']) (rs_PolicySigningPublicKeyPEM response)) (\<lambda>_.
        io_return \<lparr>eb_AgentID = eo_AgentID o1, eb_TenantID = eo_TenantID o1, eb_Certificate = certPath,
           eb_PrivateKey = privateKeyPath, eb_CA = caPath, eb_ExpiresAt = rs_ExpiresAt response,
           eb_Fingerprint = Fingerprint C (ed25519_Public C privateKey)\<rparr>))))))))))))"

definition Renew :: "crypto \<Rightarrow> pki \<Rightarrow> RenewalOptions \<Rightarrow> http_reply \<Rightarrow> (enroll_error, Response) call" where
  "Renew C K o1 reply =
     io_bind (io_check (\<not> validateRenewalOptions K o1) EErrOptions) (\<lambda>_.
     io_bind (io_wrap EErrIdentity (identity_Load (key_parse K) (rn_KeyFile o1))) (\<lambda>privateKey.
     io_bind (io_some EErrCSR (createCSR K privateKey (rn_AgentID o1) (rn_TenantID o1) [])) (\<lambda>csrPEM.
     io_bind (io_some EErrEncode (json_RenewalRequest K \<lparr>rr_AgentID = rn_AgentID o1, rr_TenantID = rn_TenantID o1,
         rr_CSRPEM = csrPEM\<rparr>)) (\<lambda>requestBody.
     io_bind (ClientTLSConfig K (rn_CertFile o1) (rn_KeyFile o1) (rn_CAFile o1)) (\<lambda>_.
     io_bind (io_lift (enroll_reply reply)) (\<lambda>(status, body).
     io_bind (io_check (status \<noteq> 200) (EErrRejected status)) (\<lambda>_.
     io_bind (decodeAndVerifyResponse C K body privateKey (rn_AgentID o1) (rn_TenantID o1)) (\<lambda>response.
     io_bind (io_wrap EErrOS (atomicWrite (rn_CertFile o1) (rs_CertificatePEM response) mode_private)) (\<lambda>_.
     io_bind (io_wrap EErrOS (atomicWrite (rn_CAFile o1) (rs_CACertificatePEM response) mode_public)) (\<lambda>_.
     io_bind (persistPolicySigningKey K (filepath_Join [filepath_Dir (rn_KeyFile o1), ''policy-signing.pub''])
         (rs_PolicySigningPublicKeyPEM response)) (\<lambda>_.
     io_return response)))))))))))"

section \<open>What the calls touch\<close>

lemma quiet_loadCertPool [io_intros]: "io_quiet p (loadCertPool K q)"
  unfolding loadCertPool_def by (intro io_intros)

lemma quiet_bootstrapTLSConfig [io_intros]: "io_quiet p (bootstrapTLSConfig K q)"
  unfolding bootstrapTLSConfig_def by (intro io_intros)

lemma quiet_ClientTLSConfig [io_intros]: "io_quiet p (ClientTLSConfig K q q' q'')"
  unfolding ClientTLSConfig_def by (intro io_intros)

lemma quiet_CertificateExpiry [io_intros]: "io_quiet p (CertificateExpiry K q)"
  unfolding CertificateExpiry_def by (intro io_intros) (auto split: option.splits intro!: io_intros)

lemma quiet_verifyIssuedCertificate [io_intros]: "io_quiet p (verifyIssuedCertificate C K response key agentID)"
  unfolding verifyIssuedCertificate_def by (auto split: option.splits intro!: io_intros)

lemma quiet_decodeAndVerify [io_intros]: "io_quiet p (decodeAndVerifyResponse C K body key a t)"
  unfolding decodeAndVerifyResponse_def by (intro io_intros)

lemma quiet_identity_Load [io_intros]: "io_quiet p (identity_Load kp q)"
  by (rule io_quietI) (rule quiet_Load)

lemma Ensure_io: "p \<noteq> filepath_Join [d, privateKeyFilename] \<Longrightarrow> p \<noteq> filepath_Join [d, privateKeyFilename] @ ''.tmp'' \<Longrightarrow>
    io_quiet p (Ensure kp ke gen d)"
proof (rule io_quietI)
  fix w r w' assume p: "p \<noteq> filepath_Join [d, privateKeyFilename]" "p \<noteq> filepath_Join [d, privateKeyFilename] @ ''.tmp''"
    and run: "Ensure kp ke gen d w = (r, w')"
  let ?q = "filepath_Join [d, privateKeyFilename]"
  obtain r1 w1 where 1: "os_MkdirAll d mode_private_dir w = (r1, w1)" by (rule prod.exhaust)
  obtain r2 w2 where 2: "identity_Load kp ?q w1 = (r2, w2)" by (rule prod.exhaust)
  obtain r3 w3 where 3: "os_Chmod ?q mode_private w2 = (r3, w3)" by (rule prod.exhaust)
  have q1: "quiet p w w1" by (rule quiet_MkdirAll [OF 1])
  have q2: "quiet p w w2" by (rule quiet_trans [OF q1 quiet_Load [OF 2]])
  have q3: "quiet p w w3" by (rule quiet_trans [OF q2 quiet_Chmod [OF 3]])
  have q4: "quiet p w v" if "identity_writePrivateFile ?q c w2 = (x, v)" for c x v
    using quiet_trans [OF q2 io_quietD [OF io_quiet_identityWrite [OF p] that]] .
  show "quiet p w w'"
    using run 1 2 3 q1 q2 q3 q4 by (auto simp: Ensure_def Let_def split: sum.splits if_splits option.splits prod.splits)
qed

text \<open>The pinned key survives its own installation routine.\<close>

lemma persist_pinned: "io_safe (\<lambda>u. fs_content u p = Some k) (persistPolicySigningKey K p text0)"
  unfolding io_safe_def
proof (intro allI impI, elim conjE)
  fix w r w' assume k: "fs_content (files w) p = Some k" and run: "persistPolicySigningKey K p text0 w = (r, w')"
  obtain r1 w1 where rd: "os_ReadFile p w = (r1, w1)" by (rule prod.exhaust)
  have "r1 \<noteq> Inl ErrNotExist" using os_ReadFile_cases(3) [OF rd] k by auto
  then have "w' = w \<or> w' = w1"
    using run rd unfolding persistPolicySigningKey_def Let_def
    by (auto simp: io_bind_def io_some_def io_check_def io_fail_def io_return_def split: option.splits if_splits sum.splits prod.splits)
  then have "quiet p w w'" using quiet_ReadFile [OF rd] by auto
  then show "crash_safe (\<lambda>u. fs_content u p = Some k) w w'" by (rule crash_safe_quiet) (simp add: k)
qed

lemma quiet_persist [io_intros]: "p \<noteq> q \<Longrightarrow> p \<noteq> q @ ''.tmp'' \<Longrightarrow> io_quiet p (persistPolicySigningKey K q text0)"
proof (rule io_quietI)
  fix w r w' assume p: "p \<noteq> q" "p \<noteq> q @ ''.tmp''" and run: "persistPolicySigningKey K q text0 w = (r, w')"
  obtain r1 w1 where rd: "os_ReadFile q w = (r1, w1)" by (rule prod.exhaust)
  obtain r2 w2 where aw: "io_wrap EErrOS (atomicWrite q (TrimSpace text0 @ [newline]) mode_public) w1 = (r2, w2)" by (rule prod.exhaust)
  have q1: "quiet p w w1" by (rule quiet_ReadFile [OF rd])
  have q2: "quiet p w w2" by (rule quiet_trans [OF q1 io_quietD [OF io_quiet_wrap [OF io_quiet_atomicWrite [OF p]] aw]])
  have "w' = w \<or> w' = w1 \<or> w' = w2"
    using run rd aw unfolding persistPolicySigningKey_def Let_def
    by (auto simp: io_bind_def io_some_def io_check_def io_fail_def io_return_def split: option.splits if_splits sum.splits prod.splits)
  then show "quiet p w w'" using q1 q2 by auto
qed

lemma io_safe_split: "(\<And>a b. io_safe R (f a b)) \<Longrightarrow> io_safe R (case x of (a, b) \<Rightarrow> f a b)"
  by (cases x) simp

lemma io_quiet_split [io_intros]: "(\<And>a b. io_quiet p (f a b)) \<Longrightarrow> io_quiet p (case x of (a, b) \<Rightarrow> f a b)"
  by (cases x) simp

lemma Renew_pinned:
  assumes p: "p = filepath_Join [filepath_Dir (rn_KeyFile o1), ''policy-signing.pub'']"
    and "p \<notin> {rn_CertFile o1, rn_CertFile o1 @ ''.tmp'', rn_CAFile o1, rn_CAFile o1 @ ''.tmp''}"
  shows "io_safe (\<lambda>u. fs_content u p = Some k) (Renew C K o1 reply)"
  unfolding Renew_def p [symmetric]
  by (intro io_safe_bind io_safe_split persist_pinned; rule io_safe_quiet; intro io_intros) (use assms in auto)

text \<open>The files of an enrolment directory.\<close>

lemma Enroll_pinned:
  assumes d: "HasPrefix (eo_DataDir o1) ''/''" and p: "p = filepath_Join [eo_DataDir o1, ''policy-signing.pub'']"
  shows "io_safe (\<lambda>u. fs_content u p = Some k) (Enroll C K gen o1 reply)"
proof -
  let ?c = "filepath_Join [eo_DataDir o1, ''certs'']"
  have pl: "plain_comp ''policy-signing.pub''" "plain_comp ''certs''" "plain_comp ''client.crt''" "plain_comp ''ca.crt''"
    "plain_comp ''client.crt.tmp''" "plain_comp ''ca.crt.tmp''" "plain_comp privateKeyFilename" "plain_comp (privateKeyFilename @ ''.tmp'')"
    by (simp_all add: plain_comp_def privateKeyFilename_def)
  have c: "HasPrefix ?c ''/''" "clean_comps ?c \<noteq> clean_comps (eo_DataDir o1)"
    using d pl by (simp_all add: clean_comps_Join_file)
  have n: "p \<noteq> filepath_Join [?c, m]" if "plain_comp m" for m
    unfolding p using c(2) by (simp add: Join_file_eq_iff [OF d pl(1) c(1) that])
  have ne: "p \<noteq> filepath_Join [?c, ''client.crt'']" "p \<noteq> filepath_Join [?c, ''ca.crt'']"
    "p \<noteq> filepath_Join [?c, ''client.crt''] @ ''.tmp''" "p \<noteq> filepath_Join [?c, ''ca.crt''] @ ''.tmp''"
    using n [OF pl(3)] n [OF pl(4)] n [OF pl(5)] n [OF pl(6)] Join_file_append [OF c(1) pl(3), of "''.tmp''"]
      Join_file_append [OF c(1) pl(4), of "''.tmp''"] pl(5,6) by simp_all
  have ne': "p \<noteq> filepath_Join [eo_DataDir o1, privateKeyFilename]" "p \<noteq> filepath_Join [eo_DataDir o1, privateKeyFilename] @ ''.tmp''"
    unfolding p using Join_file_append [OF d pl(7), of "''.tmp''"] pl
    by (simp_all add: Join_file_eq_iff [OF d pl(1) d] privateKeyFilename_def)
  show ?thesis
    unfolding Enroll_def p [symmetric] Let_def
    by (intro io_safe_bind io_safe_split persist_pinned; rule io_safe_quiet; intro io_intros Ensure_io) (rule ne ne')+
qed

text \<open>Any history of enrolments and renewals of one installation.\<close>

datatype enroll_op = OpEnroll "string option" Options http_reply | OpRenew RenewalOptions http_reply

fun run_op :: "crypto \<Rightarrow> pki \<Rightarrow> enroll_op \<Rightarrow> world \<Rightarrow> world" where
  "run_op C K (OpEnroll gen o1 reply) w = snd (Enroll C K gen o1 reply w)"
| "run_op C K (OpRenew o1 reply) w = snd (Renew C K o1 reply w)"

fun op_of :: "string \<Rightarrow> enroll_op \<Rightarrow> bool" where
  "op_of p (OpEnroll gen o1 reply) = (HasPrefix (eo_DataDir o1) ''/'' \<and> p = filepath_Join [eo_DataDir o1, ''policy-signing.pub''])"
| "op_of p (OpRenew o1 reply) = (p = filepath_Join [filepath_Dir (rn_KeyFile o1), ''policy-signing.pub'']
     \<and> p \<notin> {rn_CertFile o1, rn_CertFile o1 @ ''.tmp'', rn_CAFile o1, rn_CAFile o1 @ ''.tmp''})"

lemma run_op_pinned:
  assumes "op_of p op" "fs_content (files w) p = Some k"
  shows "crash_safe (\<lambda>u. fs_content u p = Some k) w (run_op C K op w)"
proof (cases op)
  case (OpEnroll gen o1 reply)
  then have "io_safe (\<lambda>u. fs_content u p = Some k) (Enroll C K gen o1 reply)" using assms(1) by (intro Enroll_pinned) simp_all
  from io_safeD [OF this assms(2) surjective_pairing] show ?thesis using OpEnroll by simp
next
  case (OpRenew o1 reply)
  then have "io_safe (\<lambda>u. fs_content u p = Some k) (Renew C K o1 reply)" using assms(1) by (intro Renew_pinned) auto
  from io_safeD [OF this assms(2) surjective_pairing] show ?thesis using OpRenew by simp
qed

lemma run_ops_pinned:
  "list_all (op_of p) ops \<Longrightarrow> fs_content (files w) p = Some k \<Longrightarrow>
     crash_safe (\<lambda>u. fs_content u p = Some k) w (fold (run_op C K) ops w)"
proof (induction ops arbitrary: w)
  case Nil
  then show ?case using crash_safe_quiet [OF quiet_refl [of p w], where R = "\<lambda>u. fs_content u p = Some k"] by simp
next
  case (Cons op ops)
  then have 1: "crash_safe (\<lambda>u. fs_content u p = Some k) w (run_op C K op w)" by (intro run_op_pinned) auto
  then show ?case using Cons.IH [OF _ crash_safe_end [OF 1]] Cons.prems(1) crash_safe_trans by fastforce
qed

lemma verify_ok:
  assumes "verifyIssuedCertificate C K response key agentID w = (Inr u, w')"
  shows "\<exists>der crt t. pem_Decode K (rs_CertificatePEM response) = Some (''CERTIFICATE'', der)
    \<and> x509_ParseCertificate K der = Some crt \<and> ct_PublicKey crt = Some (ed25519_Public C key) \<and> ct_CommonName crt = agentID
    \<and> x509_Verify K crt (rs_CACertificatePEM response) t"
  using assms unfolding verifyIssuedCertificate_def
  by (fastforce simp: io_ok io_now_def split: option.splits if_splits prod.splits)

section \<open>Properties\<close>

text \<open>C20. Trust on first use: once the policy signing key is on disk, no enrolment and no renewal ever changes it,
  whatever the control plane answers, whichever call fails, and in every state a crash can leave.\<close>

theorem signing_key_is_pinned:
  assumes "list_all (op_of p) ops" "fs_content (files w) p = Some k"
  shows "crash_safe (\<lambda>u. fs_content u p = Some k) w (fold (run_op C K) ops w)"
  using assms by (rule run_ops_pinned)

text \<open>After a successful renewal the certificate on disk was issued for the agent's own key and name, verifies under
  the CA certificate that is then on disk, and the answer named this agent and tenant.\<close>

theorem Renew_installs_own_certificate:
  assumes run: "Renew C K o1 reply w = (Inr response, w')"
    and "distinct [rn_CertFile o1, rn_CAFile o1, rn_KeyFile o1, pub]"
    and pub: "pub = filepath_Join [filepath_Dir (rn_KeyFile o1), ''policy-signing.pub'']"
    and tmp: "rn_CertFile o1 \<notin> {rn_CAFile o1 @ ''.tmp'', pub @ ''.tmp''}" "rn_CAFile o1 \<noteq> pub @ ''.tmp''"
  shows "\<exists>keyText key cert ca der crt t. fs_content (files w) (rn_KeyFile o1) = Some keyText \<and> key_parse K keyText = Some key
    \<and> fs_content (files w') (rn_CertFile o1) = Some cert \<and> fs_content (files w') (rn_CAFile o1) = Some ca
    \<and> pem_Decode K cert = Some (''CERTIFICATE'', der) \<and> x509_ParseCertificate K der = Some crt
    \<and> ct_PublicKey crt = Some (ed25519_Public C key) \<and> ct_CommonName crt = rn_AgentID o1 \<and> x509_Verify K crt ca t
    \<and> rs_AgentID response = rn_AgentID o1 \<and> rs_TenantID response = rn_TenantID o1"
proof -
  from run obtain key w1 body w2 w3 w4 w5 u where
    l: "identity_Load (key_parse K) (rn_KeyFile o1) w = (Inr key, w1)"
    and d: "decodeAndVerifyResponse C K body key (rn_AgentID o1) (rn_TenantID o1) w2 = (Inr response, w3)"
    and c: "atomicWrite (rn_CertFile o1) (rs_CertificatePEM response) mode_private w3 = (Inr (), w4)"
    and a: "atomicWrite (rn_CAFile o1) (rs_CACertificatePEM response) mode_public w4 = (Inr (), w5)"
    and k: "persistPolicySigningKey K pub (rs_PolicySigningPublicKeyPEM response) w5 = (Inr u, w')"
    unfolding Renew_def pub by (fastforce simp: io_ok)
  from l obtain keyText where kt: "fs_content (files w) (rn_KeyFile o1) = Some keyText" "key_parse K keyText = Some key"
    by (auto simp: identity_Load_def dest: os_ReadFile_cases split: prod.splits sum.splits option.splits)
  from d obtain w6 u1 where v: "verifyIssuedCertificate C K response key (rn_AgentID o1) w6 = (Inr u1, w3)"
    "rs_AgentID response = rn_AgentID o1" "rs_TenantID response = rn_TenantID o1"
    by (auto simp: decodeAndVerifyResponse_def io_ok)
  have q: "quiet x w5 w'" if "x \<noteq> pub" "x \<noteq> pub @ ''.tmp''" for x
    by (rule io_quietD [OF quiet_persist [OF that] k])
  have "fs_content (files w') (rn_CAFile o1) = Some (rs_CACertificatePEM response)"
    using enf.installs [OF a] quiet_content [OF q] assms(2) tmp by auto
  moreover have "fs_content (files w') (rn_CertFile o1) = Some (rs_CertificatePEM response)"
    using enf.installs [OF c] enf.others_content [OF a, of "rn_CertFile o1"] quiet_content [OF q] assms(2) tmp by auto
  ultimately show ?thesis using kt v verify_ok [OF v(1)] by blast
qed

text \<open>A renewal that reports a changed policy signing key has by then replaced the client certificate and the CA
  certificate: the refusal does not undo the rest of the answer.\<close>

theorem Renew_refusal_keeps_new_certificates:
  assumes run: "Renew C K o1 reply w = (Inl EErrTrustChanged, w')"
    and "distinct [rn_CertFile o1, rn_CAFile o1, pub]"
    and pub: "pub = filepath_Join [filepath_Dir (rn_KeyFile o1), ''policy-signing.pub'']"
    and tmp: "rn_CertFile o1 \<notin> {rn_CAFile o1 @ ''.tmp'', pub @ ''.tmp''}" "rn_CAFile o1 \<noteq> pub @ ''.tmp''"
  shows "\<exists>response. (\<exists>st body. reply = Some (st, Some body) \<and> json_Response K (LimitRead maxEnrollmentResponseBytes body) = Some response)
    \<and> fs_content (files w') (rn_CertFile o1) = Some (rs_CertificatePEM response)
    \<and> fs_content (files w') (rn_CAFile o1) = Some (rs_CACertificatePEM response)"
proof -
  have no: "loadCertPool K q v \<noteq> (Inl EErrTrustChanged, v')" "ClientTLSConfig K q1 q2 q v \<noteq> (Inl EErrTrustChanged, v')"
    "decodeAndVerifyResponse C K b y1 y2 y3 v \<noteq> (Inl EErrTrustChanged, v')" "enroll_reply reply \<noteq> Inl EErrTrustChanged"
    for q q1 q2 b y1 y2 y3 v v'
    by (auto simp: loadCertPool_def ClientTLSConfig_def decodeAndVerifyResponse_def verifyIssuedCertificate_def enroll_reply_def io_err io_ok
        split: option.splits if_splits)
  from run obtain key response body w2 w3 w4 w5 st where
    r: "enroll_reply reply = Inr (st, body)"
    and d: "decodeAndVerifyResponse C K body key (rn_AgentID o1) (rn_TenantID o1) w2 = (Inr response, w3)"
    and c: "atomicWrite (rn_CertFile o1) (rs_CertificatePEM response) mode_private w3 = (Inr (), w4)"
    and a: "atomicWrite (rn_CAFile o1) (rs_CACertificatePEM response) mode_public w4 = (Inr (), w5)"
    and k: "persistPolicySigningKey K pub (rs_PolicySigningPublicKeyPEM response) w5 = (Inl EErrTrustChanged, w')"
    unfolding Renew_def pub by (auto simp: io_err io_ok no)
  have q: "quiet x w5 w'" if "x \<noteq> pub" "x \<noteq> pub @ ''.tmp''" for x
    by (rule io_quietD [OF quiet_persist [OF that] k])
  have "json_Response K body = Some response" using d by (auto simp: decodeAndVerifyResponse_def io_ok)
  then have "\<exists>st body. reply = Some (st, Some body) \<and> json_Response K (LimitRead maxEnrollmentResponseBytes body) = Some response"
    using r by (auto simp: enroll_reply_def split: option.splits prod.splits)
  moreover have "fs_content (files w') (rn_CAFile o1) = Some (rs_CACertificatePEM response)"
    using enf.installs [OF a] quiet_content [OF q] assms(2) tmp by auto
  moreover have "fs_content (files w') (rn_CertFile o1) = Some (rs_CertificatePEM response)"
    using enf.installs [OF c] enf.others_content [OF a, of "rn_CertFile o1"] quiet_content [OF q] assms(2) tmp by auto
  ultimately show ?thesis by blast
qed

text \<open>A key infrastructure that issues one certificate, and a disk with a pinned key.\<close>

definition demo_pki :: pki where
  "demo_pki = \<lparr>pem_Decode = (\<lambda>s. if HasPrefix s ''C'' then Some (''CERTIFICATE'', s) else if HasPrefix s ''K'' then Some (''PUBLIC KEY'', s) else None),
     x509_ParseCertificate = (\<lambda>_. Some \<lparr>ct_PublicKey = Some ''id'', ct_CommonName = ''a'', ct_NotAfter = 1000\<rparr>),
     x509_AppendCerts = (\<lambda>_. True), x509_Verify = (\<lambda>_ _ _. True), x509_CreateCertificateRequest = (\<lambda>_ k. Some k),
     x509_ParsePKIXPublicKey = (\<lambda>_. Some True), tls_X509KeyPair = (\<lambda>_ _. True), url_https = (\<lambda>_. True),
     key_parse = Some, key_encode = Some, json_Request = (\<lambda>r. Some (rq_CSRPEM r)), json_RenewalRequest = (\<lambda>r. Some (rr_CSRPEM r)),
     json_Response = (\<lambda>b. Some \<lparr>rs_AgentID = ''a'', rs_TenantID = ''t'', rs_CertificatePEM = ''Cnew'', rs_CACertificatePEM = ''CAnew'',
       rs_ExpiresAt = 1000, rs_PolicySigningPublicKeyPEM = b\<rparr>)\<rparr>"

definition demo_renewal :: RenewalOptions where
  "demo_renewal = \<lparr>rn_Endpoint = ''https://x'', rn_AgentID = ''a'', rn_TenantID = ''t'', rn_CertFile = ''/c'', rn_KeyFile = ''/k/id.key'',
     rn_CAFile = ''/ca'', rn_ServerName = [], rn_Timeout = Second\<rparr>"

definition demo_pub :: string where "demo_pub = ''/k/policy-signing.pub''"

definition enrolled_world :: world where
  "enrolled_world = \<lparr>files = [(''/c'', \<lparr>content = ''Cold'', perm = 384, mtime = 0\<rparr>), (''/ca'', \<lparr>content = ''CAold'', perm = 420, mtime = 0\<rparr>),
       (''/k/id.key'', \<lparr>content = ''id'', perm = 384, mtime = 0\<rparr>), (demo_pub, \<lparr>content = ''Kold'' @ [newline], perm = 420, mtime = 0\<rparr>)],
     faults = [], events = [], clock = 50, clock_steps = []\<rparr>"

lemma demo_renewal_facts:
  "demo_pub = filepath_Join [filepath_Dir (rn_KeyFile demo_renewal), ''policy-signing.pub'']"
  "distinct [rn_CertFile demo_renewal, rn_CAFile demo_renewal, rn_KeyFile demo_renewal, demo_pub]"
  "distinct [rn_CertFile demo_renewal, rn_CAFile demo_renewal, demo_pub]"
  "rn_CertFile demo_renewal \<notin> {rn_CAFile demo_renewal @ ''.tmp'', demo_pub @ ''.tmp''}" "rn_CAFile demo_renewal \<noteq> demo_pub @ ''.tmp''"
  "fs_content (files enrolled_world) demo_pub = Some (''Kold'' @ [newline])"
  "op_of demo_pub (OpRenew demo_renewal (Some (200, Some ''Knew'')))"
  by code_simp+

lemma demo_replies:
  "enroll_reply (Some (200, Some [])) = Inr (200, [])" "enroll_reply (Some (200, Some ''Knew'')) = Inr (200, ''Knew'')"
  by (simp_all add: enroll_reply_def maxEnrollmentResponseBytes_def LimitRead_def)

theorem signing_key_is_pinned_witness:
  "fs_content (files (run_op toy_crypto demo_pki (OpRenew demo_renewal (Some (200, Some ''Knew''))) enrolled_world)) demo_pub
     = Some (''Kold'' @ [newline])"
proof -
  have "list_all (op_of demo_pub) [OpRenew demo_renewal (Some (200, Some ''Knew''))]" using demo_renewal_facts(7) by simp
  from crash_safe_end [OF signing_key_is_pinned [OF this demo_renewal_facts(6), of toy_crypto demo_pki]] show ?thesis by simp
qed

theorem Renew_installs_own_certificate_witness:
  "\<exists>response w' der crt. Renew toy_crypto demo_pki demo_renewal (Some (200, Some [])) enrolled_world = (Inr response, w')
     \<and> x509_ParseCertificate demo_pki der = Some crt \<and> ct_CommonName crt = rn_AgentID demo_renewal"
proof -
  have "is_ok (fst (Renew toy_crypto demo_pki demo_renewal (Some (200, Some [])) enrolled_world))"
    unfolding Renew_def demo_replies by code_simp
  then obtain response w' where e: "Renew toy_crypto demo_pki demo_renewal (Some (200, Some [])) enrolled_world = (Inr response, w')"
    by (auto simp: is_ok_iff fst_def split: prod.splits)
  from Renew_installs_own_certificate [OF e demo_renewal_facts(2,1,4,5)] show ?thesis using e by blast
qed

theorem Renew_refusal_keeps_new_certificates_witness:
  "\<exists>w'. Renew toy_crypto demo_pki demo_renewal (Some (200, Some ''Knew'')) enrolled_world = (Inl EErrTrustChanged, w')
     \<and> fs_content (files w') (rn_CAFile demo_renewal) = Some ''CAnew''"
proof -
  obtain r w' where e: "Renew toy_crypto demo_pki demo_renewal (Some (200, Some ''Knew'')) enrolled_world = (r, w')" by (rule prod.exhaust)
  have "fst (Renew toy_crypto demo_pki demo_renewal (Some (200, Some ''Knew'')) enrolled_world) = Inl EErrTrustChanged"
    unfolding Renew_def demo_replies by code_simp
  then have r: "r = Inl EErrTrustChanged" using e by simp
  from Renew_refusal_keeps_new_certificates [OF e [unfolded r] demo_renewal_facts(3,1,4,5)]
  have "fs_content (files w') (rn_CAFile demo_renewal) = Some ''CAnew''" by (auto simp: demo_pki_def)
  then show ?thesis using e unfolding r by blast
qed

end
