(* ===== verification/Sender.thy ===== *)
theory Sender
  imports Outbox Schema Enrollment
begin

text \<open>
  Package \<open>internal/transport\<close>, \<open>sender.go\<close>: a flush renews the client certificate when it is due, takes a batch from the
  outbox and posts it event by event. Acknowledged events leave the queue, events the control plane rejects for good
  go to the dead letters, anything else stops the flush. The control plane is a list of answers; the model records
  what was posted.
\<close>

section \<open>Data\<close>

definition maxTransportResponseBytes :: int where "maxTransportResponseBytes = 1024 * 1024"

record SenderOptions =
  so_Endpoint :: string
  so_AgentID :: string
  so_TenantID :: string
  so_CertFile :: string
  so_KeyFile :: string
  so_CAFile :: string
  so_ServerName :: string
  so_Timeout :: duration
  so_AutoRenew :: bool
  so_RenewalEndpoint :: string
  so_RenewBefore :: duration
  so_RenewCheckInterval :: duration

record Sender =
  sd_options :: SenderOptions
  sd_outbox :: Outbox
  sd_privateKey :: string
  sd_lastRenewalCheck :: gtime

record FlushResult =
  fr_Sent :: nat
  fr_DeadLetter :: nat
  fr_Attempted :: nat
  fr_CertificateRenewed :: bool
  fr_CertificateExpiresAt :: "gtime option"

datatype send_error =
    SErrOptions | SErrKey identity_error | SErrTLS enroll_error | SErrExpiry enroll_error | SErrExpired | SErrRenew enroll_error
  | SErrOutbox outbox_error | SErrCancelled | SErrSend | SErrHTTP nat

text \<open>What the next request meets: a cancelled context, no usable response, or a status with a body.\<close>

datatype wire = Cancelled | NoReply | Reply nat string

record flush_env =
  fe_wire :: "wire list"
  fe_sent :: "(string \<times> string \<times> nat) list"

text \<open>The codecs and formats: queued events, the control-plane event (an encoding error carries its text), the verb \<open>%q\<close>.\<close>

record send_codec =
  sc_events :: event_codec
  sc_mapped :: "ControlPlaneEvent \<Rightarrow> string + string"
  sc_quote :: "string \<Rightarrow> string"

definition NewSender :: "pki \<Rightarrow> Outbox \<Rightarrow> SenderOptions \<Rightarrow> (send_error, Sender) call" where
  "NewSender K outbox o1 =
     io_bind (io_check (TrimSpace (so_Endpoint o1) = [] \<or> TrimSpace (so_AgentID o1) = [] \<or> TrimSpace (so_TenantID o1) = []) SErrOptions) (\<lambda>_.
     io_bind (io_check (so_Timeout o1 < Second \<or> so_Timeout o1 > 2 * Minute) SErrOptions) (\<lambda>_.
     io_bind (io_check (so_AutoRenew o1 \<and> (TrimSpace (so_RenewalEndpoint o1) = [] \<or> so_RenewBefore o1 < Hour
         \<or> so_RenewCheckInterval o1 < Minute)) SErrOptions) (\<lambda>_.
     io_bind (io_wrap SErrKey (identity_Load (key_parse K) (so_KeyFile o1))) (\<lambda>privateKey.
     io_bind (io_wrap SErrTLS (ClientTLSConfig K (so_CertFile o1) (so_KeyFile o1) (so_CAFile o1))) (\<lambda>_.
     io_return \<lparr>sd_options = o1, sd_outbox = outbox, sd_privateKey = privateKey, sd_lastRenewalCheck = 0\<rparr>)))))"

section \<open>Certificate renewal\<close>

definition renewal_options :: "SenderOptions \<Rightarrow> RenewalOptions" where
  "renewal_options o1 = \<lparr>rn_Endpoint = so_RenewalEndpoint o1, rn_AgentID = so_AgentID o1, rn_TenantID = so_TenantID o1,
     rn_CertFile = so_CertFile o1, rn_KeyFile = so_KeyFile o1, rn_CAFile = so_CAFile o1, rn_ServerName = so_ServerName o1,
     rn_Timeout = so_Timeout o1\<rparr>"

definition maybeRenewCertificate ::
  "crypto \<Rightarrow> pki \<Rightarrow> http_reply \<Rightarrow> Sender \<Rightarrow> world \<Rightarrow> (send_error, bool \<times> gtime) result \<times> Sender \<times> world" where
  "maybeRenewCertificate C K reply s w =
     (if \<not> so_AutoRenew (sd_options s) then (Inr (False, 0), s, w)
      else let (now, w1) = time_Now w
           in if \<not> IsZero (sd_lastRenewalCheck s) \<and> time_sub now (sd_lastRenewalCheck s) < so_RenewCheckInterval (sd_options s)
              then (Inr (False, 0), s, w1)
              else case CertificateExpiry K (so_CertFile (sd_options s)) w1 of
                     (Inl e, w2) \<Rightarrow> (Inl (SErrExpiry e), s, w2)
                   | (Inr expiresAt, w2) \<Rightarrow>
                       (let (now2, w3) = time_Now w2; remaining = time_sub expiresAt now2
                        in if remaining \<le> 0 then (Inl SErrExpired, s, w3)
                           else if remaining > so_RenewBefore (sd_options s)
                           then (Inr (False, expiresAt), s\<lparr>sd_lastRenewalCheck := now\<rparr>, w3)
                           else case Renew C K (renewal_options (sd_options s)) reply w3 of
                                  (Inl e, w4) \<Rightarrow> (Inl (SErrRenew e), s, w4)
                                | (Inr response, w4) \<Rightarrow>
                                    (Inr (True, rs_ExpiresAt response), s\<lparr>sd_lastRenewalCheck := now\<rparr>, w4)))"

section \<open>Flushing\<close>

definition permanentPayloadFailure :: "nat \<Rightarrow> bool" where
  "permanentPayloadFailure status = (status \<in> {400, 413, 422})"

definition accepted :: "nat \<Rightarrow> bool" where "accepted status = (status \<ge> 200 \<and> status < 300)"

definition next_wire :: "flush_env \<Rightarrow> wire" where
  "next_wire env = (case fe_wire env of [] \<Rightarrow> NoReply | x # _ \<Rightarrow> x)"

definition mismatch_reason :: "(string \<Rightarrow> string) \<Rightarrow> SenderOptions \<Rightarrow> ControlPlaneEvent \<Rightarrow> string" where
  "mismatch_reason q o1 m = ''queued event identity '' @ q (cp_TenantID m) @ ''/'' @ q (cp_AgentID m)
     @ '' does not match transport identity '' @ q (so_TenantID o1) @ ''/'' @ q (so_AgentID o1)"

definition rejection_reason :: "nat \<Rightarrow> string \<Rightarrow> string" where
  "rejection_reason status body = ''Control Plane rejected event with HTTP '' @ nat_digits status @ '': ''
     @ TrimSpace (LimitRead maxTransportResponseBytes body)"

text \<open>The loop of \<open>Flush\<close>: the result so far, and the error that stopped it.\<close>

fun flush_loop ::
  "send_codec \<Rightarrow> Sender \<Rightarrow> Item list \<Rightarrow> FlushResult \<Rightarrow> flush_env \<Rightarrow> world \<Rightarrow> (FlushResult \<times> send_error option) \<times> flush_env \<times> world" where
  "flush_loop X s [] res env w = ((res, None), env, w)"
| "flush_loop X s (item # items) res env w =
     (if next_wire env = Cancelled then ((res, Some SErrCancelled), env, w)
      else
        let res1 = res\<lparr>fr_Attempted := fr_Attempted res + 1\<rparr>; mapped = MapEvent (it_Event item); o1 = sd_options s;
            dead = (\<lambda>reason env1.
              (case DeadLetter (sd_outbox s) item reason w of
                 (Inl e, w1) \<Rightarrow> ((res1, Some (SErrOutbox e)), env1, w1)
               | (Inr _, w1) \<Rightarrow> flush_loop X s items (res1\<lparr>fr_DeadLetter := fr_DeadLetter res1 + 1\<rparr>) env1 w1))
        in if cp_AgentID mapped \<noteq> so_AgentID o1 \<or> cp_TenantID mapped \<noteq> so_TenantID o1
           then dead (mismatch_reason (sc_quote X) o1 mapped) env
           else case sc_mapped X mapped of
                  Inl err \<Rightarrow> dead (''map event payload: '' @ err) env
                | Inr body \<Rightarrow>
                    (case next_wire env of
                       Reply status responseBody \<Rightarrow>
                         (let env1 = env\<lparr>fe_wire := tl (fe_wire env), fe_sent := fe_sent env @ [(it_Path item, body, status)]\<rparr>
                          in if accepted status
                             then (case Ack item w of
                                     (Inl e, w1) \<Rightarrow> ((res1, Some (SErrOutbox e)), env1, w1)
                                   | (Inr _, w1) \<Rightarrow> flush_loop X s items (res1\<lparr>fr_Sent := fr_Sent res1 + 1\<rparr>) env1 w1)
                             else if permanentPayloadFailure status then dead (rejection_reason status responseBody) env1
                             else ((res1, Some (SErrHTTP status)), env1, w))
                     | _ \<Rightarrow> ((res1, Some SErrSend), env\<lparr>fe_wire := tl (fe_wire env)\<rparr>, w)))"

definition Flush ::
  "crypto \<Rightarrow> pki \<Rightarrow> send_codec \<Rightarrow> http_reply \<Rightarrow> int \<Rightarrow> Sender \<Rightarrow> flush_env \<Rightarrow> world \<Rightarrow>
     (FlushResult \<times> send_error option) \<times> Sender \<times> flush_env \<times> world" where
  "Flush C K X reply limit s env w =
     (let res0 = \<lparr>fr_Sent = 0, fr_DeadLetter = 0, fr_Attempted = 0, fr_CertificateRenewed = False, fr_CertificateExpiresAt = None\<rparr>
      in case maybeRenewCertificate C K reply s w of
           (Inl e, s1, w1) \<Rightarrow> ((res0, Some e), s1, env, w1)
         | (Inr (renewed, expiresAt), s1, w1) \<Rightarrow>
             (let res = res0\<lparr>fr_CertificateRenewed := renewed,
                  fr_CertificateExpiresAt := (if IsZero expiresAt then None else Some expiresAt)\<rparr>
              in case Peek (sc_events X) (sd_outbox s1) limit w1 of
                   ((items, Some e), w2) \<Rightarrow> ((res, Some (SErrOutbox e)), s1, env, w2)
                 | ((items, None), w2) \<Rightarrow>
                     (case flush_loop X s1 items res env w2 of (out, env1, w3) \<Rightarrow> (out, s1, env1, w3))))"

section \<open>The loop works through the queue\<close>

text \<open>What one run posted, and which of the files were accepted.\<close>

definition posted :: "flush_env \<Rightarrow> flush_env \<Rightarrow> (string \<times> string \<times> nat) list" where
  "posted env env' = drop (length (fe_sent env)) (fe_sent env')"

definition accepted_paths :: "(string \<times> string \<times> nat) list \<Rightarrow> string set" where
  "accepted_paths ps = {p. \<exists>b st. (p, b, st) \<in> set ps \<and> accepted st}"

text \<open>What may be said of an item that was posted.\<close>

definition proper_post :: "send_codec \<Rightarrow> Sender \<Rightarrow> Item \<Rightarrow> string \<times> string \<times> nat \<Rightarrow> bool" where
  "proper_post X s item pbs = (case pbs of (p, b, st) \<Rightarrow> p = it_Path item \<and> sc_mapped X (MapEvent (it_Event item)) = Inr b
     \<and> ev_AgentID (it_Event item) = so_AgentID (sd_options s) \<and> ev_TenantID (it_Event item) = so_TenantID (sd_options s))"

text \<open>One turn of the loop: it stops, or it settles the item and goes on.\<close>

lemma flush_loop_turn:
  assumes "flush_loop X s (item # items) res env w = ((res', e), env', w')"
  obtains (stop) "w' = w" "e \<noteq> None" "fr_Sent res' = fr_Sent res" "fe_sent env' = fe_sent env \<or>
      (\<exists>b st. fe_sent env' = fe_sent env @ [(it_Path item, b, st)] \<and> \<not> accepted st \<and> proper_post X s item (it_Path item, b, st))"
  | (dead) reason env1 res1 r w1 where "DeadLetter (sd_outbox s) item reason w = (r, w1)" "fr_Sent res1 = fr_Sent res"
      "fe_sent env1 = fe_sent env \<or>
        (\<exists>b st. fe_sent env1 = fe_sent env @ [(it_Path item, b, st)] \<and> \<not> accepted st \<and> proper_post X s item (it_Path item, b, st))"
      "(\<exists>e1. r = Inl e1 \<and> w' = w1 \<and> env' = env1 \<and> e \<noteq> None \<and> fr_Sent res' = fr_Sent res)
       \<or> (r = Inr () \<and> flush_loop X s items res1 env1 w1 = ((res', e), env', w'))"
  | (sent) b st env1 res1 r w1 where "Ack item w = (r, w1)" "fr_Sent res1 = fr_Sent res + 1" "accepted st"
      "fe_sent env1 = fe_sent env @ [(it_Path item, b, st)]" "proper_post X s item (it_Path item, b, st)"
      "(\<exists>e1. r = Inl e1 \<and> w' = w1 \<and> env' = env1 \<and> e \<noteq> None \<and> fr_Sent res' = fr_Sent res)
       \<or> (r = Inr () \<and> flush_loop X s items res1 env1 w1 = ((res', e), env', w'))"
proof -
  define res1 where "res1 = res\<lparr>fr_Attempted := fr_Attempted res + 1\<rparr>"
  define m where "m = MapEvent (it_Event item)"
  define good where "good = (cp_AgentID m = so_AgentID (sd_options s) \<and> cp_TenantID m = so_TenantID (sd_options s))"
  define D where "D reason env1 = (case DeadLetter (sd_outbox s) item reason w of
       (Inl e, w1) \<Rightarrow> ((res1, Some (SErrOutbox e)), env1, w1)
     | (Inr _, w1) \<Rightarrow> flush_loop X s items (res1\<lparr>fr_DeadLetter := fr_DeadLetter res1 + 1\<rparr>) env1 w1)" for reason env1
  have dd: thesis if run: "D reason env1 = ((res', e), env', w')" and
      env1: "fe_sent env1 = fe_sent env \<or>
        (\<exists>b st. fe_sent env1 = fe_sent env @ [(it_Path item, b, st)] \<and> \<not> accepted st \<and> proper_post X s item (it_Path item, b, st))" for reason env1
  proof -
    obtain r w1 where d: "DeadLetter (sd_outbox s) item reason w = (r, w1)" by (rule prod.exhaust)
    show thesis
    proof (rule dead [OF d _ env1])
      show "fr_Sent (res1\<lparr>fr_DeadLetter := fr_DeadLetter res1 + 1\<rparr>) = fr_Sent res" by (simp add: res1_def)
      show "(\<exists>e1. r = Inl e1 \<and> w' = w1 \<and> env' = env1 \<and> e \<noteq> None \<and> fr_Sent res' = fr_Sent res)
       \<or> (r = Inr () \<and> flush_loop X s items (res1\<lparr>fr_DeadLetter := fr_DeadLetter res1 + 1\<rparr>) env1 w1 = ((res', e), env', w'))"
        using run d by (cases r) (auto simp: D_def res1_def)
    qed
  qed
  have pp: "good \<Longrightarrow> sc_mapped X m = Inr b \<Longrightarrow> proper_post X s item (it_Path item, b, st)" for b st
    by (simp add: good_def m_def proper_post_def)
  note run = assms [unfolded flush_loop.simps Let_def, folded res1_def m_def, folded D_def]
  show thesis
  proof (cases "next_wire env = Cancelled")
    case True
    then show thesis using run by (intro stop) auto
  next
    case live: False
    show thesis
    proof (cases good)
      case False
      then have "D (mismatch_reason (sc_quote X) (sd_options s) m) env = ((res', e), env', w')" using run live by (auto simp: good_def)
      then show thesis by (rule dd) simp
    next
      case good: True
      show thesis
      proof (cases "sc_mapped X m")
        case (Inl err)
        then have "D (''map event payload: '' @ err) env = ((res', e), env', w')" using run live good by (simp add: good_def)
        then show thesis by (rule dd) simp
      next
        case (Inr body)
        show thesis
        proof (cases "next_wire env")
          case (Reply st text1)
          let ?env1 = "env\<lparr>fe_wire := tl (fe_wire env), fe_sent := fe_sent env @ [(it_Path item, body, st)]\<rparr>"
          consider "accepted st" | "\<not> accepted st" "permanentPayloadFailure st" | "\<not> accepted st" "\<not> permanentPayloadFailure st" by blast
          then show thesis
          proof cases
            case 1
            obtain r w1 where a: "Ack item w = (r, w1)" by (rule prod.exhaust)
            show thesis
              by (rule sent [OF a _ 1, of "res1\<lparr>fr_Sent := fr_Sent res1 + 1\<rparr>" ?env1 body])
                (use run live good Inr Reply 1 a pp in \<open>auto simp: good_def res1_def split: sum.splits\<close>)
          next
            case 2
            then have "D (rejection_reason st text1) ?env1 = ((res', e), env', w')" using run live good Inr Reply by (simp add: good_def)
            then show thesis by (rule dd) (use 2 pp [OF good Inr] in simp)
          next
            case 3
            then show thesis using run live good Inr Reply pp [OF good Inr] by (intro stop) (auto simp: good_def res1_def)
          qed
        qed (use run live good Inr in \<open>auto simp: good_def res1_def intro!: stop\<close>)
      qed
    qed
  qed
qed

text \<open>The loop refines the abstract work through a prefix of the items; \<open>ps\<close> is what it posted.\<close>

lemma accepted_paths_simps [simp]:
  "accepted_paths [] = {}" "accepted_paths ((p, b, st) # ps) = (if accepted st then insert p (accepted_paths ps) else accepted_paths ps)"
  by (auto simp: accepted_paths_def)

lemma flush_loop_process:
  assumes "flush_loop X s items res env w = ((res', e), env', w')"
  shows "\<exists>ivs k as e0 ps posts. map fst ivs = take k items \<and> obx.process (sd_outbox s) ivs w = ((as, e0), w')
    \<and> fe_sent env' = fe_sent env @ ps \<and> it_Path ` set as = accepted_paths ps
    \<and> subseq posts items \<and> list_all2 (proper_post X s) posts ps
    \<and> fr_Sent res' \<le> fr_Sent res + length (filter (\<lambda>(_, _, st). accepted st) ps)
    \<and> (e = None \<longrightarrow> take k items = items \<and> e0 = None \<and> fr_Sent res' = fr_Sent res + length (filter (\<lambda>(_, _, st). accepted st) ps))"
  using assms
proof (induction items arbitrary: res env w)
  case Nil
  then show ?case by (intro exI [of _ "[]"] exI [of _ 0] exI [of _ None]) simp
next
  case (Cons item items)
  from Cons.prems show ?case
  proof (cases rule: flush_loop_turn)
    case stop
    obtain ps where ps: "fe_sent env' = fe_sent env @ ps" "accepted_paths ps = {}" "filter (\<lambda>(_, _, st). accepted st) ps = []"
      "subseq (take (length ps) [item]) (item # items)" "list_all2 (proper_post X s) (take (length ps) [item]) ps"
      using stop(4) that [of "[]"] that [of "[(it_Path item, b, st)]" for b st] by auto
    show ?thesis
      by (rule exI [of _ "[]"], rule exI [of _ 0], rule exI [of _ "[]"], rule exI [of _ None], rule exI [of _ ps],
          rule exI [of _ "take (length ps) [item]"]) (use stop ps in simp)
  next
    case (dead reason env1 res1 r w1)
    obtain qs where qs: "fe_sent env1 = fe_sent env @ qs" "accepted_paths qs = {}" "filter (\<lambda>(_, _, st). accepted st) qs = []"
      "list_all2 (proper_post X s) (take (length qs) [item]) qs" "length qs \<le> 1"
      using dead(3) that [of "[]"] that [of "[(it_Path item, b, st)]" for b st] by auto
    from dead(4) show ?thesis
    proof (elim disjE exE conjE)
      fix e1 assume err: "r = Inl e1" "w' = w1" "env' = env1" "e \<noteq> None" "fr_Sent res' = fr_Sent res"
      show ?thesis
        by (rule exI [of _ "[(item, Discard reason)]"], rule exI [of _ 1], rule exI [of _ "[]"], rule exI [of _ "Some e1"],
            rule exI [of _ qs], rule exI [of _ "take (length qs) [item]"])
          (use err qs dead(1) in \<open>auto simp: le_Suc_eq\<close>)
    next
      assume ok: "r = Inr ()" and rest: "flush_loop X s items res1 env1 w1 = ((res', e), env', w')"
      from Cons.IH [OF rest] obtain ivs k as e0 ps posts where ih: "map fst ivs = take k items"
        "obx.process (sd_outbox s) ivs w1 = ((as, e0), w')" "fe_sent env' = fe_sent env1 @ ps" "it_Path ` set as = accepted_paths ps"
        "subseq posts items" "list_all2 (proper_post X s) posts ps"
        "fr_Sent res' \<le> fr_Sent res1 + length (filter (\<lambda>(_, _, st). accepted st) ps)"
        "e = None \<longrightarrow> take k items = items \<and> e0 = None \<and> fr_Sent res' = fr_Sent res1 + length (filter (\<lambda>(_, _, st). accepted st) ps)"
        by blast
      have "accepted_paths (qs @ ps) = accepted_paths ps" using qs(2) by (auto simp: accepted_paths_def)
      moreover have "subseq (take (length qs) [item] @ posts) (item # items)" using ih(5) qs(5) by (auto simp: le_Suc_eq)
      ultimately show ?thesis
        by (intro exI [of _ "(item, Discard reason) # ivs"] exI [of _ "Suc k"] exI [of _ as] exI [of _ e0] exI [of _ "qs @ ps"]
            exI [of _ "take (length qs) [item] @ posts"])
          (use ih qs dead(1,2) ok in \<open>simp add: list_all2_appendI\<close>)
    qed
  next
    case (sent b st env1 res1 r w1)
    from sent(6) show ?thesis
    proof (elim disjE exE conjE)
      fix e1 assume err: "r = Inl e1" "w' = w1" "env' = env1" "e \<noteq> None" "fr_Sent res' = fr_Sent res"
      show ?thesis
        by (intro exI [of _ "[(item, Acknowledge)]"] exI [of _ 1] exI [of _ "[item]"] exI [of _ "Some e1"]
            exI [of _ "[(it_Path item, b, st)]"] exI [of _ "[item]"])
          (use err sent in simp)
    next
      assume ok: "r = Inr ()" and rest: "flush_loop X s items res1 env1 w1 = ((res', e), env', w')"
      from Cons.IH [OF rest] obtain ivs k as e0 ps posts where ih: "map fst ivs = take k items"
        "obx.process (sd_outbox s) ivs w1 = ((as, e0), w')" "fe_sent env' = fe_sent env1 @ ps" "it_Path ` set as = accepted_paths ps"
        "subseq posts items" "list_all2 (proper_post X s) posts ps"
        "fr_Sent res' \<le> fr_Sent res1 + length (filter (\<lambda>(_, _, st). accepted st) ps)"
        "e = None \<longrightarrow> take k items = items \<and> e0 = None \<and> fr_Sent res' = fr_Sent res1 + length (filter (\<lambda>(_, _, st). accepted st) ps)"
        by blast
      show ?thesis
        by (intro exI [of _ "(item, Acknowledge) # ivs"] exI [of _ "Suc k"] exI [of _ "item # as"] exI [of _ e0]
            exI [of _ "(it_Path item, b, st) # ps"] exI [of _ "item # posts"])
          (use ih sent ok in simp)
    qed
  qed
qed

section \<open>Renewal leaves the queue alone\<close>

definition renewal_files :: "SenderOptions \<Rightarrow> string list" where
  "renewal_files o1 = (let pub = filepath_Join [filepath_Dir (so_KeyFile o1), ''policy-signing.pub'']
     in [so_CertFile o1, so_CertFile o1 @ ''.tmp'', so_CAFile o1, so_CAFile o1 @ ''.tmp'', pub, pub @ ''.tmp''])"

text \<open>The certificate files are not in the directories of the outbox.\<close>

definition files_apart :: "Sender \<Rightarrow> bool" where
  "files_apart s = list_all (\<lambda>q. filepath_Dir q \<noteq> filepath_Clean (ob_pendingDir (sd_outbox s))
     \<and> filepath_Dir q \<noteq> filepath_Clean (ob_deadDir (sd_outbox s))) (renewal_files (sd_options s))"

lemma quiet_Renew [io_intros]:
  assumes "p \<notin> set (renewal_files o1)"
  shows "io_quiet p (Renew C K (renewal_options o1) reply)"
  unfolding Renew_def renewal_options_def
  by (intro io_intros) (use assms in \<open>auto simp: renewal_files_def Let_def\<close>)

lemma maybeRenew_quiet:
  assumes run: "maybeRenewCertificate C K reply s w = (r, s', w')" and p: "p \<notin> set (renewal_files (sd_options s))"
  shows "quiet p w w'"
proof -
  obtain now w1 where t: "time_Now w = (now, w1)" by (rule prod.exhaust)
  obtain r2 w2 where ex: "CertificateExpiry K (so_CertFile (sd_options s)) w1 = (r2, w2)" by (rule prod.exhaust)
  obtain now2 w3 where t2: "time_Now w2 = (now2, w3)" by (rule prod.exhaust)
  obtain r4 w4 where rn: "Renew C K (renewal_options (sd_options s)) reply w3 = (r4, w4)" by (rule prod.exhaust)
  have "steps w [] w1" "steps w2 [] w3" using time_Now_eqs [OF t] time_Now_eqs [OF t2] by (simp_all add: steps_def)
  then have q: "quiet p w w1" "quiet p w2 w3" by (simp_all add: quiet_nil)
  have q2: "quiet p w w2" by (rule quiet_trans [OF q(1) io_quietD [OF quiet_CertificateExpiry ex]])
  have q3: "quiet p w w3" by (rule quiet_trans [OF q2 q(2)])
  have q4: "quiet p w w4" by (rule quiet_trans [OF q3 io_quietD [OF quiet_Renew [OF p] rn]])
  show ?thesis
    using run t ex t2 rn q(1) q2 q3 q4
    by (auto simp: maybeRenewCertificate_def Let_def split: if_splits sum.splits)
qed

lemma maybeRenew_sender:
  "maybeRenewCertificate C K reply s w = (r, s', w') \<Longrightarrow> sd_outbox s' = sd_outbox s \<and> sd_options s' = sd_options s"
  by (auto simp: maybeRenewCertificate_def Let_def split: if_splits sum.splits prod.splits)

lemma places_apart:
  assumes "files_apart s" "queue_member (sd_outbox s) p" "x \<in> queue_places (sd_outbox s) p"
  shows "x \<notin> set (renewal_files (sd_options s))"
proof -
  from assms(2) obtain n where n: "wf_outbox (sd_outbox s)" "good_name n" "p = pending_file (sd_outbox s) n"
    "\<And>x. x \<in> queue_places (sd_outbox s) p \<longleftrightarrow> x = p \<or> x \<in> dead_files (sd_outbox s) n" by (rule queue_memberE) blast
  have "filepath_Dir x = filepath_Clean (ob_pendingDir (sd_outbox s)) \<or> filepath_Dir x = filepath_Clean (ob_deadDir (sd_outbox s))"
  proof (cases "x = p")
    case True
    then show ?thesis using n by (simp add: wf_outbox_def good_name_def)
  next
    case False
    then obtain m where m: "m \<in> dead_names n" "x = filepath_Join [ob_deadDir (sd_outbox s), m]"
      using assms(3) n(4) by (auto simp: dead_files_def)
    then have "plain_comp m" using n(2) dead_name_plain by (auto simp: good_name_def)
    then show ?thesis using m(2) n(1) by (simp add: wf_outbox_def)
  qed
  then show ?thesis using assms(1) by (auto simp: files_apart_def list_all_iff)
qed

lemma maybeRenew_ok:
  assumes run: "maybeRenewCertificate C K reply s w = (r, s', w')" and a: "files_apart s" and ok: "queue_ok (sd_outbox s) (files w)"
  shows "queue_ok (sd_outbox s) (files w')"
proof -
  have "\<not> queue_path (sd_outbox s) p \<Longrightarrow> quiet p w w'" for p
    by (rule maybeRenew_quiet [OF run]) (use a in \<open>auto simp: files_apart_def list_all_iff queue_path_def\<close>)
  moreover obtain x where "x \<notin> set (renewal_files (sd_options s))"
    using ex_new_if_finite [OF infinite_UNIV_listI, of "set (renewal_files (sd_options s))"] by blast
  ultimately show ?thesis
    using crash_safe_end [OF queue_ok_quiet [OF ok maybeRenew_quiet [OF run]]] by blast
qed

text \<open>A flush: renewal, peek, and then either an early end or the loop.\<close>

lemma Flush_shape:
  assumes "Flush C K X reply limit s env w = ((res, e), s', env', w')"
  obtains (renewal) e1 where "maybeRenewCertificate C K reply s w = (Inl e1, s', w')" "env' = env" "e = Some e1"
  | (peek) x w1 items e1 where "maybeRenewCertificate C K reply s w = (Inr x, s', w1)"
      "Peek (sc_events X) (sd_outbox s) limit w1 = ((items, Some e1), w')" "env' = env" "e = Some (SErrOutbox e1)"
  | (loop) x w1 items w2 res0 where "maybeRenewCertificate C K reply s w = (Inr x, s', w1)"
      "Peek (sc_events X) (sd_outbox s) limit w1 = ((items, None), w2)" "fr_Sent res0 = 0"
      "flush_loop X s' items res0 env w2 = ((res, e), env', w')"
proof -
  obtain r1 s1 w1 where m: "maybeRenewCertificate C K reply s w = (r1, s1, w1)" by (metis prod.exhaust)
  have o: "sd_outbox s1 = sd_outbox s" using maybeRenew_sender [OF m] by simp
  obtain items e1 w2 where pk: "Peek (sc_events X) (sd_outbox s) limit w1 = ((items, e1), w2)" by (metis prod.exhaust)
  show thesis
  proof (cases r1)
    case (Inl e0)
    then show thesis using assms m by (intro renewal) (auto simp: Flush_def)
  next
    case (Inr x)
    show thesis
    proof (cases e1)
      case (Some e2)
      obtain a b where x: "x = (a, b)" by (rule prod.exhaust)
      show thesis by (rule peek [of x w1 items e2]) (use assms m pk o Inr Some x in \<open>simp_all add: Flush_def Let_def\<close>)
    next
      case None
      obtain a b where x: "x = (a, b)" by (rule prod.exhaust)
      let ?res = "\<lparr>fr_Sent = 0, fr_DeadLetter = 0, fr_Attempted = 0, fr_CertificateRenewed = a,
        fr_CertificateExpiresAt = (if IsZero b then None else Some b)\<rparr>"
      have "flush_loop X s1 items ?res env w2 = ((res, e), env', w')" "s' = s1"
        using assms m pk o Inr None x by (cases "IsZero b"; simp add: Flush_def Let_def split: prod.splits)+
      then show thesis using loop [of x w1 items w2 ?res] m pk Inr None by simp
    qed
  qed
qed

lemma Flush_keeps:
  assumes run: "Flush C K X reply limit s env w = ((res, e), s', env', w')" and a: "files_apart s"
    and ok: "queue_ok (sd_outbox s) (files w)" and p: "queue_member (sd_outbox s) p" "fs_content (files w) p = Some c"
    and na: "p \<notin> accepted_paths (posted env env')"
  shows "crash_safe (\<lambda>u. \<exists>x\<in>queue_places (sd_outbox s) p. fs_content u x = Some c) w w'"
proof -
  let ?R = "\<lambda>u. \<exists>x\<in>queue_places (sd_outbox s) p. fs_content u x = Some c"
  have first: "crash_safe ?R w w1" "fs_content (files w1) p = Some c" "queue_ok (sd_outbox s) (files w1)"
    if m: "maybeRenewCertificate C K reply s w = (r, s1, w1)" for r s1 w1
  proof -
    have q: "quiet x w w1" if "x \<in> queue_places (sd_outbox s) p" for x
      by (rule maybeRenew_quiet [OF m places_apart [OF a p(1) that]])
    show "fs_content (files w1) p = Some c" using quiet_content [OF q [OF obx.own_place]] p(2) by simp
    have "\<exists>x\<in>queue_places (sd_outbox s) p. fs_content (files w) x = Some c" using p(2) obx.own_place by blast
    then show "crash_safe ?R w w1" using obx.stays_quiet q by blast
    show "queue_ok (sd_outbox s) (files w1)" by (rule maybeRenew_ok [OF m a ok])
  qed
  from run show ?thesis
  proof (cases rule: Flush_shape)
    case renewal
    then show ?thesis using first(1) by blast
  next
    case (peek x w1 items e1)
    from obx.peek_keeps [OF first(3) [OF peek(1)] peek(2) p(1) first(2) [OF peek(1)]] first(1) [OF peek(1)]
    show ?thesis by (rule crash_safe_trans [rotated])
  next
    case (loop x w1 items w2 res0)
    have o: "sd_outbox s' = sd_outbox s" using maybeRenew_sender [OF loop(1)] by simp
    from flush_loop_process [OF loop(4)] o obtain ivs k as e0 ps where l: "map fst ivs = take k items"
      "obx.process (sd_outbox s) ivs w2 = ((as, e0), w')" "fe_sent env' = fe_sent env @ ps" "it_Path ` set as = accepted_paths ps"
      by metis
    have "p \<notin> it_Path ` set as" using na l(3,4) by (simp add: posted_def)
    from obx.flush_keeps [OF first(3) [OF loop(1)] loop(2) l(2,1) p(1) first(2) [OF loop(1)] this] first(1) [OF loop(1)]
    show ?thesis by (rule crash_safe_trans [rotated])
  qed
qed

lemma Flush_posts:
  assumes run: "Flush C K X reply limit s env w = ((res, e), s', env', w')" and a: "files_apart s"
    and ok: "queue_ok (sd_outbox s) (files w)"
  shows "\<exists>items. distinct (map it_Path items) \<and> list_all2 (proper_post X s) items (posted env env') \<and> int (length items) \<le> max 0 limit
    \<and> (\<forall>it\<in>set items. \<exists>c. fs_content (files w) (it_Path it) = Some c \<and> ec_unmarshal (sc_events X) c = Inr (it_Event it))
    \<and> fr_Sent res \<le> length (filter (\<lambda>(_, _, st). accepted st) (posted env env'))"
  using run
proof (cases rule: Flush_shape)
  case renewal
  then have "posted env env' = []" "fr_Sent res = 0"
    using run by (auto simp: posted_def Flush_def)
  then show ?thesis by (intro exI [of _ "[]"]) simp
next
  case (peek x w1 items e1)
  then have "posted env env' = []" "fr_Sent res = 0"
    using run maybeRenew_sender [OF peek(1)] by (auto simp: posted_def Flush_def Let_def split: prod.splits)
  then show ?thesis by (intro exI [of _ "[]"]) simp
next
  case (loop x w1 items w2 res0)
  have o: "sd_outbox s' = sd_outbox s" "sd_options s' = sd_options s" using maybeRenew_sender [OF loop(1)] by simp_all
  have pp: "proper_post X s' = proper_post X s" using o by (simp add: proper_post_def fun_eq_iff)
  from flush_loop_process [OF loop(4)] loop(3) obtain ps posts where l: "fe_sent env' = fe_sent env @ ps"
    "subseq posts items" "list_all2 (proper_post X s) posts ps" "fr_Sent res \<le> length (filter (\<lambda>(_, _, st). accepted st) ps)"
    unfolding pp by auto
  have ok1: "queue_ok (sd_outbox s) (files w1)" by (rule maybeRenew_ok [OF loop(1) a ok])
  note pk = Peek_items [OF ok1 loop(2)]
  have d: "distinct (map it_Path posts)" using distinct_subseq [OF subseq_map [OF l(2)] pk(1)] .
  have sub: "set posts \<subseteq> set items" by (rule subseq_set [OF l(2)])
  have len: "int (length posts) \<le> max 0 limit" using list_emb_length [OF l(2)] pk(3) by linarith
  have c: "\<exists>c. fs_content (files w) (it_Path it) = Some c \<and> ec_unmarshal (sc_events X) c = Inr (it_Event it)" if "it \<in> set posts" for it
  proof -
    have m: "queue_member (sd_outbox s) (it_Path it)" "item_of (sc_events X) w1 w2 it" using pk(2) sub that by auto
    have "quiet (it_Path it) w w1" by (rule maybeRenew_quiet [OF loop(1) places_apart [OF a m(1) obx.own_place]])
    then show ?thesis using m(2) quiet_content by (auto simp: item_of_def)
  qed
  show ?thesis using d l len c by (intro exI [of _ posts]) (simp add: posted_def)
qed

section \<open>Draining the queue\<close>

lemma candidates_healthy:
  "healthy w \<Longrightarrow> \<forall>n\<in>set ns. HasSuffix n ''.json'' \<longrightarrow> fs_content (files w) (pending_file ob n) \<noteq> None \<Longrightarrow>
     \<exists>cs. candidates ob ns w = (Inr cs, w)"
  by (induction ns) (auto simp: fs_content_def)

lemma peek_items_healthy:
  assumes "healthy w" "\<forall>c\<in>set cs. \<exists>t ev. fs_content (files w) (cd_path c) = Some t \<and> ec_unmarshal J t = Inr ev"
    "int (length items) + int (length cs) \<le> limit"
  shows "\<exists>new. peek_items J ob limit items cs w = ((items @ new, None), w) \<and> map it_Path new = map cd_path cs"
  using assms(2,3)
proof (induction cs arbitrary: items)
  case (Cons c cs)
  then obtain t ev where t: "fs_content (files w) (cd_path c) = Some t" "ec_unmarshal J t = Inr ev" by auto
  let ?it = "\<lparr>it_Path = cd_path c, it_Event = ev, it_Size = cd_size c\<rparr>"
  have rd: "os_ReadFile (cd_path c) w = (Inr t, w)" using assms(1) t(1) by (auto simp: fs_content_def)
  have lim: "int (length (items @ [?it])) + int (length cs) \<le> limit" using Cons.prems(2) by simp
  from Cons.IH [OF _ lim] Cons.prems(1) obtain new where
    "peek_items J ob limit (items @ [?it]) cs w = (((items @ [?it]) @ new, None), w)" "map it_Path new = map cd_path cs" by auto
  then show ?case using rd t(2) Cons.prems(2) by (intro exI [of _ "?it # new"]) simp
qed simp

text \<open>Every answer is an acceptance, and there is one for each item.\<close>

definition all_accepted :: "nat \<Rightarrow> flush_env \<Rightarrow> bool" where
  "all_accepted n env = (n \<le> length (fe_wire env)
     \<and> list_all (\<lambda>x. case x of Reply st _ \<Rightarrow> accepted st | _ \<Rightarrow> False) (take n (fe_wire env)))"

definition sendable :: "send_codec \<Rightarrow> SenderOptions \<Rightarrow> Event \<Rightarrow> bool" where
  "sendable X o1 ev = (ev_AgentID ev = so_AgentID o1 \<and> ev_TenantID ev = so_TenantID o1 \<and> is_ok (sc_mapped X (MapEvent ev)))"

lemma flush_loop_drains:
  assumes "healthy w" "distinct (map it_Path items)" "all_accepted (length items) env"
    "\<forall>it\<in>set items. fs_content (files w) (it_Path it) \<noteq> None \<and> sendable X (sd_options s) (it_Event it)"
  shows "\<exists>res' env' w'. flush_loop X s items res env w = ((res', None), env', w') \<and> fr_Sent res' = fr_Sent res + length items
    \<and> (\<forall>p. fs_content (files w') p = (if p \<in> it_Path ` set items then None else fs_content (files w) p))"
  using assms
proof (induction items arbitrary: w env res)
  case (Cons it items)
  from Cons.prems(3) obtain st body ws where ws: "fe_wire env = Reply st body # ws" "accepted st"
    by (cases "fe_wire env") (auto simp: all_accepted_def split: wire.splits)
  from Cons.prems(4) obtain b where b: "sc_mapped X (MapEvent (it_Event it)) = Inr b" "ev_AgentID (it_Event it) = so_AgentID (sd_options s)"
    "ev_TenantID (it_Event it) = so_TenantID (sd_options s)" by (auto simp: sendable_def is_ok_iff)
  let ?env1 = "env\<lparr>fe_wire := ws, fe_sent := fe_sent env @ [(it_Path it, b, st)]\<rparr>"
  let ?w1 = "emit (EvRemove (it_Path it)) w"
  let ?res1 = "res\<lparr>fr_Attempted := fr_Attempted res + 1, fr_Sent := fr_Sent res + 1\<rparr>"
  have a: "Ack it w = (Inr (), ?w1)" using Cons.prems(1,4) by (auto simp: Ack_def fs_content_def)
  have c1: "fs_content (files ?w1) p = (if p = it_Path it then None else fs_content (files w) p)" for p
    by (simp add: fs_content_def fs_simps)
  have "all_accepted (length items) ?env1" using Cons.prems(3) ws by (simp add: all_accepted_def)
  moreover have "\<forall>i\<in>set items. fs_content (files ?w1) (it_Path i) \<noteq> None \<and> sendable X (sd_options s) (it_Event i)"
    using Cons.prems(2,4) c1 by (auto simp: image_iff)
  ultimately obtain res' env' w' where ih: "flush_loop X s items ?res1 ?env1 ?w1 = ((res', None), env', w')"
    "fr_Sent res' = fr_Sent ?res1 + length items"
    "\<forall>p. fs_content (files w') p = (if p \<in> it_Path ` set items then None else fs_content (files ?w1) p)"
    using Cons.IH [of ?w1 ?env1 ?res1] Cons.prems(1,2) by auto
  have nw: "next_wire env = Reply st body" using ws by (simp add: next_wire_def)
  have "flush_loop X s (it # items) res env w = ((res', None), env', w')"
    using ih(1) a b ws nw by (simp add: Let_def)
  then show ?case using ih(2,3) c1 by auto
qed simp

lemma queue_file_exists:
  "queue_ok ob s \<Longrightarrow> n \<in> set (dir_names (ob_pendingDir ob) s) \<Longrightarrow> fs_content s (pending_file ob n) \<noteq> None"
proof -
  assume ok: "queue_ok ob s" and n: "n \<in> set (dir_names (ob_pendingDir ob) s)"
  then obtain p where p: "p \<in> fst ` set s" "filepath_Dir p = filepath_Clean (ob_pendingDir ob)" "filepath_Base p = n"
    by (auto simp: dir_names_iff)
  then have "p = pending_file ob n" using ok by (auto simp: queue_ok_def queue_path_def list_all_iff)
  then show "fs_content s (pending_file ob n) \<noteq> None" using p(1) by (simp add: fs_content_def fs_get_def map_of_eq_None_iff)
qed

lemma Peek_healthy:
  assumes h: "healthy w" and ok: "queue_ok ob (files w)"
    and dec: "\<And>n t. good_name n \<Longrightarrow> fs_content (files w) (pending_file ob n) = Some t \<Longrightarrow> \<exists>ev. ec_unmarshal J t = Inr ev"
    and lim: "int (length (dir_names (ob_pendingDir ob) (files w))) \<le> limit"
  defines "ns \<equiv> filter (\<lambda>n. HasSuffix n ''.json'') (dir_names (ob_pendingDir ob) (files w))"
  shows "\<exists>items. Peek J ob limit w = ((items, None), w) \<and> it_Path ` set items = pending_file ob ` set ns \<and> length items = length ns"
proof (cases "limit \<le> 0")
  case True
  then have "length (dir_names (ob_pendingDir ob) (files w)) = 0" using lim by linarith
  then show ?thesis using True by (simp add: Peek_def ns_def)
next
  case False
  let ?d = "dir_names (ob_pendingDir ob) (files w)"
  have rd: "os_ReadDir (ob_pendingDir ob) w = (Inr ?d, w)"
    using h by (simp add: os_ReadDir_def healthy_def next_fault_none)
  obtain cs where cs: "candidates ob ?d w = (Inr cs, w)" using candidates_healthy [OF h] queue_file_exists [OF ok] by blast
  let ?cs = "sort_key (\<lambda>c. (cd_modTime c, cd_name c)) cs"
  have n: "map cd_name cs = ns" "\<forall>c\<in>set cs. cd_path c = pending_file ob (cd_name c)"
    using candidates_shape(2) [OF cs refl] by (simp_all add: ns_def)
  have g: "good_name (cd_name c) \<and> cd_name c \<in> set ?d" if "c \<in> set cs" for c
  proof -
    have "cd_name c \<in> set ns" using that n(1) by force
    then show ?thesis using queue_names_good [OF ok] by (auto simp: ns_def)
  qed
  have "\<exists>t ev. fs_content (files w) (cd_path c) = Some t \<and> ec_unmarshal J t = Inr ev" if "c \<in> set ?cs" for c
  proof -
    have c: "c \<in> set cs" using that by simp
    obtain t where t: "fs_content (files w) (cd_path c) = Some t" using queue_file_exists [OF ok] g [OF c] n(2) c by fastforce
    then show ?thesis using dec g [OF c] n(2) c by metis
  qed
  moreover have "int (length []) + int (length ?cs) \<le> limit"
  proof -
    have "length cs = length ns" using n(1) by (metis length_map)
    then show ?thesis using lim by (simp add: ns_def) (meson length_filter_le of_nat_mono order_trans)
  qed
  ultimately obtain items where i: "peek_items J ob limit [] ?cs w = (([] @ items, None), w)" "map it_Path items = map cd_path ?cs"
    using peek_items_healthy [OF h] by blast
  have "Peek J ob limit w = ((items, None), w)" using False rd cs i(1) by (simp add: Peek_def)
  moreover have "it_Path ` set items = pending_file ob ` set ns"
  proof -
    have "it_Path ` set items = cd_path ` set cs" using i(2) by (metis list.set_map set_sort)
    also have "\<dots> = pending_file ob ` cd_name ` set cs" using n(2) by (auto simp: image_iff)
    finally show ?thesis using n(1) by (metis list.set_map)
  qed
  moreover have "length items = length ns" using i(2) n(1) by (metis length_map length_sort)
  ultimately show ?thesis by blast
qed

section \<open>Properties\<close>

text \<open>C17. No queued event is lost: in every state a crash can leave during a flush, whatever calls fail and whatever the
  control plane answers, the content of a queue file is in its place or complete among the dead letters, unless the
  control plane accepted exactly that file.\<close>

theorem Flush_never_loses_events:
  assumes "Flush C K X reply limit s env w = ((res, e), s', env', w')" "files_apart s"
    "queue_ok (sd_outbox s) (files w)" "queue_member (sd_outbox s) p" "fs_content (files w) p = Some c"
    "p \<notin> accepted_paths (posted env env')"
  shows "crash_safe (\<lambda>u. \<exists>x\<in>queue_places (sd_outbox s) p. fs_content u x = Some c) w w'"
  using assms by (rule Flush_keeps)

text \<open>What a flush posts: at most the batch limit, each queue file at most once, only events of the sender's own agent
  and tenant, and each body is the mapped event that was decoded from the file's content; the count of sent events
  never exceeds the acceptances.\<close>

theorem Flush_posts_own_events_once:
  assumes "Flush C K X reply limit s env w = ((res, e), s', env', w')" "files_apart s" "queue_ok (sd_outbox s) (files w)"
  shows "\<exists>items. distinct (map it_Path items) \<and> list_all2 (proper_post X s) items (posted env env') \<and> int (length items) \<le> max 0 limit
    \<and> (\<forall>it\<in>set items. \<exists>c. fs_content (files w) (it_Path it) = Some c \<and> ec_unmarshal (sc_events X) c = Inr (it_Event it))
    \<and> fr_Sent res \<le> length (filter (\<lambda>(_, _, st). accepted st) (posted env env'))"
  using assms by (rule Flush_posts)


text \<open>A failed renewal does not use up the renewal check: the sender is unchanged, so the next flush tries again; a
  check that succeeded is recorded at the time it was made, and nothing else of the sender changes.\<close>

theorem failed_renewal_is_retried:
  "case maybeRenewCertificate C K reply s w of
     (Inl e, s', w') \<Rightarrow> s' = s
   | (Inr (renewed, expiresAt), s', w') \<Rightarrow> sd_options s' = sd_options s \<and> sd_outbox s' = sd_outbox s
       \<and> (sd_lastRenewalCheck s' = sd_lastRenewalCheck s \<or> sd_lastRenewalCheck s' = clock w)"
proof -
  obtain now w1 where t: "time_Now w = (now, w1)" by (rule prod.exhaust)
  have "now = clock w" using time_Now_eqs [OF t] by simp
  then show ?thesis
    using t by (simp add: maybeRenewCertificate_def Let_def split: prod.splits sum.splits if_splits)
qed

text \<open>A sender with one event in the queue.\<close>

definition demo_sender :: Sender where
  "demo_sender = \<lparr>sd_options = \<lparr>so_Endpoint = ''https://c'', so_AgentID = ''a'', so_TenantID = ''t'', so_CertFile = ''/c'',
       so_KeyFile = ''/k/id.key'', so_CAFile = ''/ca'', so_ServerName = [], so_Timeout = Second, so_AutoRenew = False,
       so_RenewalEndpoint = [], so_RenewBefore = Hour, so_RenewCheckInterval = Minute\<rparr>,
     sd_outbox = demo_outbox, sd_privateKey = ''id'', sd_lastRenewalCheck = 0\<rparr>"

definition demo_send_codec :: send_codec where
  "demo_send_codec = \<lparr>sc_events = demo_event_codec, sc_mapped = (\<lambda>m. Inr (cp_EventID m)), sc_quote = (\<lambda>s. s)\<rparr>"

definition queued_world :: world where
  "queued_world = snd (Enqueue toy_crypto demo_event_codec demo_outbox demo_event empty_world)"

definition queued_path :: string where "queued_path = pending_file demo_outbox (eventFilename toy_crypto ''e1'')"

definition reply_env :: "nat \<Rightarrow> flush_env" where "reply_env st = \<lparr>fe_wire = [Reply st ''no''], fe_sent = []\<rparr>"

lemma queued_facts:
  "healthy queued_world" "files_apart demo_sender" "queue_ok demo_outbox (files queued_world)" "queue_member demo_outbox queued_path"
  "fs_content (files queued_world) queued_path = Some (''e1'' @ [newline])"
  "files queued_world = [(queued_path, \<lparr>content = ''e1'' @ [newline], perm = 384, mtime = 62135596800000000000\<rparr>)]"
  by code_simp+

lemma demo_sender_parts: "sd_outbox demo_sender = demo_outbox" "\<not> so_AutoRenew (sd_options demo_sender)"
  by (simp_all add: demo_sender_def)

theorem Flush_never_loses_events_witness:
  "\<exists>res s' env' w'. Flush toy_crypto demo_pki demo_send_codec None 10 demo_sender (reply_env 422) queued_world = ((res, None), s', env', w')
     \<and> (\<exists>x\<in>queue_places demo_outbox queued_path. fs_content (files w') x = Some (''e1'' @ [newline]))"
proof -
  obtain res e s' env' w' where f: "Flush toy_crypto demo_pki demo_send_codec None 10 demo_sender (reply_env 422) queued_world = ((res, e), s', env', w')"
    by (metis prod.exhaust)
  have "(case Flush toy_crypto demo_pki demo_send_codec None 10 demo_sender (reply_env 422) queued_world of
     ((res, e), s', env', w') \<Rightarrow> e = None \<and> list_all (\<lambda>(_, _, st). \<not> accepted st) (posted (reply_env 422) env'))" by code_simp
  then have e: "e = None" "queued_path \<notin> accepted_paths (posted (reply_env 422) env')"
    using f by (auto simp: accepted_paths_def list_all_iff)
  note q = queued_facts [folded demo_sender_parts(1)]
  from crash_safe_end [OF Flush_never_loses_events [OF f q(2,3,4,5) e(2)]] show ?thesis
    using f unfolding e(1) demo_sender_parts by blast
qed

theorem Flush_posts_own_events_once_witness:
  "\<exists>res e s' env' w' items. Flush toy_crypto demo_pki demo_send_codec None 10 demo_sender (reply_env 200) queued_world = ((res, e), s', env', w')
     \<and> list_all2 (proper_post demo_send_codec demo_sender) items (posted (reply_env 200) env')"
proof -
  obtain res e s' env' w' where f: "Flush toy_crypto demo_pki demo_send_codec None 10 demo_sender (reply_env 200) queued_world = ((res, e), s', env', w')"
    by (metis prod.exhaust)
  note q = queued_facts [folded demo_sender_parts(1)]
  from Flush_posts_own_events_once [OF f q(2,3)] show ?thesis using f by blast
qed

lemma queued_names: "dir_names (ob_pendingDir demo_outbox) (files queued_world) = [eventFilename toy_crypto ''e1'']"
  by code_simp


end
