(* ===== verification/Go_Regexp.thy ===== *)
theory Go_Regexp
  imports Go_Strings
begin

text \<open>
  Go's package \<open>regexp\<close> as far as the agent uses it: a search returns the leftmost match and, among
  the matches that start there, the one a backtracking search would find first. \<open>runs\<close> lists the
  ways an expression can match at a position in exactly that order of preference; the searching,
  submatch, find-all and replace-all functions are built on its first element. Expressions work on
  bytes: every class the agent negates contains all bytes of a multi-byte character, so that a class
  under a repetition covers whole characters.
\<close>

section \<open>Expressions\<close>

datatype regex =
    REmpty
  | RChar "char \<Rightarrow> bool"
  | RSeq regex regex
  | RAlt regex regex
  | RStar bool regex
  | RGroup nat regex
  | RBegin
  | REnd
  | RBoundary

text \<open>A position: the byte before it (\<open>None\<close> at the start of the text), the bytes after it, and the
  groups captured on the way.\<close>

record position =
  pos_prev :: "char option"
  pos_rest :: string
  pos_caps :: "(nat \<times> string) list"

definition start_of :: "string \<Rightarrow> position" where
  "start_of s = \<lparr>pos_prev = None, pos_rest = s, pos_caps = []\<rparr>"

definition word_char :: "char \<Rightarrow> bool" where
  "word_char c = ((CHR ''a'' \<le> c \<and> c \<le> CHR ''z'') \<or> (CHR ''A'' \<le> c \<and> c \<le> CHR ''Z'')
     \<or> (CHR ''0'' \<le> c \<and> c \<le> CHR ''9'') \<or> c = CHR ''_'')"

definition at_boundary :: "position \<Rightarrow> bool" where
  "at_boundary p =
     ((case pos_prev p of None \<Rightarrow> False | Some c \<Rightarrow> word_char c)
      \<noteq> (case pos_rest p of [] \<Rightarrow> False | c # _ \<Rightarrow> word_char c))"

definition eat :: "(char \<Rightarrow> bool) \<Rightarrow> position \<Rightarrow> position list" where
  "eat P p = (case pos_rest p of [] \<Rightarrow> []
     | c # cs \<Rightarrow> if P c then [p\<lparr>pos_prev := Some c, pos_rest := cs\<rparr>] else [])"

definition consumed :: "position \<Rightarrow> position \<Rightarrow> string" where
  "consumed p q = take (length (pos_rest p) - length (pos_rest q)) (pos_rest p)"

text \<open>The repetitions of \<open>f\<close>: with \<open>g\<close> more iterations are preferred to fewer. An iteration that
  consumes nothing is not repeated.\<close>

function iterate :: "bool \<Rightarrow> (position \<Rightarrow> position list) \<Rightarrow> position \<Rightarrow> position list" where
  "iterate g f p =
     (let more = concat (map (\<lambda>q. if length (pos_rest q) < length (pos_rest p) then iterate g f q else []) (f p))
      in if g then more @ [p] else p # more)"
  by pat_completeness auto
termination
  by (relation "measure (\<lambda>(g, f, p). length (pos_rest p))") auto

declare iterate.simps [simp del]

primrec runs :: "regex \<Rightarrow> position \<Rightarrow> position list" where
  "runs REmpty = (\<lambda>p. [p])"
| "runs (RChar P) = eat P"
| "runs (RSeq r s) = (\<lambda>p. concat (map (runs s) (runs r p)))"
| "runs (RAlt r s) = (\<lambda>p. runs r p @ runs s p)"
| "runs (RStar g r) = iterate g (runs r)"
| "runs (RGroup n r) = (\<lambda>p. map (\<lambda>q. q\<lparr>pos_caps := (n, consumed p q) # pos_caps q\<rparr>) (runs r p))"
| "runs RBegin = (\<lambda>p. if pos_prev p = None then [p] else [])"
| "runs REnd = (\<lambda>p. if pos_rest p = [] then [p] else [])"
| "runs RBoundary = (\<lambda>p. if at_boundary p then [p] else [])"

section \<open>Derived forms\<close>

definition RPlus :: "regex \<Rightarrow> regex" where "RPlus r = RSeq r (RStar True r)"
definition ROpt :: "regex \<Rightarrow> regex" where "ROpt r = RAlt r REmpty"

fun RSeqs :: "regex list \<Rightarrow> regex" where
  "RSeqs [] = REmpty"
| "RSeqs [r] = r"
| "RSeqs (r # s # rs) = RSeq r (RSeqs (s # rs))"

fun RAlts :: "regex list \<Rightarrow> regex" where
  "RAlts [] = RChar (\<lambda>_. False)"
| "RAlts [r] = r"
| "RAlts (r # s # rs) = RAlt r (RAlts (s # rs))"

fun RTimes :: "nat \<Rightarrow> regex \<Rightarrow> regex" where
  "RTimes 0 r = REmpty"
| "RTimes (Suc n) r = RSeq r (RTimes n r)"

fun RUpTo :: "nat \<Rightarrow> regex \<Rightarrow> regex" where
  "RUpTo 0 r = REmpty"
| "RUpTo (Suc n) r = ROpt (RSeq r (RUpTo n r))"

definition RBetween :: "nat \<Rightarrow> nat \<Rightarrow> regex \<Rightarrow> regex" where
  "RBetween m n r = RSeq (RTimes m r) (RUpTo (n - m) r)"

definition RAtLeast :: "nat \<Rightarrow> regex \<Rightarrow> regex" where
  "RAtLeast m r = RSeq (RTimes m r) (RStar True r)"

definition RByte :: "char \<Rightarrow> regex" where "RByte c = RChar (\<lambda>d. d = c)"

definition RLit :: "string \<Rightarrow> regex" where "RLit s = RSeqs (map RByte s)"

definition ROneOf :: "string \<Rightarrow> regex" where "ROneOf cs = RChar (\<lambda>d. d \<in> set cs)"
definition RNoneOf :: "string \<Rightarrow> regex" where "RNoneOf cs = RChar (\<lambda>d. d \<notin> set cs)"

text \<open>\<open>\s\<close>, \<open>\S\<close>, \<open>\d\<close> and \<open>.\<close>\<close>

definition re_space :: "char \<Rightarrow> bool" where
  "re_space c = (c \<in> {CHR 0x09, CHR 0x0A, CHR 0x0C, CHR 0x0D, CHR 0x20})"

definition re_digit :: "char \<Rightarrow> bool" where "re_digit c = (CHR ''0'' \<le> c \<and> c \<le> CHR ''9'')"

definition RSpace :: regex where "RSpace = RChar re_space"
definition RNotSpace :: regex where "RNotSpace = RChar (\<lambda>c. \<not> re_space c)"
definition RDigit :: regex where "RDigit = RChar re_digit"
definition RDot :: regex where "RDot = RChar (\<lambda>c. c \<noteq> CHR 0x0A)"
definition RSpaces1 :: regex where "RSpaces1 = RPlus RSpace"
definition RSpaces :: regex where "RSpaces = RStar True RSpace"

text \<open>Under the flag \<open>(?i)\<close> a letter matches all characters that fold to it: besides the other case,
  U+017F (the long s) for an s and U+212A (the Kelvin sign) for a k, both encoded in UTF-8.\<close>

definition long_s :: regex where "long_s = RSeq (RByte (CHR 0xC5)) (RByte (CHR 0xBF))"
definition kelvin :: regex where
  "kelvin = RSeq (RByte (CHR 0xE2)) (RSeq (RByte (CHR 0x84)) (RByte (CHR 0xAA)))"

definition RFoldByte :: "char \<Rightarrow> regex" where
  "RFoldByte c =
     (let r = RChar (\<lambda>d. lower_char d = lower_char c)
      in if lower_char c = CHR ''s'' then RAlt r long_s
         else if lower_char c = CHR ''k'' then RAlt r kelvin else r)"

definition RFold :: "string \<Rightarrow> regex" where "RFold s = RSeqs (map RFoldByte s)"

text \<open>A class of letters under \<open>(?i)\<close> that contains both s and k.\<close>

definition RFoldClass :: "(char \<Rightarrow> bool) \<Rightarrow> regex" where
  "RFoldClass P = RAlts [RChar P, long_s, kelvin]"

definition alpha :: "char \<Rightarrow> bool" where
  "alpha c = ((CHR ''a'' \<le> c \<and> c \<le> CHR ''z'') \<or> (CHR ''A'' \<le> c \<and> c \<le> CHR ''Z''))"

definition alnum :: "char \<Rightarrow> bool" where "alnum c = (alpha c \<or> re_digit c)"

section \<open>Searching\<close>

text \<open>A match: the text before it, the matched text, the groups, and the position after it.\<close>

record match =
  mt_before :: string
  mt_text :: string
  mt_end :: position

fun find_from :: "regex \<Rightarrow> char option \<Rightarrow> string \<Rightarrow> match option" where
  "find_from r prev s =
     (let p = \<lparr>pos_prev = prev, pos_rest = s, pos_caps = []\<rparr>
      in case runs r p of
           q # _ \<Rightarrow> Some \<lparr>mt_before = [], mt_text = consumed p q, mt_end = q\<rparr>
         | [] \<Rightarrow> (case s of [] \<Rightarrow> None
                   | c # cs \<Rightarrow> map_option (\<lambda>m. m\<lparr>mt_before := c # mt_before m\<rparr>) (find_from r (Some c) cs)))"

declare find_from.simps [simp del]

definition MatchString :: "regex \<Rightarrow> string \<Rightarrow> bool" where
  "MatchString r s = (find_from r None s \<noteq> None)"

text \<open>Group \<open>n\<close> of a match; a group that took no part is empty.\<close>

definition group :: "nat \<Rightarrow> match \<Rightarrow> string" where
  "group n m = (if n = 0 then mt_text m
     else case map_of (pos_caps (mt_end m)) n of None \<Rightarrow> [] | Some s \<Rightarrow> s)"

definition FindStringSubmatch :: "regex \<Rightarrow> string \<Rightarrow> (nat \<Rightarrow> string) option" where
  "FindStringSubmatch r s = map_option (\<lambda>m n. group n m) (find_from r None s)"

abbreviation at :: "char option \<Rightarrow> string \<Rightarrow> position" where
  "at prev s \<equiv> \<lparr>pos_prev = prev, pos_rest = s, pos_caps = []\<rparr>"

lemma find_from_hit:
  "runs r (at prev s) = q # qs \<Longrightarrow>
     find_from r prev s = Some \<lparr>mt_before = [], mt_text = consumed (at prev s) q, mt_end = q\<rparr>"
  by (subst find_from.simps) (simp add: Let_def)

lemma find_from_miss:
  "runs r (at prev s) = [] \<Longrightarrow>
     find_from r prev s = (case s of [] \<Rightarrow> None
       | c # cs \<Rightarrow> map_option (\<lambda>m. m\<lparr>mt_before := c # mt_before m\<rparr>) (find_from r (Some c) cs))"
  by (subst find_from.simps) (simp add: Let_def)

lemma find_from_shorter:
  "find_from r prev s = Some m \<Longrightarrow> mt_text m \<noteq> [] \<Longrightarrow> length (pos_rest (mt_end m)) < length s"
proof (induction s arbitrary: prev m)
  case Nil
  then show ?case by (cases "runs r (at prev [])") (auto simp: find_from_hit find_from_miss consumed_def)
next
  case (Cons c s)
  show ?case
  proof (cases "runs r (at prev (c # s))")
    case Nil
    then show ?thesis using Cons.prems Cons.IH by (fastforce simp: find_from_miss)
  next
    case (Cons q qs)
    then show ?thesis using Cons.prems by (auto simp: find_from_hit consumed_def)
  qed
qed

text \<open>Replacement templates: literal text and references \<open>${n}\<close>.\<close>

datatype part = Text string | Ref nat

definition expand :: "part list \<Rightarrow> match \<Rightarrow> string" where
  "expand t m = concat (map (\<lambda>x. case x of Text s \<Rightarrow> s | Ref n \<Rightarrow> group n m) t)"

text \<open>\<open>ReplaceAllString\<close> from a position on. \<open>fresh\<close> says that the previous match does not end here, so
  that an empty match may be replaced.\<close>

function replace_from :: "regex \<Rightarrow> part list \<Rightarrow> bool \<Rightarrow> char option \<Rightarrow> string \<Rightarrow> string" where
  "replace_from r t fresh prev s =
     (case find_from r prev s of
        None \<Rightarrow> s
      | Some m \<Rightarrow>
          let q = mt_end m; rest = drop (length (mt_before m)) s
          in if mt_text m \<noteq> []
             then mt_before m @ expand t m @ replace_from r t False (pos_prev q) (pos_rest q)
             else mt_before m @ (if fresh \<or> mt_before m \<noteq> [] then expand t m else [])
                  @ (case rest of [] \<Rightarrow> [] | c # cs \<Rightarrow> c # replace_from r t True (Some c) cs))"
  by pat_completeness auto
termination
proof (relation "measure (\<lambda>(r, t, fresh, prev, s). length s)", goal_cases)
  case 1
  then show ?case by simp
next
  case (2 r t fresh prev s m q rest)
  then show ?case by (auto dest: find_from_shorter)
next
  case (3 r t fresh prev s m q rest c cs)
  then have "length cs < length (drop (length (mt_before m)) s)" by (metis length_Cons lessI)
  then show ?case by simp
qed

declare replace_from.simps [simp del]

definition ReplaceAllString :: "regex \<Rightarrow> part list \<Rightarrow> string \<Rightarrow> string" where
  "ReplaceAllString r t s = replace_from r t True None s"

text \<open>\<open>FindAllString\<close> without a limit.\<close>

function find_all_from :: "regex \<Rightarrow> bool \<Rightarrow> char option \<Rightarrow> string \<Rightarrow> string list" where
  "find_all_from r fresh prev s =
     (case find_from r prev s of
        None \<Rightarrow> []
      | Some m \<Rightarrow>
          let q = mt_end m; rest = drop (length (mt_before m)) s
          in if mt_text m \<noteq> [] then mt_text m # find_all_from r False (pos_prev q) (pos_rest q)
             else (if fresh \<or> mt_before m \<noteq> [] then [[]] else [])
                  @ (case rest of [] \<Rightarrow> [] | c # cs \<Rightarrow> find_all_from r True (Some c) cs))"
  by pat_completeness auto
termination
proof (relation "measure (\<lambda>(r, fresh, prev, s). length s)", goal_cases)
  case 1
  then show ?case by simp
next
  case (2 r fresh prev s m q rest)
  then show ?case by (auto dest: find_from_shorter)
next
  case (3 r fresh prev s m q rest c cs)
  then have "length cs < length (drop (length (mt_before m)) s)" by (metis length_Cons lessI)
  then show ?case by simp
qed

declare find_all_from.simps [simp del]

definition FindAllString :: "regex \<Rightarrow> string \<Rightarrow> string list" where
  "FindAllString r s = find_all_from r True None s"

section \<open>Preferred outcomes\<close>

definition first :: "'a list \<Rightarrow> 'a option" where
  "first xs = (case xs of [] \<Rightarrow> None | x # _ \<Rightarrow> Some x)"

lemma first_simps [simp]: "first [] = None" "first (x # xs) = Some x"
  by (simp_all add: first_def)

lemma first_append: "first (xs @ ys) = (case first xs of None \<Rightarrow> first ys | Some x \<Rightarrow> Some x)"
  by (cases xs) simp_all

lemma first_None: "first xs = None \<longleftrightarrow> xs = []"
  by (cases xs) simp_all

text \<open>The position \<open>n\<close> bytes further on.\<close>

definition adv :: "nat \<Rightarrow> position \<Rightarrow> position" where
  "adv n p = p\<lparr>pos_prev := (if n = 0 then pos_prev p else Some (pos_rest p ! (n - 1))),
               pos_rest := drop n (pos_rest p)\<rparr>"

lemma adv_0 [simp]: "adv 0 p = p"
  by (simp add: adv_def)

lemma adv_sel [simp]:
  "pos_rest (adv n p) = drop n (pos_rest p)" "pos_caps (adv n p) = pos_caps p"
  "pos_prev (adv n p) = (if n = 0 then pos_prev p else Some (pos_rest p ! (n - 1)))"
  by (simp_all add: adv_def)

lemma adv_adv: "n + m \<le> length (pos_rest p) \<Longrightarrow> adv m (adv n p) = adv (n + m) p"
  by (cases n; cases m) (auto simp: adv_def nth_append add.commute)

lemma eat_adv: "eat P p = (case pos_rest p of [] \<Rightarrow> [] | c # cs \<Rightarrow> if P c then [adv 1 p] else [])"
  by (cases "pos_rest p") (simp_all add: eat_def adv_def)

lemma iterate_step:
  assumes "f p = [q]" and "length (pos_rest q) < length (pos_rest p)"
  shows "iterate True f p = iterate True f q @ [p]"
  by (subst iterate.simps) (use assms in \<open>simp add: Let_def\<close>)

lemma iterate_stop: "f p = [] \<Longrightarrow> iterate g f p = [p]"
  by (subst iterate.simps) (simp add: Let_def)

text \<open>A greedy repetition of a class tries the longest run of it first.\<close>

lemma runs_class_star:
  "runs (RStar True (RChar P)) p = map (\<lambda>k. adv k p) (rev [0..<Suc (length (takeWhile P (pos_rest p)))])"
proof (induction "pos_rest p" arbitrary: p)
  case Nil
  from Nil [symmetric] show ?case by (simp add: iterate_stop eat_def)
next
  case (Cons c cs)
  note rest = Cons.hyps(2) [symmetric]
  show ?case
  proof (cases "P c")
    case False
    then show ?thesis by (simp add: iterate_stop eat_def rest)
  next
    case True
    define q where "q = adv 1 p"
    have q: "eat P p = [q]" "pos_rest q = cs" using True rest by (simp_all add: eat_adv q_def)
    have "runs (RStar True (RChar P)) q = map (\<lambda>k. adv k q) (rev [0..<Suc (length (takeWhile P cs))])"
      using Cons.hyps(1) [of q] q(2) by simp
    moreover have "adv k q = adv (Suc k) p" if "k \<le> length (takeWhile P cs)" for k
      using that length_takeWhile_le [of P cs] adv_adv [of 1 k p] rest by (simp add: q_def)
    then have "map (\<lambda>k. adv k q) (rev [0..<Suc (length (takeWhile P cs))])
        = map (\<lambda>k. adv (Suc k) p) (rev [0..<Suc (length (takeWhile P cs))])"
      by (intro map_cong) auto
    moreover have "rev [0..<Suc (Suc n)] = map Suc (rev [0..<Suc n]) @ [0]" for n
      by (metis (no_types) map_Suc_upt rev.simps(2) rev_map upt_conv_Cons zero_less_Suc)
    moreover have "runs (RStar True (RChar P)) p = runs (RStar True (RChar P)) q @ [p]"
      using q rest by (simp add: iterate_step)
    ultimately show ?thesis using True rest by simp
  qed
qed

lemma runs_class_plus:
  "runs (RPlus (RChar P)) p = map (\<lambda>k. adv k p) (rev [1..<Suc (length (takeWhile P (pos_rest p)))])"
proof (cases "pos_rest p")
  case Nil
  then show ?thesis by (simp add: RPlus_def eat_def)
next
  case rest: (Cons c cs)
  show ?thesis
  proof (cases "P c")
    case False
    then show ?thesis using rest by (simp add: RPlus_def eat_def)
  next
    case True
    have step: "adv k (adv 1 p) = adv (Suc k) p" if "k \<le> length (takeWhile P cs)" for k
      using that length_takeWhile_le [of P cs] adv_adv [of 1 k p] rest by simp
    have "runs (RPlus (RChar P)) p = runs (RStar True (RChar P)) (adv 1 p)"
      using True rest by (simp add: RPlus_def eat_adv)
    also have "\<dots> = map (\<lambda>k. adv k (adv 1 p)) (rev [0..<Suc (length (takeWhile P cs))])"
      using rest by (simp add: runs_class_star del: runs.simps)
    also have "\<dots> = map (\<lambda>k. adv (Suc k) p) (rev [0..<Suc (length (takeWhile P cs))])"
      using step by (intro map_cong) auto
    also have "\<dots> = map (\<lambda>k. adv k p) (map Suc (rev [0..<Suc (length (takeWhile P cs))]))" by simp
    also have "map Suc (rev [0..<Suc (length (takeWhile P cs))]) = rev [1..<Suc (Suc (length (takeWhile P cs)))]"
      by (simp only: rev_map [symmetric] map_Suc_upt One_nat_def)
    finally show ?thesis using True rest by simp
  qed
qed

text \<open>When a continuation succeeds on the longest run only, it decides alone.\<close>

lemma concat_longest:
  assumes "\<And>k. m \<le> k \<Longrightarrow> k < n \<Longrightarrow> F k = []" and "m \<le> n"
  shows "concat (map F (rev [m..<Suc n])) = F n"
proof -
  have "concat (map F (rev [m..<n])) = []" using assms(1) by auto
  then show ?thesis using assms(2) by (simp add: upt_Suc_append)
qed

section \<open>Scanners\<close>

text \<open>An expression without groups whose preferred match at a position has a length that can be computed
  directly. Replacing all its matches by a fixed text is then one pass over the input.\<close>

locale scanner =
  fixes r :: regex and len :: "char option \<Rightarrow> string \<Rightarrow> nat option"
  assumes first_run: "first (runs r (at prev s)) = map_option (\<lambda>k. adv k (at prev s)) (len prev s)"
    and len_pos: "len prev s = Some k \<Longrightarrow> 0 < k \<and> k \<le> length s"

fun scan_replace :: "(char option \<Rightarrow> string \<Rightarrow> nat option) \<Rightarrow> string \<Rightarrow> char option \<Rightarrow> string \<Rightarrow> string" where
  "scan_replace len t prev [] = []"
| "scan_replace len t prev (c # cs) =
     (case len prev (c # cs) of
        None \<Rightarrow> c # scan_replace len t (Some c) cs
      | Some k \<Rightarrow> t @ scan_replace len t (Some ((c # cs) ! (k - 1))) (drop (k - 1) cs))"

context scanner
begin

lemma len_Nil: "len prev [] = None"
  using len_pos by (metis le_zero_eq less_numeral_extra(3) list.size(3) not_None_eq)

lemma find_none:
  "len prev s = None \<Longrightarrow> find_from r prev s = (case s of [] \<Rightarrow> None
     | c # cs \<Rightarrow> map_option (\<lambda>m. m\<lparr>mt_before := c # mt_before m\<rparr>) (find_from r (Some c) cs))"
  using first_run [of prev s] by (intro find_from_miss) (simp add: first_None)

lemma find_some:
  assumes "len prev s = Some k"
  shows "find_from r prev s = Some \<lparr>mt_before = [], mt_text = take k s, mt_end = adv k (at prev s)\<rparr>"
proof -
  obtain qs where "runs r (at prev s) = adv k (at prev s) # qs"
    using first_run [of prev s] assms by (cases "runs r (at prev s)") auto
  then show ?thesis using len_pos [OF assms] by (simp add: find_from_hit consumed_def)
qed

lemma find_nonempty: "find_from r prev s = Some m \<Longrightarrow> mt_text m \<noteq> []"
proof (induction s arbitrary: prev m)
  case Nil
  then show ?case using find_none [OF len_Nil, of prev] by simp
next
  case (Cons d ds)
  show ?case
  proof (cases "len prev (d # ds)")
    case None
    then show ?thesis using Cons by (auto simp: find_none)
  next
    case (Some k)
    then show ?thesis using Cons.prems len_pos [OF Some] by (auto simp: find_some)
  qed
qed

lemma replace_unfold:
  "replace_from r [Text t] fresh prev s =
     (case find_from r prev s of None \<Rightarrow> s
      | Some m \<Rightarrow> mt_before m @ t @ replace_from r [Text t] False (pos_prev (mt_end m)) (pos_rest (mt_end m)))"
  using find_nonempty [of prev s]
  by (cases "find_from r prev s") (simp_all add: replace_from.simps [of r _ fresh] Let_def expand_def)

lemma replace_scan: "replace_from r [Text t] fresh prev s = scan_replace len t prev s"
proof (induction s arbitrary: fresh prev rule: length_induct)
  case (1 s)
  show ?case
  proof (cases s)
    case Nil
    then show ?thesis using find_none [OF len_Nil, of prev] by (simp add: replace_unfold)
  next
    case s: (Cons c cs)
    show ?thesis
    proof (cases "len prev s")
      case None
      then have "replace_from r [Text t] fresh prev s = c # replace_from r [Text t] fresh (Some c) cs"
        by (simp add: s find_none replace_unfold [of t _ prev] replace_unfold [of t _ "Some c"] split: option.split)
      then show ?thesis using 1 None s by simp
    next
      case (Some k)
      note k = len_pos [OF Some]
      have "replace_from r [Text t] fresh prev s = t @ replace_from r [Text t] False (Some (s ! (k - 1))) (drop k s)"
        using k by (simp add: replace_unfold [of t _ prev] find_some [OF Some])
      moreover have "length (drop k s) < length s" "drop k s = drop (k - 1) cs" using k s by (cases k; simp)+
      ultimately show ?thesis using 1 Some s by simp
    qed
  qed
qed

lemma ReplaceAllString_scan: "ReplaceAllString r [Text t] s = scan_replace len t None s"
  by (simp add: ReplaceAllString_def replace_scan)

end

text \<open>Evaluation of a search on a literal by simplification.\<close>

lemmas regex_eval = MatchString_def find_from.simps iterate.simps eat_def at_boundary_def word_char_def lower_char_def
  less_eq_char_def re_space_def re_digit_def RFold_def RFoldByte_def Let_def RSpaces1_def RSpaces_def RPlus_def ROpt_def
  RSpace_def RNotSpace_def RDigit_def RDot_def RLit_def RByte_def long_s_def kelvin_def

lemma regexp_examples:
  "ReplaceAllString (RSeq RBoundary (RPlus RDigit)) [Text ''?''] ''a1 22 b'' = ''a1 ? b''"
  "FindAllString (RFold ''sk'') ''SksK s'' = [''Sk'', ''sK'']"
  by (code_simp, code_simp)

end
