(* ===== verification/Normalize.thy ===== *)
theory Normalize
  imports Go_Regexp Go_Crypto "HOL-Library.Sublist"
begin

text \<open>
  Package \<open>internal/normalize\<close>: the normal form of a SQL text, its fingerprint and its verbs, as the
  regular-expression passes of the code; and a scanner that computes the normal form in one reading of
  each pass, proved equal.
\<close>

section \<open>The passes\<close>

definition quoted_by :: "char \<Rightarrow> regex" where
  "quoted_by q = RSeqs [RByte q, RStar True (RAlt (RLit [q, q]) (RNoneOf [q])), RByte q]"

definition singleQuoted :: regex where "singleQuoted = quoted_by (CHR 0x27)"
definition doubleQuoted :: regex where "doubleQuoted = quoted_by (CHR 0x22)"

definition number :: regex where
  "number = RSeqs [RBoundary, RPlus RDigit, ROpt (RSeqs [RByte (CHR ''.''), RPlus RDigit]), RBoundary]"

definition whitespace :: regex where "whitespace = RSpaces1"

definition verbs :: regex where
  "verbs = RSeqs [RBoundary,
     RGroup 1 (RAlts (map RFold [''select'', ''insert'', ''update'', ''delete'', ''merge'', ''create'', ''alter'',
       ''drop'', ''truncate'', ''grant'', ''revoke'', ''execute'', ''exec'', ''call'', ''copy'', ''load'', ''set'',
       ''show'', ''use''])),
     RBoundary]"

definition SQL :: "string \<Rightarrow> string" where
  "SQL query =
     (let out1 = ReplaceAllString singleQuoted [Text ''?''] query;
          out2 = ReplaceAllString doubleQuoted [Text ''?''] out1;
          out3 = ReplaceAllString number [Text ''?''] out2;
          out4 = ToLower (TrimSpace out3)
      in ReplaceAllString whitespace [Text '' ''] out4)"

definition SQLFingerprint :: "crypto \<Rightarrow> string \<Rightarrow> string" where
  "SQLFingerprint C query = sha_hex C (SQL query)"

definition SQLVerbs :: "string \<Rightarrow> string list" where
  "SQLVerbs query = sort (remdups (FindAllString verbs (ToLower query)))"

section \<open>A scanner for each pass\<close>

text \<open>The rest of a literal after its opening quote \<open>q\<close>, up to and including the closing one: a doubled quote
  belongs to the literal unless nothing after it closes the literal.\<close>

fun literal_rest :: "char \<Rightarrow> string \<Rightarrow> nat option" where
  "literal_rest q [] = None"
| "literal_rest q [c] = (if c = q then Some 1 else None)"
| "literal_rest q (c # d # s) =
     (if c \<noteq> q then map_option Suc (literal_rest q (d # s))
      else if d = q then (case literal_rest q s of None \<Rightarrow> Some 1 | Some k \<Rightarrow> Some (k + 2))
      else Some 1)"

definition literal_len :: "char \<Rightarrow> char option \<Rightarrow> string \<Rightarrow> nat option" where
  "literal_len q prev s = (case s of [] \<Rightarrow> None
     | c # cs \<Rightarrow> if c = q then map_option Suc (literal_rest q cs) else None)"

definition starts_word :: "string \<Rightarrow> bool" where
  "starts_word s = (case s of [] \<Rightarrow> False | c # _ \<Rightarrow> word_char c)"

definition after_word :: "char option \<Rightarrow> bool" where
  "after_word prev = (case prev of None \<Rightarrow> False | Some c \<Rightarrow> word_char c)"

text \<open>A number starts where no word precedes it; its fraction counts when no word follows it, and its integer
  part alone when a dot or no word follows that.\<close>

definition number_len :: "char option \<Rightarrow> string \<Rightarrow> nat option" where
  "number_len prev s =
     (let n = length (takeWhile re_digit s); r = drop n s
      in if n = 0 \<or> after_word prev then None
         else case r of
                [] \<Rightarrow> Some n
              | c # r1 \<Rightarrow>
                  let m = length (takeWhile re_digit r1)
                  in if c = CHR ''.'' \<and> m > 0 \<and> \<not> starts_word (drop m r1) then Some (n + 1 + m)
                     else if word_char c then None else Some n)"

definition spaces_len :: "char option \<Rightarrow> string \<Rightarrow> nat option" where
  "spaces_len prev s = (let n = length (takeWhile re_space s) in if n = 0 then None else Some n)"

definition scan_SQL :: "string \<Rightarrow> string" where
  "scan_SQL query =
     (let out1 = scan_replace (literal_len (CHR 0x27)) ''?'' None query;
          out2 = scan_replace (literal_len (CHR 0x22)) ''?'' None out1;
          out3 = scan_replace number_len ''?'' None out2
      in scan_replace spaces_len '' '' None (ToLower (TrimSpace out3)))"

section \<open>The passes are scans\<close>

lemma literal_rest_le: "literal_rest q s = Some k \<Longrightarrow> 0 < k \<and> k \<le> length s"
  by (induction q s arbitrary: k rule: literal_rest.induct) (auto split: if_splits option.splits)

lemma literal_rest_run:
  "first (concat (map (runs (RByte q)) (runs (RStar True (RAlt (RLit [q, q]) (RNoneOf [q]))) p)))
     = map_option (\<lambda>k. adv k p) (literal_rest q (pos_rest p))"
proof (induction q "pos_rest p" arbitrary: p rule: literal_rest.induct)
  case (1 q)
  from 1 [symmetric] show ?case by (simp add: RLit_def RByte_def RNoneOf_def eat_adv iterate_stop)
next
  case (2 q c)
  note rest = 2 [symmetric]
  define f where "f = runs (RAlt (RLit [q, q]) (RNoneOf [q]))"
  show ?case
  proof (cases "c = q")
    case True
    then have "f p = []" using rest by (simp add: f_def RLit_def RByte_def RNoneOf_def eat_adv)
    then show ?thesis using True rest by (simp add: f_def [symmetric] iterate_stop RByte_def eat_adv del: runs.simps(4))
  next
    case False
    then have fp: "f p = [adv 1 p]" using rest by (simp add: f_def RLit_def RByte_def RNoneOf_def eat_adv)
    have "f (adv 1 p) = []" using rest by (simp add: f_def RLit_def RByte_def RNoneOf_def eat_adv)
    then have "iterate True f p = [adv 1 p, p]" using fp rest by (simp add: iterate_step iterate_stop)
    then show ?thesis using False rest by (simp add: f_def [symmetric] RByte_def eat_adv del: runs.simps(4))
  qed
next
  case (3 q c d s)
  note rest = 3(3) [symmetric]
  define f where "f = runs (RAlt (RLit [q, q]) (RNoneOf [q]))"
  define K where "K = runs (RByte q)"
  have K: "K p = (if c = q then [adv 1 p] else [])" using rest by (simp add: K_def RByte_def eat_adv)
  show ?case
  proof (cases "c = q")
    case False
    then have fp: "f p = [adv 1 p]" using rest by (simp add: f_def RLit_def RByte_def RNoneOf_def eat_adv)
    then have "iterate True f p = iterate True f (adv 1 p) @ [p]" using rest by (simp add: iterate_step)
    moreover have "first (concat (map K (iterate True f (adv 1 p)))) = map_option (\<lambda>k. adv k (adv 1 p)) (literal_rest q (d # s))"
      using 3(1) [OF False, of "adv 1 p"] rest by (simp add: f_def K_def del: runs.simps(4))
    moreover have "adv k (adv 1 p) = adv (Suc k) p" if "literal_rest q (d # s) = Some k" for k
      using literal_rest_le [OF that] adv_adv [of 1 k p] rest by simp
    ultimately show ?thesis using False rest K
      by (cases "literal_rest q (d # s)") (simp_all add: f_def [symmetric] K_def [symmetric] first_append del: runs.simps(4))
  next
    case True
    show ?thesis
    proof (cases "d = q")
      case d: True
      have fp: "f p = [adv 2 p]" using True d rest
        by (simp add: f_def RLit_def RByte_def RNoneOf_def eat_adv adv_adv numeral_2_eq_2)
      then have "iterate True f p = iterate True f (adv 2 p) @ [p]" using rest by (simp add: iterate_step)
      moreover have "first (concat (map K (iterate True f (adv 2 p)))) = map_option (\<lambda>k. adv k (adv 2 p)) (literal_rest q s)"
        using 3(2) [of "adv 2 p"] True d rest by (simp add: f_def K_def del: runs.simps(4))
      moreover have "adv k (adv 2 p) = adv (k + 2) p" if "literal_rest q s = Some k" for k
        using literal_rest_le [OF that] adv_adv [of 2 k p] rest by (simp add: add.commute)
      ultimately show ?thesis using True d rest K
        by (cases "literal_rest q s") (simp_all add: f_def [symmetric] K_def [symmetric] first_append del: runs.simps(4))
    next
      case d: False
      then have "f p = []" using True rest by (simp add: f_def RLit_def RByte_def RNoneOf_def eat_adv)
      then show ?thesis using True d rest K
        by (simp add: f_def [symmetric] K_def [symmetric] iterate_stop del: runs.simps(4))
    qed
  qed
qed

interpretation lit: scanner "quoted_by q" "literal_len q" for q
proof
  fix prev s
  show "first (runs (quoted_by q) (at prev s)) = map_option (\<lambda>k. adv k (at prev s)) (literal_len q prev s)"
  proof (cases s)
    case Nil
    then show ?thesis by (simp add: quoted_by_def RByte_def eat_adv literal_len_def)
  next
    case (Cons c cs)
    have "adv k (adv 1 (at prev s)) = adv (Suc k) (at prev s)" if "literal_rest q cs = Some k" for k
      using literal_rest_le [OF that] adv_adv [of 1 k "at prev s"] Cons by simp
    then show ?thesis using Cons literal_rest_run [of q "adv 1 (at prev s)"]
      by (cases "c = q"; cases "literal_rest q cs") (simp_all add: quoted_by_def RByte_def eat_adv literal_len_def)
  qed
next
  fix prev s k
  assume "literal_len q prev s = Some k"
  then show "0 < k \<and> k \<le> length s"
    by (auto simp: literal_len_def dest: literal_rest_le split: list.splits if_splits)
qed

lemma word_digit: "re_digit c \<Longrightarrow> word_char c"
  by (auto simp: re_digit_def word_char_def)

lemma at_boundary_words: "at_boundary p \<longleftrightarrow> after_word (pos_prev p) \<noteq> starts_word (pos_rest p)"
  by (simp add: at_boundary_def after_word_def starts_word_def)

lemma takeWhile_run:
  assumes "k < length (takeWhile P s)"
  shows "P (s ! k)" "drop k s = s ! k # drop (Suc k) s"
proof -
  show "P (s ! k)" using assms by (metis nth_mem set_takeWhileD takeWhile_nth)
  have "k < length s" using assms length_takeWhile_le [of P s] by simp
  then show "drop k s = s ! k # drop (Suc k) s" by (simp add: Cons_nth_drop_Suc)
qed

text \<open>Inside a run of digits there is no boundary, and at its end there is one exactly when no word follows.\<close>

lemma digits_boundary:
  assumes "0 < k" "k \<le> length (takeWhile re_digit (pos_rest p))"
  shows "runs RBoundary (adv k p) =
    (if k < length (takeWhile re_digit (pos_rest p)) \<or> starts_word (drop k (pos_rest p)) then [] else [adv k p])"
proof -
  have "re_digit (pos_rest p ! (k - 1))" using assms takeWhile_run(1) [of "k - 1" re_digit "pos_rest p"] by simp
  then have w: "after_word (pos_prev (adv k p))" using assms by (simp add: after_word_def word_digit)
  have "starts_word (drop k (pos_rest p))" if "k < length (takeWhile re_digit (pos_rest p))"
    using takeWhile_run [OF that] by (simp add: starts_word_def word_digit)
  then show ?thesis using w by (auto simp: at_boundary_words)
qed

lemma digits_bounded:
  assumes "0 < length (takeWhile re_digit (pos_rest p))"
  shows "concat (map (runs RBoundary) (runs (RPlus RDigit) p)) =
    (if starts_word (drop (length (takeWhile re_digit (pos_rest p))) (pos_rest p)) then []
     else [adv (length (takeWhile re_digit (pos_rest p))) p])"
proof -
  define n where "n = length (takeWhile re_digit (pos_rest p))"
  have "concat (map (runs RBoundary) (runs (RPlus RDigit) p)) = concat (map (\<lambda>k. runs RBoundary (adv k p)) (rev [1..<Suc n]))"
    by (simp add: RDigit_def runs_class_plus n_def comp_def del: runs.simps upt_Suc)
  also have "\<dots> = runs RBoundary (adv n p)"
  proof (rule concat_longest)
    fix k assume "1 \<le> k" "k < n"
    then show "runs RBoundary (adv k p) = []" using digits_boundary [of k p] by (simp add: n_def del: runs.simps)
  next
    show "1 \<le> n" using assms by (simp only: n_def)
  qed
  finally show ?thesis using assms digits_boundary [of n p] by (simp add: n_def del: runs.simps)
qed

definition fraction :: regex where "fraction = RSeqs [RByte (CHR ''.''), RPlus RDigit]"

lemma fraction_bounded:
  "concat (map (runs RBoundary) (runs fraction q)) =
     (case pos_rest q of [] \<Rightarrow> []
      | c # r \<Rightarrow> let m = length (takeWhile re_digit r)
                in if c = CHR ''.'' \<and> 0 < m \<and> \<not> starts_word (drop m r) then [adv (Suc m) q] else [])"
proof (cases "pos_rest q")
  case Nil
  then show ?thesis by (simp add: fraction_def RByte_def eat_adv)
next
  case (Cons c r)
  define m where "m = length (takeWhile re_digit r)"
  have dot: "runs fraction q = (if c = CHR ''.'' then runs (RPlus RDigit) (adv 1 q) else [])"
    using Cons by (simp add: fraction_def RByte_def eat_adv)
  have none: "runs (RPlus RDigit) (adv 1 q) = []" if "m = 0"
    using that Cons by (simp add: RDigit_def runs_class_plus m_def)
  have "adv m (adv 1 q) = adv (Suc m) q"
    using adv_adv [of 1 m q] Cons length_takeWhile_le [of re_digit r] by (simp add: m_def)
  then have some: "concat (map (runs RBoundary) (runs (RPlus RDigit) (adv 1 q))) =
      (if starts_word (drop m r) then [] else [adv (Suc m) q])" if "0 < m"
    using that Cons digits_bounded [of "adv 1 q"] by (simp add: m_def del: runs.simps)
  have m: "0 < length (takeWhile re_digit r) \<longleftrightarrow> 0 < m" by (simp add: m_def)
  show ?thesis
  proof (cases "c = CHR ''.'' \<and> 0 < m")
    case True
    then show ?thesis using some by (simp only: Cons dot list.case Let_def m_def [symmetric] if_True simp_thms) simp
  next
    case False
    then have "runs fraction q = []" using none by (auto simp only: dot split: if_split)
    with False show ?thesis by (simp only: Cons list.case Let_def m_def [symmetric]) auto
  qed
qed

lemma number_runs:
  assumes "0 < length (takeWhile re_digit (pos_rest p))"
  shows "runs number p =
    (if after_word (pos_prev p) then []
     else concat (map (runs RBoundary) (runs fraction (adv (length (takeWhile re_digit (pos_rest p))) p)))
          @ runs RBoundary (adv (length (takeWhile re_digit (pos_rest p))) p))"
proof -
  define n where "n = length (takeWhile re_digit (pos_rest p))"
  define R where "R = (\<lambda>q. concat (map (runs RBoundary) (runs fraction q)) @ runs RBoundary q)"
  have word: "starts_word (pos_rest p)"
    using assms by (cases "pos_rest p") (auto simp: starts_word_def word_digit split: if_splits)
  have "runs number p = (if at_boundary p then concat (map R (runs (RPlus RDigit) p)) else [])"
    by (simp add: number_def fraction_def R_def ROpt_def)
  moreover have "concat (map R (runs (RPlus RDigit) p)) = concat (map (\<lambda>k. R (adv k p)) (rev [1..<Suc n]))"
    by (simp add: RDigit_def runs_class_plus n_def comp_def del: runs.simps upt_Suc)
  moreover have "concat (map (\<lambda>k. R (adv k p)) (rev [1..<Suc n])) = R (adv n p)"
  proof (rule concat_longest)
    fix k assume k: "1 \<le> k" "k < n"
    then have "re_digit (pos_rest p ! k)" "drop k (pos_rest p) = pos_rest p ! k # drop (Suc k) (pos_rest p)"
      using takeWhile_run [of k re_digit "pos_rest p"] by (simp_all add: n_def)
    moreover have "\<not> re_digit (CHR ''.'')" by (simp add: re_digit_def)
    ultimately have "concat (map (runs RBoundary) (runs fraction (adv k p))) = []"
      by (auto simp: fraction_bounded Let_def simp del: runs.simps)
    then show "R (adv k p) = []" using k digits_boundary [of k p] by (simp add: R_def n_def del: runs.simps)
  next
    show "1 \<le> n" using assms by (simp only: n_def)
  qed
  ultimately show ?thesis using word by (simp add: at_boundary_words R_def n_def del: runs.simps)
qed

interpretation num: scanner number number_len
proof
  fix prev s
  define p where "p = at prev s"
  define n where "n = length (takeWhile re_digit s)"
  have rest: "pos_rest p = s" "pos_prev p = prev" by (simp_all add: p_def)
  show "first (runs number (at prev s)) = map_option (\<lambda>k. adv k (at prev s)) (number_len prev s)"
  proof (cases "n = 0 \<or> after_word prev")
    case True
    moreover have "runs number p = []" if "n = 0"
      using that rest by (simp add: number_def RDigit_def runs_class_plus n_def [symmetric])
    ultimately show ?thesis using number_runs [of p] rest
      by (cases "n = 0") (simp_all add: number_len_def Let_def n_def [symmetric] p_def [symmetric])
  next
    case False
    then have run: "runs number p = concat (map (runs RBoundary) (runs fraction (adv n p))) @ runs RBoundary (adv n p)"
      using number_runs [of p] rest by (simp add: n_def)
    have end_: "runs RBoundary (adv n p) = (if starts_word (drop n s) then [] else [adv n p])"
      using False digits_boundary [of n p] rest by (simp add: n_def del: runs.simps)
    show ?thesis
    proof (cases "drop n s")
      case Nil
      then show ?thesis using False run end_ rest
        by (simp add: fraction_bounded number_len_def n_def [symmetric] p_def [symmetric] starts_word_def del: runs.simps)
    next
      case (Cons c r)
      define m where "m = length (takeWhile re_digit r)"
      have "n < length s" using Cons by (metis drop_eq_Nil2 list.distinct(1) not_le_imp_less)
      moreover have "length (drop n s) = Suc (length r)" using Cons by simp
      ultimately have "adv (Suc m) (adv n p) = adv (n + 1 + m) p"
        using length_takeWhile_le [of re_digit r] rest by (subst adv_adv) (simp_all add: m_def)
      then show ?thesis using False run end_ rest Cons
        by (auto simp: fraction_bounded number_len_def n_def [symmetric] p_def [symmetric] starts_word_def [of "c # r"]
            m_def [symmetric] Let_def word_char_def simp del: runs.simps)
    qed
  qed
next
  fix prev s k
  assume len: "number_len prev s = Some k"
  define n where "n = length (takeWhile re_digit s)"
  have n: "n \<le> length s" by (simp add: n_def length_takeWhile_le)
  show "0 < k \<and> k \<le> length s"
  proof (cases "drop n s")
    case Nil
    then show ?thesis using len n by (auto simp: number_len_def n_def [symmetric] Let_def split: if_splits)
  next
    case (Cons c r)
    then have "length s - n = Suc (length r)" by (metis length_Cons length_drop)
    moreover have "length (takeWhile re_digit r) \<le> length r" by (rule length_takeWhile_le)
    ultimately show ?thesis using len n Cons
      by (auto simp: number_len_def n_def [symmetric] Let_def split: if_splits)
  qed
qed

interpretation spc: scanner whitespace spaces_len
proof
  fix prev s
  define n where "n = length (takeWhile re_space s)"
  have "runs whitespace (at prev s) = map (\<lambda>k. adv k (at prev s)) (rev [1..<Suc n])"
    by (simp add: whitespace_def RSpaces1_def RSpace_def runs_class_plus n_def del: upt_Suc)
  moreover have "first (map f (rev [1..<Suc n])) = (if n = 0 then None else Some (f n))" for f :: "nat \<Rightarrow> position"
    by (cases n) (simp_all add: upt_Suc_append)
  ultimately show "first (runs whitespace (at prev s)) = map_option (\<lambda>k. adv k (at prev s)) (spaces_len prev s)"
    by (simp add: spaces_len_def n_def [symmetric] Let_def del: upt_Suc)
next
  fix prev s k
  assume "spaces_len prev s = Some k"
  then show "0 < k \<and> k \<le> length s"
    by (auto simp: spaces_len_def Let_def length_takeWhile_le split: if_splits)
qed

lemma SQL_scan: "SQL query = scan_SQL query"
  by (simp add: SQL_def scan_SQL_def singleQuoted_def doubleQuoted_def lit.ReplaceAllString_scan
      num.ReplaceAllString_scan spc.ReplaceAllString_scan)

section \<open>Literals do not reach the fingerprint\<close>

lemma literal_rest_plain:
  "q \<notin> set a \<Longrightarrow> \<not> HasPrefix post [q] \<Longrightarrow> literal_rest q (a @ q # post) = Some (length a + 1)"
proof (induction a)
  case Nil
  then show ?case by (cases post) auto
next
  case (Cons c a)
  then show ?case by (cases "a @ q # post") auto
qed

lemma scan_literal:
  assumes "q \<notin> set pre" "q \<notin> set a" "\<not> HasPrefix post [q]"
  shows "scan_replace (literal_len q) t prev (pre @ q # a @ q # post) = pre @ t @ scan_replace (literal_len q) t (Some q) post"
  using assms
proof (induction pre arbitrary: prev)
  case Nil
  then show ?case by (simp add: literal_len_def literal_rest_plain nth_append)
next
  case (Cons d pre)
  then have "literal_len q prev (d # pre @ q # a @ q # post) = None" by (auto simp: literal_len_def)
  with Cons show ?case by simp
qed

lemma SQL_examples:
  "SQL (''SELECT * FROM t  WHERE id=42 AND n = '' @ [CHR 0x27, CHR ''x'', CHR 0x27] @ '' OR v>1.5'') = ''select * from t where id=? and n = ? or v>?''"
  "SQLVerbs ''Update t set a=1; SELECT selected'' = [''select'', ''set'', ''update'']"
  by (code_simp, code_simp)

section \<open>Properties\<close>

text \<open>C21. The normal form the regular expressions compute is that of the scanner: literals in single and then
  in double quotes (a doubled quote inside belongs to the literal, unless nothing closes the literal after it) and
  then numbers that stand alone become a question mark, the result is trimmed and put in lower case, and every run of
  white space becomes one blank. The scanner reads each pass once, so normalisation takes a bounded number of passes
  whatever the query.\<close>

theorem SQL_equals_scanner: "SQL query = scan_SQL query"
  by (rule SQL_scan)

text \<open>Queries that differ only in the contents of a string literal have the same normal form, and so the same
  fingerprint: the values an application passes do not reach the telemetry through the fingerprint, and one statement
  has one fingerprint. The literal is the first one of the query, and the quote after it is not doubled.\<close>

theorem fingerprint_hides_literal:
  assumes "CHR 0x27 \<notin> set pre" "CHR 0x27 \<notin> set a" "CHR 0x27 \<notin> set b" "\<not> HasPrefix post [CHR 0x27]"
  shows "SQL (pre @ CHR 0x27 # a @ CHR 0x27 # post) = SQL (pre @ CHR 0x27 # b @ CHR 0x27 # post)
    \<and> SQLFingerprint C (pre @ CHR 0x27 # a @ CHR 0x27 # post) = SQLFingerprint C (pre @ CHR 0x27 # b @ CHR 0x27 # post)"
proof -
  have "SQL (pre @ CHR 0x27 # x @ CHR 0x27 # post) = SQL (pre @ CHR 0x27 # y @ CHR 0x27 # post)"
    if "CHR 0x27 \<notin> set x" "CHR 0x27 \<notin> set y" for x y
    by (simp only: SQL_scan scan_SQL_def scan_literal [OF assms(1) that(1) assms(4)] scan_literal [OF assms(1) that(2) assms(4)])
  from this [OF assms(2,3)] show ?thesis by (simp add: SQLFingerprint_def)
qed

lemma fingerprint_hides_literal_witness:
  "SQL (''select * from users where name = '' @ CHR 0x27 # ''alice'' @ CHR 0x27 # '' limit 1'')
     = SQL (''select * from users where name = '' @ CHR 0x27 # ''bob 42'' @ CHR 0x27 # '' limit 1'')"
  using fingerprint_hides_literal [of "''select * from users where name = ''" "''alice''" "''bob 42''" "'' limit 1''" toy_crypto]
  by simp

end
