(* ===== verification/Redact.thy ===== *)
theory Redact
  imports Go_Regexp Model
begin

text \<open>
  Package \<open>internal/redact\<close>: what is removed from an event before it is journalled and sent. Text goes
  through seven regular-expression passes; attribute values are rebuilt with every value under a
  sensitive key replaced, at any depth.
\<close>

section \<open>Text\<close>

definition secret_names :: "regex list" where
  "secret_names =
     [RFold ''password'', RFold ''passwd'', RFold ''pwd'', RFold ''secret'',
      RSeqs [RFold ''api'', ROpt (ROneOf ''_-''), RFold ''key''],
      RSeqs [RFold ''access'', ROpt (ROneOf ''_-''), RFold ''token''],
      RSeqs [RFold ''refresh'', ROpt (ROneOf ''_-''), RFold ''token'']]"

definition key_kinds :: regex where
  "key_kinds = ROpt (RGroup 1 (RAlts [RFold ''RSA '', RFold ''EC '', RFold ''OPENSSH '']))"

definition bearer :: regex where
  "bearer = RSeqs [RBoundary, RGroup 1 (RSeq (RFold ''Bearer'') RSpaces1),
     RAtLeast 12 (RFoldClass (\<lambda>c. alnum c \<or> c \<in> set ''._~+/=-''))]"

definition assignment :: regex where
  "assignment = RSeqs [RBoundary, RGroup 1 (RAlts secret_names), RSpaces, ROneOf '':='', RSpaces,
     RGroup 2 (RPlus (RChar (\<lambda>c. \<not> re_space c \<and> c \<noteq> CHR '','' \<and> c \<noteq> CHR '';'')))]"

definition quoted_word :: "char \<Rightarrow> regex" where
  "quoted_word q = RSeqs [RByte q, RStar True (RNoneOf [q]), RByte q]"

definition command_flag :: regex where
  "command_flag = RSeqs [RGroup 1 (RSeqs [RByte (CHR ''-''), ROpt (RByte (CHR ''-'')), RAlts secret_names, RSpaces1]),
     RAlts [quoted_word (CHR 0x22), quoted_word (CHR 0x27), RPlus RNotSpace]]"

definition uri_password :: regex where
  "uri_password = RSeqs [RBoundary,
     RGroup 1 (RSeqs [RFoldClass alpha, RStar True (RFoldClass (\<lambda>c. alnum c \<or> c \<in> set ''+.-'')),
       RLit ''://'', RPlus (RChar (\<lambda>c. c \<noteq> CHR '':'' \<and> c \<noteq> CHR ''/'' \<and> \<not> re_space c)), RByte (CHR '':'')]),
     RPlus (RChar (\<lambda>c. c \<noteq> CHR ''@'' \<and> \<not> re_space c \<and> c \<noteq> CHR ''/'')), RByte (CHR ''@'')]"

definition aws_char :: "char \<Rightarrow> bool" where
  "aws_char c = (re_digit c \<or> (CHR ''A'' \<le> c \<and> c \<le> CHR ''Z''))"

definition aws_key :: regex where
  "aws_key = RSeqs [RBoundary, RLit ''AKIA'', RTimes 16 (RChar aws_char), RBoundary]"

definition private_key :: regex where
  "private_key = RSeqs [RFold ''-----BEGIN '', key_kinds, RFold ''PRIVATE KEY-----'', RStar False (RChar (\<lambda>_. True)),
     RFold ''-----END '', key_kinds, RFold ''PRIVATE KEY-----'']"

definition payment_number :: regex where
  "payment_number = RSeqs [RBoundary, RBetween 13 19 (RSeq RDigit (RStar False (ROneOf '' -''))), RBoundary]"

definition patterns :: "(regex \<times> part list) list" where
  "patterns =
     [(bearer, [Ref 1, Text ''[REDACTED]'']),
      (assignment, [Ref 1, Text ''=[REDACTED]'']),
      (command_flag, [Ref 1, Text ''[REDACTED]'']),
      (uri_password, [Ref 1, Text ''[REDACTED]@'']),
      (aws_key, [Text ''[REDACTED_AWS_ACCESS_KEY]'']),
      (private_key, [Text ''[REDACTED_PRIVATE_KEY]'']),
      (payment_number, [Text ''[REDACTED_PAYMENT_NUMBER]''])]"

definition String :: "string \<Rightarrow> string" where
  "String value = fold (\<lambda>(re, replacement) out. ReplaceAllString re replacement out) patterns value"

section \<open>Attribute values\<close>

definition isSensitiveKey :: "string \<Rightarrow> bool" where
  "isSensitiveKey key =
     (let lower = ToLower key
      in \<exists>fragment\<in>set [''password'', ''passwd'', ''secret'', ''token'', ''api_key'', ''apikey'', ''private_key'',
           ''connection_string'', ''credential'']. Contains lower fragment)"

text \<open>\<open>normalizeComposite\<close>: a composite value that can be encoded is replaced by its JSON form. The other
  scalars are left alone.\<close>

definition normalizeComposite :: "gval \<Rightarrow> gval option" where
  "normalizeComposite v = (case v of VComposite (Some n) \<Rightarrow> Some n | _ \<Rightarrow> None)"

fun mapValue :: "gval \<Rightarrow> gval" where
  "mapValue VNil = VNil"
| "mapValue (VString s) = VString (String s)"
| "mapValue (VStrings ss) = VStrings (map String ss)"
| "mapValue (VList vs) = VList (map mapValue vs)"
| "mapValue (VMap m) = VMap (map (\<lambda>(key, item). (key, if isSensitiveKey key then VString ''[REDACTED]'' else mapValue item)) m)"
| "mapValue (VComposite (Some n)) = mapValue n"
| "mapValue (VComposite None) = VComposite None"
| "mapValue (VBool b) = VBool b"
| "mapValue (VInt i) = VInt i"
| "mapValue (VFloat f) = VFloat f"
| "mapValue (VNumber s) = VNumber s"

definition redact_map :: "gmap \<Rightarrow> gmap" where
  "redact_map m = map (\<lambda>(key, item). (key, if isSensitiveKey key then VString ''[REDACTED]'' else mapValue item)) m"

text \<open>\<open>Event\<close>; a missing attribute map becomes an empty one.\<close>

definition redact_Event :: "Event \<Rightarrow> Event" where
  "redact_Event event =
     event\<lparr>ev_Message := String (ev_Message event),
           ev_Process := (ev_Process event)\<lparr>proc_CommandLine := String (proc_CommandLine (ev_Process event))\<rparr>,
           ev_HTTP := (ev_HTTP event)\<lparr>http_Query := String (http_Query (ev_HTTP event)),
                                       http_UserAgent := String (http_UserAgent (ev_HTTP event))\<rparr>,
           ev_Attributes := Some (case ev_Attributes event of None \<Rightarrow> [] | Some m \<Rightarrow> redact_map m)\<rparr>"

lemma mapValue_composite: "normalizeComposite v = Some n \<Longrightarrow> mapValue v = mapValue n"
  by (auto simp: normalizeComposite_def split: gval.splits option.splits)

lemma pattern_examples:
  "ReplaceAllString assignment [Ref 1, Text ''=[REDACTED]''] ''pwd=x1'' = ''pwd=[REDACTED]''"
  "ReplaceAllString uri_password [Ref 1, Text ''[REDACTED]@''] ''a://u:p@h'' = ''a://u:[REDACTED]@h''"
  "ReplaceAllString payment_number [Text ''#''] ''4111 1111-11111111'' = ''#''"
  by (code_simp, code_simp, code_simp)

section \<open>What is left of an event\<close>

text \<open>\<open>holds_at v k x\<close>: somewhere in \<open>v\<close> a map has the value \<open>x\<close> under the key \<open>k\<close>. \<open>text_in v s\<close>: the
  text \<open>s\<close> is a string value in \<open>v\<close>.\<close>

inductive holds_at :: "gval \<Rightarrow> string \<Rightarrow> gval \<Rightarrow> bool" where
  entry: "(k, x) \<in> set m \<Longrightarrow> holds_at (VMap m) k x"
| below: "(k', y) \<in> set m \<Longrightarrow> holds_at y k x \<Longrightarrow> holds_at (VMap m) k x"
| element: "y \<in> set vs \<Longrightarrow> holds_at y k x \<Longrightarrow> holds_at (VList vs) k x"
| composite: "holds_at n k x \<Longrightarrow> holds_at (VComposite (Some n)) k x"

inductive text_in :: "gval \<Rightarrow> string \<Rightarrow> bool" where
  text_here: "text_in (VString s) s"
| text_list: "s \<in> set ss \<Longrightarrow> text_in (VStrings ss) s"
| text_entry: "(k, y) \<in> set m \<Longrightarrow> text_in y s \<Longrightarrow> text_in (VMap m) s"
| text_element: "y \<in> set vs \<Longrightarrow> text_in y s \<Longrightarrow> text_in (VList vs) s"
| text_composite: "text_in n s \<Longrightarrow> text_in (VComposite (Some n)) s"

inductive_cases holds_at_scalar [elim!]:
  "holds_at VNil k x" "holds_at (VString s) k x" "holds_at (VStrings ss) k x" "holds_at (VBool b) k x"
  "holds_at (VInt i) k x" "holds_at (VFloat f) k x" "holds_at (VNumber s) k x" "holds_at (VComposite None) k x"
inductive_cases holds_at_list: "holds_at (VList vs) k x"
inductive_cases holds_at_map: "holds_at (VMap m) k x"
inductive_cases text_in_scalar [elim!]:
  "text_in VNil s" "text_in (VString t) s" "text_in (VStrings ss) s" "text_in (VBool b) s" "text_in (VInt i) s"
  "text_in (VFloat f) s" "text_in (VNumber t) s" "text_in (VComposite None) s"
inductive_cases text_in_list: "text_in (VList vs) s"
inductive_cases text_in_map: "text_in (VMap m) s"

lemma mapValue_hides: "holds_at (mapValue v) k x \<Longrightarrow> isSensitiveKey k \<Longrightarrow> x = VString ''[REDACTED]''"
proof (induction v rule: mapValue.induct)
  case (4 vs)
  then show ?case by (auto elim!: holds_at_list)
next
  case (5 m)
  from 5(2) have "holds_at (VMap (map (\<lambda>(key, item). (key, if isSensitiveKey key then VString ''[REDACTED]'' else mapValue item)) m)) k x"
    by simp
  then show ?case
  proof (cases rule: holds_at_map [consumes 1, case_names entry below])
    case entry
    then show ?thesis using 5(3) by auto
  next
    case (below k' y)
    then obtain b where b: "(k', b) \<in> set m" "y = (if isSensitiveKey k' then VString ''[REDACTED]'' else mapValue b)"
      by auto
    show ?thesis
    proof (cases "isSensitiveKey k'")
      case True
      then show ?thesis using b below by auto
    next
      case False
      then show ?thesis using "5.IH" [of "(k', b)" k' b] b below 5(3) by simp
    qed
  qed
qed auto

lemma mapValue_texts: "text_in (mapValue v) t \<Longrightarrow> t = ''[REDACTED]'' \<or> (\<exists>s. text_in v s \<and> t = String s)"
proof (induction v rule: mapValue.induct)
  case (2 s)
  then show ?case by (auto intro: text_here)
next
  case (3 ss)
  then obtain s where "s \<in> set ss" "t = String s" by auto
  then show ?case using text_list by metis
next
  case (4 vs)
  then show ?case by (fastforce elim!: text_in_list intro: text_element)
next
  case (5 m)
  from 5(2) have "text_in (VMap (map (\<lambda>(key, item). (key, if isSensitiveKey key then VString ''[REDACTED]'' else mapValue item)) m)) t"
    by simp
  then obtain k' y where y: "(k', y) \<in> set (map (\<lambda>(key, item). (key, if isSensitiveKey key then VString ''[REDACTED]'' else mapValue item)) m)"
      "text_in y t"
    by (rule text_in_map)
  then obtain b where b: "(k', b) \<in> set m" "y = (if isSensitiveKey k' then VString ''[REDACTED]'' else mapValue b)"
    by auto
  show ?case
  proof (cases "isSensitiveKey k'")
    case True
    then show ?thesis using b y by auto
  next
    case False
    then have "t = ''[REDACTED]'' \<or> (\<exists>s. text_in b s \<and> t = String s)" using "5.IH" [of "(k', b)" k' b] b y by simp
    then show ?thesis using text_entry [OF b(1)] by blast
  qed
next
  case (6 n)
  then show ?case by (auto intro: text_composite)
qed auto

text \<open>The attributes of an event, an empty map when there are none.\<close>

definition attributes_of :: "Event \<Rightarrow> gmap" where
  "attributes_of e = (case ev_Attributes e of None \<Rightarrow> [] | Some m \<Rightarrow> m)"

lemma redacted_attributes: "ev_Attributes (redact_Event e) = Some m \<Longrightarrow> VMap m = mapValue (VMap (attributes_of e))"
  by (auto simp: redact_Event_def attributes_of_def redact_map_def split: option.splits)

section \<open>Property\<close>



end
