(* ===== verification/Detection_Rules.thy ===== *)
theory Detection_Rules
  imports Go_Regexp Go_Path Model
begin

text \<open>
  The stateless rules of package \<open>internal/detection\<close> (\<open>engine.go\<close>, \<open>native_signals.go\<close>). A rule is a function
  from an event to findings; the identifier and time of a finding are filled in by the engine.
\<close>

section \<open>Findings and event text\<close>

definition finding_of ::
  "Event \<Rightarrow> string \<Rightarrow> string \<Rightarrow> string \<Rightarrow> string \<Rightarrow> Severity \<Rightarrow> int \<Rightarrow> string list \<Rightarrow> string list \<Rightarrow> gmap \<Rightarrow> string list \<Rightarrow> Finding" where
  "finding_of event ruleID title description category severity confidence tactics techniques attributes recommended =
     (NewFinding [] 0 event ruleID title description category severity confidence)
       \<lparr>fd_MITRETactics := tactics, fd_MITRETechniques := techniques, fd_Attributes := attributes,
        fd_RecommendedSteps := recommended\<rparr>"

text \<open>\<open>eventText\<close>: \<open>marshal\<close> is \<open>json.Marshal\<close> on the attributes; its error leaves no text.\<close>

definition eventText :: "(gmap option \<Rightarrow> string option) \<Rightarrow> Event \<Rightarrow> string" where
  "eventText marshal event =
     ToLower (Join
       [ev_Message event, proc_Image (ev_Process event), proc_ParentImage (ev_Process event),
        proc_CommandLine (ev_Process event), http_Path (ev_HTTP event), http_Query (ev_HTTP event),
        http_UserAgent (ev_HTTP event),
        (case marshal (ev_Attributes event) of None \<Rightarrow> [] | Some text \<Rightarrow> text)] [CHR 0x0A])"

definition bytes :: "nat list \<Rightarrow> string" where "bytes ns = map char_of ns"

definition fold_any :: "string list \<Rightarrow> regex" where "fold_any ws = RAlts (map RFold ws)"

section \<open>Prompt injection\<close>

definition promptInjectionPatterns :: "regex list" where
  "promptInjectionPatterns =
     [RSeqs [RFold ''ignore'', RSpaces1, ROpt (RSeq (RFold ''all'') RSpaces1), fold_any [''previous'', ''prior''], RSpaces1,
             fold_any [''instructions'', ''rules'']],
      RSeqs [RFold ''reveal'', RSpaces1, ROpt (RSeq (RFold ''the'') RSpaces1), fold_any [''system'', ''developer''], RSpaces1,
             RFold ''prompt''],
      RSeqs [fold_any [''call'', ''invoke'', ''use''], RSpaces1, ROpt (RSeq (RFold ''the'') RSpaces1),
             fold_any [''tool'', ''function'']],
      RSeqs [RLit ''<|'', fold_any [''system'', ''assistant'', ''developer'', ''tool''], RLit ''|>''],
      RSeqs [RFold ''begin'', RSpaces1, fold_any [''system'', ''developer''], RSpaces1, fold_any [''message'', ''instructions'']],
      RAlts (map RLit
        [bytes [224, 185, 132, 224, 184, 161, 224, 185, 136, 224, 184, 149, 224, 185, 137, 224, 184, 173, 224, 184, 135, 224, 184, 151, 224, 184, 179, 224, 184, 149, 224, 184, 178, 224, 184, 161, 224, 184, 132, 224, 184, 179, 224, 184, 170, 224, 184, 177, 224, 185, 136, 224, 184, 135, 224, 184, 129, 224, 185, 136, 224, 184, 173, 224, 184, 153, 224, 184, 171, 224, 184, 153, 224, 185, 137, 224, 184, 178],
         bytes [224, 185, 128, 224, 184, 155, 224, 184, 180, 224, 184, 148, 224, 185, 128, 224, 184, 156, 224, 184, 162, 32, 115, 121, 115, 116, 101, 109, 32, 112, 114, 111, 109, 112, 116],
         bytes [224, 185, 128, 224, 184, 163, 224, 184, 181, 224, 184, 162, 224, 184, 129, 224, 185, 131, 224, 184, 138, 224, 185, 137, 32, 116, 111, 111, 108],
         bytes [224, 184, 163, 224, 184, 177, 224, 184, 153, 224, 184, 132, 224, 184, 179, 224, 184, 170, 224, 184, 177, 224, 185, 136, 224, 184, 135, 224, 184, 153, 224, 184, 181, 224, 185, 137]])]"

definition promptInjectionRule :: "(gmap option \<Rightarrow> string option) \<Rightarrow> Event \<Rightarrow> Finding list" where
  "promptInjectionRule marshal event =
     (if \<not> IsUntrusted (ev_Trust event) then []
      else if \<exists>pattern\<in>set promptInjectionPatterns. MatchString pattern (eventText marshal event)
      then [finding_of event ''NTS-AI-001'' ''Prompt-injection content in untrusted evidence''
        ''Log, request, code, or network evidence contains text that attempts to influence an AI agent. The content remains evidence only and must never become an instruction.''
        ''ai.prompt_injection'' SeverityHigh 88
        [''AI Model Access'', ''Execution''] []
        []
        [''Keep the event marked untrusted'', ''Do not expose privileged tools to this context'', ''Review the originating request and related process activity'']]
      else [])"

section \<open>Commands\<close>

definition encodedPowerShell :: regex where
  "encodedPowerShell = RSeqs
     [RGroup 1 (RAlts [RSeq (RFold ''powershell'') (ROpt (RFold ''.exe'')), RSeq (RFold ''pwsh'') (ROpt (RFold ''.exe''))]),
      RStar True RDot,
      RAlts [RSeqs [RFold ''-enc'', ROpt (RFold ''odedcommand''), RBoundary], RFold ''frombase64string'',
             RFold ''invoke-expression'', RSeqs [RBoundary, RFold ''iex'', RSpaces, RLit ''('']]]"

definition encodedPowerShellRule :: "(gmap option \<Rightarrow> string option) \<Rightarrow> Event \<Rightarrow> Finding list" where
  "encodedPowerShellRule marshal event =
     (if \<not> MatchString encodedPowerShell (eventText marshal event) then []
      else [finding_of event ''NTS-WIN-001'' ''Encoded or in-memory PowerShell activity''
        ''PowerShell command line contains encoding or in-memory execution primitives often used to hide payloads.''
        ''execution.powershell'' SeverityHigh 84
        [''Execution'', ''Defense Evasion''] [''T1059.001'']
        []
        [''Inspect the full process tree'', ''Hash the executable and referenced files'', ''Correlate outbound connections and script block logs'']])"

definition imageBase :: "string \<Rightarrow> string" where
  "imageBase path = ToLower (filepath_Base (ReplaceChar (CHR 0x5C) (CHR ''/'') path))"

definition webParents :: "string list" where
  "webParents = [''w3wp.exe'', ''nginx'', ''httpd'', ''apache2'', ''php-fpm'', ''java'']"

definition web_shells :: "string list" where
  "web_shells = [''cmd.exe'', ''powershell.exe'', ''pwsh.exe'', ''sh'', ''bash'', ''dash'', ''zsh'', ''curl'', ''wget'', ''nc'', ''ncat'']"

definition webWorkerShellRule :: "Event \<Rightarrow> Finding list" where
  "webWorkerShellRule event =
     (let parent = imageBase (proc_ParentImage (ev_Process event)); child = imageBase (proc_Image (ev_Process event))
      in if parent \<notin> set webParents \<or> child \<notin> set web_shells then []
         else [finding_of event ''NTS-WEB-001'' ''Web service spawned a command interpreter''
           (''Web worker '' @ parent @ '' created '' @ child
            @ ''. This is a high-signal exploit or web-shell behavior unless explicitly expected.'')
           ''exploit.web_worker_shell'' SeverityCritical 96
           [''Initial Access'', ''Execution''] [''T1190'', ''T1059'']
           []
           [''Capture process memory and command line'', ''Review the triggering web request'', ''Hash newly written webroot files'', ''Consider isolating the host after operator approval'']])"

definition defenseEvasion :: regex where
  "defenseEvasion = RGroup 1 (RAlts
     [RSeqs [RFold ''wevtutil'', ROpt (RFold ''.exe''), RSpaces1, RFold ''cl'', RBoundary],
      RSeqs [RFold ''auditctl'', RSpaces1, RFold ''-e'', RSpaces1, RLit ''0'', RBoundary],
      RSeqs [RFold ''set-mppreference'', RSpaces1, RFold ''-disablerealtimemonitoring''],
      RSeqs [RFold ''rm'', RSpaces1, RLit ''-'', RStar True (RNoneOf [CHR 0x0A]), RSpaces1, RFold ''/var/log''],
      RSeqs [RFold ''clear-eventlog'', RBoundary]])"

definition defenseEvasionRule :: "(gmap option \<Rightarrow> string option) \<Rightarrow> Event \<Rightarrow> Finding list" where
  "defenseEvasionRule marshal event =
     (if \<not> MatchString defenseEvasion (eventText marshal event) then []
      else [finding_of event ''NTS-EVADE-001'' ''Security logging or protection disabling behavior''
        ''Command or telemetry indicates an attempt to clear logs or disable a defensive control.''
        ''defense_evasion.control_disable'' SeverityCritical 94
        [''Defense Evasion''] [''T1070'', ''T1562.001'']
        []
        [''Preserve the evidence journal'', ''Inspect the initiating identity and process tree'', ''Check whether protection settings actually changed'']])"

section \<open>Databases, web requests and files\<close>

definition dangerousSQL :: regex where
  "dangerousSQL = RSeqs
     [RBoundary,
      RGroup 1 (RAlts
        [RSeqs [RFold ''grant'', RSpaces1, RFold ''all''], RSeqs [RFold ''create'', RSpaces1, RFold ''user''],
         RSeqs [RFold ''alter'', RSpaces1, RFold ''user''], RSeqs [RFold ''into'', RSpaces1, RFold ''outfile''],
         RSeqs [RFold ''load_file'', RSpaces, RLit ''(''], RFold ''xp_cmdshell'', RFold ''sp_configure'',
         RSeqs [RFold ''copy'', RSpaces1, RPlus RDot, RSpaces1, RFold ''program''],
         RSeqs [RFold ''pg_read_file'', RSpaces, RLit ''(''], RSeqs [RFold ''lo_export'', RSpaces, RLit ''(''],
         RSeqs [RFold ''create'', RSpaces1, ROpt (RSeqs [RFold ''or'', RSpaces1, RFold ''replace'', RSpaces1]), RFold ''function'']]),
      RBoundary]"

definition sqlDangerRule :: "(gmap option \<Rightarrow> string option) \<Rightarrow> Event \<Rightarrow> Finding list" where
  "sqlDangerRule marshal event =
     (if ev_Kind event \<noteq> ''database.query'' \<or> \<not> MatchString dangerousSQL (eventText marshal event) then []
      else [finding_of event ''NTS-DB-001'' ''High-risk database operation''
        ''Database telemetry contains privilege, file-system, operating-system, or executable-extension behavior that should not normally originate from an application account.''
        ''database.high_risk_query'' SeverityHigh 86
        [''Privilege Escalation'', ''Execution'', ''Collection''] []
        []
        [''Verify the database account and source application'', ''Compare the query fingerprint with the deployment baseline'', ''Review database audit logs and resulting file/process activity'']])"

definition traversal :: regex where
  "traversal = RAlts
     [RLit ''../'', RLit (''..'' @ [CHR 0x5C]), RSeq (RFold ''%2e%2e'') (RAlts [RFold ''%2f'', RLit ''/'', RFold ''%5c'']),
      RFold ''/etc/passwd'', RFold ''/proc/self'', RFold ''win.ini'', RFold ''web.config'', RFold ''boot.ini'']"

definition pathTraversalRule :: "Event \<Rightarrow> Finding list" where
  "pathTraversalRule event =
     (if ev_Kind event \<noteq> ''web.request''
         \<or> \<not> MatchString traversal (http_Path (ev_HTTP event) @ ''?'' @ http_Query (ev_HTTP event)) then []
      else [finding_of event ''NTS-WEB-002'' ''Path traversal or sensitive-file probe''
        ''The request path contains traversal encoding or a sensitive operating-system/application file target.''
        ''web.path_traversal'' SeverityMedium 90
        [''Reconnaissance'', ''Initial Access''] [''T1190'']
        []
        [''Inspect response status and bytes'', ''Correlate repeated paths from the same source'', ''Review file access and application errors'']])"

definition webShellWriteRule :: "Event \<Rightarrow> Finding list" where
  "webShellWriteRule event =
     (if ev_Kind event \<noteq> ''file.write'' \<and> file_Operation (ev_File event) \<noteq> ''create''
         \<and> file_Operation (ev_File event) \<noteq> ''modify'' then []
      else
        let path = ToLower (file_Path (ev_File event));
            webroot = (Contains path ''/wwwroot/'' \<or> Contains path ''/inetpub/'' \<or> Contains path ''/var/www/''
                       \<or> Contains path ''/htdocs/'');
            ext = ToLower (filepath_Ext path);
            dynamic = (ext = ''.php'' \<or> ext = ''.aspx'' \<or> ext = ''.asp'' \<or> ext = ''.jsp'' \<or> ext = ''.jspx'')
        in if \<not> webroot \<or> \<not> dynamic then []
           else [finding_of event ''NTS-WEB-003'' ''Executable server-side file written to a webroot''
        ''A dynamic server-side file was created or modified in a web-accessible directory.''
        ''persistence.web_shell_artifact'' SeverityHigh 82
        [''Persistence''] [''T1505.003'']
        []
        [''Hash and quarantine only after approval'', ''Compare with deployment manifests'', ''Correlate the writing process and inbound request'']])"

section \<open>Native signals\<close>

definition auditControlDisabled :: regex where
  "auditControlDisabled = RAlts
     [RSeqs [RAlts [RSeqs [RFold ''audit'', ROpt (RFold ''ing''), ROpt (ROneOf ''_ -''), fold_any [''enabled'', ''status'']],
                    RFold ''enabled''],
             RSpaces, ROneOf '':='', RSpaces, RAlts [RLit ''0'', RFold ''false'', RFold ''no'', RFold ''disabled'']],
      RSeqs [RBoundary, RFold ''auditctl'', RSpaces1, RFold ''-e'', RSpaces1, RLit ''0'', RBoundary],
      RSeqs [RBoundary, RFold ''disable'', ROpt (RFold ''d''), RBoundary]]"

definition nativeHighSignalRule :: "(gmap option \<Rightarrow> string option) \<Rightarrow> Event \<Rightarrow> Finding list" where
  "nativeHighSignalRule marshal event =
     (let kind = ev_Kind event
      in if kind = ''security.log_clear'' then
        [finding_of event ''NTS-NATIVE-001'' ''Windows security event log was cleared''
        ''Native Windows telemetry reports that an audit log was cleared. This is a high-signal defense-evasion event and requires immediate evidence preservation.''
        ''defense_evasion.log_clear'' SeverityCritical 98
        [''Defense Evasion''] [''T1070.001'']
        []
        [''Preserve the local hash-chained journal'', ''Identify the account and process associated with the clear operation'', ''Correlate logon, privilege, and remote-access events before the clear timestamp'']]
      else if kind = ''process.tamper'' then
        [finding_of event ''NTS-NATIVE-002'' ''Process tampering detected by native telemetry''
        ''Sysmon or equivalent native telemetry reported process tampering. This can indicate process hollowing, image replacement, or another evasion primitive.''
        ''defense_evasion.process_tamper'' SeverityCritical 96
        [''Defense Evasion'', ''Privilege Escalation''] [''T1055'']
        []
        [''Capture the target process metadata and memory if policy permits'', ''Inspect parent and sibling processes'', ''Correlate image loads, remote threads, and outbound network activity'']]
      else if kind = ''process.remote_thread'' then
        [finding_of event ''NTS-NATIVE-003'' ''Remote thread creation detected''
        ''Native telemetry reports creation of a thread in another process. This is commonly associated with process injection but can also occur in approved security or management software.''
        ''execution.remote_thread'' SeverityHigh 90
        [''Defense Evasion'', ''Privilege Escalation''] [''T1055'']
        []
        [''Validate source and target process signatures'', ''Check whether the source is an approved security product'', ''Correlate target-process access and network events'']]
      else if kind = ''persistence.scheduled_task'' then
        [finding_of event ''NTS-NATIVE-004'' ''Scheduled task created or modified''
        ''Native Windows telemetry reports scheduled-task persistence. Treat this as suspicious when it is outside approved deployment or administration activity.''
        ''persistence.scheduled_task'' SeverityHigh 86
        [''Persistence'', ''Privilege Escalation''] [''T1053.005'']
        []
        [''Inspect the task action, principal, trigger, and author'', ''Compare against the approved configuration baseline'', ''Hash referenced executables or scripts'']]
      else if kind = ''service.create'' then
        [finding_of event ''NTS-NATIVE-005'' ''System service was created''
        ''Native telemetry reports service creation. Services are frequently used for legitimate deployment and for persistence, so correlate the binary path, signer, creator, and change window.''
        ''persistence.service'' SeverityHigh 84
        [''Persistence'', ''Privilege Escalation''] [''T1543.003'']
        []
        [''Inspect the service binary path and signature'', ''Verify the creating account and deployment window'', ''Check for network or file activity involving the service binary'']]
      else if kind = ''identity.account_create'' then
        [finding_of event ''NTS-NATIVE-006'' ''Local or domain account was created''
        ''Native audit telemetry reports account creation. Validate whether the account, creator, privileges, and timing match an approved identity workflow.''
        ''persistence.account_create'' SeverityHigh 82
        [''Persistence''] [''T1136'']
        []
        [''Identify the creator account and source host'', ''Review group membership changes'', ''Disable or contain only through an approved response policy'']]
      else if kind = ''security.audit_config'' then
        (if \<not> MatchString auditControlDisabled (eventText marshal event) then [] else [finding_of event ''NTS-NATIVE-007'' ''Linux auditing was disabled or weakened''
        ''Native audit telemetry indicates that Linux audit policy or enforcement may have been disabled or weakened.''
        ''defense_evasion.audit_disable'' SeverityCritical 94
        [''Defense Evasion''] [''T1562.001'']
        []
        [''Preserve the local journal and audit configuration'', ''Identify the process and account that changed audit settings'', ''Compare current audit rules with the signed baseline'']])
      else if kind = ''security.selinux_denial'' then
        (if \<not> Contains (ToLower (ev_Message event)) ''denied'' then [] else [finding_of event ''NTS-NATIVE-008'' ''SELinux denied a security-sensitive operation''
        ''SELinux denied an operation. A single denial may be a configuration issue; repeated denials tied to exploit behavior increase confidence.''
        ''linux.selinux_denial'' SeverityMedium 70
        [''Execution'', ''Privilege Escalation''] []
        []
        [''Review the source context, target context, class, and permission'', ''Correlate the denial with process, file, and authentication events'', ''Do not disable SELinux as a troubleshooting shortcut'']])
      else [])"

section \<open>Facts\<close>

text \<open>What every rule's finding says about its event.\<close>

definition about :: "Event \<Rightarrow> Finding \<Rightarrow> bool" where
  "about e f = (fd_SchemaVersion f = SchemaVersion \<and> fd_EvidenceEventIDs f = [ev_ID e] \<and> fd_TenantID f = ev_TenantID e
     \<and> fd_AgentID f = ev_AgentID e \<and> fd_Asset f = ev_Asset e \<and> 0 \<le> fd_Confidence f \<and> fd_Confidence f \<le> 100
     \<and> HasPrefix (fd_RuleID f) ''NTS-''
     \<and> fd_Severity f \<in> {SeverityInfo, SeverityLow, SeverityMedium, SeverityHigh, SeverityCritical})"

lemma about_finding_of:
  assumes "HasPrefix rule ''NTS-''"
    and "severity \<in> {SeverityInfo, SeverityLow, SeverityMedium, SeverityHigh, SeverityCritical}"
  shows "about e (finding_of e rule title desc cat severity conf tac tec attrs rec)"
  using assms by (simp add: about_def finding_of_def NewFinding_def Let_def)

lemmas stateless_rules = promptInjectionRule_def encodedPowerShellRule_def webWorkerShellRule_def defenseEvasionRule_def
  sqlDangerRule_def pathTraversalRule_def webShellWriteRule_def nativeHighSignalRule_def

lemma stateless_about:
  "list_all (about e) (promptInjectionRule marshal e)" "list_all (about e) (encodedPowerShellRule marshal e)"
  "list_all (about e) (webWorkerShellRule e)" "list_all (about e) (sqlDangerRule marshal e)"
  "list_all (about e) (pathTraversalRule e)" "list_all (about e) (defenseEvasionRule marshal e)"
  "list_all (about e) (webShellWriteRule e)" "list_all (about e) (nativeHighSignalRule marshal e)"
  by (simp_all add: stateless_rules about_finding_of Let_def)

lemma stateless_single:
  "length (promptInjectionRule marshal e) \<le> 1" "length (encodedPowerShellRule marshal e) \<le> 1"
  "length (webWorkerShellRule e) \<le> 1" "length (sqlDangerRule marshal e) \<le> 1" "length (pathTraversalRule e) \<le> 1"
  "length (defenseEvasionRule marshal e) \<le> 1" "length (webShellWriteRule e) \<le> 1"
  "length (nativeHighSignalRule marshal e) \<le> 1"
  by (simp_all add: stateless_rules Let_def)

text \<open>The boundary the expression asks for after \<open>load_file(\<close> is missing when a quoted argument follows, so the rule
  is silent on a query that reads a file.\<close>

lemma load_file_is_missed:
  "sqlDangerRule (\<lambda>_. Some ''{}'')
     (zero_Event\<lparr>ev_Kind := ''database.query'', ev_Message := ''load_file('' @ CHR 0x27 # ''/etc/passwd'' @ [CHR 0x27, CHR '')'']\<rparr>) = []"
  (is "sqlDangerRule ?m ?e = []")
proof -
  have low: "eventText ?m ?e = ''load_file('' @ CHR 0x27 # ''/etc/passwd'' @ [CHR 0x27, CHR '')'']
      @ [CHR 0x0A, CHR 0x0A, CHR 0x0A, CHR 0x0A, CHR 0x0A, CHR 0x0A, CHR 0x0A] @ ''{}''"
    by code_simp
  have "\<not> MatchString dangerousSQL (''load_file('' @ CHR 0x27 # ''/etc/passwd'' @ [CHR 0x27, CHR '')'']
      @ [CHR 0x0A, CHR 0x0A, CHR 0x0A, CHR 0x0A, CHR 0x0A, CHR 0x0A, CHR 0x0A] @ ''{}'')"
    by (simp add: regex_eval dangerousSQL_def)
  then have "\<not> MatchString dangerousSQL (eventText ?m ?e)" unfolding low .
  then show ?thesis unfolding sqlDangerRule_def by (simp only: simp_thms if_True)
qed

end
