(* ===== verification/Inventory.thy ===== *)
theory Inventory
  imports Model Go_Crypto Go_Net Go_OS "HOL-Library.Product_Lexorder"
begin

text \<open>
  Package \<open>internal/inventory\<close>: the periodic picture of the host (processes, services, listening
  sockets, software). What the operating system reports is the argument \<open>facts\<close>; the model is the
  ordering, capping and hashing the collector applies to it, and the event it is sent as.
\<close>

section \<open>Data\<close>

definition inventory_SchemaVersion :: string where "inventory_SchemaVersion = ''0.1''"

record Options =
  iopt_IncludeProcesses :: bool
  iopt_IncludeServices :: bool
  iopt_IncludeListeners :: bool
  iopt_IncludeSoftware :: bool
  iopt_MaxItems :: int
  iopt_CommandTimeout :: duration

record NetworkInterface =
  nif_Name :: string
  nif_Index :: int
  nif_MAC :: string
  nif_MTU :: int
  nif_Flags :: "string list"
  nif_Addresses :: "string list"
  nif_IsLoopback :: bool
  nif_IsUp :: bool

record Process =
  pr_PID :: int
  pr_PPID :: int
  pr_Name :: string
  pr_Executable :: string
  pr_CommandLine :: string
  pr_User :: string
  pr_RSSBytes :: int

record Service =
  sv_Name :: string
  sv_DisplayName :: string
  sv_State :: string
  sv_SubState :: string
  sv_StartMode :: string
  sv_Description :: string

record Listener =
  li_Protocol :: string
  li_Address :: string
  li_Port :: int
  li_PID :: int
  li_State :: string

record Software =
  so_Name :: string
  so_Version :: string
  so_Publisher :: string
  so_Source :: string

record Snapshot =
  sn_SchemaVersion :: string
  sn_CollectedAt :: gtime
  sn_Hostname :: string
  sn_OS :: string
  sn_OSName :: string
  sn_OSVersion :: string
  sn_KernelVersion :: string
  sn_Architecture :: string
  sn_MachineIDHash :: string
  sn_BootIDHash :: string
  sn_UptimeSeconds :: int
  sn_CPUCount :: int
  sn_GoVersion :: string
  sn_Interfaces :: "NetworkInterface list"
  sn_Processes :: "Process list"
  sn_Services :: "Service list"
  sn_Listeners :: "Listener list"
  sn_Software :: "Software list"
  sn_Warnings :: "string list"
  sn_Truncated :: "(string \<times> bool) list option"

definition empty_Snapshot :: Snapshot where
  "empty_Snapshot =
     \<lparr>sn_SchemaVersion = [], sn_CollectedAt = 0, sn_Hostname = [], sn_OS = [], sn_OSName = [], sn_OSVersion = [],
      sn_KernelVersion = [], sn_Architecture = [], sn_MachineIDHash = [], sn_BootIDHash = [], sn_UptimeSeconds = 0,
      sn_CPUCount = 0, sn_GoVersion = [], sn_Interfaces = [], sn_Processes = [], sn_Services = [], sn_Listeners = [],
      sn_Software = [], sn_Warnings = [], sn_Truncated = None\<rparr>"

record platformSnapshot =
  pf_OSName :: string
  pf_OSVersion :: string
  pf_KernelVersion :: string
  pf_MachineID :: string
  pf_BootID :: string
  pf_UptimeSeconds :: int
  pf_Processes :: "Process list"
  pf_Services :: "Service list"
  pf_Listeners :: "Listener list"
  pf_Software :: "Software list"
  pf_Warnings :: "string list"

text \<open>A network interface as the system reports it: an error reading its addresses does not hide the ones read.\<close>

record raw_interface =
  ri_Name :: string
  ri_Index :: int
  ri_MAC :: string
  ri_MTU :: int
  ri_Flags :: string
  ri_Addresses :: "string list"
  ri_Error :: "string option"
  ri_Loopback :: bool
  ri_Up :: bool

text \<open>What the system answers during one collection. \<open>fc_Platform\<close> is the result of \<open>collectPlatform\<close>: the
  snapshot it gathered, and whether it ended with an error.\<close>

record facts =
  fc_Hostname :: "string option"
  fc_Interfaces :: "string + raw_interface list"
  fc_Platform :: "platformSnapshot \<times> bool"
  fc_Now :: gtime
  fc_GOOS :: string
  fc_GOARCH :: string
  fc_NumCPU :: int
  fc_Version :: string

section \<open>Helpers\<close>

datatype inventory_error = IErrMaxItems | IErrTimeout | IErrPlatform

definition Inventory_New :: "Options \<Rightarrow> (inventory_error, Options) result" where
  "Inventory_New o0 =
     (let o1 = (if iopt_MaxItems o0 = 0 then o0\<lparr>iopt_MaxItems := 512\<rparr> else o0);
          o2 = (if iopt_CommandTimeout o1 = 0 then o1\<lparr>iopt_CommandTimeout := 10 * Second\<rparr> else o1)
      in if iopt_MaxItems o2 < 1 \<or> iopt_MaxItems o2 > 10000 then Inl IErrMaxItems
         else if iopt_CommandTimeout o2 < Second \<or> iopt_CommandTimeout o2 > 2 * Minute then Inl IErrTimeout
         else Inr o2)"

definition capItems :: "'a list \<Rightarrow> int \<Rightarrow> (string \<times> bool) list \<Rightarrow> string \<Rightarrow> 'a list \<times> (string \<times> bool) list" where
  "capItems values maximum truncated key =
     (if int (length values) \<le> maximum then (values, truncated)
      else (take (nat maximum) values, AList.update key True truncated))"

fun unique_from :: "string \<Rightarrow> string list \<Rightarrow> string list" where
  "unique_from prev [] = []"
| "unique_from prev (v # vs) = (if v = [] \<or> v = prev then unique_from prev vs else v # unique_from v vs)"

definition uniqueStrings :: "string list \<Rightarrow> string list" where
  "uniqueStrings vs = unique_from [] vs"

definition hashIdentifier :: "crypto \<Rightarrow> string \<Rightarrow> string \<Rightarrow> string" where
  "hashIdentifier C scope v0 =
     (let v = TrimSpace v0 in if v = [] then [] else sha_hex C (scope @ CHR 0x00 # v))"

text \<open>\<open>sort.Slice\<close> promises only a sorted permutation; ties in the compared fields stay in order here.\<close>

definition sortSnapshot :: "Snapshot \<Rightarrow> Snapshot" where
  "sortSnapshot s =
     s\<lparr>sn_Processes := sort_key (\<lambda>p. (pr_PID p, pr_Name p)) (sn_Processes s),
       sn_Services := sort_key sv_Name (sn_Services s),
       sn_Listeners := sort_key (\<lambda>l. (li_Protocol l, li_Port l, li_Address l, li_PID l)) (sn_Listeners s),
       sn_Software := sort_key (\<lambda>w. (so_Name w, so_Version w)) (sn_Software s),
       sn_Warnings := sort (sn_Warnings s)\<rparr>"

definition interface_of :: "raw_interface \<Rightarrow> NetworkInterface" where
  "interface_of r =
     \<lparr>nif_Name = ri_Name r, nif_Index = ri_Index r, nif_MAC = ri_MAC r, nif_MTU = ri_MTU r,
      nif_Flags = Fields (ReplaceChar (CHR ''|'') (CHR '' '') (ri_Flags r)),
      nif_Addresses = sort (ri_Addresses r), nif_IsLoopback = ri_Loopback r, nif_IsUp = ri_Up r\<rparr>"

definition interface_warning :: "raw_interface \<Rightarrow> string list" where
  "interface_warning r =
     (case ri_Error r of None \<Rightarrow> [] | Some e \<Rightarrow> [''interface '' @ ri_Name r @ '': '' @ e])"

definition collectInterfaces :: "string + raw_interface list \<Rightarrow> NetworkInterface list \<times> string list" where
  "collectInterfaces answer =
     (case answer of
        Inl e \<Rightarrow> ([], [''network interfaces: '' @ e])
      | Inr rs \<Rightarrow> (sort_key (\<lambda>n. (nif_Index n, nif_Name n)) (map interface_of rs), concat (map interface_warning rs)))"

section \<open>Collecting\<close>

text \<open>\<open>Collect\<close>; the flag says whether the platform part ended with an error.\<close>

definition Collect :: "crypto \<Rightarrow> Options \<Rightarrow> facts \<Rightarrow> Snapshot \<times> bool" where
  "Collect C opts F =
     (let hostname = (case fc_Hostname F of None \<Rightarrow> ''unknown'' | Some h \<Rightarrow> h);
          (interfaces, interfaceWarnings) = collectInterfaces (fc_Interfaces F);
          (pf, platformErr) = fc_Platform F;
          snapshot = sortSnapshot
            \<lparr>sn_SchemaVersion = inventory_SchemaVersion, sn_CollectedAt = fc_Now F, sn_Hostname = hostname,
             sn_OS = fc_GOOS F, sn_OSName = pf_OSName pf, sn_OSVersion = pf_OSVersion pf,
             sn_KernelVersion = pf_KernelVersion pf, sn_Architecture = fc_GOARCH F,
             sn_MachineIDHash = hashIdentifier C ''machine'' (pf_MachineID pf),
             sn_BootIDHash = hashIdentifier C ''boot'' (pf_BootID pf), sn_UptimeSeconds = pf_UptimeSeconds pf,
             sn_CPUCount = fc_NumCPU F, sn_GoVersion = fc_Version F, sn_Interfaces = interfaces,
             sn_Processes = pf_Processes pf, sn_Services = pf_Services pf, sn_Listeners = pf_Listeners pf,
             sn_Software = pf_Software pf, sn_Warnings = interfaceWarnings @ pf_Warnings pf, sn_Truncated = Some []\<rparr>;
          n = iopt_MaxItems opts;
          (processes, t1) = capItems (sn_Processes snapshot) n [] ''processes'';
          (services, t2) = capItems (sn_Services snapshot) n t1 ''services'';
          (listeners, t3) = capItems (sn_Listeners snapshot) n t2 ''listeners'';
          (software, t4) = capItems (sn_Software snapshot) n t3 ''software''
      in (snapshot\<lparr>sn_Processes := processes, sn_Services := services, sn_Listeners := listeners,
            sn_Software := software, sn_Truncated := (if t4 = [] then None else Some t4)\<rparr>, platformErr))"

text \<open>\<open>net.ParseCIDR\<close> as far as the collector uses it (the address), and \<open>IP.String\<close>.\<close>

definition ParseCIDR :: "string \<Rightarrow> int list option" where
  "ParseCIDR s =
     (if CHR ''/'' \<notin> set s then None
      else let addr = takeWhile (\<lambda>c. c \<noteq> CHR ''/'') s;
               mask = drop (Suc (length addr)) s;
               bits = (if CHR '':'' \<in> set addr then 128 else 32)
           in case ParseIP addr of
                None \<Rightarrow> None
              | Some ip \<Rightarrow> if mask = [] \<or> \<not> list_all dec_digit mask \<or> dec_value mask > bits then None else Some ip)"

definition hex_group :: "int \<Rightarrow> string" where
  "hex_group v =
     (let ds = [hex_digit (nat (v div 4096) mod 16), hex_digit (nat (v div 256) mod 16),
                hex_digit (nat (v div 16) mod 16), hex_digit (nat v mod 16)];
          t = dropWhile (\<lambda>c. c = CHR ''0'') ds
      in if t = [] then ''0'' else t)"

fun groups16 :: "int list \<Rightarrow> int list" where
  "groups16 (a # b # r) = (a * 256 + b) # groups16 r"
| "groups16 _ = []"

text \<open>The first longest run of at least two zero groups.\<close>

definition zero_run :: "int list \<Rightarrow> nat \<Rightarrow> nat" where
  "zero_run gs i = length (takeWhile (\<lambda>g. g = 0) (drop i gs))"

definition longest_zeros :: "int list \<Rightarrow> nat \<times> nat" where
  "longest_zeros gs =
     fold (\<lambda>i (s, n). if zero_run gs i > n \<and> zero_run gs i \<ge> 2 then (i, zero_run gs i) else (s, n)) [0..<length gs] (0, 0)"

definition IP_String :: "int list \<Rightarrow> string" where
  "IP_String ip =
     (case To4 ip of
        Some b \<Rightarrow> Join (map Itoa b) ''.''
      | None \<Rightarrow>
          (let gs = groups16 ip; (s, n) = longest_zeros gs
           in if n = 0 then Join (map hex_group gs) '':''
              else Join (map hex_group (take s gs)) '':'' @ ''::'' @ Join (map hex_group (drop (s + n) gs)) '':''))"

definition interface_ips :: "NetworkInterface \<Rightarrow> string list" where
  "interface_ips iface =
     (if nif_IsLoopback iface then []
      else concat (map (\<lambda>address.
             case ParseCIDR address of
               Some ip \<Rightarrow> [IP_String ip]
             | None \<Rightarrow> (case ParseIP address of Some ip \<Rightarrow> [IP_String ip] | None \<Rightarrow> [])) (nif_Addresses iface)))"

text \<open>\<open>Event\<close>: \<open>enc\<close> wraps the snapshot as an attribute value; \<open>newid\<close> and \<open>now\<close> are what \<open>Prepare\<close> draws.\<close>

definition inventory_Event ::
  "crypto \<Rightarrow> (Snapshot \<Rightarrow> gval) \<Rightarrow> Options \<Rightarrow> facts \<Rightarrow> string \<Rightarrow> gtime \<Rightarrow> gtime \<Rightarrow> Event \<times> bool" where
  "inventory_Event C enc opts F newid now1 now2 =
     (let (snapshot, err) = Collect C opts F;
          ips = sort (concat (map interface_ips (sn_Interfaces snapshot)))
      in (Event_Prepare newid now1 now2
            (zero_Event\<lparr>ev_Kind := ''asset.inventory'', ev_Severity := SeverityInfo,
               ev_Trust := TrustUntrustedTelemetry,
               ev_Asset := \<lparr>asset_ID = [], asset_Hostname = sn_Hostname snapshot, asset_OS = sn_OS snapshot,
                            asset_IPs = uniqueStrings ips\<rparr>,
               ev_Message := ''periodic host asset inventory'',
               ev_Attributes := Some [(''inventory'', enc snapshot)],
               ev_Provenance := (ev_Provenance zero_Event)\<lparr>prov_Source := ''local-host'',
                                  prov_Collector := ''native-inventory''\<rparr>\<rparr>), err))"

lemma IP_examples:
  "IP_String (replicate 15 0 @ [1]) = ''::1''" "ParseCIDR ''10.0.0.7/33'' = None"
  by (code_simp, code_simp)

section \<open>Facts\<close>

lemma unique_from_set: "set (unique_from p vs) \<union> {p, []} = set vs \<union> {p, []}"
  by (induction p vs rule: unique_from.induct) auto

lemma unique_from_sorted:
  "sorted (p # vs) \<Longrightarrow> sorted_wrt (<) (unique_from p vs) \<and> (\<forall>v\<in>set (unique_from p vs). p < v)"
proof (induction p vs rule: unique_from.induct)
  case (2 p v vs)
  show ?case
  proof (cases "v = [] \<or> v = p")
    case True
    then show ?thesis using 2 by auto
  next
    case False
    then have "p < v" using 2 by auto
    with False 2 show ?thesis by (auto intro: order.strict_trans)
  qed
qed simp

lemma capItems_bound: "0 \<le> m \<Longrightarrow> int (length (fst (capItems vs m t k))) \<le> m"
  by (auto simp: capItems_def)

end
