(* ===== verification/Inventory_Drift.thy ===== *)
theory Inventory_Drift
  imports Inventory Detection_Rules
begin

text \<open>
  \<open>detection/inventory_drift.go\<close> and \<open>engine_inventory.go\<close>: findings from the difference between two
  inventory snapshots. The rule keeps the last snapshot it saw; it can be seeded with a stored one.
\<close>

section \<open>State and keys\<close>

definition maxInventoryDeltaFindings :: nat where "maxInventoryDeltaFindings = 10"

record inventoryDriftRule =
  dr_initialized :: bool
  dr_previous :: Snapshot

definition newInventoryDriftRule :: inventoryDriftRule where
  "newInventoryDriftRule = \<lparr>dr_initialized = False, dr_previous = empty_Snapshot\<rparr>"

definition seed :: "Snapshot \<Rightarrow> inventoryDriftRule \<Rightarrow> inventoryDriftRule" where
  "seed snapshot r = r\<lparr>dr_previous := snapshot, dr_initialized := True\<rparr>"

definition inventoryTruncated :: "Snapshot \<Rightarrow> string \<Rightarrow> bool" where
  "inventoryTruncated snapshot key =
     (case sn_Truncated snapshot of None \<Rightarrow> False | Some t \<Rightarrow> map_of t key = Some True)"

definition serviceKey :: "Service \<Rightarrow> string" where "serviceKey s = ToLower (TrimSpace (sv_Name s))"
definition softwareKey :: "Software \<Rightarrow> string" where "softwareKey s = ToLower (TrimSpace (so_Name s))"

definition normalizeListenerAddress :: "string \<Rightarrow> string" where
  "normalizeListenerAddress address = TrimSuffix (TrimPrefix (ToLower (TrimSpace address)) ''['') '']''"

definition listenerKey :: "Listener \<Rightarrow> string" where
  "listenerKey l = ToLower (TrimSpace (li_Protocol l)) @ ''|'' @ normalizeListenerAddress (li_Address l) @ ''|'' @ Itoa (li_Port l)"

definition processBase :: "Process \<Rightarrow> string" where
  "processBase p =
     (let value = (if TrimSpace (pr_Executable p) = [] then pr_Name p else pr_Executable p)
      in ToLower (filepath_Base (ReplaceChar (CHR 0x5C) (CHR ''/'') value)))"

definition ancestryKey :: "Process \<Rightarrow> Process \<Rightarrow> string" where
  "ancestryKey parent child = Itoa (pr_PID parent) @ ''|'' @ Itoa (pr_PID child) @ ''|'' @ processBase parent @ ''|'' @ processBase child"

definition serviceRunsAutomatically :: "Service \<Rightarrow> bool" where
  "serviceRunsAutomatically s =
     (let mode = ToLower (TrimSpace (sv_StartMode s))
      in mode = ''auto'' \<or> mode = ''automatic'' \<or> mode = ''enabled'' \<or> HasPrefix mode ''auto '')"

definition serviceIsRunning :: "Service \<Rightarrow> bool" where
  "serviceIsRunning s = (let state = ToLower (TrimSpace (sv_State s)) in state = ''running'' \<or> state = ''active'')"

definition listenerExternallyReachable :: "string \<Rightarrow> bool" where
  "listenerExternallyReachable address =
     (let value = normalizeListenerAddress address
      in if value = [] \<or> value = ''*'' \<or> value = ''0.0.0.0'' \<or> value = ''::'' \<or> value = ''0:0:0:0:0:0:0:0'' then True
         else if value = ''localhost'' then False
         else case ParseIP value of None \<Rightarrow> True | Some ip \<Rightarrow> \<not> IsLoopback ip)"

definition sensitiveListenerPort :: "int \<Rightarrow> bool" where
  "sensitiveListenerPort port =
     (port \<in> {22, 23, 445, 1433, 2375, 2376, 3306, 3389, 5432, 5985, 5986, 6379, 9200, 11211, 27017})"

text \<open>A Go map built by inserting the entries in order: the last one for a key stays.\<close>

definition go_map :: "('k \<times> 'v) list \<Rightarrow> ('k \<times> 'v) list" where
  "go_map entries = fold (\<lambda>(k, v) m. AList.update k v m) entries []"

text \<open>The loops of this file: a finding for some of the elements, until there are ten.\<close>

fun drift_loop :: "('a \<Rightarrow> Finding option) \<Rightarrow> 'a list \<Rightarrow> Finding list \<Rightarrow> Finding list" where
  "drift_loop f [] findings = findings"
| "drift_loop f (x # xs) findings =
     (case f x of
        None \<Rightarrow> drift_loop f xs findings
      | Some finding \<Rightarrow>
          let findings1 = findings @ [finding]
          in if length findings1 \<ge> maxInventoryDeltaFindings then findings1 else drift_loop f xs findings1)"

section \<open>Services\<close>

text \<open>\<open>quote\<close> is the verb \<open>%q\<close>.\<close>

definition service_finding ::
  "(string \<Rightarrow> string) \<Rightarrow> Event \<Rightarrow> (string \<times> Service) list \<Rightarrow> Service \<Rightarrow> Finding option" where
  "service_finding quote event previousServices service =
     (case map_of previousServices (serviceKey service) of
        None \<Rightarrow>
          (let hot = serviceRunsAutomatically service \<or> serviceIsRunning service
           in Some (finding_of event ''NTS-INV-001'' ''New system service appeared after baseline''
                (''Service '' @ quote (sv_Name service) @ '' was not present in the previous inventory snapshot. New services can be legitimate deployment activity or persistence and should be correlated with native service-creation telemetry.'')
                ''persistence.service_drift'' (if hot then SeverityHigh else SeverityMedium) (if hot then 84 else 76)
                [''Persistence'', ''Privilege Escalation''] [''T1543'']
                [(''change_type'', VString ''new_service''), (''service_name'', VString (sv_Name service)),
                 (''display_name'', VString (sv_DisplayName service)), (''state'', VString (sv_State service)),
                 (''start_mode'', VString (sv_StartMode service))]
                [''Verify the service against an approved deployment window'', ''Inspect the service binary, account, and signer'', ''Correlate process, file-write, and network telemetry around the first appearance'']))
      | Some before \<Rightarrow>
          if \<not> serviceRunsAutomatically before \<and> serviceRunsAutomatically service
          then Some (finding_of event ''NTS-INV-001'' ''Service changed to automatic startup''
                (''Service '' @ quote (sv_Name service) @ '' changed startup mode from '' @ quote (sv_StartMode before) @ '' to '' @ quote (sv_StartMode service) @ '' between inventory snapshots.'')
                ''persistence.service_drift'' SeverityHigh 86
                [''Persistence'', ''Privilege Escalation''] [''T1543'']
                [(''change_type'', VString ''start_mode_change''), (''service_name'', VString (sv_Name service)),
                 (''previous_start_mode'', VString (sv_StartMode before)), (''current_start_mode'', VString (sv_StartMode service))]
                [''Identify the account or deployment that changed the startup mode'', ''Inspect the service executable and signature'', ''Compare the change with approved configuration management activity''])
          else None)"

definition detectServiceDrift :: "(string \<Rightarrow> string) \<Rightarrow> Event \<Rightarrow> Snapshot \<Rightarrow> Snapshot \<Rightarrow> Finding list" where
  "detectServiceDrift quote event previous current =
     (if inventoryTruncated previous ''services'' \<or> inventoryTruncated current ''services'' then []
      else let previousServices = go_map (map (\<lambda>s. (serviceKey s, s)) (sn_Services previous))
           in drift_loop (service_finding quote event previousServices) (sn_Services current) [])"

section \<open>Listeners\<close>

definition listener_alert :: "Event \<Rightarrow> Listener \<Rightarrow> Finding" where
  "listener_alert event l =
     (let hot = sensitiveListenerPort (li_Port l)
      in finding_of event ''NTS-INV-002'' ''New externally reachable listening socket''
           (''A new '' @ ToUpper (li_Protocol l) @ '' listener appeared on '' @ li_Address l @ '':'' @ Itoa (li_Port l)
            @ '' after the previous inventory baseline.'')
           ''exposure.listener_drift'' (if hot then SeverityHigh else SeverityMedium) (if hot then 86 else 78)
           [''Persistence'', ''Command and Control''] []
           [(''protocol'', VString (li_Protocol l)), (''address'', VString (li_Address l)), (''port'', VInt (li_Port l)),
            (''pid'', VInt (li_PID l)), (''sensitive_port'', VBool hot)]
           [''Resolve the owning process and executable signer'', ''Confirm the listener is expected for this asset role'', ''Review inbound connections and recent service or software changes''])"

definition detectListenerDrift :: "Event \<Rightarrow> Snapshot \<Rightarrow> Snapshot \<Rightarrow> Finding list" where
  "detectListenerDrift event previous current =
     (if inventoryTruncated previous ''listeners'' \<or> inventoryTruncated current ''listeners'' then []
      else let previousListeners = map listenerKey (sn_Listeners previous)
           in drift_loop (\<lambda>l. if listenerKey l \<in> set previousListeners \<or> \<not> listenerExternallyReachable (li_Address l)
                             then None else Some (listener_alert event l)) (sn_Listeners current) [])"

section \<open>Software\<close>

definition software_label :: "Software \<Rightarrow> string" where
  "software_label s =
     (let label = TrimSpace (so_Name s)
      in TrimSpace (if so_Version s \<noteq> [] then label @ '' '' @ TrimSpace (so_Version s) else label))"

definition detectSoftwareDrift :: "Event \<Rightarrow> Snapshot \<Rightarrow> Snapshot \<Rightarrow> Finding list" where
  "detectSoftwareDrift event previous current =
     (if inventoryTruncated previous ''software'' \<or> inventoryTruncated current ''software'' then []
      else
        let previousSoftware = map softwareKey (sn_Software previous);
            added = map software_label (filter (\<lambda>s. softwareKey s \<notin> set previousSoftware) (sn_Software current))
        in if added = [] then []
           else [finding_of event ''NTS-INV-003'' ''Installed software changed after baseline''
                  (Itoa (int (length added)) @ '' previously unseen software package(s) appeared in the latest host inventory.'')
                  ''asset.software_drift'' SeverityLow 72 [] []
                  [(''added_count'', VInt (int (length added))), (''added_software'', VStrings (take 20 (sort added)))]
                  [''Compare the additions with approved package-management or deployment activity'', ''Inspect unsigned or unexpected binaries before raising severity'', ''Correlate new software with new services, listeners, and process execution'']])"

section \<open>Process ancestry\<close>

record ancestryRelation =
  ar_Parent :: Process
  ar_Child :: Process
  ar_Reason :: string
  ar_Severity :: Severity
  ar_Confidence :: int
  ar_MITRETactics :: "string list"
  ar_MITRETechniques :: "string list"

definition shellOrDownloader :: "string list" where
  "shellOrDownloader = [''cmd.exe'', ''powershell.exe'', ''pwsh.exe'', ''sh'', ''bash'', ''dash'', ''zsh'', ''curl'', ''wget'',
     ''nc'', ''ncat'', ''certutil.exe'', ''bitsadmin.exe'']"

definition classifyAncestry :: "Process \<Rightarrow> Process \<Rightarrow> ancestryRelation option" where
  "classifyAncestry parent child =
     (let parentName = processBase parent; childName = processBase child
      in if parentName \<in> set [''w3wp.exe'', ''nginx'', ''httpd'', ''apache2'', ''php-fpm'', ''php-cgi'', ''tomcat'', ''java'']
            \<and> childName \<in> set shellOrDownloader
         then Some \<lparr>ar_Parent = parent, ar_Child = child,
                ar_Reason = ''web-serving process spawned a shell, interpreter, or download utility'',
                ar_Severity = SeverityCritical, ar_Confidence = 95,
                ar_MITRETactics = [''Initial Access'', ''Execution''], ar_MITRETechniques = [''T1190'', ''T1059'']\<rparr>
         else if parentName \<in> set [''mysqld'', ''mariadbd'', ''postgres'', ''sqlservr.exe'', ''oracle'', ''oracle.exe'']
            \<and> childName \<in> set shellOrDownloader
         then Some \<lparr>ar_Parent = parent, ar_Child = child,
                ar_Reason = ''database server process spawned a shell, interpreter, or download utility'',
                ar_Severity = SeverityCritical, ar_Confidence = 94,
                ar_MITRETactics = [''Execution'', ''Privilege Escalation''], ar_MITRETechniques = [''T1059'']\<rparr>
         else if parentName \<in> set [''winword.exe'', ''excel.exe'', ''powerpnt.exe'', ''outlook.exe'', ''onenote.exe'']
            \<and> childName \<in> set [''cmd.exe'', ''powershell.exe'', ''pwsh.exe'', ''wscript.exe'', ''cscript.exe'', ''mshta.exe'',
                 ''rundll32.exe'', ''regsvr32.exe'']
         then Some \<lparr>ar_Parent = parent, ar_Child = child,
                ar_Reason = ''Office application spawned a script host or living-off-the-land execution utility'',
                ar_Severity = SeverityHigh, ar_Confidence = 91,
                ar_MITRETactics = [''Execution''], ar_MITRETechniques = [''T1204'', ''T1059'']\<rparr>
         else None)"

definition suspiciousAncestryRelations :: "Snapshot \<Rightarrow> (string \<times> ancestryRelation) list" where
  "suspiciousAncestryRelations snapshot =
     (let byPID = go_map (map (\<lambda>p. (pr_PID p, p)) (filter (\<lambda>p. pr_PID p > 0) (sn_Processes snapshot)))
      in go_map (concat (map (\<lambda>child.
           if pr_PPID child \<le> 0 then []
           else case map_of byPID (pr_PPID child) of
                  None \<Rightarrow> []
                | Some parent \<Rightarrow>
                    (case classifyAncestry parent child of
                       None \<Rightarrow> []
                     | Some relation \<Rightarrow> [(ancestryKey parent child, relation)])) (sn_Processes snapshot))))"

definition ancestry_alert :: "Event \<Rightarrow> ancestryRelation \<Rightarrow> Finding" where
  "ancestry_alert event rel =
     (let child = ar_Child rel; parent = ar_Parent rel
      in finding_of event ''NTS-PROC-001'' ''Suspicious process ancestry found in host inventory''
           (''Process '' @ pr_Name child @ '' (PID '' @ Itoa (pr_PID child) @ '') is running under '' @ pr_Name parent
            @ '' (PID '' @ Itoa (pr_PID parent) @ ''): '' @ ar_Reason rel @ ''.'')
           ''execution.process_ancestry'' (ar_Severity rel) (ar_Confidence rel)
           (ar_MITRETactics rel) (ar_MITRETechniques rel)
           [(''parent_pid'', VInt (pr_PID parent)), (''parent_name'', VString (pr_Name parent)),
            (''parent_executable'', VString (pr_Executable parent)), (''child_pid'', VInt (pr_PID child)),
            (''child_name'', VString (pr_Name child)), (''child_executable'', VString (pr_Executable child)),
            (''reason'', VString (ar_Reason rel))]
           [''Capture the full command line and executable hashes'', ''Correlate the process pair with native process-start and network telemetry'', ''Review the triggering web, database, document, or remote-management activity before containment''])"

definition detectNewSuspiciousAncestry :: "Event \<Rightarrow> Snapshot \<Rightarrow> Snapshot \<Rightarrow> bool \<Rightarrow> Finding list" where
  "detectNewSuspiciousAncestry event previous current hasPrevious =
     (let currentRelations = suspiciousAncestryRelations current
      in if currentRelations = [] then []
         else let previousRelations = (if hasPrevious then suspiciousAncestryRelations previous else [])
              in drift_loop (\<lambda>(key, rel). if map_of previousRelations key \<noteq> None then None
                                          else Some (ancestry_alert event rel))
                   (sort_key fst currentRelations) [])"

section \<open>The rule\<close>

text \<open>\<open>decode\<close> is what a type assertion or the way through JSON makes of an attribute value.\<close>

definition decodeInventorySnapshot :: "(gval \<Rightarrow> Snapshot option) \<Rightarrow> gval option \<Rightarrow> Snapshot option" where
  "decodeInventorySnapshot decode v =
     (case v of None \<Rightarrow> None | Some x \<Rightarrow> if x = VNil then None else decode x)"

definition drift_Evaluate ::
  "(string \<Rightarrow> string) \<Rightarrow> (gval \<Rightarrow> Snapshot option) \<Rightarrow> Event \<Rightarrow> inventoryDriftRule \<Rightarrow> Finding list \<times> inventoryDriftRule" where
  "drift_Evaluate quote decode event r =
     (if ev_Kind event \<noteq> ''asset.inventory'' then ([], r)
      else case decodeInventorySnapshot decode
                  (case ev_Attributes event of None \<Rightarrow> None | Some m \<Rightarrow> map_of m ''inventory'') of
             None \<Rightarrow> ([], r)
           | Some snapshot \<Rightarrow>
               (detectNewSuspiciousAncestry event (dr_previous r) snapshot (dr_initialized r)
                @ (if dr_initialized r
                   then detectServiceDrift quote event (dr_previous r) snapshot
                        @ detectListenerDrift event (dr_previous r) snapshot
                        @ detectSoftwareDrift event (dr_previous r) snapshot
                   else []),
                r\<lparr>dr_previous := snapshot, dr_initialized := True\<rparr>))"

section \<open>Facts\<close>

lemma drift_loop_spec:
  "length fs < maxInventoryDeltaFindings \<Longrightarrow> drift_loop f xs fs = take maxInventoryDeltaFindings (fs @ List.map_filter f xs)"
proof (induction f xs fs rule: drift_loop.induct)
  case (1 f fs)
  then show ?case by (simp add: List.map_filter_simps)
next
  case (2 f x xs fs)
  show ?case
  proof (cases "f x")
    case None
    then show ?thesis using 2 by (simp add: List.map_filter_simps)
  next
    case (Some y)
    show ?thesis
    proof (cases "length (fs @ [y]) \<ge> maxInventoryDeltaFindings")
      case True
      then have "maxInventoryDeltaFindings - length fs = Suc 0" using 2(3) by simp
      then show ?thesis using Some True by (simp add: List.map_filter_simps Let_def)
    next
      case False
      then show ?thesis using Some 2(2) [OF Some refl False] by (simp add: List.map_filter_simps)
    qed
  qed
qed

lemma drift_loop_take: "drift_loop f xs [] = take 10 (List.map_filter f xs)"
  using drift_loop_spec [of "[]" f xs] by (simp add: maxInventoryDeltaFindings_def)

lemma drift_loop_le: "length (drift_loop f xs []) \<le> 10"
  by (simp add: drift_loop_take)

lemma drift_loop_about: "(\<And>x y. x \<in> set xs \<Longrightarrow> f x = Some y \<Longrightarrow> P y) \<Longrightarrow> list_all P (drift_loop f xs [])"
  by (auto simp: drift_loop_take list_all_iff List.map_filter_def dest!: in_set_takeD)

lemma map_of_go_map: "map_of (go_map es) k = map_of (rev es) k"
proof -
  have "map_of (fold (\<lambda>(k, v) m. AList.update k v m) es m) k = (case map_of (rev es) k of None \<Rightarrow> map_of m k | Some v \<Rightarrow> Some v)" for m
    by (induction es arbitrary: m) (auto simp: map_of_update map_add_def split: option.split)
  then show ?thesis by (simp add: go_map_def split: option.split)
qed

lemma go_map_mem: "(k, v) \<in> set (go_map es) \<Longrightarrow> map_of (go_map es) k = Some v"
proof -
  have "distinct (map fst (fold (\<lambda>(k, v) m. AList.update k v m) es m))" if "distinct (map fst m)" for m :: "('a \<times> 'b) list"
    using that by (induction es arbitrary: m) (auto simp: distinct_update)
  then have "distinct (map fst (go_map es))" by (simp add: go_map_def)
  then show "(k, v) \<in> set (go_map es) \<Longrightarrow> map_of (go_map es) k = Some v" by simp
qed

lemma service_unchanged:
  assumes "distinct (map serviceKey services)" "s \<in> set services"
  shows "service_finding quote event (go_map (map (\<lambda>s. (serviceKey s, s)) services)) s = None"
proof -
  have "distinct (map fst (rev (map (\<lambda>s. (serviceKey s, s)) services)))"
    using assms(1) by (simp add: rev_map comp_def flip: rev_map)
  then have "map_of (rev (map (\<lambda>s. (serviceKey s, s)) services)) (serviceKey s) = Some s"
    using assms(2) by (intro map_of_is_SomeI) auto
  then show ?thesis by (simp add: service_finding_def map_of_go_map)
qed

lemma map_filter_none: "(\<And>x. x \<in> set xs \<Longrightarrow> f x = None) \<Longrightarrow> List.map_filter f xs = []"
  by (simp add: List.map_filter_def filter_empty_conv)

lemma ancestry_unchanged: "detectNewSuspiciousAncestry event s s True = []"
proof -
  have "map_of (suspiciousAncestryRelations s) k \<noteq> None" if "(k, r) \<in> set (suspiciousAncestryRelations s)" for k r
    using that unfolding suspiciousAncestryRelations_def Let_def by (auto dest: go_map_mem)
  then show ?thesis
    by (auto simp: detectNewSuspiciousAncestry_def Let_def drift_loop_take intro!: map_filter_none)
qed

lemma classify_severity:
  "classifyAncestry a b = Some rel \<Longrightarrow> ar_Severity rel \<in> {SeverityHigh, SeverityCritical}"
proof -
  have three: "(if A then Some x else if B then Some y else if D then Some z else None) = Some rel \<Longrightarrow> rel \<in> {x, y, z}"
    for A B D and x y z :: ancestryRelation by (simp split: if_split_asm)
  assume "classifyAncestry a b = Some rel"
  from three [OF this [unfolded classifyAncestry_def Let_def]] show ?thesis by auto
qed

lemma set_go_map: "set (go_map es) \<subseteq> set es"
proof -
  have "set (fold (\<lambda>(k, v) m. AList.update k v m) es m) \<subseteq> set es \<union> set m" for m :: "('a \<times> 'b) list"
  proof (induction es arbitrary: m)
    case (Cons a es)
    obtain k v where a: "a = (k, v)" by (cases a)
    have "set (AList.update k v m) \<subseteq> insert (k, v) (set m)" by (induction m) auto
    with Cons.IH [of "AList.update k v m"] show ?case by (auto simp: a)
  qed simp
  from this [of "[]"] show ?thesis by (simp add: go_map_def)
qed

lemma mem_concat_map: "x \<in> set (concat (map F ps)) \<Longrightarrow> \<exists>p. x \<in> set (F p)"
  by auto

definition relation_entry :: "Process option \<Rightarrow> Process \<Rightarrow> (string \<times> ancestryRelation) list" where
  "relation_entry found child =
     (case found of None \<Rightarrow> []
      | Some parent \<Rightarrow> (case classifyAncestry parent child of None \<Rightarrow> [] | Some r \<Rightarrow> [(ancestryKey parent child, r)]))"

lemma relation_entry_mem: "(k, rel) \<in> set (relation_entry found child) \<Longrightarrow> \<exists>a b. classifyAncestry a b = Some rel"
  by (cases found; cases "classifyAncestry (the found) child") (simp_all add: relation_entry_def, blast)

lemma relation_severity:
  assumes "(k, rel) \<in> set (suspiciousAncestryRelations s)"
  shows "ar_Severity rel \<in> {SeverityHigh, SeverityCritical}"
proof -
  have "\<exists>a b. classifyAncestry a b = Some rel"
    using mem_concat_map [OF subsetD [OF set_go_map assms [unfolded suspiciousAncestryRelations_def Let_def]]]
    by (auto simp only: relation_entry_def [symmetric] split: if_splits dest: relation_entry_mem) simp
  then obtain a b where "classifyAncestry a b = Some rel" by blast
  then show ?thesis by (rule classify_severity)
qed

lemma drift_bound: "length (fst (drift_Evaluate quote decode event r)) \<le> 31"
proof -
  have s: "length (detectServiceDrift quote event p c) \<le> 10" for p c
    by (simp add: detectServiceDrift_def Let_def drift_loop_le)
  have l: "length (detectListenerDrift event p c) \<le> 10" for p c
    by (simp add: detectListenerDrift_def Let_def drift_loop_le)
  have w: "length (detectSoftwareDrift event p c) \<le> 1" for p c
    by (simp add: detectSoftwareDrift_def Let_def)
  have a: "length (detectNewSuspiciousAncestry event p c b) \<le> 10" for p c b
    by (simp add: detectNewSuspiciousAncestry_def Let_def drift_loop_le)
  have "x \<le> 10 \<Longrightarrow> y \<le> 10 \<Longrightarrow> z \<le> 10 \<Longrightarrow> v \<le> 1 \<Longrightarrow> x + (y + (z + v)) \<le> (31::nat)" for x y z v by simp
  from this [OF a s l w] a show ?thesis
    by (auto simp: drift_Evaluate_def split: option.split intro: order_trans [OF a])
qed

lemma drift_about: "list_all (about event) (fst (drift_Evaluate quote decode event r))"
proof -
  have nts: "HasPrefix (''NTS-'' @ x) ''NTS-''" for x by simp
  have "list_all (about event) (detectServiceDrift quote event p c)" for p c
    unfolding detectServiceDrift_def Let_def
    by (auto intro!: drift_loop_about simp: service_finding_def about_finding_of Let_def split: option.splits if_splits)
  moreover have "list_all (about event) (detectListenerDrift event p c)" for p c
    unfolding detectListenerDrift_def Let_def
    by (auto intro!: drift_loop_about simp: listener_alert_def about_finding_of Let_def split: if_splits)
  moreover have "list_all (about event) (detectSoftwareDrift event p c)" for p c
    by (simp add: detectSoftwareDrift_def Let_def about_finding_of)
  moreover have "list_all (about event) (detectNewSuspiciousAncestry event p c b)" for p c b
  proof -
    have "about event (ancestry_alert event rel)" if "(k, rel) \<in> set (suspiciousAncestryRelations c)" for k rel
      unfolding ancestry_alert_def Let_def
      by (rule about_finding_of) (use relation_severity [OF that] in auto)
    then show ?thesis
      unfolding detectNewSuspiciousAncestry_def Let_def
      by (auto intro!: drift_loop_about split: if_splits)
  qed
  ultimately show ?thesis by (auto simp: drift_Evaluate_def split: option.split)
qed

section \<open>Properties\<close>

text \<open>The alerts about listening sockets are exactly these: unless one of the two snapshots was cut off, one alert
  for each listener of the new snapshot, in order, whose protocol, address and port did not occur in the previous one
  and whose address is reachable from outside, up to ten.\<close>

theorem listener_alerts_exact:
  "detectListenerDrift event previous current =
     (if inventoryTruncated previous ''listeners'' \<or> inventoryTruncated current ''listeners'' then []
      else map (listener_alert event)
             (take 10 (filter (\<lambda>l. listenerKey l \<notin> listenerKey ` set (sn_Listeners previous)
                                  \<and> listenerExternallyReachable (li_Address l)) (sn_Listeners current))))"
proof -
  have "List.map_filter (\<lambda>l. if listenerKey l \<in> A \<or> \<not> R l then None else Some (g l)) xs
      = map g (filter (\<lambda>l. listenerKey l \<notin> A \<and> R l) xs)" for A R xs and g :: "Listener \<Rightarrow> Finding"
    by (induction xs) (auto simp: List.map_filter_simps)
  then show ?thesis by (simp add: detectListenerDrift_def Let_def drift_loop_take take_map)
qed

text \<open>Seeing the same inventory again raises nothing: when the rule already holds a snapshot in which no two services
  have the same name up to case and surrounding blanks, evaluating an inventory event with that snapshot produces no
  finding and leaves the rule as it was. This is what makes the stored baseline useful after a restart.\<close>

theorem unchanged_inventory_is_silent:
  assumes "ev_Kind event = ''asset.inventory''"
    and "ev_Attributes event = Some m" "map_of m ''inventory'' = Some v" "v \<noteq> VNil" "decode v = Some s"
    and "distinct (map serviceKey (sn_Services s))"
  shows "drift_Evaluate quote decode event (seed s r) = ([], seed s r)"
proof -
  have "detectServiceDrift quote event s s = []"
    using service_unchanged [OF assms(6)]
    by (auto simp: detectServiceDrift_def Let_def drift_loop_take intro!: map_filter_none)
  moreover have "detectListenerDrift event s s = []"
    by (auto simp: detectListenerDrift_def Let_def drift_loop_take intro!: map_filter_none)
  moreover have "detectSoftwareDrift event s s = []"
    by (auto simp: detectSoftwareDrift_def Let_def filter_empty_conv)
  ultimately show ?thesis
    using assms by (simp add: drift_Evaluate_def decodeInventorySnapshot_def seed_def ancestry_unchanged)
qed

lemma unchanged_inventory_is_silent_witness:
  "fst (drift_Evaluate id (\<lambda>_. Some (empty_Snapshot\<lparr>sn_Services := [\<lparr>sv_Name = ''ssh'', sv_DisplayName = [], sv_State = ''running'',
       sv_SubState = [], sv_StartMode = ''auto'', sv_Description = []\<rparr>]\<rparr>))
     (zero_Event\<lparr>ev_Kind := ''asset.inventory'', ev_Attributes := Some [(''inventory'', VInt 1)]\<rparr>)
     (seed (empty_Snapshot\<lparr>sn_Services := [\<lparr>sv_Name = ''ssh'', sv_DisplayName = [], sv_State = ''running'',
       sv_SubState = [], sv_StartMode = ''auto'', sv_Description = []\<rparr>]\<rparr>) newInventoryDriftRule)) = []"
  by (subst unchanged_inventory_is_silent [where m = "[(''inventory'', VInt 1)]" and v = "VInt 1"]) simp_all

end
