(* ===== verification/Detection.thy ===== *)
theory Detection
  imports Inventory_Drift Go_Time
begin

text \<open>
  \<open>detection/engine.go\<close>: the engine that runs every rule on an event, and the tracker of
  authentication failures, which keeps the recent failure times of every source and account.
\<close>

section \<open>Durations as text\<close>

text \<open>\<open>Duration.String\<close>.\<close>

definition duration_frac :: "nat \<Rightarrow> int \<Rightarrow> string" where
  "duration_frac digits r =
     (if r = 0 then [] else CHR ''.'' # rev (dropWhile (\<lambda>c. c = CHR ''0'') (rev (zero_pad digits r))))"

definition Duration_String :: "duration \<Rightarrow> string" where
  "Duration_String d =
     (let u = \<bar>d\<bar>; sign = (if d < 0 then ''-'' else [])
      in if u = 0 then ''0s''
         else if u < 1000 then sign @ Itoa u @ ''ns''
         else if u < Millisecond then sign @ Itoa (u div 1000) @ duration_frac 3 (u mod 1000) @ [CHR 0xC2, CHR 0xB5] @ ''s''
         else if u < Second then sign @ Itoa (u div Millisecond) @ duration_frac 6 (u mod Millisecond) @ ''ms''
         else let secs = u div Second; mins = secs div 60
              in sign @ (if mins div 60 > 0 then Itoa (mins div 60) @ ''h'' else [])
                 @ (if mins > 0 then Itoa (mins mod 60) @ ''m'' else [])
                 @ Itoa (secs mod 60) @ duration_frac 9 (u mod Second) @ ''s'')"

section \<open>Authentication failures\<close>

record authFailureTracker =
  at_threshold :: int
  at_window :: duration
  at_entries :: "(string \<times> gtime list) list"

definition newAuthFailureTracker :: "int \<Rightarrow> duration \<Rightarrow> authFailureTracker" where
  "newAuthFailureTracker threshold window = \<lparr>at_threshold = threshold, at_window = window, at_entries = []\<rparr>"

definition auth_failed :: "Event \<Rightarrow> bool" where
  "auth_failed event =
     (ev_Kind event = ''auth.failure''
      \<or> (ev_Kind event = ''web.request'' \<and> (http_Status (ev_HTTP event) = 401 \<or> http_Status (ev_HTTP event) = 403)))"

definition auth_key :: "Event \<Rightarrow> string" where
  "auth_key event = net_SourceIP (ev_Network event) @ ''|'' @ actor_User (ev_Actor event)"

text \<open>The recorded times of a key.\<close>

definition times_of :: "authFailureTracker \<Rightarrow> string \<Rightarrow> gtime list" where
  "times_of t key = (case map_of (at_entries t) key of None \<Rightarrow> [] | Some ts \<Rightarrow> ts)"

definition burst_finding :: "authFailureTracker \<Rightarrow> Event \<Rightarrow> int \<Rightarrow> Finding" where
  "burst_finding t event n =
     finding_of event ''NTS-AUTH-001'' ''Authentication failure burst''
       (''Observed '' @ Itoa n @ '' authentication failures from the same source/account within ''
        @ Duration_String (at_window t) @ ''.'')
       ''credential_access.brute_force'' SeverityHigh 88
       [''Credential Access''] [''T1110'']
       [(''failure_count'', VInt n), (''window_seconds'', VInt (at_window t div Second))]
       [''Review successful logins after the burst'', ''Check whether the source is an approved scanner'', ''Apply rate limiting or blocking through an approved response policy'']"

text \<open>\<open>Inspect\<close>; \<open>wall\<close> is the time read when the event has none.\<close>

definition auth_Inspect :: "gtime \<Rightarrow> Event \<Rightarrow> authFailureTracker \<Rightarrow> Finding option \<times> authFailureTracker" where
  "auth_Inspect wall event t =
     (if \<not> auth_failed event then (None, t)
      else
        let key = auth_key event
        in if key = ''|'' then (None, t)
           else
             let now = (if IsZero (ev_Timestamp event) then wall else ev_Timestamp event);
                 cutoff = now + (- at_window t);
                 kept = filter (\<lambda>timestamp. After timestamp cutoff) (times_of t key) @ [now];
                 t1 = t\<lparr>at_entries := AList.update key kept (at_entries t)\<rparr>
             in if int (length kept) \<noteq> at_threshold t then (None, t1)
                else (Some (burst_finding t event (int (length kept))), t1))"

section \<open>The engine\<close>

text \<open>\<open>json.Marshal\<close>, the verb \<open>%q\<close>, and the way an attribute becomes a snapshot.\<close>

record detection_codec =
  dc_marshal :: "gmap option \<Rightarrow> string option"
  dc_quote :: "string \<Rightarrow> string"
  dc_snapshot :: "gval \<Rightarrow> Snapshot option"

text \<open>The engine's rules without state are fixed; the state is that of the drift rule and of the tracker.\<close>

record Engine =
  eng_drift :: inventoryDriftRule
  eng_auth :: authFailureTracker

definition Detection_New :: Engine where
  "Detection_New = \<lparr>eng_drift = newInventoryDriftRule, eng_auth = newAuthFailureTracker 10 (5 * Minute)\<rparr>"

definition SeedInventoryBaseline :: "Snapshot \<Rightarrow> Engine \<Rightarrow> Engine" where
  "SeedInventoryBaseline snapshot e = e\<lparr>eng_drift := seed snapshot (eng_drift e)\<rparr>"

text \<open>Every finding gets its own identifier and time, in the order the findings are made.\<close>

definition stamp :: "(nat \<Rightarrow> string \<times> gtime) \<Rightarrow> Finding list \<Rightarrow> Finding list" where
  "stamp draw fs = map (\<lambda>(n, f). f\<lparr>fd_ID := fst (draw n), fd_Timestamp := snd (draw n)\<rparr>) (enumerate 0 fs)"

definition Inspect ::
  "detection_codec \<Rightarrow> (nat \<Rightarrow> string \<times> gtime) \<Rightarrow> gtime \<Rightarrow> Event \<Rightarrow> Engine \<Rightarrow> Finding list \<times> Engine" where
  "Inspect D draw wall event e =
     (let m = dc_marshal D;
          (drift, dr) = drift_Evaluate (dc_quote D) (dc_snapshot D) event (eng_drift e);
          (burst, au) = auth_Inspect wall event (eng_auth e)
      in (stamp draw
            (promptInjectionRule m event @ encodedPowerShellRule m event @ webWorkerShellRule event
             @ sqlDangerRule m event @ pathTraversalRule event @ defenseEvasionRule m event
             @ webShellWriteRule event @ nativeHighSignalRule m event @ drift
             @ (case burst of None \<Rightarrow> [] | Some finding \<Rightarrow> [finding])),
          e\<lparr>eng_drift := dr, eng_auth := au\<rparr>))"

section \<open>Findings are about their event\<close>

lemma burst_about: "auth_Inspect c e t = (Some f, t') \<Longrightarrow> about e f"
  by (auto simp: auth_Inspect_def Let_def burst_finding_def about_finding_of split: if_splits)

lemma about_stamped [simp]: "about e (f\<lparr>fd_ID := i, fd_Timestamp := t\<rparr>) = about e f"
  by (simp add: about_def)

lemma stamp_about: "list_all (about e) fs \<Longrightarrow> list_all (about e) (stamp draw fs)"
proof -
  assume all: "list_all (about e) fs"
  have "about e (snd x)" if "x \<in> set (enumerate 0 fs)" for x
    using that all by (metis in_set_zip list_all_iff map_snd_enumerate image_eqI set_map)
  then show ?thesis by (auto simp: stamp_def list_all_iff)
qed

lemma length_stamp [simp]: "length (stamp draw fs) = length fs"
  by (simp add: stamp_def)

text \<open>C23. Whatever event the engine inspects and whatever state it is in, every finding it returns is a well-formed
  finding about that event: it has the schema version, a rule identifier of the agent, one of the five severities and a
  confidence between 0 and 100, names exactly this event as its evidence, and carries the event's tenant, agent and asset
  (so telemetry cannot attribute a finding to another host). One event yields at most 40 findings.\<close>

theorem Inspect_findings_wellformed:
  "list_all (about event) (fst (Inspect D draw wall event e)) \<and> length (fst (Inspect D draw wall event e)) \<le> 40"
proof -
  obtain drift dr where d: "drift_Evaluate (dc_quote D) (dc_snapshot D) event (eng_drift e) = (drift, dr)" by (rule prod.exhaust)
  obtain burst au where b: "auth_Inspect wall event (eng_auth e) = (burst, au)" by (rule prod.exhaust)
  define fs where "fs = (case burst of None \<Rightarrow> [] | Some finding \<Rightarrow> [finding])"
  have drift: "list_all (about event) drift" "length drift \<le> 31"
    using drift_about [of event] drift_bound [of _ _ event] d by (metis fst_conv)+
  have burst: "list_all (about event) fs" "length fs \<le> 1"
    using b burst_about by (auto simp: fs_def split: option.split)
  have sum: "a \<le> 1 \<Longrightarrow> b \<le> 1 \<Longrightarrow> c \<le> 1 \<Longrightarrow> d \<le> 1 \<Longrightarrow> x \<le> 1 \<Longrightarrow> f \<le> 1 \<Longrightarrow> g \<le> 1 \<Longrightarrow> h \<le> 1 \<Longrightarrow> i \<le> 31 \<Longrightarrow> j \<le> 1
      \<Longrightarrow> a + (b + (c + (d + (x + (f + (g + (h + (i + j)))))))) \<le> (40::nat)" for a b c d x f g h i j by simp
  define found where "found = promptInjectionRule (dc_marshal D) event @ encodedPowerShellRule (dc_marshal D) event
    @ webWorkerShellRule event @ sqlDangerRule (dc_marshal D) event @ pathTraversalRule event
    @ defenseEvasionRule (dc_marshal D) event @ webShellWriteRule event @ nativeHighSignalRule (dc_marshal D) event @ drift @ fs"
  have "fst (Inspect D draw wall event e) = stamp draw found"
    by (simp add: Inspect_def Let_def d b fs_def found_def)
  moreover have "list_all (about event) found" using drift(1) burst(1) by (simp add: found_def stateless_about)
  moreover have "length found \<le> 40"
    unfolding found_def length_append by (intro sum stateless_single drift(2) burst(2))
  ultimately show ?thesis by (simp add: stamp_about)
qed

section \<open>The tracker refines the history\<close>

text \<open>The specification: all failures so far, as pairs of key and time. A burst is reported when, with the new one,
  exactly as many failures of the key as the threshold says lie within the window before it.\<close>

definition failures_within :: "(string \<times> gtime) list \<Rightarrow> string \<Rightarrow> gtime \<Rightarrow> gtime list" where
  "failures_within history key cutoff = map snd (filter (\<lambda>(k, t). k = key \<and> t > cutoff) history)"

definition burst_spec :: "int \<Rightarrow> duration \<Rightarrow> (string \<times> gtime) list \<Rightarrow> string \<Rightarrow> gtime \<Rightarrow> bool" where
  "burst_spec threshold window history key now =
     (int (length (failures_within history key (now - window))) + 1 = threshold)"

text \<open>The failures of a run of events: the tracker ignores an event that is no failure or has neither source nor account.\<close>

definition failure_of :: "gtime \<Rightarrow> Event \<Rightarrow> (string \<times> gtime) list" where
  "failure_of wall event =
     (if auth_failed event \<and> auth_key event \<noteq> ''|''
      then [(auth_key event, if IsZero (ev_Timestamp event) then wall else ev_Timestamp event)] else [])"

text \<open>The abstraction: what the tracker holds for a key is the history of that key from some cutoff on that no later
  failure needs to look behind.\<close>

definition tracks :: "authFailureTracker \<Rightarrow> (string \<times> gtime) list \<Rightarrow> gtime \<Rightarrow> bool" where
  "tracks t history now =
     (\<forall>key. \<exists>cutoff \<le> now - at_window t. times_of t key = failures_within history key cutoff)"

lemma tracks_new: "tracks (newAuthFailureTracker n w) [] now"
  by (auto simp: tracks_def times_of_def newAuthFailureTracker_def failures_within_def)

lemma tracks_later: "tracks t history now \<Longrightarrow> now \<le> now' \<Longrightarrow> tracks t history now'"
  unfolding tracks_def by (meson diff_right_mono order_trans)

lemma failures_within_filter:
  "cutoff \<le> cutoff' \<Longrightarrow> filter (\<lambda>t. t > cutoff') (failures_within history key cutoff) = failures_within history key cutoff'"
  by (induction history) (auto simp: failures_within_def)

lemma failures_within_snoc:
  "failures_within (history @ [(k, t)]) key cutoff =
     failures_within history key cutoff @ (if k = key \<and> t > cutoff then [t] else [])"
  by (simp add: failures_within_def)

lemma auth_step:
  assumes "tracks t history now" "failure_of wall event = [(key, now)]" "0 < at_window t"
    and "auth_Inspect wall event t = (r, t')"
  shows "tracks t' (history @ [(key, now)]) now
    \<and> (r \<noteq> None \<longleftrightarrow> burst_spec (at_threshold t) (at_window t) history key now)
    \<and> at_threshold t' = at_threshold t \<and> at_window t' = at_window t"
proof -
  have ev: "auth_failed event" "auth_key event = key" "key \<noteq> ''|''"
    "(if IsZero (ev_Timestamp event) then wall else ev_Timestamp event) = now"
    using assms(2) by (auto simp: failure_of_def split: if_splits)
  define kept where "kept = failures_within history key (now - at_window t) @ [now]"
  obtain cutoff where "cutoff \<le> now - at_window t" "times_of t key = failures_within history key cutoff"
    using assms(1) by (auto simp: tracks_def)
  then have k: "filter (\<lambda>timestamp. After timestamp (now + (- at_window t))) (times_of t key) @ [now] = kept"
    by (simp add: kept_def After_def failures_within_filter)
  have run: "t' = t\<lparr>at_entries := AList.update key kept (at_entries t)\<rparr>" "r \<noteq> None \<longleftrightarrow> int (length kept) = at_threshold t"
    using assms(4) ev k by (auto simp: auth_Inspect_def Let_def split: if_splits)
  have "times_of t' key' = (if key' = key then kept else times_of t key')" for key'
    by (simp add: run(1) times_of_def map_of_update)
  moreover have "kept = failures_within (history @ [(key, now)]) key (now - at_window t)"
    using assms(3) by (simp add: kept_def failures_within_snoc)
  ultimately have "\<exists>cutoff \<le> now - at_window t'. times_of t' key' = failures_within (history @ [(key, now)]) key' cutoff" for key'
    using assms(1,3) by (cases "key' = key") (auto simp: tracks_def run(1) failures_within_snoc)
  then have "tracks t' (history @ [(key, now)]) now" by (simp add: tracks_def)
  moreover have "r \<noteq> None \<longleftrightarrow> burst_spec (at_threshold t) (at_window t) history key now"
    unfolding run(2) burst_spec_def kept_def by (simp add: add.commute)
  ultimately show ?thesis by (simp add: run(1))
qed

text \<open>A run of the tracker over events with the wall read for each.\<close>

fun auth_run :: "(gtime \<times> Event) list \<Rightarrow> authFailureTracker \<Rightarrow> Finding option list \<times> authFailureTracker" where
  "auth_run [] t = ([], t)"
| "auth_run ((wall, event) # es) t =
     (let (r, t1) = auth_Inspect wall event t; (rs, t2) = auth_run es t1 in (r # rs, t2))"

fun spec_run :: "int \<Rightarrow> duration \<Rightarrow> (string \<times> gtime) list \<Rightarrow> (gtime \<times> Event) list \<Rightarrow> bool list" where
  "spec_run threshold window history [] = []"
| "spec_run threshold window history ((wall, event) # es) =
     (case failure_of wall event of
        [] \<Rightarrow> False # spec_run threshold window history es
      | (key, now) # _ \<Rightarrow> burst_spec threshold window history key now
          # spec_run threshold window (history @ [(key, now)]) es)"

lemma auth_run_Cons:
  "fst (auth_run ((wall, event) # es) t) = fst (auth_Inspect wall event t) # fst (auth_run es (snd (auth_Inspect wall event t)))"
  by (simp split: prod.split)

lemma auth_run_tracks:
  assumes "tracks t history now" "0 < at_window t"
    and "sorted (now # map snd (concat (map (\<lambda>(c, e). failure_of c e) es)))"
  shows "map (\<lambda>r. r \<noteq> None) (fst (auth_run es t)) = spec_run (at_threshold t) (at_window t) history es"
  using assms
proof (induction es arbitrary: t history now)
  case Nil
  then show ?case by simp
next
  case (Cons ce es)
  obtain wall event where ce: "ce = (wall, event)" by (cases ce)
  obtain r t1 where run: "auth_Inspect wall event t = (r, t1)" by (rule prod.exhaust)
  show ?case
  proof (cases "failure_of wall event")
    case Nil
    then have "r = None" "t1 = t" using run by (auto simp: failure_of_def auth_Inspect_def Let_def split: if_splits)
    moreover have "sorted (now # map snd (concat (map (\<lambda>(c, e). failure_of c e) es)))"
      using Cons.prems(3) Nil by (simp only: ce list.map prod.case concat.simps append_Nil)
    ultimately show ?thesis using Cons.IH [OF Cons.prems(1,2)] Nil run by (simp add: ce auth_run_Cons del: auth_run.simps)
  next
    case f: (Cons kt rest)
    obtain key now' where fo: "failure_of wall event = [(key, now')]"
      using f by (auto simp: failure_of_def split: if_splits)
    have le: "now \<le> now'" using Cons.prems(3) fo by (simp add: ce)
    note step = auth_step [OF tracks_later [OF Cons.prems(1) le] fo Cons.prems(2) run]
    have "map (\<lambda>r. r \<noteq> None) (fst (auth_run es t1)) = spec_run (at_threshold t1) (at_window t1) (history @ [(key, now')]) es"
    proof (rule Cons.IH)
      show "tracks t1 (history @ [(key, now')]) now'" "0 < at_window t1" using step Cons.prems(2) by simp_all
      show "sorted (now' # map snd (concat (map (\<lambda>(c, e). failure_of c e) es)))" using Cons.prems(3) fo by (simp add: ce)
    qed
    then show ?thesis using step run fo by (simp add: ce auth_run_Cons del: auth_run.simps)
  qed
qed



end
