(* ===== verification/Baseline.thy ===== *)
theory Baseline
  imports Quarantine Inventory Go_IO
begin

text \<open>
  Package \<open>internal/baseline\<close>: the last inventory, stored under a signature of the agent's own key, so
  that drift is seen across a restart. The JSON codec is a parameter.
\<close>

section \<open>Data\<close>

definition baselineVersion :: string where "baselineVersion = ''1''"
definition baselineFilename :: string where "baselineFilename = ''inventory-baseline.json''"

record Store =
  st_path :: string
  st_privateKey :: string
  st_publicKey :: string

record signedPayload =
  sp_Version :: string
  sp_SavedAt :: gtime
  sp_Inventory :: Snapshot

record envelope =
  en_Payload :: signedPayload
  en_PublicKey :: string
  en_Signature :: string

text \<open>\<open>json.Marshal\<close> on the payload, \<open>json.MarshalIndent\<close> and \<open>json.Unmarshal\<close> on the envelope, and the way an
  attribute becomes a snapshot (a type assertion, or through JSON).\<close>

record baseline_codec =
  bc_payload :: "signedPayload \<Rightarrow> string option"
  bc_encode :: "envelope \<Rightarrow> string option"
  bc_decode :: "string \<Rightarrow> envelope option"
  bc_snapshot :: "gval \<Rightarrow> (bool, Snapshot) result"

datatype baseline_error = BErrIdentity identity_error | BErrRead oserr | BErrDecode | BErrVersion | BErrKey | BErrSigner
  | BErrSignatureText | BErrEncode | BErrSignature | BErrWrite oserr | BErrMissing

section \<open>Operations\<close>

definition Baseline_New ::
  "crypto \<Rightarrow> (string \<Rightarrow> string option) \<Rightarrow> (string \<Rightarrow> string option) \<Rightarrow> string option \<Rightarrow> string \<Rightarrow> (baseline_error, Store) call" where
  "Baseline_New C kp ke gen dataDir =
     io_bind (io_wrap BErrIdentity (Ensure kp ke gen dataDir)) (\<lambda>(privateKey, _).
     io_return \<lparr>st_path = filepath_Join [dataDir, baselineFilename], st_privateKey = privateKey,
                st_publicKey = ed25519_Public C privateKey\<rparr>)"

text \<open>The checks \<open>Load\<close> makes on the content of the file, in their order.\<close>

definition verify_baseline :: "crypto \<Rightarrow> baseline_codec \<Rightarrow> Store \<Rightarrow> string \<Rightarrow> (baseline_error, Snapshot) result" where
  "verify_baseline C J s data =
     (case bc_decode J data of
        None \<Rightarrow> Inl BErrDecode
      | Some item \<Rightarrow>
          if sp_Version (en_Payload item) \<noteq> baselineVersion then Inl BErrVersion
          else case b64_DecodeString (en_PublicKey item) of
            None \<Rightarrow> Inl BErrKey
          | Some publicKey \<Rightarrow>
              if publicKey \<noteq> st_publicKey s then Inl BErrSigner
              else case b64_DecodeString (en_Signature item) of
                None \<Rightarrow> Inl BErrSignatureText
              | Some signature \<Rightarrow>
                  (case bc_payload J (en_Payload item) of
                     None \<Rightarrow> Inl BErrEncode
                   | Some payload \<Rightarrow>
                       if \<not> ed25519_Verify C (st_publicKey s) payload signature then Inl BErrSignature
                       else Inr (sp_Inventory (en_Payload item))))"

text \<open>\<open>Load\<close>: \<open>None\<close> says that there is no baseline.\<close>

definition Baseline_Load :: "crypto \<Rightarrow> baseline_codec \<Rightarrow> Store \<Rightarrow> (baseline_error, Snapshot option) call" where
  "Baseline_Load C J s w =
     (case os_ReadFile (st_path s) w of
        (Inl e, w1) \<Rightarrow> (if e = ErrNotExist then (Inr None, w1) else (Inl (BErrRead e), w1))
      | (Inr data, w1) \<Rightarrow>
          (case verify_baseline C J s data of
             Inl e \<Rightarrow> (Inl e, w1)
           | Inr snapshot \<Rightarrow> (Inr (Some snapshot), w1)))"

definition signed_envelope :: "crypto \<Rightarrow> Store \<Rightarrow> gtime \<Rightarrow> Snapshot \<Rightarrow> string \<Rightarrow> envelope" where
  "signed_envelope C s now snapshot payload =
     \<lparr>en_Payload = \<lparr>sp_Version = baselineVersion, sp_SavedAt = now, sp_Inventory = snapshot\<rparr>,
      en_PublicKey = b64_EncodeToString (st_publicKey s),
      en_Signature = b64_EncodeToString (ed25519_Sign C (st_privateKey s) payload)\<rparr>"

text \<open>\<open>Save\<close>. Its last three calls (write beside, protect, rename, removing the temporary file after a failure) are those
  of \<open>identity.writePrivateFile\<close>.\<close>

definition Baseline_Save :: "crypto \<Rightarrow> baseline_codec \<Rightarrow> Store \<Rightarrow> Snapshot \<Rightarrow> (baseline_error, unit) call" where
  "Baseline_Save C J s snapshot =
     io_bind io_now (\<lambda>now.
     io_bind (io_some BErrEncode (bc_payload J \<lparr>sp_Version = baselineVersion, sp_SavedAt = now, sp_Inventory = snapshot\<rparr>)) (\<lambda>payload.
     io_bind (io_some BErrEncode (bc_encode J (signed_envelope C s now snapshot payload))) (\<lambda>encoded.
     io_wrap BErrWrite (identity_writePrivateFile (st_path s) (encoded @ [CHR 0x0A])))))"

definition SnapshotFromEvent :: "baseline_codec \<Rightarrow> Event \<Rightarrow> (baseline_error, Snapshot) result" where
  "SnapshotFromEvent J event =
     (case (case ev_Attributes event of None \<Rightarrow> None | Some m \<Rightarrow> map_of m ''inventory'') of
        None \<Rightarrow> Inl BErrMissing
      | Some v \<Rightarrow>
          (case bc_snapshot J v of
             Inl encoding \<Rightarrow> Inl (if encoding then BErrEncode else BErrDecode)
           | Inr snapshot \<Rightarrow> Inr snapshot))"

section \<open>Facts\<close>

text \<open>What \<open>Save\<close> writes is accepted by the checks of \<open>Load\<close>, if the codec reads back this envelope.\<close>

lemma verify_signed:
  assumes "signatures_verify C" "st_publicKey s = ed25519_Public C (st_privateKey s)"
    and "bc_payload J \<lparr>sp_Version = baselineVersion, sp_SavedAt = now, sp_Inventory = snapshot\<rparr> = Some payload"
    and "bc_decode J text = Some (signed_envelope C s now snapshot payload)"
  shows "verify_baseline C J s text = Inr snapshot"
  using assms by (simp add: verify_baseline_def signed_envelope_def signatures_verify_def)

lemma Save_run:
  assumes "Baseline_Save C J s snapshot w = (r, w')"
  obtains (unencoded) "r = Inl BErrEncode" "quiet (st_path s) w w'"
  | (written) payload encoded w1 r1 where
      "bc_payload J \<lparr>sp_Version = baselineVersion, sp_SavedAt = clock w, sp_Inventory = snapshot\<rparr> = Some payload"
      "bc_encode J (signed_envelope C s (clock w) snapshot payload) = Some encoded"
      "quiet (st_path s) w w1"
      "identity_writePrivateFile (st_path s) (encoded @ [CHR 0x0A]) w1 = (r1, w')"
      "r = Inr () \<longleftrightarrow> r1 = Inr ()"
proof -
  obtain w1 where now: "time_Now w = (clock w, w1)" by (cases "clock_steps w") (simp_all add: time_Now_def)
  have q: "quiet (st_path s) w w1" by (rule io_quietD [OF io_quiet_now, of _ "Inr (clock w)"]) (simp add: io_now_def now)
  show thesis
  proof (cases "bc_payload J \<lparr>sp_Version = baselineVersion, sp_SavedAt = clock w, sp_Inventory = snapshot\<rparr>")
    case None
    then show thesis using assms now q unencoded by (simp add: Baseline_Save_def io_bind_def io_now_def io_some_def io_fail_def)
  next
    case (Some payload)
    show thesis
    proof (cases "bc_encode J (signed_envelope C s (clock w) snapshot payload)")
      case None
      then show thesis using assms now q unencoded Some
        by (simp add: Baseline_Save_def io_bind_def io_now_def io_some_def io_fail_def io_return_def)
    next
      case e: (Some encoded)
      obtain r1 w2 where i: "identity_writePrivateFile (st_path s) (encoded @ [CHR 0x0A]) w1 = (r1, w2)" by (rule prod.exhaust)
      then have "w2 = w'" "r = Inr () \<longleftrightarrow> r1 = Inr ()" using assms now Some e
        by (auto simp: Baseline_Save_def io_bind_def io_now_def io_some_def io_return_def io_wrap_def split: sum.splits)
      with Some e q i show thesis by (auto intro: written)
    qed
  qed
qed

lemma own_signature_only:
  "verify_baseline C J s data = Inr snapshot \<Longrightarrow>
     \<exists>item payload signature. bc_decode J data = Some item \<and> sp_Inventory (en_Payload item) = snapshot
       \<and> bc_payload J (en_Payload item) = Some payload \<and> ed25519_Verify C (st_publicKey s) payload signature"
  by (auto simp: verify_baseline_def split: option.splits if_splits)

section \<open>Properties\<close>

text \<open>Storing the baseline is atomic, and what was stored is what is loaded: whatever call fails and whenever the
  machine stops during \<open>Save\<close>, the file holds its old content or a new one that the checks of \<open>Load\<close> accept as exactly
  the snapshot that was saved; after success it is the new one, and the next \<open>Load\<close> returns the snapshot unless reading
  the file fails. The codec need only read back the envelope that was written.\<close>

theorem baseline_round_trip:
  assumes "Baseline_Save C J s snapshot w = (r, w')"
    and "signatures_verify C" "st_publicKey s = ed25519_Public C (st_privateKey s)"
    and "\<forall>payload encoded. bc_encode J (signed_envelope C s (clock w) snapshot payload) = Some encoded \<longrightarrow>
           bc_decode J (encoded @ [CHR 0x0A]) = Some (signed_envelope C s (clock w) snapshot payload)"
  shows "crash_safe (\<lambda>u. fs_content u (st_path s) = fs_content (files w) (st_path s)
             \<or> (\<exists>c. fs_content u (st_path s) = Some c \<and> verify_baseline C J s c = Inr snapshot)) w w'
    \<and> (r = Inr () \<longrightarrow> fst (Baseline_Load C J s w') \<in> {Inr (Some snapshot), Inl (BErrRead ErrIO)})"
proof -
  define R where "R = (\<lambda>u. fs_content u (st_path s) = fs_content (files w) (st_path s)
             \<or> (\<exists>c. fs_content u (st_path s) = Some c \<and> verify_baseline C J s c = Inr snapshot))"
  from assms(1) show ?thesis
  proof (cases rule: Save_run)
    case unencoded
    have "crash_safe R w w'" by (rule crash_safe_quiet [OF unencoded(2)]) (simp add: R_def)
    then show ?thesis using unencoded(1) by (simp add: R_def)
  next
    case (written payload encoded w1 r1)
    have v: "verify_baseline C J s (encoded @ [CHR 0x0A]) = Inr snapshot"
      using assms(4) written(2) by (intro verify_signed [OF assms(2,3) written(1)]) blast
    have "crash_safe R w w1" by (rule crash_safe_quiet [OF written(3)]) (simp add: R_def)
    moreover have "crash_safe R w1 w'"
      by (rule crash_safe_mono [OF idf.atomic [OF written(4)]]) (use v quiet_content [OF written(3)] in \<open>auto simp: R_def\<close>)
    ultimately have safe: "crash_safe R w w'" by (rule crash_safe_trans)
    have "fst (Baseline_Load C J s w') \<in> {Inr (Some snapshot), Inl (BErrRead ErrIO)}" if "r = Inr ()"
    proof -
      have "fs_content (files w') (st_path s) = Some (encoded @ [CHR 0x0A])"
        using that written(4,5) idf.installs by metis
      then show ?thesis using v
        by (auto simp: Baseline_Load_def os_ReadFile_def fs_content_def next_fault_def Let_def split: list.splits)
    qed
    with safe show ?thesis by (simp add: R_def)
  qed
qed

lemma baseline_round_trip_witness:
  "\<exists>w'. Baseline_Save toy_crypto
      \<lparr>bc_payload = \<lambda>p. Some ''p'', bc_encode = \<lambda>e. Some (en_Signature e),
       bc_decode = \<lambda>t. Some \<lparr>en_Payload = \<lparr>sp_Version = ''1'', sp_SavedAt = 0, sp_Inventory = empty_Snapshot\<rparr>,
          en_PublicKey = b64_EncodeToString ''k'', en_Signature = butlast t\<rparr>,
       bc_snapshot = \<lambda>_. Inr empty_Snapshot\<rparr>
      \<lparr>st_path = ''/d/b'', st_privateKey = ''k'', st_publicKey = ''k''\<rparr> empty_Snapshot
      \<lparr>files = [], faults = [], events = [], clock = 0, clock_steps = []\<rparr> = (Inr (), w')"
  (is "\<exists>w'. Baseline_Save ?C ?J ?s ?n ?w = _")
proof -
  obtain r w' where run: "Baseline_Save ?C ?J ?s ?n ?w = (r, w')" by (rule prod.exhaust)
  have ok: "r = Inr ()" using run
    by (simp add: Baseline_Save_def io_bind_def io_now_def time_Now_def io_some_def io_return_def io_wrap_def
        identity_writePrivateFile_def os_WriteFile_def os_Chmod_def os_Rename_def next_fault_def emit_def Let_def
        fs_simps fs_get_def fs_put_def fs_del_def split: prod.splits)
  have "fst (Baseline_Load ?C ?J ?s w') \<in> {Inr (Some ?n), Inl (BErrRead ErrIO)}"
    using baseline_round_trip [OF run toy_crypto_laws(1)] ok
    by (simp add: toy_crypto_def signed_envelope_def baselineVersion_def)
  with run ok show ?thesis by blast
qed

end
