(* ===== verification/Parser.thy ===== *)
theory Parser
  imports Normalize Redact Go_Time Go_Net Model
begin

text \<open>
  Package \<open>internal/parser\<close>: one line of a log becomes an event, nothing, or an error. The W3C parser
  keeps the field names of the last header. URL parsing, the layouts of \<open>time.Parse\<close> and the JSON
  decoder are parameters.
\<close>

section \<open>Numbers and escapes\<close>

definition max_int64 :: int where "max_int64 = 9223372036854775807"

text \<open>The value \<open>strconv.Atoi\<close> and \<open>strconv.ParseInt(s, 10, 64)\<close> return, which is used without looking at the error: 0 for
  a text that is no number, the nearest bound for a number out of range.\<close>

definition parse_int :: "string \<Rightarrow> int" where
  "parse_int s =
     (let neg = HasPrefix s ''-''; ds = (if HasPrefix s ''-'' \<or> HasPrefix s ''+'' then tl s else s)
      in if ds = [] \<or> \<not> list_all dec_digit ds then 0
         else if neg then max (- max_int64 - 1) (- dec_value ds) else min max_int64 (dec_value ds))"

text \<open>\<open>url.QueryUnescape\<close>, whose error leaves the empty string.\<close>

fun unescape :: "string \<Rightarrow> string option" where
  "unescape [] = Some []"
| "unescape (c # s) =
     (if c = CHR ''%'' then
        (case s of
           a # b # r \<Rightarrow>
             if is_hex_char a \<and> is_hex_char b
             then map_option (\<lambda>t. char_of (nat (hex_value [a, b])) # t) (unescape r) else None
         | _ \<Rightarrow> None)
      else map_option (\<lambda>t. (if c = CHR ''+'' then CHR '' '' else c) # t) (unescape s))"

definition QueryUnescape :: "string \<Rightarrow> string" where
  "QueryUnescape s = (case unescape s of None \<Rightarrow> [] | Some t \<Rightarrow> t)"

definition dashToEmpty :: "string \<Rightarrow> string" where
  "dashToEmpty v = (if v = ''-'' then [] else v)"

definition severityFromHTTP :: "int \<Rightarrow> Severity" where
  "severityFromHTTP status =
     (if status \<ge> 500 then SeverityMedium else if status \<ge> 400 then SeverityLow else SeverityInfo)"

text \<open>Go's remainder takes the sign of the dividend; priorities are not negative here.\<close>

definition severityFromSyslog :: "int \<Rightarrow> Severity" where
  "severityFromSyslog priority =
     (let severity = (if priority < 0 then - ((- priority) mod 8) else priority mod 8)
      in if severity \<in> {0, 1, 2} then SeverityCritical
         else if severity = 3 then SeverityHigh
         else if severity = 4 then SeverityMedium
         else if severity = 5 then SeverityLow
         else SeverityInfo)"

section \<open>Parsers\<close>

datatype Parser =
    rawParser string
  | is_jsonl: jsonParser string
  | iisParser string "string list"
  | nginxParser string
  | syslogParser string
  | mysqlParser string

datatype parse_error = PErrFormat | PErrJSON | PErrHeader | PErrFieldCount | PErrNginx | PErrNginxTime

definition Parser_New :: "string \<Rightarrow> string \<Rightarrow> (parse_error, Parser) result" where
  "Parser_New format source =
     (let f = ToLower (TrimSpace format)
      in if f = ''raw'' \<or> f = ''text'' then Inr (rawParser source)
         else if f = ''jsonl'' \<or> f = ''event_jsonl'' then Inr (jsonParser source)
         else if f = ''iis'' \<or> f = ''iis_w3c'' then Inr (iisParser source [])
         else if f = ''nginx'' \<or> f = ''nginx_combined'' then Inr (nginxParser source)
         else if f = ''syslog'' \<or> f = ''rfc3164'' then Inr (syslogParser source)
         else if f = ''mysql'' \<or> f = ''mysql_general'' then Inr (mysqlParser source)
         else Inl PErrFormat)"

text \<open>\<open>px_uri\<close> is \<open>url.ParseRequestURI\<close> (path and raw query), \<open>px_w3c\<close>, \<open>px_clf\<close> and \<open>px_syslog\<close> are \<open>time.Parse\<close> with the
  three layouts, \<open>px_json\<close> decodes an event.\<close>

record parse_codec =
  px_crypto :: crypto
  px_json :: "string \<Rightarrow> Event option"
  px_uri :: "string \<Rightarrow> (string \<times> string) option"
  px_w3c :: "string \<Rightarrow> gtime option"
  px_clf :: "string \<Rightarrow> gtime option"
  px_syslog :: "string \<Rightarrow> gtime option"

text \<open>What one call draws: an identifier, the times read by the parser (the syslog parser reads it twice when the stamp does not parse), and the two readings of \<open>Prepare\<close>.\<close>

record draw =
  dw_id :: string
  dw_time :: gtime
  dw_time2 :: gtime
  dw_now1 :: gtime
  dw_now2 :: gtime

definition prepared :: "draw \<Rightarrow> Event \<Rightarrow> Event" where
  "prepared d e = Event_Prepare (dw_id d) (dw_now1 d) (dw_now2 d) e"

definition provenance :: "string \<Rightarrow> string \<Rightarrow> Provenance" where
  "provenance source collector = (ev_Provenance zero_Event)\<lparr>prov_Source := source, prov_Collector := collector\<rparr>"

definition parse_raw :: "draw \<Rightarrow> string \<Rightarrow> string \<Rightarrow> Event option" where
  "parse_raw d source line =
     (if TrimSpace line = [] then None
      else Some (prepared d (zero_Event\<lparr>ev_Kind := ''log.observation'', ev_Severity := SeverityInfo,
             ev_Trust := TrustUntrustedTelemetry, ev_Message := line,
             ev_Provenance := provenance source ''filetail/raw''\<rparr>)))"

definition parse_json :: "parse_codec \<Rightarrow> draw \<Rightarrow> string \<Rightarrow> string \<Rightarrow> (parse_error, Event option) result" where
  "parse_json X d source line =
     (if TrimSpace line = [] then Inr None
      else case px_json X line of
             None \<Rightarrow> Inl PErrJSON
           | Some e0 \<Rightarrow>
               (let e = prepared d e0; p = ev_Provenance e;
                    p1 = (if prov_Source p = [] then p\<lparr>prov_Source := source\<rparr> else p);
                    p2 = (if prov_Collector p1 = [] then p1\<lparr>prov_Collector := ''filetail/jsonl''\<rparr> else p1)
                in Inr (Some (e\<lparr>ev_Provenance := p2\<rparr>))))"

definition status_text :: "string \<Rightarrow> string \<Rightarrow> int \<Rightarrow> string" where
  "status_text meth path status = meth @ '' '' @ path @ '' status='' @ Itoa status"

text \<open>A row of a W3C log: the last of two equal field names counts.\<close>

definition iis_row :: "string list \<Rightarrow> string list \<Rightarrow> string \<Rightarrow> string" where
  "iis_row names vals k = (case map_of (rev (zip names (map dashToEmpty vals))) k of None \<Rightarrow> [] | Some v \<Rightarrow> v)"

definition iis_event :: "parse_codec \<Rightarrow> draw \<Rightarrow> string \<Rightarrow> (string \<Rightarrow> string) \<Rightarrow> Event" where
  "iis_event X d source row =
     (let timestamp = (if row ''date'' \<noteq> [] \<and> row ''time'' \<noteq> []
                       then (case px_w3c X (row ''date'' @ '' '' @ row ''time'') of None \<Rightarrow> dw_time d | Some t \<Rightarrow> t)
                       else dw_time d);
          status = parse_int (row ''sc-status''); path = QueryUnescape (row ''cs-uri-stem'')
      in prepared d (zero_Event\<lparr>ev_Timestamp := timestamp, ev_Kind := ''web.request'',
           ev_Severity := severityFromHTTP status, ev_Trust := TrustUntrustedTelemetry,
           ev_Actor := (ev_Actor zero_Event)\<lparr>actor_User := row ''cs-username''\<rparr>,
           ev_Network := (ev_Network zero_Event)\<lparr>net_SourceIP := row ''c-ip'', net_DestinationIP := row ''s-ip''\<rparr>,
           ev_HTTP := \<lparr>http_Method = row ''cs-method'', http_Path = path, http_Query = QueryUnescape (row ''cs-uri-query''),
             http_Status = status,
             http_UserAgent = QueryUnescape (ReplaceChar (CHR ''+'') (CHR '' '') (row ''cs(User-Agent)'')),
             http_Referer = row ''cs(Referer)'', http_Host = row ''cs-host'', http_RequestID = [],
             http_BytesSent = parse_int (row ''sc-bytes''), http_DurationMS = parse_int (row ''time-taken'')\<rparr>,
           ev_Message := status_text (row ''cs-method'') path status,
           ev_Attributes := Some [(''site_name'', VString (row ''s-sitename'')), (''server_port'', VString (row ''s-port'')),
             (''substatus'', VString (row ''sc-substatus'')), (''win32_status'', VString (row ''sc-win32-status''))],
           ev_Provenance := provenance source ''filetail/iis_w3c''\<rparr>))"

definition parse_iis :: "parse_codec \<Rightarrow> draw \<Rightarrow> string \<Rightarrow> string list \<Rightarrow> string \<Rightarrow> (parse_error, Event option) result \<times> string list" where
  "parse_iis X d source names line0 =
     (let line = TrimSpace line0
      in if line = [] then (Inr None, names)
         else if HasPrefix line ''#Fields:'' then (Inr None, Fields (TrimSpace (TrimPrefix line ''#Fields:'')))
         else if HasPrefix line ''#'' then (Inr None, names)
         else if names = [] then (Inl PErrHeader, names)
         else let vals = Fields line
              in if length vals < length names then (Inl PErrFieldCount, names)
                 else (Inr (Some (iis_event X d source (iis_row names vals))), names))"

definition quoted_field :: "nat \<Rightarrow> regex" where
  "quoted_field n = RSeqs [RByte (CHR 0x22), RGroup n (RStar True (RNoneOf [CHR 0x22])), RByte (CHR 0x22)]"

definition nginxCombined :: regex where
  "nginxCombined = RSeqs
     [RBegin, RGroup 1 (RPlus RNotSpace), RSpaces1, RPlus RNotSpace, RSpaces1, RGroup 2 (RPlus RNotSpace), RSpaces1,
      RByte (CHR ''[''), RGroup 3 (RPlus (RNoneOf '']'')), RByte (CHR '']''), RSpaces1,
      RByte (CHR 0x22), RGroup 4 (RPlus RNotSpace), RSpaces1, RGroup 5 (RPlus (RChar (\<lambda>c. \<not> re_space c \<and> c \<noteq> CHR 0x22))),
      ROpt (RSeq RSpaces1 (RGroup 6 (RPlus (RNoneOf [CHR 0x22])))), RByte (CHR 0x22), RSpaces1,
      RGroup 7 (RTimes 3 RDigit), RSpaces1, RGroup 8 (RPlus RNotSpace), RSpaces1, quoted_field 9, RSpaces1, quoted_field 10]"

definition parse_nginx :: "parse_codec \<Rightarrow> draw \<Rightarrow> string \<Rightarrow> string \<Rightarrow> (parse_error, Event option) result" where
  "parse_nginx X d source line0 =
     (let line = TrimSpace line0
      in if line = [] then Inr None
         else case FindStringSubmatch nginxCombined line of
                None \<Rightarrow> Inl PErrNginx
              | Some g \<Rightarrow>
                  (case px_clf X (g 3) of
                     None \<Rightarrow> Inl PErrNginxTime
                   | Some timestamp \<Rightarrow>
                       (let status = parse_int (g 7);
                            (path, query) = (case px_uri X (g 5) of None \<Rightarrow> (g 5, []) | Some (p, q) \<Rightarrow> (p, q))
                        in Inr (Some (prepared d (zero_Event\<lparr>ev_Timestamp := timestamp, ev_Kind := ''web.request'',
                             ev_Severity := severityFromHTTP status, ev_Trust := TrustUntrustedTelemetry,
                             ev_Actor := (ev_Actor zero_Event)\<lparr>actor_User := dashToEmpty (g 2)\<rparr>,
                             ev_Network := (ev_Network zero_Event)\<lparr>net_SourceIP := g 1\<rparr>,
                             ev_HTTP := (ev_HTTP zero_Event)\<lparr>http_Method := g 4, http_Path := path, http_Query := query,
                               http_Status := status, http_Referer := dashToEmpty (g 9), http_UserAgent := dashToEmpty (g 10),
                               http_BytesSent := parse_int (dashToEmpty (g 8))\<rparr>,
                             ev_Message := status_text (g 4) path status,
                             ev_Attributes := Some [(''http_version'', VString (g 6))],
                             ev_Provenance := provenance source ''filetail/nginx_combined''\<rparr>))))))"

definition syslogPattern :: regex where
  "syslogPattern = RSeqs
     [RBegin, ROpt (RSeqs [RByte (CHR ''<''), RGroup 1 (RBetween 1 3 RDigit), RByte (CHR ''>'')]),
      RGroup 2 (RSeqs [RChar (\<lambda>c. CHR ''A'' \<le> c \<and> c \<le> CHR ''Z''), RTimes 2 (RChar (\<lambda>c. CHR ''a'' \<le> c \<and> c \<le> CHR ''z'')),
        RSpaces1, RBetween 1 2 RDigit, RSpaces1, RTimes 2 RDigit, RByte (CHR '':''), RTimes 2 RDigit, RByte (CHR '':''),
        RTimes 2 RDigit]),
      RSpaces1, RGroup 3 (RPlus RNotSpace), RSpaces1, RGroup 4 (RPlus (RNoneOf '':'')), RByte (CHR '':''), ROpt RSpace,
      RGroup 5 (RStar True RDot), REnd]"

definition parse_syslog :: "parse_codec \<Rightarrow> draw \<Rightarrow> string \<Rightarrow> string \<Rightarrow> Event option" where
  "parse_syslog X d source line0 =
     (let line = TrimSpace line0
      in if line = [] then None
         else case FindStringSubmatch syslogPattern line of
                None \<Rightarrow> Some (prepared d (zero_Event\<lparr>ev_Kind := ''syslog.message'', ev_Message := line,
                          ev_Trust := TrustUntrustedTelemetry, ev_Provenance := provenance source ''filetail/syslog''\<rparr>))
              | Some g \<Rightarrow>
                  (let priority = parse_int (g 1);
                       year = fst (civil (dw_time d div (86400 * Second)));
                       timestamp = (case px_syslog X (Itoa year @ '' '' @ g 2) of None \<Rightarrow> dw_time2 d | Some t \<Rightarrow> t)
                   in Some (prepared d (zero_Event\<lparr>ev_Timestamp := timestamp, ev_Kind := ''syslog.message'',
                        ev_Severity := severityFromSyslog priority, ev_Trust := TrustUntrustedTelemetry,
                        ev_Asset := (ev_Asset zero_Event)\<lparr>asset_Hostname := g 3\<rparr>, ev_Message := g 5,
                        ev_Attributes := Some [(''priority'', VInt priority), (''program'', VString (g 4))],
                        ev_Provenance := provenance source ''filetail/syslog''\<rparr>))))"

definition mysqlGeneral :: regex where
  "mysqlGeneral = RSeqs
     [RBegin,
      ROpt (RGroup 1 (RAlt
        (RSeqs [RTimes 4 RDigit, RByte (CHR ''-''), RTimes 2 RDigit, RByte (CHR ''-''), RTimes 2 RDigit, RByte (CHR ''T''),
                RPlus RNotSpace])
        (RSeqs [RTimes 6 RDigit, RSpaces1, RBetween 1 2 RDigit, RByte (CHR '':''), RTimes 2 RDigit, RByte (CHR '':''),
                RTimes 2 RDigit]))),
      RSpaces, ROpt (RGroup 2 (RPlus RDigit)), RSpaces,
      RGroup 3 (RAlts [RLit ''Connect'', RLit ''Query'', RLit ''Execute'', RLit ''Init DB'', RLit ''Quit'']), RSpaces,
      RGroup 4 (RStar True RDot), REnd]"

definition mysql_database :: DatabaseContext where
  "mysql_database = (ev_Database zero_Event)\<lparr>db_Engine := ''mysql''\<rparr>"

definition parse_mysql :: "parse_codec \<Rightarrow> draw \<Rightarrow> string \<Rightarrow> string \<Rightarrow> Event option" where
  "parse_mysql X d source line0 =
     (let line = TrimSpace line0
      in if line = [] \<or> HasPrefix line ''/usr/'' \<or> HasPrefix line ''Time'' then None
         else case FindStringSubmatch mysqlGeneral line of
                None \<Rightarrow> Some (prepared d (zero_Event\<lparr>ev_Kind := ''database.log'', ev_Message := line,
                          ev_Trust := TrustUntrustedTelemetry, ev_Database := mysql_database,
                          ev_Provenance := provenance source ''filetail/mysql_general''\<rparr>))
              | Some g \<Rightarrow>
                  (let command = TrimSpace (g 3); payload = TrimSpace (g 4);
                       isQuery = (command = ''Query'' \<or> command = ''Execute'')
                   in Some (prepared d (zero_Event\<lparr>
                        ev_Kind := (if isQuery then ''database.query'' else ''database.log''),
                        ev_Severity := SeverityInfo, ev_Trust := TrustUntrustedTelemetry,
                        ev_Database := (if isQuery then mysql_database\<lparr>db_QueryFingerprint := SQLFingerprint (px_crypto X) payload,
                                          db_QueryVerbs := SQLVerbs payload\<rparr> else mysql_database),
                        ev_Message := payload,
                        ev_Attributes := Some ([(''thread_id'', VString (g 2)), (''command'', VString command)]
                          @ (if isQuery then [(''normalized_query'', VString (SQL payload))] else [])),
                        ev_Provenance := provenance source ''filetail/mysql_general''\<rparr>))))"

definition Parse :: "parse_codec \<Rightarrow> draw \<Rightarrow> Parser \<Rightarrow> string \<Rightarrow> (parse_error, Event option) result \<times> Parser" where
  "Parse X d p line =
     (case p of
        rawParser source \<Rightarrow> (Inr (parse_raw d source line), p)
      | jsonParser source \<Rightarrow> (parse_json X d source line, p)
      | iisParser source names \<Rightarrow>
          (case parse_iis X d source names line of (r, names1) \<Rightarrow> (r, iisParser source names1))
      | nginxParser source \<Rightarrow> (parse_nginx X d source line, p)
      | syslogParser source \<Rightarrow> (Inr (parse_syslog X d source line), p)
      | mysqlParser source \<Rightarrow> (Inr (parse_mysql X d source line), p))"

section \<open>Facts\<close>

fun source_of :: "Parser \<Rightarrow> string" where
  "source_of (rawParser s) = s" | "source_of (jsonParser s) = s" | "source_of (iisParser s fs) = s"
| "source_of (nginxParser s) = s" | "source_of (syslogParser s) = s" | "source_of (mysqlParser s) = s"

text \<open>Telemetry as the text formats make it.\<close>

definition telemetry :: "string \<Rightarrow> Event \<Rightarrow> bool" where
  "telemetry source e = (ev_Trust e = TrustUntrustedTelemetry \<and> IsUntrusted (ev_Trust e)
     \<and> prov_Source (ev_Provenance e) = source \<and> HasPrefix (prov_Collector (ev_Provenance e)) ''filetail/''
     \<and> ev_AgentID e = [] \<and> ev_TenantID e = [])"

lemma prepared_telemetry:
  assumes "ev_Trust e = TrustUntrustedTelemetry" "ev_Provenance e = provenance source (''filetail/'' @ c)"
    and "ev_AgentID e = []" "ev_TenantID e = []"
  shows "telemetry source (prepared d e)"
  using assms by (simp add: telemetry_def prepared_def Event_Prepare_def provenance_def trust_defs IsUntrusted_def)

lemma unprepared_telemetry:
  "telemetry source (iis_event X d source row)" "parse_raw d source line = Some e \<Longrightarrow> telemetry source e"
  unfolding iis_event_def parse_raw_def Let_def
  by (auto split: if_splits intro!: prepared_telemetry simp: zero_Event_def)

lemma nginx_telemetry: "parse_nginx X d source line = Inr (Some e) \<Longrightarrow> telemetry source e"
  unfolding parse_nginx_def Let_def
  by (auto split: if_splits option.splits prod.splits intro!: prepared_telemetry simp: zero_Event_def)

lemma syslog_telemetry: "parse_syslog X d source line = Some e \<Longrightarrow> telemetry source e"
  unfolding parse_syslog_def Let_def
  by (auto split: if_splits option.splits intro!: prepared_telemetry simp: zero_Event_def)

lemma mysql_telemetry: "parse_mysql X d source line = Some e \<Longrightarrow> telemetry source e"
  unfolding parse_mysql_def Let_def
  by (auto split: if_splits option.splits intro!: prepared_telemetry simp: zero_Event_def)

lemma iis_telemetry: "parse_iis X d source names line = (Inr (Some e), names1) \<Longrightarrow> telemetry source e"
  unfolding parse_iis_def Let_def by (auto split: if_splits simp: unprepared_telemetry)

lemma Parse_source [simp]: "source_of (snd (Parse X d p line)) = source_of p"
  by (cases p) (simp_all add: Parse_def split: prod.split)

text \<open>C31. Whatever a line says, an event made by one of the text formats (raw, IIS, nginx, syslog, MySQL) is untrusted
  telemetry of the source the parser was built for, with a collector name of the tailer and without an agent or tenant
  identifier. (The JSON format is left out: it keeps the trust the line claims.)\<close>

theorem text_lines_are_untrusted:
  assumes "fst (Parse X d p line) = Inr (Some e)" and "\<not> is_jsonl p"
  shows "telemetry (source_of p) e"
  using assms
  by (cases p) (auto simp: Parse_def unprepared_telemetry nginx_telemetry syslog_telemetry mysql_telemetry
      split: prod.splits dest: iis_telemetry)

definition toy_codec :: parse_codec where
  "toy_codec = \<lparr>px_crypto = toy_crypto, px_json = (\<lambda>_. None), px_uri = (\<lambda>_. None), px_w3c = (\<lambda>_. Some 7),
     px_clf = (\<lambda>_. Some 7), px_syslog = (\<lambda>_. Some 7)\<rparr>"

definition toy_draw :: draw where
  "toy_draw = \<lparr>dw_id = ''e1'', dw_time = 5, dw_time2 = 6, dw_now1 = 8, dw_now2 = 9\<rparr>"

lemma text_lines_are_untrusted_witness:
  "telemetry ''web'' (iis_event toy_codec toy_draw ''web'' (iis_row [''cs-method'', ''sc-status''] [''GET'', ''500'']))
     \<and> ev_Severity (iis_event toy_codec toy_draw ''web'' (iis_row [''cs-method'', ''sc-status''] [''GET'', ''500''])) = SeverityMedium"
proof
  have "fst (Parse toy_codec toy_draw (iisParser ''web'' [''cs-method'', ''sc-status'']) ''GET 500'') =
      Inr (Some (iis_event toy_codec toy_draw ''web'' (iis_row [''cs-method'', ''sc-status''] [''GET'', ''500''])))"
    by code_simp
  from text_lines_are_untrusted [OF this]
  show "telemetry ''web'' (iis_event toy_codec toy_draw ''web'' (iis_row [''cs-method'', ''sc-status''] [''GET'', ''500'']))"
    by simp
  show "ev_Severity (iis_event toy_codec toy_draw ''web'' (iis_row [''cs-method'', ''sc-status''] [''GET'', ''500''])) = SeverityMedium"
    by code_simp
qed

section \<open>The W3C header\<close>

text \<open>The header in force after the lines \<open>earlier\<close>, the last one first.\<close>

definition iis_header :: "string \<Rightarrow> string list option" where
  "iis_header line =
     (if HasPrefix (TrimSpace line) ''#Fields:''
      then Some (Fields (TrimSpace (TrimPrefix (TrimSpace line) ''#Fields:''))) else None)"

fun header_in_force :: "string list \<Rightarrow> string list" where
  "header_in_force [] = []"
| "header_in_force (line # earlier) = (case iis_header line of Some names \<Rightarrow> names | None \<Rightarrow> header_in_force earlier)"

text \<open>What a row yields, without a state.\<close>

definition iis_reference :: "parse_codec \<Rightarrow> draw \<Rightarrow> string \<Rightarrow> string list \<Rightarrow> string \<Rightarrow> (parse_error, Event option) result" where
  "iis_reference X d source names line =
     (if TrimSpace line = [] \<or> hd (TrimSpace line) = CHR ''#'' then Inr None
      else if names = [] then Inl PErrHeader
      else if length (Fields (TrimSpace line)) < length names then Inl PErrFieldCount
      else Inr (Some (iis_event X d source (iis_row names (Fields (TrimSpace line))))))"

fun run_lines :: "parse_codec \<Rightarrow> Parser \<Rightarrow> (draw \<times> string) list \<Rightarrow> Parser" where
  "run_lines X p [] = p"
| "run_lines X p ((d, line) # later) = run_lines X (snd (Parse X d p line)) later"

lemma run_lines_append: "run_lines X p (xs @ ys) = run_lines X (run_lines X p xs) ys"
  by (induction xs arbitrary: p) auto

lemma hash_prefix: "HasPrefix line ''#'' \<longleftrightarrow> line \<noteq> [] \<and> hd line = CHR ''#''"
  by (cases line) auto

lemma fields_prefix: "HasPrefix line ''#Fields:'' \<Longrightarrow> line \<noteq> [] \<and> hd line = CHR ''#''"
  by (cases line) auto

lemma parse_iis_names:
  "snd (parse_iis X d source names line) = (case iis_header line of Some ns \<Rightarrow> ns | None \<Rightarrow> names)"
  unfolding parse_iis_def Let_def iis_header_def by auto

lemma parse_iis_reference: "fst (parse_iis X d source names line) = iis_reference X d source names line"
  unfolding parse_iis_def Let_def iis_reference_def by (auto simp: hash_prefix dest: fields_prefix)

lemma run_lines_header:
  "run_lines X (iisParser source []) before = iisParser source (header_in_force (rev (map snd before)))"
proof (induction before rule: rev_induct)
  case Nil
  then show ?case by simp
next
  case (snoc x xs)
  obtain d line where x: "x = (d, line)" by (rule prod.exhaust)
  show ?case
    using parse_iis_names [of X d source "header_in_force (rev (map snd xs))" line]
    by (auto simp: x run_lines_append snoc.IH Parse_def split: prod.split)
qed

text \<open>The W3C parser is the stateless reference: after any sequence of lines (rows, errors and comments included)
  the next line is read with the field names of the last \<open>#Fields:\<close> line before it; blank lines and comments yield
  nothing, a row without a header or with too few columns is an error and leaves the header in force, and every other
  row yields its event.\<close>

theorem iis_rows_follow_the_last_header:
  "fst (Parse X d (run_lines X (iisParser source []) before) line) =
     iis_reference X d source (header_in_force (rev (map snd before))) line"
  using parse_iis_reference [of X d source "header_in_force (rev (map snd before))" line]
  by (auto simp: run_lines_header Parse_def split: prod.split)

section \<open>Priorities\<close>

text \<open>Without a \<open><PRI>\<close> part the priority is read from an empty submatch, is 0, and the event is critical.\<close>

lemma syslog_without_priority_is_critical:
  assumes "FindStringSubmatch syslogPattern (TrimSpace line) = Some g" "g 1 = []"
    and "TrimSpace line \<noteq> []" "parse_syslog X d source line = Some e"
  shows "ev_Severity e = SeverityCritical"
  using assms by (auto simp: parse_syslog_def Let_def prepared_def Event_Prepare_def parse_int_def
      severityFromSyslog_def severity_defs)

lemma jsonl_keeps_the_claimed_trust:
  assumes "px_json X line = Some e" "TrimSpace line \<noteq> []" "ev_Trust e \<noteq> []"
  shows "\<exists>e'. fst (Parse X d (jsonParser source) line) = Inr (Some e') \<and> ev_Trust e' = ev_Trust e"
  using assms by (auto simp: Parse_def parse_json_def Let_def prepared_def Event_Prepare_def)

end
