(* ===== verification/Go_Text.thy ===== *)
theory Go_Text
  imports Go_Net Go_Regexp
begin

text \<open>
  Textual forms the configuration uses: \<open>time.ParseDuration\<close>, \<open>net.SplitHostPort\<close>, and whole-text matches of identifier
  patterns (a first class of characters, then at most \<open>n\<close> of a second one).
\<close>

section \<open>\<open>time.ParseDuration\<close>\<close>

text \<open>The digits after the point: value and scale; digits that no longer fit are skipped.\<close>

fun fraction_digits :: "int \<Rightarrow> int \<Rightarrow> string \<Rightarrow> int \<times> int" where
  "fraction_digits x scale [] = (x, scale)"
| "fraction_digits x scale (c # cs) =
     (let y = x * 10 + (of_char c - 48)
      in if x > (2 ^ 63 - 1) div 10 \<or> y > 2 ^ 63 then (x, scale) else fraction_digits y (scale * 10) cs)"

definition unit_ns :: "string \<Rightarrow> int option" where
  "unit_ns u =
     (if u = ''ns'' then Some Nanosecond
      else if u = ''us'' \<or> u = [CHR 0xC2, CHR 0xB5, CHR ''s''] \<or> u = [CHR 0xCE, CHR 0xBC, CHR ''s''] then Some (1000 * Nanosecond)
      else if u = ''ms'' then Some Millisecond
      else if u = ''s'' then Some Second
      else if u = ''m'' then Some Minute
      else if u = ''h'' then Some Hour
      else None)"

text \<open>One number with its unit: its nanoseconds and what follows. Go multiplies the fraction in \<open>float64\<close>; here the
  product is exact and rounded down, which can differ in the last nanosecond when the unit does not divide the scale.\<close>

definition duration_part :: "string \<Rightarrow> (int \<times> string) option" where
  "duration_part s =
     (let whole = takeWhile dec_digit s; s1 = dropWhile dec_digit s;
          point = HasPrefix s1 ''.'';
          frac = (if point then takeWhile dec_digit (tl s1) else []);
          s2 = (if point then dropWhile dec_digit (tl s1) else s1);
          u = takeWhile (\<lambda>c. c \<noteq> CHR ''.'' \<and> \<not> dec_digit c) s2;
          s3 = dropWhile (\<lambda>c. c \<noteq> CHR ''.'' \<and> \<not> dec_digit c) s2
      in if dec_value whole > 2 ^ 63 then None
         else if whole = [] \<and> frac = [] then None
         else if u = [] then None
         else case unit_ns u of
                None \<Rightarrow> None
              | Some k \<Rightarrow>
                  if dec_value whole > 2 ^ 63 div k then None
                  else let (f, scale) = fraction_digits 0 1 frac; v = dec_value whole * k + f * k div scale
                       in if v > 2 ^ 63 then None else Some (v, s3))"

lemma length_dropWhile_less: "takeWhile P s \<noteq> [] \<Longrightarrow> length (dropWhile P s) < length s"
  by (metis append_Nil length_append length_dropWhile_le nat_less_le self_append_conv2 takeWhile_dropWhile_id add_cancel_left_left length_0_conv)

lemma duration_part_shorter:
  assumes "duration_part s = Some (v, r)"
  shows "length r < length s"
proof -
  let ?U = "\<lambda>c. c \<noteq> CHR ''.'' \<and> \<not> dec_digit c"
  define s2 where "s2 = (if HasPrefix (dropWhile dec_digit s) ''.'' then dropWhile dec_digit (tl (dropWhile dec_digit s))
    else dropWhile dec_digit s)"
  have r: "r = dropWhile ?U s2" and u: "takeWhile ?U s2 \<noteq> []"
    using assms by (auto simp: duration_part_def Let_def s2_def split: if_splits option.splits prod.splits)
  have "length (dropWhile dec_digit (tl t)) \<le> length t" for t
    using length_dropWhile_le [of dec_digit "tl t"] by simp
  then have "length s2 \<le> length s"
    unfolding s2_def using length_dropWhile_le [of dec_digit s] order_trans by auto
  then show ?thesis using length_dropWhile_less [OF u] r by simp
qed

function duration_sum :: "int \<Rightarrow> string \<Rightarrow> int option" where
  "duration_sum d s =
     (if s = [] then Some d
      else case duration_part s of
             None \<Rightarrow> None
           | Some (v, r) \<Rightarrow> if d + v > 2 ^ 63 then None else duration_sum (d + v) r)"
  by pat_completeness auto
termination
  by (relation "measure (\<lambda>(d, s). length s)") (auto dest: duration_part_shorter)

declare duration_sum.simps [simp del]

definition ParseDuration :: "string \<Rightarrow> duration option" where
  "ParseDuration s =
     (let neg = HasPrefix s ''-''; t = (if HasPrefix s ''-'' \<or> HasPrefix s ''+'' then tl s else s)
      in if t = ''0'' then Some 0
         else if t = [] then None
         else case duration_sum 0 t of
                None \<Rightarrow> None
              | Some d \<Rightarrow> if neg then Some (- d) else if d > 2 ^ 63 - 1 then None else Some d)"

lemma ParseDuration_examples:
  "ParseDuration ''2s'' = Some (2 * Second)" "ParseDuration ''1h30m'' = Some (90 * Minute)"
  "ParseDuration ''250ms'' = Some (250 * Millisecond)" "ParseDuration ''1.5s'' = Some (1500 * Millisecond)"
  "ParseDuration ''-1m'' = Some (- Minute)" "ParseDuration ''5'' = None" "ParseDuration ''s'' = None"
  "ParseDuration '''' = None" "ParseDuration ''168h'' = Some (168 * Hour)" "ParseDuration ''1d'' = None"
  by (simp_all add: ParseDuration_def duration_sum.simps duration_part_def Let_def dec_digit_def dec_value_def unit_ns_def
      duration_defs less_eq_char_def)

section \<open>\<open>net.SplitHostPort\<close>\<close>

definition before_last :: "char \<Rightarrow> string \<Rightarrow> string" where
  "before_last c s = rev (tl (dropWhile (\<lambda>d. d \<noteq> c) (rev s)))"

definition after_last :: "char \<Rightarrow> string \<Rightarrow> string" where
  "after_last c s = rev (takeWhile (\<lambda>d. d \<noteq> c) (rev s))"

definition SplitHostPort :: "string \<Rightarrow> (string \<times> string) option" where
  "SplitHostPort hostport =
     (if CHR '':'' \<notin> set hostport then None
      else if HasPrefix hostport ''[''
      then (let host = takeWhile (\<lambda>c. c \<noteq> CHR '']'') (tl hostport); rest = dropWhile (\<lambda>c. c \<noteq> CHR '']'') (tl hostport);
                port = after_last (CHR '':'') hostport
            in if rest = [] \<or> tl rest \<noteq> CHR '':'' # port then None
               else if CHR ''['' \<in> set (tl hostport) \<or> CHR '']'' \<in> set (tl rest) then None
               else Some (host, port))
      else (let host = before_last (CHR '':'') hostport
            in if CHR '':'' \<in> set host then None
               else if CHR ''['' \<in> set hostport \<or> CHR '']'' \<in> set hostport then None
               else Some (host, after_last (CHR '':'') hostport)))"

text \<open>\<open>strings.Trim(s, "[]")\<close>.\<close>

definition trim_brackets :: "string \<Rightarrow> string" where
  "trim_brackets s = (let P = (\<lambda>c. c = CHR ''['' \<or> c = CHR '']'') in rev (dropWhile P (rev (dropWhile P s))))"

lemma SplitHostPort_examples:
  "SplitHostPort ''127.0.0.1:9477'' = Some (''127.0.0.1'', ''9477'')" "SplitHostPort ''[::1]:80'' = Some (''::1'', ''80'')"
  "SplitHostPort ''::1:80'' = None" "SplitHostPort ''host'' = None" "SplitHostPort '':80'' = Some ([], ''80'')"
  "SplitHostPort ''[::1]'' = None"
  by code_simp+

section \<open>Identifier patterns\<close>

text \<open>\<open>^A B{0,n}$\<close>.\<close>

definition word_pattern :: "(char \<Rightarrow> bool) \<Rightarrow> nat \<Rightarrow> (char \<Rightarrow> bool) \<Rightarrow> regex" where
  "word_pattern A n B = RSeqs [RBegin, RChar A, RUpTo n (RChar B), REnd]"

lemma runs_class_upto:
  "q \<in> set (runs (RUpTo n (RChar B)) p) \<longleftrightarrow>
     (\<exists>k. k \<le> n \<and> k \<le> length (pos_rest p) \<and> list_all B (take k (pos_rest p)) \<and> q = adv k p)"
proof (induction n arbitrary: p)
  case 0
  then show ?case by auto
next
  case (Suc n)
  show ?case
  proof (cases "pos_rest p")
    case Nil
    then show ?thesis by (auto simp: ROpt_def eat_adv)
  next
    case rest: (Cons c cs)
    have step: "adv k (adv 1 p) = adv (Suc k) p" if "k \<le> length cs" for k
      using that adv_adv [of 1 k p] rest by simp
    show ?thesis (is "?L \<longleftrightarrow> ?R")
    proof
      assume ?L
      then consider "q = p" | "B c" "q \<in> set (runs (RUpTo n (RChar B)) (adv 1 p))"
        by (auto simp: ROpt_def eat_adv rest split: if_splits)
      then show ?R
      proof cases
        case 1
        then show ?thesis by (intro exI [of _ 0]) simp
      next
        case 2
        then obtain k where k: "k \<le> n" "k \<le> length cs" "list_all B (take k cs)" "q = adv k (adv 1 p)"
          using Suc.IH [of "adv 1 p"] rest by auto
        then show ?thesis using 2(1) rest step [OF k(2)] by (intro exI [of _ "Suc k"]) simp
      qed
    next
      assume ?R
      then obtain k where k: "k \<le> Suc n" "k \<le> length (pos_rest p)" "list_all B (take k (pos_rest p))" "q = adv k p" by blast
      show ?L
      proof (cases k)
        case 0
        then show ?thesis using k by (simp add: ROpt_def)
      next
        case (Suc j)
        then have "q \<in> set (runs (RUpTo n (RChar B)) (adv 1 p))"
          unfolding Suc.IH using k rest step [of j] by (intro exI [of _ j]) simp
        then show ?thesis using k Suc rest by (auto simp: ROpt_def eat_adv)
      qed
    qed
  qed
qed

lemma not_begin: "find_from (RSeq RBegin r) (Some c) s = None"
  by (induction s arbitrary: c) (simp_all add: find_from_miss)

lemma MatchString_begin: "MatchString (RSeq RBegin r) s \<longleftrightarrow> runs r (at None s) \<noteq> []"
proof (cases "runs r (at None s)")
  case Nil
  then show ?thesis by (cases s) (simp_all add: MatchString_def find_from_miss not_begin)
next
  case (Cons q qs)
  then show ?thesis by (simp add: MatchString_def find_from_hit)
qed

lemma word_pattern_iff:
  "MatchString (word_pattern A n B) s \<longleftrightarrow> s \<noteq> [] \<and> A (hd s) \<and> list_all B (tl s) \<and> length (tl s) \<le> n"
proof (cases s)
  case Nil
  then show ?thesis by (simp add: word_pattern_def MatchString_begin eat_def)
next
  case (Cons c cs)
  have end_of: "runs REnd (adv k (adv 1 (at None s))) \<noteq> [] \<longleftrightarrow> length cs \<le> k" for k
    using Cons by simp
  have "MatchString (word_pattern A n B) s \<longleftrightarrow>
      A c \<and> (\<exists>q\<in>set (runs (RUpTo n (RChar B)) (adv 1 (at None s))). runs REnd q \<noteq> [])"
    using Cons by (auto simp: word_pattern_def MatchString_begin eat_adv simp del: runs.simps(8))
  also have "\<dots> \<longleftrightarrow> A c \<and> (\<exists>k. k \<le> n \<and> k \<le> length cs \<and> list_all B (take k cs) \<and> length cs \<le> k)"
    unfolding Bex_def runs_class_upto using end_of Cons by auto
  also have "\<dots> \<longleftrightarrow> A c \<and> list_all B cs \<and> length cs \<le> n" by auto
  finally show ?thesis using Cons by simp
qed

end
