(* ===== verification/Config.thy ===== *)
theory Config
  imports Go_Text Go_IO Model
begin

text \<open>
  \<open>internal/config/config.go\<close>: the configuration, its defaults, loading and validation, and the persisted agent identifier.
  The JSON decoder (which overwrites the fields the file names), \<open>url.Parse\<close> and the random source are parameters; the
  host is not Windows.
\<close>

section \<open>Data\<close>

record Source =
  src_ID :: string
  src_Enabled :: bool
  src_Path :: string
  src_Format :: string
  src_Trust :: TrustLevel
  src_FromStart :: bool
  src_MaxBatch :: int

record NativeSource =
  ns_ID :: string
  ns_Enabled :: bool
  ns_Kind :: string
  ns_Channel :: string
  ns_EventIDs :: "int list"
  ns_Units :: "string list"
  ns_Identifiers :: "string list"
  ns_Path :: string
  ns_FromStart :: bool
  ns_MaxBatch :: int
  ns_CommandTimeout :: string

record API =
  api_Enabled :: bool
  api_Listen :: string
  api_TokenFile :: string

record Central =
  cen_Enabled :: bool
  cen_URL :: string
  cen_EnrollmentTokenFile :: string
  cen_APIKeyFile :: string
  cen_AllowUntrusted :: bool
  cen_HeartbeatInterval :: string
  cen_BatchInterval :: string
  cen_MaxBatch :: int
  cen_QueueSize :: int

record ToolPolicy =
  tp_PolicyFile :: string
  tp_AllowedPaths :: "string list"

record AI =
  ai_Enabled :: bool
  ai_Endpoint :: string
  ai_Model :: string
  ai_APIKeyEnv :: string
  ai_AllowRemote :: bool
  ai_Timeout :: string

record InventoryConfig =
  ic_Enabled :: bool
  ic_Interval :: string
  ic_CommandTimeout :: string
  ic_IncludeProcesses :: bool
  ic_IncludeServices :: bool
  ic_IncludeListeners :: bool
  ic_IncludeSoftware :: bool
  ic_MaxItems :: int

record TransportConfig =
  tr_Enabled :: bool
  tr_Endpoint :: string
  tr_CertFile :: string
  tr_KeyFile :: string
  tr_CAFile :: string
  tr_ServerName :: string
  tr_Timeout :: string
  tr_FlushInterval :: string
  tr_BatchSize :: int
  tr_PendingWarn :: int
  tr_AutoRenew :: bool
  tr_RenewalEndpoint :: string
  tr_RenewBefore :: string
  tr_RenewCheckInterval :: string

record Config =
  cf_AgentID :: string
  cf_TenantID :: string
  cf_DataDir :: string
  cf_PollInterval :: duration
  cf_Poll :: string
  cf_Sources :: "Source list"
  cf_NativeSources :: "NativeSource list"
  cf_API :: API
  cf_Tools :: ToolPolicy
  cf_AI :: AI
  cf_Inventory :: InventoryConfig
  cf_Transport :: TransportConfig
  cf_Central :: Central

text \<open>A parsed URL: its scheme, its host, and its text with another path and neither query nor fragment.\<close>

record parsed_url =
  pu_Scheme :: string
  pu_Host :: string
  pu_at :: "string \<Rightarrow> string"

record config_codec =
  cc_decode :: "string \<Rightarrow> Config \<Rightarrow> Config option"
  cc_url :: "string \<Rightarrow> parsed_url option"

datatype config_error =
    CfgRead oserr | CfgDecode | CfgPoll | CfgPollRange | CfgListen | CfgLoopback | CfgAI | CfgAITimeout
  | CfgInventoryInterval | CfgInventoryTimeout | CfgInventoryItems
  | CfgTenant | CfgEndpoint | CfgTransportFiles | CfgTransportTimeout | CfgFlush | CfgBatch | CfgPendingWarn
  | CfgRenewalEndpoint | CfgRenewBefore | CfgRenewCheck
  | CfgCentralURL | CfgCentralScheme | CfgHeartbeat | CfgCentralInterval | CfgCentralBatch | CfgQueue | CfgKeyFile
  | CfgSource | CfgDuplicate string | CfgNativeID string | CfgNativeBatch string | CfgNativeTimeout string
  | CfgChannel string | CfgEventIDs string | CfgJournald string | CfgAudit string | CfgKind string
  | CfgOS oserr | CfgIdentity | CfgRandom

section \<open>Defaults\<close>

definition defaultDataDir :: string where "defaultDataDir = ''./data''"

definition Config_Default :: Config where
  "Config_Default = \<lparr>cf_AgentID = [], cf_TenantID = [], cf_DataDir = defaultDataDir, cf_PollInterval = 2 * Second, cf_Poll = ''2s'',
     cf_Sources = [], cf_NativeSources = [],
     cf_API = \<lparr>api_Enabled = True, api_Listen = ''127.0.0.1:9477'', api_TokenFile = ''agent-api.token''\<rparr>,
     cf_Tools = \<lparr>tp_PolicyFile = ''policies/default-policy.json'', tp_AllowedPaths = [''.'']\<rparr>,
     cf_AI = \<lparr>ai_Enabled = False, ai_Endpoint = [], ai_Model = [], ai_APIKeyEnv = [], ai_AllowRemote = False, ai_Timeout = ''30s''\<rparr>,
     cf_Inventory = \<lparr>ic_Enabled = True, ic_Interval = ''15m'', ic_CommandTimeout = ''10s'', ic_IncludeProcesses = True,
       ic_IncludeServices = True, ic_IncludeListeners = True, ic_IncludeSoftware = True, ic_MaxItems = 512\<rparr>,
     cf_Transport = \<lparr>tr_Enabled = False, tr_Endpoint = [], tr_CertFile = ''certs/client.crt'', tr_KeyFile = ''agent-identity.key'',
       tr_CAFile = ''certs/ca.crt'', tr_ServerName = [], tr_Timeout = ''15s'', tr_FlushInterval = ''2s'', tr_BatchSize = 100,
       tr_PendingWarn = 10000, tr_AutoRenew = True, tr_RenewalEndpoint = [], tr_RenewBefore = ''168h'', tr_RenewCheckInterval = ''1h''\<rparr>,
     cf_Central = \<lparr>cen_Enabled = False, cen_URL = [], cen_EnrollmentTokenFile = [], cen_APIKeyFile = [], cen_AllowUntrusted = False,
       cen_HeartbeatInterval = ''60s'', cen_BatchInterval = ''10s'', cen_MaxBatch = 100, cen_QueueSize = 2000\<rparr>\<rparr>"

abbreviation or_default :: "string \<Rightarrow> string \<Rightarrow> string" where
  "or_default s d \<equiv> (if s = [] then d else s)"

definition or_count :: "int \<Rightarrow> int \<Rightarrow> int" where "or_count n d = (if n \<le> 0 then d else n)"

definition under :: "string \<Rightarrow> string \<Rightarrow> string" where
  "under base p = (if filepath_IsAbs p then p else filepath_Clean (filepath_Join [base, p]))"

definition isRootedPath :: "string \<Rightarrow> bool" where
  "isRootedPath v = (filepath_IsAbs v \<or> HasPrefix v ''/'' \<or> HasPrefix v [CHR 0x5C])"

definition renewal_endpoint :: "config_codec \<Rightarrow> TransportConfig \<Rightarrow> string" where
  "renewal_endpoint X t =
     (if tr_RenewalEndpoint t = [] \<and> tr_Endpoint t \<noteq> []
      then (case cc_url X (tr_Endpoint t) of
              None \<Rightarrow> []
            | Some u \<Rightarrow> if pu_Scheme u \<noteq> [] \<and> pu_Host u \<noteq> [] then pu_at u ''/v1/agent/certificate/renew'' else [])
      else tr_RenewalEndpoint t)"

definition transport_defaults :: "config_codec \<Rightarrow> string \<Rightarrow> TransportConfig \<Rightarrow> TransportConfig" where
  "transport_defaults X dataDir t = t\<lparr>
     tr_CertFile := under dataDir (or_default (tr_CertFile t) ''certs/client.crt''),
     tr_KeyFile := under dataDir (or_default (tr_KeyFile t) ''agent-identity.key''),
     tr_CAFile := under dataDir (or_default (tr_CAFile t) ''certs/ca.crt''),
     tr_Timeout := or_default (tr_Timeout t) ''15s'', tr_FlushInterval := or_default (tr_FlushInterval t) ''2s'',
     tr_BatchSize := or_count (tr_BatchSize t) 100, tr_PendingWarn := or_count (tr_PendingWarn t) 10000,
     tr_RenewBefore := or_default (tr_RenewBefore t) ''168h'', tr_RenewCheckInterval := or_default (tr_RenewCheckInterval t) ''1h'',
     tr_RenewalEndpoint := renewal_endpoint X t\<rparr>"

definition central_defaults :: "string \<Rightarrow> string \<Rightarrow> Central \<Rightarrow> Central" where
  "central_defaults base dataDir c =
     (let key = or_default (cen_APIKeyFile c) ''central-api.key'';
          token = or_default (cen_EnrollmentTokenFile c) ''central-enrollment.token''
      in c\<lparr>cen_HeartbeatInterval := or_default (cen_HeartbeatInterval c) ''60s'',
           cen_BatchInterval := or_default (cen_BatchInterval c) ''10s'',
           cen_MaxBatch := or_count (cen_MaxBatch c) 100, cen_QueueSize := or_count (cen_QueueSize c) 2000,
           cen_APIKeyFile := (if filepath_IsAbs key then key else filepath_Join [dataDir, key]),
           cen_EnrollmentTokenFile := (if isRootedPath token then token else filepath_Clean (filepath_Join [base, token]))\<rparr>)"

definition source_defaults :: "string \<Rightarrow> Source \<Rightarrow> Source" where
  "source_defaults base s = s\<lparr>
     src_Trust := (if src_Trust s = [] then TrustUntrustedTelemetry else src_Trust s),
     src_MaxBatch := or_count (src_MaxBatch s) 1000, src_Path := under base (src_Path s)\<rparr>"

definition native_defaults :: "string \<Rightarrow> NativeSource \<Rightarrow> NativeSource" where
  "native_defaults base s =
     (let kind = ToLower (TrimSpace (ns_Kind s));
          path = (if (kind = ''auditd'' \<or> kind = ''linux_auditd'') \<and> ns_Path s = [] then ''/var/log/audit/audit.log'' else ns_Path s)
      in s\<lparr>ns_Kind := kind, ns_MaxBatch := or_count (ns_MaxBatch s) 256,
           ns_CommandTimeout := or_default (ns_CommandTimeout s) ''15s'',
           ns_Path := (if path \<noteq> [] then under base path else path),
           ns_Units := map TrimSpace (ns_Units s), ns_Identifiers := map TrimSpace (ns_Identifiers s)\<rparr>)"

definition applyDefaults :: "config_codec \<Rightarrow> string \<Rightarrow> Config \<Rightarrow> Config" where
  "applyDefaults X configPath c =
     (let base = filepath_Dir configPath;
          d0 = or_default (cf_DataDir c) defaultDataDir; dataDir = under base d0;
          a = cf_API c; token = or_default (api_TokenFile a) ''agent-api.token'';
          t = cf_Tools c; i = cf_Inventory c
      in c\<lparr>cf_DataDir := dataDir,
           cf_API := a\<lparr>api_Listen := or_default (api_Listen a) ''127.0.0.1:9477'',
             api_TokenFile := (if filepath_IsAbs token then token else filepath_Join [dataDir, token])\<rparr>,
           cf_Tools := \<lparr>tp_PolicyFile = under base (or_default (tp_PolicyFile t) ''policies/default-policy.json''),
             tp_AllowedPaths = map (under base) (tp_AllowedPaths t)\<rparr>,
           cf_Inventory := i\<lparr>ic_Interval := or_default (ic_Interval i) ''15m'',
             ic_CommandTimeout := or_default (ic_CommandTimeout i) ''10s'', ic_MaxItems := or_count (ic_MaxItems i) 512\<rparr>,
           cf_Transport := transport_defaults X dataDir (cf_Transport c),
           cf_Central := central_defaults base dataDir (cf_Central c),
           cf_Sources := map (source_defaults base) (cf_Sources c),
           cf_NativeSources := map (native_defaults base) (cf_NativeSources c)\<rparr>)"

section \<open>Validation\<close>

text \<open>The checks of a block in their order; the first that fails decides.\<close>

fun first_error :: "'e option list \<Rightarrow> 'e option" where
  "first_error [] = None"
| "first_error (Some e # cs) = Some e"
| "first_error (None # cs) = first_error cs"

definition fails :: "bool \<Rightarrow> 'e \<Rightarrow> 'e option" where "fails bad e = (if bad then Some e else None)"

text \<open>A duration that parses and lies in a range.\<close>

definition outside :: "string \<Rightarrow> duration \<Rightarrow> duration \<Rightarrow> bool" where
  "outside s lo hi = (case ParseDuration s of None \<Rightarrow> True | Some d \<Rightarrow> d < lo \<or> d > hi)"

definition validateHTTPSURL :: "config_codec \<Rightarrow> string \<Rightarrow> bool" where
  "validateHTTPSURL X v =
     (case cc_url X (TrimSpace v) of None \<Rightarrow> False | Some u \<Rightarrow> pu_Scheme u = ''https'' \<and> pu_Host u \<noteq> [])"

definition check_api :: "API \<Rightarrow> config_error option" where
  "check_api a =
     (if \<not> api_Enabled a then None
      else case SplitHostPort (api_Listen a) of
             None \<Rightarrow> Some CfgListen
           | Some (host, port) \<Rightarrow>
               (case ParseIP (trim_brackets host) of
                  None \<Rightarrow> Some CfgLoopback
                | Some ip \<Rightarrow> fails (\<not> IsLoopback ip) CfgLoopback))"

definition check_ai :: "AI \<Rightarrow> config_error option" where
  "check_ai a =
     (if \<not> ai_Enabled a then None
      else first_error
        [fails (TrimSpace (ai_Endpoint a) = [] \<or> TrimSpace (ai_Model a) = []) CfgAI,
         fails (ParseDuration (or_default (ai_Timeout a) ''30s'') = None) CfgAITimeout])"

definition check_inventory :: "InventoryConfig \<Rightarrow> config_error option" where
  "check_inventory i =
     (if \<not> ic_Enabled i then None
      else first_error
        [fails (outside (ic_Interval i) Minute (24 * Hour)) CfgInventoryInterval,
         fails (outside (ic_CommandTimeout i) Second (2 * Minute)) CfgInventoryTimeout,
         fails (ic_MaxItems i < 1 \<or> ic_MaxItems i > 10000) CfgInventoryItems])"

definition check_renewal :: "config_codec \<Rightarrow> TransportConfig \<Rightarrow> config_error option" where
  "check_renewal X t =
     (if \<not> tr_AutoRenew t then None
      else first_error
        [fails (\<not> validateHTTPSURL X (tr_RenewalEndpoint t)) CfgRenewalEndpoint,
         fails (outside (tr_RenewBefore t) Hour (90 * 24 * Hour)) CfgRenewBefore,
         fails (outside (tr_RenewCheckInterval t) Minute (24 * Hour)) CfgRenewCheck])"

definition check_transport :: "config_codec \<Rightarrow> string \<Rightarrow> TransportConfig \<Rightarrow> config_error option" where
  "check_transport X tenant t =
     (if \<not> tr_Enabled t then None
      else first_error
        [fails (TrimSpace tenant = []) CfgTenant,
         fails (\<not> validateHTTPSURL X (tr_Endpoint t)) CfgEndpoint,
         fails (tr_CertFile t = [] \<or> tr_KeyFile t = [] \<or> tr_CAFile t = []) CfgTransportFiles,
         fails (outside (tr_Timeout t) Second (2 * Minute)) CfgTransportTimeout,
         fails (outside (tr_FlushInterval t) (250 * Millisecond) Minute) CfgFlush,
         fails (tr_BatchSize t < 1 \<or> tr_BatchSize t > 1000) CfgBatch,
         fails (tr_PendingWarn t < 100 \<or> tr_PendingWarn t > 1000000) CfgPendingWarn,
         check_renewal X t])"

definition check_central_url :: "config_codec \<Rightarrow> string \<Rightarrow> config_error option" where
  "check_central_url X v =
     (case cc_url X (TrimSpace v) of
        None \<Rightarrow> Some CfgCentralURL
      | Some u \<Rightarrow> first_error
          [fails (pu_Scheme u = [] \<or> pu_Host u = []) CfgCentralURL,
           fails (pu_Scheme u \<noteq> ''http'' \<and> pu_Scheme u \<noteq> ''https'') CfgCentralScheme])"

definition check_central :: "config_codec \<Rightarrow> Central \<Rightarrow> config_error option" where
  "check_central X c =
     (if \<not> cen_Enabled c then None
      else first_error
        [check_central_url X (cen_URL c),
         fails (outside (cen_HeartbeatInterval c) (15 * Second) (24 * Hour)) CfgHeartbeat,
         fails (outside (cen_BatchInterval c) Second Hour) CfgCentralInterval,
         fails (cen_MaxBatch c < 1 \<or> cen_MaxBatch c > 5000) CfgCentralBatch,
         fails (cen_QueueSize c < cen_MaxBatch c \<or> cen_QueueSize c > 100000) CfgQueue,
         fails (TrimSpace (cen_APIKeyFile c) = []) CfgKeyFile])"

text \<open>The identifiers seen so far are kept in a list.\<close>

fun check_sources :: "string list \<Rightarrow> Source list \<Rightarrow> (config_error, string list) result" where
  "check_sources seen [] = Inr seen"
| "check_sources seen (s # ss) =
     (if \<not> src_Enabled s then check_sources seen ss
      else if src_ID s = [] \<or> src_Path s = [] \<or> src_Format s = [] then Inl CfgSource
      else if src_ID s \<in> set seen then Inl (CfgDuplicate (src_ID s))
      else check_sources (src_ID s # seen) ss)"

definition id_char :: "char \<Rightarrow> bool" where "id_char c = (alnum c \<or> c \<in> set ''._-'')"

definition nativeSourceIDPattern :: regex where "nativeSourceIDPattern = word_pattern alnum 63 id_char"

definition windowsChannelPattern :: regex where
  "windowsChannelPattern = word_pattern alnum 127 (\<lambda>c. alnum c \<or> c \<in> set ''._/ -'')"

definition check_kind :: "NativeSource \<Rightarrow> config_error option" where
  "check_kind s =
     (let kind = ns_Kind s; i = ns_ID s
      in if kind = ''windows_eventlog'' \<or> kind = ''wineventlog'' \<or> kind = ''sysmon'' then
           first_error
             [fails (\<not> MatchString windowsChannelPattern (ns_Channel s)) (CfgChannel i),
              fails (length (ns_EventIDs s) > 128) (CfgEventIDs i),
              fails (list_ex (\<lambda>e. e < 1 \<or> e > 65535) (ns_EventIDs s)) (CfgEventIDs i)]
         else if kind = ''journald'' \<or> kind = ''journalctl'' then
           first_error
             [fails (length (ns_Units s) > 32 \<or> length (ns_Identifiers s) > 32) (CfgJournald i),
              fails (list_ex (\<lambda>v. v = [] \<or> length v > 128 \<or> list_ex (\<lambda>c. c \<in> {CHR 0x00, CHR 0x0D, CHR 0x0A}) v)
                (ns_Units s @ ns_Identifiers s)) (CfgJournald i)]
         else if kind = ''auditd'' \<or> kind = ''linux_auditd'' then
           fails (ns_Path s = [] \<or> \<not> filepath_IsAbs (ns_Path s)) (CfgAudit i)
         else Some (CfgKind i))"

fun check_native :: "string list \<Rightarrow> NativeSource list \<Rightarrow> config_error option" where
  "check_native seen [] = None"
| "check_native seen (s # ss) =
     (if \<not> ns_Enabled s then check_native seen ss
      else case first_error
             [fails (\<not> MatchString nativeSourceIDPattern (ns_ID s)) (CfgNativeID (ns_ID s)),
              fails (ns_ID s \<in> set seen) (CfgDuplicate (ns_ID s)),
              fails (ns_MaxBatch s < 1 \<or> ns_MaxBatch s > 5000) (CfgNativeBatch (ns_ID s)),
              fails (outside (ns_CommandTimeout s) Second (2 * Minute)) (CfgNativeTimeout (ns_ID s)),
              check_kind s] of
             Some e \<Rightarrow> Some e
           | None \<Rightarrow> check_native (ns_ID s # seen) ss)"

definition Config_Validate :: "config_codec \<Rightarrow> Config \<Rightarrow> config_error option" where
  "Config_Validate X c =
     first_error
       [fails (cf_PollInterval c < 100 * Millisecond \<or> cf_PollInterval c > 24 * Hour) CfgPollRange,
        check_api (cf_API c), check_ai (cf_AI c), check_inventory (cf_Inventory c),
        check_transport X (cf_TenantID c) (cf_Transport c), check_central X (cf_Central c),
        (case check_sources [] (cf_Sources c) of
           Inl e \<Rightarrow> Some e
         | Inr seen \<Rightarrow> check_native seen (cf_NativeSources c))]"

section \<open>Loading\<close>

definition finish_load :: "config_codec \<Rightarrow> string \<Rightarrow> Config \<Rightarrow> (config_error, Config) result" where
  "finish_load X path c0 =
     (let c1 = c0\<lparr>cf_Poll := or_default (cf_Poll c0) ''2s''\<rparr>
      in case ParseDuration (cf_Poll c1) of
           None \<Rightarrow> Inl CfgPoll
         | Some d \<Rightarrow>
             (let c2 = applyDefaults X path (c1\<lparr>cf_PollInterval := d\<rparr>)
              in case Config_Validate X c2 of Some e \<Rightarrow> Inl e | None \<Rightarrow> Inr c2))"

definition Config_Load :: "config_codec \<Rightarrow> string \<Rightarrow> (config_error, Config) call" where
  "Config_Load X path w =
     (case os_ReadFile path w of
        (Inl e, w1) \<Rightarrow> (Inl (CfgRead e), w1)
      | (Inr s, w1) \<Rightarrow>
          (case cc_decode X s Config_Default of
             None \<Rightarrow> (Inl CfgDecode, w1)
           | Some c \<Rightarrow> (finish_load X path c, w1)))"

section \<open>The agent identifier\<close>

text \<open>Directories are not in the store: \<open>MkdirAll\<close> can fail, \<open>Chmod\<close> on the directory succeeds or fails without effect.\<close>

definition chmod_dir :: "string \<Rightarrow> nat \<Rightarrow> unit io" where
  "chmod_dir d m w = (let (f, w1) = next_fault w in if f \<noteq> FOk then (Inl ErrIO, w1) else (Inr (), w1))"

definition EnsureDataDir :: "Config \<Rightarrow> (config_error, unit) call" where
  "EnsureDataDir c =
     io_bind (io_wrap CfgOS (os_MkdirAll (cf_DataDir c) mode_private_dir)) (\<lambda>_.
     io_wrap CfgOS (chmod_dir (cf_DataDir c) mode_private_dir))"

definition identity_path :: "Config \<Rightarrow> string" where
  "identity_path c = filepath_Join [cf_DataDir c, ''agent.id'']"

definition valid_agent_id :: "string \<Rightarrow> bool" where
  "valid_agent_id i = (HasPrefix i ''agent_'' \<and> length i \<ge> 20)"

text \<open>\<open>rnd\<close> are the 16 bytes of \<open>rand.Read\<close>, or its failure. The configuration is returned as the code leaves it, also
  with an error.\<close>

definition EnsureAgentID :: "string option \<Rightarrow> Config \<Rightarrow> world \<Rightarrow> config_error option \<times> Config \<times> world" where
  "EnsureAgentID rnd c w =
     (if cf_AgentID c \<noteq> [] then (None, c, w)
      else case EnsureDataDir c w of
             (Inl e, w1) \<Rightarrow> (Some e, c, w1)
           | (Inr _, w1) \<Rightarrow>
               (case os_ReadFile (identity_path c) w1 of
                  (Inr s, w2) \<Rightarrow>
                    (let i = TrimSpace s
                     in if \<not> valid_agent_id i then (Some CfgIdentity, c, w2)
                        else case os_Chmod (identity_path c) mode_private w2 of
                               (Inl e, w3) \<Rightarrow> (Some (CfgOS e), c\<lparr>cf_AgentID := i\<rparr>, w3)
                             | (Inr _, w3) \<Rightarrow> (None, c\<lparr>cf_AgentID := i\<rparr>, w3))
                | (Inl ErrNotExist, w2) \<Rightarrow>
                    (case rnd of
                       None \<Rightarrow> (Some CfgRandom, c, w2)
                     | Some bs \<Rightarrow>
                         (let i = ''agent_'' @ hex_EncodeToString bs
                          in case os_WriteFile (identity_path c) (i @ [CHR 0x0A]) mode_private w2 of
                               (Inl e, w3) \<Rightarrow> (Some (CfgOS e), c\<lparr>cf_AgentID := i\<rparr>, w3)
                             | (Inr _, w3) \<Rightarrow> (None, c\<lparr>cf_AgentID := i\<rparr>, w3)))
                | (Inl e, w2) \<Rightarrow> (Some (CfgOS e), c, w2)))"

section \<open>What an accepted configuration guarantees\<close>

lemma first_error_None: "first_error cs = None \<longleftrightarrow> list_all (\<lambda>c. c = None) cs"
  by (induction cs rule: first_error.induct) auto

lemma fails_None [simp]: "fails b e = None \<longleftrightarrow> \<not> b"
  by (simp add: fails_def)

lemma outside_iff: "\<not> outside s lo hi \<longleftrightarrow> (\<exists>d. ParseDuration s = Some d \<and> lo \<le> d \<and> d \<le> hi)"
  by (auto simp: outside_def split: option.split)

definition enabled_ids :: "Config \<Rightarrow> string list" where
  "enabled_ids c = map src_ID (filter src_Enabled (cf_Sources c)) @ map ns_ID (filter ns_Enabled (cf_NativeSources c))"

text \<open>The sockets, durations, counts and names the rest of the agent relies on.\<close>

definition loopback_only :: "API \<Rightarrow> bool" where
  "loopback_only a = (api_Enabled a \<longrightarrow>
     (\<exists>host port ip. SplitHostPort (api_Listen a) = Some (host, port) \<and> ParseIP (trim_brackets host) = Some ip \<and> IsLoopback ip))"

definition bounded_transport :: "config_codec \<Rightarrow> Config \<Rightarrow> bool" where
  "bounded_transport X c = (let t = cf_Transport c in tr_Enabled t \<longrightarrow>
     (\<exists>u. cc_url X (TrimSpace (tr_Endpoint t)) = Some u \<and> pu_Scheme u = ''https'') \<and>
     (\<exists>d. ParseDuration (tr_FlushInterval t) = Some d \<and> 250 * Millisecond \<le> d \<and> d \<le> Minute) \<and>
     1 \<le> tr_BatchSize t \<and> tr_BatchSize t \<le> 1000 \<and> TrimSpace (cf_TenantID c) \<noteq> [] \<and>
     (tr_AutoRenew t \<longrightarrow> (\<exists>u. cc_url X (TrimSpace (tr_RenewalEndpoint t)) = Some u \<and> pu_Scheme u = ''https'')))"

definition bounded_native :: "NativeSource \<Rightarrow> bool" where
  "bounded_native s = (ns_Enabled s \<longrightarrow>
     plain_comp (ns_ID s @ ''.json'') \<and> length (ns_ID s) \<le> 64 \<and> 1 \<le> ns_MaxBatch s \<and> ns_MaxBatch s \<le> 5000 \<and>
     (\<exists>d. ParseDuration (ns_CommandTimeout s) = Some d \<and> Second \<le> d \<and> d \<le> 2 * Minute) \<and>
     ns_Kind s \<in> set [''windows_eventlog'', ''wineventlog'', ''sysmon'', ''journald'', ''journalctl'', ''auditd'', ''linux_auditd''])"

definition rooted_paths :: "Config \<Rightarrow> string list" where
  "rooted_paths c = [cf_DataDir c, api_TokenFile (cf_API c), tp_PolicyFile (cf_Tools c), tr_CertFile (cf_Transport c),
     tr_KeyFile (cf_Transport c), tr_CAFile (cf_Transport c), cen_APIKeyFile (cf_Central c)]
     @ tp_AllowedPaths (cf_Tools c) @ map src_Path (cf_Sources c)"

text \<open>Identifiers that match the pattern are one component of a path.\<close>

lemma id_char_no_slash: "id_char c \<Longrightarrow> c \<noteq> CHR ''/''"
  by (auto simp: id_char_def alnum_def alpha_def re_digit_def less_eq_char_def)

lemma pattern_plain:
  assumes "MatchString nativeSourceIDPattern i"
  shows "plain_comp (i @ ''.json'') \<and> length i \<le> 64"
proof -
  from assms have i: "i \<noteq> []" "alnum (hd i)" "list_all id_char (tl i)" "length (tl i) \<le> 63"
    by (simp_all add: nativeSourceIDPattern_def word_pattern_iff)
  then have "id_char c" if "c \<in> set i" for c
    using that by (cases i) (auto simp: list_all_iff id_char_def)
  then have "CHR ''/'' \<notin> set i" using id_char_no_slash by blast
  moreover have "length i \<le> 64" using i(4) by simp
  ultimately show ?thesis using i(1) by (auto simp: plain_comp_def append_eq_Cons_conv Cons_eq_append_conv)
qed

lemma check_sources_distinct:
  "check_sources seen ss = Inr seen' \<Longrightarrow> distinct seen \<Longrightarrow>
     distinct seen' \<and> set seen' = set seen \<union> set (map src_ID (filter src_Enabled ss)) \<and>
     distinct (map src_ID (filter src_Enabled ss)) \<and> set seen \<inter> set (map src_ID (filter src_Enabled ss)) = {}"
proof (induction ss arbitrary: seen)
  case (Cons s ss)
  then show ?case using Cons.IH [of "src_ID s # seen"] by (auto split: if_splits)
qed auto

lemma check_native_accepts:
  "check_native seen ss = None \<Longrightarrow> distinct (map ns_ID (filter ns_Enabled ss))
     \<and> set seen \<inter> set (map ns_ID (filter ns_Enabled ss)) = {} \<and> list_all bounded_native ss"
proof (induction ss arbitrary: seen)
  case (Cons s ss)
  show ?case
  proof (cases "ns_Enabled s")
    case False
    then show ?thesis using Cons by (auto simp: bounded_native_def)
  next
    case True
    note en = True
    from Cons.prems True have later: "check_native (ns_ID s # seen) ss = None"
      and "first_error [fails (\<not> MatchString nativeSourceIDPattern (ns_ID s)) (CfgNativeID (ns_ID s)),
              fails (ns_ID s \<in> set seen) (CfgDuplicate (ns_ID s)),
              fails (ns_MaxBatch s < 1 \<or> ns_MaxBatch s > 5000) (CfgNativeBatch (ns_ID s)),
              fails (outside (ns_CommandTimeout s) Second (2 * Minute)) (CfgNativeTimeout (ns_ID s)),
              check_kind s] = None"
      by (auto split: option.splits)
    then have c: "MatchString nativeSourceIDPattern (ns_ID s)" "ns_ID s \<notin> set seen" "1 \<le> ns_MaxBatch s" "ns_MaxBatch s \<le> 5000"
      "\<not> outside (ns_CommandTimeout s) Second (2 * Minute)" "check_kind s = None"
      by (simp_all add: first_error_None not_less)
    have "ns_Kind s \<in> set [''windows_eventlog'', ''wineventlog'', ''sysmon'', ''journald'', ''journalctl'', ''auditd'', ''linux_auditd'']"
      using c(6) unfolding check_kind_def Let_def by (simp split: if_splits; blast)
    then have "bounded_native s"
      using c(3,4,5) pattern_plain [OF c(1)] unfolding bounded_native_def outside_iff by blast
    then show ?thesis using Cons.IH [OF later] en c(2) by auto
  qed
qed simp

lemma Dir_rooted: "HasPrefix p ''/'' \<Longrightarrow> HasPrefix (filepath_Dir p) ''/''"
proof -
  assume "HasPrefix p ''/''"
  then obtain q where p: "p = CHR ''/'' # q" by (cases p) auto
  have "dropWhile (\<lambda>c. \<not> is_slash c) (rev q @ [CHR ''/'']) \<noteq> []" by (simp add: is_slash_def dropWhile_eq_Nil_conv)
  moreover have "last (dropWhile (\<lambda>c. \<not> is_slash c) (rev q @ [CHR ''/''])) = CHR ''/''"
    by (intro dropWhile_last [of "CHR ''/''", THEN trans]) (simp_all add: is_slash_def)
  ultimately have "HasPrefix (rev (dropWhile (\<lambda>c. \<not> is_slash c) (rev p))) ''/''"
    unfolding p by (cases "dropWhile (\<lambda>c. \<not> is_slash c) (rev q @ [CHR ''/''])" rule: rev_cases) auto
  then show ?thesis unfolding filepath_Dir_def by (rule HasPrefix_Clean)
qed

lemma Join_rooted: "HasPrefix d ''/'' \<Longrightarrow> HasPrefix (filepath_Join [d, p]) ''/''"
proof -
  assume d: "HasPrefix d ''/''"
  then have "d \<noteq> []" "HasPrefix (d @ ''/'' @ p) ''/''" by (cases d; auto)+
  then show ?thesis using d by (simp add: filepath_Join_def)
qed

lemma under_rooted: "HasPrefix d ''/'' \<Longrightarrow> HasPrefix (under d p) ''/''"
  by (simp add: under_def filepath_IsAbs_def Join_rooted)

lemma applyDefaults_rooted:
  assumes "filepath_IsAbs path"
  shows "list_all filepath_IsAbs (rooted_paths (applyDefaults X path c))"
proof -
  have b: "HasPrefix (filepath_Dir path) ''/''" using Dir_rooted assms by (simp add: filepath_IsAbs_def)
  note u = under_rooted [OF b]
  have d: "HasPrefix (cf_DataDir (applyDefaults X path c)) ''/''"
    by (simp add: applyDefaults_def Let_def u)
  have files: "HasPrefix (api_TokenFile (cf_API (applyDefaults X path c))) ''/''"
      "HasPrefix (tp_PolicyFile (cf_Tools (applyDefaults X path c))) ''/''"
      "HasPrefix (tr_CertFile (cf_Transport (applyDefaults X path c))) ''/''"
      "HasPrefix (tr_KeyFile (cf_Transport (applyDefaults X path c))) ''/''"
      "HasPrefix (tr_CAFile (cf_Transport (applyDefaults X path c))) ''/''"
      "HasPrefix (cen_APIKeyFile (cf_Central (applyDefaults X path c))) ''/''"
    by (simp_all add: applyDefaults_def transport_defaults_def central_defaults_def Let_def filepath_IsAbs_def
        u under_rooted Join_rooted)
  have lists: "list_all filepath_IsAbs (tp_AllowedPaths (cf_Tools (applyDefaults X path c)))"
      "list_all filepath_IsAbs (map src_Path (cf_Sources (applyDefaults X path c)))"
    by (simp_all add: applyDefaults_def source_defaults_def Let_def filepath_IsAbs_def list_all_iff u)
  show ?thesis using d files lists by (simp add: rooted_paths_def filepath_IsAbs_def)
qed

definition config_ok :: "config_codec \<Rightarrow> Config \<Rightarrow> bool" where
  "config_ok X c =
     (100 * Millisecond \<le> cf_PollInterval c \<and> cf_PollInterval c \<le> 24 * Hour \<and> loopback_only (cf_API c) \<and>
      bounded_transport X c \<and> distinct (enabled_ids c) \<and> list_all bounded_native (cf_NativeSources c) \<and>
      list_all filepath_IsAbs (rooted_paths c))"

lemma check_api_loopback: "check_api a = None \<Longrightarrow> loopback_only a"
  by (auto simp: check_api_def loopback_only_def split: if_splits option.splits)

lemma check_transport_bounds: "check_transport X (cf_TenantID c) (cf_Transport c) = None \<Longrightarrow> bounded_transport X c"
  by (auto simp: check_transport_def check_renewal_def bounded_transport_def first_error_None validateHTTPSURL_def Let_def
      outside_iff not_less split: if_splits option.splits)

lemma check_ids:
  assumes "(case check_sources [] ss of Inl e \<Rightarrow> Some e | Inr seen \<Rightarrow> check_native seen ns) = None"
  shows "distinct (map src_ID (filter src_Enabled ss) @ map ns_ID (filter ns_Enabled ns)) \<and> list_all bounded_native ns"
proof -
  obtain seen where s: "check_sources [] ss = Inr seen" and n: "check_native seen ns = None"
    using assms by (auto split: sum.splits)
  from check_sources_distinct [OF s] check_native_accepts [OF n] show ?thesis by auto
qed

lemma Validate_ok:
  assumes "Config_Validate X c = None"
  shows "100 * Millisecond \<le> cf_PollInterval c \<and> cf_PollInterval c \<le> 24 * Hour \<and> loopback_only (cf_API c) \<and>
      bounded_transport X c \<and> distinct (enabled_ids c) \<and> list_all bounded_native (cf_NativeSources c)"
proof -
  from assms have "\<not> (cf_PollInterval c < 100 * Millisecond \<or> cf_PollInterval c > 24 * Hour)" "check_api (cf_API c) = None"
    "check_transport X (cf_TenantID c) (cf_Transport c) = None"
    and ids: "(case check_sources [] (cf_Sources c) of Inl e \<Rightarrow> Some e | Inr seen \<Rightarrow> check_native seen (cf_NativeSources c)) = None"
    by (simp_all add: Config_Validate_def first_error_None)
  then show ?thesis
    using check_ids [OF ids] check_api_loopback check_transport_bounds by (simp add: enabled_ids_def not_less)
qed


definition toy_url :: parsed_url where
  "toy_url = \<lparr>pu_Scheme = ''https'', pu_Host = ''cp.example'', pu_at = (\<lambda>p. ''https://cp.example'' @ p)\<rparr>"

definition toy_native :: NativeSource where
  "toy_native = \<lparr>ns_ID = ''ssh-log'', ns_Enabled = True, ns_Kind = '' JournalD '', ns_Channel = [], ns_EventIDs = [], ns_Units = [''sshd ''],
     ns_Identifiers = [], ns_Path = [], ns_FromStart = False, ns_MaxBatch = 0, ns_CommandTimeout = []\<rparr>"

definition toy_config_codec :: config_codec where
  "toy_config_codec = \<lparr>cc_decode = (\<lambda>s c. Some (c\<lparr>cf_TenantID := ''t1'', cf_NativeSources := [toy_native],
       cf_Transport := (cf_Transport c)\<lparr>tr_Enabled := True, tr_Endpoint := ''https://cp.example/v1''\<rparr>\<rparr>)),
     cc_url = (\<lambda>s. Some toy_url)\<rparr>"

definition toy_config_world :: world where
  "toy_config_world = \<lparr>files = [(''/etc/nta/agent.json'', \<lparr>content = ''{}'', perm = 0, mtime = 0\<rparr>)], faults = [], events = [],
     clock = 1, clock_steps = []\<rparr>"

definition toy_config :: Config where
  "toy_config = applyDefaults toy_config_codec ''/etc/nta/agent.json''
     (Config_Default\<lparr>cf_TenantID := ''t1'', cf_NativeSources := [toy_native],
       cf_Transport := (cf_Transport Config_Default)\<lparr>tr_Enabled := True, tr_Endpoint := ''https://cp.example/v1''\<rparr>\<rparr>)"

lemma toy_config_is_valid: "Config_Validate toy_config_codec toy_config = None"
proof -
  have "\<not> (cf_PollInterval toy_config < 100 * Millisecond \<or> cf_PollInterval toy_config > 24 * Hour)" by code_simp
  moreover have "check_api (cf_API toy_config) = None" by code_simp
  moreover have "check_ai (cf_AI toy_config) = None" by code_simp
  moreover have "check_inventory (cf_Inventory toy_config) = None" by code_simp
  moreover have "check_transport toy_config_codec (cf_TenantID toy_config) (cf_Transport toy_config) = None" by code_simp
  moreover have "check_central toy_config_codec (cf_Central toy_config) = None" by code_simp
  moreover have "check_sources [] (cf_Sources toy_config) = Inr []" by code_simp
  moreover have "check_native [] (cf_NativeSources toy_config) = None" by code_simp
  ultimately show ?thesis by (simp add: Config_Validate_def first_error_None)
qed


section \<open>The identifier across restarts\<close>

lemma TrimSpace_line:
  assumes "s \<noteq> []" "\<forall>c\<in>set s. \<not> is_space c"
  shows "TrimSpace (s @ [CHR 0x0A]) = s"
proof -
  have 1: "dropWhile is_space (s @ [CHR 0x0A]) = s @ [CHR 0x0A]" using assms by (cases s) auto
  have 2: "dropWhile is_space (rev s) = rev s" using assms by (cases "rev s") (auto simp: rev_eq_Cons_iff)
  show ?thesis by (simp add: TrimSpace_def 1 2 is_space_def)
qed

lemma new_agent_id:
  assumes "length bs = 16"
  shows "valid_agent_id (''agent_'' @ hex_EncodeToString bs)"
    and "TrimSpace ((''agent_'' @ hex_EncodeToString bs) @ [CHR 0x0A]) = ''agent_'' @ hex_EncodeToString bs"
proof -
  show "valid_agent_id (''agent_'' @ hex_EncodeToString bs)"
    using assms by (simp add: valid_agent_id_def)
  have "\<forall>c\<in>set ''0123456789abcdef''. \<not> is_space c" by code_simp
  then have "\<forall>c\<in>set (''agent_'' @ hex_EncodeToString bs). \<not> is_space c"
    using hex_chars [of bs] by (auto simp: is_space_def)
  then show "TrimSpace ((''agent_'' @ hex_EncodeToString bs) @ [CHR 0x0A]) = ''agent_'' @ hex_EncodeToString bs"
    by (intro TrimSpace_line) auto
qed

text \<open>What a successful call leaves on the disk.\<close>

lemma EnsureAgentID_persists:
  assumes "EnsureAgentID rnd c w = (None, c1, w1)" "cf_AgentID c = []" "\<forall>bs. rnd = Some bs \<longrightarrow> length bs = 16"
  shows "c1 = c\<lparr>cf_AgentID := cf_AgentID c1\<rparr> \<and> valid_agent_id (cf_AgentID c1) \<and>
    (\<exists>s. fs_content (files w1) (identity_path c) = Some s \<and> TrimSpace s = cf_AgentID c1)"
proof -
  obtain w2 where d: "EnsureDataDir c w = (Inr (), w2)"
    using assms(1,2) by (cases "EnsureDataDir c w") (auto simp: EnsureAgentID_def split: sum.splits)
  obtain r w3 where rd: "os_ReadFile (identity_path c) w2 = (r, w3)" by (rule prod.exhaust)
  show ?thesis
  proof (cases r)
    case (Inr s)
    then have v: "valid_agent_id (TrimSpace s)"
      and "\<exists>w4. os_Chmod (identity_path c) mode_private w3 = (Inr (), w4) \<and> c1 = c\<lparr>cf_AgentID := TrimSpace s\<rparr> \<and> w1 = w4"
      using assms(1,2) d rd by (auto simp: EnsureAgentID_def Let_def split: if_splits prod.splits sum.splits)
    then obtain w4 where ch: "os_Chmod (identity_path c) mode_private w3 = (Inr (), w4)"
      and e: "c1 = c\<lparr>cf_AgentID := TrimSpace s\<rparr>" "w1 = w4" by blast
    from os_ReadFile_cases [OF rd] Inr have "fs_content (files w3) (identity_path c) = Some s" by auto
    then have "fs_content (files w4) (identity_path c) = Some s"
      using os_Chmod_steps [OF ch] by (auto simp: steps_def fs_content_def fs_simps split: option.splits)
    then show ?thesis using v e by auto
  next
    case (Inl e)
    then obtain bs where e: "rnd = Some bs" "c1 = c\<lparr>cf_AgentID := ''agent_'' @ hex_EncodeToString bs\<rparr>"
      and wr: "os_WriteFile (identity_path c) ((''agent_'' @ hex_EncodeToString bs) @ [CHR 0x0A]) mode_private w3 = (Inr (), w1)"
      using assms(1,2) d rd by (auto simp: EnsureAgentID_def Let_def split: prod.splits sum.splits oserr.splits option.splits)
    from e assms(3) have "length bs = 16" by simp
    then show ?thesis using new_agent_id [of bs] write_content [OF wr] e by simp
  qed
qed

text \<open>The agent keeps its identity: once \<open>EnsureAgentID\<close> has succeeded for a configuration without an identifier, every
  later start with the same data directory, an undisturbed identity file and no failing system call succeeds with the same
  identifier, whatever the random source says, and the identifier is well formed.\<close>

theorem agent_id_survives_restart:
  assumes "EnsureAgentID rnd c w = (None, c1, w1)" and "cf_AgentID c = []" and "\<forall>bs. rnd = Some bs \<longrightarrow> length bs = 16"
    and "fs_content (files w2) (identity_path c) = fs_content (files w1) (identity_path c)" and "healthy w2"
  shows "\<exists>w3. EnsureAgentID rnd' c w2 = (None, c1, w3) \<and> valid_agent_id (cf_AgentID c1)"
proof -
  from EnsureAgentID_persists [OF assms(1-3)] obtain s where
    c1: "c1 = c\<lparr>cf_AgentID := TrimSpace s\<rparr>" "valid_agent_id (TrimSpace s)" and s: "fs_content (files w2) (identity_path c) = Some s"
    using assms(4) by metis
  from s obtain f where f: "fs_get (files w2) (identity_path c) = Some f" "content f = s" by (auto simp: fs_content_def)
  have "EnsureDataDir c w2 = (Inr (), w2)"
    using assms(5) by (simp add: EnsureDataDir_def io_bind_def io_wrap_def chmod_dir_def healthy_def next_fault_none)
  then show ?thesis
    using c1 f assms(2,5) by (simp add: EnsureAgentID_def Let_def)
qed

definition toy_empty_world :: world where
  "toy_empty_world = \<lparr>files = [], faults = [], events = [], clock = 1, clock_steps = []\<rparr>"

lemma agent_id_survives_restart_witness:
  "\<exists>w1 w3. EnsureAgentID (Some (replicate 16 CHR 0xA5)) Config_Default toy_empty_world = (None, Config_Default\<lparr>cf_AgentID := ''agent_a5a5a5a5a5a5a5a5a5a5a5a5a5a5a5a5''\<rparr>, w1)
     \<and> EnsureAgentID None Config_Default w1 = (None, Config_Default\<lparr>cf_AgentID := ''agent_a5a5a5a5a5a5a5a5a5a5a5a5a5a5a5a5''\<rparr>, w3)"
proof -
  let ?c1 = "Config_Default\<lparr>cf_AgentID := ''agent_a5a5a5a5a5a5a5a5a5a5a5a5a5a5a5a5''\<rparr>"
  let ?w1 = "emit (EvWrite (identity_path Config_Default) (''agent_a5a5a5a5a5a5a5a5a5a5a5a5a5a5a5a5'' @ [CHR 0x0A]) mode_private 1) toy_empty_world"
  have run: "EnsureAgentID (Some (replicate 16 CHR 0xA5)) Config_Default toy_empty_world = (None, ?c1, ?w1)" by code_simp
  have "cf_AgentID Config_Default = []" by code_simp
  moreover have "healthy ?w1" by code_simp
  ultimately show ?thesis
    using agent_id_survives_restart [OF run, of ?w1 None] run by auto
qed

text \<open>The file is written in place: when the process dies in the middle of the first write, the identifier that is left
  can be too short, and no later start succeeds.\<close>

lemma torn_agent_id_blocks_every_start:
  assumes "fs_content (files w) (identity_path c) = Some (take n (''agent_'' @ hex_EncodeToString bs @ [CHR 0x0A]))" "n < 20"
    and "cf_AgentID c = []" "healthy w"
  shows "fst (EnsureAgentID rnd c w) = Some CfgIdentity"
proof -
  from assms(1) obtain f where f: "fs_get (files w) (identity_path c) = Some f"
    "content f = take n (''agent_'' @ hex_EncodeToString bs @ [CHR 0x0A])" by (auto simp: fs_content_def)
  have "length (TrimSpace s) \<le> length s" for s
    unfolding TrimSpace_def by (metis length_dropWhile_le length_rev order_trans)
  then have "length (TrimSpace (content f)) < 20" by (rule le_less_trans) (use f(2) assms(2) in simp)
  then have "\<not> valid_agent_id (TrimSpace (content f))" by (simp add: valid_agent_id_def)
  moreover have "EnsureDataDir c w = (Inr (), w)"
    using assms(4) by (simp add: EnsureDataDir_def io_bind_def io_wrap_def chmod_dir_def healthy_def next_fault_none)
  ultimately show ?thesis using f assms(3,4) by (simp add: EnsureAgentID_def Let_def)
qed

end
