(* ===== verification/Tailer.thy ===== *)
theory Tailer
  imports Config Parser
begin

text \<open>
  Package \<open>internal/collector/filetail\<close>: a tailer polls the files of one source and hands every complete new line to the
  parser. \<open>filepath.Glob\<close>, which paths are directories, and what the parser draws for each line are parameters of a poll;
  a file does not change while it is polled.
\<close>

section \<open>State\<close>

definition maxReadPerPoll :: int where "maxReadPerPoll = 8 * 1024 * 1024"

record Tailer =
  tl_cfg :: Source
  tl_parser :: Parser
  tl_offsets :: "(string \<times> int) list"
  tl_seen :: "string list"

datatype tail_error = TailGlob | TailStat oserr | TailDir | TailOpen oserr | TailSeek oserr | TailRead oserr | TailParse int parse_error

text \<open>\<open>pe_line path k\<close> are the draws of the parser for the \<open>k\<close>-th line read from a file in a poll and those of the second \<open>Prepare\<close>.\<close>

record poll_env =
  pe_glob :: "string \<Rightarrow> string list option"
  pe_isdir :: "string \<Rightarrow> bool"
  pe_line :: "string \<Rightarrow> nat \<Rightarrow> draw \<times> draw"

definition Tailer_New :: "Source \<Rightarrow> (parse_error, Tailer) result" where
  "Tailer_New cfg =
     (case Parser_New (src_Format cfg) (src_ID cfg) of
        Inl e \<Rightarrow> Inl e
      | Inr p \<Rightarrow> Inr \<lparr>tl_cfg = cfg, tl_parser = p, tl_offsets = [], tl_seen = []\<rparr>)"

section \<open>Reading a file from an offset\<close>

text \<open>\<open>os.Open\<close>, \<open>Seek\<close> and \<open>io.ReadFull\<close> (a short read is not an error for the caller).\<close>

definition os_Open :: "string \<Rightarrow> string io" where
  "os_Open p w =
     (let (f, w1) = next_fault w
      in if f \<noteq> FOk then (Inl ErrIO, w1)
         else (case fs_get (files w1) p of None \<Rightarrow> (Inl ErrNotExist, w1) | Some x \<Rightarrow> (Inr (content x), w1)))"

definition file_call :: "unit io" where
  "file_call w = (let (f, w1) = next_fault w in if f \<noteq> FOk then (Inl ErrIO, w1) else (Inr (), w1))"

definition read_at :: "string \<Rightarrow> int \<Rightarrow> int \<Rightarrow> (tail_error, string) call" where
  "read_at path offset limit =
     io_bind (io_wrap TailOpen (os_Open path)) (\<lambda>c.
     io_bind (io_wrap TailSeek file_call) (\<lambda>_.
     io_bind (io_wrap TailRead file_call) (\<lambda>_.
     io_return (take (nat limit) (drop (nat offset) c)))))"

section \<open>Lines\<close>

text \<open>\<open>bytes.SplitAfter\<close>, the buffer up to the last newline, and a line without its terminator.\<close>

fun SplitAfter :: "char \<Rightarrow> string \<Rightarrow> string list" where
  "SplitAfter c [] = [[]]"
| "SplitAfter c (x # xs) =
     (if x = c then [x] # SplitAfter c xs
      else (case SplitAfter c xs of [] \<Rightarrow> [[x]] | y # ys \<Rightarrow> (x # y) # ys))"

definition complete_part :: "string \<Rightarrow> string" where
  "complete_part s = rev (dropWhile (\<lambda>c. c \<noteq> newline) (rev s))"

definition chomp :: "string \<Rightarrow> string" where
  "chomp s = TrimSuffix (TrimSuffix s [newline]) [CHR 0x0D]"

text \<open>What the tailer adds to a parsed event.\<close>

definition annotate :: "parse_codec \<Rightarrow> draw \<Rightarrow> TrustLevel \<Rightarrow> string \<Rightarrow> int \<Rightarrow> string \<Rightarrow> Event \<Rightarrow> Event" where
  "annotate X d trust path n line e =
     prepared d (e\<lparr>ev_Trust := (if ev_Trust e = [] then trust else ev_Trust e),
       ev_Provenance := (ev_Provenance e)\<lparr>prov_OriginalPath := path, prov_LineNumber := n,
         prov_ContentSHA256 := sha_hex (px_crypto X) line\<rparr>\<rparr>)"

text \<open>The loop over the segments: the events, the errors, the bytes consumed and the parser. \<open>n\<close> counts the segments,
  \<open>room\<close> is what is left of the budget.\<close>

fun tail_lines :: "parse_codec \<Rightarrow> (nat \<Rightarrow> draw \<times> draw) \<Rightarrow> TrustLevel \<Rightarrow> string \<Rightarrow> Parser \<Rightarrow> nat \<Rightarrow> int \<Rightarrow> string list
    \<Rightarrow> Event list \<times> tail_error list \<times> nat \<times> Parser" where
  "tail_lines X dr trust path p n room [] = ([], [], 0, p)"
| "tail_lines X dr trust path p n room (seg # segs) =
     (if seg = [] then tail_lines X dr trust path p n room segs
      else if room \<le> 0 then ([], [], 0, p)
      else let line = chomp seg; (r, p1) = Parse X (fst (dr n)) p line
           in case r of
                Inl e \<Rightarrow>
                  (let (evs, errs, k, p2) = tail_lines X dr trust path p1 (Suc n) room segs
                   in (evs, TailParse (int (Suc n)) e # errs, length seg + k, p2))
              | Inr None \<Rightarrow>
                  (let (evs, errs, k, p2) = tail_lines X dr trust path p1 (Suc n) room segs
                   in (evs, errs, length seg + k, p2))
              | Inr (Some e) \<Rightarrow>
                  (let (evs, errs, k, p2) = tail_lines X dr trust path p1 (Suc n) (room - 1) segs
                   in (annotate X (snd (dr n)) trust path (int (Suc n)) line e # evs, errs, length seg + k, p2)))"

section \<open>Polling\<close>

text \<open>The part of \<open>pollFile\<close> from \<open>info.Size() < offset\<close> on.\<close>

definition poll_from :: "parse_codec \<Rightarrow> poll_env \<Rightarrow> string \<Rightarrow> int \<Rightarrow> int \<Rightarrow> int \<Rightarrow> Tailer \<Rightarrow> world
    \<Rightarrow> (Event list \<times> tail_error list) \<times> Tailer \<times> world" where
  "poll_from X E path maxEvents sz offset0 t0 w =
     (let offset = (if sz < offset0 then 0 else offset0);
          t = (if sz < offset0 then t0\<lparr>tl_offsets := AList.update path 0 (tl_offsets t0)\<rparr> else t0)
      in if sz = offset then (([], []), t, w)
         else case read_at path offset (min (sz - offset) maxReadPerPoll) w of
                (Inl e, w1) \<Rightarrow> (([], [e]), t, w1)
              | (Inr buffer, w1) \<Rightarrow>
                  (if complete_part buffer = [] then (([], []), t, w1)
                   else let (evs, errs, consumed, p) =
                              tail_lines X (pe_line E path) (src_Trust (tl_cfg t)) path (tl_parser t) 0 maxEvents
                                (SplitAfter newline (complete_part buffer))
                        in ((evs, errs), t\<lparr>tl_parser := p, tl_offsets := AList.update path (offset + int consumed) (tl_offsets t)\<rparr>, w1)))"

definition pollFile :: "parse_codec \<Rightarrow> poll_env \<Rightarrow> string \<Rightarrow> int \<Rightarrow> Tailer \<Rightarrow> world
    \<Rightarrow> (Event list \<times> tail_error list) \<times> Tailer \<times> world" where
  "pollFile X E path maxEvents t w =
     (if pe_isdir E path
      then (case next_fault w of (f, w1) \<Rightarrow> (([], [if f = FOk then TailDir else TailStat ErrIO]), t, w1))
      else case os_Stat path w of
             (Inl e, w1) \<Rightarrow> (([], if e = ErrNotExist then [] else [TailStat e]), t, w1)
           | (Inr info, w1) \<Rightarrow>
               (let sz = int (length (content info))
                in case map_of (tl_offsets t) path of
                     Some offset \<Rightarrow> poll_from X E path maxEvents sz offset t w1
                   | None \<Rightarrow>
                       (let offset = (if src_FromStart (tl_cfg t) then 0 else sz);
                            t1 = t\<lparr>tl_offsets := AList.update path offset (tl_offsets t), tl_seen := path # tl_seen t\<rparr>
                        in if src_FromStart (tl_cfg t) then poll_from X E path maxEvents sz offset t1 w1
                           else (([], []), t1, w1))))"

fun poll_paths :: "parse_codec \<Rightarrow> poll_env \<Rightarrow> int \<Rightarrow> string list \<Rightarrow> Tailer \<Rightarrow> world
    \<Rightarrow> (Event list \<times> tail_error list) \<times> Tailer \<times> world" where
  "poll_paths X E remaining [] t w = (([], []), t, w)"
| "poll_paths X E remaining (path # paths) t w =
     (if remaining \<le> 0 then (([], []), t, w)
      else let ((evs, errs), t1, w1) = pollFile X E path remaining t w;
               ((evs', errs'), t2, w2) = poll_paths X E (remaining - int (length evs)) paths t1 w1
           in ((evs @ evs', errs @ errs'), t2, w2))"

definition has_pattern :: "string \<Rightarrow> bool" where
  "has_pattern p = list_ex (\<lambda>c. c \<in> set ''*?['') p"

definition Tailer_Poll :: "parse_codec \<Rightarrow> poll_env \<Rightarrow> Tailer \<Rightarrow> world \<Rightarrow> (Event list \<times> tail_error list) \<times> Tailer \<times> world" where
  "Tailer_Poll X E t w =
     (let path = src_Path (tl_cfg t)
      in case pe_glob E path of
           None \<Rightarrow> (([], [TailGlob]), t, w)
         | Some paths \<Rightarrow>
             poll_paths X E (src_MaxBatch (tl_cfg t)) (if paths = [] \<and> \<not> has_pattern path then [path] else paths) t w)"

section \<open>Lines of a log\<close>

definition segments :: "string \<Rightarrow> string list" where
  "segments s = filter (\<lambda>x. x \<noteq> []) (SplitAfter newline s)"

definition line_segment :: "string \<Rightarrow> bool" where
  "line_segment x = (\<exists>l. newline \<notin> set l \<and> x = l @ [newline])"

lemma SplitAfter_line: "newline \<notin> set l \<Longrightarrow> SplitAfter newline (l @ newline # r) = (l @ [newline]) # SplitAfter newline r"
  by (induction l) auto

lemma SplitAfter_rest: "newline \<notin> set l \<Longrightarrow> SplitAfter newline l = [l]"
  by (induction l) auto

lemma segments_Nil [simp]: "segments [] = []"
  by (simp add: segments_def)

lemma segments_line: "newline \<notin> set l \<Longrightarrow> segments (l @ newline # r) = (l @ [newline]) # segments r"
  by (simp add: segments_def SplitAfter_line)

text \<open>Induction over the lines of a text.\<close>

lemma lines_induct [case_names rest line]:
  assumes "\<And>l. newline \<notin> set l \<Longrightarrow> P l" and "\<And>l r. newline \<notin> set l \<Longrightarrow> P r \<Longrightarrow> P (l @ newline # r)"
  shows "P s"
proof (induction s rule: length_induct)
  case (1 s)
  show ?case
  proof (cases "newline \<in> set s")
    case True
    then obtain l r where "s = l @ newline # r" "newline \<notin> set l" by (metis split_list_first)
    then show ?thesis using 1 assms(2) by simp
  qed (rule assms(1))
qed

lemma concat_segments: "concat (segments s) = s"
  by (induction s rule: lines_induct) (auto simp: segments_line, simp add: segments_def SplitAfter_rest)

lemma whole_lines_rest: "whole_lines l \<Longrightarrow> newline \<notin> set l \<Longrightarrow> l = []"
  unfolding whole_lines_def by (metis last_in_set)

lemma whole_lines_line: "whole_lines (l @ newline # r) = whole_lines r"
  by (simp add: whole_lines_def)

lemma segments_append: "whole_lines a \<Longrightarrow> segments (a @ b) = segments a @ segments b"
proof (induction a rule: lines_induct)
  case (rest l)
  then show ?case using whole_lines_rest [OF rest(2) rest(1)] by simp
next
  case (line l r)
  then show ?case by (simp add: segments_line whole_lines_line)
qed

lemma segments_whole: "whole_lines s \<Longrightarrow> list_all line_segment (segments s)"
proof (induction s rule: lines_induct)
  case (rest l)
  then show ?case using whole_lines_rest [OF rest(2) rest(1)] by simp
next
  case (line l r)
  then show ?case by (auto simp: segments_line whole_lines_line line_segment_def)
qed

lemma concat_whole: "list_all line_segment xs \<Longrightarrow> whole_lines (concat xs)"
proof (induction xs)
  case (Cons x xs)
  then obtain l where "x = l @ [newline]" by (auto simp: line_segment_def)
  then show ?case using Cons by (simp add: whole_lines_line)
qed (simp add: whole_lines_def)

lemma segments_concat: "list_all line_segment xs \<Longrightarrow> segments (concat xs) = xs"
proof (induction xs)
  case (Cons x xs)
  then obtain l where "newline \<notin> set l" "x = l @ [newline]" by (auto simp: line_segment_def)
  then show ?case using Cons by (simp add: segments_line)
qed simp

lemma complete_part_whole: "whole_lines (complete_part s)"
proof (cases "dropWhile (\<lambda>c. c \<noteq> newline) (rev s)")
  case Nil
  then show ?thesis by (simp add: complete_part_def whole_lines_def)
next
  case (Cons c cs)
  then have "c = newline" using dropWhile_not_head by fastforce
  then show ?thesis by (simp add: complete_part_def whole_lines_def Cons)
qed

lemma complete_part_prefix: "\<exists>r. s = complete_part s @ r \<and> newline \<notin> set r"
proof -
  have "rev s = takeWhile (\<lambda>c. c \<noteq> newline) (rev s) @ dropWhile (\<lambda>c. c \<noteq> newline) (rev s)" by simp
  then have "s = complete_part s @ rev (takeWhile (\<lambda>c. c \<noteq> newline) (rev s))"
    unfolding complete_part_def by (metis rev_append rev_rev_ident)
  moreover have "newline \<notin> set (rev (takeWhile (\<lambda>c. c \<noteq> newline) (rev s)))" by (auto dest: set_takeWhileD)
  ultimately show ?thesis by blast
qed

lemma complete_part_empty: "complete_part s = [] \<longleftrightarrow> newline \<notin> set s"
  by (auto simp: complete_part_def dropWhile_eq_Nil_conv)

section \<open>Delivery\<close>

text \<open>The texts a raw log yields: its lines that are not blank.\<close>

definition log_lines :: "string \<Rightarrow> string list" where
  "log_lines s = filter (\<lambda>l. TrimSpace l \<noteq> []) (map chomp (segments s))"

lemma log_lines_Nil [simp]: "log_lines [] = []"
  by (simp add: log_lines_def)

lemma log_lines_append: "whole_lines a \<Longrightarrow> log_lines (a @ b) = log_lines a @ log_lines b"
  by (simp add: log_lines_def segments_append)

lemma raw_message: "ev_Message (annotate X d trust path n line (prepared d' e)) = ev_Message e"
  by (simp add: annotate_def prepared_def Event_Prepare_def)

text \<open>The loop consumes whole lines from the front and yields their texts.\<close>

lemma tail_lines_raw:
  assumes "tail_lines X dr trust path (rawParser source) n room segs = (evs, errs, k, p)" "list_all line_segment segs"
  shows "p = rawParser source \<and> errs = [] \<and>
    (\<exists>j\<le>length segs. k = length (concat (take j segs)) \<and>
       map ev_Message evs = filter (\<lambda>l. TrimSpace l \<noteq> []) (map chomp (take j segs)) \<and> (0 < room \<and> segs \<noteq> [] \<longrightarrow> 0 < j))"
  using assms
proof (induction segs arbitrary: n room evs errs k p)
  case Nil
  then show ?case by simp
next
  case (Cons seg segs)
  have seg: "seg \<noteq> []" using Cons.prems(2) by (auto simp: line_segment_def)
  have later: "list_all line_segment segs" using Cons.prems(2) by simp
  show ?case
  proof (cases "room \<le> 0")
    case True
    then show ?thesis using Cons.prems seg by (intro conjI exI [of _ 0]) auto
  next
    case False
    define room1 where "room1 = (if TrimSpace (chomp seg) = [] then room else room - 1)"
    obtain evs1 errs1 k1 p1 where r: "tail_lines X dr trust path (rawParser source) (Suc n) room1 segs = (evs1, errs1, k1, p1)"
      by (metis prod_cases4)
    from Cons.IH [OF r later] obtain j where j: "p1 = rawParser source" "errs1 = []" "j \<le> length segs" "k1 = length (concat (take j segs))"
      "map ev_Message evs1 = filter (\<lambda>l. TrimSpace l \<noteq> []) (map chomp (take j segs))" by blast
    have "errs = errs1" "k = length seg + k1" "p = p1"
      "map ev_Message evs = (if TrimSpace (chomp seg) = [] then [] else [chomp seg]) @ map ev_Message evs1"
      using Cons.prems(1) seg False r
      by (auto simp: Parse_def parse_raw_def room1_def Let_def raw_message split: if_splits)
    then show ?thesis using j by (intro conjI exI [of _ "Suc j"]) auto
  qed
qed

text \<open>Where a poll that has seen the file before leaves the offset, whatever fails on the way.\<close>

definition read_up_to :: "string \<Rightarrow> string \<Rightarrow> Tailer \<Rightarrow> string list \<Rightarrow> bool" where
  "read_up_to path c t delivered =
     (case map_of (tl_offsets t) path of
        None \<Rightarrow> delivered = []
      | Some o' \<Rightarrow> 0 \<le> o' \<and> o' \<le> int (length c) \<and> whole_lines (take (nat o') c) \<and> delivered = log_lines (take (nat o') c))"

lemma read_at_ok:
  "read_at path o' n w = (Inr b, w') \<Longrightarrow> \<exists>c. fs_content (files w) path = Some c \<and> b = take (nat n) (drop (nat o') c)"
  by (auto simp: read_at_def io_ok os_Open_def fs_content_def dest: next_fault_eqs split: prod.splits if_splits option.splits)

lemma tail_lines_segments:
  "tail_lines X dr trust path p n room (filter (\<lambda>x. x \<noteq> []) segs) = tail_lines X dr trust path p n room segs"
  by (induction segs arbitrary: p n room) (simp_all add: Let_def split: prod.split sum.split option.split)

lemma segments_front:
  assumes "whole_lines a" "j \<le> length (segments b)" "whole_lines b" "c = a @ b @ r"
  shows "length a + length (concat (take j (segments b))) \<le> length c"
    and "take (length a + length (concat (take j (segments b)))) c = a @ concat (take j (segments b))"
    and "whole_lines (a @ concat (take j (segments b)))"
    and "log_lines (a @ concat (take j (segments b))) =
           log_lines a @ filter (\<lambda>l. TrimSpace l \<noteq> []) (map chomp (take j (segments b)))"
proof -
  let ?x = "concat (take j (segments b))"
  have "b = ?x @ concat (drop j (segments b))"
    using concat_segments [of b] by (metis append_take_drop_id concat_append)
  then have c: "c = a @ ?x @ concat (drop j (segments b)) @ r" using assms(4) by (metis append_assoc)
  have l: "list_all line_segment (take j (segments b))"
    using segments_whole [OF assms(3)] by (metis append_take_drop_id list_all_append)
  show "length a + length ?x \<le> length c" "take (length a + length ?x) c = a @ ?x" by (subst c, simp)+
  show "whole_lines (a @ ?x)"
  proof (cases "?x = []")
    case False
    then show ?thesis using concat_whole [OF l] unfolding whole_lines_def by (metis last_appendR)
  qed (use assms(1) in \<open>simp only: append_Nil2\<close>)
  show "log_lines (a @ ?x) = log_lines a @ filter (\<lambda>l. TrimSpace l \<noteq> []) (map chomp (take j (segments b)))"
    using segments_concat [OF l] assms(1) by (simp add: log_lines_append, simp add: log_lines_def)
qed

lemma poll_from_raw:
  assumes run: "poll_from X E path m (int (length c)) o' t w = ((evs, errs), t', w')"
    and c: "fs_content (files w) path = Some c" and p: "tl_parser t = rawParser source"
    and o: "map_of (tl_offsets t) path = Some o'" and inv: "read_up_to path c t delivered"
  shows "tl_parser t' = rawParser source \<and> tl_cfg t' = tl_cfg t \<and> read_up_to path c t' (delivered @ map ev_Message evs)"
proof -
  from inv o have b: "0 \<le> o'" "o' \<le> int (length c)" "whole_lines (take (nat o') c)" "delivered = log_lines (take (nat o') c)"
    by (simp_all add: read_up_to_def)
  let ?n = "min (int (length c) - o') maxReadPerPoll"
  obtain r w1 where rd: "read_at path o' ?n w = (r, w1)" by (rule prod.exhaust)
  show ?thesis
  proof (cases "int (length c) = o' \<or> (\<exists>e. r = Inl e) \<or> (\<exists>buffer. r = Inr buffer \<and> complete_part buffer = [])")
    case True
    then have "evs = [] \<and> t' = t" using run b rd by (auto simp: poll_from_def split: prod.splits if_splits)
    then show ?thesis using p inv by simp
  next
    case False
    then obtain buffer where buffer: "r = Inr buffer" "complete_part buffer \<noteq> []" "int (length c) \<noteq> o'" by (cases r) auto
    let ?segs = "segments (complete_part buffer)"
    obtain evs1 errs1 k p1 where tl: "tail_lines X (pe_line E path) (src_Trust (tl_cfg t)) path (tl_parser t) 0 m ?segs = (evs1, errs1, k, p1)"
      by (metis prod_cases4)
    have st: "evs = evs1" "t' = t\<lparr>tl_parser := p1, tl_offsets := AList.update path (o' + int k) (tl_offsets t)\<rparr>"
      using run rd b buffer tl tail_lines_segments [of X "pe_line E path" "src_Trust (tl_cfg t)" path "tl_parser t" 0 m
          "SplitAfter newline (complete_part buffer)"]
      by (auto simp: poll_from_def segments_def)
    from tail_lines_raw [OF tl [unfolded p] segments_whole [OF complete_part_whole]] obtain j where
      j: "p1 = rawParser source" "j \<le> length ?segs" "k = length (concat (take j ?segs))"
        "map ev_Message evs1 = filter (\<lambda>l. TrimSpace l \<noteq> []) (map chomp (take j ?segs))" by blast
    have "buffer = take (nat ?n) (drop (nat o') c)" using read_at_ok [of path o' ?n w buffer w1] rd buffer(1) c by auto
    then have "c = take (nat o') c @ buffer @ drop (nat ?n) (drop (nat o') c)" by (metis append_take_drop_id)
    moreover obtain rest where "buffer = complete_part buffer @ rest" using complete_part_prefix by blast
    ultimately have split: "c = take (nat o') c @ complete_part buffer @ (rest @ drop (nat ?n) (drop (nat o') c))"
      by (metis append_assoc)
    have a: "length (take (nat o') c) = nat o'" using b by simp
    note front = segments_front [OF b(3) j(2) complete_part_whole split, unfolded a, folded j(3)]
    have "nat (o' + int k) = nat o' + k" using b by simp
    then have "read_up_to path c t' (delivered @ map ev_Message evs)"
      using front b j(4) st by (simp add: read_up_to_def map_of_update)
    then show ?thesis using st j(1) by simp
  qed
qed

lemma pollFile_raw:
  assumes run: "pollFile X E path m t w = ((evs, errs), t', w')" and dir: "\<not> pe_isdir E path" and start: "src_FromStart (tl_cfg t)"
    and c: "fs_content (files w) path = Some c" and p: "tl_parser t = rawParser source" and inv: "read_up_to path c t delivered"
  shows "tl_parser t' = rawParser source \<and> tl_cfg t' = tl_cfg t \<and> read_up_to path c t' (delivered @ map ev_Message evs)"
proof -
  obtain r w1 where st: "os_Stat path w = (r, w1)" by (rule prod.exhaust)
  note stat = os_Stat_cases [OF st]
  show ?thesis
  proof (cases r)
    case (Inl e)
    then have "evs = []" "t' = t" using run dir st by (auto simp: pollFile_def split: if_splits)
    then show ?thesis using p inv by simp
  next
    case (Inr info)
    with stat c have info: "content info = c" and c1: "fs_content (files w1) path = Some c" by (auto simp: fs_content_def)
    show ?thesis
    proof (cases "map_of (tl_offsets t) path")
      case None
      define t1 where "t1 = t\<lparr>tl_offsets := AList.update path 0 (tl_offsets t), tl_seen := path # tl_seen t\<rparr>"
      have "poll_from X E path m (int (length c)) 0 t1 w1 = ((evs, errs), t', w')"
        using run dir st Inr None start info by (simp add: pollFile_def Let_def t1_def)
      moreover have "delivered = []" using inv None by (simp add: read_up_to_def)
      then have "read_up_to path c t1 delivered" by (simp add: read_up_to_def t1_def map_of_update whole_lines_def)
      ultimately show ?thesis using poll_from_raw [of X E path m c 0 t1 w1] c1 p
        by (simp add: t1_def map_of_update)
    next
      case (Some o')
      then have "poll_from X E path m (int (length c)) o' t w1 = ((evs, errs), t', w')"
        using run dir st Inr info by (simp add: pollFile_def Let_def)
      from poll_from_raw [OF this c1 p Some inv] show ?thesis .
    qed
  qed
qed

text \<open>A raw source that is read from the start: the log grows at its end, and is polled in between with any budget, under any
  failures. \<open>delivered\<close> are the messages of the events so far.\<close>

inductive tailing :: "parse_codec \<Rightarrow> Source \<Rightarrow> string \<Rightarrow> string \<Rightarrow> Tailer \<Rightarrow> string list \<Rightarrow> bool" for X cfg path where
  start: "Tailer_New cfg = Inr t \<Longrightarrow> tailing X cfg path [] t []"
| grow: "tailing X cfg path c t delivered \<Longrightarrow> tailing X cfg path (c @ s) t delivered"
| poll: "tailing X cfg path c t delivered \<Longrightarrow> fs_content (files w) path = Some c \<Longrightarrow> \<not> pe_isdir E path \<Longrightarrow>
    pollFile X E path m t w = ((evs, errs), t', w') \<Longrightarrow> tailing X cfg path c t' (delivered @ map ev_Message evs)"

lemma Tailer_New_raw:
  "Tailer_New cfg = Inr t \<Longrightarrow> src_Format cfg = ''raw'' \<Longrightarrow>
     t = \<lparr>tl_cfg = cfg, tl_parser = rawParser (src_ID cfg), tl_offsets = [], tl_seen = []\<rparr>"
proof -
  have "ToLower (TrimSpace ''raw'') = ''raw''" by code_simp
  then show "Tailer_New cfg = Inr t \<Longrightarrow> src_Format cfg = ''raw'' \<Longrightarrow>
     t = \<lparr>tl_cfg = cfg, tl_parser = rawParser (src_ID cfg), tl_offsets = [], tl_seen = []\<rparr>"
    by (simp add: Tailer_New_def Parser_New_def)
qed

lemma read_up_to_grow: "read_up_to path c t delivered \<Longrightarrow> read_up_to path (c @ s) t delivered"
  by (auto simp: read_up_to_def split: option.splits)

lemma tailing_invariant:
  assumes "tailing X cfg path c t delivered" "src_Format cfg = ''raw''" "src_FromStart cfg"
  shows "tl_cfg t = cfg \<and> tl_parser t = rawParser (src_ID cfg) \<and> read_up_to path c t delivered"
  using assms(1)
proof induction
  case (start t)
  then show ?case using Tailer_New_raw [OF start assms(2)] by (simp add: read_up_to_def)
next
  case (grow c t delivered s)
  then show ?case using read_up_to_grow by blast
next
  case (poll c t delivered w E m evs errs t' w')
  then show ?case using pollFile_raw [OF poll.hyps(4,3) _ poll.hyps(2), of "src_ID cfg" delivered] assms(3) by simp
qed


section \<open>Progress\<close>

lemma nat_limit: "0 \<le> a \<Longrightarrow> a \<le> int n \<Longrightarrow> nat (min (int n - a) maxReadPerPoll) = min (n - nat a) (nat maxReadPerPoll)"
  by (simp add: min_def maxReadPerPoll_def; linarith)

text \<open>No log is stuck behind a line of reasonable length: when no system call fails, the budget is positive and the unread
  part has a newline within the 8 MiB one poll reads, the poll of a raw source moves the offset forward.\<close>

theorem poll_makes_progress:
  assumes "healthy w" and "\<not> pe_isdir E path" and "fs_content (files w) path = Some c" and "tl_parser t = rawParser source"
    and "map_of (tl_offsets t) path = Some o'" and "0 \<le> o'" and "o' \<le> int (length c)" and "0 < m"
    and "newline \<in> set (take (nat maxReadPerPoll) (drop (nat o') c))"
  shows "\<exists>evs errs t' o''. pollFile X E path m t w = ((evs, errs), t', w) \<and> map_of (tl_offsets t') path = Some o'' \<and> o' < o''"
proof -
  let ?n = "min (int (length c) - o') maxReadPerPoll"
  let ?buffer = "take (nat ?n) (drop (nat o') c)"
  have nf: "next_fault w = (FOk, w)" using assms(1) by (simp add: healthy_def next_fault_none)
  from assms(3) obtain info where info: "fs_get (files w) path = Some info" "content info = c" by (auto simp: fs_content_def)
  have ne: "int (length c) \<noteq> o'" using assms(9) by auto
  have nat_n: "nat ?n = min (length c - nat o') (nat maxReadPerPoll)" by (rule nat_limit [OF assms(6,7)])
  have buf: "?buffer = take (nat maxReadPerPoll) (drop (nat o') c)" unfolding nat_n by (simp add: min_def)
  have rd: "read_at path o' ?n w = (Inr ?buffer, w)"
    using nf info by (simp add: read_at_def io_bind_def io_wrap_def os_Open_def file_call_def io_return_def)
  have cp: "complete_part ?buffer \<noteq> []" using assms(9) unfolding buf complete_part_empty by simp
  let ?segs = "segments (complete_part ?buffer)"
  have segs: "?segs \<noteq> []" using cp concat_segments [of "complete_part ?buffer"] by auto
  obtain evs errs k p where tl: "tail_lines X (pe_line E path) (src_Trust (tl_cfg t)) path (rawParser source) 0 m ?segs = (evs, errs, k, p)"
    by (metis prod_cases4)
  from tail_lines_raw [OF tl segments_whole [OF complete_part_whole]] obtain j where
    j: "j \<le> length ?segs" "k = length (concat (take j ?segs))" "0 < j" using assms(8) segs by blast
  have "0 < k"
  proof -
    obtain x xs where x: "?segs = x # xs" using segs by (cases ?segs) auto
    then have "x \<noteq> []" by (metis (mono_tags, lifting) filter_eq_Cons_iff segments_def)
    then show ?thesis using j x by (cases j) auto
  qed
  moreover have "pollFile X E path m t w =
      ((evs, errs), t\<lparr>tl_parser := p, tl_offsets := AList.update path (o' + int k) (tl_offsets t)\<rparr>, w)"
    using assms(1,2,4-7) info ne rd cp tl tail_lines_segments [of X "pe_line E path" "src_Trust (tl_cfg t)" path "rawParser source" 0 m
        "SplitAfter newline (complete_part ?buffer)"]
    by (simp add: pollFile_def poll_from_def Let_def segments_def)
  ultimately show ?thesis by (simp add: map_of_update)
qed

text \<open>Without a newline in those 8 MiB the poll reads nothing, and nothing changes: such a line blocks the log for good.\<close>

lemma overlong_line_blocks:
  assumes "healthy w" "\<not> pe_isdir E path" "fs_content (files w) path = Some c" "map_of (tl_offsets t) path = Some o'"
    and "0 \<le> o'" "o' \<le> int (length c)" "newline \<notin> set (take (nat maxReadPerPoll) (drop (nat o') c))"
  shows "pollFile X E path m t w = (([], []), t, w)"
proof -
  let ?n = "min (int (length c) - o') maxReadPerPoll"
  have nf: "next_fault w = (FOk, w)" using assms(1) by (simp add: healthy_def next_fault_none)
  from assms(3) obtain info where info: "fs_get (files w) path = Some info" "content info = c" by (auto simp: fs_content_def)
  have nat_n: "nat ?n = min (length c - nat o') (nat maxReadPerPoll)" by (rule nat_limit [OF assms(5,6)])
  have buf: "take (nat ?n) (drop (nat o') c) = take (nat maxReadPerPoll) (drop (nat o') c)" unfolding nat_n by (simp add: min_def)
  have rd: "read_at path o' ?n w = (Inr (take (nat maxReadPerPoll) (drop (nat o') c)), w)"
    using nf info buf by (simp add: read_at_def io_bind_def io_wrap_def os_Open_def file_call_def io_return_def)
  show ?thesis using assms(1,2,4-6) info rd assms(7) [folded complete_part_empty]
    by (simp add: pollFile_def poll_from_def Let_def)
qed

section \<open>A run\<close>

definition toy_source :: Source where
  "toy_source = \<lparr>src_ID = ''app'', src_Enabled = True, src_Path = ''/var/log/app'', src_Format = ''raw'', src_Trust = [],
     src_FromStart = True, src_MaxBatch = 1\<rparr>"

definition toy_log_world :: "string \<Rightarrow> world" where
  "toy_log_world s = \<lparr>files = [(''/var/log/app'', \<lparr>content = s, perm = 0, mtime = 0\<rparr>)], faults = [], events = [], clock = 1, clock_steps = []\<rparr>"

definition toy_poll_env :: poll_env where
  "toy_poll_env = \<lparr>pe_glob = (\<lambda>p. Some [p]), pe_isdir = (\<lambda>_. False), pe_line = (\<lambda>_ _. (toy_draw, toy_draw))\<rparr>"

definition toy_tailer :: Tailer where
  "toy_tailer = \<lparr>tl_cfg = toy_source, tl_parser = rawParser ''app'', tl_offsets = [], tl_seen = []\<rparr>"

definition toy_log :: string where
  "toy_log = ''one'' @ [CHR 0x0D, newline] @ ''two'' @ [newline] @ ''thr''"

text \<open>A budget of one line, a log whose last line is not complete yet.\<close>

lemma toy_poll:
  "\<exists>e. pollFile toy_codec toy_poll_env ''/var/log/app'' 1 toy_tailer (toy_log_world toy_log) =
     (([e], []), toy_tailer\<lparr>tl_offsets := [(''/var/log/app'', 5)], tl_seen := [''/var/log/app'']\<rparr>, toy_log_world toy_log)
   \<and> ev_Message e = ''one''"
proof -
  let ?r = "pollFile toy_codec toy_poll_env ''/var/log/app'' 1 toy_tailer (toy_log_world toy_log)"
  have "map ev_Message (fst (fst ?r)) = [''one''] \<and> snd (fst ?r) = []" by code_simp
  moreover have "fst (snd ?r) = toy_tailer\<lparr>tl_offsets := [(''/var/log/app'', 5)], tl_seen := [''/var/log/app'']\<rparr>" by code_simp
  moreover have "snd (snd ?r) = toy_log_world toy_log" by code_simp
  ultimately show ?thesis by (cases ?r) (auto simp: map_eq_Cons_conv)
qed


lemma poll_makes_progress_witness:
  "\<exists>evs errs t' o''. pollFile toy_codec toy_poll_env ''/var/log/app'' 1 (toy_tailer\<lparr>tl_offsets := [(''/var/log/app'', 5)]\<rparr>)
     (toy_log_world toy_log) = ((evs, errs), t', toy_log_world toy_log) \<and> map_of (tl_offsets t') ''/var/log/app'' = Some o'' \<and> 5 < o''"
proof (rule poll_makes_progress)
  show "healthy (toy_log_world toy_log)" by code_simp
  show "\<not> pe_isdir toy_poll_env ''/var/log/app''" by code_simp
  show "fs_content (files (toy_log_world toy_log)) ''/var/log/app'' = Some toy_log" by code_simp
  show "tl_parser (toy_tailer\<lparr>tl_offsets := [(''/var/log/app'', 5)]\<rparr>) = rawParser ''app''" by (simp add: toy_tailer_def)
  show "map_of (tl_offsets (toy_tailer\<lparr>tl_offsets := [(''/var/log/app'', 5)]\<rparr>)) ''/var/log/app'' = Some 5" by simp
  show "newline \<in> set (take (nat maxReadPerPoll) (drop (nat 5) toy_log))"
    by (simp add: toy_log_def maxReadPerPoll_def take_Cons')
qed (simp_all add: toy_log_def)

end
