(* ===== verification/Cursor.thy ===== *)
theory Cursor
  imports Config
begin

text \<open>
  \<open>internal/collector/native/cursor.go\<close>: the position of a native source, in a file of its own that is replaced at every
  acknowledgement. The JSON codec is a parameter (decoding starts from the state already set up).
\<close>

section \<open>State\<close>

definition cursorVersion :: int where "cursorVersion = 1"

definition cursorSourceIDPattern :: regex where "cursorSourceIDPattern = word_pattern alnum 63 id_char"

record cursorState =
  cu_Version :: int
  cu_SourceID :: string
  cu_Kind :: string
  cu_Initialized :: bool
  cu_WindowsRecordID :: int
  cu_JournalCursor :: string
  cu_JournalSince :: gtime
  cu_FileOffset :: int
  cu_FileDevice :: int
  cu_FileInode :: int
  cu_FilePendingFragment :: string
  cu_UpdatedAt :: gtime

record cursorFile =
  cf_path :: string
  cf_state :: cursorState

record cursor_codec =
  cx_encode :: "cursorState \<Rightarrow> string option"
  cx_decode :: "string \<Rightarrow> cursorState \<Rightarrow> cursorState option"

datatype cursor_error = CurID | CurOS oserr | CurTooLong | CurDecode | CurVersion | CurIdentity | CurSource | CurKind | CurEncode

definition new_cursor :: "string \<Rightarrow> string \<Rightarrow> cursorState" where
  "new_cursor sourceID kind = \<lparr>cu_Version = cursorVersion, cu_SourceID = sourceID, cu_Kind = kind, cu_Initialized = False,
     cu_WindowsRecordID = 0, cu_JournalCursor = [], cu_JournalSince = 0, cu_FileOffset = 0, cu_FileDevice = 0, cu_FileInode = 0,
     cu_FilePendingFragment = [], cu_UpdatedAt = 0\<rparr>"

section \<open>Opening\<close>

text \<open>The checks on the content of the file.\<close>

definition read_cursor :: "cursor_codec \<Rightarrow> string \<Rightarrow> string \<Rightarrow> string \<Rightarrow> (cursor_error, cursorState) result" where
  "read_cursor X sourceID kind text =
     (if length (LimitRead (64 * 1024 + 1) text) > 64 * 1024 then Inl CurTooLong
      else case cx_decode X text (new_cursor sourceID kind) of
             None \<Rightarrow> Inl CurDecode
           | Some s \<Rightarrow>
               if cu_Version s \<noteq> cursorVersion then Inl CurVersion
               else if cu_SourceID s \<noteq> sourceID \<or> cu_Kind s \<noteq> kind then Inl CurIdentity
               else Inr s)"

definition cursor_dir :: "string \<Rightarrow> string" where "cursor_dir dataDir = filepath_Join [dataDir, ''cursors'']"

definition cursor_path :: "string \<Rightarrow> string \<Rightarrow> string" where
  "cursor_path dataDir sourceID = filepath_Join [cursor_dir dataDir, sourceID @ ''.json'']"

text \<open>\<open>os.Open\<close> and \<open>io.ReadAll\<close> are one call here.\<close>

definition openCursor :: "cursor_codec \<Rightarrow> string \<Rightarrow> string \<Rightarrow> string \<Rightarrow> (cursor_error, cursorFile) call" where
  "openCursor X dataDir sourceID kind =
     io_bind (io_check (\<not> MatchString cursorSourceIDPattern sourceID) CurID) (\<lambda>_.
     io_bind (io_wrap CurOS (os_MkdirAll (cursor_dir dataDir) mode_private_dir)) (\<lambda>_.
     io_bind (io_wrap CurOS (chmod_dir (cursor_dir dataDir) mode_private_dir)) (\<lambda>_ w.
     let path = cursor_path dataDir sourceID
     in case os_ReadFile path w of
          (Inl e, w1) \<Rightarrow>
            (if e = ErrNotExist then (Inr \<lparr>cf_path = path, cf_state = new_cursor sourceID kind\<rparr>, w1) else (Inl (CurOS e), w1))
        | (Inr text, w1) \<Rightarrow>
            (case read_cursor X sourceID kind text of
               Inl e \<Rightarrow> (Inl e, w1)
             | Inr s \<Rightarrow>
                 (case os_Chmod path mode_private w1 of
                    (Inl e, w2) \<Rightarrow> (Inl (CurOS e), w2)
                  | (Inr _, w2) \<Rightarrow> (Inr \<lparr>cf_path = path, cf_state = s\<rparr>, w2))))))"

definition cursor_Snapshot :: "cursorFile \<Rightarrow> cursorState" where "cursor_Snapshot c = cf_state c"

section \<open>Committing\<close>

text \<open>What is stored: the identity of the cursor is not the caller's to choose.\<close>

definition stamped :: "cursorFile \<Rightarrow> gtime \<Rightarrow> cursorState \<Rightarrow> cursorState" where
  "stamped c now s = s\<lparr>cu_Version := cursorVersion, cu_SourceID := cu_SourceID (cf_state c), cu_Kind := cu_Kind (cf_state c),
     cu_UpdatedAt := now\<rparr>"

definition admissible :: "cursorFile \<Rightarrow> cursorState \<Rightarrow> cursor_error option" where
  "admissible c next =
     (if cu_SourceID next \<noteq> [] \<and> cu_SourceID next \<noteq> cu_SourceID (cf_state c) then Some CurSource
      else if cu_Kind next \<noteq> [] \<and> cu_Kind next \<noteq> cu_Kind (cf_state c) then Some CurKind
      else None)"

text \<open>The temporary file: \<open>CreateTemp\<close>, \<open>Chmod\<close>, two writes, \<open>Sync\<close> and \<open>Close\<close>.\<close>

definition write_temporary :: "string \<Rightarrow> string \<Rightarrow> unit io" where
  "write_temporary tmp text =
     io_bind (os_Chmod tmp mode_private) (\<lambda>_.
     io_bind (file_Append tmp text) (\<lambda>_.
     io_bind (file_Append tmp [CHR 0x0A]) (\<lambda>_.
     io_bind (file_Sync tmp) (\<lambda>_. file_Sync tmp))))"

text \<open>\<open>os.Rename\<close>, and after a failure removing the target and trying once more.\<close>

definition rename_over :: "string \<Rightarrow> string \<Rightarrow> unit io" where
  "rename_over tmp path w =
     (case os_Rename tmp path w of
        (Inr _, w1) \<Rightarrow> (Inr (), w1)
      | (Inl _, w1) \<Rightarrow>
          (case os_Remove path w1 of
             (Inl e, w2) \<Rightarrow> if e \<noteq> ErrNotExist then (Inl e, w2) else os_Rename tmp path w2
           | (Inr _, w2) \<Rightarrow> os_Rename tmp path w2))"

text \<open>The calls from \<open>CreateTemp\<close> on; \<open>rnd\<close> is the random part it settles on. The deferred function removes the temporary
  file unless it has been renamed.\<close>

definition replace_cursor :: "string \<Rightarrow> string \<Rightarrow> string \<Rightarrow> unit io" where
  "replace_cursor rnd path text w =
     (let tmp = filepath_Join [filepath_Dir path, ''.cursor-'' @ rnd @ ''.tmp'']
      in case os_WriteFile tmp [] mode_private w of
           (Inl e, w1) \<Rightarrow> (Inl e, w1)
         | (Inr _, w1) \<Rightarrow>
             (case write_temporary tmp text w1 of
                (Inl e, w2) \<Rightarrow> (Inl e, snd (os_Remove tmp w2))
              | (Inr _, w2) \<Rightarrow>
                  (case rename_over tmp path w2 of
                     (Inl e, w3) \<Rightarrow> (Inl e, snd (os_Remove tmp w3))
                   | (Inr _, w3) \<Rightarrow> os_Chmod path mode_private w3)))"

definition cursor_Commit :: "cursor_codec \<Rightarrow> string \<Rightarrow> cursorState \<Rightarrow> cursorFile \<Rightarrow> world
    \<Rightarrow> (cursor_error, unit) result \<times> cursorFile \<times> world" where
  "cursor_Commit X rnd next c w =
     (case admissible c next of
        Some e \<Rightarrow> (Inl e, c, w)
      | None \<Rightarrow>
          (case time_Now w of
             (now, w1) \<Rightarrow>
               (case cx_encode X (stamped c now next) of
                  None \<Rightarrow> (Inl CurEncode, c, w1)
                | Some text \<Rightarrow>
                    (case replace_cursor rnd (cf_path c) text w1 of
                       (Inl e, w2) \<Rightarrow> (Inl (CurOS e), c, w2)
                     | (Inr _, w2) \<Rightarrow> (Inr (), c\<lparr>cf_state := stamped c now next\<rparr>, w2)))))"

section \<open>Facts\<close>

lemma quiet_time: "time_Now w = (t, w1) \<Longrightarrow> quiet p w w1"
  by (auto dest!: time_Now_eqs intro!: quiet_nil simp: steps_def)

lemma quiet_Append: "file_Append q c w = (r, w') \<Longrightarrow> p \<noteq> q \<Longrightarrow> quiet p w w'"
  by (drule file_Append_steps) (blast intro: quiet_nil quiet_one harmless_other)

lemma quiet_file_Sync: "file_Sync q w = (r, w') \<Longrightarrow> quiet p w w'"
  by (rule quiet_nil) (use file_Sync_cases [of q w r w'] in \<open>simp add: steps_def\<close>)

lemma quiet_write_temporary: "p \<noteq> tmp \<Longrightarrow> io_quiet p (write_temporary tmp text)"
  unfolding write_temporary_def
  by (intro io_intros) (auto intro: io_quietI dest: quiet_Append quiet_file_Sync)

lemma content_Append:
  "file_Append p c w = (Inr (), w') \<Longrightarrow> fs_content (files w) p = Some d \<Longrightarrow> fs_content (files w') p = Some (d @ c)"
  by (drule file_Append_steps) (auto simp: steps_def fs_content_def fs_simps)

lemma content_Chmod: "os_Chmod q m w = (r, w') \<Longrightarrow> fs_content (files w') p = fs_content (files w) p"
  by (rule quiet_content [OF quiet_Chmod])

lemma content_Sync: "file_Sync q w = (r, w') \<Longrightarrow> fs_content (files w') p = fs_content (files w) p"
  by (rule quiet_content [OF quiet_file_Sync])

lemma written_temporary:
  assumes "write_temporary tmp text w = (Inr (), w')" "fs_content (files w) tmp = Some []"
  shows "fs_content (files w') tmp = Some (text @ [CHR 0x0A])"
proof -
  from assms(1) obtain w1 w2 w3 w4 where s: "os_Chmod tmp mode_private w = (Inr (), w1)" "file_Append tmp text w1 = (Inr (), w2)"
    "file_Append tmp [CHR 0x0A] w2 = (Inr (), w3)" "file_Sync tmp w3 = (Inr (), w4)" "file_Sync tmp w4 = (Inr (), w')"
    by (auto simp: write_temporary_def io_ok)
  have "fs_content (files w1) tmp = Some []" using content_Chmod [OF s(1)] assms(2) by simp
  from content_Append [OF s(3) content_Append [OF s(2) this]] content_Sync [OF s(4)] content_Sync [OF s(5)]
  show ?thesis by simp
qed

text \<open>Old, new, or gone: the three contents of the target while it is replaced.\<close>

definition replaced :: "string \<Rightarrow> string option \<Rightarrow> string \<Rightarrow> fs \<Rightarrow> bool" where
  "replaced p before c u = (fs_content u p = before \<or> fs_content u p = Some c \<or> fs_content u p = None)"

lemma crash_safe_removed: "steps w [EvRemove p] w' \<Longrightarrow> crash_safe (\<lambda>u. fs_content u p = fs_content (files w) p \<or> fs_content u p = None) w w'"
  unfolding crash_safe_def
  by (rule exI [of _ "[EvRemove p]"]) (auto simp: crashes_Cons fs_content_def fs_simps)

lemma rename_moves:
  assumes "os_Rename tmp path w = (r, w')" "fs_content (files w) tmp = Some c" "tmp \<noteq> path"
  shows "crash_safe (\<lambda>u. fs_content u path = fs_content (files w) path \<or> fs_content u path = Some c) w w'"
    and "r = Inr () \<Longrightarrow> fs_content (files w') path = Some c"
    and "r \<noteq> Inr () \<Longrightarrow> files w' = files w"
proof -
  from os_Rename_steps [OF assms(1)] consider "r = Inr ()" | "\<exists>e. r = Inl e" "steps w [] w'" by auto
  then show "crash_safe (\<lambda>u. fs_content u path = fs_content (files w) path \<or> fs_content u path = Some c) w w'"
  proof cases
    case 1
    with assms(1) have "os_Rename tmp path w = (Inr (), w')" by simp
    from rename_installs(3) [OF this assms(2)] show ?thesis .
  next
    case 2
    show ?thesis by (rule crash_safe_content [OF quiet_nil [OF 2(2)]])
  qed
  show "fs_content (files w') path = Some c" if "r = Inr ()"
    using rename_installs(1) [of tmp path w w'] assms(1,2) that by simp
  show "files w' = files w" if "r \<noteq> Inr ()"
    using os_Rename_steps [OF assms(1)] that by (auto simp: steps_def)
qed

lemma rename_over_safe:
  assumes "rename_over tmp path w = (r, w')" "fs_content (files w) tmp = Some c" "tmp \<noteq> path"
  shows "crash_safe (replaced path (fs_content (files w) path) c) w w' \<and> (r = Inr () \<longrightarrow> fs_content (files w') path = Some c)"
proof -
  let ?R = "replaced path (fs_content (files w) path) c"
  obtain r1 w1 where rn: "os_Rename tmp path w = (r1, w1)" by (rule prod.exhaust)
  note m = rename_moves [OF rn assms(2,3)]
  have s1: "crash_safe ?R w w1" by (rule crash_safe_mono [OF m(1)]) (auto simp: replaced_def)
  show ?thesis
  proof (cases r1)
    case (Inr x)
    then show ?thesis using assms(1) rn s1 m(2) by (simp add: rename_over_def)
  next
    case (Inl e)
    then have f1: "files w1 = files w" using m(3) by simp
    obtain r2 w2 where rm: "os_Remove path w1 = (r2, w2)" by (rule prod.exhaust)
    have s2: "crash_safe ?R w1 w2"
    proof (cases r2)
      case (Inr x)
      then have "steps w1 [EvRemove path] w2" using os_Remove_steps [OF rm] by auto
      from crash_safe_removed [OF this] show ?thesis by (rule crash_safe_mono) (auto simp: replaced_def f1)
    next
      case (Inl e)
      then have "steps w1 [] w2" using os_Remove_steps [OF rm] by auto
      from crash_safe_content [OF quiet_nil [OF this]] show ?thesis by (rule crash_safe_mono) (auto simp: replaced_def f1)
    qed
    have tmp2: "fs_content (files w2) tmp = Some c"
      using quiet_content [OF quiet_Remove [OF rm assms(3)]] assms(2) f1 by simp
    obtain r3 w3 where rn2: "os_Rename tmp path w2 = (r3, w3)" by (rule prod.exhaust)
    note m3 = rename_moves [OF rn2 tmp2 assms(3)]
    have c2: "fs_content (files w2) path = fs_content (files w) path \<or> fs_content (files w2) path = None"
      using os_Remove_steps [OF rm] f1 by (auto simp: steps_def fs_content_def fs_simps)
    have s3: "crash_safe ?R w2 w3" by (rule crash_safe_mono [OF m3(1)]) (use c2 in \<open>auto simp: replaced_def\<close>)
    show ?thesis
    proof (cases "\<exists>e. r2 = Inl e \<and> e \<noteq> ErrNotExist")
      case True
      then have "w' = w2" "r \<noteq> Inr ()" using assms(1) rn Inl rm by (auto simp: rename_over_def)
      then show ?thesis using crash_safe_trans [OF s1 s2] by simp
    next
      case False
      then have "r = r3" "w' = w3" using assms(1) rn Inl rm rn2 by (auto simp: rename_over_def split: sum.splits)
      then show ?thesis using crash_safe_trans [OF s1 crash_safe_trans [OF s2 s3]] m3(2) by simp
    qed
  qed
qed

text \<open>Without failures the target is never gone.\<close>

lemma rename_over_healthy:
  assumes "rename_over tmp path w = (r, w')" "fs_content (files w) tmp = Some c" "tmp \<noteq> path" "healthy w"
  shows "crash_safe (\<lambda>u. fs_content u path = fs_content (files w) path \<or> fs_content u path = Some c) w w'"
proof -
  have "os_Rename tmp path w = (Inr (), emit (EvRename tmp path) w)"
    using assms(2,4) by (auto simp: fs_content_def)
  then show ?thesis using rename_moves(1) [of tmp path w "Inr ()"] assms by (simp add: rename_over_def)
qed

lemma healthy_write_temporary: "healthy w \<Longrightarrow> write_temporary tmp text w = (r, w') \<Longrightarrow> healthy w'"
  by (auto simp: write_temporary_def io_bind_def split: if_splits)

text \<open>A replacement either leaves the target alone and fails, or gets to the rename.\<close>

lemma replace_cursor_run:
  assumes run: "replace_cursor rnd path text w = (r, w')"
    and ne: "path \<noteq> filepath_Join [filepath_Dir path, ''.cursor-'' @ rnd @ ''.tmp'']" (is "_ \<noteq> ?tmp")
  obtains (unchanged) "quiet path w w'" "r \<noteq> Inr ()"
  | (renamed) w2 r3 w3 where "quiet path w w2" "fs_content (files w2) ?tmp = Some (text @ [CHR 0x0A])" "healthy w \<Longrightarrow> healthy w2"
      "rename_over ?tmp path w2 = (r3, w3)" "quiet path w3 w'" "r = Inr () \<Longrightarrow> r3 = Inr ()"
proof -
  obtain r1 w1 where wr: "os_WriteFile ?tmp [] mode_private w = (r1, w1)" by (rule prod.exhaust)
  have q1: "quiet path w w1" by (rule quiet_WriteFile [OF wr ne])
  show thesis
  proof (cases r1)
    case (Inl e)
    then have "w' = w1" "r \<noteq> Inr ()" using run wr by (auto simp: replace_cursor_def)
    then show thesis using unchanged q1 by simp
  next
    case (Inr x)
    then have c1: "fs_content (files w1) ?tmp = Some []" using write_content [of ?tmp "[]" mode_private w w1] wr by simp
    obtain r2 w2 where tw: "write_temporary ?tmp text w1 = (r2, w2)" by (rule prod.exhaust)
    have q2: "quiet path w w2" by (rule quiet_trans [OF q1 io_quietD [OF quiet_write_temporary [OF ne] tw]])
    show thesis
    proof (cases r2)
      case e: (Inl e)
      then have "r \<noteq> Inr ()" "w' = snd (os_Remove ?tmp w2)" using run wr Inr tw by (auto simp: replace_cursor_def)
      then show thesis using quiet_trans [OF q2 quiet_snd_Remove [OF ne]] unchanged by simp
    next
      case y: (Inr y)
      have c2: "fs_content (files w2) ?tmp = Some (text @ [CHR 0x0A])" using written_temporary [of ?tmp "text" w1 w2] tw y c1 by simp
      have h: "healthy w2" if "healthy w"
        using healthy_write_temporary [OF _ tw] that wr by auto
      obtain r3 w3 where rn: "rename_over ?tmp path w2 = (r3, w3)" by (rule prod.exhaust)
      show thesis
      proof (cases r3)
        case e: (Inl e)
        then have "r \<noteq> Inr ()" "w' = snd (os_Remove ?tmp w3)" using run wr Inr tw y rn by (auto simp: replace_cursor_def)
        then show thesis using renamed [OF q2 c2 h rn] quiet_snd_Remove [OF ne] by simp
      next
        case z: (Inr z)
        then have "os_Chmod path mode_private w3 = (r, w')" using run wr Inr tw y rn by (simp add: replace_cursor_def)
        then show thesis using renamed [OF q2 c2 h rn] quiet_Chmod z by simp
      qed
    qed
  qed
qed

lemma replace_cursor_safe:
  assumes run: "replace_cursor rnd path text w = (r, w')"
    and ne: "path \<noteq> filepath_Join [filepath_Dir path, ''.cursor-'' @ rnd @ ''.tmp'']" (is "_ \<noteq> ?tmp")
  shows "crash_safe (replaced path (fs_content (files w) path) (text @ [CHR 0x0A])) w w'"
    and "r = Inr () \<Longrightarrow> fs_content (files w') path = Some (text @ [CHR 0x0A])"
    and "healthy w \<Longrightarrow> crash_safe (\<lambda>u. fs_content u path = fs_content (files w) path \<or> fs_content u path = Some (text @ [CHR 0x0A])) w w'"
proof (atomize (full), cases rule: replace_cursor_run [OF run ne])
  case 1
  then show "crash_safe (replaced path (fs_content (files w) path) (text @ [CHR 0x0A])) w w' \<and>
     (r = Inr () \<longrightarrow> fs_content (files w') path = Some (text @ [CHR 0x0A])) \<and>
     (healthy w \<longrightarrow> crash_safe (\<lambda>u. fs_content u path = fs_content (files w) path \<or> fs_content u path = Some (text @ [CHR 0x0A])) w w')"
    by (auto simp: replaced_def intro: crash_safe_quiet)
next
  case (2 w2 r3 w3)
  have eq: "fs_content (files w2) path = fs_content (files w) path" by (rule quiet_content [OF 2(1)])
  have ends: "crash_safe R w w'" if R: "crash_safe R w2 w3" and "\<And>u. fs_content u path = fs_content (files w) path \<Longrightarrow> R u"
    and "\<And>u. fs_content u path = fs_content (files w3) path \<Longrightarrow> R u" for R
    using crash_safe_trans [OF crash_safe_quiet [OF 2(1), of R] crash_safe_trans [OF R crash_safe_quiet [OF 2(5), of R]]] that by blast
  note s = rename_over_safe [OF 2(4) 2(2) ne [symmetric], unfolded eq]
  have a: "crash_safe (replaced path (fs_content (files w) path) (text @ [CHR 0x0A])) w w'"
    by (rule ends [OF conjunct1 [OF s]]) (use crash_safe_end [OF conjunct1 [OF s]] in \<open>auto simp: replaced_def\<close>)
  have b: "r = Inr () \<longrightarrow> fs_content (files w') path = Some (text @ [CHR 0x0A])"
    using s 2(6) quiet_content [OF 2(5)] by simp
  have c: "crash_safe (\<lambda>u. fs_content u path = fs_content (files w) path \<or> fs_content u path = Some (text @ [CHR 0x0A])) w w'"
    if "healthy w"
  proof -
    note h = rename_over_healthy [OF 2(4) 2(2) ne [symmetric] 2(3) [OF that], unfolded eq]
    show ?thesis by (rule ends [OF h]) (use crash_safe_end [OF h] in auto)
  qed
  from a b c show "crash_safe (replaced path (fs_content (files w) path) (text @ [CHR 0x0A])) w w' \<and>
     (r = Inr () \<longrightarrow> fs_content (files w') path = Some (text @ [CHR 0x0A])) \<and>
     (healthy w \<longrightarrow> crash_safe (\<lambda>u. fs_content u path = fs_content (files w) path \<or> fs_content u path = Some (text @ [CHR 0x0A])) w w')"
    by blast
qed

text \<open>The temporary file of a cursor is another file.\<close>

lemma cursor_temporary:
  assumes "HasPrefix dataDir ''/''" "MatchString cursorSourceIDPattern sourceID" "CHR ''/'' \<notin> set rnd"
  shows "cursor_path dataDir sourceID \<noteq> filepath_Join [filepath_Dir (cursor_path dataDir sourceID), ''.cursor-'' @ rnd @ ''.tmp'']"
proof -
  have d: "HasPrefix (cursor_dir dataDir) ''/''" using Join_rooted [OF assms(1)] by (simp add: cursor_dir_def)
  have pattern: "cursorSourceIDPattern = nativeSourceIDPattern" by (simp add: cursorSourceIDPattern_def nativeSourceIDPattern_def)
  have p: "plain_comp (sourceID @ ''.json'')" using pattern_plain assms(2) by (simp add: pattern)
  have i: "sourceID \<noteq> []" "alnum (hd sourceID)" using assms(2) by (simp_all add: cursorSourceIDPattern_def word_pattern_iff)
  have "\<not> alnum (CHR ''.'')" by code_simp
  then have n: "sourceID @ ''.json'' \<noteq> ''.cursor-'' @ rnd @ ''.tmp''" using i by (cases sourceID) auto
  have t: "plain_comp (''.cursor-'' @ rnd @ ''.tmp'')" using assms(3) by (simp add: plain_comp_def)
  show ?thesis
    using Join_file_eq_iff [OF d p HasPrefix_Clean [OF d] t] n by (simp add: cursor_path_def Dir_Join_file [OF d p])
qed

text \<open>C29. Acknowledging a batch never corrupts the position of a source: whatever call fails and whenever the machine stops
  during \<open>Commit\<close>, the cursor file holds its old content, or the new state in a form that \<open>openCursor\<close> accepts, or is gone (which
  \<open>openCursor\<close> takes for a source never read); without failing calls it is never gone; and after success the file and the
  memory hold the new state, under the identity of the cursor. The codec need only read back the text just written.\<close>

theorem cursor_commit_is_atomic:
  assumes "cursor_Commit X rnd next c w = (r, c', w')"
    and "cf_path c = cursor_path dataDir sourceID" and "HasPrefix dataDir ''/''" and "MatchString cursorSourceIDPattern sourceID"
    and "CHR ''/'' \<notin> set rnd"
    and "\<forall>text. cx_encode X (stamped c (clock w) next) = Some text \<longrightarrow>
           read_cursor X (cu_SourceID (cf_state c)) (cu_Kind (cf_state c)) (text @ [CHR 0x0A]) = Inr (stamped c (clock w) next)"
  shows "crash_safe (\<lambda>u. fs_content u (cf_path c) \<in> {fs_content (files w) (cf_path c), None} \<or>
        (\<exists>text. fs_content u (cf_path c) = Some text \<and> read_cursor X (cu_SourceID (cf_state c)) (cu_Kind (cf_state c)) text = Inr (stamped c (clock w) next))) w w'
    \<and> (healthy w \<longrightarrow> crash_safe (\<lambda>u. fs_content u (cf_path c) = fs_content (files w) (cf_path c) \<or> fs_content u (cf_path c) \<noteq> None) w w')
    \<and> (r = Inr () \<longrightarrow> cf_state c' = stamped c (clock w) next \<and> (\<exists>text. fs_content (files w') (cf_path c) = Some text \<and>
        read_cursor X (cu_SourceID (cf_state c)) (cu_Kind (cf_state c)) text = Inr (cf_state c')))"
    (is "crash_safe ?S w w' \<and> (healthy w \<longrightarrow> crash_safe ?H w w') \<and> ?ok")
proof -
  obtain w1 where now: "time_Now w = (clock w, w1)" by (cases "clock_steps w") (simp_all add: time_Now_def)
  have q: "quiet (cf_path c) w w1" by (rule quiet_time [OF now])
  have eq: "fs_content (files w1) (cf_path c) = fs_content (files w) (cf_path c)" by (rule quiet_content [OF q])
  have h: "healthy w \<Longrightarrow> healthy w1" using time_Now_eqs [OF now] by (simp add: healthy_def)
  have idle: ?thesis if "quiet (cf_path c) w w'" "r \<noteq> Inr ()"
    using that by (auto intro: crash_safe_quiet)
  show ?thesis
  proof (cases "admissible c next = None \<and> (\<exists>text. cx_encode X (stamped c (clock w) next) = Some text)")
    case False
    then have "quiet (cf_path c) w w' \<and> r \<noteq> Inr ()" using assms(1) now q
      by (auto simp: cursor_Commit_def split: option.splits)
    then show ?thesis using idle by blast
  next
    case True
    then obtain body where adm: "admissible c next = None" and enc: "cx_encode X (stamped c (clock w) next) = Some body" by blast
    obtain r2 w2 where rp: "replace_cursor rnd (cf_path c) body w1 = (r2, w2)" by (rule prod.exhaust)
    have w': "w' = w2" and ok: "r = Inr () \<Longrightarrow> r2 = Inr () \<and> cf_state c' = stamped c (clock w) next"
      using assms(1) adm now enc rp by (auto simp: cursor_Commit_def split: sum.splits)
    have rd: "read_cursor X (cu_SourceID (cf_state c)) (cu_Kind (cf_state c)) (body @ [CHR 0x0A]) = Inr (stamped c (clock w) next)"
      using assms(6) enc by blast
    note safe = replace_cursor_safe [OF rp, unfolded assms(2), OF cursor_temporary [OF assms(3-5)], folded assms(2), unfolded eq]
    have "crash_safe ?S w w1" by (rule crash_safe_quiet [OF q]) simp
    moreover have "crash_safe ?S w1 w2"
      by (rule crash_safe_mono [OF safe(1)]) (use rd in \<open>auto simp: replaced_def\<close>)
    ultimately have 1: "crash_safe ?S w w'" unfolding w' by (rule crash_safe_trans)
    have 2: "crash_safe ?H w w'" if "healthy w"
    proof -
      have "crash_safe ?H w w1" by (rule crash_safe_quiet [OF q]) simp
      moreover have "crash_safe ?H w1 w2" by (rule crash_safe_mono [OF safe(3) [OF h [OF that]]]) auto
      ultimately show ?thesis unfolding w' by (rule crash_safe_trans)
    qed
    have 3: ?ok using ok safe(2) rd by (auto simp: w')
    from 1 2 3 show ?thesis by blast
  qed
qed

definition toy_cursor_codec :: cursor_codec where
  "toy_cursor_codec = \<lparr>cx_encode = (\<lambda>s. Some (cu_JournalCursor s)),
     cx_decode = (\<lambda>t s. Some (s\<lparr>cu_JournalCursor := butlast t, cu_UpdatedAt := 5\<rparr>))\<rparr>"

definition toy_cursor :: cursorFile where
  "toy_cursor = \<lparr>cf_path = cursor_path ''/d'' ''sshd'', cf_state = new_cursor ''sshd'' ''journald''\<rparr>"

definition toy_cursor_world :: world where
  "toy_cursor_world = \<lparr>files = [], faults = [], events = [], clock = 5, clock_steps = []\<rparr>"

lemma cursor_commit_is_atomic_witness:
  "\<exists>c' w'. cursor_Commit toy_cursor_codec ''42'' ((new_cursor [] [])\<lparr>cu_JournalCursor := ''s=1''\<rparr>) toy_cursor toy_cursor_world = (Inr (), c', w')
     \<and> (\<exists>text. fs_content (files w') ''/d/cursors/sshd.json'' = Some text \<and>
          read_cursor toy_cursor_codec ''sshd'' ''journald'' text = Inr (cf_state c'))"
proof -
  let ?n = "(new_cursor [] [])\<lparr>cu_JournalCursor := ''s=1''\<rparr>"
  obtain r c' w' where run: "cursor_Commit toy_cursor_codec ''42'' ?n toy_cursor toy_cursor_world = (r, c', w')" by (metis prod_cases3)
  have "fst (cursor_Commit toy_cursor_codec ''42'' ?n toy_cursor toy_cursor_world) = Inr ()" by code_simp
  then have ok: "r = Inr ()" using run by simp
  have p: "cf_path toy_cursor = cursor_path ''/d'' ''sshd''" "cursor_path ''/d'' ''sshd'' = ''/d/cursors/sshd.json''" by code_simp+
  have pat: "MatchString cursorSourceIDPattern ''sshd''" by code_simp
  have enc: "cx_encode toy_cursor_codec (stamped toy_cursor (clock toy_cursor_world) ?n) = Some ''s=1''" by code_simp
  have dec: "read_cursor toy_cursor_codec (cu_SourceID (cf_state toy_cursor)) (cu_Kind (cf_state toy_cursor)) (''s=1'' @ [CHR 0x0A])
      = Inr (stamped toy_cursor (clock toy_cursor_world) ?n)"
    by (simp add: read_cursor_def LimitRead_def toy_cursor_codec_def toy_cursor_def new_cursor_def stamped_def toy_cursor_world_def)
  have ids: "cu_SourceID (cf_state toy_cursor) = ''sshd''" "cu_Kind (cf_state toy_cursor) = ''journald''" by code_simp+
  show ?thesis
    using cursor_commit_is_atomic [OF run p(1) _ pat] enc dec ok run by (auto simp: p ids)
qed

end
