(* ===== verification/Runtime.thy ===== *)
theory Runtime
  imports Journal Redact Detection Tailer Cursor Baseline Sender
begin

text \<open>
  Package \<open>internal/agent\<close>: the runtime that ties the parts together. Every event goes through \<open>process\<close>: it gets the
  identity of this agent, loses its secrets, is written to the journal with the findings it raises, and only then is queued for
  the control plane. Native sources, the queue of the central client, logging and the local API are parameters; the operations
  run one after the other here.
\<close>

section \<open>State\<close>

text \<open>What the journal is given; \<open>rc_payload\<close> is \<open>json.Marshal\<close> on it.\<close>

datatype payload =
    PEvent Event
  | PFinding Finding
  | PCollectorError string string
  | PStart string
  | PRenewed "gtime option"
  | PCount nat
  | PText string
  | PBackpressure nat nat
  | PCleared nat

datatype runtime_error =
    RErrConfig config_error | RErrJournal journal_error | RErrSource string parse_error | RErrNative string | RErrInterval
  | RErrInventory inventory_error | RErrBaseline baseline_error | RErrOutbox outbox_error | RErrSender send_error | RErrCentral
  | RErrTail tail_error | RErrAcknowledge cursor_error | RErrPlatform | RErrPoll string

record runtime_codec =
  rc_crypto :: crypto
  rc_payload :: "payload \<Rightarrow> string option"
  rc_record :: "Record \<Rightarrow> string option"
  rc_unrecord :: "string \<Rightarrow> Record option"
  rc_error :: "runtime_error \<Rightarrow> string"
  rc_detect :: detection_codec
  rc_events :: event_codec
  rc_baseline :: baseline_codec
  rc_parse :: parse_codec

text \<open>A native source that was opened: its kind, its identifier, and the cursor it acknowledges to. \<open>rt_central\<close> lists what was
  handed to the central client, if there is one.\<close>

record native_source =
  nv_kind :: string
  nv_id :: string
  nv_cursor :: cursorFile

record Runtime =
  rt_cfg :: Config
  rt_hostname :: string
  rt_journal :: Journal
  rt_detector :: Engine
  rt_tailers :: "Tailer list"
  rt_nativeSources :: "native_source list"
  rt_inventoryCollector :: "Inventory.Options option"
  rt_baselineStore :: "Store option"
  rt_inventoryInterval :: duration
  rt_transportOutbox :: "Outbox option"
  rt_transportSender :: "Sender option"
  rt_transportFlushInterval :: duration
  rt_startedAt :: gtime
  rt_eventCount :: "64 word"
  rt_findingCount :: "64 word"
  rt_errorCount :: "64 word"
  rt_inventoryCount :: "64 word"
  rt_nativeEventCount :: "64 word"
  rt_transportSentCount :: "64 word"
  rt_transportDeadLetterCount :: "64 word"
  rt_transportErrorCount :: "64 word"
  rt_certificateRenewalCount :: "64 word"
  rt_lastInventoryNano :: int
  rt_lastTransportSuccessNano :: int
  rt_lastCertificateRenewNano :: int
  rt_central :: "(Event \<times> Finding list) list option"

text \<open>What one call of \<open>process\<close> draws: identifier and times of \<open>Prepare\<close>, the time the failure tracker reads, and identifier and
  time of each finding.\<close>

record proc_draw =
  pd_id :: string
  pd_now1 :: gtime
  pd_now2 :: gtime
  pd_wall :: gtime
  pd_finding :: "nat \<Rightarrow> string \<times> gtime"

section \<open>Appending to the journal\<close>

definition journal_append :: "runtime_codec \<Rightarrow> string \<Rightarrow> payload \<Rightarrow> Runtime \<Rightarrow> world \<Rightarrow> journal_error option \<times> Runtime \<times> world" where
  "journal_append X kind p r w =
     (case Append (rc_crypto X) (rc_payload X) (rc_record X) (rt_journal r) kind p w of
        (Inl e, j, w1) \<Rightarrow> (Some e, r\<lparr>rt_journal := j\<rparr>, w1)
      | (Inr _, j, w1) \<Rightarrow> (None, r\<lparr>rt_journal := j\<rparr>, w1))"

definition recordCollectorError :: "runtime_codec \<Rightarrow> string \<Rightarrow> runtime_error \<Rightarrow> Runtime \<Rightarrow> world \<Rightarrow> Runtime \<times> world" where
  "recordCollectorError X collector e r w =
     snd (journal_append X ''collector.error'' (PCollectorError collector (rc_error X e)) (r\<lparr>rt_errorCount := rt_errorCount r + 1\<rparr>) w)"

fun record_errors :: "runtime_codec \<Rightarrow> string \<Rightarrow> runtime_error list \<Rightarrow> Runtime \<Rightarrow> world \<Rightarrow> Runtime \<times> world" where
  "record_errors X collector [] r w = (r, w)"
| "record_errors X collector (e # es) r w =
     (case recordCollectorError X collector e r w of (r1, w1) \<Rightarrow> record_errors X collector es r1 w1)"

section \<open>Processing an event\<close>

text \<open>The event \<open>process\<close> works on: prepared, under this agent's identity, without secrets.\<close>

definition local_event :: "proc_draw \<Rightarrow> Runtime \<Rightarrow> Event \<Rightarrow> Event" where
  "local_event d r e0 =
     (let e = Event_Prepare (pd_id d) (pd_now1 d) (pd_now2 d) e0
      in redact_Event (e\<lparr>ev_AgentID := cf_AgentID (rt_cfg r), ev_TenantID := cf_TenantID (rt_cfg r),
           ev_Asset := (if asset_Hostname (ev_Asset e) = [] then (ev_Asset e)\<lparr>asset_Hostname := rt_hostname r\<rparr> else ev_Asset e)\<rparr>))"

fun append_findings :: "runtime_codec \<Rightarrow> Finding list \<Rightarrow> Runtime \<Rightarrow> world \<Rightarrow> journal_error option \<times> Runtime \<times> world" where
  "append_findings X [] r w = (None, r, w)"
| "append_findings X (f # fs) r w =
     (case journal_append X ''finding'' (PFinding f) r w of
        (Some e, r1, w1) \<Rightarrow> (Some e, r1, w1)
      | (None, r1, w1) \<Rightarrow> append_findings X fs (r1\<lparr>rt_findingCount := rt_findingCount r1 + 1\<rparr>) w1)"

definition queue_event :: "runtime_codec \<Rightarrow> Event \<Rightarrow> Runtime \<Rightarrow> world \<Rightarrow> outbox_error option \<times> world" where
  "queue_event X event r w =
     (case rt_transportOutbox r of
        None \<Rightarrow> (None, w)
      | Some ob \<Rightarrow>
          (case Enqueue (rc_crypto X) (rc_events X) ob event w of (Inl e, w1) \<Rightarrow> (Some e, w1) | (Inr _, w1) \<Rightarrow> (None, w1)))"

definition process :: "runtime_codec \<Rightarrow> proc_draw \<Rightarrow> Event \<Rightarrow> Runtime \<Rightarrow> world
    \<Rightarrow> (runtime_error option \<times> Finding list) \<times> Runtime \<times> world" where
  "process X d e0 r w =
     (let event = local_event d r e0
      in case journal_append X ''event'' (PEvent event) r w of
           (Some e, r1, w1) \<Rightarrow> ((Some (RErrJournal e), []), r1, w1)
         | (None, r1, w1) \<Rightarrow>
             (let (findings, engine) = Inspect (rc_detect X) (pd_finding d) (pd_wall d) event (rt_detector r1);
                  r2 = r1\<lparr>rt_eventCount := rt_eventCount r1 + 1, rt_detector := engine\<rparr>
              in case append_findings X findings r2 w1 of
                   (Some e, r3, w3) \<Rightarrow> ((Some (RErrJournal e), findings), r3, w3)
                 | (None, r3, w3) \<Rightarrow>
                     (case queue_event X event r3 w3 of
                        (Some e, w4) \<Rightarrow> ((Some (RErrOutbox e), findings), r3, w4)
                      | (None, w4) \<Rightarrow>
                          ((None, findings),
                           r3\<lparr>rt_central := map_option (\<lambda>q. q @ [(event, findings)]) (rt_central r3)\<rparr>, w4))))"

definition Ingest :: "runtime_codec \<Rightarrow> proc_draw \<Rightarrow> Event \<Rightarrow> Runtime \<Rightarrow> world
    \<Rightarrow> (runtime_error option \<times> Finding list) \<times> Runtime \<times> world" where
  "Ingest X d e r w = process X d e r w"

section \<open>Polling files\<close>

text \<open>An event that cannot be processed is counted as an error and lost: the tailer has moved on.\<close>

fun process_all :: "runtime_codec \<Rightarrow> (nat \<Rightarrow> proc_draw) \<Rightarrow> Event list \<Rightarrow> Runtime \<Rightarrow> world \<Rightarrow> Runtime \<times> world" where
  "process_all X d [] r w = (r, w)"
| "process_all X d (e # es) r w =
     (case process X (d 0) e r w of
        ((None, _), r1, w1) \<Rightarrow> process_all X (d \<circ> Suc) es r1 w1
      | ((Some _, _), r1, w1) \<Rightarrow> process_all X (d \<circ> Suc) es (r1\<lparr>rt_errorCount := rt_errorCount r1 + 1\<rparr>) w1)"

text \<open>One tailer; \<open>live\<close> says how many tailers are polled before the context is cancelled.\<close>

definition poll_tailer :: "runtime_codec \<Rightarrow> poll_env \<Rightarrow> (nat \<Rightarrow> proc_draw) \<Rightarrow> Tailer \<Rightarrow> Runtime \<Rightarrow> world \<Rightarrow> Tailer \<times> Runtime \<times> world" where
  "poll_tailer X E d t r w =
     (let ((events, errs), t1, w1) = Tailer_Poll (rc_parse X) E t w;
          (r1, w2) = record_errors X ''file-tail'' (map RErrTail errs) r w1
      in (t1, process_all X d events r1 w2))"

fun poll_tailers :: "runtime_codec \<Rightarrow> (nat \<Rightarrow> poll_env) \<Rightarrow> (nat \<Rightarrow> nat \<Rightarrow> proc_draw) \<Rightarrow> nat \<Rightarrow> Tailer list \<Rightarrow> Runtime \<Rightarrow> world
    \<Rightarrow> Tailer list \<times> Runtime \<times> world" where
  "poll_tailers X E d live [] r w = ([], r, w)"
| "poll_tailers X E d live (t # ts) r w =
     (case live of
        0 \<Rightarrow> (t # ts, r, w)
      | Suc n \<Rightarrow>
          (let (t1, r1, w1) = poll_tailer X (E 0) (d 0) t r w;
               (ts1, r2, w2) = poll_tailers X (E \<circ> Suc) (d \<circ> Suc) n ts r1 w1
           in (t1 # ts1, r2, w2)))"

definition pollFiles :: "runtime_codec \<Rightarrow> (nat \<Rightarrow> poll_env) \<Rightarrow> (nat \<Rightarrow> nat \<Rightarrow> proc_draw) \<Rightarrow> nat \<Rightarrow> Runtime \<Rightarrow> world \<Rightarrow> Runtime \<times> world" where
  "pollFiles X E d live r w =
     (let (ts, r1, w1) = poll_tailers X E d live (rt_tailers r) r w in (r1\<lparr>rt_tailers := ts\<rparr>, w1))"

section \<open>Polling native sources\<close>

text \<open>What a poll of a native source returned: its events, its errors, and the acknowledgement (nothing to do, or a commit
  of the cursor; \<open>bt_rnd\<close> names its temporary file).\<close>

record batch =
  bt_events :: "Event list"
  bt_errors :: "string list"
  bt_commit :: "cursorState option"
  bt_rnd :: string

text \<open>The events up to the first that cannot be processed; the result says whether all were.\<close>

fun process_batch :: "runtime_codec \<Rightarrow> string \<Rightarrow> (nat \<Rightarrow> proc_draw) \<Rightarrow> Event list \<Rightarrow> Runtime \<Rightarrow> world \<Rightarrow> bool \<times> Runtime \<times> world" where
  "process_batch X name d [] r w = (True, r, w)"
| "process_batch X name d (e # es) r w =
     (case process X (d 0) e r w of
        ((Some err, _), r1, w1) \<Rightarrow> (False, recordCollectorError X name err r1 w1)
      | ((None, _), r1, w1) \<Rightarrow> process_batch X name (d \<circ> Suc) es (r1\<lparr>rt_nativeEventCount := rt_nativeEventCount r1 + 1\<rparr>) w1)"

definition native_name :: "native_source \<Rightarrow> string" where "native_name s = nv_kind s @ ''/'' @ nv_id s"

definition acknowledge :: "runtime_codec \<Rightarrow> cursor_codec \<Rightarrow> batch \<Rightarrow> native_source \<Rightarrow> Runtime \<Rightarrow> world \<Rightarrow> native_source \<times> Runtime \<times> world" where
  "acknowledge X K b s r w =
     (case bt_commit b of
        None \<Rightarrow> (s, r, w)
      | Some next \<Rightarrow>
          (case cursor_Commit K (bt_rnd b) next (nv_cursor s) w of
             (Inl e, c, w1) \<Rightarrow> (s\<lparr>nv_cursor := c\<rparr>, recordCollectorError X (native_name s @ ''/cursor'') (RErrAcknowledge e) r w1)
           | (Inr _, c, w1) \<Rightarrow> (s\<lparr>nv_cursor := c\<rparr>, r, w1)))"

definition poll_source :: "runtime_codec \<Rightarrow> cursor_codec \<Rightarrow> batch \<Rightarrow> (nat \<Rightarrow> proc_draw) \<Rightarrow> native_source \<Rightarrow> Runtime \<Rightarrow> world
    \<Rightarrow> native_source \<times> Runtime \<times> world" where
  "poll_source X K b d s r w =
     (let (r1, w1) = record_errors X (native_name s) (map RErrPoll (bt_errors b)) r w;
          (processed, r2, w2) = process_batch X (native_name s) d (bt_events b) r1 w1
      in if processed then acknowledge X K b s r2 w2 else (s, r2, w2))"

fun poll_sources :: "runtime_codec \<Rightarrow> cursor_codec \<Rightarrow> (nat \<Rightarrow> batch) \<Rightarrow> (nat \<Rightarrow> nat \<Rightarrow> proc_draw) \<Rightarrow> nat \<Rightarrow> native_source list
    \<Rightarrow> Runtime \<Rightarrow> world \<Rightarrow> native_source list \<times> Runtime \<times> world" where
  "poll_sources X K b d live [] r w = ([], r, w)"
| "poll_sources X K b d live (s # ss) r w =
     (case live of
        0 \<Rightarrow> (s # ss, r, w)
      | Suc n \<Rightarrow>
          (let (s1, r1, w1) = poll_source X K (b 0) (d 0) s r w;
               (ss1, r2, w2) = poll_sources X K (b \<circ> Suc) (d \<circ> Suc) n ss r1 w1
           in (s1 # ss1, r2, w2)))"

definition pollNative :: "runtime_codec \<Rightarrow> cursor_codec \<Rightarrow> (nat \<Rightarrow> batch) \<Rightarrow> (nat \<Rightarrow> nat \<Rightarrow> proc_draw) \<Rightarrow> nat \<Rightarrow> Runtime \<Rightarrow> world
    \<Rightarrow> Runtime \<times> world" where
  "pollNative X K b d live r w =
     (let (ss, r1, w1) = poll_sources X K b d live (rt_nativeSources r) r w in (r1\<lparr>rt_nativeSources := ss\<rparr>, w1))"

section \<open>Collecting the inventory\<close>

text \<open>\<open>time.Unix(0, n)\<close>.\<close>

definition of_UnixNano :: "int \<Rightarrow> gtime" where "of_UnixNano n = n + 62135596800 * Second"

text \<open>What one collection meets: a cancelled context, what the system reports, how a snapshot becomes an attribute, and the
  draws.\<close>

record inventory_round =
  ir_cancelled :: bool
  ir_facts :: facts
  ir_attribute :: "Snapshot \<Rightarrow> gval"
  ir_prepare :: "string \<times> gtime \<times> gtime"
  ir_draw :: proc_draw

definition store_baseline :: "runtime_codec \<Rightarrow> Event \<Rightarrow> Runtime \<Rightarrow> world \<Rightarrow> (runtime_error, unit) result \<times> world" where
  "store_baseline X event r w =
     (case rt_baselineStore r of
        None \<Rightarrow> (Inr (), w)
      | Some s \<Rightarrow>
          (case SnapshotFromEvent (rc_baseline X) event of
             Inl e \<Rightarrow> (Inl (RErrBaseline e), w)
           | Inr snapshot \<Rightarrow> io_wrap RErrBaseline (Baseline_Save (rc_crypto X) (rc_baseline X) s snapshot) w))"

definition collect_now :: "runtime_codec \<Rightarrow> inventory_round \<Rightarrow> Inventory.Options \<Rightarrow> Runtime \<Rightarrow> world \<Rightarrow> Runtime \<times> world" where
  "collect_now X I opts r w =
     (let (newid, now1, now2) = ir_prepare I;
          (event0, failed) = inventory_Event (rc_crypto X) (ir_attribute I) opts (ir_facts I) newid now1 now2;
          event = redact_Event event0
      in if failed then recordCollectorError X ''native-inventory'' RErrPlatform r w
         else case process X (ir_draw I) event r w of
                ((Some e, _), r1, w1) \<Rightarrow> recordCollectorError X ''native-inventory'' e r1 w1
              | ((None, _), r1, w1) \<Rightarrow>
                  (case store_baseline X event r1 w1 of
                     (Inl e, w2) \<Rightarrow> recordCollectorError X ''inventory-baseline'' e r1 w2
                   | (Inr _, w2) \<Rightarrow>
                       (case time_Now w2 of (collectedAt, w3) \<Rightarrow>
                          (r1\<lparr>rt_lastInventoryNano := UnixNano collectedAt, rt_inventoryCount := rt_inventoryCount r1 + 1\<rparr>, w3))))"

definition collectInventory :: "runtime_codec \<Rightarrow> inventory_round \<Rightarrow> bool \<Rightarrow> Runtime \<Rightarrow> world \<Rightarrow> Runtime \<times> world" where
  "collectInventory X I force r w =
     (case rt_inventoryCollector r of
        None \<Rightarrow> (r, w)
      | Some opts \<Rightarrow>
          (if ir_cancelled I then (r, w)
           else if force \<or> rt_lastInventoryNano r = 0 then collect_now X I opts r w
           else (case time_Now w of (now, w1) \<Rightarrow>
                  if time_sub now (of_UnixNano (rt_lastInventoryNano r)) < rt_inventoryInterval r then (r, w1)
                  else collect_now X I opts r w1)))"

section \<open>The transport loop\<close>

text \<open>What the loop remembers between two rounds.\<close>

record transport_state =
  lp_delay :: duration
  lp_lastError :: string
  lp_backpressureLogged :: bool

definition transport_start :: transport_state where
  "transport_start = \<lparr>lp_delay = 0, lp_lastError = [], lp_backpressureLogged = False\<rparr>"

definition next_delay :: "duration \<Rightarrow> duration \<Rightarrow> bool \<Rightarrow> duration" where
  "next_delay interval delay failed =
     (if failed then min (wrap64 ((if delay \<le> 0 then interval else delay) * 2)) Minute else interval)"

text \<open>A journal entry whose failure is ignored.\<close>

definition jot :: "runtime_codec \<Rightarrow> string \<Rightarrow> payload \<Rightarrow> Runtime \<times> world \<Rightarrow> Runtime \<times> world" where
  "jot X kind p = (\<lambda>(r, w). snd (journal_append X kind p r w))"

definition note_success :: "(int \<Rightarrow> Runtime \<Rightarrow> Runtime) \<Rightarrow> Runtime \<times> world \<Rightarrow> Runtime \<times> world" where
  "note_success set_time = (\<lambda>(r, w). case time_Now w of (now, w1) \<Rightarrow> (set_time (UnixNano now) r, w1))"

definition count_flush :: "runtime_codec \<Rightarrow> FlushResult \<Rightarrow> Runtime \<times> world \<Rightarrow> Runtime \<times> world" where
  "count_flush X res rw0 =
     (let (r0, w0) = rw0;
          rw1 = (r0\<lparr>rt_transportSentCount := rt_transportSentCount r0 + of_nat (fr_Sent res),
                    rt_transportDeadLetterCount := rt_transportDeadLetterCount r0 + of_nat (fr_DeadLetter res)\<rparr>, w0);
          rw2 = (if fr_CertificateRenewed res
                 then jot X ''identity.certificate_renewed'' (PRenewed (fr_CertificateExpiresAt res))
                   (note_success (\<lambda>n r. r\<lparr>rt_certificateRenewalCount := rt_certificateRenewalCount r + 1, rt_lastCertificateRenewNano := n\<rparr>) rw1)
                 else rw1);
          rw3 = (if fr_Sent res > 0 then note_success (\<lambda>n r. r\<lparr>rt_lastTransportSuccessNano := n\<rparr>) rw2 else rw2)
      in if fr_DeadLetter res > 0 then jot X ''transport.dead_letter'' (PCount (fr_DeadLetter res)) rw3 else rw3)"

definition note_outcome :: "runtime_codec \<Rightarrow> FlushResult \<Rightarrow> send_error option \<Rightarrow> transport_state \<Rightarrow> Runtime \<times> world
    \<Rightarrow> transport_state \<times> Runtime \<times> world" where
  "note_outcome X res e L rw =
     (let interval = rt_transportFlushInterval (fst rw)
      in case e of
           Some err \<Rightarrow>
             (if err = SErrCancelled
              then (L\<lparr>lp_delay := interval, lp_lastError := []\<rparr>,
                    if lp_lastError L \<noteq> [] then jot X ''transport.recovered'' (PCount (fr_Sent res)) rw else rw)
              else let message = rc_error X (RErrSender err);
                       rw1 = ((fst rw)\<lparr>rt_transportErrorCount := rt_transportErrorCount (fst rw) + 1,
                                        rt_errorCount := rt_errorCount (fst rw) + 1\<rparr>, snd rw)
                   in (L\<lparr>lp_delay := next_delay interval (lp_delay L) True, lp_lastError := message\<rparr>,
                       if message \<noteq> lp_lastError L then jot X ''transport.error'' (PText message) rw1 else rw1))
         | None \<Rightarrow>
             (L\<lparr>lp_delay := next_delay interval (lp_delay L) False, lp_lastError := []\<rparr>,
              if lp_lastError L \<noteq> [] then jot X ''transport.recovered'' (PCount (fr_Sent res)) rw else rw))"

definition note_backpressure :: "runtime_codec \<Rightarrow> Outbox \<Rightarrow> transport_state \<times> Runtime \<times> world \<Rightarrow> transport_state \<times> Runtime \<times> world" where
  "note_backpressure X ob LR =
     (let (L, r, w) = LR
      in case Stats ob w of
           (Inl _, w1) \<Rightarrow> (L, r, w1)
         | (Inr stats, w1) \<Rightarrow>
             (let backpressure = (int (os_Pending stats) \<ge> tr_PendingWarn (cf_Transport (rt_cfg r)));
                  rw1 = (if backpressure \<and> \<not> lp_backpressureLogged L
                         then jot X ''transport.backpressure'' (PBackpressure (os_Pending stats) (os_PendingBytes stats)) (r, w1) else (r, w1));
                  rw2 = (if \<not> backpressure \<and> lp_backpressureLogged L
                         then jot X ''transport.backpressure_cleared'' (PCleared (os_Pending stats)) rw1 else rw1)
              in (L\<lparr>lp_backpressureLogged := backpressure\<rparr>, rw2)))"

text \<open>One round of \<open>runTransport\<close>, after the timer: flush, count, report, choose the next delay.\<close>

definition transport_round :: "runtime_codec \<Rightarrow> pki \<Rightarrow> send_codec \<Rightarrow> http_reply \<Rightarrow> Sender \<Rightarrow> Outbox \<Rightarrow> flush_env \<Rightarrow> transport_state
    \<Rightarrow> Runtime \<Rightarrow> world \<Rightarrow> flush_env \<times> transport_state \<times> Runtime \<times> world" where
  "transport_round X K S reply s ob env L r w =
     (let ((res, e), s1, env1, w1) = Flush (rc_crypto X) K S reply (tr_BatchSize (cf_Transport (rt_cfg r))) s env w;
          rw = count_flush X res (r\<lparr>rt_transportSender := Some s1\<rparr>, w1)
      in (env1, note_backpressure X ob (note_outcome X res e L rw)))"

section \<open>Starting\<close>

text \<open>What the start of the agent meets besides the disk: the host name, the sources the platform offers (\<open>Inr None\<close> for an
  unsupported one), the key infrastructure, a key generator, and whether the central client can be set up.\<close>

record start_env =
  se_hostname :: "string option"
  se_native :: "NativeSource \<Rightarrow> string \<Rightarrow> (string, native_source option) call"
  se_pki :: pki
  se_key :: "string option"
  se_central :: "Central \<Rightarrow> bool"

text \<open>On an error the journal is closed.\<close>

definition or_close :: "Journal \<Rightarrow> (runtime_error, 'a) call \<Rightarrow> (runtime_error, 'a) call" where
  "or_close j m w = (case m w of (Inl e, w1) \<Rightarrow> (Inl e, snd (snd (Close j w1))) | (Inr x, w1) \<Rightarrow> (Inr x, w1))"

fun open_tailers :: "Source list \<Rightarrow> (runtime_error, Tailer list) result" where
  "open_tailers [] = Inr []"
| "open_tailers (s # ss) =
     (if \<not> src_Enabled s then open_tailers ss
      else case Tailer_New s of
             Inl e \<Rightarrow> Inl (RErrSource (src_ID s) e)
           | Inr t \<Rightarrow> (case open_tailers ss of Inl e \<Rightarrow> Inl e | Inr ts \<Rightarrow> Inr (t # ts)))"

fun open_native :: "start_env \<Rightarrow> string \<Rightarrow> NativeSource list \<Rightarrow> (runtime_error, native_source list) call" where
  "open_native E dataDir [] = io_return []"
| "open_native E dataDir (s # ss) =
     (if \<not> ns_Enabled s then open_native E dataDir ss
      else io_bind (io_wrap (\<lambda>_. RErrNative (ns_ID s)) (se_native E s dataDir)) (\<lambda>x.
           io_bind (open_native E dataDir ss) (\<lambda>xs.
           io_return (case x of None \<Rightarrow> xs | Some n \<Rightarrow> n # xs))))"

definition inventory_options :: "InventoryConfig \<Rightarrow> duration \<Rightarrow> Inventory.Options" where
  "inventory_options i timeout = \<lparr>iopt_IncludeProcesses = ic_IncludeProcesses i, iopt_IncludeServices = ic_IncludeServices i,
     iopt_IncludeListeners = ic_IncludeListeners i, iopt_IncludeSoftware = ic_IncludeSoftware i, iopt_MaxItems = ic_MaxItems i,
     iopt_CommandTimeout = timeout\<rparr>"

definition open_inventory :: "runtime_codec \<Rightarrow> start_env \<Rightarrow> Config \<Rightarrow> Runtime \<Rightarrow> (runtime_error, Runtime) call" where
  "open_inventory X E c r =
     (let i = cf_Inventory c
      in if \<not> ic_Enabled i then io_return r
         else io_bind (io_some RErrInterval (ParseDuration (ic_Interval i))) (\<lambda>interval.
              io_bind (io_some RErrInterval (ParseDuration (ic_CommandTimeout i))) (\<lambda>timeout.
              io_bind (io_wrap RErrInventory (io_lift (Inventory_New (inventory_options i timeout)))) (\<lambda>collector.
              io_bind (io_wrap RErrBaseline (Baseline_New (rc_crypto X) (key_parse (se_pki E)) (key_encode (se_pki E)) (se_key E) (cf_DataDir c))) (\<lambda>store.
              io_bind (io_wrap RErrBaseline (Baseline_Load (rc_crypto X) (rc_baseline X) store)) (\<lambda>stored.
              io_return (r\<lparr>rt_detector := (case stored of None \<Rightarrow> rt_detector r | Some b \<Rightarrow> SeedInventoryBaseline b (rt_detector r)),
                rt_inventoryCollector := Some collector, rt_baselineStore := Some store, rt_inventoryInterval := interval\<rparr>)))))))"

definition sender_options :: "Config \<Rightarrow> duration \<Rightarrow> duration \<Rightarrow> duration \<Rightarrow> SenderOptions" where
  "sender_options c timeout renewBefore renewCheckInterval =
     (let t = cf_Transport c
      in \<lparr>so_Endpoint = tr_Endpoint t, so_AgentID = cf_AgentID c, so_TenantID = cf_TenantID c, so_CertFile = tr_CertFile t,
          so_KeyFile = tr_KeyFile t, so_CAFile = tr_CAFile t, so_ServerName = tr_ServerName t, so_Timeout = timeout,
          so_AutoRenew = tr_AutoRenew t, so_RenewalEndpoint = tr_RenewalEndpoint t, so_RenewBefore = renewBefore,
          so_RenewCheckInterval = renewCheckInterval\<rparr>)"

definition renewal_duration :: "TransportConfig \<Rightarrow> string \<Rightarrow> (runtime_error, duration) call" where
  "renewal_duration t s = (if tr_AutoRenew t then io_some RErrInterval (ParseDuration s) else io_return 0)"

definition open_transport :: "start_env \<Rightarrow> Config \<Rightarrow> Runtime \<Rightarrow> (runtime_error, Runtime) call" where
  "open_transport E c r =
     (let t = cf_Transport c
      in if \<not> tr_Enabled t then io_return r
         else io_bind (io_wrap RErrOutbox (OpenOutbox (cf_DataDir c))) (\<lambda>outbox.
              io_bind (io_some RErrInterval (ParseDuration (tr_Timeout t))) (\<lambda>timeout.
              io_bind (io_some RErrInterval (ParseDuration (tr_FlushInterval t))) (\<lambda>flushInterval.
              io_bind (renewal_duration t (tr_RenewBefore t)) (\<lambda>renewBefore.
              io_bind (renewal_duration t (tr_RenewCheckInterval t)) (\<lambda>renewCheckInterval.
              io_bind (io_wrap RErrSender (NewSender (se_pki E) outbox (sender_options c timeout renewBefore renewCheckInterval))) (\<lambda>sender.
              io_return (r\<lparr>rt_transportOutbox := Some outbox, rt_transportSender := Some sender,
                rt_transportFlushInterval := flushInterval\<rparr>))))))))"

definition open_central :: "start_env \<Rightarrow> Config \<Rightarrow> Runtime \<Rightarrow> (runtime_error, Runtime) call" where
  "open_central E c r =
     (if \<not> cen_Enabled (cf_Central c) then io_return r
      else io_bind (io_check (\<not> se_central E (cf_Central c)) RErrCentral) (\<lambda>_. io_return (r\<lparr>rt_central := Some []\<rparr>)))"

definition new_runtime :: "Config \<Rightarrow> string \<Rightarrow> Journal \<Rightarrow> gtime \<Rightarrow> Runtime" where
  "new_runtime c hostname j now = \<lparr>rt_cfg = c, rt_hostname = hostname, rt_journal = j, rt_detector = Detection_New, rt_tailers = [],
     rt_nativeSources = [], rt_inventoryCollector = None, rt_baselineStore = None, rt_inventoryInterval = 0,
     rt_transportOutbox = None, rt_transportSender = None, rt_transportFlushInterval = 0, rt_startedAt = now,
     rt_eventCount = 0, rt_findingCount = 0, rt_errorCount = 0, rt_inventoryCount = 0, rt_nativeEventCount = 0,
     rt_transportSentCount = 0, rt_transportDeadLetterCount = 0, rt_transportErrorCount = 0, rt_certificateRenewalCount = 0,
     rt_lastInventoryNano = 0, rt_lastTransportSuccessNano = 0, rt_lastCertificateRenewNano = 0, rt_central = None\<rparr>"

definition journal_file :: "Config \<Rightarrow> string" where
  "journal_file c = filepath_Join [cf_DataDir c, ''evidence.journal.jsonl'']"

definition Runtime_New :: "runtime_codec \<Rightarrow> start_env \<Rightarrow> Config \<Rightarrow> (runtime_error, Runtime) call" where
  "Runtime_New X E c =
     io_bind (io_wrap RErrConfig (EnsureDataDir c)) (\<lambda>_.
     io_bind (io_wrap RErrJournal (Journal.Open (rc_crypto X) (rc_unrecord X) (journal_file c))) (\<lambda>j.
     io_bind io_now (\<lambda>now.
     or_close j
       (io_bind (io_lift (open_tailers (cf_Sources c))) (\<lambda>tailers.
        io_bind (open_native E (cf_DataDir c) (cf_NativeSources c)) (\<lambda>natives.
        io_bind (open_inventory X E c ((new_runtime c (case se_hostname E of None \<Rightarrow> [] | Some h \<Rightarrow> h) j now)
                   \<lparr>rt_tailers := tailers, rt_nativeSources := natives\<rparr>)) (\<lambda>r1.
        io_bind (open_transport E c r1) (\<lambda>r2. open_central E c r2))))))))"

definition Runtime_Close :: "Runtime \<Rightarrow> world \<Rightarrow> (oserr, unit) result \<times> Runtime \<times> world" where
  "Runtime_Close r w = (case Close (rt_journal r) w of (x, j, w1) \<Rightarrow> (x, r\<lparr>rt_journal := j\<rparr>, w1))"

section \<open>Running\<close>

text \<open>\<open>Run\<close> before its loop: the first record, the first inventory, the first poll; and one tick of its loop.\<close>

record tick_env =
  te_files :: "nat \<Rightarrow> poll_env"
  te_fileDraws :: "nat \<Rightarrow> nat \<Rightarrow> proc_draw"
  te_live :: nat
  te_batches :: "nat \<Rightarrow> batch"
  te_nativeDraws :: "nat \<Rightarrow> nat \<Rightarrow> proc_draw"
  te_liveNative :: nat
  te_inventory :: inventory_round

definition Runtime_poll :: "runtime_codec \<Rightarrow> cursor_codec \<Rightarrow> tick_env \<Rightarrow> Runtime \<times> world \<Rightarrow> Runtime \<times> world" where
  "Runtime_poll X K T = (\<lambda>(r, w).
     case pollFiles X (te_files T) (te_fileDraws T) (te_live T) r w of
       (r1, w1) \<Rightarrow> pollNative X K (te_batches T) (te_nativeDraws T) (te_liveNative T) r1 w1)"

definition run_start :: "runtime_codec \<Rightarrow> cursor_codec \<Rightarrow> string \<Rightarrow> tick_env \<Rightarrow> Runtime \<Rightarrow> world \<Rightarrow> journal_error option \<times> Runtime \<times> world" where
  "run_start X K startup T r w =
     (case journal_append X ''agent.start'' (PStart startup) r w of
        (Some e, r1, w1) \<Rightarrow> (Some e, r1, w1)
      | (None, r1, w1) \<Rightarrow>
          (case collectInventory X (te_inventory T) True r1 w1 of (r2, w2) \<Rightarrow> (None, Runtime_poll X K T (r2, w2))))"

definition run_tick :: "runtime_codec \<Rightarrow> cursor_codec \<Rightarrow> tick_env \<Rightarrow> Runtime \<Rightarrow> world \<Rightarrow> Runtime \<times> world" where
  "run_tick X K T r w =
     (case Runtime_poll X K T (r, w) of (r1, w1) \<Rightarrow> collectInventory X (te_inventory T) False r1 w1)"

definition run_stop :: "runtime_codec \<Rightarrow> string \<Rightarrow> Runtime \<times> world \<Rightarrow> Runtime \<times> world" where
  "run_stop X reason = jot X ''agent.stop'' (PText reason)"

section \<open>The journal only grows\<close>

text \<open>\<open>keeps_log J w w'\<close>: in every state a crash of the run can leave, the file \<open>J\<close> still begins with what it held.\<close>

definition keeps_log :: "string \<Rightarrow> world \<Rightarrow> world \<Rightarrow> bool" where
  "keeps_log J w w' = (\<forall>s. fs_content (files w) J = Some s \<longrightarrow> crash_safe (\<lambda>u. \<exists>t. fs_content u J = Some (s @ t)) w w')"

lemma keeps_logD:
  "keeps_log J w w' \<Longrightarrow> fs_content (files w) J = Some s \<Longrightarrow> crash_safe (\<lambda>u. \<exists>t. fs_content u J = Some (s @ t)) w w'"
  by (simp add: keeps_log_def)

lemma keeps_log_quiet: "quiet J w w' \<Longrightarrow> keeps_log J w w'"
  unfolding keeps_log_def
proof (intro allI impI)
  fix s assume q: "quiet J w w'" and s: "fs_content (files w) J = Some s"
  show "crash_safe (\<lambda>u. \<exists>t. fs_content u J = Some (s @ t)) w w'"
    by (rule crash_safe_quiet [OF q]) (use s in simp)
qed

lemma keeps_log_refl [simp]: "keeps_log J w w"
  by (rule keeps_log_quiet) simp

lemma keeps_log_end: "keeps_log J w w' \<Longrightarrow> fs_content (files w) J = Some s \<Longrightarrow> \<exists>t. fs_content (files w') J = Some (s @ t)"
  by (drule (1) keeps_logD) (erule crash_safe_end)

lemma keeps_log_trans: "keeps_log J w w1 \<Longrightarrow> keeps_log J w1 w2 \<Longrightarrow> keeps_log J w w2"
  unfolding keeps_log_def
proof (intro allI impI)
  fix s
  assume 1: "\<forall>s. fs_content (files w) J = Some s \<longrightarrow> crash_safe (\<lambda>u. \<exists>t. fs_content u J = Some (s @ t)) w w1"
    and 2: "\<forall>s. fs_content (files w1) J = Some s \<longrightarrow> crash_safe (\<lambda>u. \<exists>t. fs_content u J = Some (s @ t)) w1 w2"
    and s: "fs_content (files w) J = Some s"
  from 1 s have c1: "crash_safe (\<lambda>u. \<exists>t. fs_content u J = Some (s @ t)) w w1" by blast
  from crash_safe_end [OF this] obtain t where "fs_content (files w1) J = Some (s @ t)" by blast
  with 2 have "crash_safe (\<lambda>u. \<exists>t'. fs_content u J = Some ((s @ t) @ t')) w1 w2" by blast
  then have "crash_safe (\<lambda>u. \<exists>t. fs_content u J = Some (s @ t)) w1 w2" by (rule crash_safe_mono) auto
  with c1 show "crash_safe (\<lambda>u. \<exists>t. fs_content u J = Some (s @ t)) w w2" by (rule crash_safe_trans)
qed

lemma crashes_append_grows:
  "crashes s [EvAppend J c t] u \<Longrightarrow> fs_content s J = Some x \<Longrightarrow> \<exists>y. fs_content u J = Some (x @ y)"
  by (auto simp: crashes_Cons fs_content_def fs_simps)

lemma keeps_log_append: "file_Append J c w = (r, w') \<Longrightarrow> keeps_log J w w'"
proof -
  have one: "keeps_log J w w'" if "steps w [EvAppend J c t] w'" for c t
    unfolding keeps_log_def crash_safe_def using that crashes_append_grows by blast
  show "file_Append J c w = (r, w') \<Longrightarrow> keeps_log J w w'"
    using one keeps_log_quiet [OF quiet_nil] by (auto dest!: file_Append_steps)
qed

text \<open>\<open>logged X kind p c\<close>: the journal text \<open>c\<close> has a record of the given kind for the payload \<open>p\<close>.\<close>

definition logged :: "runtime_codec \<Rightarrow> string \<Rightarrow> payload \<Rightarrow> string \<Rightarrow> bool" where
  "logged X kind p c = (\<exists>a line r b. c = a @ line @ newline # b \<and> rc_record X r = Some line \<and> rec_Kind r = kind \<and>
     rc_payload X p = Some (rec_Payload r))"

lemma logged_append: "logged X kind p c \<Longrightarrow> logged X kind p (c @ t)"
  unfolding logged_def by (metis append_assoc append_Cons)

lemma Append_file:
  assumes "Append C mp mr j kind p w = (res, j', w')"
  shows "jnl_path j' = jnl_path j" "keeps_log (jnl_path j) w w'" "q \<noteq> jnl_path j \<Longrightarrow> quiet q w w'"
    and "res = Inr r \<Longrightarrow> fs_content (files w) (jnl_path j) = Some s \<Longrightarrow>
       \<exists>line. fs_content (files w') (jnl_path j) = Some (s @ line @ [newline]) \<and> mr r = Some line \<and> rec_Kind r = kind \<and> mp p = Some (rec_Payload r)"
proof -
  obtain now w0 where now: "time_Now w = (now, w0)" by (rule prod.exhaust)
  have q0: "quiet x w w0" for x by (rule quiet_time [OF now])
  have idle: "keeps_log (jnl_path j) w w" "quiet q w w" by simp_all
  show "jnl_path j' = jnl_path j"
    using assms now by (auto simp: Append_def Let_def split: if_splits option.splits prod.splits sum.splits)
  consider (same) "w' = w" "\<exists>e. res = Inl e"
    | (early) "w' = w0" "\<exists>e. res = Inl e"
    | (late) enc line r1 w1 where "mp p = Some enc" "mr (next_record C j now kind enc) = Some line"
        "file_Append (jnl_path j) (line @ [newline]) w0 = (r1, w1)"
        "(\<exists>e. r1 = Inl e \<and> res = Inl (JErrOS e) \<and> w' = w1) \<or>
         (\<exists>r2. r1 = Inr () \<and> file_Sync (jnl_path j) w1 = (r2, w') \<and> (\<forall>x. res = Inr x \<longrightarrow> x = next_record C j now kind enc))"
  proof (cases "jnl_file j \<and> (\<exists>enc. mp p = Some enc)")
    case False
    then have "w' = w \<and> (\<exists>e. res = Inl e)" using assms by (auto simp: Append_def split: option.splits if_splits)
    then show thesis using same by blast
  next
    case True
    then obtain enc where enc: "jnl_file j" "mp p = Some enc" by blast
    show thesis
    proof (cases "mr (next_record C j now kind enc)")
      case None
      then have "w' = w0 \<and> (\<exists>e. res = Inl e)" using assms enc now by (auto simp: Append_def Let_def)
      then show thesis using early by blast
    next
      case (Some line)
      obtain r1 w1 where ap: "file_Append (jnl_path j) (line @ [newline]) w0 = (r1, w1)" by (rule prod.exhaust)
      obtain r2 w2 where sy: "file_Sync (jnl_path j) w1 = (r2, w2)" by (rule prod.exhaust)
      show thesis
        by (rule late [OF enc(2) Some ap]) (use assms enc now Some ap sy in \<open>auto simp: Append_def Let_def split: sum.splits\<close>)
    qed
  qed
  note cases = this
  show "keeps_log (jnl_path j) w w'" using cases
  proof cases
    case (late enc line r1 w1)
    have "keeps_log (jnl_path j) w w1" by (rule keeps_log_trans [OF keeps_log_quiet [OF q0] keeps_log_append [OF late(3)]])
    then show ?thesis using late(4) keeps_log_trans keeps_log_quiet [OF quiet_file_Sync] by metis
  qed (use keeps_log_quiet [OF q0] in simp_all)
  show "quiet q w w'" if "q \<noteq> jnl_path j" using cases
  proof cases
    case (late enc line r1 w1)
    have "quiet q w w1" by (rule quiet_trans [OF q0 quiet_Append [OF late(3) that]])
    then show ?thesis using late(4) quiet_trans quiet_file_Sync by metis
  qed (use q0 in simp_all)
  show "\<exists>line. fs_content (files w') (jnl_path j) = Some (s @ line @ [newline]) \<and> mr r = Some line \<and> rec_Kind r = kind \<and> mp p = Some (rec_Payload r)"
    if ok: "res = Inr r" and s: "fs_content (files w) (jnl_path j) = Some s" using cases
  proof cases
    case (late enc line r1 w1)
    from late(4) ok obtain r2 where r: "r1 = Inr ()" "file_Sync (jnl_path j) w1 = (r2, w')" "r = next_record C j now kind enc" by auto
    have "fs_content (files w0) (jnl_path j) = Some s" using quiet_content [OF q0] s by simp
    from content_Append [OF _ this] late(3) r(1) have "fs_content (files w1) (jnl_path j) = Some (s @ line @ [newline])" by simp
    then have "fs_content (files w') (jnl_path j) = Some (s @ line @ [newline])" using content_Sync [OF r(2)] by simp
    then show ?thesis using late(1,2) r(3) by (auto simp: next_record_def Let_def)
  qed (use ok in auto)
qed

section \<open>What an entry changes\<close>

text \<open>\<open>near J w w'\<close>: of all files only \<open>J\<close> is touched, and \<open>J\<close> only grows.\<close>

definition near :: "string \<Rightarrow> world \<Rightarrow> world \<Rightarrow> bool" where
  "near J w w' = (keeps_log J w w' \<and> (\<forall>q. q \<noteq> J \<longrightarrow> quiet q w w'))"

lemma near_refl [simp]: "near J w w"
  by (simp add: near_def)

lemma near_trans: "near J w w1 \<Longrightarrow> near J w1 w2 \<Longrightarrow> near J w w2"
  unfolding near_def by (meson keeps_log_trans quiet_trans)

lemma near_silent: "(\<And>q. quiet q w w') \<Longrightarrow> near J w w'"
  by (simp add: near_def keeps_log_quiet)

text \<open>\<open>same_agent r r'\<close>: the parts of the runtime that do not change while it runs.\<close>

definition same_agent :: "Runtime \<Rightarrow> Runtime \<Rightarrow> bool" where
  "same_agent r r' = (rt_cfg r' = rt_cfg r \<and> rt_hostname r' = rt_hostname r \<and> jnl_path (rt_journal r') = jnl_path (rt_journal r) \<and>
     rt_transportOutbox r' = rt_transportOutbox r \<and> rt_transportFlushInterval r' = rt_transportFlushInterval r)"

lemma same_agent_refl [simp]: "same_agent r r"
  by (simp add: same_agent_def)

lemma same_agent_trans: "same_agent r r1 \<Longrightarrow> same_agent r1 r2 \<Longrightarrow> same_agent r r2"
  by (simp add: same_agent_def)

lemma local_event_same: "same_agent r r' \<Longrightarrow> local_event d r' e = local_event d r e"
  by (simp add: same_agent_def local_event_def Let_def)

abbreviation log_of :: "Runtime \<Rightarrow> string" where "log_of r \<equiv> jnl_path (rt_journal r)"

lemma journal_append_facts:
  assumes "journal_append X kind p r w = (res, r', w')"
  shows "same_agent r r'" "near (log_of r) w w'" "r' = r\<lparr>rt_journal := rt_journal r'\<rparr>"
    and "res = None \<Longrightarrow> fs_content (files w) (log_of r) = Some s \<Longrightarrow>
       \<exists>c. fs_content (files w') (log_of r) = Some (s @ c) \<and> logged X kind p (s @ c)"
proof -
  obtain x j w1 where ap: "Append (rc_crypto X) (rc_payload X) (rc_record X) (rt_journal r) kind p w = (x, j, w1)" by (metis prod_cases3)
  note f = Append_file [OF ap]
  have st: "r' = r\<lparr>rt_journal := j\<rparr>" "w' = w1" and ok: "res = None \<Longrightarrow> \<exists>y. x = Inr y"
    using assms ap by (auto simp: journal_append_def split: sum.splits)
  show "same_agent r r'" "r' = r\<lparr>rt_journal := rt_journal r'\<rparr>" using st f(1) by (simp_all add: same_agent_def)
  show "near (log_of r) w w'" using f(2,3) st by (simp add: near_def)
  show "\<exists>c. fs_content (files w') (log_of r) = Some (s @ c) \<and> logged X kind p (s @ c)"
    if none: "res = None" and s: "fs_content (files w) (log_of r) = Some s"
  proof -
    from ok [OF none] obtain y where "x = Inr y" by blast
    from f(4) [OF this s] obtain line where "fs_content (files w1) (log_of r) = Some (s @ line @ [newline])"
      "rc_record X y = Some line" "rec_Kind y = kind" "rc_payload X p = Some (rec_Payload y)" by blast
    then show ?thesis unfolding logged_def st(2) by (metis append_assoc)
  qed
qed

lemma recordCollectorError_facts:
  assumes "recordCollectorError X c e r w = (r', w')"
  shows "same_agent r r'" "near (log_of r) w w'"
proof -
  define r0 where "r0 = r\<lparr>rt_errorCount := rt_errorCount r + 1\<rparr>"
  have r0: "same_agent r r0" "log_of r0 = log_of r" by (simp_all add: r0_def same_agent_def)
  obtain x r1 w1 where ap: "journal_append X ''collector.error'' (PCollectorError c (rc_error X e)) r0 w = (x, r1, w1)" by (metis prod_cases3)
  then have "r' = r1" "w' = w1" using assms by (simp_all add: recordCollectorError_def r0_def)
  then show "same_agent r r'" "near (log_of r) w w'"
    using journal_append_facts(1,2) [OF ap] r0 same_agent_trans by auto
qed

lemma record_errors_facts: "record_errors X c es r w = (r', w') \<Longrightarrow> same_agent r r' \<and> near (log_of r) w w'"
proof (induction es arbitrary: r w)
  case (Cons e es)
  obtain r1 w1 where one: "recordCollectorError X c e r w = (r1, w1)" by (rule prod.exhaust)
  note f = recordCollectorError_facts [OF one]
  have "same_agent r1 r' \<and> near (log_of r1) w1 w'" using Cons one by simp
  moreover have "log_of r1 = log_of r" using f(1) by (simp add: same_agent_def)
  ultimately show ?case using f same_agent_trans near_trans by metis
qed simp

lemma append_findings_facts:
  "append_findings X fs r w = (res, r', w') \<Longrightarrow> same_agent r r' \<and> near (log_of r) w w' \<and>
     (res = None \<longrightarrow> (\<forall>s. fs_content (files w) (log_of r) = Some s \<longrightarrow>
        (\<exists>c. fs_content (files w') (log_of r) = Some (s @ c) \<and> list_all (\<lambda>f. logged X ''finding'' (PFinding f) (s @ c)) fs)))"
proof (induction fs arbitrary: r w)
  case Nil
  then show ?case by (auto intro: exI [of _ "[]"])
next
  case (Cons f fs)
  obtain x r1 w1 where ap: "journal_append X ''finding'' (PFinding f) r w = (x, r1, w1)" by (metis prod_cases3)
  note a = journal_append_facts [OF ap]
  show ?case
  proof (cases x)
    case (Some e)
    then have "res = x" "r' = r1" "w' = w1" using Cons.prems ap by simp_all
    then show ?thesis using Some a(1,2) by simp
  next
    case None
    define r2 where "r2 = r1\<lparr>rt_findingCount := rt_findingCount r1 + 1\<rparr>"
    have r2: "same_agent r1 r2" "log_of r2 = log_of r" using a(1) by (simp_all add: r2_def same_agent_def)
    have "append_findings X fs r2 w1 = (res, r', w')" using Cons.prems ap None by (simp add: r2_def)
    from Cons.IH [OF this] have ih: "same_agent r2 r'" "near (log_of r) w1 w'"
      and log: "res = None \<Longrightarrow> fs_content (files w1) (log_of r) = Some s \<Longrightarrow>
        \<exists>c. fs_content (files w') (log_of r) = Some (s @ c) \<and> list_all (\<lambda>f. logged X ''finding'' (PFinding f) (s @ c)) fs" for s
      by (simp_all add: r2(2))
    have "\<exists>c. fs_content (files w') (log_of r) = Some (s @ c) \<and> list_all (\<lambda>f. logged X ''finding'' (PFinding f) (s @ c)) (f # fs)"
      if "res = None" "fs_content (files w) (log_of r) = Some s" for s
    proof -
      from a(4) [OF None that(2)] obtain c where c: "fs_content (files w1) (log_of r) = Some (s @ c)" "logged X ''finding'' (PFinding f) (s @ c)" by blast
      from log [OF that(1) c(1)] obtain c' where "fs_content (files w') (log_of r) = Some ((s @ c) @ c')"
        "list_all (\<lambda>f. logged X ''finding'' (PFinding f) ((s @ c) @ c')) fs" by blast
      then show ?thesis using logged_append [OF c(2), of c'] by (intro exI [of _ "c @ c'"]) simp
    qed
    moreover have "same_agent r r'" by (rule same_agent_trans [OF a(1) same_agent_trans [OF r2(1) ih(1)]])
    moreover have "near (log_of r) w w'" by (rule near_trans [OF a(2) ih(2)])
    ultimately show ?thesis by simp
  qed
qed

text \<open>Queueing leaves a file alone that is no file of the directory of pending events.\<close>

definition apart :: "Runtime \<Rightarrow> string \<Rightarrow> bool" where
  "apart r p = (\<forall>ob n. rt_transportOutbox r = Some ob \<and> plain_comp n \<longrightarrow> p \<noteq> pending_file ob n)"

lemma plain_queue_names:
  "plain_comp (eventFilename C i)" "plain_comp (temporary_name (eventFilename C i) now)"
  using good_eventFilename [of C i] Itoa_no_slash by (simp_all add: good_name_def plain_comp_def temporary_name_def)

lemma apart_same: "same_agent r r' \<Longrightarrow> apart r' p = apart r p"
  by (simp add: apart_def same_agent_def)

lemma queue_event_facts:
  assumes "queue_event X event r w = (res, w')"
  shows "apart r p \<Longrightarrow> quiet p w w'"
    and "res = None \<Longrightarrow> rt_transportOutbox r = Some ob \<Longrightarrow>
       fs_content (files w') (pending_file ob (eventFilename (rc_crypto X) (ev_ID event))) \<noteq> None"
proof -
  show "quiet p w w'" if "apart r p"
  proof (cases "rt_transportOutbox r")
    case None
    then show ?thesis using assms by (simp add: queue_event_def)
  next
    case (Some ob)
    obtain x w1 where en: "Enqueue (rc_crypto X) (rc_events X) ob event w = (x, w1)" by (rule prod.exhaust)
    have ne: "p \<noteq> pending_file ob n" if "plain_comp n" for n using \<open>apart r p\<close> Some that by (simp add: apart_def)
    note ne' = ne [OF plain_queue_names(1)] ne [OF plain_queue_names(2)]
    have "quiet p w w1" using en
    proof (cases rule: Enqueue_shape)
      case 1
      then show ?thesis by blast
    next
      case (2 now)
      then show ?thesis using ne'(2) by blast
    next
      case (3 enc now w4)
      show ?thesis by (rule quiet_trans [OF 3(3) [OF ne'(2)] quiet_Rename [OF 3(5) ne'(2) ne'(1)]])
    qed
    then show ?thesis using assms Some en by (auto simp: queue_event_def split: sum.splits)
  qed
  show "fs_content (files w') (pending_file ob (eventFilename (rc_crypto X) (ev_ID event))) \<noteq> None"
    if none: "res = None" and ob: "rt_transportOutbox r = Some ob"
  proof -
    obtain x w1 where en: "Enqueue (rc_crypto X) (rc_events X) ob event w = (x, w1)" by (rule prod.exhaust)
    with assms none ob have x: "x = Inr ()" "w' = w1" by (auto simp: queue_event_def split: sum.splits)
    show ?thesis using en
    proof (cases rule: Enqueue_shape)
      case 1
      then show ?thesis using x(1) quiet_content [OF 1(1)] by (simp add: x(2))
    next
      case (2 now)
      then show ?thesis using x by simp
    next
      case (3 enc now w4)
      then show ?thesis using rename_installs(1) [OF 3(5)] by (simp add: x(2))
    qed
  qed
qed

section \<open>Evidence first\<close>

text \<open>A file that is neither the journal nor in the outbox, and the journal itself, through \<open>process\<close>.\<close>

lemma process_facts:
  assumes run: "process X d e r w = ((err, findings), r', w')" and J: "apart r (log_of r)"
  shows "same_agent r r'" "keeps_log (log_of r) w w'" "p \<noteq> log_of r \<Longrightarrow> apart r p \<Longrightarrow> quiet p w w'"
    and "p \<noteq> log_of r \<Longrightarrow> fs_content (files w) (log_of r) = Some s \<Longrightarrow>
      crash_safe (\<lambda>u. fs_content u p = fs_content (files w) p \<or>
        (\<exists>c. fs_content u (log_of r) = Some c \<and> logged X ''event'' (PEvent (local_event d r e)) c)) w w'"
    and "err = None \<Longrightarrow> fs_content (files w) (log_of r) = Some s \<Longrightarrow>
      (\<exists>c. fs_content (files w') (log_of r) = Some (s @ c) \<and> logged X ''event'' (PEvent (local_event d r e)) (s @ c) \<and>
         list_all (\<lambda>f. logged X ''finding'' (PFinding f) (s @ c)) findings) \<and>
      (\<forall>ob. rt_transportOutbox r = Some ob \<longrightarrow>
         fs_content (files w') (pending_file ob (eventFilename (rc_crypto X) (ev_ID (local_event d r e)))) \<noteq> None)"
proof -
  let ?ev = "local_event d r e" and ?J = "log_of r"
  obtain x r1 w1 where ap: "journal_append X ''event'' (PEvent ?ev) r w = (x, r1, w1)" by (metis prod_cases3)
  note a = journal_append_facts [OF ap]
  have "same_agent r r' \<and> keeps_log ?J w w' \<and> (\<forall>p. p \<noteq> ?J \<longrightarrow> apart r p \<longrightarrow> quiet p w w') \<and>
    (\<forall>p s. p \<noteq> ?J \<longrightarrow> fs_content (files w) ?J = Some s \<longrightarrow>
      crash_safe (\<lambda>u. fs_content u p = fs_content (files w) p \<or> (\<exists>c. fs_content u ?J = Some c \<and> logged X ''event'' (PEvent ?ev) c)) w w') \<and>
    (\<forall>s. err = None \<longrightarrow> fs_content (files w) ?J = Some s \<longrightarrow>
      (\<exists>c. fs_content (files w') ?J = Some (s @ c) \<and> logged X ''event'' (PEvent ?ev) (s @ c) \<and>
         list_all (\<lambda>f. logged X ''finding'' (PFinding f) (s @ c)) findings) \<and>
      (\<forall>ob. rt_transportOutbox r = Some ob \<longrightarrow>
         fs_content (files w') (pending_file ob (eventFilename (rc_crypto X) (ev_ID ?ev))) \<noteq> None))"
  proof (cases x)
    case (Some er)
    then have eq: "r' = r1" "w' = w1" "err = Some (RErrJournal er)" using run ap by (auto simp: process_def Let_def)
    have q: "quiet p w w'" if "p \<noteq> ?J" for p using a(2) that eq(2) by (simp add: near_def)
    have "crash_safe (\<lambda>u. fs_content u p = fs_content (files w) p \<or> Q u) w w'" if "p \<noteq> ?J" for p Q
      by (rule crash_safe_quiet [OF q [OF that]]) simp
    then show ?thesis using a(1,2) eq q by (simp add: near_def)
  next
    case None
    obtain engine fs where insp: "Inspect (rc_detect X) (pd_finding d) (pd_wall d) ?ev (rt_detector r1) = (fs, engine)" by (metis prod.exhaust)
    define r2 where "r2 = r1\<lparr>rt_eventCount := rt_eventCount r1 + 1, rt_detector := engine\<rparr>"
    have s2: "same_agent r r2" using a(1) by (simp add: r2_def same_agent_def)
    then have J2: "log_of r2 = ?J" by (simp add: same_agent_def)
    obtain y r3 w3 where fi: "append_findings X fs r2 w1 = (y, r3, w3)" by (metis prod_cases3)
    from append_findings_facts [OF fi, unfolded J2] have s3: "same_agent r2 r3" and n3: "near ?J w1 w3"
      and l3: "y = None \<Longrightarrow> fs_content (files w1) ?J = Some s \<Longrightarrow>
        \<exists>c. fs_content (files w3) ?J = Some (s @ c) \<and> list_all (\<lambda>f. logged X ''finding'' (PFinding f) (s @ c)) fs" for s
      by blast+
    have s13: "same_agent r r3" by (rule same_agent_trans [OF s2 s3])
    obtain z w4 where qe: "queue_event X ?ev r3 w3 = (z, w4)" by (rule prod.exhaust)
    define wq where "wq = (if y = None then w4 else w3)"
    have fin: "w' = wq" "same_agent r r'" "findings = fs" and ok: "err = None \<Longrightarrow> y = None \<and> z = None"
      using run ap None insp fi qe s13 by (auto simp: process_def Let_def wq_def r2_def same_agent_def split: option.splits)
    have q4: "quiet p w3 wq" if "apart r p" for p
      using queue_event_facts(1) [OF qe] apart_same [OF s13, of p] that by (simp add: wq_def)
    have k1: "keeps_log ?J w1 wq" using n3 keeps_log_trans keeps_log_quiet [OF q4 [OF J]] by (simp add: near_def) blast
    have k: "keeps_log ?J w w'" unfolding fin(1) by (rule keeps_log_trans [OF _ k1]) (use a(2) in \<open>simp add: near_def\<close>)
    have q: "quiet p w w'" if "p \<noteq> ?J" "apart r p" for p
    proof -
      have "quiet p w w1" "quiet p w1 w3" using a(2) n3 that(1) by (simp_all add: near_def)
      then show ?thesis unfolding fin(1) using q4 [OF that(2)] quiet_trans by meson
    qed
    have safe: "crash_safe (\<lambda>u. fs_content u p = fs_content (files w) p \<or> (\<exists>c. fs_content u ?J = Some c \<and> logged X ''event'' (PEvent ?ev) c)) w w'"
      (is "crash_safe ?R w w'") if "p \<noteq> ?J" "fs_content (files w) ?J = Some s" for p s
    proof -
      from a(4) [OF None that(2)] obtain c where c: "fs_content (files w1) ?J = Some (s @ c)" "logged X ''event'' (PEvent ?ev) (s @ c)" by blast
      have "quiet p w w1" using a(2) that(1) by (simp add: near_def)
      then have "crash_safe ?R w w1" by (rule crash_safe_quiet) simp
      moreover have "crash_safe ?R w1 wq"
        by (rule crash_safe_mono [OF keeps_logD [OF k1 c(1)]]) (use logged_append [OF c(2)] in blast)
      ultimately show ?thesis unfolding fin(1) by (rule crash_safe_trans)
    qed
    have finished: "(\<exists>c. fs_content (files w') ?J = Some (s @ c) \<and> logged X ''event'' (PEvent ?ev) (s @ c) \<and>
         list_all (\<lambda>f. logged X ''finding'' (PFinding f) (s @ c)) findings) \<and>
      (\<forall>ob. rt_transportOutbox r = Some ob \<longrightarrow>
         fs_content (files w') (pending_file ob (eventFilename (rc_crypto X) (ev_ID ?ev))) \<noteq> None)"
      if "err = None" "fs_content (files w) ?J = Some s" for s
    proof -
      from ok [OF that(1)] have y: "y = None" and z: "z = None" by simp_all
      from a(4) [OF None that(2)] obtain c where c: "fs_content (files w1) ?J = Some (s @ c)" "logged X ''event'' (PEvent ?ev) (s @ c)" by blast
      from l3 [OF y c(1)] obtain c' where c': "fs_content (files w3) ?J = Some ((s @ c) @ c')"
        "list_all (\<lambda>f. logged X ''finding'' (PFinding f) ((s @ c) @ c')) fs" by blast
      have "fs_content (files w') ?J = Some ((s @ c) @ c')"
        using c'(1) quiet_content [OF q4 [OF J]] by (simp add: fin(1))
      moreover have "fs_content (files w') (pending_file ob (eventFilename (rc_crypto X) (ev_ID ?ev))) \<noteq> None"
        if "rt_transportOutbox r = Some ob" for ob
        using queue_event_facts(2) [OF qe z] that s13 y by (simp add: fin(1) wq_def same_agent_def)
      ultimately show ?thesis using c'(2) logged_append [OF c(2), of c'] fin(3) by (intro conjI exI [of _ "c @ c'"]) auto
    qed
    from fin(2) k q safe finished show ?thesis by (intro conjI) simp_all
  qed
  then show "same_agent r r'" "keeps_log ?J w w'" "p \<noteq> ?J \<Longrightarrow> apart r p \<Longrightarrow> quiet p w w'"
    and "p \<noteq> ?J \<Longrightarrow> fs_content (files w) ?J = Some s \<Longrightarrow>
      crash_safe (\<lambda>u. fs_content u p = fs_content (files w) p \<or> (\<exists>c. fs_content u ?J = Some c \<and> logged X ''event'' (PEvent ?ev) c)) w w'"
    and "err = None \<Longrightarrow> fs_content (files w) ?J = Some s \<Longrightarrow>
      (\<exists>c. fs_content (files w') ?J = Some (s @ c) \<and> logged X ''event'' (PEvent ?ev) (s @ c) \<and>
         list_all (\<lambda>f. logged X ''finding'' (PFinding f) (s @ c)) findings) \<and>
      (\<forall>ob. rt_transportOutbox r = Some ob \<longrightarrow>
         fs_content (files w') (pending_file ob (eventFilename (rc_crypto X) (ev_ID ?ev))) \<noteq> None)"
    by simp_all
qed


section \<open>Positions follow the evidence\<close>

text \<open>All events of a batch that was processed are in the journal.\<close>

lemma process_batch_facts:
  "process_batch X name d es r w = (ok, r', w') \<Longrightarrow> apart r (log_of r) \<Longrightarrow>
     same_agent r r' \<and> keeps_log (log_of r) w w' \<and> (\<forall>p. p \<noteq> log_of r \<and> apart r p \<longrightarrow> quiet p w w') \<and>
     (ok \<longrightarrow> (\<forall>s. fs_content (files w) (log_of r) = Some s \<longrightarrow>
        (\<exists>c. fs_content (files w') (log_of r) = Some (s @ c) \<and>
           (\<forall>i<length es. logged X ''event'' (PEvent (local_event (d i) r (es ! i))) (s @ c)))))"
proof (induction es arbitrary: r w d)
  case Nil
  then show ?case by (auto intro: exI [of _ "[]"])
next
  case (Cons e es)
  let ?J = "log_of r"
  obtain err findings r1 w1 where pr: "process X (d 0) e r w = ((err, findings), r1, w1)" by (metis prod.exhaust)
  note f = process_facts [OF pr Cons.prems(2)]
  have J1: "log_of r1 = ?J" using f(1) by (simp add: same_agent_def)
  show ?case
  proof (cases err)
    case (Some er)
    obtain r2 w2 where rc: "recordCollectorError X name er r1 w1 = (r2, w2)" by (rule prod.exhaust)
    note g = recordCollectorError_facts [OF rc, unfolded J1]
    have eq: "\<not> ok" "r' = r2" "w' = w2" using Cons.prems(1) pr Some rc by simp_all
    have "keeps_log ?J w w2" using keeps_log_trans [OF f(2)] g(2) by (simp add: near_def)
    moreover have "quiet p w w2" if "p \<noteq> ?J" "apart r p" for p
      using quiet_trans [OF f(3) [OF that]] g(2) that(1) by (simp add: near_def)
    ultimately show ?thesis using eq same_agent_trans [OF f(1) g(1)] by simp
  next
    case None
    define r2 where "r2 = r1\<lparr>rt_nativeEventCount := rt_nativeEventCount r1 + 1\<rparr>"
    have s2: "same_agent r r2" using f(1) by (simp add: r2_def same_agent_def)
    have J2: "log_of r2 = ?J" using s2 by (simp add: same_agent_def)
    have "process_batch X name (d \<circ> Suc) es r2 w1 = (ok, r', w')" using Cons.prems(1) pr None by (simp add: r2_def)
    from Cons.IH [OF this] have s3: "same_agent r2 r'" and k: "keeps_log ?J w1 w'" and q: "\<forall>p. p \<noteq> ?J \<and> apart r p \<longrightarrow> quiet p w1 w'"
      and l: "ok \<Longrightarrow> fs_content (files w1) ?J = Some s \<Longrightarrow> \<exists>c. fs_content (files w') ?J = Some (s @ c) \<and>
           (\<forall>i<length es. logged X ''event'' (PEvent (local_event ((d \<circ> Suc) i) r (es ! i))) (s @ c))" for s
      using Cons.prems(2) by (simp_all add: J2 apart_same [OF s2] local_event_same [OF s2])
    have "\<exists>c. fs_content (files w') ?J = Some (s @ c) \<and>
        (\<forall>i<length (e # es). logged X ''event'' (PEvent (local_event (d i) r ((e # es) ! i))) (s @ c))"
      if "ok" "fs_content (files w) ?J = Some s" for s
    proof -
      from f(5) [OF None that(2)] obtain c where c: "fs_content (files w1) ?J = Some (s @ c)"
        "logged X ''event'' (PEvent (local_event (d 0) r e)) (s @ c)" by blast
      from l [OF that(1) c(1)] obtain c' where c': "fs_content (files w') ?J = Some ((s @ c) @ c')"
        "\<forall>i<length es. logged X ''event'' (PEvent (local_event ((d \<circ> Suc) i) r (es ! i))) ((s @ c) @ c')" by blast
      have "logged X ''event'' (PEvent (local_event (d i) r ((e # es) ! i))) ((s @ c) @ c')" if "i < length (e # es)" for i
        using c'(2) logged_append [OF c(2), of c'] that by (cases i) simp_all
      then show ?thesis using c'(1) by (intro exI [of _ "c @ c'"]) simp
    qed
    then show ?thesis
      using same_agent_trans [OF s2 s3] keeps_log_trans [OF f(2) k] quiet_trans [OF f(3)] q by blast
  qed
qed

lemma cursor_Commit_quiet:
  assumes "cursor_Commit K rnd nxt c w = (x, c', w')" "J \<noteq> cf_path c"
    and "J \<noteq> filepath_Join [filepath_Dir (cf_path c), ''.cursor-'' @ rnd @ ''.tmp'']"
  shows "quiet J w w'"
proof -
  define tmp where "tmp = filepath_Join [filepath_Dir (cf_path c), ''.cursor-'' @ rnd @ ''.tmp'']"
  have J: "J \<noteq> tmp" using assms(3) by (simp add: tmp_def)
  obtain now w1 where now: "time_Now w = (now, w1)" by (rule prod.exhaust)
  have q1: "quiet J w w1" by (rule quiet_time [OF now])
  have over: "quiet J v v'" if "rename_over tmp (cf_path c) v = (y, v')" for v y v'
    using that assms(2) J quiet_trans quiet_Rename quiet_Remove
    by (auto simp: rename_over_def split: prod.splits sum.splits if_splits) (meson quiet_trans quiet_Rename quiet_Remove)+
  have rep: "quiet J v v'" if "replace_cursor rnd (cf_path c) body v = (y, v')" for body v y v'
  proof -
    obtain y1 v1 where 1: "os_WriteFile tmp [] mode_private v = (y1, v1)" by (rule prod.exhaust)
    obtain y2 v2 where 2: "write_temporary tmp body v1 = (y2, v2)" by (rule prod.exhaust)
    obtain y3 v3 where 3: "rename_over tmp (cf_path c) v2 = (y3, v3)" by (rule prod.exhaust)
    have a: "quiet J v v1" by (rule quiet_WriteFile [OF 1 J])
    have b: "quiet J v v2" by (rule quiet_trans [OF a io_quietD [OF quiet_write_temporary [OF J] 2]])
    have c: "quiet J v v3" by (rule quiet_trans [OF b over [OF 3]])
    have "v' \<in> {v1, snd (os_Remove tmp v2), snd (os_Remove tmp v3), snd (os_Chmod (cf_path c) mode_private v3)}"
      using that unfolding replace_cursor_def tmp_def [symmetric] Let_def 1 2 3
      by (cases y1; cases y2; cases y3) (auto simp: 1 2 3)
    then show ?thesis
      using a quiet_trans [OF b quiet_snd_Remove [OF J]] quiet_trans [OF c quiet_snd_Remove [OF J]]
        quiet_trans [OF c quiet_snd_Chmod] by auto
  qed
  have "w' = w \<or> w' = w1 \<or> (\<exists>body y. replace_cursor rnd (cf_path c) body w1 = (y, w'))"
    using assms(1) now by (auto simp: cursor_Commit_def split: option.splits prod.splits sum.splits)
  then show ?thesis using q1 rep quiet_trans by blast
qed

lemma acknowledge_facts:
  assumes "acknowledge X K b s r w = (s', r', w')" and "log_of r \<noteq> cf_path (nv_cursor s)"
    and "log_of r \<noteq> filepath_Join [filepath_Dir (cf_path (nv_cursor s)), ''.cursor-'' @ bt_rnd b @ ''.tmp'']"
  shows "keeps_log (log_of r) w w'"
proof (cases "bt_commit b")
  case None
  then show ?thesis using assms(1) by (simp add: acknowledge_def)
next
  case (Some nxt)
  obtain x c w1 where cm: "cursor_Commit K (bt_rnd b) nxt (nv_cursor s) w = (x, c, w1)" by (metis prod_cases3)
  have q: "quiet (log_of r) w w1" by (rule cursor_Commit_quiet [OF cm assms(2,3)])
  show ?thesis
  proof (cases x)
    case (Inl e)
    then obtain r1 where "recordCollectorError X (native_name s @ ''/cursor'') (RErrAcknowledge e) r w1 = (r1, w')"
      using assms(1) Some cm by (auto simp: acknowledge_def)
    from recordCollectorError_facts(2) [OF this] show ?thesis
      using keeps_log_trans [OF keeps_log_quiet [OF q]] by (simp add: near_def)
  next
    case (Inr y)
    then show ?thesis using assms(1) Some cm keeps_log_quiet [OF q] by (simp add: acknowledge_def)
  qed
qed

text \<open>C26. The stored position of a native source never passes the evidence: whatever fails and whenever the machine stops
  while the source is polled, its cursor file is unchanged unless the journal holds a record of every event of the batch. So
  after a restart an event is read again or is in the journal; none is lost.\<close>

theorem cursor_never_passes_evidence:
  assumes "poll_source X K b d s r w = (s', r', w')" and "fs_content (files w) (log_of r) = Some old"
    and "apart r (log_of r)" and "apart r (cf_path (nv_cursor s))" and "log_of r \<noteq> cf_path (nv_cursor s)"
    and "log_of r \<noteq> filepath_Join [filepath_Dir (cf_path (nv_cursor s)), ''.cursor-'' @ bt_rnd b @ ''.tmp'']"
  shows "crash_safe (\<lambda>u. fs_content u (cf_path (nv_cursor s)) = fs_content (files w) (cf_path (nv_cursor s)) \<or>
      (\<exists>c. fs_content u (log_of r) = Some c \<and>
         (\<forall>i<length (bt_events b). logged X ''event'' (PEvent (local_event (d i) r (bt_events b ! i))) c))) w w'"
    (is "crash_safe ?R w w'")
proof -
  let ?J = "log_of r" and ?p = "cf_path (nv_cursor s)"
  obtain r1 w1 where re: "record_errors X (native_name s) (map RErrPoll (bt_errors b)) r w = (r1, w1)" by (rule prod.exhaust)
  from record_errors_facts [OF re] have s1: "same_agent r r1" and n1: "near ?J w w1" by simp_all
  have J1: "log_of r1 = ?J" using s1 by (simp add: same_agent_def)
  obtain ok r2 w2 where pb: "process_batch X (native_name s) d (bt_events b) r1 w1 = (ok, r2, w2)" by (metis prod_cases3)
  note f = process_batch_facts [OF pb, unfolded J1 apart_same [OF s1] local_event_same [OF s1], OF assms(3)]
  have J2: "log_of r2 = ?J" using f J1 by (simp add: same_agent_def)
  have "quiet ?p w w2" using n1 f assms(4,5) quiet_trans unfolding near_def by metis
  then have safe2: "crash_safe ?R w w2" by (rule crash_safe_quiet) simp
  show ?thesis
  proof (cases ok)
    case False
    then show ?thesis using assms(1) re pb safe2 by (simp add: poll_source_def)
  next
    case True
    then have ack: "acknowledge X K b s r2 w2 = (s', r', w')" using assms(1) re pb by (simp add: poll_source_def)
    obtain t where "fs_content (files w1) ?J = Some (old @ t)" using n1 keeps_log_end assms(2) unfolding near_def by blast
    with f True obtain c where c: "fs_content (files w2) ?J = Some c"
      "\<forall>i<length (bt_events b). logged X ''event'' (PEvent (local_event (d i) r (bt_events b ! i))) c" by blast
    have "keeps_log ?J w2 w'" using acknowledge_facts [OF ack] assms(5,6) by (simp add: J2)
    from keeps_logD [OF this c(1)] have "crash_safe ?R w2 w'" by (rule crash_safe_mono) (use c(2) logged_append in blast)
    with safe2 show ?thesis by (rule crash_safe_trans)
  qed
qed

section \<open>Back-off\<close>

lemma jot_same: "jot X kind p rw = rw' \<Longrightarrow> same_agent (fst rw) (fst rw')"
  by (cases rw; cases "journal_append X kind p (fst rw) (snd rw)") (auto simp: jot_def dest: journal_append_facts(1))

lemma jot_flush [simp]: "rt_transportFlushInterval (fst (jot X kind p rw)) = rt_transportFlushInterval (fst rw)"
  using jot_same [of X kind p rw] by (simp add: same_agent_def)

lemma count_flush_interval [simp]:
  "rt_transportFlushInterval (fst (count_flush X res rw)) = rt_transportFlushInterval (fst rw)"
proof -
  have n: "rt_transportFlushInterval (fst (note_success f rw')) = rt_transportFlushInterval (fst rw')"
    if "\<And>n r. rt_transportFlushInterval (f n r) = rt_transportFlushInterval r" for f rw'
    using that by (simp add: note_success_def split: prod.split)
  show ?thesis by (cases rw) (simp add: count_flush_def Let_def n)
qed

lemma note_outcome_interval [simp]:
  "rt_transportFlushInterval (fst (snd (note_outcome X res e L rw))) = rt_transportFlushInterval (fst rw)"
  by (cases rw) (simp add: note_outcome_def Let_def split: option.split)

lemma note_backpressure_keeps [simp]:
  "rt_transportFlushInterval (fst (snd (note_backpressure X ob LR))) = rt_transportFlushInterval (fst (snd LR))"
  "lp_delay (fst (note_backpressure X ob LR)) = lp_delay (fst LR)"
  by (cases LR; simp add: note_backpressure_def Let_def split: prod.split sum.split)+

lemma note_outcome_delay:
  "lp_delay (fst (note_outcome X res e L rw)) =
     next_delay (rt_transportFlushInterval (fst rw)) (lp_delay L) (e \<noteq> None \<and> e \<noteq> Some SErrCancelled)"
  by (simp add: note_outcome_def next_delay_def Let_def split: option.split)

text \<open>A run of the transport loop; \<open>n\<close> is the number of failed rounds since the last one that did not fail, or since the start.\<close>

inductive transport_run :: "runtime_codec \<Rightarrow> pki \<Rightarrow> send_codec \<Rightarrow> Outbox \<Rightarrow> nat \<Rightarrow> transport_state \<Rightarrow> Runtime \<Rightarrow> bool" for X K S ob where
  idle: "transport_run X K S ob 0 transport_start r"
| failed: "transport_run X K S ob n L r \<Longrightarrow> rt_transportSender r = Some s \<Longrightarrow>
    fst (Flush (rc_crypto X) K S reply (tr_BatchSize (cf_Transport (rt_cfg r))) s env w) = (res, Some e) \<Longrightarrow> e \<noteq> SErrCancelled \<Longrightarrow>
    transport_round X K S reply s ob env L r w = (env', L', r', w') \<Longrightarrow> transport_run X K S ob (Suc n) L' r'"
| passed: "transport_run X K S ob n L r \<Longrightarrow> rt_transportSender r = Some s \<Longrightarrow>
    fst (Flush (rc_crypto X) K S reply (tr_BatchSize (cf_Transport (rt_cfg r))) s env w) = (res, e) \<Longrightarrow> e \<in> {None, Some SErrCancelled} \<Longrightarrow>
    transport_round X K S reply s ob env L r w = (env', L', r', w') \<Longrightarrow> transport_run X K S ob 0 L' r'"

lemma transport_round_delay:
  assumes "transport_round X K S reply s ob env L r w = (env', L', r', w')"
    and "fst (Flush (rc_crypto X) K S reply (tr_BatchSize (cf_Transport (rt_cfg r))) s env w) = (res, e)"
  shows "rt_transportFlushInterval r' = rt_transportFlushInterval r"
    and "lp_delay L' = next_delay (rt_transportFlushInterval r) (lp_delay L) (e \<noteq> None \<and> e \<noteq> Some SErrCancelled)"
proof -
  obtain s1 env1 w1 where fl: "Flush (rc_crypto X) K S reply (tr_BatchSize (cf_Transport (rt_cfg r))) s env w = ((res, e), s1, env1, w1)"
    using assms(2) by (metis prod.collapse)
  define LR where "LR = note_backpressure X ob (note_outcome X res e L (count_flush X res (r\<lparr>rt_transportSender := Some s1\<rparr>, w1)))"
  have "(L', r', w') = LR" using assms(1) fl by (simp add: transport_round_def Let_def LR_def)
  then have "r' = fst (snd LR)" "L' = fst LR" by (metis fst_conv snd_conv)+
  then show "rt_transportFlushInterval r' = rt_transportFlushInterval r"
    and "lp_delay L' = next_delay (rt_transportFlushInterval r) (lp_delay L) (e \<noteq> None \<and> e \<noteq> Some SErrCancelled)"
    by (simp_all add: LR_def note_outcome_delay)
qed

lemma min_double: "0 < i \<Longrightarrow> i \<le> Minute \<Longrightarrow> next_delay i (min (i * 2 ^ n) Minute) True = min (i * 2 ^ Suc n) Minute"
proof -
  assume i: "0 < i" "i \<le> Minute"
  let ?d = "min (i * 2 ^ n) Minute"
  have d: "0 < ?d" "?d \<le> Minute" using i by simp_all
  then have "wrap64 (?d * 2) = ?d * 2" by (intro wrap64_id) (simp_all add: Minute_def Second_def)
  then show ?thesis using d i by (simp add: next_delay_def min_def)
qed

text \<open>C27. Retries back off and stay within a minute: with a flush interval between 0 and a minute (which the configuration
  enforces), after \<open>n\<close> failed rounds in a row the loop waits the interval doubled \<open>n\<close> times, cut off at one minute; after a round
  that did not fail it waits the plain interval; only before the first round it does not wait.\<close>

theorem failed_rounds_back_off:
  assumes "transport_run X K S ob n L r" and "0 < rt_transportFlushInterval r" and "rt_transportFlushInterval r \<le> Minute"
  shows "n = 0 \<and> L = transport_start \<or> lp_delay L = min (rt_transportFlushInterval r * 2 ^ n) Minute"
  using assms
proof induction
  case (idle r)
  then show ?case by simp
next
  case (failed n L r s reply env w res e env' L' r' w')
  note d = transport_round_delay [OF failed.hyps(5,3)]
  let ?i = "rt_transportFlushInterval r"
  have i: "0 < ?i" "?i \<le> Minute" using failed.prems d(1) by simp_all
  have "lp_delay L' = next_delay ?i (lp_delay L) True" using d(2) failed.hyps(4) by simp
  moreover have "next_delay ?i (lp_delay L) True = min (?i * 2 ^ Suc n) Minute"
  proof (cases "n = 0 \<and> L = transport_start")
    case True
    have "next_delay ?i 0 True = next_delay ?i ?i True" using i by (simp add: next_delay_def)
    then show ?thesis using min_double [OF i, of 0] i True by (simp add: transport_start_def min_def)
  next
    case False
    then have "lp_delay L = min (?i * 2 ^ n) Minute" using failed.IH i d(1) False by auto
    then show ?thesis using min_double [OF i] by simp
  qed
  ultimately show ?case by (simp add: d(1))
next
  case (passed n L r s reply env w res e env' L' r' w')
  note d = transport_round_delay [OF passed.hyps(5,3)]
  have "lp_delay L' = rt_transportFlushInterval r" using d(2) passed.hyps(4) by (auto simp: next_delay_def)
  then show ?case using passed.prems d(1) by (simp add: min_def)
qed

section \<open>Concrete runs\<close>

definition toy_runtime_codec :: runtime_codec where
  "toy_runtime_codec = \<lparr>rc_crypto = toy_crypto, rc_payload = (\<lambda>_. Some ''p''), rc_record = (\<lambda>r. Some (rec_Kind r)),
     rc_unrecord = (\<lambda>_. None), rc_error = (\<lambda>_. ''e''),
     rc_detect = \<lparr>dc_marshal = (\<lambda>_. Some ''{}''), dc_quote = (\<lambda>s. s), dc_snapshot = (\<lambda>_. None)\<rparr>,
     rc_events = \<lparr>ec_marshal = (\<lambda>e. Some (ev_ID e)), ec_unmarshal = (\<lambda>_. Inl [])\<rparr>,
     rc_baseline = \<lparr>bc_payload = (\<lambda>_. None), bc_encode = (\<lambda>_. None), bc_decode = (\<lambda>_. None), bc_snapshot = (\<lambda>_. Inl True)\<rparr>,
     rc_parse = toy_codec\<rparr>"

definition toy_journal :: Journal where
  "toy_journal = \<lparr>jnl_path = ''/d/j'', jnl_file = True, jnl_sequence = 0, jnl_lastHash = []\<rparr>"

definition toy_outbox :: Outbox where "toy_outbox = \<lparr>ob_pendingDir = ''/d/p'', ob_deadDir = ''/d/q''\<rparr>"

definition toy_runtime :: Runtime where
  "toy_runtime = (new_runtime (Config_Default\<lparr>cf_AgentID := ''a1'', cf_TenantID := ''t1''\<rparr>) ''h'' toy_journal 0)
     \<lparr>rt_transportOutbox := Some toy_outbox, rt_transportFlushInterval := 2 * Second\<rparr>"

definition toy_runtime_world :: world where
  "toy_runtime_world = \<lparr>files = [(''/d/j'', \<lparr>content = [], perm = 0, mtime = 0\<rparr>)], faults = [], events = [], clock = 5, clock_steps = []\<rparr>"

definition toy_proc_draw :: proc_draw where
  "toy_proc_draw = \<lparr>pd_id = ''e1'', pd_now1 = 5, pd_now2 = 6, pd_wall = 7, pd_finding = (\<lambda>n. (''f'', 8))\<rparr>"

lemma toy_names:
  assumes "plain_comp n"
  shows "pending_file toy_outbox n = ''/d/p/'' @ n"
  using Join_file [OF _ assms, of "''/d/p''"] by (simp add: toy_outbox_def clean_comps_def)

lemma toy_apart: "apart toy_runtime ''/d/j''" "apart toy_runtime ''/d/cursors/sshd.json''"
  by (auto simp: apart_def toy_runtime_def toy_names)

lemma toy_log: "log_of toy_runtime = ''/d/j''" "fs_content (files toy_runtime_world) ''/d/j'' = Some []"
  by (simp_all add: toy_runtime_def new_runtime_def toy_journal_def toy_runtime_world_def fs_content_def fs_get_def)


definition toy_native_source :: native_source where
  "toy_native_source = \<lparr>nv_kind = ''journald'', nv_id = ''sshd'', nv_cursor = toy_cursor\<rparr>"

definition toy_batch :: batch where
  "toy_batch = \<lparr>bt_events = [zero_Event], bt_errors = [], bt_commit = Some (new_cursor [] []), bt_rnd = ''42''\<rparr>"

lemma cursor_never_passes_evidence_witness:
  "\<exists>w'. crash_safe (\<lambda>u. fs_content u ''/d/cursors/sshd.json'' = None \<or>
     (\<exists>c. fs_content u ''/d/j'' = Some c \<and> logged toy_runtime_codec ''event'' (PEvent (local_event toy_proc_draw toy_runtime zero_Event)) c))
     toy_runtime_world w' \<and> w' = snd (snd (poll_source toy_runtime_codec toy_cursor_codec toy_batch (\<lambda>_. toy_proc_draw) toy_native_source
       toy_runtime toy_runtime_world))"
proof -
  obtain s' r' w' where run: "poll_source toy_runtime_codec toy_cursor_codec toy_batch (\<lambda>_. toy_proc_draw) toy_native_source
       toy_runtime toy_runtime_world = (s', r', w')" by (metis prod_cases3)
  have p: "cf_path (nv_cursor toy_native_source) = ''/d/cursors/sshd.json''" by code_simp
  have t: "filepath_Join [filepath_Dir ''/d/cursors/sshd.json'', ''.cursor-'' @ bt_rnd toy_batch @ ''.tmp''] = ''/d/cursors/.cursor-42.tmp''"
    by code_simp
  have n: "fs_content (files toy_runtime_world) ''/d/cursors/sshd.json'' = None" by code_simp
  have b: "bt_events toy_batch = [zero_Event]" by (simp add: toy_batch_def)
  from cursor_never_passes_evidence [OF run, of "[]"]
  have "crash_safe (\<lambda>u. fs_content u ''/d/cursors/sshd.json'' = None \<or>
     (\<exists>c. fs_content u ''/d/j'' = Some c \<and> logged toy_runtime_codec ''event'' (PEvent (local_event toy_proc_draw toy_runtime zero_Event)) c))
     toy_runtime_world w'"
    unfolding p t toy_log n b using toy_apart toy_log by simp
  with run show ?thesis by auto
qed

definition toy_send_codec :: send_codec where
  "toy_send_codec = \<lparr>sc_events = rc_events toy_runtime_codec, sc_mapped = (\<lambda>_. Inl []), sc_quote = (\<lambda>s. s)\<rparr>"

definition toy_sender :: Sender where
  "toy_sender = \<lparr>sd_options = sender_options Config_Default Second 0 0\<lparr>so_AutoRenew := False\<rparr>, sd_outbox = toy_outbox,
     sd_privateKey = [], sd_lastRenewalCheck = 0\<rparr>"

text \<open>One round in which the directory of the outbox cannot be read.\<close>

lemma failed_rounds_back_off_witness:
  "lp_delay (fst (snd (transport_round toy_runtime_codec demo_pki toy_send_codec None toy_sender toy_outbox \<lparr>fe_wire = [], fe_sent = []\<rparr>
     transport_start (toy_runtime\<lparr>rt_transportSender := Some toy_sender\<rparr>) (toy_runtime_world\<lparr>faults := [FErr]\<rparr>)))) = 4 * Second"
proof -
  let ?r = "toy_runtime\<lparr>rt_transportSender := Some toy_sender\<rparr>" and ?w = "toy_runtime_world\<lparr>faults := [FErr]\<rparr>"
  let ?env = "\<lparr>fe_wire = [], fe_sent = []\<rparr>"
  obtain env' L' r' w' where round: "transport_round toy_runtime_codec demo_pki toy_send_codec None toy_sender toy_outbox ?env transport_start ?r ?w
      = (env', L', r', w')" by (metis prod_cases4)
  have s: "rt_transportSender ?r = Some toy_sender" by simp
  have size: "tr_BatchSize (cf_Transport (rt_cfg toy_runtime)) = 100"
    by (simp add: toy_runtime_def new_runtime_def Config_Default_def)
  have fl: "\<exists>res. fst (Flush (rc_crypto toy_runtime_codec) demo_pki toy_send_codec None (tr_BatchSize (cf_Transport (rt_cfg ?r))) toy_sender ?env ?w)
      = (res, Some (SErrOutbox (OErrReadDir ErrIO)))"
    by (simp add: Flush_def maybeRenewCertificate_def toy_sender_def Peek_def os_ReadDir_def next_fault_def size)
  then obtain res where fl: "fst (Flush (rc_crypto toy_runtime_codec) demo_pki toy_send_codec None (tr_BatchSize (cf_Transport (rt_cfg ?r))) toy_sender ?env ?w)
      = (res, Some (SErrOutbox (OErrReadDir ErrIO)))" by blast
  have run: "transport_run toy_runtime_codec demo_pki toy_send_codec toy_outbox (Suc 0) L' r'"
    by (rule transport_run.failed [OF transport_run.idle s fl _ round]) simp
  have i: "rt_transportFlushInterval r' = 2 * Second"
    using transport_round_delay(1) [OF round fl] by (simp add: toy_runtime_def)
  have "lp_delay L' = 4 * Second" using failed_rounds_back_off [OF run] by (simp add: i duration_defs)
  then show ?thesis by (simp add: round)
qed

end
