(* ===== verification/Go_Convert.thy ===== *)
theory Go_Convert
  imports Go_Text Go_Time
begin

text \<open>
  The parts of \<open>strconv\<close>, \<open>encoding/hex\<close>, \<open>unicode/utf8\<close>, \<open>regexp\<close> and \<open>time\<close> that the native collectors use: integers with
  and without a base prefix, quoted strings, hexadecimal text, all matches of an expression with their groups.
\<close>

section \<open>Integers\<close>

definition max_int :: int where "max_int = 2 ^ 63 - 1"
definition min_int :: int where "min_int = - (2 ^ 63)"

text \<open>The outcome of \<open>ParseUint\<close> and \<open>ParseInt\<close>: a syntax error returns 0, a range error the nearest bound.\<close>

datatype numeral = NumSyntax | NumRange int | NumOk int

fun num_value :: "numeral \<Rightarrow> int" where
  "num_value NumSyntax = 0"
| "num_value (NumRange n) = n"
| "num_value (NumOk n) = n"

definition digit_value :: "char \<Rightarrow> int option" where
  "digit_value c =
     (if CHR ''0'' \<le> c \<and> c \<le> CHR ''9'' then Some (of_char c - of_char (CHR ''0''))
      else let l = lower_char c in if CHR ''a'' \<le> l \<and> l \<le> CHR ''z'' then Some (of_char l - of_char (CHR ''a'') + 10) else None)"

text \<open>The loop of \<open>ParseUint\<close> with 64 bits; \<open>base0\<close> says that underscores may separate digits. A range error ends it at once.\<close>

fun uint_digits :: "int \<Rightarrow> bool \<Rightarrow> int \<Rightarrow> string \<Rightarrow> numeral" where
  "uint_digits base base0 n [] = NumOk n"
| "uint_digits base base0 n (c # cs) =
     (if c = CHR ''_'' \<and> base0 then uint_digits base base0 n cs
      else case digit_value c of
             None \<Rightarrow> NumSyntax
           | Some d \<Rightarrow> if base \<le> d then NumSyntax
                       else if 2 ^ 64 \<le> n * base + d then NumRange (2 ^ 64 - 1)
                       else uint_digits base base0 (n * base + d) cs)"

text \<open>\<open>underscoreOK\<close>: underscores stand between digits or after the prefix. \<open>saw\<close> is a digit, an underscore or anything else.\<close>

datatype seen = SawStart | SawDigit | SawUnderscore | SawOther

fun underscores_ok :: "bool \<Rightarrow> seen \<Rightarrow> string \<Rightarrow> bool" where
  "underscores_ok hex saw [] = (saw \<noteq> SawUnderscore)"
| "underscores_ok hex saw (c # cs) =
     (if re_digit c \<or> (hex \<and> CHR ''a'' \<le> lower_char c \<and> lower_char c \<le> CHR ''f'') then underscores_ok hex SawDigit cs
      else if c = CHR ''_'' then saw = SawDigit \<and> underscores_ok hex SawUnderscore cs
      else saw \<noteq> SawUnderscore \<and> underscores_ok hex SawOther cs)"

definition underscoreOK :: "string \<Rightarrow> bool" where
  "underscoreOK s0 =
     (let s = (if HasPrefix s0 ''-'' \<or> HasPrefix s0 ''+'' then tl s0 else s0)
      in if 2 \<le> length s \<and> s ! 0 = CHR ''0'' \<and> lower_char (s ! 1) \<in> {CHR ''b'', CHR ''o'', CHR ''x''}
         then underscores_ok (lower_char (s ! 1) = CHR ''x'') SawDigit (drop 2 s)
         else underscores_ok False SawStart s)"

text \<open>\<open>ParseUint(s, 0, 64)\<close> and \<open>ParseUint(s, 10, 64)\<close>\<close>

definition base_prefix :: "string \<Rightarrow> int \<times> string" where
  "base_prefix s =
     (if \<not> HasPrefix s ''0'' then (10, s)
      else if 3 \<le> length s \<and> lower_char (s ! 1) = CHR ''b'' then (2, drop 2 s)
      else if 3 \<le> length s \<and> lower_char (s ! 1) = CHR ''o'' then (8, drop 2 s)
      else if 3 \<le> length s \<and> lower_char (s ! 1) = CHR ''x'' then (16, drop 2 s)
      else (8, tl s))"

definition ParseUint0 :: "string \<Rightarrow> numeral" where
  "ParseUint0 s =
     (if s = [] then NumSyntax
      else let (base, ds) = base_prefix s
           in case uint_digits base True 0 ds of
                NumOk n \<Rightarrow> if CHR ''_'' \<in> set ds \<and> \<not> underscoreOK s then NumSyntax else NumOk n
              | r \<Rightarrow> r)"

definition ParseUint10 :: "string \<Rightarrow> numeral" where
  "ParseUint10 s = (if s = [] then NumSyntax else uint_digits 10 False 0 s)"

lemma digit_value_nonneg: "digit_value c = Some d \<Longrightarrow> 0 \<le> d"
proof -
  have "(of_char (CHR ''0'') :: int) \<le> of_char c" if "CHR ''0'' \<le> c" for c
    using that unfolding less_eq_char_def by (metis of_nat_of_char of_nat_le_iff)
  moreover have "(of_char (CHR ''a'') :: int) \<le> of_char c" if "CHR ''a'' \<le> c" for c
    using that unfolding less_eq_char_def by (metis of_nat_of_char of_nat_le_iff)
  ultimately show "digit_value c = Some d \<Longrightarrow> 0 \<le> d"
    by (auto simp: digit_value_def Let_def split: if_splits) (smt (verit))+
qed

lemma uint_digits_nonneg: "0 \<le> n \<Longrightarrow> 0 \<le> base \<Longrightarrow> 0 \<le> num_value (uint_digits base b0 n s)"
proof (induction base b0 n s rule: uint_digits.induct)
  case (2 base b0 n c cs)
  have "0 \<le> n * base + d" if "digit_value c = Some d" for d
    using digit_value_nonneg [OF that] 2(3,4) by simp
  with 2 show ?case by (auto split: option.split)
qed simp

text \<open>What a parser of a signed number returns is a 64-bit integer.\<close>

definition signed_numeral :: "bool \<Rightarrow> int \<Rightarrow> numeral" where
  "signed_numeral neg u =
     (if \<not> neg \<and> 2 ^ 63 \<le> u then NumRange max_int
      else if neg \<and> 2 ^ 63 < u then NumRange min_int
      else NumOk (if neg then - u else u))"

lemma signed_numeral_range: "0 \<le> u \<Longrightarrow> min_int \<le> num_value (signed_numeral neg u) \<and> num_value (signed_numeral neg u) \<le> max_int"
  by (cases neg) (simp_all add: signed_numeral_def min_int_def max_int_def)

definition with_sign :: "(string \<Rightarrow> numeral) \<Rightarrow> string \<Rightarrow> numeral" where
  "with_sign parse s =
     (let neg = HasPrefix s ''-''; ds = (if neg \<or> HasPrefix s ''+'' then tl s else s)
      in if s = [] then NumSyntax
         else case parse ds of NumSyntax \<Rightarrow> NumSyntax | r \<Rightarrow> signed_numeral neg (num_value r))"

definition ParseInt0 :: "string \<Rightarrow> numeral" where "ParseInt0 = with_sign ParseUint0"
definition ParseInt10 :: "string \<Rightarrow> numeral" where "ParseInt10 = with_sign ParseUint10"

text \<open>\<open>strconv.Atoi\<close> on a 64-bit system.\<close>

definition Atoi :: "string \<Rightarrow> numeral" where "Atoi = ParseInt10"

lemma with_sign_range:
  assumes "\<And>ds. 0 \<le> num_value (parse ds)"
  shows "min_int \<le> num_value (with_sign parse s) \<and> num_value (with_sign parse s) \<le> max_int"
proof -
  let ?ds = "if HasPrefix s ''-'' \<or> HasPrefix s ''+'' then tl s else s"
  have z: "min_int \<le> 0 \<and> 0 \<le> max_int" by (simp add: min_int_def max_int_def)
  show ?thesis
  proof (cases "s = [] \<or> parse ?ds = NumSyntax")
    case True
    then have "with_sign parse s = NumSyntax" by (auto simp: with_sign_def Let_def)
    with z show ?thesis by simp
  next
    case False
    then have "with_sign parse s = signed_numeral (HasPrefix s ''-'') (num_value (parse ?ds))"
      by (cases "parse ?ds") (simp_all add: with_sign_def Let_def)
    with signed_numeral_range [OF assms] show ?thesis by simp
  qed
qed

lemma ParseUint0_nonneg: "0 \<le> num_value (ParseUint0 s)"
proof -
  obtain b ds where b: "base_prefix s = (b, ds)" by (rule prod.exhaust)
  then have "0 \<le> b" by (auto simp: base_prefix_def split: if_splits)
  from uint_digits_nonneg [OF order.refl this, of True ds] b show ?thesis
    by (auto simp: ParseUint0_def split: numeral.split)
qed

lemma ParseUint10_nonneg: "0 \<le> num_value (ParseUint10 s)"
  using uint_digits_nonneg [of 0 10 False s] by (simp add: ParseUint10_def)

lemmas ParseInt_ranges = with_sign_range [OF ParseUint0_nonneg, folded ParseInt0_def] with_sign_range [OF ParseUint10_nonneg, folded ParseInt10_def]

section \<open>Hexadecimal text\<close>

text \<open>\<open>hex.DecodeString\<close>\<close>

definition hex_digit_value :: "char \<Rightarrow> nat option" where
  "hex_digit_value c = (case digit_value c of Some d \<Rightarrow> if d < 16 then Some (nat d) else None | None \<Rightarrow> None)"

fun hex_DecodeString :: "string \<Rightarrow> string option" where
  "hex_DecodeString [] = Some []"
| "hex_DecodeString [c] = None"
| "hex_DecodeString (a # b # cs) =
     (case (hex_digit_value a, hex_digit_value b, hex_DecodeString cs) of
        (Some x, Some y, Some s) \<Rightarrow> Some (char_of (16 * x + y) # s)
      | _ \<Rightarrow> None)"

lemma hex_digit_value_digit: "n < 16 \<Longrightarrow> hex_digit_value (hex_digit n) = Some n"
proof -
  have "list_all (\<lambda>n. hex_digit_value (hex_digit n) = Some n) [0..<16]" by code_simp
  then show "n < 16 \<Longrightarrow> hex_digit_value (hex_digit n) = Some n" by (simp add: list_all_iff)
qed

lemma of_char_div_16: "(of_char c :: nat) div 16 < 16"
proof -
  have "(of_char c :: nat) < 256" by (rule of_char_less_256)
  then show ?thesis by linarith
qed

lemma hex_Decode_Encode: "hex_DecodeString (hex_EncodeToString s) = Some s"
proof (induction s)
  case (Cons c s)
  have "16 * (of_char c div 16) + of_char c mod 16 = (of_char c :: nat)" by simp
  with Cons show ?case
    by (simp add: hex_EncodeToString_def hex_byte_def hex_digit_value_digit of_char_div_16)
qed (simp add: hex_EncodeToString_def)

section \<open>UTF-8\<close>

text \<open>The encoding of a code point (surrogates and values beyond the range become U+FFFD), and the size of the character a text begins with
  (0 when the bytes are no character).\<close>

definition valid_rune :: "nat \<Rightarrow> bool" where
  "valid_rune r = (r < 0xD800 \<or> (0xDFFF < r \<and> r \<le> 0x10FFFF))"

definition AppendRune :: "nat \<Rightarrow> string" where
  "AppendRune r0 =
     (let r = (if valid_rune r0 then r0 else 0xFFFD); tail = (\<lambda>k. char_of (128 + r div 64 ^ k mod 64))
      in if r < 0x80 then [char_of r]
         else if r < 0x800 then [char_of (0xC0 + r div 64), tail 0]
         else if r < 0x10000 then [char_of (0xE0 + r div 4096), tail 1, tail 0]
         else [char_of (0xF0 + r div 262144), tail 2, tail 1, tail 0])"

definition between :: "nat \<Rightarrow> nat \<Rightarrow> char \<Rightarrow> bool" where
  "between a b c = (a \<le> of_char c \<and> of_char c \<le> b)"

definition follows :: "(nat \<times> nat) list \<Rightarrow> string \<Rightarrow> bool" where
  "follows rs s = (length rs \<le> length s \<and> list_all (\<lambda>((a, b), c). between a b c) (zip rs s))"

definition rune_size :: "string \<Rightarrow> nat" where
  "rune_size s =
     (case s of [] \<Rightarrow> 0
      | c # cs \<Rightarrow>
          (let t = (0x80, 0xBF); h = (of_char c :: nat)
           in if h < 0x80 then 1
              else if 0xC2 \<le> h \<and> h \<le> 0xDF \<and> follows [t] cs then 2
              else if h = 0xE0 \<and> follows [(0xA0, 0xBF), t] cs then 3
              else if h = 0xED \<and> follows [(0x80, 0x9F), t] cs then 3
              else if 0xE1 \<le> h \<and> h \<le> 0xEF \<and> h \<noteq> 0xED \<and> follows [t, t] cs then 3
              else if h = 0xF0 \<and> follows [(0x90, 0xBF), t, t] cs then 4
              else if 0xF1 \<le> h \<and> h \<le> 0xF3 \<and> follows [t, t, t] cs then 4
              else if h = 0xF4 \<and> follows [(0x80, 0x8F), t, t] cs then 4
              else 0))"

section \<open>Quoted strings\<close>

fun hex_number :: "nat \<Rightarrow> nat \<Rightarrow> string \<Rightarrow> (nat \<times> string) option" where
  "hex_number 0 v s = Some (v, s)"
| "hex_number (Suc n) v [] = None"
| "hex_number (Suc n) v (c # cs) =
     (case hex_digit_value c of None \<Rightarrow> None | Some x \<Rightarrow> hex_number n (16 * v + x) cs)"

definition octal_value :: "char \<Rightarrow> nat option" where
  "octal_value c = (case digit_value c of Some d \<Rightarrow> if d < 8 then Some (nat d) else None | None \<Rightarrow> None)"

definition simple_escape :: "char \<Rightarrow> char option" where
  "simple_escape c = map_of
     [(CHR ''a'', CHR 0x07), (CHR ''b'', CHR 0x08), (CHR ''f'', CHR 0x0C), (CHR ''n'', CHR 0x0A), (CHR ''r'', CHR 0x0D),
      (CHR ''t'', CHR 0x09), (CHR ''v'', CHR 0x0B), (CHR 0x5C, CHR 0x5C), (CHR 0x22, CHR 0x22)] c"

text \<open>\<open>UnquoteChar\<close> inside double quotes: the bytes of the first character and the rest.\<close>

definition unquote_escape :: "string \<Rightarrow> (string \<times> string) option" where
  "unquote_escape s =
     (case s of [] \<Rightarrow> None
      | c # cs \<Rightarrow>
          (case simple_escape c of
             Some d \<Rightarrow> Some ([d], cs)
           | None \<Rightarrow>
               if c = CHR ''x'' then map_option (\<lambda>(v, r). ([char_of v], r)) (hex_number 2 0 cs)
               else if c = CHR ''u'' \<or> c = CHR ''U''
               then (case hex_number (if c = CHR ''u'' then 4 else 8) 0 cs of
                       None \<Rightarrow> None
                     | Some (v, r) \<Rightarrow> if valid_rune v then Some (AppendRune v, r) else None)
               else (case map octal_value (take 3 s) of
                       [Some x, Some y, Some z] \<Rightarrow>
                         if 64 * x + 8 * y + z \<le> 255 then Some ([char_of (64 * x + 8 * y + z)], drop 3 s) else None
                     | _ \<Rightarrow> None)))"

definition unquote_char :: "string \<Rightarrow> (string \<times> string) option" where
  "unquote_char s =
     (case s of [] \<Rightarrow> None
      | c # cs \<Rightarrow>
          if c = newline then None
          else if c = CHR 0x5C then unquote_escape cs
          else if rune_size s = 0 then Some (AppendRune 0xFFFD, cs)
          else Some (take (rune_size s) s, drop (rune_size s) s))"

lemma hex_number_shorter: "hex_number n v s = Some (w, r) \<Longrightarrow> length r \<le> length s"
  by (induction n v s rule: hex_number.induct) (auto split: option.splits)

lemma unquote_escape_shorter: "unquote_escape s = Some (x, r) \<Longrightarrow> length r \<le> length s"
  by (auto simp: unquote_escape_def dest!: hex_number_shorter split: list.splits option.splits if_splits prod.splits)

lemma unquote_char_shorter: "unquote_char s = Some (x, r) \<Longrightarrow> length r < length s"
  by (auto simp: unquote_char_def dest: unquote_escape_shorter split: list.splits if_splits)

text \<open>The loop of \<open>strconv.Unquote\<close> on what follows the opening quote: the closing quote must end the text.\<close>

function unquote_loop :: "string \<Rightarrow> string option" where
  "unquote_loop s =
     (if s = [] then None
      else if hd s = CHR 0x22 then (if tl s = [] then Some [] else None)
      else case unquote_char s of
             None \<Rightarrow> None
           | Some (x, r) \<Rightarrow> map_option ((@) x) (unquote_loop r))"
  by pat_completeness auto
termination by (relation "measure length") (auto dest: unquote_char_shorter)

declare unquote_loop.simps [simp del]

definition Unquote :: "string \<Rightarrow> string option" where
  "Unquote s = (case s of [] \<Rightarrow> None | c # cs \<Rightarrow> if c = CHR 0x22 then unquote_loop cs else None)"

section \<open>All matches with their groups\<close>

text \<open>\<open>FindAllStringSubmatch\<close> without a limit; an empty match directly after a match does not count.\<close>

function submatches_from :: "regex \<Rightarrow> bool \<Rightarrow> char option \<Rightarrow> string \<Rightarrow> match list" where
  "submatches_from r fresh prev s =
     (case find_from r prev s of
        None \<Rightarrow> []
      | Some m \<Rightarrow>
          let q = mt_end m; rest = drop (length (mt_before m)) s
          in if mt_text m \<noteq> [] then m # submatches_from r False (pos_prev q) (pos_rest q)
             else (if fresh \<or> mt_before m \<noteq> [] then [m] else [])
                  @ (case rest of [] \<Rightarrow> [] | c # cs \<Rightarrow> submatches_from r True (Some c) cs))"
  by pat_completeness auto
termination
proof (relation "measure (\<lambda>(r, fresh, prev, s). length s)", goal_cases)
  case 1
  then show ?case by simp
next
  case (2 r fresh prev s m q rest)
  then show ?case by (auto dest: find_from_shorter)
next
  case (3 r fresh prev s m q rest c cs)
  then have "length cs < length (drop (length (mt_before m)) s)" by (metis length_Cons lessI)
  then show ?case by simp
qed

declare submatches_from.simps [simp del]

definition FindAllStringSubmatch :: "regex \<Rightarrow> string \<Rightarrow> (nat \<Rightarrow> string) list" where
  "FindAllStringSubmatch r s = map (\<lambda>m n. group n m) (submatches_from r True None s)"

section \<open>Times\<close>

text \<open>\<open>time.Unix(sec, nsec)\<close> for \<open>nsec\<close> within a second: the seconds are 64-bit.\<close>

definition time_Unix :: "int \<Rightarrow> int \<Rightarrow> gtime" where
  "time_Unix sec nsec = wrap64 (sec + 62135596800) * Second + nsec"

lemma Unix_time_Unix:
  assumes "0 \<le> nsec" "nsec < Second" "0 \<le> sec" "sec < 2 ^ 62"
  shows "Unix (time_Unix sec nsec) = sec"
proof -
  have "wrap64 (sec + 62135596800) = sec + 62135596800" using assms by (intro wrap64_id) auto
  then have "time_Unix sec nsec div Second = sec + 62135596800"
    using assms by (simp add: time_Unix_def Second_def)
  then show ?thesis by (simp add: Unix_def)
qed

section \<open>Examples\<close>

lemma convert_examples:
  "ParseInt0 ''0x1F'' = NumOk 31" "ParseInt0 ''-0b101'' = NumOk (-5)" "ParseInt0 ''1_000'' = NumOk 1000"
  "ParseInt0 ''08'' = NumSyntax" "ParseInt10 ''08'' = NumOk 8" "ParseInt10 ''9223372036854775808'' = NumRange (2 ^ 63 - 1)"
  "Unquote [CHR 0x22, CHR ''a'', CHR 0x5C, CHR ''n'', CHR 0x22] = Some [CHR ''a'', newline]"
  "Unquote [CHR 0x22, CHR ''a'', CHR 0x22, CHR ''b'', CHR 0x22] = None"
  "hex_DecodeString ''2F6c'' = Some ''/l''"
  by code_simp+

end
