(* ===== verification/Auditd.thy ===== *)
theory Auditd
  imports Go_Convert Tailer Runtime
begin

text \<open>
  The native source for the Linux audit log: \<open>internal/collector/native/auditd.go\<close>, with the helpers it shares with the other
  native sources (\<open>types.go\<close>, \<open>firstValue\<close> and \<open>flexibleInt\<close> of \<open>windows_eventlog.go\<close>). The log is read from the position in
  the cursor file; what a poll returns is a \<open>batch\<close>, which the runtime processes and acknowledges (\<open>Runtime\<close>). The device and
  inode of the file, the cancellation of the context and the texts of errors are arguments of a poll; a file does not change
  while it is polled, and reading it is one call. Go maps are association lists.
\<close>

section \<open>Shared helpers\<close>

fun firstValue :: "string list \<Rightarrow> string" where
  "firstValue [] = []"
| "firstValue (v # vs) = (if TrimSpace v \<noteq> [] then TrimSpace v else firstValue vs)"

definition flexibleInt :: "string \<Rightarrow> int" where
  "flexibleInt value0 =
     (let value = TrimSpace value0
      in if value = [] \<or> value = ''-'' then 0
         else case ParseInt0 value of NumOk n \<Rightarrow> n | _ \<Rightarrow> num_value (ParseInt10 value))"

definition deterministicEventID :: "crypto \<Rightarrow> string list \<Rightarrow> string" where
  "deterministicEventID C parts = ''evt_'' @ sha_hex C (concat (map (\<lambda>p. CHR 0x00 # p) parts))"

text \<open>Reading a key that a map does not have gives the empty string.\<close>

definition lookup :: "(string \<times> string) list \<Rightarrow> string \<Rightarrow> string" where
  "lookup m k = (case map_of m k of None \<Rightarrow> [] | Some v \<Rightarrow> v)"

section \<open>The fields of a record\<close>

definition quoted_value :: "char \<Rightarrow> regex" where
  "quoted_value q = RSeqs [RByte q, RStar True (RAlt (RSeq (RByte (CHR 0x5C)) RDot) (RNoneOf [q])), RByte q]"

definition auditKeyValue :: regex where
  "auditKeyValue = RSeqs [RGroup 1 (RPlus (RChar word_char)), RByte (CHR ''=''),
     RGroup 2 (RAlts [quoted_value (CHR 0x22), quoted_value (CHR 0x27), RPlus RNotSpace])]"

definition auditMessageContext :: regex where
  "auditMessageContext = RSeqs [RLit ''audit('', RGroup 1 (RPlus RDigit), ROpt (RSeq (RByte (CHR ''.'')) (RGroup 2 (RPlus RDigit))),
     RByte (CHR '':''), RGroup 3 (RPlus RDigit), RByte (CHR '')'')]"

definition auditArgumentKey :: regex where
  "auditArgumentKey = RSeqs [RBegin, RByte (CHR ''a''), RGroup 1 (RPlus RDigit), REnd]"

definition enclosed :: "char \<Rightarrow> string \<Rightarrow> bool" where
  "enclosed q v = (2 \<le> length v \<and> hd v = q \<and> last v = q)"

definition trim_char :: "char \<Rightarrow> string \<Rightarrow> string" where
  "trim_char q v = rev (dropWhile (\<lambda>c. c = q) (rev (dropWhile (\<lambda>c. c = q) v)))"

definition field_value :: "string \<Rightarrow> string" where
  "field_value raw =
     (let value = TrimSpace raw
      in if enclosed (CHR 0x22) value then (case Unquote value of Some decoded \<Rightarrow> decoded | None \<Rightarrow> value)
         else if enclosed (CHR 0x27) value then trim_char (CHR 0x27) value
         else value)"

definition parseAuditFields :: "string \<Rightarrow> (string \<times> string) list" where
  "parseAuditFields line =
     fold (\<lambda>g m. AList.update (g 1) (field_value (g 2)) m) (FindAllStringSubmatch auditKeyValue line) []"

definition auditEvidenceFields :: "(string \<times> string) list \<Rightarrow> (string \<times> string) list" where
  "auditEvidenceFields fs =
     filter (\<lambda>(key, _). \<not> MatchString auditArgumentKey key \<and> ToLower key \<noteq> ''cmd'' \<and> ToLower key \<noteq> ''command'' \<and> ToLower key \<noteq> ''proctitle'') fs"

section \<open>Interpretation of the fields\<close>

text \<open>The time and the serial number; \<open>now\<close> is what \<open>time.Now\<close> gives.\<close>

definition auditTimestamp :: "gtime \<Rightarrow> string \<Rightarrow> gtime \<times> string" where
  "auditTimestamp now value =
     (case FindStringSubmatch auditMessageContext value of
        None \<Rightarrow> (now, ''unknown'')
      | Some g \<Rightarrow>
          (let fraction = take 9 (g 2);
               nanoseconds = (if g 2 = [] then 0 else num_value (ParseInt10 (fraction @ replicate (9 - length fraction) (CHR ''0''))))
           in (time_Unix (num_value (ParseInt10 (g 1))) nanoseconds, g 3)))"

definition decodeAuditHex :: "string \<Rightarrow> string" where
  "decodeAuditHex value0 =
     (let value = TrimSpace value0
      in if value = [] \<or> odd (length value) \<or> \<not> list_all is_hex_char value then []
         else case hex_DecodeString value of
                None \<Rightarrow> []
              | Some decoded \<Rightarrow> TrimSpace (ReplaceChar (CHR 0x00) (CHR '' '') decoded))"

text \<open>The arguments \<open>a0\<close>, \<open>a1\<close>, \<dots> in the order of their numbers.\<close>

definition audit_arguments :: "(string \<times> string) list \<Rightarrow> (int \<times> string) list" where
  "audit_arguments fs =
     List.map_filter (\<lambda>(key, value). map_option (\<lambda>g. (num_value (Atoi (g 1)), value)) (FindStringSubmatch auditArgumentKey key)) fs"

definition auditCommandLine :: "(string \<times> string) list \<Rightarrow> string" where
  "auditCommandLine fs =
     (let command = firstValue [lookup fs ''cmd'', lookup fs ''command'']; proctitle = decodeAuditHex (lookup fs ''proctitle'')
      in if command \<noteq> [] then command
         else if proctitle \<noteq> [] then proctitle
         else Join (map snd (sort_key fst (audit_arguments fs))) '' '')"

definition auditSucceeded :: "(string \<times> string) list \<Rightarrow> bool" where
  "auditSucceeded fs =
     (let value = ToLower (firstValue [lookup fs ''success'', lookup fs ''res'', lookup fs ''result''])
      in \<not> List.member [''no'', ''failed'', ''failure'', ''0''] value)"

definition is_anomaly :: "string \<Rightarrow> bool" where
  "is_anomaly typeName = (HasPrefix typeName ''ANOM_'' \<or> HasPrefix typeName ''RESP_'')"

definition auditEventKind :: "string \<Rightarrow> (string \<times> string) list \<Rightarrow> string" where
  "auditEventKind typeName fs =
     (if List.member [''EXECVE'', ''USER_CMD''] typeName then ''process.start''
      else if typeName = ''SYSCALL'' then ''process.syscall''
      else if List.member [''PATH'', ''CWD''] typeName then ''file.access''
      else if List.member [''USER_AUTH'', ''USER_LOGIN'', ''USER_ACCT'', ''CRED_ACQ'', ''CRED_DISP''] typeName
      then (if auditSucceeded fs then ''auth.success'' else ''auth.failure'')
      else if typeName = ''SERVICE_START'' then ''service.start''
      else if typeName = ''SERVICE_STOP'' then ''service.stop''
      else if typeName = ''CONFIG_CHANGE'' then ''security.audit_config''
      else if List.member [''AVC'', ''USER_AVC'', ''SELINUX_ERR''] typeName then ''security.selinux_denial''
      else if typeName = ''ADD_USER'' then ''identity.account_create''
      else if typeName = ''DEL_USER'' then ''identity.account_delete''
      else if List.member [''ADD_GROUP'', ''GRP_MGMT''] typeName then ''identity.group_modify''
      else if is_anomaly typeName then ''security.anomaly''
      else ''linux.audit'')"

definition auditSeverity :: "string \<Rightarrow> (string \<times> string) list \<Rightarrow> Severity" where
  "auditSeverity typeName fs =
     (if List.member [''AVC'', ''USER_AVC'', ''SELINUX_ERR'', ''CONFIG_CHANGE''] typeName then SeverityHigh
      else if List.member [''ADD_USER'', ''DEL_USER'', ''ADD_GROUP'', ''GRP_MGMT'', ''SERVICE_START'', ''SERVICE_STOP''] typeName then SeverityMedium
      else if is_anomaly typeName then SeverityHigh
      else if \<not> auditSucceeded fs then SeverityMedium
      else SeverityInfo)"

definition auditFileOperation :: "string \<Rightarrow> string \<Rightarrow> string" where
  "auditFileOperation nameType kind =
     (let t = ToUpper nameType
      in if t = ''CREATE'' then ''create''
         else if t = ''DELETE'' then ''delete''
         else if t = ''NORMAL'' \<or> t = ''PARENT'' then ''access''
         else if kind = ''file.access'' then ''access''
         else [])"

definition auditExecutablePath :: "string \<Rightarrow> bool" where
  "auditExecutablePath path =
     (path \<noteq> [] \<and>
      (HasPrefix path ''/bin/'' \<or> HasPrefix path ''/sbin/'' \<or> HasPrefix path ''/usr/bin/'' \<or> HasPrefix path ''/usr/sbin/''
       \<or> List.member [''.sh'', ''.py'', ''.pl'', ''.so'', ''.bin'', ''.run''] (ToLower (filepath_Ext path))))"

definition auditDirection :: "string \<Rightarrow> string" where
  "auditDirection kind = (if HasPrefix kind ''auth.'' then ''inbound'' else [])"

section \<open>Events\<close>

definition audit_attributes :: "string \<Rightarrow> string \<Rightarrow> string \<Rightarrow> (string \<times> string) list \<Rightarrow> gmap" where
  "audit_attributes typeName serial lineHash fs =
     [(''audit'', VMap [(''type'', VString typeName), (''serial'', VString serial), (''line_sha256'', VString lineHash),
        (''fields'', VComposite (Some (VMap (map (\<lambda>(k, v). (k, VString v)) (auditEvidenceFields fs)))))])]"

definition audit_event :: "crypto \<Rightarrow> gtime \<Rightarrow> string \<Rightarrow> string \<Rightarrow> string \<Rightarrow> Event" where
  "audit_event C now sourceID path line =
     (let fs = parseAuditFields line;
          typeName = ToUpper (lookup fs ''type'');
          (timestamp, serial) = auditTimestamp now (lookup fs ''msg'');
          kind = auditEventKind typeName fs;
          filePath = firstValue [lookup fs ''name'', lookup fs ''path''];
          lineHash = sha_hex C line
      in zero_Event\<lparr>ev_ID := deterministicEventID C [''auditd'', sourceID, serial, typeName, lineHash],
           ev_Timestamp := timestamp, ev_Kind := kind, ev_Severity := auditSeverity typeName fs,
           ev_Trust := TrustUntrustedTelemetry,
           ev_Asset := (ev_Asset zero_Event)\<lparr>asset_OS := ''linux''\<rparr>,
           ev_Actor := \<lparr>actor_User = firstValue [lookup fs ''acct'', lookup fs ''uid'', lookup fs ''auid''],
             actor_AccountID = firstValue [lookup fs ''auid'', lookup fs ''ses''], actor_SessionID = lookup fs ''ses''\<rparr>,
           ev_Process := (ev_Process zero_Event)\<lparr>proc_PID := flexibleInt (lookup fs ''pid''), proc_PPID := flexibleInt (lookup fs ''ppid''),
             proc_Image := firstValue [lookup fs ''exe'', lookup fs ''comm''], proc_CommandLine := auditCommandLine fs\<rparr>,
           ev_Network := (ev_Network zero_Event)\<lparr>net_SourceIP := firstValue [lookup fs ''addr'', lookup fs ''hostname''],
             net_SourcePort := flexibleInt (lookup fs ''port''), net_Direction := auditDirection kind\<rparr>,
           ev_File := (ev_File zero_Event)\<lparr>file_Path := filePath, file_Operation := auditFileOperation (lookup fs ''nametype'') kind,
             file_Executable := auditExecutablePath filePath\<rparr>,
           ev_Message := ''Linux audit event '' @ typeName @ '' serial='' @ serial,
           ev_Attributes := Some (audit_attributes typeName serial lineHash fs),
           ev_Provenance := (provenance sourceID ''linux-auditd/file'')\<lparr>prov_OriginalPath := path\<rparr>\<rparr>)"

definition auditLineToEvent :: "crypto \<Rightarrow> draw \<Rightarrow> string \<Rightarrow> string \<Rightarrow> string \<Rightarrow> Event" where
  "auditLineToEvent C d sourceID path line = prepared d (audit_event C (dw_time d) sourceID path line)"

section \<open>Reading lines\<close>

definition maxAuditLineBytes :: int where "maxAuditLineBytes = 1024 * 1024"

text \<open>A line with its newline, the bytes consumed, and whether the line is complete; \<open>None\<close> when it is too long.\<close>

definition readAuditLine :: "int \<Rightarrow> string \<Rightarrow> (string \<times> nat \<times> bool) option" where
  "readAuditLine maximum s =
     (let whole = newline \<in> set s;
          line = takeWhile (\<lambda>c. c \<noteq> newline) s @ (if whole then [newline] else [])
      in if maximum < int (length line) then None else Some (line, length line, whole))"

lemma readAuditLine_consumes: "readAuditLine m s = Some (line, n, True) \<Longrightarrow> 0 < n \<and> n \<le> length s"
proof -
  have "length (takeWhile (\<lambda>c. c \<noteq> newline) s) < length s" if "newline \<in> set s"
    using that by (induction s) auto
  then show "readAuditLine m s = Some (line, n, True) \<Longrightarrow> 0 < n \<and> n \<le> length s"
    by (auto simp: readAuditLine_def Let_def split: if_splits)
qed

record auditSource =
  as_config :: NativeSource
  as_cursor :: cursorFile

datatype audit_error = AudPath | AudOpen oserr | AudStat oserr | AudSeek oserr | AudRead oserr | AudTooLong | AudCancelled

record audit_env =
  ae_identity :: "int \<times> int"
  ae_cancelled :: "nat \<Rightarrow> bool"
  ae_line :: "nat \<Rightarrow> draw"
  ae_show :: "audit_error \<Rightarrow> string"
  ae_rnd :: string

definition newAuditSource :: "NativeSource \<Rightarrow> cursorFile \<Rightarrow> (audit_error, auditSource) result" where
  "newAuditSource source cursor =
     (if \<not> filepath_IsAbs (ns_Path source) then Inl AudPath else Inr \<lparr>as_config = source, as_cursor = cursor\<rparr>)"

text \<open>The loop of \<open>Poll\<close> over the text from the start position: the events and the bytes consumed. \<open>room\<close> is what is left of the
  batch, \<open>k\<close> counts the iterations.\<close>

function audit_lines :: "crypto \<Rightarrow> audit_env \<Rightarrow> string \<Rightarrow> string \<Rightarrow> int \<Rightarrow> nat \<Rightarrow> string \<Rightarrow> (audit_error, Event list \<times> nat) result" where
  "audit_lines C E sourceID path room k s =
     (if room \<le> 0 then Inr ([], 0)
      else if ae_cancelled E k then Inl AudCancelled
      else case readAuditLine maxAuditLineBytes s of
             None \<Rightarrow> Inl AudTooLong
           | Some (line, n, whole) \<Rightarrow>
               if \<not> whole then Inr ([], 0)
               else let text = TrimSpace line; rest = drop n s
                    in if text = []
                       then (case audit_lines C E sourceID path room (Suc k) rest of
                               Inl e \<Rightarrow> Inl e | Inr (evs, m) \<Rightarrow> Inr (evs, n + m))
                       else (case audit_lines C E sourceID path (room - 1) (Suc k) rest of
                               Inl e \<Rightarrow> Inl e
                             | Inr (evs, m) \<Rightarrow> Inr (auditLineToEvent C (ae_line E k) sourceID path text # evs, n + m)))"
  by pat_completeness auto
termination
  by (relation "measure (\<lambda>(C, E, i, p, room, k, s). length s)") (auto dest!: readAuditLine_consumes)

declare audit_lines.simps [simp del]

section \<open>Polling\<close>

definition audit_failed :: "audit_env \<Rightarrow> audit_error \<Rightarrow> batch" where
  "audit_failed E e = \<lparr>bt_events = [], bt_errors = [ae_show E e], bt_commit = None, bt_rnd = ae_rnd E\<rparr>"

text \<open>The position from which to read: the beginning, when the file is another one or has become shorter.\<close>

definition audit_start :: "cursorState \<Rightarrow> int \<times> int \<Rightarrow> int \<Rightarrow> int" where
  "audit_start state idn sz =
     (case idn of (device, inode) \<Rightarrow>
        if (cu_FileInode state \<noteq> 0 \<and> inode \<noteq> 0 \<and> cu_FileInode state \<noteq> inode)
           \<or> (cu_FileDevice state \<noteq> 0 \<and> device \<noteq> 0 \<and> cu_FileDevice state \<noteq> device) \<or> sz < cu_FileOffset state
        then 0 else cu_FileOffset state)"

definition audit_next :: "cursorState \<Rightarrow> int \<times> int \<Rightarrow> int \<Rightarrow> cursorState" where
  "audit_next state idn offset =
     state\<lparr>cu_Initialized := True, cu_FileDevice := fst idn, cu_FileInode := snd idn, cu_FileOffset := offset\<rparr>"

definition audit_Poll :: "crypto \<Rightarrow> audit_env \<Rightarrow> auditSource \<Rightarrow> world \<Rightarrow> batch \<times> world" where
  "audit_Poll C E s w =
     (let cfg = as_config s; state = cursor_Snapshot (as_cursor s); idn = ae_identity E
      in case os_Open (ns_Path cfg) w of
           (Inl e, w1) \<Rightarrow> (audit_failed E (AudOpen e), w1)
         | (Inr text, w1) \<Rightarrow>
             (case file_call w1 of
                (Inl e, w2) \<Rightarrow> (audit_failed E (AudStat e), w2)
              | (Inr _, w2) \<Rightarrow>
                  (let sz = int (length text)
                   in if \<not> cu_Initialized state
                      then (\<lparr>bt_events = [], bt_errors = [],
                              bt_commit = Some (audit_next state idn (if ns_FromStart cfg then 0 else sz)), bt_rnd = ae_rnd E\<rparr>, w2)
                      else let start = audit_start state idn sz
                           in case file_call w2 of
                                (Inl e, w3) \<Rightarrow> (audit_failed E (AudSeek e), w3)
                              | (Inr _, w3) \<Rightarrow>
                                  (case file_call w3 of
                                     (Inl e, w4) \<Rightarrow> (audit_failed E (AudRead e), w4)
                                   | (Inr _, w4) \<Rightarrow>
                                       (case audit_lines C E (ns_ID cfg) (ns_Path cfg) (ns_MaxBatch cfg) 0 (drop (nat start) text) of
                                          Inl e \<Rightarrow> (audit_failed E e, w4)
                                        | Inr (evs, n) \<Rightarrow>
                                            (let next = audit_next state idn (start + int n)
                                             in if evs = [] \<and> start + int n = cu_FileOffset state \<and> cu_FileDevice state = fst idn
                                                   \<and> cu_FileInode state = snd idn
                                                then (\<lparr>bt_events = [], bt_errors = [], bt_commit = None, bt_rnd = ae_rnd E\<rparr>, w4)
                                                else (\<lparr>bt_events = evs, bt_errors = [], bt_commit = Some next, bt_rnd = ae_rnd E\<rparr>, w4)))))))"

section \<open>Fields that are read back\<close>

abbreviation apostrophe :: char where "apostrophe \<equiv> CHR 0x27"

definition found_fields :: "bool \<Rightarrow> char option \<Rightarrow> string \<Rightarrow> (string \<times> string) list" where
  "found_fields fresh prev s = map (\<lambda>m. (group 1 m, group 2 m)) (submatches_from auditKeyValue fresh prev s)"

lemma parseAuditFields_found:
  "parseAuditFields line = fold (\<lambda>(k, v). AList.update k (field_value v)) (found_fields True None line) []"
  by (simp add: parseAuditFields_def FindAllStringSubmatch_def found_fields_def fold_map comp_def)

definition plain_field :: "string \<times> string \<Rightarrow> bool" where
  "plain_field f = (case f of (k, v) \<Rightarrow> k \<noteq> [] \<and> list_all word_char k \<and> v \<noteq> [] \<and> list_all (\<lambda>c. \<not> is_space c) v
     \<and> hd v \<noteq> CHR 0x22 \<and> hd v \<noteq> apostrophe)"

definition render_fields :: "(string \<times> string) list \<Rightarrow> string" where
  "render_fields fs = Join (map (\<lambda>(k, v). k @ ''='' @ v) fs) '' ''"

text \<open>A key in front of its equals sign is matched whole.\<close>

lemma word_char_facts: "\<not> word_char (CHR ''='')" "\<not> word_char (CHR '' '')"
  by code_simp+

lemma not_space_re: "\<not> is_space c \<Longrightarrow> \<not> re_space c"
  by (auto simp: is_space_def re_space_def)

lemma key_runs:
  assumes "k \<noteq> []" "list_all word_char k"
  shows "runs (RSeqs [RGroup 1 (RPlus (RChar word_char)), RByte (CHR ''=''), r]) (Go_Regexp.at prev (k @ CHR ''='' # s)) =
     runs r \<lparr>pos_prev = Some (CHR ''=''), pos_rest = s, pos_caps = [(1, k)]\<rparr>"
proof -
  let ?p = "Go_Regexp.at prev (k @ CHR ''='' # s)"
  let ?cap = "\<lambda>q. q\<lparr>pos_caps := (1, consumed ?p q) # pos_caps q\<rparr>"
  let ?F = "\<lambda>j. runs (RSeq (RByte (CHR ''='')) r) (?cap (adv j ?p))"
  have n: "length (takeWhile word_char (pos_rest ?p)) = length k"
    using assms(2) word_char_facts by (simp add: takeWhile_append list_all_iff)
  have "?F j = []" if "1 \<le> j" "j < length k" for j
  proof -
    have "drop j (k @ CHR ''='' # s) = k ! j # drop (Suc j) k @ CHR ''='' # s" using that by (simp add: Cons_nth_drop_Suc [symmetric])
    moreover have "k ! j \<noteq> CHR ''=''" using that assms(2) word_char_facts by (metis list_all_length)
    ultimately show ?thesis by (simp add: RByte_def eat_def adv_def)
  qed
  then have "concat (map ?F (rev [1..<Suc (length k)])) = ?F (length k)"
    using assms(1) by (intro concat_longest) (auto simp: Suc_le_eq)
  moreover have "?F (length k) = runs r \<lparr>pos_prev = Some (CHR ''=''), pos_rest = s, pos_caps = [(1, k)]\<rparr>"
    by (simp add: RByte_def eat_def adv_def consumed_def)
  moreover have "runs (RPlus (RChar word_char)) ?p = map (\<lambda>j. adv j ?p) (rev [1..<Suc (length k)])"
    unfolding runs_class_plus n by (rule refl)
  ultimately show ?thesis by (simp add: comp_def del: upt_Suc)
qed

lemma first_Cons: "first xs = Some x \<Longrightarrow> \<exists>ys. xs = x # ys"
  by (cases xs) auto

lemma plain_value_first:
  assumes "v \<noteq> []" "list_all (\<lambda>c. \<not> is_space c) v" "hd v \<noteq> CHR 0x22" "hd v \<noteq> apostrophe" "s = [] \<or> hd s = CHR '' ''"
  shows "\<exists>c. first (runs (RGroup 2 (RAlts [quoted_value (CHR 0x22), quoted_value apostrophe, RPlus RNotSpace]))
     \<lparr>pos_prev = prev, pos_rest = v @ s, pos_caps = caps\<rparr>) = Some \<lparr>pos_prev = Some c, pos_rest = s, pos_caps = (2, v) # caps\<rparr>"
proof -
  let ?p = "\<lparr>pos_prev = prev, pos_rest = v @ s, pos_caps = caps\<rparr>"
  obtain x xs where v: "v = x # xs" using assms(1) by (cases v) auto
  have q: "runs (quoted_value (CHR 0x22)) ?p = []" "runs (quoted_value apostrophe) ?p = []"
    using assms(3,4) v by (simp_all add: quoted_value_def RByte_def eat_def)
  have sp: "re_space (CHR '' '')" by code_simp
  have "takeWhile (\<lambda>c. \<not> re_space c) (v @ s) = v"
    using assms(2,5) sp not_space_re by (cases s) (auto simp: takeWhile_append list_all_iff)
  then have "runs (RPlus RNotSpace) ?p = map (\<lambda>j. adv j ?p) (rev [1..<Suc (length v)])"
    unfolding RNotSpace_def runs_class_plus by simp
  moreover have "rev [1..<Suc (length v)] = length v # rev [1..<length v]" using v by simp
  ultimately have "runs (RPlus RNotSpace) ?p = adv (length v) ?p # map (\<lambda>j. adv j ?p) (rev [1..<length v])" by simp
  then show ?thesis using q v by (simp add: adv_def consumed_def)
qed

text \<open>Between apostrophes everything up to the second one is the value.\<close>

lemma quoted_text_run:
  assumes "apostrophe \<notin> set t" "CHR 0x5C \<notin> set t"
  shows "concat (map (runs (RByte apostrophe)) (runs (RStar True (RAlt (RSeq (RByte (CHR 0x5C)) RDot) (RNoneOf [apostrophe])))
     \<lparr>pos_prev = prev, pos_rest = t @ apostrophe # s, pos_caps = caps\<rparr>)) = [\<lparr>pos_prev = Some apostrophe, pos_rest = s, pos_caps = caps\<rparr>]"
  using assms
proof (induction t arbitrary: prev)
  case Nil
  then show ?case by (simp add: iterate_stop RByte_def RNoneOf_def eat_def)
next
  case (Cons c t)
  let ?f = "runs (RAlt (RSeq (RByte (CHR 0x5C)) RDot) (RNoneOf [apostrophe]))"
  let ?p = "\<lparr>pos_prev = prev, pos_rest = (c # t) @ apostrophe # s, pos_caps = caps\<rparr>"
  let ?q = "\<lparr>pos_prev = Some c, pos_rest = t @ apostrophe # s, pos_caps = caps\<rparr>"
  have c: "c \<noteq> apostrophe" "c \<noteq> CHR 0x5C" using Cons.prems by auto
  then have "?f ?p = [?q]" by (simp add: RByte_def RNoneOf_def eat_def)
  then have "iterate True ?f ?p = iterate True ?f ?q @ [?p]" by (rule iterate_step) simp
  moreover have "runs (RByte apostrophe) ?p = []" using c by (simp add: RByte_def eat_def)
  ultimately show ?case using Cons.IH [of "Some c"] Cons.prems by simp
qed

lemma quoted_value_first:
  assumes "apostrophe \<notin> set t" "CHR 0x5C \<notin> set t"
  shows "first (runs (RGroup 2 (RAlts [quoted_value (CHR 0x22), quoted_value apostrophe, RPlus RNotSpace]))
     \<lparr>pos_prev = prev, pos_rest = apostrophe # t @ apostrophe # s, pos_caps = caps\<rparr>) =
       Some \<lparr>pos_prev = Some apostrophe, pos_rest = s, pos_caps = (2, apostrophe # t @ [apostrophe]) # caps\<rparr>"
proof -
  let ?p = "\<lparr>pos_prev = prev, pos_rest = apostrophe # t @ apostrophe # s, pos_caps = caps\<rparr>"
  have "runs (quoted_value (CHR 0x22)) ?p = []" by (simp add: quoted_value_def RByte_def eat_def)
  moreover have "runs (quoted_value apostrophe) ?p = [\<lparr>pos_prev = Some apostrophe, pos_rest = s, pos_caps = caps\<rparr>]"
    using quoted_text_run [OF assms, of "Some apostrophe" s caps]
    by (simp add: quoted_value_def RByte_def [of apostrophe] eat_def comp_def)
  ultimately show ?thesis by (simp add: consumed_def)
qed

text \<open>One match of the expression in front of the rest of the line.\<close>

lemma found_field:
  assumes "k \<noteq> []" "list_all word_char k"
    and "first (runs (RGroup 2 (RAlts [quoted_value (CHR 0x22), quoted_value apostrophe, RPlus RNotSpace]))
       \<lparr>pos_prev = Some (CHR ''=''), pos_rest = v @ s, pos_caps = [(1, k)]\<rparr>) =
         Some \<lparr>pos_prev = Some c, pos_rest = s, pos_caps = [(2, v), (1, k)]\<rparr>"
  shows "\<exists>c. found_fields fresh prev (k @ CHR ''='' # v @ s) = (k, v) # found_fields False (Some c) s"
    and "\<exists>c. found_fields fresh prev (CHR '' '' # k @ CHR ''='' # v @ s) = (k, v) # found_fields False (Some c) s"
proof -
  let ?l = "k @ CHR ''='' # v @ s" and ?q = "\<lparr>pos_prev = Some c, pos_rest = s, pos_caps = [(2, v), (1, k)]\<rparr>"
  have run: "\<exists>qs. runs auditKeyValue (Go_Regexp.at prev ?l) = ?q # qs" for prev
    using first_Cons [OF assms(3)] unfolding auditKeyValue_def key_runs [OF assms(1,2)] .
  then have hit: "find_from auditKeyValue prev ?l = Some \<lparr>mt_before = [], mt_text = k @ CHR ''='' # v, mt_end = ?q\<rparr>" for prev
    using find_from_hit by (fastforce simp: consumed_def)
  have "found_fields fresh prev ?l = (k, v) # found_fields False (Some c) s" for fresh prev
    unfolding found_fields_def by (subst submatches_from.simps) (simp add: hit group_def)
  then show "\<exists>c. found_fields fresh prev ?l = (k, v) # found_fields False (Some c) s" by blast
  have "runs auditKeyValue (Go_Regexp.at prev (CHR '' '' # ?l)) = []"
    using word_char_facts by (simp add: auditKeyValue_def RPlus_def eat_def)
  from find_from_miss [OF this] have
    "find_from auditKeyValue prev (CHR '' '' # ?l) = Some \<lparr>mt_before = '' '', mt_text = k @ CHR ''='' # v, mt_end = ?q\<rparr>"
    by (simp add: hit)
  then have "found_fields fresh prev (CHR '' '' # ?l) = (k, v) # found_fields False (Some c) s"
    unfolding found_fields_def by (subst submatches_from.simps) (simp add: group_def)
  then show "\<exists>c. found_fields fresh prev (CHR '' '' # ?l) = (k, v) # found_fields False (Some c) s" by blast
qed

definition line_rest :: "string \<Rightarrow> bool" where "line_rest s = (s = [] \<or> hd s = CHR '' '')"

lemma found_plain:
  assumes "plain_field (k, v)" "line_rest s"
  shows "\<exists>c. found_fields fresh prev (k @ CHR ''='' # v @ s) = (k, v) # found_fields False (Some c) s"
    and "\<exists>c. found_fields fresh prev (CHR '' '' # k @ CHR ''='' # v @ s) = (k, v) # found_fields False (Some c) s"
proof -
  have f: "k \<noteq> []" "list_all word_char k" "v \<noteq> []" "list_all (\<lambda>c. \<not> is_space c) v" "hd v \<noteq> CHR 0x22" "hd v \<noteq> apostrophe"
    using assms(1) by (simp_all add: plain_field_def)
  obtain c where "first (runs (RGroup 2 (RAlts [quoted_value (CHR 0x22), quoted_value apostrophe, RPlus RNotSpace]))
       \<lparr>pos_prev = Some (CHR ''=''), pos_rest = v @ s, pos_caps = [(1, k)]\<rparr>) =
         Some \<lparr>pos_prev = Some c, pos_rest = s, pos_caps = [(2, v), (1, k)]\<rparr>"
    using plain_value_first [OF f(3-6), of s] assms(2) by (auto simp: line_rest_def)
  from found_field [OF f(1,2) this]
  show "\<exists>c. found_fields fresh prev (k @ CHR ''='' # v @ s) = (k, v) # found_fields False (Some c) s"
    "\<exists>c. found_fields fresh prev (CHR '' '' # k @ CHR ''='' # v @ s) = (k, v) # found_fields False (Some c) s" by blast+
qed

lemma found_quoted:
  assumes "k \<noteq> []" "list_all word_char k" "apostrophe \<notin> set t" "CHR 0x5C \<notin> set t"
  shows "\<exists>c. found_fields fresh prev (CHR '' '' # k @ CHR ''='' # (apostrophe # t @ [apostrophe]) @ s) =
     (k, apostrophe # t @ [apostrophe]) # found_fields False (Some c) s"
  using found_field(2) [OF assms(1,2), of "apostrophe # t @ [apostrophe]" s apostrophe] quoted_value_first [OF assms(3,4)] by simp

lemma found_nothing: "found_fields fresh prev [] = []"
proof -
  have "find_from auditKeyValue prev [] = None"
    by (subst find_from_miss) (simp_all add: auditKeyValue_def RPlus_def eat_def)
  then show ?thesis unfolding found_fields_def by (subst submatches_from.simps) simp
qed

definition render_rest :: "(string \<times> string) list \<Rightarrow> string" where
  "render_rest fs = concat (map (\<lambda>(k, v). CHR '' '' # k @ CHR ''='' # v) fs)"

lemma line_rest_fields: "line_rest (render_rest fs @ CHR '' '' # s)" "line_rest (render_rest fs)"
  by (cases fs; auto simp: line_rest_def render_rest_def)+

lemma found_rest:
  assumes "list_all plain_field fs" "line_rest s"
  shows "\<exists>p. found_fields fresh prev (render_rest fs @ s) = fs @ found_fields (fresh \<and> fs = []) p s"
  using assms(1)
proof (induction fs arbitrary: fresh prev)
  case Nil
  then show ?case by (auto simp: render_rest_def)
next
  case (Cons f fs)
  obtain k v where f: "f = (k, v)" by (rule prod.exhaust)
  have "line_rest (render_rest fs @ s)" using line_rest_fields(2) assms(2)
    by (cases fs) (auto simp: line_rest_def render_rest_def)
  then obtain c where c: "found_fields fresh prev (CHR '' '' # k @ CHR ''='' # v @ render_rest fs @ s) = (k, v) # found_fields False (Some c) (render_rest fs @ s)"
    using found_plain(2) Cons.prems f by fastforce
  from Cons.IH [of False "Some c"] Cons.prems obtain p where
    "found_fields False (Some c) (render_rest fs @ s) = fs @ found_fields False p s" by auto
  with c show ?case by (auto simp: f render_rest_def)
qed

lemma render_fields_Cons: "render_fields ((k, v) # fs) = k @ CHR ''='' # v @ render_rest fs"
proof (induction fs arbitrary: k v)
  case Nil
  then show ?case by (simp add: render_fields_def render_rest_def)
next
  case (Cons f fs)
  then show ?case by (cases f) (simp add: render_fields_def render_rest_def)
qed

lemma found_line:
  assumes "list_all plain_field fs" "fs \<noteq> []" "line_rest s"
  shows "\<exists>p. found_fields fresh prev (render_fields fs @ s) = fs @ found_fields False p s"
proof -
  obtain k v gs where fs: "fs = (k, v) # gs" using assms(2) by (metis list.exhaust prod.exhaust)
  have "line_rest (render_rest gs @ s)" using line_rest_fields(2) assms(3)
    by (cases gs) (auto simp: line_rest_def render_rest_def)
  then obtain c where c: "found_fields fresh prev (k @ CHR ''='' # v @ render_rest gs @ s) = (k, v) # found_fields False (Some c) (render_rest gs @ s)"
    using found_plain(1) assms(1) fs by fastforce
  obtain p where "found_fields False (Some c) (render_rest gs @ s) = gs @ found_fields False p s"
    using found_rest [of gs s False "Some c"] assms(1,3) fs by auto
  with c show ?thesis by (auto simp: fs render_fields_Cons)
qed

lemma field_value_plain: "plain_field (k, v) \<Longrightarrow> field_value v = v"
  by (simp add: plain_field_def field_value_def Let_def enclosed_def list_all_iff TrimSpace_no_space)

lemma fold_update_new:
  assumes "distinct (map fst (m @ fs))"
  shows "fold (\<lambda>(k, v). AList.update k v) fs m = m @ fs"
  using assms
proof (induction fs arbitrary: m)
  case (Cons f fs)
  obtain k v where f: "f = (k, v)" by (rule prod.exhaust)
  have "AList.update k v m = m @ [(k, v)]" if "k \<notin> fst ` set m" for m :: "('a \<times> 'b) list"
    using that by (induction m) auto
  then have "AList.update k v m = m @ [(k, v)]" using Cons.prems f by simp
  then show ?case using Cons.IH [of "m @ [(k, v)]"] Cons.prems f by simp
qed simp

lemma fold_plain:
  "list_all plain_field fs \<Longrightarrow> fold (\<lambda>(k, v). AList.update k (field_value v)) fs m = fold (\<lambda>(k, v). AList.update k v) fs m"
proof (induction fs arbitrary: m)
  case (Cons f fs)
  then show ?case using field_value_plain [of "fst f" "snd f"] by (cases f) simp
qed simp

lemma parsed_fields:
  assumes "list_all plain_field fs" "fs \<noteq> []" "distinct (map fst fs)"
  shows "parseAuditFields (render_fields fs) = fs"
proof -
  obtain p where "found_fields True None (render_fields fs @ []) = fs @ found_fields False p []"
    using found_line [OF assms(1,2), of "[]"] by (auto simp: line_rest_def)
  then show ?thesis using fold_update_new [of "[]" fs] assms(3)
    by (simp add: parseAuditFields_found found_nothing fold_plain [OF assms(1)])
qed

lemma parsed_message:
  assumes "list_all plain_field fs" "fs \<noteq> []" "distinct (map fst fs)" "apostrophe \<notin> set t" "CHR 0x5C \<notin> set t"
  shows "parseAuditFields (render_fields fs @ '' msg='' @ apostrophe # t @ [apostrophe]) =
    AList.update ''msg'' (field_value (apostrophe # t @ [apostrophe])) fs"
proof -
  have m: "list_all word_char ''msg''" by code_simp
  obtain p where p: "found_fields True None (render_fields fs @ '' msg='' @ apostrophe # t @ [apostrophe]) =
      fs @ found_fields False p ('' msg='' @ apostrophe # t @ [apostrophe])"
    using found_line [OF assms(1,2), of "'' msg='' @ apostrophe # t @ [apostrophe]" True None] by (auto simp: line_rest_def)
  obtain c where "found_fields False p ('' msg='' @ apostrophe # t @ [apostrophe]) =
      (''msg'', apostrophe # t @ [apostrophe]) # found_fields False (Some c) []"
    using found_quoted [OF _ m assms(4,5), of False p "[]"] by auto
  with p show ?thesis using fold_update_new [of "[]" fs] assms(3)
    by (simp add: parseAuditFields_found found_nothing fold_plain [OF assms(1)])
qed

text \<open>Records of the daemon's own fields, one \<open>key=value\<close> after the other, are read back field by field.\<close>

theorem audit_fields_round_trip:
  assumes "list_all plain_field fs" and "fs \<noteq> []" and "distinct (map fst fs)"
  shows "parseAuditFields (render_fields fs) = fs"
  using parsed_fields [OF assms] .

lemma auditEventKind_named: "auditEventKind t fs \<noteq> []"
  by (simp add: auditEventKind_def)

lemma auditSeverity_named: "auditSeverity t fs \<noteq> []"
  by (simp add: auditSeverity_def severity_defs)

lemma provenance_unreceived: "prov_ReceivedAt (provenance source collector) = 0"
  by (simp add: provenance_def zero_Event_def)

lemma audit_event_sel:
  fixes line now
  defines "fs \<equiv> parseAuditFields line"
  defines "t \<equiv> auditTimestamp now (lookup fs ''msg'')"
  shows "ev_Kind (audit_event C now sourceID path line) = auditEventKind (ToUpper (lookup fs ''type'')) fs"
    and "ev_Severity (audit_event C now sourceID path line) = auditSeverity (ToUpper (lookup fs ''type'')) fs"
    and "ev_Timestamp (audit_event C now sourceID path line) = fst t"
    and "prov_ReceivedAt (ev_Provenance (audit_event C now sourceID path line)) = 0"
  unfolding audit_event_def Let_def fs_def [symmetric] t_def [symmetric]
  by (cases t; simp add: provenance_unreceived)+

lemma prepared_sel:
  "ev_Kind e \<noteq> [] \<Longrightarrow> ev_Kind (prepared d e) = ev_Kind e"
  "ev_Severity e \<noteq> [] \<Longrightarrow> ev_Severity (prepared d e) = ev_Severity e"
  "ev_Timestamp (prepared d e) = (if ev_Timestamp e = 0 then dw_now1 d else ev_Timestamp e)"
  "prov_ReceivedAt (ev_Provenance e) = 0 \<Longrightarrow> prov_ReceivedAt (ev_Provenance (prepared d e)) = dw_now2 d"
  by (simp_all add: prepared_def Event_Prepare_def IsZero_def)

text \<open>The types of the records of user space that tell of a login.\<close>

definition auth_types :: "string list" where
  "auth_types = [''USER_AUTH'', ''USER_LOGIN'', ''USER_ACCT'', ''CRED_ACQ'', ''CRED_DISP'']"

lemma auth_kinds:
  "list_all (\<lambda>t. auditEventKind t fs = (if auditSucceeded fs then ''auth.success'' else ''auth.failure'')) auth_types"
  by (simp add: auth_types_def auditEventKind_def)

lemma auth_severities:
  "list_all (\<lambda>t. auditSeverity t fs = (if auditSucceeded fs then SeverityInfo else SeverityMedium)) auth_types"
  by (simp add: auth_types_def auditSeverity_def is_anomaly_def)


definition said_failed :: string where
  "said_failed = ''op=login acct=root exe=/usr/sbin/sshd addr=203.0.113.30 terminal=ssh res=failed''"

definition login_fields :: "(string \<times> string) list" where
  "login_fields = [(''type'', ''USER_LOGIN''), (''msg'', ''audit(1700000000.123:456):''), (''pid'', ''1234''), (''uid'', ''0'')]"


lemma audit_fields_round_trip_witness: "parseAuditFields (render_fields login_fields) = login_fields"
proof -
  have "list_all plain_field login_fields" "login_fields \<noteq> []" "distinct (map fst login_fields)" by code_simp+
  then show ?thesis by (rule audit_fields_round_trip)
qed

section \<open>Command lines\<close>

lemma hex_digit_lower: "hex_digit_value (lower_char c) = hex_digit_value c"
proof (cases "65 \<le> (of_char c :: nat) \<and> (of_char c :: nat) \<le> 90")
  case False
  then show ?thesis by (auto simp: lower_char_def)
next
  case c: True
  have "(of_char (lower_char c) :: nat) = of_char c + 32" using c by (simp add: lower_char_def)
  then have "\<not> lower_char c \<le> CHR ''9''" "\<not> c \<le> CHR ''9''" using c by (simp_all add: less_eq_char_def)
  then have "digit_value (lower_char c) = digit_value c" by (simp add: digit_value_def lower_char_idem)
  then show ?thesis by (simp add: hex_digit_value_def)
qed

lemma hex_Decode_lower: "hex_DecodeString (ToLower s) = hex_DecodeString s"
  by (induction s rule: hex_DecodeString.induct) (auto simp: ToLower_def hex_digit_lower)

lemma ReplaceChar_id: "a \<notin> set s \<Longrightarrow> ReplaceChar a b s = s"
  by (induction s) (auto simp: ReplaceChar_def)

lemma ReplaceChar_Join: "\<forall>x\<in>set xs. a \<notin> set x \<Longrightarrow> ReplaceChar a b (Join xs [a]) = Join xs [b]"
proof (induction xs rule: induct_list012)
  case (3 x y zs)
  then have "ReplaceChar a b (x @ [a] @ Join (y # zs) [a]) = x @ [b] @ Join (y # zs) [b]"
    using ReplaceChar_id [of a x b] by (simp add: ReplaceChar_def)
  then show ?case by simp
next
  case 1
  then show ?case by (simp add: ReplaceChar_def)
next
  case (2 x)
  then show ?case by (simp add: ReplaceChar_id)
qed

lemma hex_char_no_space: "list_all is_hex_char s \<Longrightarrow> TrimSpace s = s"
proof (rule TrimSpace_no_space)
  have h: "list_all (\<lambda>c. \<not> is_space c) ''0123456789abcdefABCDEF''" by code_simp
  show "\<forall>c\<in>set s. \<not> is_space c" if "list_all is_hex_char s"
    using that h unfolding list_all_iff is_hex_char_def by blast
qed

text \<open>The kernel writes a command line that is no plain text as hexadecimal digits (in upper case), its arguments separated by NUL;
  it is decoded to the arguments separated by spaces.\<close>

theorem proctitle_round_trip:
  assumes "\<forall>a\<in>set args. CHR 0x00 \<notin> set a" and "TrimSpace (Join args '' '') = Join args '' ''" and "Join args '' '' \<noteq> []"
    and "ToLower digits = hex_EncodeToString (Join args [CHR 0x00])" and "list_all is_hex_char digits"
  shows "decodeAuditHex digits = Join args '' ''"
proof -
  have dec: "hex_DecodeString digits = Some (Join args [CHR 0x00])"
    using hex_Decode_lower [of digits] by (simp add: assms(4) hex_Decode_Encode)
  have rep: "ReplaceChar (CHR 0x00) (CHR '' '') (Join args [CHR 0x00]) = Join args '' ''"
    by (rule ReplaceChar_Join [OF assms(1)])
  have "length digits = 2 * length (Join args [CHR 0x00])"
    by (metis assms(4) length_hex length_map ToLower_def)
  moreover have "digits \<noteq> []"
  proof
    assume "digits = []"
    with dec have "Join args [CHR 0x00] = []" by simp
    with rep assms(3) show False by (simp add: ReplaceChar_def)
  qed
  ultimately show ?thesis
    using assms(2,5) dec rep by (simp add: decodeAuditHex_def hex_char_no_space)
qed

lemma proctitle_round_trip_witness:
  "decodeAuditHex ''2F62696E2F7368002D63006964'' = ''/bin/sh -c id''"
proof -
  have "\<forall>a\<in>set [''/bin/sh'', ''-c'', ''id'']. CHR 0x00 \<notin> set a" by simp
  moreover have "TrimSpace (Join [''/bin/sh'', ''-c'', ''id''] '' '') = Join [''/bin/sh'', ''-c'', ''id''] '' ''"
    "Join [''/bin/sh'', ''-c'', ''id''] '' '' \<noteq> []"
    "ToLower ''2F62696E2F7368002D63006964'' = hex_EncodeToString (Join [''/bin/sh'', ''-c'', ''id''] [CHR 0x00])"
    "list_all is_hex_char ''2F62696E2F7368002D63006964''" by code_simp+
  ultimately have "decodeAuditHex ''2F62696E2F7368002D63006964'' = Join [''/bin/sh'', ''-c'', ''id''] '' ''"
    by (rule proctitle_round_trip)
  then show ?thesis by simp
qed

section \<open>What a poll delivers\<close>

text \<open>The records of a text: its lines without the space around them, blank ones left out.\<close>

definition audit_records :: "string \<Rightarrow> string list" where
  "audit_records s = filter (\<lambda>l. l \<noteq> []) (map TrimSpace (segments s))"

definition line_event :: "crypto \<Rightarrow> NativeSource \<Rightarrow> Event \<Rightarrow> string \<Rightarrow> bool" where
  "line_event C cfg e l = (\<exists>d. e = auditLineToEvent C d (ns_ID cfg) (ns_Path cfg) l)"

lemma line_event_made: "line_event C cfg (auditLineToEvent C d (ns_ID cfg) (ns_Path cfg) l) l"
  by (auto simp: line_event_def)

lemma audit_records_Nil [simp]: "audit_records [] = []"
  by (simp add: audit_records_def)

lemma audit_records_line:
  "newline \<notin> set l \<Longrightarrow> audit_records (l @ newline # r) =
     (if TrimSpace (l @ [newline]) = [] then audit_records r else TrimSpace (l @ [newline]) # audit_records r)"
  by (simp add: audit_records_def segments_line)

lemma whole_lines_append: "whole_lines a \<Longrightarrow> whole_lines b \<Longrightarrow> whole_lines (a @ b)"
  by (cases "b = []") (simp_all add: whole_lines_def)

lemma audit_records_append: "whole_lines a \<Longrightarrow> audit_records (a @ b) = audit_records a @ audit_records b"
  by (simp add: audit_records_def segments_append)

lemma readAuditLine_line:
  assumes "readAuditLine m s = Some (line, n, True)"
  obtains l r where "s = l @ newline # r" "newline \<notin> set l" "line = l @ [newline]" "n = Suc (length l)"
proof -
  have nl: "newline \<in> set s" and line: "line = takeWhile (\<lambda>c. c \<noteq> newline) s @ [newline]" and n: "n = length line"
    using assms by (auto simp: readAuditLine_def Let_def split: if_splits)
  obtain l r where s: "s = l @ newline # r" "newline \<notin> set l" using nl by (metis split_list_first)
  then have "takeWhile (\<lambda>c. c \<noteq> newline) s = l" by (auto simp: takeWhile_append)
  with that s line n show ?thesis by simp
qed

lemma whole_line_head: "whole_lines (l @ newline # t) = whole_lines t"
  by (rule whole_lines_line)

lemma audit_lines_read:
  assumes "audit_lines C E (ns_ID cfg) (ns_Path cfg) room k s = Inr (evs, n)"
  shows "n \<le> length s \<and> whole_lines (take n s) \<and> list_all2 (line_event C cfg) evs (audit_records (take n s))"
  using assms
proof (induction s arbitrary: room k evs n rule: length_induct)
  case (1 s)
  note run = 1(2)
  show ?case
  proof (cases "evs = [] \<and> n = 0")
    case True
    then show ?thesis by (simp add: whole_lines_def)
  next
    case False
    have go: "0 < room" "\<not> ae_cancelled E k"
      using run False by (subst (asm) audit_lines.simps; simp split: if_splits)+
    obtain line m where ln: "readAuditLine maxAuditLineBytes s = Some (line, m, True)"
      using run False go by (subst (asm) audit_lines.simps) (auto split: option.splits if_splits prod.splits)
    obtain l r where s: "s = l @ newline # r" "newline \<notin> set l" "line = l @ [newline]" "m = Suc (length l)"
      using readAuditLine_line [OF ln] by metis
    have rest: "drop m s = r" using s by simp
    let ?t = "TrimSpace line"
    define room' where "room' = (if ?t = [] then room else room - 1)"
    obtain evs' n' where r: "audit_lines C E (ns_ID cfg) (ns_Path cfg) room' (Suc k) r = Inr (evs', n')" and n: "n = m + n'"
      and e: "evs = (if ?t = [] then evs' else auditLineToEvent C (ae_line E k) (ns_ID cfg) (ns_Path cfg) ?t # evs')"
      using run go ln by (subst (asm) audit_lines.simps) (auto simp: Let_def rest room'_def split: sum.splits if_splits)
    have "length r < length s" using s by simp
    with 1(1) r have ih: "n' \<le> length r \<and> whole_lines (take n' r) \<and> list_all2 (line_event C cfg) evs' (audit_records (take n' r))"
      by blast
    have "take n s = l @ newline # take n' r" using s n by simp
    then show ?thesis using ih s n e by (auto simp: whole_line_head audit_records_line line_event_made)
  qed
qed

lemma file_call_files: "file_call w = (r, w') \<Longrightarrow> files w' = files w"
  by (auto simp: file_call_def next_fault_eqs split: prod.splits if_splits dest: next_fault_eqs)

text \<open>A batch that is acknowledged: either the first position, or the events of the lines between the old and the new one.\<close>

lemma audit_Poll_batch:
  assumes run: "audit_Poll C E s w = (b, w')" and b: "bt_commit b = Some next" and c: "fs_content (files w) (ns_Path (as_config s)) = Some c"
  defines "st \<equiv> cf_state (as_cursor s)"
  shows "(\<not> cu_Initialized st \<and> bt_events b = [] \<and> next = audit_next st (ae_identity E) (if ns_FromStart (as_config s) then 0 else int (length c)))
    \<or> (\<exists>n evs. cu_Initialized st \<and> bt_events b = evs \<and> next = audit_next st (ae_identity E) (audit_start st (ae_identity E) (int (length c)) + int n)
         \<and> audit_lines C E (ns_ID (as_config s)) (ns_Path (as_config s)) (ns_MaxBatch (as_config s)) 0
             (drop (nat (audit_start st (ae_identity E) (int (length c)))) c) = Inr (evs, n))"
proof -
  have open': "r = Inr c \<or> (\<exists>e. r = Inl e)" if "os_Open (ns_Path (as_config s)) w = (r, w1)" for r w1
    using that c by (auto simp: os_Open_def fs_content_def next_fault_eqs split: prod.splits if_splits option.splits dest: next_fault_eqs)
  show ?thesis
    using run b unfolding st_def
    by (auto simp: audit_Poll_def audit_failed_def Let_def cursor_Snapshot_def split: prod.splits sum.splits if_splits dest!: open')
qed

section \<open>One reader over the log\<close>

text \<open>The life of a source that reads from the start: the log grows at its end, it is replaced by a file that is another inode,
  and it is polled under any failures; what counts as delivered are the events of the batches whose position was committed. A poll
  that fails, that is not acknowledged or whose commit fails changes nothing and can be repeated. \<open>done\<close> are the events delivered
  from the present file.\<close>

inductive auditing :: "crypto \<Rightarrow> cursor_codec \<Rightarrow> NativeSource \<Rightarrow> int \<times> int \<Rightarrow> string \<Rightarrow> auditSource \<Rightarrow> Event list \<Rightarrow> bool" for C K cfg where
  start: "newAuditSource cfg cur = Inr s \<Longrightarrow> \<not> cu_Initialized (cf_state cur) \<Longrightarrow> snd idn \<noteq> 0 \<Longrightarrow> auditing C K cfg idn c s []"
| grow: "auditing C K cfg idn c s evs \<Longrightarrow> auditing C K cfg idn (c @ t) s evs"
| rotate: "auditing C K cfg idn c s evs \<Longrightarrow> snd idn' \<noteq> 0 \<Longrightarrow> snd idn' \<noteq> cu_FileInode (cf_state (as_cursor s)) \<Longrightarrow> auditing C K cfg idn' c' s []"
| poll: "auditing C K cfg idn c s evs \<Longrightarrow> ae_identity E = idn \<Longrightarrow> fs_content (files w) (ns_Path cfg) = Some c \<Longrightarrow>
    audit_Poll C E s w = (b, w1) \<Longrightarrow> bt_commit b = Some next \<Longrightarrow> cursor_Commit K (bt_rnd b) next (as_cursor s) w2 = (Inr (), cur, w3) \<Longrightarrow>
    auditing C K cfg idn c (s\<lparr>as_cursor := cur\<rparr>) (evs @ bt_events b)"

definition reads_this :: "cursorState \<Rightarrow> int \<times> int \<Rightarrow> bool" where
  "reads_this st idn = (cu_Initialized st \<and> (cu_FileDevice st, cu_FileInode st) = idn)"

definition audit_read_up_to :: "crypto \<Rightarrow> NativeSource \<Rightarrow> int \<times> int \<Rightarrow> string \<Rightarrow> cursorState \<Rightarrow> Event list \<Rightarrow> bool" where
  "audit_read_up_to C cfg idn c st evs =
     (if reads_this st idn
      then 0 \<le> cu_FileOffset st \<and> cu_FileOffset st \<le> int (length c) \<and> whole_lines (take (nat (cu_FileOffset st)) c)
        \<and> list_all2 (line_event C cfg) evs (audit_records (take (nat (cu_FileOffset st)) c))
      else evs = [] \<and> (cu_Initialized st \<longrightarrow> cu_FileInode st \<noteq> 0 \<and> cu_FileInode st \<noteq> snd idn))"

lemma committed_state: "cursor_Commit K rnd next cur0 w = (Inr (), cur, w') \<Longrightarrow> \<exists>now. cf_state cur = stamped cur0 now next"
  by (auto simp: cursor_Commit_def split: option.splits prod.splits sum.splits)

lemma stamped_position:
  "cu_Initialized (stamped c now s) = cu_Initialized s" "cu_FileOffset (stamped c now s) = cu_FileOffset s"
  "cu_FileDevice (stamped c now s) = cu_FileDevice s" "cu_FileInode (stamped c now s) = cu_FileInode s"
  by (simp_all add: stamped_def)

lemma audit_next_position:
  "cu_Initialized (audit_next s idn n)" "cu_FileOffset (audit_next s idn n) = n" "cu_FileDevice (audit_next s idn n) = fst idn"
  "cu_FileInode (audit_next s idn n) = snd idn"
  by (simp_all add: audit_next_def)

lemma audit_read_further:
  assumes inv: "audit_read_up_to C cfg idn c st evs" and init: "cu_Initialized st" and "snd idn \<noteq> 0"
    and lines: "audit_lines C E (ns_ID cfg) (ns_Path cfg) m k (drop (nat o') c) = Inr (new, n)"
    and start: "o' = audit_start st idn (int (length c))"
  shows "0 \<le> o' \<and> o' + int n \<le> int (length c) \<and> whole_lines (take (nat (o' + int n)) c)
    \<and> list_all2 (line_event C cfg) (evs @ new) (audit_records (take (nat (o' + int n)) c))"
proof -
  note rd = audit_lines_read [OF lines]
  have "0 \<le> o' \<and> o' \<le> int (length c) \<and> whole_lines (take (nat o') c) \<and> list_all2 (line_event C cfg) evs (audit_records (take (nat o') c))"
  proof (cases "reads_this st idn")
    case True
    then have "o' = cu_FileOffset st" using inv by (auto simp: start audit_start_def audit_read_up_to_def reads_this_def)
    with True inv show ?thesis by (simp add: audit_read_up_to_def)
  next
    case False
    then have "o' = 0" "evs = []" using inv init assms(3) by (auto simp: start audit_start_def audit_read_up_to_def split: prod.splits)
    then show ?thesis by (simp add: whole_lines_def)
  qed
  moreover from this have "take (nat (o' + int n)) c = take (nat o') c @ take n (drop (nat o') c)"
    by (simp add: nat_add_distrib take_add)
  ultimately show ?thesis
    using rd by (auto simp: audit_records_append whole_lines_append nat_add_distrib intro: list_all2_appendI)
qed

lemma auditing_invariant:
  assumes "auditing C K cfg idn c s evs" and "ns_FromStart cfg"
  shows "as_config s = cfg \<and> snd idn \<noteq> 0 \<and> audit_read_up_to C cfg idn c (cf_state (as_cursor s)) evs"
  using assms(1)
proof induction
  case (start cur s idn c)
  then show ?case by (auto simp: newAuditSource_def audit_read_up_to_def reads_this_def split: if_splits)
next
  case (grow idn c s evs t)
  then show ?case by (auto simp: audit_read_up_to_def split: if_splits)
next
  case (rotate idn c s evs idn' c')
  then show ?case by (auto simp: audit_read_up_to_def reads_this_def split: if_splits)
next
  case (poll idn c s evs E w b w1 "next" w2 cur w3)
  let ?st = "cf_state (as_cursor s)"
  have cfg: "as_config s = cfg" and id: "snd idn \<noteq> 0" and inv: "audit_read_up_to C cfg idn c ?st evs" using poll.IH by simp_all
  obtain now where cur: "cf_state cur = stamped (as_cursor s) now next" using committed_state [OF poll.hyps(6)] by blast
  have "reads_this (cf_state cur) idn" if "next = audit_next ?st idn n" for n
    by (simp add: cur that reads_this_def stamped_position audit_next_position)
  moreover have off: "cu_FileOffset (cf_state cur) = n" if "next = audit_next ?st idn n" for n
    by (simp add: cur that stamped_position audit_next_position)
  moreover from audit_Poll_batch [OF poll.hyps(4,5)] poll.hyps(2,3) cfg consider
      (first) "\<not> cu_Initialized ?st" "bt_events b = []" "next = audit_next ?st idn 0"
    | (later) n where "cu_Initialized ?st" "next = audit_next ?st idn (audit_start ?st idn (int (length c)) + int n)"
        "audit_lines C E (ns_ID cfg) (ns_Path cfg) (ns_MaxBatch cfg) 0 (drop (nat (audit_start ?st idn (int (length c)))) c) = Inr (bt_events b, n)"
    using assms(2) by auto
  then have "audit_read_up_to C cfg idn c (cf_state cur) (evs @ bt_events b)"
  proof cases
    case first
    then have "evs = []" using inv by (auto simp: audit_read_up_to_def reads_this_def)
    then show ?thesis using first calculation by (simp add: audit_read_up_to_def whole_lines_def)
  next
    case later
    from audit_read_further [OF inv later(1) id later(3) refl] show ?thesis
      using calculation(1,2) [OF later(2)] by (simp add: audit_read_up_to_def)
  qed
  then show ?case using cfg id by simp
qed


lemma takeWhile_long:
  assumes "newline \<notin> set (take m s)" "m < length s"
  shows "m \<le> length (takeWhile (\<lambda>c. c \<noteq> newline) s)"
  using assms
proof (induction s arbitrary: m)
  case (Cons c s)
  then show ?case by (cases m) auto
qed simp

lemma readAuditLine_overlong:
  assumes "newline \<notin> set (take m s)" "m < length s"
  shows "readAuditLine (int m) s = None"
proof (cases "newline \<in> set s")
  case True
  then show ?thesis using takeWhile_long [OF assms] by (simp add: readAuditLine_def)
next
  case False
  then have all: "takeWhile (\<lambda>c. c \<noteq> newline) s = s" unfolding takeWhile_eq_all_conv by blast
  show ?thesis using False assms(2) by (simp add: readAuditLine_def Let_def all)
qed

text \<open>A record of more than 1 MiB stops the source for good: once the position stands in front of it, no poll without system failures
  returns an event or moves the position, however much is appended to the log.\<close>

theorem overlong_record_blocks:
  assumes "healthy w" and "fs_content (files w) (ns_Path (as_config s)) = Some (c @ t)" and "cu_Initialized (cf_state (as_cursor s))"
    and "ae_identity E = (cu_FileDevice (cf_state (as_cursor s)), cu_FileInode (cf_state (as_cursor s)))"
    and "\<not> ae_cancelled E 0" and "0 < ns_MaxBatch (as_config s)" and "cu_FileOffset (cf_state (as_cursor s)) = int o'"
    and "o' + nat maxAuditLineBytes < length c" and "newline \<notin> set (take (nat maxAuditLineBytes) (drop o' c))"
  shows "audit_Poll C E s w = (audit_failed E AudTooLong, w)"
proof -
  let ?st = "cf_state (as_cursor s)" and ?rest = "drop o' (c @ t)"
  have nf: "next_fault w = (FOk, w)" using assms(1) by (simp add: healthy_def next_fault_none)
  have op: "os_Open (ns_Path (as_config s)) w = (Inr (c @ t), w)"
    using assms(2) nf by (auto simp: os_Open_def fs_content_def)
  have call: "file_call w = (Inr (), w)" using nf by (simp add: file_call_def)
  have start: "audit_start ?st (ae_identity E) (int (length (c @ t))) = int o'"
    using assms(7,8) by (simp add: audit_start_def assms(4))
  have "newline \<notin> set (take (nat maxAuditLineBytes) ?rest)" "nat maxAuditLineBytes < length ?rest"
    using assms(8,9) by simp_all
  then have "readAuditLine (int (nat maxAuditLineBytes)) ?rest = None" by (rule readAuditLine_overlong)
  then have "readAuditLine maxAuditLineBytes ?rest = None" by (simp add: maxAuditLineBytes_def)
  then have "audit_lines C E (ns_ID (as_config s)) (ns_Path (as_config s)) (ns_MaxBatch (as_config s)) 0 ?rest = Inl AudTooLong"
    using assms(5,6) by (subst audit_lines.simps) simp
  then show ?thesis
    using op call start assms(3) by (simp add: audit_Poll_def Let_def cursor_Snapshot_def)
qed

section \<open>A run\<close>

definition toy_audit_config :: NativeSource where
  "toy_audit_config = \<lparr>ns_ID = ''audit'', ns_Enabled = True, ns_Kind = ''auditd'', ns_Channel = [], ns_EventIDs = [], ns_Units = [],
     ns_Identifiers = [], ns_Path = ''/l'', ns_FromStart = True, ns_MaxBatch = 1, ns_CommandTimeout = []\<rparr>"

definition toy_audit_source :: "cursorState \<Rightarrow> auditSource" where
  "toy_audit_source st = \<lparr>as_config = toy_audit_config, as_cursor = toy_cursor\<lparr>cf_state := st\<rparr>\<rparr>"

definition toy_audit_env :: audit_env where
  "toy_audit_env = \<lparr>ae_identity = (1, 7), ae_cancelled = (\<lambda>_. False), ae_line = (\<lambda>_. toy_draw), ae_show = (\<lambda>_. []), ae_rnd = ''42''\<rparr>"

definition toy_audit_log :: string where
  "toy_audit_log = ''type=EXECVE a0=id'' @ [newline] @ ''type=CWD cw''"

definition toy_audit_world :: "string \<Rightarrow> world" where
  "toy_audit_world s = \<lparr>files = [(''/l'', \<lparr>content = s, perm = 0, mtime = 0\<rparr>)], faults = [], events = [], clock = 1, clock_steps = []\<rparr>"


lemma overlong_record_blocks_witness:
  "audit_Poll toy_crypto toy_audit_env (toy_audit_source ((new_cursor [] [])\<lparr>cu_Initialized := True, cu_FileDevice := 1, cu_FileInode := 7\<rparr>))
     (toy_audit_world (replicate 1048580 CHR ''x'' @ [])) =
   (audit_failed toy_audit_env AudTooLong, toy_audit_world (replicate 1048580 CHR ''x'' @ []))"
proof (rule overlong_record_blocks [where o' = 0])
  show "healthy (toy_audit_world (replicate 1048580 CHR ''x'' @ []))" by (simp add: healthy_def toy_audit_world_def)
  show "newline \<notin> set (take (nat maxAuditLineBytes) (drop 0 (replicate 1048580 CHR ''x'')))" by simp
qed (simp_all add: toy_audit_world_def toy_audit_source_def toy_audit_config_def toy_audit_env_def toy_cursor_def new_cursor_def
    fs_content_def fs_get_def maxAuditLineBytes_def)

end
