(* ===== verification/Journald.thy ===== *)
theory Journald
  imports Auditd
begin

text \<open>
  The native source for the systemd journal: \<open>internal/collector/native/journald.go\<close>, and the running of a command with bounded
  output, \<open>command.go\<close>. What \<open>journalctl\<close> does is a parameter of a poll (for a list of arguments, how the process ended
  and what it wrote), as is the decoding of one line of JSON, whose numbers keep their text. A command that runs into its
  time limit is one that ended with an error.
\<close>

section \<open>Running a command\<close>

definition maxCommandOutput :: int where "maxCommandOutput = 32 * 1024 * 1024"
definition maxCommandError :: int where "maxCommandError = 64 * 1024"

text \<open>\<open>limitedBuffer.Write\<close>: the bytes accepted, whether all of them were, and the new content.\<close>

definition limitedBuffer_Write :: "int \<Rightarrow> string \<Rightarrow> string \<Rightarrow> nat \<times> bool \<times> string" where
  "limitedBuffer_Write cap buffer text =
     (let remaining = cap - int (length buffer)
      in if remaining \<le> 0 then (0, False, buffer)
         else if remaining < int (length text) then (nat remaining, False, buffer @ take (nat remaining) text)
         else (length text, True, buffer @ text))"

text \<open>The pieces of an output are written one after the other until one is refused.\<close>

fun collect_output :: "int \<Rightarrow> string \<Rightarrow> string list \<Rightarrow> bool \<times> string" where
  "collect_output cap buffer [] = (True, buffer)"
| "collect_output cap buffer (p # ps) =
     (case limitedBuffer_Write cap buffer p of (_, ok, b) \<Rightarrow> if ok then collect_output cap b ps else (False, b))"

record process_end =
  pe_failed :: "string option"
  pe_timeout :: bool
  pe_stdout :: "string list"
  pe_stderr :: "string list"

datatype command_error = CmdTimeout | CmdFailed string string string

definition copy_error :: string where "copy_error = ''command output limit exceeded''"

definition runCommand :: "(string list \<Rightarrow> process_end) \<Rightarrow> string \<Rightarrow> string list \<Rightarrow> (command_error, string) result" where
  "runCommand P name args =
     (let p = P args;
          (ok1, out) = collect_output maxCommandOutput [] (pe_stdout p);
          (ok2, err) = collect_output maxCommandError [] (pe_stderr p);
          failure = (case pe_failed p of Some e \<Rightarrow> Some e | None \<Rightarrow> if ok1 \<and> ok2 then None else Some copy_error)
      in case failure of
           None \<Rightarrow> Inr out
         | Some e \<Rightarrow> Inl (if pe_timeout p then CmdTimeout else CmdFailed name e (TrimSpace err)))"

section \<open>Values of a record\<close>

text \<open>\<open>fmt.Sprint\<close> on what decoding JSON yields; the keys of a map are sorted.\<close>

fun Sprint :: "gval \<Rightarrow> string" where
  "Sprint VNil = ''<nil>''"
| "Sprint (VBool b) = (if b then ''true'' else ''false'')"
| "Sprint (VNumber s) = s"
| "Sprint (VString s) = s"
| "Sprint (VList vs) = ''['' @ Join (map Sprint vs) '' '' @ '']''"
| "Sprint (VMap m) = ''map['' @ Join (map snd (sort_key fst (map (\<lambda>(k, v). (k, k @ '':'' @ Sprint v)) m))) '' '' @ '']''"
| "Sprint (VStrings ss) = ''['' @ Join ss '' '' @ '']''"
| "Sprint (VInt i) = Itoa i"
| "Sprint (VFloat x) = []"
| "Sprint (VComposite v) = []"

definition journalString :: "gmap \<Rightarrow> string \<Rightarrow> string" where
  "journalString record key =
     (case map_of record key of
        None \<Rightarrow> []
      | Some VNil \<Rightarrow> []
      | Some (VString s) \<Rightarrow> TrimSpace s
      | Some (VNumber s) \<Rightarrow> s
      | Some (VList vs) \<Rightarrow> Join (map (\<lambda>v. TrimSpace (Sprint v)) vs) '' ''
      | Some v \<Rightarrow> TrimSpace (Sprint v))"

definition cloneJournalRecord :: "gmap \<Rightarrow> gmap" where "cloneJournalRecord m = m"

definition journalIdentifierHash :: "crypto \<Rightarrow> string \<Rightarrow> string \<Rightarrow> string" where
  "journalIdentifierHash C scope value = sha_hex C (scope @ CHR 0x00 # value)"

definition journalTimestamp :: "gtime \<Rightarrow> gmap \<Rightarrow> gtime" where
  "journalTimestamp now record =
     (case ParseInt10 (journalString record ''__REALTIME_TIMESTAMP'') of
        NumOk microseconds \<Rightarrow> if microseconds \<le> 0 then now else of_UnixNano (wrap64 (microseconds * 1000))
      | _ \<Rightarrow> now)"

definition journalSeverity :: "string \<Rightarrow> Severity" where
  "journalSeverity priority =
     (case Atoi (TrimSpace priority) of
        NumOk n \<Rightarrow>
          if n = 0 \<or> n = 1 \<or> n = 2 then SeverityCritical
          else if n = 3 then SeverityHigh
          else if n = 4 then SeverityMedium
          else if n = 5 then SeverityLow
          else SeverityInfo
      | _ \<Rightarrow> SeverityInfo)"

definition journalEventKind :: "string \<Rightarrow> string \<Rightarrow> string \<Rightarrow> string \<Rightarrow> string" where
  "journalEventKind ident unit message transport =
     (let i = ToLower ident; u = ToLower unit; m = ToLower message
      in if transport = ''audit'' \<or> Contains i ''audit'' then ''linux.audit''
         else if Contains i ''sshd'' \<or> Contains u ''ssh''
         then (if Contains m ''failed password'' \<or> Contains m ''authentication failure'' then ''auth.failure''
               else if Contains m ''accepted password'' \<or> Contains m ''accepted publickey'' then ''auth.success''
               else if Contains m ''session opened'' then ''auth.session_open''
               else if Contains m ''session closed'' then ''auth.session_close''
               else ''auth.ssh'')
         else if Contains i ''sudo'' \<or> Contains u ''sudo'' then ''privilege.sudo''
         else if Contains u ''.service'' \<and> Contains m ''started'' then ''service.start''
         else if Contains u ''.service'' \<and> (Contains m ''stopped'' \<or> Contains m ''failed'') then ''service.stop''
         else if transport = ''kernel'' \<or> i = ''kernel'' then ''kernel.message''
         else ''linux.journal'')"

definition directionForJournalKind :: "string \<Rightarrow> string" where
  "directionForJournalKind kind = (if HasPrefix kind ''auth.'' then ''inbound'' else [])"

definition address_char :: "char \<Rightarrow> bool" where
  "address_char c = (re_digit c \<or> (CHR ''a'' \<le> lower_char c \<and> lower_char c \<le> CHR ''f'') \<or> c = CHR '':'' \<or> c = CHR ''.'')"

definition sshAuthentication :: regex where
  "sshAuthentication = RSeqs [RBoundary, RGroup 1 (RAlts [RFold ''failed'', RFold ''accepted'']), RSpaces1,
     RAlts [RFold ''password'', RFold ''publickey'', RFold ''keyboard-interactive''], RSpaces1, RFold ''for'', RSpaces1,
     ROpt (RSeq (RFold ''invalid user'') RSpaces1), RGroup 2 (RPlus RNotSpace), RSpaces1, RFold ''from'', RSpaces1,
     RGroup 3 (RPlus (RChar address_char)), RSpaces1, RFold ''port'', RSpaces1, RGroup 4 (RPlus RDigit)]"

section \<open>Events\<close>

text \<open>User, address and port: from the text of an authentication, or the user the record names.\<close>

definition journal_login :: "gmap \<Rightarrow> string \<times> string \<times> int" where
  "journal_login record =
     (case FindStringSubmatch sshAuthentication (journalString record ''MESSAGE'') of
        None \<Rightarrow> (journalString record ''_UID'', [], 0)
      | Some g \<Rightarrow> (g 2, g 3, num_value (Atoi (g 4))))"

definition journal_attributes :: "crypto \<Rightarrow> gmap \<Rightarrow> gmap" where
  "journal_attributes C record =
     (let attributes = AList.delete ''__CURSOR'' (cloneJournalRecord record); bootID = journalString record ''_BOOT_ID'';
          hashed = (if bootID \<noteq> [] then AList.update ''boot_id_hash'' (VString (journalIdentifierHash C ''boot'' bootID)) attributes else attributes)
      in AList.delete ''_BOOT_ID'' hashed)"

definition journal_event :: "crypto \<Rightarrow> gtime \<Rightarrow> string \<Rightarrow> gmap \<Rightarrow> Event" where
  "journal_event C now sourceID record =
     (let S = journalString record;
          message = S ''MESSAGE'';
          ident = firstValue [S ''SYSLOG_IDENTIFIER'', S ''_COMM''];
          unit = S ''_SYSTEMD_UNIT'';
          kind = journalEventKind ident unit message (S ''_TRANSPORT'');
          (user, sourceIP, sourcePort) = journal_login record
      in zero_Event\<lparr>ev_ID := deterministicEventID C [''journal'', sourceID, S ''__CURSOR''],
           ev_Timestamp := journalTimestamp now record, ev_Kind := kind, ev_Severity := journalSeverity (S ''PRIORITY''),
           ev_Trust := TrustUntrustedTelemetry,
           ev_Asset := (ev_Asset zero_Event)\<lparr>asset_Hostname := S ''_HOSTNAME'', asset_OS := ''linux''\<rparr>,
           ev_Actor := (ev_Actor zero_Event)\<lparr>actor_User := user, actor_AccountID := S ''_AUDIT_LOGINUID''\<rparr>,
           ev_Process := (ev_Process zero_Event)\<lparr>proc_PID := flexibleInt (S ''_PID''), proc_Image := firstValue [S ''_EXE'', S ''_COMM''],
             proc_CommandLine := S ''_CMDLINE''\<rparr>,
           ev_Network := (ev_Network zero_Event)\<lparr>net_SourceIP := sourceIP, net_SourcePort := sourcePort,
             net_Direction := directionForJournalKind kind\<rparr>,
           ev_Message := message,
           ev_Attributes := Some [(''journal'', VMap [(''identifier'', VString ident), (''unit'', VString unit),
             (''transport'', VString (S ''_TRANSPORT'')), (''facility'', VString (S ''SYSLOG_FACILITY'')),
             (''record'', VMap (journal_attributes C record))])],
           ev_Provenance := (provenance sourceID ''linux-journald/journalctl'')\<lparr>prov_OriginalPath := unit\<rparr>\<rparr>)"

definition journalRecordToEvent :: "crypto \<Rightarrow> draw \<Rightarrow> string \<Rightarrow> gmap \<Rightarrow> Event" where
  "journalRecordToEvent C d sourceID record = prepared d (journal_event C (dw_time d) sourceID record)"

section \<open>Queries\<close>

definition journalArguments :: "string \<Rightarrow> gtime \<Rightarrow> bool \<Rightarrow> int \<Rightarrow> string list \<Rightarrow> string list \<Rightarrow> string list" where
  "journalArguments afterCursor since reverse maximum units identifiers =
     [''--no-pager'', ''--quiet'', ''--all'', ''--output=json'', (if reverse then ''--lines='' else ''--lines=+'') @ Itoa maximum]
     @ (if reverse then [''--reverse''] else [])
     @ (if afterCursor \<noteq> [] then [''--after-cursor='' @ afterCursor]
        else if \<not> IsZero since then [''--since=@'' @ Itoa (Unix since)] else [])
     @ map (\<lambda>unit. ''--unit='' @ unit) units @ map (\<lambda>i. ''--identifier='' @ i) identifiers"

datatype journal_source_error = JsrcCommand command_error | JsrcDecode | JsrcTooLong | JsrcNoCursors

definition maxJournalLine :: nat where "maxJournalLine = 4 * 1024 * 1024"

text \<open>The loop over the lines of the output.\<close>

function decode_lines :: "(string \<Rightarrow> gmap option) \<Rightarrow> string \<Rightarrow> (journal_source_error, gmap list) result" where
  "decode_lines J s =
     (case Scan maxJournalLine s of
        TokEOF \<Rightarrow> Inr []
      | TokTooLong \<Rightarrow> Inl JsrcTooLong
      | Tok raw rest \<Rightarrow>
          (let line = TrimSpace raw
           in if line = [] \<or> HasPrefix line ''-- cursor:'' then decode_lines J rest
              else case J line of
                     None \<Rightarrow> Inl JsrcDecode
                   | Some record \<Rightarrow> (case decode_lines J rest of Inl e \<Rightarrow> Inl e | Inr rs \<Rightarrow> Inr (record # rs))))"
  by pat_completeness auto
termination by (relation "measure (\<lambda>(J, s). length s)") (auto dest: Scan_shorter)

declare decode_lines.simps [simp del]

definition decodeJournalRecords :: "(string \<Rightarrow> gmap option) \<Rightarrow> string \<Rightarrow> (journal_source_error, gmap list) result" where
  "decodeJournalRecords J text = decode_lines J text"

record journalSource =
  js_config :: NativeSource
  js_cursor :: cursorFile

record journal_env =
  je_command :: "string list \<Rightarrow> process_end"
  je_decode :: "string \<Rightarrow> gmap option"
  je_now :: gtime
  je_record :: "nat \<Rightarrow> draw"
  je_show :: "journal_source_error \<Rightarrow> string"
  je_rnd :: string

definition journal_query :: "journal_env \<Rightarrow> NativeSource \<Rightarrow> string \<Rightarrow> gtime \<Rightarrow> bool \<Rightarrow> int \<Rightarrow> (journal_source_error, gmap list) result" where
  "journal_query E cfg afterCursor since reverse maximum =
     (case runCommand (je_command E) ''journalctl'' (journalArguments afterCursor since reverse maximum (ns_Units cfg) (ns_Identifiers cfg)) of
        Inl e \<Rightarrow> Inl (JsrcCommand e)
      | Inr output \<Rightarrow> decodeJournalRecords (je_decode E) output)"

section \<open>Polling\<close>

definition journal_batch :: "journal_env \<Rightarrow> Event list \<Rightarrow> cursorState option \<Rightarrow> batch" where
  "journal_batch E evs next = \<lparr>bt_events = evs, bt_errors = [], bt_commit = next, bt_rnd = je_rnd E\<rparr>"

definition journal_failed :: "journal_env \<Rightarrow> journal_source_error \<Rightarrow> batch" where
  "journal_failed E e = \<lparr>bt_events = [], bt_errors = [je_show E e], bt_commit = None, bt_rnd = je_rnd E\<rparr>"

text \<open>The loop over the records: their events and the next position; a record without a cursor is left out. \<open>k\<close> counts the records.\<close>

fun journal_records :: "crypto \<Rightarrow> journal_env \<Rightarrow> string \<Rightarrow> nat \<Rightarrow> cursorState \<Rightarrow> gmap list \<Rightarrow> Event list \<times> cursorState" where
  "journal_records C E sourceID k next [] = ([], next)"
| "journal_records C E sourceID k next (r # rs) =
     (let cursor = journalString r ''__CURSOR''
      in if cursor = [] then journal_records C E sourceID (Suc k) next rs
         else let (evs, next1) = journal_records C E sourceID (Suc k) (next\<lparr>cu_JournalCursor := cursor, cu_JournalSince := 0\<rparr>) rs
              in (journalRecordToEvent C (je_record E k) sourceID r # evs, next1))"

definition journal_Poll :: "crypto \<Rightarrow> journal_env \<Rightarrow> journalSource \<Rightarrow> batch" where
  "journal_Poll C E s =
     (let cfg = js_config s; state0 = cursor_Snapshot (js_cursor s)
      in if \<not> cu_Initialized state0 \<and> \<not> ns_FromStart cfg
         then (case journal_query E cfg [] 0 True 1 of
                 Inl e \<Rightarrow> journal_failed E e
               | Inr records \<Rightarrow>
                   (let next = state0\<lparr>cu_Initialized := True\<rparr>
                    in journal_batch E [] (Some (case records of
                         r # _ \<Rightarrow> next\<lparr>cu_JournalCursor := journalString r ''__CURSOR''\<rparr>
                       | [] \<Rightarrow> next\<lparr>cu_JournalSince := je_now E\<rparr>))))
         else let state = (if \<not> cu_Initialized state0 then state0\<lparr>cu_Initialized := True, cu_JournalSince := of_UnixNano 0\<rparr> else state0)
              in case journal_query E cfg (cu_JournalCursor state) (cu_JournalSince state) False (ns_MaxBatch cfg) of
                   Inl e \<Rightarrow> journal_failed E e
                 | Inr records \<Rightarrow>
                     (if records = []
                      then journal_batch E [] (if \<not> cu_Initialized state0 then Some state else None)
                      else case journal_records C E (ns_ID cfg) 0 state records of
                             (evs, next) \<Rightarrow> if evs = [] then journal_failed E JsrcNoCursors else journal_batch E evs (Some next)))"

section \<open>Bounded output\<close>

lemma Write_ok: "limitedBuffer_Write cap b p = (n, True, b') \<Longrightarrow> b' = b @ p \<and> int (length b') \<le> cap"
  by (auto simp: limitedBuffer_Write_def Let_def split: if_splits)

lemma collect_output_ok:
  assumes "collect_output cap b ps = (True, out)" and "int (length b) \<le> cap"
  shows "out = b @ concat ps \<and> int (length out) \<le> cap"
  using assms
proof (induction ps arbitrary: b)
  case (Cons p ps)
  obtain n ok b' where w: "limitedBuffer_Write cap b p = (n, ok, b')" by (metis prod_cases3)
  with Cons.prems have ok: "ok" "collect_output cap b' ps = (True, out)" by (auto split: if_splits)
  with w Write_ok [of cap b p n b'] have "b' = b @ p" "int (length b') \<le> cap" by auto
  with Cons.IH [OF ok(2)] show ?case by auto
qed simp

text \<open>The output of a command is used only whole: it is everything the process wrote, at most 32 MiB, and the process wrote at most
  64 KiB to its error output and ended without an error; a longer output is an error and never a truncated result.\<close>

theorem command_output_is_whole:
  assumes "runCommand P name args = Inr out"
  shows "out = concat (pe_stdout (P args)) \<and> int (length out) \<le> maxCommandOutput
    \<and> int (length (concat (pe_stderr (P args)))) \<le> maxCommandError \<and> pe_failed (P args) = None"
proof -
  obtain ok1 o1 ok2 o2 where c: "collect_output maxCommandOutput [] (pe_stdout (P args)) = (ok1, o1)"
    "collect_output maxCommandError [] (pe_stderr (P args)) = (ok2, o2)" by (metis prod.exhaust)
  with assms have "pe_failed (P args) = None" "ok1" "ok2" "out = o1"
    by (auto simp: runCommand_def Let_def split: option.splits if_splits)
  with c collect_output_ok [of maxCommandOutput "[]" "pe_stdout (P args)" o1] collect_output_ok [of maxCommandError "[]" "pe_stderr (P args)" o2]
  show ?thesis by (auto simp: maxCommandOutput_def maxCommandError_def)
qed

section \<open>Reading in order\<close>

definition cursor_of :: "gmap \<Rightarrow> string" where "cursor_of r = journalString r ''__CURSOR''"

text \<open>A journal: every entry has a cursor of its own.\<close>

definition journal_log :: "gmap list \<Rightarrow> bool" where
  "journal_log ents = (distinct (map cursor_of ents) \<and> [] \<notin> set (map cursor_of ents))"

text \<open>What the manual of \<open>journalctl\<close> says of \<open>--lines=+n\<close> with \<open>--after-cursor\<close> and with \<open>--since=@0\<close>: the first \<open>n\<close> entries after that one,
  or from the beginning. The query may also fail.\<close>

definition answers :: "(journal_source_error, gmap list) result \<Rightarrow> gmap list \<Rightarrow> bool" where
  "answers q rs = (case q of Inl _ \<Rightarrow> True | Inr rs' \<Rightarrow> rs' = rs)"

definition serves :: "journal_env \<Rightarrow> NativeSource \<Rightarrow> gmap list \<Rightarrow> bool" where
  "serves E cfg ents =
     (answers (journal_query E cfg [] (of_UnixNano 0) False (ns_MaxBatch cfg)) (take (nat (ns_MaxBatch cfg)) ents) \<and>
      (\<forall>i<length ents. answers (journal_query E cfg (cursor_of (ents ! i)) 0 False (ns_MaxBatch cfg))
         (take (nat (ns_MaxBatch cfg)) (drop (Suc i) ents))))"

definition record_event :: "crypto \<Rightarrow> NativeSource \<Rightarrow> Event \<Rightarrow> gmap \<Rightarrow> bool" where
  "record_event C cfg e r = (\<exists>d. e = journalRecordToEvent C d (ns_ID cfg) r)"

inductive journaling :: "crypto \<Rightarrow> cursor_codec \<Rightarrow> NativeSource \<Rightarrow> gmap list \<Rightarrow> journalSource \<Rightarrow> Event list \<Rightarrow> bool" for C K cfg where
  start: "cf_state cur = new_cursor i k \<Longrightarrow> journaling C K cfg ents \<lparr>js_config = cfg, js_cursor = cur\<rparr> []"
| grow: "journaling C K cfg ents s evs \<Longrightarrow> journaling C K cfg (ents @ new) s evs"
| poll: "journaling C K cfg ents s evs \<Longrightarrow> serves E cfg ents \<Longrightarrow> journal_log ents \<Longrightarrow> bt_commit (journal_Poll C E s) = Some next \<Longrightarrow>
    cursor_Commit K (je_rnd E) next (js_cursor s) w = (Inr (), cur, w') \<Longrightarrow>
    journaling C K cfg ents (s\<lparr>js_cursor := cur\<rparr>) (evs @ bt_events (journal_Poll C E s))"

definition journal_read_up_to :: "crypto \<Rightarrow> NativeSource \<Rightarrow> gmap list \<Rightarrow> cursorState \<Rightarrow> Event list \<Rightarrow> bool" where
  "journal_read_up_to C cfg ents st evs =
     (length evs \<le> length ents \<and> list_all2 (record_event C cfg) evs (take (length evs) ents)
      \<and> (if evs = [] then cu_JournalCursor st = [] \<and> (cu_Initialized st \<longrightarrow> cu_JournalSince st = of_UnixNano 0)
         else cu_Initialized st \<and> cu_JournalCursor st = cursor_of (ents ! (length evs - 1)) \<and> cu_JournalSince st = 0))"

lemma journal_records_all:
  assumes "\<forall>r\<in>set rs. cursor_of r \<noteq> []" and "journal_records C E (ns_ID cfg) k next rs = (evs, next')"
  shows "list_all2 (record_event C cfg) evs rs
    \<and> next' = (if rs = [] then next else next\<lparr>cu_JournalCursor := cursor_of (last rs), cu_JournalSince := 0\<rparr>)"
  using assms
proof (induction rs arbitrary: k "next" evs next')
  case (Cons r rs)
  let ?n = "next\<lparr>cu_JournalCursor := cursor_of r, cu_JournalSince := 0\<rparr>"
  obtain evs1 n1 where run: "journal_records C E (ns_ID cfg) (Suc k) ?n rs = (evs1, n1)" by (rule prod.exhaust)
  with Cons.prems have e: "evs = journalRecordToEvent C (je_record E k) (ns_ID cfg) r # evs1" "next' = n1"
    by (simp_all add: cursor_of_def)
  from Cons.IH [OF _ run] Cons.prems(1) e show ?case by (auto simp: record_event_def)
qed simp

lemma stamped_journal:
  "cu_JournalCursor (stamped c now s) = cu_JournalCursor s" "cu_JournalSince (stamped c now s) = cu_JournalSince s"
  by (simp_all add: stamped_def)

text \<open>The entries a poll asks for are the next ones.\<close>

definition queried :: "cursorState \<Rightarrow> cursorState" where
  "queried st = (if cu_Initialized st then st else st\<lparr>cu_Initialized := True, cu_JournalSince := of_UnixNano 0\<rparr>)"

lemma next_entries:
  assumes "journal_read_up_to C cfg ents st evs" and "serves E cfg ents"
    and "journal_query E cfg (cu_JournalCursor (queried st)) (cu_JournalSince (queried st)) False (ns_MaxBatch cfg) = Inr rs"
  shows "rs = take (nat (ns_MaxBatch cfg)) (drop (length evs) ents)"
proof (cases "evs = []")
  case True
  then show ?thesis using assms by (auto simp: journal_read_up_to_def serves_def answers_def queried_def split: if_splits)
next
  case False
  then have "cu_JournalCursor (queried st) = cursor_of (ents ! (length evs - 1))" "cu_JournalSince (queried st) = 0" "length evs - 1 < length ents"
    using assms(1) by (cases evs; auto simp: journal_read_up_to_def queried_def)+
  then have "answers (Inr rs) (take (nat (ns_MaxBatch cfg)) (drop (Suc (length evs - 1)) ents))"
    using assms(2,3) unfolding serves_def by metis
  then show ?thesis using False by (simp add: answers_def)
qed

lemma journal_Poll_batch:
  assumes "ns_FromStart (js_config s)" and "bt_commit (journal_Poll C E s) = Some next"
  defines "st \<equiv> cf_state (js_cursor s)"
  shows "\<exists>rs. journal_query E (js_config s) (cu_JournalCursor (queried st)) (cu_JournalSince (queried st)) False (ns_MaxBatch (js_config s)) = Inr rs
    \<and> (rs = [] \<and> bt_events (journal_Poll C E s) = [] \<and> next = queried st
       \<or> journal_records C E (ns_ID (js_config s)) 0 (queried st) rs = (bt_events (journal_Poll C E s), next))"
  using assms(1,2) unfolding st_def
  by (auto simp: journal_Poll_def queried_def journal_failed_def journal_batch_def Let_def cursor_Snapshot_def
      split: sum.splits if_splits prod.splits)

lemma journaling_step:
  assumes inv: "journal_read_up_to C cfg ents st evs" and "journal_log ents"
    and rs: "rs = take m (drop (length evs) ents)" and run: "journal_records C E (ns_ID cfg) k (queried st) rs = (new, next)"
  shows "journal_read_up_to C cfg ents next (evs @ new)"
proof -
  have "\<forall>r\<in>set rs. cursor_of r \<noteq> []"
    using assms(2) in_set_dropD [of _ "length evs" ents] in_set_takeD [of _ m "drop (length evs) ents"]
    unfolding rs journal_log_def by (metis image_eqI list.set_map)
  from journal_records_all [OF this run] have new: "list_all2 (record_event C cfg) new rs"
    and nxt: "next = (if rs = [] then queried st else (queried st)\<lparr>cu_JournalCursor := cursor_of (last rs), cu_JournalSince := 0\<rparr>)" by simp_all
  have len: "length new = length rs" using new by (rule list_all2_lengthD)
  have le: "length evs \<le> length ents" using inv by (simp add: journal_read_up_to_def)
  have q: "cu_Initialized (queried st)" by (simp add: queried_def)
  have "rs = take (length rs) (drop (length evs) ents)" by (auto simp: rs min_def)
  then have "take (length (evs @ new)) ents = take (length evs) ents @ rs"
    using len by (simp add: take_add)
  moreover have "length (evs @ new) \<le> length ents" using len le by (simp add: rs)
  moreover have "list_all2 (record_event C cfg) evs (take (length evs) ents)" using inv by (simp add: journal_read_up_to_def)
  moreover have "last rs = ents ! (length (evs @ new) - 1)" if "rs \<noteq> []"
  proof -
    have "last rs = rs ! (length rs - 1)" using that by (rule last_conv_nth)
    also have "\<dots> = ents ! (length evs + (length rs - 1))"
    proof -
      have "rs ! i = ents ! (length evs + i)" if "i < length rs" for i using that le by (simp add: rs)
      then show ?thesis using that by simp
    qed
    finally show ?thesis using that len by (cases rs) auto
  qed
  moreover have "rs = [] \<Longrightarrow> new = []" "rs \<noteq> [] \<Longrightarrow> evs @ new \<noteq> []" using len by auto
  ultimately show ?thesis
    using new nxt inv q by (auto simp: journal_read_up_to_def queried_def intro: list_all2_appendI split: if_splits)
qed

lemma journal_read_up_to_grow: "journal_read_up_to C cfg ents st evs \<Longrightarrow> journal_read_up_to C cfg (ents @ new) st evs"
  by (cases evs) (auto simp: journal_read_up_to_def nth_append)

lemma journal_read_up_to_stamped: "journal_read_up_to C cfg ents (stamped c now st) evs = journal_read_up_to C cfg ents st evs"
  by (simp add: journal_read_up_to_def stamped_position stamped_journal)

lemma journaling_invariant:
  assumes "journaling C K cfg ents s evs" and "ns_FromStart cfg"
  shows "js_config s = cfg \<and> journal_read_up_to C cfg ents (cf_state (js_cursor s)) evs"
  using assms(1)
proof induction
  case (start cur i k ents)
  then show ?case by (simp add: journal_read_up_to_def new_cursor_def)
next
  case (grow ents s evs new)
  then show ?case using journal_read_up_to_grow by blast
next
  case (poll ents s evs E "next" w cur w')
  let ?st = "cf_state (js_cursor s)"
  have cfg: "js_config s = cfg" and inv: "journal_read_up_to C cfg ents ?st evs" using poll.IH by simp_all
  obtain now where cur: "cf_state cur = stamped (js_cursor s) now next" using committed_state [OF poll.hyps(5)] by blast
  from journal_Poll_batch [of s C E "next"] assms(2) poll.hyps(4) cfg obtain rs where
    q: "journal_query E cfg (cu_JournalCursor (queried ?st)) (cu_JournalSince (queried ?st)) False (ns_MaxBatch cfg) = Inr rs" and
    or: "rs = [] \<and> bt_events (journal_Poll C E s) = [] \<and> next = queried ?st
       \<or> journal_records C E (ns_ID cfg) 0 (queried ?st) rs = (bt_events (journal_Poll C E s), next)" by auto
  have "journal_records C E (ns_ID cfg) 0 (queried ?st) rs = (bt_events (journal_Poll C E s), next)" using or by auto
  from journaling_step [OF inv poll.hyps(3) next_entries [OF inv poll.hyps(2) q] this] cfg
  show ?case by (simp add: cur journal_read_up_to_stamped)
qed


section \<open>A run\<close>

definition toy_journal_config :: NativeSource where
  "toy_journal_config = toy_audit_config\<lparr>ns_Kind := ''journald''\<rparr>"

text \<open>A journal of two entries, one per line, and a \<open>journalctl\<close> that serves it one entry at a time.\<close>

definition toy_record :: "string \<Rightarrow> gmap" where
  "toy_record c = [(''__CURSOR'', VString c), (''MESSAGE'', VString c)]"

definition toy_journal_env :: journal_env where
  "toy_journal_env = \<lparr>je_command = (\<lambda>args. \<lparr>pe_failed = None, pe_timeout = False,
        pe_stdout = (if ''--after-cursor=a'' \<in> set args then [''b'', [newline]] else if ''--after-cursor=b'' \<in> set args then [] else [''a'', [newline]]),
        pe_stderr = []\<rparr>),
     je_decode = (\<lambda>line. Some (toy_record line)), je_now = 9, je_record = (\<lambda>_. toy_draw), je_show = (\<lambda>_. []), je_rnd = ''42''\<rparr>"

definition toy_journal_source :: journalSource where
  "toy_journal_source = \<lparr>js_config = toy_journal_config, js_cursor = toy_cursor\<rparr>"

lemma decode_end: "decode_lines J [] = Inr []"
  by (subst decode_lines.simps) (simp add: Scan_def)

lemma decode_last:
  assumes "Scan maxJournalLine s = Tok raw []" "TrimSpace raw \<noteq> []" "\<not> HasPrefix (TrimSpace raw) ''-- cursor:''" "J (TrimSpace raw) = Some r"
  shows "decode_lines J s = Inr [r]"
  by (subst decode_lines.simps) (simp add: assms Let_def decode_end)

lemma toy_decode:
  "decode_lines (\<lambda>l. Some (toy_record l)) (''a'' @ [newline]) = Inr [toy_record ''a'']"
  "decode_lines (\<lambda>l. Some (toy_record l)) (''b'' @ [newline]) = Inr [toy_record ''b'']"
proof -
  have "Scan maxJournalLine (''a'' @ [newline]) = Tok ''a'' []" by (simp add: Scan_def Let_def maxJournalLine_def dropCR_def)
  moreover have "TrimSpace ''a'' = ''a''" "\<not> HasPrefix ''a'' ''-- cursor:''" by code_simp+
  ultimately show "decode_lines (\<lambda>l. Some (toy_record l)) (''a'' @ [newline]) = Inr [toy_record ''a'']"
    by (intro decode_last [where raw = "''a''"]) (simp_all del: HasPrefix.simps)
  have "Scan maxJournalLine (''b'' @ [newline]) = Tok ''b'' []" by (simp add: Scan_def Let_def maxJournalLine_def dropCR_def)
  moreover have "TrimSpace ''b'' = ''b''" "\<not> HasPrefix ''b'' ''-- cursor:''" by code_simp+
  ultimately show "decode_lines (\<lambda>l. Some (toy_record l)) (''b'' @ [newline]) = Inr [toy_record ''b'']"
    by (intro decode_last [where raw = "''b''"]) (simp_all del: HasPrefix.simps)
qed

lemma toy_queries:
  "journal_query toy_journal_env toy_journal_config [] (of_UnixNano 0) False 1 = Inr [toy_record ''a'']"
  "journal_query toy_journal_env toy_journal_config ''a'' 0 False 1 = Inr [toy_record ''b'']"
  "journal_query toy_journal_env toy_journal_config ''b'' 0 False 1 = Inr []"
proof -
  have "runCommand (je_command toy_journal_env) ''journalctl'' (journalArguments [] (of_UnixNano 0) False 1 [] []) = Inr (''a'' @ [newline])"
    "runCommand (je_command toy_journal_env) ''journalctl'' (journalArguments ''a'' 0 False 1 [] []) = Inr (''b'' @ [newline])"
    "runCommand (je_command toy_journal_env) ''journalctl'' (journalArguments ''b'' 0 False 1 [] []) = Inr []"
    by code_simp+
  moreover have "ns_Units toy_journal_config = []" "ns_Identifiers toy_journal_config = []" by code_simp+
  moreover have "je_decode toy_journal_env = (\<lambda>l. Some (toy_record l))" by (simp add: toy_journal_env_def)
  ultimately show
    "journal_query toy_journal_env toy_journal_config [] (of_UnixNano 0) False 1 = Inr [toy_record ''a'']"
    "journal_query toy_journal_env toy_journal_config ''a'' 0 False 1 = Inr [toy_record ''b'']"
    "journal_query toy_journal_env toy_journal_config ''b'' 0 False 1 = Inr []"
    by (simp_all add: journal_query_def decodeJournalRecords_def toy_decode decode_end del: append.simps)
qed

lemma toy_cursors: "cursor_of (toy_record ''a'') = ''a''" "cursor_of (toy_record ''b'') = ''b''"
  by code_simp+

lemma toy_serves: "serves toy_journal_env toy_journal_config [toy_record ''a'', toy_record ''b'']"
proof -
  have m: "ns_MaxBatch toy_journal_config = 1" by code_simp
  show ?thesis
    unfolding serves_def m
    by (auto simp: toy_queries toy_cursors answers_def less_Suc_eq numeral_2_eq_2)
qed


lemma command_output_is_whole_witness:
  "''a'' @ [newline] = concat (pe_stdout (je_command toy_journal_env [])) \<and> int (length (''a'' @ [newline])) \<le> maxCommandOutput"
proof -
  have "runCommand (je_command toy_journal_env) ''journalctl'' [] = Inr (''a'' @ [newline])" by code_simp
  from command_output_is_whole [OF this] show ?thesis by blast
qed

text \<open>A failed public-key login is recognised as one by its text, and yet it is no authentication failure for the detection rules:
  only a failed password is.\<close>

lemma failed_publickey_is_no_failure:
  "journal_login [(''MESSAGE'', VString ''Failed publickey for root from 10.0.0.1 port 22 ssh2'')] = (''root'', ''10.0.0.1'', 22)"
  "journalEventKind ''sshd'' [] ''Failed publickey for root from 10.0.0.1 port 22 ssh2'' [] = ''auth.ssh''"
  by code_simp+

end
