(* ===== verification/Central_Client.thy ===== *)
theory Central_Client
  imports Inventory Runtime Go_Convert "HOL-Library.Sublist" "HOL-Library.Multiset"
begin

text \<open>
  \<open>internal/central/client.go\<close>: the optional client of the Central service. Events that were recorded are offered to a bounded
  queue; one goroutine registers the agent, collects what it receives from the queue, sends it in batches and reports its health.
  The encoders and decoders of \<open>encoding/json\<close>, \<open>url.Parse\<close>, the random source and the replies of the service are parameters.
  The \<open>select\<close> of \<open>Run\<close> takes any case that is ready: the runs of the loop are the paths of a step relation. Sending and an
  \<open>Enqueue\<close> of another goroutine touch different fields, so an \<open>Enqueue\<close> during a step can be moved before or after it.
\<close>

section \<open>Messages\<close>

record HeartbeatStatus =
  hb_AgentID :: string
  hb_TenantID :: string
  hb_ComputerName :: string
  hb_Status :: string
  hb_Events :: "64 word"
  hb_Findings :: "64 word"
  hb_Errors :: "64 word"
  hb_QueueDepth :: int
  hb_LastError :: string

record queuedEvent =
  qe_event :: Event
  qe_findings :: "Finding list"

record registrationRequest =
  rr_AgentID :: string
  rr_ComputerName :: string
  rr_AgentVersion :: string
  rr_OSVersion :: string
  rr_HostIP :: string
  rr_EnrollmentToken :: string
  rr_RotateAPIKey :: bool
  rr_Platform :: string

record registrationResponse =
  ra_Accepted :: bool
  ra_Message :: string
  ra_AgentAPIKey :: string

record heartbeatRequest =
  hr_AgentID :: string
  hr_ComputerName :: string
  hr_AgentVersion :: string
  hr_OSVersion :: string
  hr_HostIP :: string
  hr_TimestampUTC :: gtime
  hr_Status :: string
  hr_QueueDepth :: int
  hr_CentralURL :: string
  hr_Platform :: string
  hr_LastError :: string

record securityEvent =
  sv_ID :: int
  sv_TimestampUTC :: gtime
  sv_ComputerName :: string
  sv_AgentID :: string
  sv_EventID :: int
  sv_Channel :: string
  sv_ProviderName :: string
  sv_Username :: string
  sv_SourceIP :: string
  sv_SourcePort :: "int option"
  sv_DestinationIP :: string
  sv_DestinationPort :: "int option"
  sv_ProcessID :: "int option"
  sv_ProcessPath :: string
  sv_Status :: string
  sv_RawXML :: string
  sv_EventRecordID :: int
  sv_CollectedAtUTC :: gtime

record detectionAlert =
  da_AlertID :: string
  da_TimestampUTC :: gtime
  da_ComputerName :: string
  da_AgentID :: string
  da_RuleID :: string
  da_RuleName :: string
  da_Severity :: int
  da_Title :: string
  da_Description :: string
  da_SourceIP :: string
  da_DestinationIP :: string
  da_Username :: string
  da_EventCount :: int
  da_EvidenceJSON :: string
  da_Suppressed :: bool

record ingestBatch =
  ib_AgentID :: string
  ib_ComputerName :: string
  ib_AgentVersion :: string
  ib_SentAtUTC :: gtime
  ib_IdempotencyKey :: string
  ib_SecurityEvents :: "securityEvent list"
  ib_Alerts :: "detectionAlert list"

datatype central_payload = PRegister registrationRequest | PHeartbeat heartbeatRequest | PBatch ingestBatch

text \<open>The URL the client was configured with parses and has a scheme and a host; a request can be made for an address; the three
  encoders and the decoder of the answer to a registration; the version of the agent.\<close>

record central_codec =
  cz_url :: "string \<Rightarrow> bool"
  cz_request :: "string \<Rightarrow> bool"
  cz_payload :: "central_payload \<Rightarrow> string option"
  cz_event :: "Event \<Rightarrow> string option"
  cz_finding :: "Finding \<Rightarrow> string option"
  cz_answer :: "string \<Rightarrow> registrationResponse option"
  cz_version :: string

datatype central_error =
    CenURL | CenQueueSize | CenRead oserr | CenEncode | CenCreate | CenNoKey | CenNetwork | CenStatus nat string | CenDecode
  | CenRejected string | CenSecretPath | CenPersist oserr | CenInterval | CenPanic

definition optionalInt :: "int \<Rightarrow> int option" where "optionalInt v = (if v = 0 then None else Some v)"

definition centralSeverity :: "Severity \<Rightarrow> int" where
  "centralSeverity v =
     (if v = SeverityLow then 1 else if v = SeverityMedium then 2 else if v = SeverityHigh then 3
      else if v = SeverityCritical then 4 else 0)"

text \<open>\<open>or_empty\<close>: the bytes of an encoding whose error is ignored.\<close>

definition or_empty :: "string option \<Rightarrow> string" where "or_empty x = (case x of None \<Rightarrow> [] | Some s \<Rightarrow> s)"

definition toSecurityEvent :: "central_codec \<Rightarrow> gtime \<Rightarrow> Event \<Rightarrow> securityEvent" where
  "toSecurityEvent Z now e =
     (let collected = prov_ReceivedAt (ev_Provenance e)
      in \<lparr>sv_ID = 0, sv_TimestampUTC = ev_Timestamp e, sv_ComputerName = asset_Hostname (ev_Asset e), sv_AgentID = ev_AgentID e,
          sv_EventID = 0, sv_Channel = ev_Kind e, sv_ProviderName = prov_Collector (ev_Provenance e),
          sv_Username = actor_User (ev_Actor e), sv_SourceIP = net_SourceIP (ev_Network e),
          sv_SourcePort = optionalInt (net_SourcePort (ev_Network e)), sv_DestinationIP = net_DestinationIP (ev_Network e),
          sv_DestinationPort = optionalInt (net_DestinationPort (ev_Network e)),
          sv_ProcessID = optionalInt (proc_PID (ev_Process e)), sv_ProcessPath = proc_Image (ev_Process e),
          sv_Status = ev_Message e, sv_RawXML = or_empty (cz_event Z e), sv_EventRecordID = 0,
          sv_CollectedAtUTC = (if IsZero collected then now else collected)\<rparr>)"

definition toDetectionAlert :: "central_codec \<Rightarrow> Finding \<Rightarrow> detectionAlert" where
  "toDetectionAlert Z f =
     \<lparr>da_AlertID = fd_ID f, da_TimestampUTC = fd_Timestamp f, da_ComputerName = asset_Hostname (fd_Asset f),
      da_AgentID = fd_AgentID f, da_RuleID = fd_RuleID f, da_RuleName = fd_Title f, da_Severity = centralSeverity (fd_Severity f),
      da_Title = fd_Title f, da_Description = fd_Description f, da_SourceIP = [], da_DestinationIP = [], da_Username = [],
      da_EventCount = int (length (fd_EvidenceEventIDs f)), da_EvidenceJSON = or_empty (cz_finding Z f), da_Suppressed = False\<rparr>"

section \<open>The address of the host\<close>

text \<open>What \<open>net.Interfaces\<close> and \<open>Addrs\<close> report; an address is an \<open>IPNet\<close> or \<open>IPAddr\<close> with its 16 bytes (none for a nil
  address), or of another type.\<close>

datatype if_addr = IfIP "int list" | IfOther

record net_interface =
  if_up :: bool
  if_loopback :: bool
  if_addrs :: "if_addr list option"

definition ip_IsMulticast :: "int list \<Rightarrow> bool" where
  "ip_IsMulticast ip = (case To4 ip of Some b \<Rightarrow> b ! 0 div 16 = 14 | None \<Rightarrow> length ip = 16 \<and> ip ! 0 = 255)"

definition IsGlobalUnicast :: "int list \<Rightarrow> bool" where
  "IsGlobalUnicast ip =
     (length ip = 16 \<and> ip \<noteq> mapped_prefix @ [255, 255, 255, 255] \<and> \<not> Go_Net.IsUnspecified ip \<and> \<not> Go_Net.IsLoopback ip
      \<and> \<not> ip_IsMulticast ip \<and> \<not> Go_Net.IsLinkLocalUnicast ip)"

text \<open>The loop over the addresses of an interface: the IPv4 address it ends with, or the IPv6 address remembered so far.\<close>

fun scan_addresses :: "if_addr list \<Rightarrow> string \<Rightarrow> string + string" where
  "scan_addresses [] ipv6 = Inr ipv6"
| "scan_addresses (a # as) ipv6 =
     (case a of
        IfOther \<Rightarrow> scan_addresses as ipv6
      | IfIP ip \<Rightarrow>
          if ip = [] \<or> \<not> IsGlobalUnicast ip \<or> Go_Net.IsLinkLocalUnicast ip then scan_addresses as ipv6
          else (case To4 ip of
                  Some _ \<Rightarrow> Inl (IP_String ip)
                | None \<Rightarrow> scan_addresses as (if ipv6 = [] then IP_String ip else ipv6)))"

fun scan_interfaces :: "net_interface list \<Rightarrow> string \<Rightarrow> string" where
  "scan_interfaces [] ipv6 = ipv6"
| "scan_interfaces (i # is) ipv6 =
     (if \<not> if_up i \<or> if_loopback i then scan_interfaces is ipv6
      else case if_addrs i of
             None \<Rightarrow> scan_interfaces is ipv6
           | Some as \<Rightarrow> (case scan_addresses as ipv6 of Inl ipv4 \<Rightarrow> ipv4 | Inr v6 \<Rightarrow> scan_interfaces is v6))"

definition detectHostIP :: "net_interface list option \<Rightarrow> string" where
  "detectHostIP ifs = (case ifs of None \<Rightarrow> [] | Some is \<Rightarrow> scan_interfaces is [])"

lemma detectHostIP_example:
  "detectHostIP (Some [\<lparr>if_up = True, if_loopback = True, if_addrs = Some [IfIP (mapped_prefix @ [127, 0, 0, 1])]\<rparr>,
     \<lparr>if_up = True, if_loopback = False,
      if_addrs = Some [IfIP ([254, 128] @ replicate 13 0 @ [1]), IfIP ([32, 1] @ replicate 13 0 @ [7]), IfIP (mapped_prefix @ [10, 0, 0, 7])]\<rparr>])
   = IP_String (mapped_prefix @ [10, 0, 0, 7])"
  by (simp add: detectHostIP_def IsGlobalUnicast_def mapped_prefix_def To4_def Go_Net.IsUnspecified_def Go_Net.IsLoopback_def
      ip_IsMulticast_def Go_Net.IsLinkLocalUnicast_def eval_nat_numeral)

section \<open>Secrets on disk\<close>

definition readSecret :: "string \<Rightarrow> string io" where
  "readSecret path w =
     (if TrimSpace path = [] then (Inr [], w)
      else case os_ReadFile path w of
             (Inl e, w1) \<Rightarrow> if e = ErrNotExist then (Inr [], w1) else (Inl e, w1)
           | (Inr text, w1) \<Rightarrow> (Inr (TrimSpace text), w1))"

text \<open>\<open>rnd\<close> is the random part \<open>CreateTemp\<close> settles on; the deferred removal runs on every path.\<close>

definition secret_temporary :: "string \<Rightarrow> string \<Rightarrow> string" where
  "secret_temporary rnd path = filepath_Join [filepath_Dir path, ''.central-key-'' @ rnd]"

definition fill_secret :: "string \<Rightarrow> string \<Rightarrow> unit io" where
  "fill_secret tmp val =
     io_bind (os_Chmod tmp mode_private) (\<lambda>_.
     io_bind (file_Append tmp (val @ [CHR 0x0A])) (\<lambda>_. file_Sync tmp))"

definition writeSecret :: "string \<Rightarrow> string \<Rightarrow> string \<Rightarrow> (central_error, unit) call" where
  "writeSecret rnd path val =
     io_bind (io_check (TrimSpace path = []) CenSecretPath) (\<lambda>_.
     io_wrap CenPersist
       (io_bind (os_MkdirAll (filepath_Dir path) mode_private_dir) (\<lambda>_.
        io_bind (os_WriteFile (secret_temporary rnd path) [] mode_private) (\<lambda>_ w.
          case fill_secret (secret_temporary rnd path) val w of
            (Inl e, w1) \<Rightarrow> (Inl e, snd (os_Remove (secret_temporary rnd path) w1))
          | (Inr _, w1) \<Rightarrow>
              (case os_Rename (secret_temporary rnd path) path w1 of
                 (r, w2) \<Rightarrow> (r, snd (os_Remove (secret_temporary rnd path) w2)))))))"

text \<open>\<open>newID\<close>: 12 random bytes, or the time when the random source fails.\<close>

definition newID :: "string \<Rightarrow> string option \<Rightarrow> gtime \<Rightarrow> string" where
  "newID kind rnd now =
     (case rnd of None \<Rightarrow> kind @ ''-'' @ Itoa (UnixNano now) | Some b \<Rightarrow> kind @ ''-'' @ hex_EncodeToString b)"

section \<open>The client\<close>

record Client =
  cl_cfg :: Central
  cl_baseURL :: string
  cl_agentID :: string
  cl_tenantID :: string
  cl_computerName :: string
  cl_insecure :: bool
  cl_queue :: "queuedEvent list"
  cl_apiKey :: string

definition trim_right :: "char \<Rightarrow> string \<Rightarrow> string" where
  "trim_right c s = rev (dropWhile (\<lambda>d. d = c) (rev s))"

definition Central_New :: "central_codec \<Rightarrow> Central \<Rightarrow> string \<Rightarrow> string \<Rightarrow> string \<Rightarrow> (central_error, Client) call" where
  "Central_New Z cfg agentID tenantID computerName =
     io_bind (io_check (\<not> cz_url Z (TrimSpace (cen_URL cfg))) CenURL) (\<lambda>_.
     io_bind (io_check (cen_QueueSize cfg < 0) CenQueueSize) (\<lambda>_.
     io_bind (io_wrap CenRead (readSecret (cen_APIKeyFile cfg))) (\<lambda>key.
     io_return \<lparr>cl_cfg = cfg, cl_baseURL = trim_right (CHR ''/'') (cen_URL cfg), cl_agentID = agentID, cl_tenantID = tenantID,
       cl_computerName = computerName, cl_insecure = cen_AllowUntrusted cfg, cl_queue = [], cl_apiKey = key\<rparr>)))"

definition Client_Enqueue :: "Event \<Rightarrow> Finding list \<Rightarrow> Client \<Rightarrow> bool \<times> Client" where
  "Client_Enqueue event findings c =
     (if int (length (cl_queue c)) < cen_QueueSize (cl_cfg c)
      then (True, c\<lparr>cl_queue := cl_queue c @ [\<lparr>qe_event = event, qe_findings = findings\<rparr>]\<rparr>)
      else (False, c))"

definition QueueDepth :: "Client \<Rightarrow> nat" where "QueueDepth c = length (cl_queue c)"

section \<open>Requests\<close>

text \<open>What is sent: the address, the header with the key (if any) and the body. A reply is a status and the bytes that arrive.\<close>

record central_request =
  rq_URL :: string
  rq_Key :: "string option"
  rq_Body :: string

type_synonym central_reply = "(nat \<times> string) option"

definition postJSON :: "central_codec \<Rightarrow> Client \<Rightarrow> string \<Rightarrow> central_payload \<Rightarrow> bool \<Rightarrow> central_reply
    \<Rightarrow> (central_error, string) result \<times> central_request list" where
  "postJSON Z c path payload authenticated reply =
     (case cz_payload Z payload of
        None \<Rightarrow> (Inl CenEncode, [])
      | Some body \<Rightarrow>
          if \<not> cz_request Z (cl_baseURL c @ path) then (Inl CenCreate, [])
          else if authenticated \<and> cl_apiKey c = [] then (Inl CenNoKey, [])
          else (case reply of
                  None \<Rightarrow> Inl CenNetwork
                | Some (status, text) \<Rightarrow>
                    if status < 200 \<or> 300 \<le> status then Inl (CenStatus status (TrimSpace (LimitRead 4096 text))) else Inr text,
                [\<lparr>rq_URL = cl_baseURL c @ path, rq_Key = (if authenticated then Some (cl_apiKey c) else None), rq_Body = body\<rparr>]))"

definition isUnauthorized :: "central_error \<Rightarrow> bool" where
  "isUnauthorized e = (case e of CenStatus s _ \<Rightarrow> s = 401 \<or> s = 403 | _ \<Rightarrow> False)"

text \<open>What a step draws: the reply of the service, the interfaces, the clock, random bytes, and the random part of a file name.\<close>

record central_draw =
  dz_reply :: central_reply
  dz_interfaces :: "net_interface list option"
  dz_now :: gtime
  dz_random :: "string option"
  dz_later :: "nat \<Rightarrow> gtime"
  dz_name :: string

text \<open>\<open>httpError.Error\<close>\<close>

definition httpError_Error :: "nat \<Rightarrow> string \<Rightarrow> string" where
  "httpError_Error status body =
     ''Central returned HTTP '' @ Itoa (int status) @ (if body = [] then [] else '': '' @ body)"

definition registration :: "central_codec \<Rightarrow> central_draw \<Rightarrow> bool \<Rightarrow> string \<Rightarrow> Client \<Rightarrow> registrationRequest" where
  "registration Z d rotating token c =
     \<lparr>rr_AgentID = cl_agentID c, rr_ComputerName = cl_computerName c, rr_AgentVersion = cz_version Z,
      rr_OSVersion = ''go/'' @ cz_version Z, rr_HostIP = detectHostIP (dz_interfaces d), rr_EnrollmentToken = token,
      rr_RotateAPIKey = rotating, rr_Platform = ''linux''\<rparr>"

definition Client_Register :: "central_codec \<Rightarrow> central_draw \<Rightarrow> bool \<Rightarrow> Client \<Rightarrow> world
    \<Rightarrow> (central_error, unit) result \<times> central_request list \<times> Client \<times> world" where
  "Client_Register Z d rotating c w =
     (case readSecret (cen_EnrollmentTokenFile (cl_cfg c)) w of
        (Inl e, w1) \<Rightarrow> (Inl (CenRead e), [], c, w1)
      | (Inr token, w1) \<Rightarrow>
          (case postJSON Z c ''/api/v1/agents/register'' (PRegister (registration Z d rotating token c)) False (dz_reply d) of
             (Inl e, sent) \<Rightarrow> (Inl e, sent, c, w1)
           | (Inr text, sent) \<Rightarrow>
               (case cz_answer Z text of
                  None \<Rightarrow> (Inl CenDecode, sent, c, w1)
                | Some a \<Rightarrow>
                    if \<not> ra_Accepted a then (Inl (CenRejected (ra_Message a)), sent, c, w1)
                    else if ra_AgentAPIKey a = [] then (Inr (), sent, c, w1)
                    else (case writeSecret (dz_name d) (cen_APIKeyFile (cl_cfg c)) (ra_AgentAPIKey a) w1 of
                            (Inl e, w2) \<Rightarrow> (Inl e, sent, c, w2)
                          | (Inr _, w2) \<Rightarrow> (Inr (), sent, c\<lparr>cl_apiKey := ra_AgentAPIKey a\<rparr>, w2)))))"

definition heartbeat :: "central_codec \<Rightarrow> central_draw \<Rightarrow> HeartbeatStatus \<Rightarrow> Client \<Rightarrow> heartbeatRequest" where
  "heartbeat Z d s c =
     \<lparr>hr_AgentID = cl_agentID c, hr_ComputerName = cl_computerName c, hr_AgentVersion = cz_version Z,
      hr_OSVersion = ''go/'' @ cz_version Z, hr_HostIP = detectHostIP (dz_interfaces d), hr_TimestampUTC = dz_now d,
      hr_Status = (if hb_Status s = [] then ''Healthy'' else hb_Status s), hr_QueueDepth = hb_QueueDepth s,
      hr_CentralURL = cl_baseURL c, hr_Platform = ''linux'', hr_LastError = hb_LastError s\<rparr>"

definition sendHeartbeat :: "central_codec \<Rightarrow> central_draw \<Rightarrow> HeartbeatStatus \<Rightarrow> Client
    \<Rightarrow> (central_error, string) result \<times> central_request list" where
  "sendHeartbeat Z d s c = postJSON Z c ''/api/v1/agents/heartbeat'' (PHeartbeat (heartbeat Z d s c)) True (dz_reply d)"

definition batch_of :: "central_codec \<Rightarrow> central_draw \<Rightarrow> Client \<Rightarrow> queuedEvent list \<Rightarrow> ingestBatch" where
  "batch_of Z d c items =
     \<lparr>ib_AgentID = cl_agentID c, ib_ComputerName = cl_computerName c, ib_AgentVersion = cz_version Z, ib_SentAtUTC = dz_now d,
      ib_IdempotencyKey = newID ''batch'' (dz_random d) (dz_now d),
      ib_SecurityEvents = map (\<lambda>(k, i). toSecurityEvent Z (dz_later d k) (qe_event i)) (enumerate 0 items),
      ib_Alerts = map (toDetectionAlert Z) (concat (map qe_findings items))\<rparr>"

definition sendBatch :: "central_codec \<Rightarrow> central_draw \<Rightarrow> Client \<Rightarrow> queuedEvent list
    \<Rightarrow> (central_error, string) result \<times> central_request list" where
  "sendBatch Z d c items = postJSON Z c ''/api/v1/ingest'' (PBatch (batch_of Z d c items)) True (dz_reply d)"

section \<open>The loop\<close>

text \<open>What \<open>Run\<close> keeps between two turns.\<close>

record central_loop =
  lo_client :: Client
  lo_registered :: bool
  lo_pending :: "queuedEvent list"

text \<open>\<open>tryRegister\<close>, \<open>flush\<close> and the four cases of the \<open>select\<close>. Each returns what was sent, the batch that was accepted (if any),
  and the new state.\<close>

definition tryRegister :: "central_codec \<Rightarrow> central_draw \<Rightarrow> central_loop \<Rightarrow> world \<Rightarrow> central_request list \<times> central_loop \<times> world" where
  "tryRegister Z d l w =
     (case Client_Register Z d False (lo_client l) w of
        (Inl _, sent, c, w1) \<Rightarrow> (sent, l\<lparr>lo_client := c\<rparr>, w1)
      | (Inr _, sent, c, w1) \<Rightarrow> (sent, l\<lparr>lo_client := c, lo_registered := True\<rparr>, w1))"

definition flush :: "central_codec \<Rightarrow> central_draw \<Rightarrow> central_loop \<Rightarrow> central_request list \<times> queuedEvent list \<times> central_loop" where
  "flush Z d l =
     (if \<not> lo_registered l \<or> lo_pending l = [] then ([], [], l)
      else let items = take (nat (cen_MaxBatch (cl_cfg (lo_client l)))) (lo_pending l)
           in case sendBatch Z d (lo_client l) items of
                (Inl e, sent) \<Rightarrow> (sent, [], if isUnauthorized e then l\<lparr>lo_registered := False\<rparr> else l)
              | (Inr _, sent) \<Rightarrow> (sent, items, l\<lparr>lo_pending := drop (length items) (lo_pending l)\<rparr>))"

definition receive :: "central_codec \<Rightarrow> central_draw \<Rightarrow> queuedEvent \<Rightarrow> central_loop
    \<Rightarrow> central_request list \<times> queuedEvent list \<times> central_loop" where
  "receive Z d item l =
     (if int (length (lo_pending l)) \<ge> cen_QueueSize (cl_cfg (lo_client l)) then ([], [], l)
      else let l1 = l\<lparr>lo_pending := lo_pending l @ [item]\<rparr>
           in if int (length (lo_pending l1)) \<ge> cen_MaxBatch (cl_cfg (lo_client l)) then flush Z d l1 else ([], [], l1))"

definition on_heartbeat :: "central_codec \<Rightarrow> central_draw \<Rightarrow> HeartbeatStatus \<Rightarrow> central_loop \<Rightarrow> central_request list \<times> central_loop" where
  "on_heartbeat Z d s l =
     (if \<not> lo_registered l then ([], l)
      else case sendHeartbeat Z d s (lo_client l) of
             (Inl e, sent) \<Rightarrow> (sent, if isUnauthorized e then l\<lparr>lo_registered := False\<rparr> else l)
           | (Inr _, sent) \<Rightarrow> (sent, l))"

definition on_retry :: "central_codec \<Rightarrow> central_draw \<Rightarrow> central_loop \<Rightarrow> world \<Rightarrow> central_request list \<times> central_loop \<times> world" where
  "on_retry Z d l w = (if \<not> lo_registered l then tryRegister Z d l w else ([], l, w))"

text \<open>What can happen: another goroutine offers an event, or the loop takes one of its cases.\<close>

datatype central_turn = Offer Event "Finding list" | Receive | BatchTick | HeartbeatTick HeartbeatStatus | RetryTick

definition central_step :: "central_codec \<Rightarrow> central_draw \<Rightarrow> central_turn \<Rightarrow> central_loop \<Rightarrow> world
    \<Rightarrow> (central_request list \<times> queuedEvent list \<times> central_loop \<times> world) option" where
  "central_step Z d t l w =
     (case t of
        Offer e fs \<Rightarrow> Some ([], [], l\<lparr>lo_client := snd (Client_Enqueue e fs (lo_client l))\<rparr>, w)
      | Receive \<Rightarrow>
          (case cl_queue (lo_client l) of
             [] \<Rightarrow> None
           | item # rest \<Rightarrow>
               (case receive Z d item (l\<lparr>lo_client := (lo_client l)\<lparr>cl_queue := rest\<rparr>\<rparr>) of
                  (sent, delivered, l1) \<Rightarrow> Some (sent, delivered, l1, w)))
      | BatchTick \<Rightarrow> (case flush Z d l of (sent, delivered, l1) \<Rightarrow> Some (sent, delivered, l1, w))
      | HeartbeatTick s \<Rightarrow> (case on_heartbeat Z d s l of (sent, l1) \<Rightarrow> Some (sent, [], l1, w))
      | RetryTick \<Rightarrow> (case on_retry Z d l w of (sent, l1, w1) \<Rightarrow> Some (sent, [], l1, w1)))"

text \<open>\<open>Run\<close> up to the loop: the intervals must parse (\<open>NewTicker\<close> panics unless they are positive), and a first registration is
  tried.\<close>

definition central_start :: "central_codec \<Rightarrow> central_draw \<Rightarrow> Client \<Rightarrow> world
    \<Rightarrow> (central_error, central_request list \<times> central_loop) result \<times> world" where
  "central_start Z d c w =
     (case (ParseDuration (cen_HeartbeatInterval (cl_cfg c)), ParseDuration (cen_BatchInterval (cl_cfg c))) of
        (Some h, Some b) \<Rightarrow>
          if h \<le> 0 \<or> b \<le> 0 then (Inl CenPanic, w)
          else (case tryRegister Z d \<lparr>lo_client = c, lo_registered = False, lo_pending = []\<rparr> w of (sent, l, w1) \<Rightarrow> (Inr (sent, l), w1))
      | _ \<Rightarrow> (Inl CenInterval, w))"

section \<open>Runs\<close>

text \<open>A run of the loop with its history: the events \<open>Enqueue\<close> accepted, those dropped because too many were pending, those in
  batches the service accepted, and the requests sent.\<close>

definition accepted_by :: "central_turn \<Rightarrow> central_loop \<Rightarrow> queuedEvent list" where
  "accepted_by t l =
     (case t of
        Offer e fs \<Rightarrow> if fst (Client_Enqueue e fs (lo_client l)) then [\<lparr>qe_event = e, qe_findings = fs\<rparr>] else []
      | _ \<Rightarrow> [])"

definition dropped_by :: "central_turn \<Rightarrow> central_loop \<Rightarrow> queuedEvent list" where
  "dropped_by t l =
     (if t = Receive \<and> int (length (lo_pending l)) \<ge> cen_QueueSize (cl_cfg (lo_client l)) then take 1 (cl_queue (lo_client l)) else [])"

inductive central_run :: "central_codec \<Rightarrow> central_loop \<Rightarrow> world \<Rightarrow> queuedEvent list \<Rightarrow> queuedEvent list \<Rightarrow> queuedEvent list
    \<Rightarrow> central_request list \<Rightarrow> central_loop \<Rightarrow> world \<Rightarrow> bool" for Z l0 w0 where
  run_start: "central_run Z l0 w0 [] [] [] [] l0 w0"
| run_turn: "central_run Z l0 w0 acc drp dlv sent l w \<Longrightarrow> central_step Z d t l w = Some (rq, items, l', w') \<Longrightarrow>
    central_run Z l0 w0 (acc @ accepted_by t l) (drp @ dropped_by t l) (dlv @ items) (sent @ rq) l' w'"

definition waiting :: "central_loop \<Rightarrow> queuedEvent list" where "waiting l = lo_pending l @ cl_queue (lo_client l)"

text \<open>The configuration never changes, and a flush takes its batch from the front.\<close>

lemma postJSON_sent:
  assumes "postJSON Z c path p b reply = (r, sent)"
  shows "length sent \<le> 1" and "rq \<in> set sent \<Longrightarrow> rq_URL rq = cl_baseURL c @ path \<and> rq_Key rq = (if b then Some (cl_apiKey c) else None)
           \<and> (b \<longrightarrow> cl_apiKey c \<noteq> [])"
    and "b \<Longrightarrow> cl_apiKey c = [] \<Longrightarrow> sent = [] \<and> (r = Inl CenEncode \<or> r = Inl CenCreate \<or> r = Inl CenNoKey)"
  using assms by (auto simp: postJSON_def split: option.splits if_splits)

lemma flush_front:
  assumes "flush Z d l = (sent, items, l')"
  shows "lo_pending l = items @ lo_pending l'" and "lo_client l' = lo_client l"
    and "rq \<in> set sent \<Longrightarrow> lo_registered l \<and> rq_URL rq = cl_baseURL (lo_client l) @ ''/api/v1/ingest''
           \<and> rq_Key rq = Some (cl_apiKey (lo_client l)) \<and> cl_apiKey (lo_client l) \<noteq> []"
    and "cl_apiKey (lo_client l) = [] \<Longrightarrow> sent = [] \<and> items = [] \<and> l' = l"
    and "lo_registered l' \<Longrightarrow> lo_registered l"
proof -
  obtain r sent' where s: "sendBatch Z d (lo_client l) (take (nat (cen_MaxBatch (cl_cfg (lo_client l)))) (lo_pending l)) = (r, sent')"
    by (rule prod.exhaust)
  note p = postJSON_sent [OF s [unfolded sendBatch_def]]
  have t: "xs = take n xs @ drop (length (take n xs)) xs" for n and xs :: "queuedEvent list" by (simp add: min_def)
  show "lo_pending l = items @ lo_pending l'" and "lo_client l' = lo_client l" and "lo_registered l' \<Longrightarrow> lo_registered l"
    using assms s t [of "lo_pending l"] by (auto simp: flush_def Let_def simp del: length_take split: if_splits sum.splits)
  show "lo_registered l \<and> rq_URL rq = cl_baseURL (lo_client l) @ ''/api/v1/ingest''
           \<and> rq_Key rq = Some (cl_apiKey (lo_client l)) \<and> cl_apiKey (lo_client l) \<noteq> []" if "rq \<in> set sent"
    using assms s p(2) that by (auto simp: flush_def Let_def split: if_splits sum.splits)
  show "sent = [] \<and> items = [] \<and> l' = l" if "cl_apiKey (lo_client l) = []"
    using assms s p(3) that by (auto simp: flush_def Let_def isUnauthorized_def split: if_splits sum.splits)
qed


lemma receive_cases:
  assumes "receive Z d item l = (sent, items, l')"
  shows "(int (length (lo_pending l)) \<ge> cen_QueueSize (cl_cfg (lo_client l)) \<and> sent = [] \<and> items = [] \<and> l' = l)
    \<or> (int (length (lo_pending l)) < cen_QueueSize (cl_cfg (lo_client l)) \<and>
       (flush Z d (l\<lparr>lo_pending := lo_pending l @ [item]\<rparr>) = (sent, items, l')
        \<or> (sent = [] \<and> items = [] \<and> l' = l\<lparr>lo_pending := lo_pending l @ [item]\<rparr>)))"
proof (cases "int (length (lo_pending l)) \<ge> cen_QueueSize (cl_cfg (lo_client l))")
  case True
  then show ?thesis using assms by (simp add: receive_def)
next
  case False
  then show ?thesis using assms
    by (cases "int (length (lo_pending l @ [item])) \<ge> cen_MaxBatch (cl_cfg (lo_client l))") (simp_all add: receive_def)
qed

lemma receive_keeps:
  assumes "receive Z d item l = (sent, items, l')"
  shows "if int (length (lo_pending l)) \<ge> cen_QueueSize (cl_cfg (lo_client l)) then items = [] \<and> l' = l
         else lo_pending l @ [item] = items @ lo_pending l'"
    and "lo_client l' = lo_client l" and "lo_registered l' \<Longrightarrow> lo_registered l"
    and "rq \<in> set sent \<Longrightarrow> lo_registered l \<and> rq_URL rq = cl_baseURL (lo_client l) @ ''/api/v1/ingest''
           \<and> rq_Key rq = Some (cl_apiKey (lo_client l)) \<and> cl_apiKey (lo_client l) \<noteq> []"
    and "cl_apiKey (lo_client l) = [] \<Longrightarrow> sent = [] \<and> items = [] \<and> lo_registered l' = lo_registered l"
proof -
  let ?l = "l\<lparr>lo_pending := lo_pending l @ [item]\<rparr>"
  note c = receive_cases [OF assms]
  note f = flush_front [of Z d ?l sent items l']
  show "if int (length (lo_pending l)) \<ge> cen_QueueSize (cl_cfg (lo_client l)) then items = [] \<and> l' = l
         else lo_pending l @ [item] = items @ lo_pending l'" using c f(1) by auto
  show "lo_client l' = lo_client l" using c f(2) by auto
  show "lo_registered l' \<Longrightarrow> lo_registered l" using c f(5) by auto
  show "rq \<in> set sent \<Longrightarrow> lo_registered l \<and> rq_URL rq = cl_baseURL (lo_client l) @ ''/api/v1/ingest''
           \<and> rq_Key rq = Some (cl_apiKey (lo_client l)) \<and> cl_apiKey (lo_client l) \<noteq> []" using c f(3) by auto
  show "cl_apiKey (lo_client l) = [] \<Longrightarrow> sent = [] \<and> items = [] \<and> lo_registered l' = lo_registered l" using c f(4) by auto
qed

lemma Enqueue_cases:
  "Client_Enqueue e fs c = (b, c') \<Longrightarrow>
     (b \<and> int (length (cl_queue c)) < cen_QueueSize (cl_cfg c) \<and> c' = c\<lparr>cl_queue := cl_queue c @ [\<lparr>qe_event = e, qe_findings = fs\<rparr>]\<rparr>)
     \<or> (\<not> b \<and> c' = c)"
  by (auto simp: Client_Enqueue_def split: if_splits)

lemma Register_client:
  assumes "Client_Register Z d rotating c w = (r, sent, c', w')"
  shows "cl_queue c' = cl_queue c \<and> cl_cfg c' = cl_cfg c \<and> cl_baseURL c' = cl_baseURL c"
    and "rq \<in> set sent \<Longrightarrow> rq_URL rq = cl_baseURL c @ ''/api/v1/agents/register'' \<and> rq_Key rq = None"
    and "r = Inr () \<Longrightarrow> sent \<noteq> []"
proof -
  obtain t w1 where t: "readSecret (cen_EnrollmentTokenFile (cl_cfg c)) w = (t, w1)" by (rule prod.exhaust)
  have "cl_queue c' = cl_queue c \<and> cl_cfg c' = cl_cfg c \<and> cl_baseURL c' = cl_baseURL c
    \<and> (rq \<in> set sent \<longrightarrow> rq_URL rq = cl_baseURL c @ ''/api/v1/agents/register'' \<and> rq_Key rq = None) \<and> (r = Inr () \<longrightarrow> sent \<noteq> [])"
  proof (cases t)
    case (Inl e)
    then show ?thesis using assms t by (auto simp: Client_Register_def)
  next
    case (Inr token)
    obtain q sent1 where p: "postJSON Z c ''/api/v1/agents/register'' (PRegister (registration Z d rotating token c)) False (dz_reply d) = (q, sent1)"
      by (rule prod.exhaust)
    have ok: "sent1 \<noteq> []" if "q = Inr body" for body using p that by (auto simp: postJSON_def split: option.splits if_splits)
    have "sent = sent1" "cl_queue c' = cl_queue c \<and> cl_cfg c' = cl_cfg c \<and> cl_baseURL c' = cl_baseURL c" "r = Inr () \<Longrightarrow> \<exists>text. q = Inr text"
      using assms t Inr p by (auto simp: Client_Register_def split: prod.splits sum.splits option.splits if_splits)
    then show ?thesis using postJSON_sent(2) [OF p] ok by auto
  qed
  then show "cl_queue c' = cl_queue c \<and> cl_cfg c' = cl_cfg c \<and> cl_baseURL c' = cl_baseURL c"
    and "rq \<in> set sent \<Longrightarrow> rq_URL rq = cl_baseURL c @ ''/api/v1/agents/register'' \<and> rq_Key rq = None"
    and "r = Inr () \<Longrightarrow> sent \<noteq> []" by auto
qed

text \<open>One turn: what happens to the events, and what is sent.\<close>

lemma turn_events:
  assumes "central_step Z d t l w = Some (rq, items, l', w')"
  shows "(dropped_by t l = [] \<and> waiting l @ accepted_by t l = items @ waiting l')
       \<or> (\<exists>x rest. dropped_by t l = [x] \<and> accepted_by t l = [] \<and> items = [] \<and> waiting l = lo_pending l @ x # rest \<and> waiting l' = lo_pending l @ rest)"
proof (cases t)
  case (Offer e fs)
  obtain b c' where e: "Client_Enqueue e fs (lo_client l) = (b, c')" by (rule prod.exhaust)
  from Enqueue_cases [OF e] show ?thesis
    using assms Offer e by (auto simp: central_step_def dropped_by_def accepted_by_def waiting_def)
next
  case Receive
  then obtain item rest where q: "cl_queue (lo_client l) = item # rest" using assms by (auto simp: central_step_def split: list.splits)
  let ?l = "l\<lparr>lo_client := (lo_client l)\<lparr>cl_queue := rest\<rparr>\<rparr>"
  from assms Receive q have r: "receive Z d item ?l = (rq, items, l')" by (auto simp: central_step_def split: prod.splits)
  from receive_keeps(1,2) [OF r] show ?thesis
    using q Receive by (auto simp: dropped_by_def accepted_by_def waiting_def split: if_splits)
next
  case BatchTick
  then have "flush Z d l = (rq, items, l')" using assms by (auto simp: central_step_def split: prod.splits)
  from flush_front(1,2) [OF this] show ?thesis using BatchTick by (simp add: dropped_by_def accepted_by_def waiting_def)
next
  case (HeartbeatTick s)
  then show ?thesis using assms
    by (auto simp: central_step_def on_heartbeat_def dropped_by_def accepted_by_def waiting_def split: prod.splits if_splits sum.splits)
next
  case RetryTick
  obtain r sent c1 w1 where rg: "Client_Register Z d False (lo_client l) w = (r, sent, c1, w1)" by (metis surj_pair)
  have "cl_queue c1 = cl_queue (lo_client l)" using Register_client(1) [OF rg] by simp
  then show ?thesis using assms RetryTick rg
    by (auto simp: central_step_def on_retry_def tryRegister_def dropped_by_def accepted_by_def waiting_def split: prod.splits if_splits sum.splits)
qed

text \<open>The parts of the state a turn leaves alone.\<close>

definition same_setup :: "central_loop \<Rightarrow> central_loop \<Rightarrow> bool" where
  "same_setup l l' = (cl_cfg (lo_client l') = cl_cfg (lo_client l) \<and> cl_baseURL (lo_client l') = cl_baseURL (lo_client l))"

lemma turn_setup:
  assumes "central_step Z d t l w = Some (rq, items, l', w')"
  shows "same_setup l l'"
proof (cases t)
  case (Offer e fs)
  obtain b c' where e: "Client_Enqueue e fs (lo_client l) = (b, c')" by (rule prod.exhaust)
  from Enqueue_cases [OF e] show ?thesis
    using assms Offer e by (auto simp: central_step_def same_setup_def)
next
  case Receive
  then obtain item rest where q: "cl_queue (lo_client l) = item # rest" using assms by (auto simp: central_step_def split: list.splits)
  from assms Receive q have r: "receive Z d item (l\<lparr>lo_client := (lo_client l)\<lparr>cl_queue := rest\<rparr>\<rparr>) = (rq, items, l')"
    by (auto simp: central_step_def split: prod.splits)
  from receive_keeps(2) [OF r] show ?thesis by (simp add: same_setup_def)
next
  case BatchTick
  then have "flush Z d l = (rq, items, l')" using assms by (auto simp: central_step_def split: prod.splits)
  from flush_front(2) [OF this] show ?thesis by (simp add: same_setup_def)
next
  case (HeartbeatTick s)
  then show ?thesis using assms
    by (auto simp: central_step_def on_heartbeat_def same_setup_def split: prod.splits if_splits sum.splits)
next
  case RetryTick
  obtain r sent c1 w1 where rg: "Client_Register Z d False (lo_client l) w = (r, sent, c1, w1)" by (metis surj_pair)
  have "cl_cfg c1 = cl_cfg (lo_client l)" "cl_baseURL c1 = cl_baseURL (lo_client l)"
    using Register_client(1) [OF rg] by simp_all
  then show ?thesis using assms RetryTick rg
    by (auto simp: central_step_def on_retry_def tryRegister_def same_setup_def split: prod.splits if_splits sum.splits)
qed


lemma turn_bounds:
  assumes "central_step Z d t l w = Some (rq, items, l', w')" and "0 \<le> cen_QueueSize (cl_cfg (lo_client l))"
    and "int (length (cl_queue (lo_client l))) \<le> cen_QueueSize (cl_cfg (lo_client l))"
    and "int (length (lo_pending l)) \<le> cen_QueueSize (cl_cfg (lo_client l))"
  shows "int (length (cl_queue (lo_client l'))) \<le> cen_QueueSize (cl_cfg (lo_client l))
    \<and> int (length (lo_pending l')) \<le> cen_QueueSize (cl_cfg (lo_client l))"
proof (cases t)
  case (Offer e fs)
  obtain b c' where e: "Client_Enqueue e fs (lo_client l) = (b, c')" by (rule prod.exhaust)
  from Enqueue_cases [OF e] show ?thesis using assms Offer e by (auto simp: central_step_def)
next
  case Receive
  then obtain item rest where q: "cl_queue (lo_client l) = item # rest" using assms by (auto simp: central_step_def split: list.splits)
  let ?l = "l\<lparr>lo_client := (lo_client l)\<lparr>cl_queue := rest\<rparr>\<rparr>"
  from assms Receive q have r: "receive Z d item ?l = (rq, items, l')" by (auto simp: central_step_def split: prod.splits)
  have a: "lo_client l' = (lo_client l)\<lparr>cl_queue := rest\<rparr>" using receive_keeps(2) [OF r] by simp
  have "int (length (lo_pending l')) \<le> cen_QueueSize (cl_cfg (lo_client l))"
  proof (cases "int (length (lo_pending l)) \<ge> cen_QueueSize (cl_cfg (lo_client l))")
    case True
    then show ?thesis using receive_keeps(1) [OF r] assms(4) by simp
  next
    case False
    then have "lo_pending l @ [item] = items @ lo_pending l'" using receive_keeps(1) [OF r] by simp
    from arg_cong [OF this, of length] False show ?thesis by simp
  qed
  then show ?thesis using a q assms(3) by simp
next
  case BatchTick
  then have f: "flush Z d l = (rq, items, l')" using assms by (auto simp: central_step_def split: prod.splits)
  show ?thesis using flush_front(2) [OF f] arg_cong [OF flush_front(1) [OF f], of length] assms(3,4) by simp
next
  case (HeartbeatTick s)
  then show ?thesis using assms by (auto simp: central_step_def on_heartbeat_def split: prod.splits if_splits sum.splits)
next
  case RetryTick
  obtain r sent c1 w1 where rg: "Client_Register Z d False (lo_client l) w = (r, sent, c1, w1)" by (metis surj_pair)
  show ?thesis using assms RetryTick rg Register_client(1) [OF rg]
    by (auto simp: central_step_def on_retry_def tryRegister_def split: prod.splits if_splits sum.splits)
qed

text \<open>A request is the registration, or it carries the key of a registered client.\<close>

definition register_request :: "central_loop \<Rightarrow> central_request \<Rightarrow> bool" where
  "register_request l rq = (rq_URL rq = cl_baseURL (lo_client l) @ ''/api/v1/agents/register'' \<and> rq_Key rq = None)"

definition keyed_request :: "central_loop \<Rightarrow> central_request \<Rightarrow> bool" where
  "keyed_request l rq = (\<exists>k. rq_Key rq = Some k \<and> k \<noteq> [] \<and>
     (rq_URL rq = cl_baseURL (lo_client l) @ ''/api/v1/ingest'' \<or> rq_URL rq = cl_baseURL (lo_client l) @ ''/api/v1/agents/heartbeat''))"

lemma turn_requests:
  assumes "central_step Z d t l w = Some (rq, items, l', w')"
  shows "if lo_registered l then list_all (keyed_request l) rq
         else list_all (register_request l) rq \<and> (lo_registered l' \<longrightarrow> rq \<noteq> [])"
proof (cases t)
  case (Offer e fs)
  then show ?thesis using assms by (auto simp: central_step_def)
next
  case Receive
  then obtain item rest where q: "cl_queue (lo_client l) = item # rest" using assms by (auto simp: central_step_def split: list.splits)
  from assms Receive q have r: "receive Z d item (l\<lparr>lo_client := (lo_client l)\<lparr>cl_queue := rest\<rparr>\<rparr>) = (rq, items, l')"
    by (auto simp: central_step_def split: prod.splits)
  have "lo_registered l \<and> keyed_request l x" if "x \<in> set rq" for x using receive_keeps(4) [OF r that] by (auto simp: keyed_request_def)
  then show ?thesis using receive_keeps(3) [OF r] by (auto simp: list_all_iff)
next
  case BatchTick
  then have f: "flush Z d l = (rq, items, l')" using assms by (auto simp: central_step_def split: prod.splits)
  have "lo_registered l \<and> keyed_request l x" if "x \<in> set rq" for x using flush_front(3) [OF f that] by (auto simp: keyed_request_def)
  then show ?thesis using flush_front(5) [OF f] by (auto simp: list_all_iff)
next
  case (HeartbeatTick s)
  obtain r sent where h: "sendHeartbeat Z d s (lo_client l) = (r, sent)" by (rule prod.exhaust)
  have "list_all (keyed_request l) sent"
    using postJSON_sent(2) [OF h [unfolded sendHeartbeat_def]] by (auto simp: list_all_iff keyed_request_def)
  then show ?thesis using assms HeartbeatTick h
    by (auto simp: central_step_def on_heartbeat_def split: prod.splits if_splits sum.splits)
next
  case RetryTick
  obtain r sent c1 w1 where rg: "Client_Register Z d False (lo_client l) w = (r, sent, c1, w1)" by (metis surj_pair)
  have "list_all (register_request l) sent" using Register_client(2) [OF rg] by (auto simp: list_all_iff register_request_def)
  then show ?thesis using assms RetryTick rg Register_client(3) [OF rg]
    by (auto simp: central_step_def on_retry_def tryRegister_def split: prod.splits if_splits sum.splits)
qed

text \<open>Without a key a registered client does nothing any more but collect.\<close>

lemma turn_without_key:
  assumes "central_step Z d t l w = Some (rq, items, l', w')" and "lo_registered l" and "cl_apiKey (lo_client l) = []"
  shows "rq = [] \<and> items = [] \<and> lo_registered l' \<and> cl_apiKey (lo_client l') = []"
proof (cases t)
  case (Offer e fs)
  obtain b c' where e: "Client_Enqueue e fs (lo_client l) = (b, c')" by (rule prod.exhaust)
  from Enqueue_cases [OF e] show ?thesis using assms Offer e by (auto simp: central_step_def)
next
  case Receive
  then obtain item rest where q: "cl_queue (lo_client l) = item # rest" using assms by (auto simp: central_step_def split: list.splits)
  from assms Receive q have r: "receive Z d item (l\<lparr>lo_client := (lo_client l)\<lparr>cl_queue := rest\<rparr>\<rparr>) = (rq, items, l')"
    by (auto simp: central_step_def split: prod.splits)
  show ?thesis using receive_keeps(2,5) [OF r] assms(2,3) by simp
next
  case BatchTick
  then have f: "flush Z d l = (rq, items, l')" using assms by (auto simp: central_step_def split: prod.splits)
  show ?thesis using flush_front(4) [OF f assms(3)] assms(2,3) by simp
next
  case (HeartbeatTick s)
  obtain r sent where h: "sendHeartbeat Z d s (lo_client l) = (r, sent)" by (rule prod.exhaust)
  show ?thesis using assms HeartbeatTick h postJSON_sent(3) [OF h [unfolded sendHeartbeat_def]]
    by (auto simp: central_step_def on_heartbeat_def isUnauthorized_def split: prod.splits if_splits sum.splits)
next
  case RetryTick
  then show ?thesis using assms by (auto simp: central_step_def on_retry_def)
qed

section \<open>What the loop promises\<close>

lemma run_keeps_setup: "central_run Z l0 w0 acc drp dlv sent l w \<Longrightarrow> same_setup l0 l"
  by (induction rule: central_run.induct) (auto simp: same_setup_def dest: turn_setup)

lemma run_events:
  assumes "central_run Z l0 w0 acc drp dlv sent l w" and "waiting l0 = []"
  shows "subseq (dlv @ waiting l) acc \<and> mset acc = mset drp + mset (dlv @ waiting l)"
  using assms
proof (induction rule: central_run.induct)
  case (run_turn acc drp dlv sent l w d t rq items l' w')
  then have IH: "subseq (dlv @ waiting l) acc" "mset acc = mset drp + mset (dlv @ waiting l)" by auto
  from turn_events [OF run_turn.hyps(2)] show ?case
  proof (elim disjE exE conjE)
    assume "dropped_by t l = []" and e: "waiting l @ accepted_by t l = items @ waiting l'"
    moreover have "subseq ((dlv @ waiting l) @ accepted_by t l) (acc @ accepted_by t l)"
      by (rule list_emb_append_mono [OF IH(1)]) simp
    moreover have "mset (waiting l) + mset (accepted_by t l) = mset items + mset (waiting l')"
      using arg_cong [OF e, of mset] by simp
    ultimately show ?thesis using IH(2) by (simp add: ac_simps)
  next
    fix x rest assume d: "dropped_by t l = [x]" "accepted_by t l = []" "items = []" "waiting l = lo_pending l @ x # rest"
      "waiting l' = lo_pending l @ rest"
    have "subseq (lo_pending l @ rest) (lo_pending l @ x # rest)" by (intro list_emb_append_mono) auto
    then have "subseq (dlv @ waiting l') (dlv @ waiting l)" unfolding d(4,5) by (intro list_emb_append_mono) auto
    then have "subseq (dlv @ waiting l') acc" using IH(1) by (rule subseq_order.trans)
    then show ?thesis using IH(2) d by simp
  qed
qed simp

text \<open>C35. The events the queue accepted are delivered in their order and none of them twice: what was sent in accepted batches,
  followed by what is pending and what is queued, is the accepted sequence without the events that were dropped because
  \<open>QueueSize\<close> events were pending already; every accepted event is in exactly one of these places, and the memory the client
  takes is bounded by twice the size of the queue.\<close>

theorem central_queue_is_fifo:
  assumes "central_run Z l0 w0 acc drp dlv sent l w" and "waiting l0 = []" and "0 \<le> cen_QueueSize (cl_cfg (lo_client l0))"
  shows "subseq (dlv @ lo_pending l @ cl_queue (lo_client l)) acc
    \<and> mset acc = mset drp + mset (dlv @ lo_pending l @ cl_queue (lo_client l))
    \<and> int (length (lo_pending l)) \<le> cen_QueueSize (cl_cfg (lo_client l0))
    \<and> int (length (cl_queue (lo_client l))) \<le> cen_QueueSize (cl_cfg (lo_client l0))"
proof -
  have "int (length (cl_queue (lo_client l))) \<le> cen_QueueSize (cl_cfg (lo_client l0))
    \<and> int (length (lo_pending l)) \<le> cen_QueueSize (cl_cfg (lo_client l0))"
    using assms
  proof (induction rule: central_run.induct)
    case run_start
    then show ?case by (simp add: waiting_def)
  next
    case (run_turn acc drp dlv sent l w d t rq items l' w')
    then show ?case using turn_bounds [OF run_turn.hyps(2)] run_keeps_setup [OF run_turn.hyps(1)] by (simp add: same_setup_def)
  qed
  then show ?thesis using run_events [OF assms(1,2)] by (simp add: waiting_def)
qed


text \<open>A client that is registered and has no key (the service accepted the registration without returning one, and the key
  file is empty or missing) stays as it is for good: it sends nothing, delivers nothing and never registers again.\<close>

theorem registered_without_key_is_stuck:
  assumes "central_run Z l0 w0 acc drp dlv sent l w" and "lo_registered l0" and "cl_apiKey (lo_client l0) = []"
  shows "sent = [] \<and> dlv = [] \<and> lo_registered l \<and> cl_apiKey (lo_client l) = []"
  using assms by (induction rule: central_run.induct) (auto dest: turn_without_key)


section \<open>The key\<close>

text \<open>The key a client starts with.\<close>

definition stored_key :: "fs \<Rightarrow> string \<Rightarrow> string" where
  "stored_key u path =
     (if TrimSpace path = [] then [] else case fs_content u path of None \<Rightarrow> [] | Some body \<Rightarrow> TrimSpace body)"

lemma readSecret_stored: "readSecret path w = (Inr k, w1) \<Longrightarrow> k = stored_key (files w) path \<and> files w1 = files w"
proof (cases "TrimSpace path = []")
  case False
  assume run: "readSecret path w = (Inr k, w1)"
  obtain r w2 where rd: "os_ReadFile path w = (r, w2)" by (rule prod.exhaust)
  show ?thesis using run rd False os_ReadFile_cases [OF rd] by (auto simp: readSecret_def stored_key_def split: if_splits)
qed (auto simp: readSecret_def stored_key_def)

lemma quiet_readSecret: "readSecret path w = (r, w1) \<Longrightarrow> quiet p w w1"
  by (auto simp: readSecret_def dest: quiet_ReadFile split: if_splits prod.splits sum.splits)

lemma New_reads_key: "Central_New Z cfg a t n w = (Inr c, w1) \<Longrightarrow> cl_apiKey c = stored_key (files w) (cen_APIKeyFile cfg)"
  by (auto simp: Central_New_def io_ok dest: readSecret_stored)

lemma filled_secret:
  assumes "fill_secret tmp v w = (r, w')"
  shows "p \<noteq> tmp \<Longrightarrow> quiet p w w'"
    and "r = Inr () \<Longrightarrow> fs_content (files w) tmp = Some [] \<Longrightarrow> fs_content (files w') tmp = Some (v @ [CHR 0x0A])"
proof -
  have "io_quiet p (fill_secret tmp v)" if "p \<noteq> tmp"
    using that unfolding fill_secret_def by (intro io_intros) (auto intro: io_quietI dest: quiet_Append quiet_file_Sync)
  then show "p \<noteq> tmp \<Longrightarrow> quiet p w w'" using io_quietD assms by blast
  assume "r = Inr ()" and e: "fs_content (files w) tmp = Some []"
  with assms obtain w1 w2 where s: "os_Chmod tmp mode_private w = (Inr (), w1)"
    "file_Append tmp (v @ [CHR 0x0A]) w1 = (Inr (), w2)" "file_Sync tmp w2 = (Inr (), w')"
    by (auto simp: fill_secret_def io_ok)
  have "fs_content (files w1) tmp = Some []" using content_Chmod [OF s(1)] e by simp
  from content_Append [OF s(2) this] content_Sync [OF s(3)]
  show "fs_content (files w') tmp = Some (v @ [CHR 0x0A])" by simp
qed

text \<open>The key file holds the old or the new key, whatever fails and whenever the machine stops.\<close>

lemma writeSecret_atomic:
  assumes run: "writeSecret rnd path v w = (r, w')" and ne: "path \<noteq> secret_temporary rnd path"
  shows "crash_safe (\<lambda>u. fs_content u path = fs_content (files w) path \<or> fs_content u path = Some (v @ [CHR 0x0A])) w w'"
    and "r = Inr () \<Longrightarrow> fs_content (files w') path = Some (v @ [CHR 0x0A]) \<and> TrimSpace path \<noteq> []"
proof -
  let ?tmp = "secret_temporary rnd path"
  let ?R = "\<lambda>u. fs_content u path = fs_content (files w) path \<or> fs_content u path = Some (v @ [CHR 0x0A])"
  have "crash_safe ?R w w' \<and> (r = Inr () \<longrightarrow> fs_content (files w') path = Some (v @ [CHR 0x0A]) \<and> TrimSpace path \<noteq> [])"
  proof (cases "TrimSpace path = []")
    case True
    then show ?thesis using run by (auto simp: writeSecret_def io_bind_def io_check_def io_fail_def intro: crash_safe_quiet)
  next
    case path: False
    obtain r1 w1 where m: "os_MkdirAll (filepath_Dir path) mode_private_dir w = (r1, w1)" by (rule prod.exhaust)
    obtain r2 w2 where wr: "os_WriteFile ?tmp [] mode_private w1 = (r2, w2)" by (rule prod.exhaust)
    have q2: "quiet path w w2" by (rule quiet_trans [OF quiet_MkdirAll [OF m] quiet_WriteFile [OF wr ne]])
    obtain r3 w3 where fl: "fill_secret ?tmp v w2 = (r3, w3)" by (rule prod.exhaust)
    have q3: "quiet path w w3" by (rule quiet_trans [OF q2 filled_secret(1) [OF fl ne]])
    obtain r4 w4 where rn: "os_Rename ?tmp path w3 = (r4, w4)" by (rule prod.exhaust)
    have idle: "crash_safe ?R w w'" if "quiet path w w'" using that by (rule crash_safe_content)
    consider "\<exists>e. r1 = Inl e" | "r1 = Inr ()" "\<exists>e. r2 = Inl e" | "r1 = Inr ()" "r2 = Inr ()" "\<exists>e. r3 = Inl e"
      | "r1 = Inr ()" "r2 = Inr ()" "r3 = Inr ()" by (cases r1; cases r2; cases r3; auto)
    then show ?thesis
    proof cases
      case 1
      then have "w' = w1" "r \<noteq> Inr ()" using run m path by (auto simp: writeSecret_def io_bind_def io_wrap_def io_check_def io_return_def)
      then show ?thesis using idle quiet_MkdirAll [OF m] by simp
    next
      case 2
      then have "w' = w2" "r \<noteq> Inr ()" using run m wr path by (auto simp: writeSecret_def io_bind_def io_wrap_def io_check_def io_return_def)
      then show ?thesis using idle q2 by simp
    next
      case 3
      then have "w' = snd (os_Remove ?tmp w3)" "r \<noteq> Inr ()"
        using run m wr fl path by (auto simp: writeSecret_def io_bind_def io_wrap_def io_check_def io_return_def)
      then show ?thesis using idle quiet_trans [OF q3 quiet_snd_Remove [OF ne]] by simp
    next
      case 4
      then have w': "w' = snd (os_Remove ?tmp w4)" and r: "r = Inr () \<Longrightarrow> r4 = Inr ()"
        using run m wr fl rn path by (auto simp: writeSecret_def io_bind_def io_wrap_def io_check_def io_return_def split: sum.splits)
      have q5: "quiet path w4 w'" unfolding w' by (rule quiet_snd_Remove [OF ne])
      have "fs_content (files w2) ?tmp = Some []" using write_content [of ?tmp "[]" mode_private w1 w2] wr 4(2) by simp
      then have c: "fs_content (files w3) ?tmp = Some (v @ [CHR 0x0A])" using filled_secret(2) [OF fl] 4(3) by simp
      show ?thesis
      proof (cases r4)
        case (Inl e)
        then have "quiet path w3 w4" using rn quiet_Rename_failed by blast
        then show ?thesis using idle quiet_trans [OF quiet_trans [OF q3] q5] r Inl by auto
      next
        case (Inr x)
        then have rn': "os_Rename ?tmp path w3 = (Inr (), w4)" using rn by simp
        have "fs_content (files w') path = Some (v @ [CHR 0x0A])"
          using rename_installs(1) [OF rn'] c quiet_content [OF q5] by simp
        then show ?thesis using tmp_install_atomic [OF q3 c rn' q5] path by blast
      qed
    qed
  qed
  then show "crash_safe ?R w w'" and "r = Inr () \<Longrightarrow> fs_content (files w') path = Some (v @ [CHR 0x0A]) \<and> TrimSpace path \<noteq> []" by blast+
qed

text \<open>The key an answer grants.\<close>

definition granted_key :: "central_codec \<Rightarrow> central_reply \<Rightarrow> string" where
  "granted_key Z reply =
     (case reply of None \<Rightarrow> [] | Some (_, body) \<Rightarrow> (case cz_answer Z body of None \<Rightarrow> [] | Some a \<Rightarrow> ra_AgentAPIKey a))"

lemma TrimSpace_newline: "TrimSpace (v @ [CHR 0x0A]) = TrimSpace v"
proof -
  have n: "is_space (CHR 0x0A)" by (simp add: is_space_def)
  show ?thesis
  proof (cases "\<forall>c\<in>set v. is_space c")
    case True
    then show ?thesis using n by (simp add: TrimSpace_eq_Nil_iff [THEN iffD2])
  next
    case False
    then obtain c where c: "c \<in> set v" "\<not> is_space c" by blast
    show ?thesis using n dropWhile_append1 [where P = is_space and x = c and xs = v and ys = "[CHR 0x0A]"] c by (simp add: TrimSpace_def trim_left_space_def)
  qed
qed

lemma Registration_cases:
  assumes "Client_Register Z d rotating c w = (r, sent, c', w')" and "file = cen_APIKeyFile (cl_cfg c)"
  obtains (unchanged) "c' = c" "quiet file w w'"
  | (granted) w1 r2 where "quiet file w w1" "writeSecret (dz_name d) file (granted_key Z (dz_reply d)) w1 = (r2, w')"
      "c' = (if r2 = Inr () then c\<lparr>cl_apiKey := granted_key Z (dz_reply d)\<rparr> else c)"
proof -
  obtain t w1 where t: "readSecret (cen_EnrollmentTokenFile (cl_cfg c)) w = (t, w1)" by (rule prod.exhaust)
  have q: "quiet file w w1" by (rule quiet_readSecret [OF t])
  show thesis
  proof (cases t)
    case (Inl e)
    then show thesis using assms t q unchanged by (auto simp: Client_Register_def)
  next
    case (Inr token)
    obtain x sent1 where p: "postJSON Z c ''/api/v1/agents/register'' (PRegister (registration Z d rotating token c)) False (dz_reply d) = (x, sent1)"
      by (rule prod.exhaust)
    show thesis
    proof (cases "\<exists>body a. x = Inr body \<and> cz_answer Z body = Some a \<and> ra_Accepted a \<and> ra_AgentAPIKey a \<noteq> []")
      case False
      then have "c' = c \<and> w' = w1" using assms(1) t Inr p by (auto simp: Client_Register_def split: sum.splits option.splits if_splits)
      then show thesis using unchanged q by simp
    next
      case True
      then obtain body a where a: "x = Inr body" "cz_answer Z body = Some a" "ra_Accepted a" "ra_AgentAPIKey a \<noteq> []" by blast
      have g: "granted_key Z (dz_reply d) = ra_AgentAPIKey a"
        using p a by (auto simp: postJSON_def granted_key_def split: option.splits if_splits)
      obtain r2 w2 where wr: "writeSecret (dz_name d) file (ra_AgentAPIKey a) w1 = (r2, w2)" by (rule prod.exhaust)
      have "w' = w2 \<and> c' = (if r2 = Inr () then c\<lparr>cl_apiKey := ra_AgentAPIKey a\<rparr> else c)"
        using assms(1) t Inr p a wr by (cases r2) (auto simp: Client_Register_def assms(2))
      then show thesis using granted q wr g by simp
    qed
  qed
qed

text \<open>C37. Registration never corrupts the stored key: in every state a crash or a failure can leave, a restart reads the old key
  or the granted one; a client only uses a new key after it is stored, so a restart continues with the key in use (without the
  space around it).\<close>

theorem central_key_survives_restart:
  assumes "Client_Register Z d rotating c w = (r, sent, c', w')" and "file = cen_APIKeyFile (cl_cfg c)"
    and "file \<noteq> secret_temporary (dz_name d) file"
  shows "crash_safe (\<lambda>u. stored_key u file = stored_key (files w) file \<or> stored_key u file = TrimSpace (granted_key Z (dz_reply d))) w w'
    \<and> (cl_apiKey c' \<noteq> cl_apiKey c \<longrightarrow> (\<forall>w2 c2 w3 a t n. files w2 = files w' \<longrightarrow> Central_New Z (cl_cfg c) a t n w2 = (Inr c2, w3) \<longrightarrow>
          cl_apiKey c2 = TrimSpace (cl_apiKey c')))"
  using assms(1,2)
proof (cases rule: Registration_cases)
  case unchanged
  have "crash_safe (\<lambda>u. stored_key u file = stored_key (files w) file \<or> stored_key u file = TrimSpace (granted_key Z (dz_reply d))) w w'"
    by (rule crash_safe_quiet [OF unchanged(2)]) (simp add: stored_key_def)
  then show ?thesis using unchanged(1) by simp
next
  case (granted w1 r2)
  let ?k = "granted_key Z (dz_reply d)"
  let ?R = "\<lambda>u. stored_key u file = stored_key (files w) file \<or> stored_key u file = TrimSpace ?k"
  note a = writeSecret_atomic [OF granted(2) assms(3), unfolded quiet_content [OF granted(1)]]
  have "crash_safe ?R w w1" by (rule crash_safe_quiet [OF granted(1)]) (simp add: stored_key_def)
  moreover have "crash_safe ?R w1 w'"
    by (rule crash_safe_mono [OF a(1)]) (auto simp: stored_key_def TrimSpace_newline)
  ultimately have "crash_safe ?R w w'" by (rule crash_safe_trans)
  moreover have "stored_key (files w') file = TrimSpace ?k" if "r2 = Inr ()"
    using a(2) [OF that] by (simp add: stored_key_def TrimSpace_newline)
  ultimately show ?thesis using granted(3) New_reads_key by (auto simp: assms(2) split: if_splits)
qed


section \<open>Sending again\<close>

text \<open>A batch whose answer is lost is sent again, with the same events under another idempotency key, so that the service cannot
  recognise it as the one it already has.\<close>

lemma lost_answer_sends_twice:
  assumes "lo_registered l" and "lo_pending l \<noteq> []" and "cl_apiKey (lo_client l) \<noteq> []" and "dz_reply d = None"
    and "cz_request Z (cl_baseURL (lo_client l) @ ''/api/v1/ingest'')"
    and "items = take (nat (cen_MaxBatch (cl_cfg (lo_client l)))) (lo_pending l)"
    and "cz_payload Z (PBatch (batch_of Z d (lo_client l) items)) = Some body"
    and "cz_payload Z (PBatch (batch_of Z d' (lo_client l) items)) = Some body'"
    and "dz_random d = Some a" and "dz_random d' = Some b" and "a \<noteq> b"
  shows "\<exists>sent delivered l'. flush Z d l = ([\<lparr>rq_URL = cl_baseURL (lo_client l) @ ''/api/v1/ingest'',
        rq_Key = Some (cl_apiKey (lo_client l)), rq_Body = body\<rparr>], [], l)
    \<and> flush Z d' l = (sent, delivered, l') \<and> map rq_Body sent = [body']
    \<and> map (toDetectionAlert Z) (concat (map qe_findings items)) = ib_Alerts (batch_of Z d' (lo_client l) items)
    \<and> ib_IdempotencyKey (batch_of Z d (lo_client l) items) \<noteq> ib_IdempotencyKey (batch_of Z d' (lo_client l) items)"
proof -
  have inj: "hex_EncodeToString a \<noteq> hex_EncodeToString b" using assms(11) by (metis hex_Decode_Encode option.inject)
  have 1: "flush Z d l = ([\<lparr>rq_URL = cl_baseURL (lo_client l) @ ''/api/v1/ingest'', rq_Key = Some (cl_apiKey (lo_client l)), rq_Body = body\<rparr>], [], l)"
    using assms(1-7) by (simp add: flush_def sendBatch_def postJSON_def isUnauthorized_def)
  obtain sent delivered l' where 2: "flush Z d' l = (sent, delivered, l')" by (metis surj_pair)
  have "map rq_Body sent = [body']"
    using 2 assms(1,2,3,5,6,8) by (auto simp: flush_def Let_def sendBatch_def postJSON_def split: option.splits if_splits)
  moreover have "ib_IdempotencyKey (batch_of Z d (lo_client l) items) \<noteq> ib_IdempotencyKey (batch_of Z d' (lo_client l) items)"
    using inj assms(9,10) by (simp add: batch_of_def newID_def)
  ultimately show ?thesis using 1 2 by (simp add: batch_of_def)
qed

section \<open>A run\<close>

definition toy_central_codec :: central_codec where
  "toy_central_codec = \<lparr>cz_url = (\<lambda>_. True), cz_request = (\<lambda>_. True), cz_payload = (\<lambda>_. Some ''x''), cz_event = (\<lambda>_. Some ''e''),
     cz_finding = (\<lambda>_. Some ''f''), cz_answer = (\<lambda>body. Some \<lparr>ra_Accepted = True, ra_Message = [], ra_AgentAPIKey = body\<rparr>), cz_version = ''1''\<rparr>"

definition toy_central_config :: Central where
  "toy_central_config = \<lparr>cen_Enabled = True, cen_URL = ''https://c'', cen_EnrollmentTokenFile = [], cen_APIKeyFile = ''/d/key'',
     cen_AllowUntrusted = False, cen_HeartbeatInterval = ''30s'', cen_BatchInterval = ''5s'', cen_MaxBatch = 2, cen_QueueSize = 3\<rparr>"

definition toy_client :: "string \<Rightarrow> Client" where
  "toy_client key = \<lparr>cl_cfg = toy_central_config, cl_baseURL = ''https://c'', cl_agentID = ''a'', cl_tenantID = ''t'',
     cl_computerName = ''h'', cl_insecure = False, cl_queue = [], cl_apiKey = key\<rparr>"

definition toy_loop :: "bool \<Rightarrow> string \<Rightarrow> central_loop" where
  "toy_loop registered key = \<lparr>lo_client = toy_client key, lo_registered = registered, lo_pending = []\<rparr>"

definition toy_central_draw :: "central_reply \<Rightarrow> central_draw" where
  "toy_central_draw reply = \<lparr>dz_reply = reply, dz_interfaces = None, dz_now = 1, dz_random = Some ''r'', dz_later = (\<lambda>_. 2), dz_name = ''1''\<rparr>"

definition blank_world :: world where
  "blank_world = \<lparr>files = [], faults = [], events = [], clock = 5, clock_steps = []\<rparr>"

text \<open>The turns of a run, one after the other.\<close>

fun turns_of :: "central_codec \<Rightarrow> (central_draw \<times> central_turn) list \<Rightarrow> central_loop \<Rightarrow> world
    \<Rightarrow> (queuedEvent list \<times> queuedEvent list \<times> queuedEvent list \<times> central_request list \<times> central_loop \<times> world) option" where
  "turns_of Z [] l w = Some ([], [], [], [], l, w)"
| "turns_of Z ((d, t) # ts) l w =
     (case central_step Z d t l w of
        None \<Rightarrow> None
      | Some (rq, items, l1, w1) \<Rightarrow>
          (case turns_of Z ts l1 w1 of
             None \<Rightarrow> None
           | Some (acc, drp, dlv, sent, l2, w2) \<Rightarrow>
               Some (accepted_by t l @ acc, dropped_by t l @ drp, items @ dlv, rq @ sent, l2, w2)))"

lemma turns_run:
  assumes "turns_of Z ts l w = Some (acc, drp, dlv, sent, l', w')" and "central_run Z l0 w0 acc0 drp0 dlv0 sent0 l w"
  shows "central_run Z l0 w0 (acc0 @ acc) (drp0 @ drp) (dlv0 @ dlv) (sent0 @ sent) l' w'"
  using assms
proof (induction Z ts l w arbitrary: acc drp dlv sent acc0 drp0 dlv0 sent0 rule: turns_of.induct)
  case (2 Z d t ts l w)
  from 2(2) obtain rq items l1 w1 acc1 drp1 dlv1 sent1 where s: "central_step Z d t l w = Some (rq, items, l1, w1)"
    "turns_of Z ts l1 w1 = Some (acc1, drp1, dlv1, sent1, l', w')"
    "acc = accepted_by t l @ acc1" "drp = dropped_by t l @ drp1" "dlv = items @ dlv1" "sent = rq @ sent1"
    by (auto split: option.splits)
  show ?case using 2(1) [OF s(1) refl refl refl s(2) run_turn [OF 2(3) s(1)]] s(3-6) by simp
qed simp

lemma turns_central_run:
  "turns_of Z ts l w = Some (acc, drp, dlv, sent, l', w') \<Longrightarrow> central_run Z l w acc drp dlv sent l' w'"
  using turns_run [where ?acc0.0 = "[]" and ?drp0.0 = "[]" and ?dlv0.0 = "[]" and ?sent0.0 = "[]", OF _ run_start] by simp

text \<open>Registration, five events of which one finds three pending already, and two deliveries.\<close>

definition toy_turns :: "(central_draw \<times> central_turn) list" where
  "toy_turns = [(toy_central_draw (Some (200, ''k'')), RetryTick),
     (toy_central_draw None, Offer (zero_Event\<lparr>ev_ID := ''1''\<rparr>) []), (toy_central_draw None, Receive),
     (toy_central_draw None, Offer (zero_Event\<lparr>ev_ID := ''2''\<rparr>) []), (toy_central_draw None, Receive),
     (toy_central_draw None, Offer (zero_Event\<lparr>ev_ID := ''3''\<rparr>) []), (toy_central_draw None, Receive),
     (toy_central_draw None, Offer (zero_Event\<lparr>ev_ID := ''4''\<rparr>) []), (toy_central_draw None, Receive),
     (toy_central_draw (Some (200, [])), BatchTick), (toy_central_draw None, Offer (zero_Event\<lparr>ev_ID := ''5''\<rparr>) [])]"


definition event_ids :: "queuedEvent list \<Rightarrow> string list" where "event_ids = map (\<lambda>q. ev_ID (qe_event q))"

definition summary :: "queuedEvent list \<times> queuedEvent list \<times> queuedEvent list \<times> central_request list \<times> central_loop \<times> world
    \<Rightarrow> string list \<times> string list \<times> string list \<times> string list \<times> string list \<times> string list" where
  "summary h = (case h of (acc, drp, dlv, sent, l, w) \<Rightarrow>
     (event_ids acc, event_ids drp, event_ids dlv, map rq_URL sent, event_ids (lo_pending l), event_ids (cl_queue (lo_client l))))"

lemma toy_summary:
  "map_option summary (turns_of toy_central_codec toy_turns (toy_loop False []) blank_world) =
     Some ([''1'', ''2'', ''3'', ''4'', ''5''], [''4''], [''1'', ''2''],
       [''https://c/api/v1/agents/register'', ''https://c/api/v1/ingest'', ''https://c/api/v1/ingest'', ''https://c/api/v1/ingest''],
       [''3''], [''5''])"
  by code_simp

lemma toy_central_run:
  obtains acc drp dlv sent l w where "central_run toy_central_codec (toy_loop False []) blank_world acc drp dlv sent l w"
    "event_ids acc = [''1'', ''2'', ''3'', ''4'', ''5'']" "event_ids drp = [''4'']" "event_ids dlv = [''1'', ''2'']" "length sent = 4"
proof -
  obtain acc drp dlv sent l w where "turns_of toy_central_codec toy_turns (toy_loop False []) blank_world = Some (acc, drp, dlv, sent, l, w)"
    using toy_summary by (cases "turns_of toy_central_codec toy_turns (toy_loop False []) blank_world") auto
  note r = turns_central_run [OF this]
  have "summary (acc, drp, dlv, sent, l, w) = ([''1'', ''2'', ''3'', ''4'', ''5''], [''4''], [''1'', ''2''],
       [''https://c/api/v1/agents/register'', ''https://c/api/v1/ingest'', ''https://c/api/v1/ingest'', ''https://c/api/v1/ingest''],
       [''3''], [''5''])"
    using toy_summary \<open>turns_of _ _ _ _ = _\<close> by simp
  then have e: "event_ids acc = [''1'', ''2'', ''3'', ''4'', ''5'']" "event_ids drp = [''4'']" "event_ids dlv = [''1'', ''2'']"
    "map rq_URL sent = [''https://c/api/v1/agents/register'', ''https://c/api/v1/ingest'', ''https://c/api/v1/ingest'', ''https://c/api/v1/ingest'']"
    by (simp_all add: summary_def)
  show thesis using that [OF r e(1-3)] arg_cong [OF e(4), of length] by simp
qed

theorem central_queue_is_fifo_witness:
  "\<exists>acc drp dlv sent l w. central_run toy_central_codec (toy_loop False []) blank_world acc drp dlv sent l w
     \<and> event_ids acc = [''1'', ''2'', ''3'', ''4'', ''5''] \<and> event_ids drp = [''4''] \<and> event_ids dlv = [''1'', ''2'']
     \<and> subseq (dlv @ lo_pending l @ cl_queue (lo_client l)) acc"
proof -
  obtain acc drp dlv sent l w where r: "central_run toy_central_codec (toy_loop False []) blank_world acc drp dlv sent l w"
    "event_ids acc = [''1'', ''2'', ''3'', ''4'', ''5'']" "event_ids drp = [''4'']" "event_ids dlv = [''1'', ''2'']"
    by (rule toy_central_run)
  have "waiting (toy_loop False []) = []" "0 \<le> cen_QueueSize (cl_cfg (lo_client (toy_loop False [])))" by code_simp+
  from central_queue_is_fifo [OF r(1) this] r show ?thesis by blast
qed


definition mute_turns :: "(central_draw \<times> central_turn) list" where
  "mute_turns = [(toy_central_draw None, Offer zero_Event []), (toy_central_draw None, Receive),
     (toy_central_draw (Some (200, [])), BatchTick), (toy_central_draw (Some (200, ''k'')), RetryTick)]"

theorem registered_without_key_is_stuck_witness:
  "\<exists>acc drp l w. central_run toy_central_codec (toy_loop True []) blank_world acc drp [] [] l w \<and> length (lo_pending l) = 1"
proof -
  have s: "map_option (\<lambda>h. length (lo_pending (fst (snd (snd (snd (snd h)))))))
      (turns_of toy_central_codec mute_turns (toy_loop True []) blank_world) = Some 1" by code_simp
  then obtain acc drp dlv sent l w where r: "turns_of toy_central_codec mute_turns (toy_loop True []) blank_world = Some (acc, drp, dlv, sent, l, w)"
    by (cases "turns_of toy_central_codec mute_turns (toy_loop True []) blank_world") auto
  have "lo_registered (toy_loop True [])" "cl_apiKey (lo_client (toy_loop True [])) = []" by (simp_all add: toy_loop_def toy_client_def)
  from registered_without_key_is_stuck [OF turns_central_run [OF r] this] turns_central_run [OF r] s r show ?thesis by auto
qed

theorem central_key_survives_restart_witness:
  "\<exists>sent c' w'. Client_Register toy_central_codec (toy_central_draw (Some (200, ''k''))) False (toy_client ''old'') blank_world = (Inr (), sent, c', w')
     \<and> (\<exists>c2 w3. Central_New toy_central_codec toy_central_config ''a'' ''t'' ''h'' w' = (Inr c2, w3) \<and> cl_apiKey c2 = ''k'')"
proof -
  obtain r sent c' w' where run: "Client_Register toy_central_codec (toy_central_draw (Some (200, ''k''))) False (toy_client ''old'') blank_world = (r, sent, c', w')"
    by (metis surj_pair)
  have e: "(case Client_Register toy_central_codec (toy_central_draw (Some (200, ''k''))) False (toy_client ''old'') blank_world of
      (r, sent, c', w') \<Rightarrow> (r, cl_apiKey c', is_ok (fst (Central_New toy_central_codec toy_central_config ''a'' ''t'' ''h'' w')))) = (Inr (), ''k'', True)"
    by code_simp
  from e [unfolded run] have e': "r = Inr ()" "cl_apiKey c' = ''k''"
    "is_ok (fst (Central_New toy_central_codec toy_central_config ''a'' ''t'' ''h'' w'))" by (simp_all only: prod.case prod.inject)
  obtain c2 w3 where n: "Central_New toy_central_codec (cl_cfg (toy_client ''old'')) ''a'' ''t'' ''h'' w' = (Inr c2, w3)"
    using e'(3) by (cases "Central_New toy_central_codec toy_central_config ''a'' ''t'' ''h'' w'") (auto simp: is_ok_iff toy_client_def)
  have p: "''/d/key'' = cen_APIKeyFile (cl_cfg (toy_client ''old''))" by (simp add: toy_client_def toy_central_config_def)
  have t: "''/d/key'' \<noteq> secret_temporary (dz_name (toy_central_draw (Some (200, ''k'')))) ''/d/key''" by code_simp
  have u: "cl_apiKey c' \<noteq> cl_apiKey (toy_client ''old'')" using e' by (simp add: toy_client_def)
  have "cl_apiKey c2 = TrimSpace (cl_apiKey c')"
    by (rule conjunct2 [OF central_key_survives_restart [OF run p t], rule_format, OF u refl n])
  moreover have "TrimSpace ''k'' = ''k''" by code_simp
  ultimately have "cl_apiKey c2 = ''k''" using e' by simp
  then show ?thesis using run [unfolded e'(1)] n by (auto simp: toy_client_def)
qed

end
