(* ===== verification/Api_Server.thy ===== *)
theory Api_Server
  imports Central_Client
begin

text \<open>
  \<open>internal/api/server.go\<close>, the local HTTP interface, and what \<open>internal/agent/runtime.go\<close> gives it: the status report and
  \<open>Ingest\<close>. The routing of \<open>http.ServeMux\<close> is modelled for clean paths; the JSON decoder and the random source are parameters.
  A request is the method, the path, the \<open>Authorization\<close> header and the bytes of its body that arrive.
\<close>

section \<open>The token\<close>

datatype token_error = TokRead oserr | TokShort | TokChmod oserr | TokMkdir oserr | TokRandom | TokWrite oserr

definition EnsureToken :: "string option \<Rightarrow> string \<Rightarrow> (token_error, string) call" where
  "EnsureToken rnd path w =
     (case os_ReadFile path w of
        (Inr body, w1) \<Rightarrow>
          (if length (TrimSpace body) < 32 then (Inl TokShort, w1)
           else io_bind (io_wrap TokChmod (os_Chmod path mode_private)) (\<lambda>_. io_return (TrimSpace body)) w1)
      | (Inl e, w1) \<Rightarrow>
          if e \<noteq> ErrNotExist then (Inl (TokRead e), w1)
          else io_bind (io_wrap TokMkdir (os_MkdirAll (filepath_Dir path) mode_private_dir)) (\<lambda>_.
               io_bind (io_some TokRandom rnd) (\<lambda>buffer.
               io_bind (io_wrap TokWrite (os_WriteFile path (hex_EncodeToString buffer @ [CHR 0x0A]) mode_private)) (\<lambda>_.
               io_return (hex_EncodeToString buffer)))) w1)"

section \<open>Status reports\<close>

text \<open>\<open>Duration.Round(time.Second)\<close> and \<open>String\<close> of a whole number of seconds.\<close>

definition round_seconds :: "duration \<Rightarrow> duration" where
  "round_seconds d =
     (let r = \<bar>d\<bar> mod Second;
          up = (if d < 0 then (if r + r < Second then d + r else d - Second + r)
                else (if r + r < Second then d - r else d + Second - r))
      in if d < 0 then (if up < - (2 ^ 63) then - (2 ^ 63) else up) else (if up > 2 ^ 63 - 1 then 2 ^ 63 - 1 else up))"

definition seconds_String :: "duration \<Rightarrow> string" where
  "seconds_String d =
     (let n = \<bar>d\<bar> div Second; h = n div 3600; m = n div 60 mod 60; s = n mod 60
      in (if d < 0 then ''-'' else []) @ (if h > 0 then Itoa h @ ''h'' else []) @ (if n \<ge> 60 then Itoa m @ ''m'' else []) @ Itoa s @ ''s'')"

record Status =
  st_Status :: string
  st_AgentID :: string
  st_TenantID :: string
  st_Hostname :: string
  st_StartedAt :: gtime
  st_Uptime :: string
  st_Events :: "64 word"
  st_Findings :: "64 word"
  st_Errors :: "64 word"
  st_Sources :: nat
  st_FileSources :: nat
  st_NativeSources :: nat
  st_NativeEvents :: "64 word"
  st_AIEnabled :: bool
  st_InventoryEnabled :: bool
  st_InventoryRuns :: "64 word"
  st_LastInventoryAt :: "gtime option"
  st_InventoryInterval :: string
  st_TransportEnabled :: bool
  st_TransportPending :: nat
  st_TransportPendingBytes :: nat
  st_TransportDeadLetter :: nat
  st_TransportDeadLetterBytes :: nat
  st_TransportSent :: "64 word"
  st_TransportErrors :: "64 word"
  st_TransportBackpressure :: bool
  st_LastTransportSuccessAt :: "gtime option"
  st_CertificateAutoRenew :: bool
  st_CertificateExpiresAt :: "gtime option"
  st_CertificateRenewals :: "64 word"
  st_LastCertificateRenewAt :: "gtime option"
  st_SafetyModel :: string

text \<open>A time kept as nanoseconds, 0 for none.\<close>

definition nano_time :: "int \<Rightarrow> gtime option" where "nano_time n = (if n \<noteq> 0 then Some (of_UnixNano n) else None)"

definition no_stats :: OutboxStats where
  "no_stats = \<lparr>os_Pending = 0, os_PendingBytes = 0, os_DeadLetter = 0, os_DeadLetterBty = 0\<rparr>"

definition certificate_expiry :: "pki \<Rightarrow> Runtime \<Rightarrow> world \<Rightarrow> gtime option \<times> world" where
  "certificate_expiry K r w =
     (if tr_Enabled (cf_Transport (rt_cfg r))
      then (case CertificateExpiry K (tr_CertFile (cf_Transport (rt_cfg r))) w of (Inl _, w1) \<Rightarrow> (None, w1) | (Inr t, w1) \<Rightarrow> (Some t, w1))
      else (None, w))"

definition transport_stats :: "Runtime \<Rightarrow> world \<Rightarrow> OutboxStats \<times> world" where
  "transport_stats r w =
     (case rt_transportOutbox r of
        None \<Rightarrow> (no_stats, w)
      | Some ob \<Rightarrow> (case Stats ob w of (Inl _, w1) \<Rightarrow> (no_stats, w1) | (Inr stats, w1) \<Rightarrow> (stats, w1)))"

definition status_report :: "Runtime \<Rightarrow> gtime option \<Rightarrow> OutboxStats \<Rightarrow> gtime \<Rightarrow> Status" where
  "status_report r expiry stats now =
     (let c = rt_cfg r; t = cf_Transport c; inv = rt_inventoryCollector r \<noteq> None
      in \<lparr>st_Status = ''running'', st_AgentID = cf_AgentID c, st_TenantID = cf_TenantID c, st_Hostname = rt_hostname r,
          st_StartedAt = rt_startedAt r, st_Uptime = seconds_String (round_seconds (time_sub now (rt_startedAt r))),
          st_Events = rt_eventCount r, st_Findings = rt_findingCount r, st_Errors = rt_errorCount r,
          st_Sources = length (rt_tailers r) + length (rt_nativeSources r) + (if inv then 1 else 0),
          st_FileSources = length (rt_tailers r), st_NativeSources = length (rt_nativeSources r), st_NativeEvents = rt_nativeEventCount r,
          st_AIEnabled = ai_Enabled (cf_AI c), st_InventoryEnabled = inv, st_InventoryRuns = rt_inventoryCount r,
          st_LastInventoryAt = nano_time (rt_lastInventoryNano r), st_InventoryInterval = ic_Interval (cf_Inventory c),
          st_TransportEnabled = (rt_transportSender r \<noteq> None), st_TransportPending = os_Pending stats,
          st_TransportPendingBytes = os_PendingBytes stats, st_TransportDeadLetter = os_DeadLetter stats,
          st_TransportDeadLetterBytes = os_DeadLetterBty stats, st_TransportSent = rt_transportSentCount r,
          st_TransportErrors = rt_transportErrorCount r,
          st_TransportBackpressure = (rt_transportOutbox r \<noteq> None \<and> int (os_Pending stats) \<ge> tr_PendingWarn t),
          st_LastTransportSuccessAt = nano_time (rt_lastTransportSuccessNano r),
          st_CertificateAutoRenew = (tr_Enabled t \<and> tr_AutoRenew t), st_CertificateExpiresAt = expiry,
          st_CertificateRenewals = rt_certificateRenewalCount r, st_LastCertificateRenewAt = nano_time (rt_lastCertificateRenewNano r),
          st_SafetyModel = ''AI may analyze evidence; only typed tools behind deterministic policy may act''\<rparr>)"

definition Runtime_Status :: "pki \<Rightarrow> Runtime \<Rightarrow> world \<Rightarrow> Status \<times> world" where
  "Runtime_Status K r w =
     (let (expiry, w1) = certificate_expiry K r w;
          (stats, w2) = transport_stats r w1;
          (now, w3) = time_Now w2
      in (status_report r expiry stats now, w3))"

text \<open>\<open>depth\<close> is \<open>QueueDepth\<close> of the client.\<close>

definition centralStatus :: "pki \<Rightarrow> nat \<Rightarrow> Runtime \<Rightarrow> world \<Rightarrow> HeartbeatStatus \<times> world" where
  "centralStatus K depth r w =
     (let (s, w1) = Runtime_Status K r w
      in (\<lparr>hb_AgentID = st_AgentID s, hb_TenantID = st_TenantID s, hb_ComputerName = st_Hostname s, hb_Status = st_Status s,
           hb_Events = st_Events s, hb_Findings = st_Findings s, hb_Errors = st_Errors s, hb_QueueDepth = int depth, hb_LastError = []\<rparr>, w1))"

section \<open>The server\<close>

text \<open>\<open>'s\<close> is the state behind the two functions the server is given.\<close>

record 's Server =
  sr_listen :: string
  sr_token :: string
  sr_status :: "'s \<Rightarrow> Status \<times> 's"
  sr_ingest :: "(Event \<Rightarrow> 's \<Rightarrow> (bool \<times> Finding list) \<times> 's) option"

definition Server_New :: "string \<Rightarrow> string \<Rightarrow> ('s \<Rightarrow> Status \<times> 's) \<Rightarrow> (Event \<Rightarrow> 's \<Rightarrow> (bool \<times> Finding list) \<times> 's) option \<Rightarrow> 's Server" where
  "Server_New listen tok status ingest = \<lparr>sr_listen = listen, sr_token = tok, sr_status = status, sr_ingest = ingest\<rparr>"

record api_request =
  aq_method :: string
  aq_path :: string
  aq_authorization :: string
  aq_body :: string
  aq_complete :: bool

datatype api_body = BNone | BHealth | BError string | BStatus Status | BAccepted string "Finding list"

record api_response =
  ap_status :: nat
  ap_headers :: "(string \<times> string) list"
  ap_body :: api_body

text \<open>The decoder that refuses unknown fields: the first value and what follows it, or the text of an error; and what a second
  \<open>Decode\<close> says of text that holds more than space: nothing for a further value, else the error.\<close>

record api_codec =
  ak_event :: "string \<Rightarrow> (string, Event \<times> string) result"
  ak_trailing :: "string \<Rightarrow> string option"

definition maxEventBody :: nat where "maxEventBody = 1024 * 1024"

definition api_space :: "char \<Rightarrow> bool" where "api_space c = (c \<in> {CHR '' '', CHR 0x09, CHR 0x0A, CHR 0x0D})"

definition writeJSON :: "nat \<Rightarrow> api_body \<Rightarrow> api_response" where
  "writeJSON status body = \<lparr>ap_status = status, ap_headers = [(''Content-Type'', ''application/json'')], ap_body = body\<rparr>"

definition writeError :: "nat \<Rightarrow> string \<Rightarrow> api_response" where "writeError status message = writeJSON status (BError message)"

text \<open>\<open>whole\<close> says that the text ends where the body ends, so that reading on gives \<open>io.EOF\<close>.\<close>

definition ensureSingleJSONValue :: "api_codec \<Rightarrow> bool \<Rightarrow> string \<Rightarrow> string option" where
  "ensureSingleJSONValue K whole rest =
     (if list_all api_space rest
      then (if whole then None else Some (''invalid trailing JSON: '' @ or_empty (ak_trailing K rest)))
      else (case ak_trailing K rest of
              Some e \<Rightarrow> Some (''invalid trailing JSON: '' @ e)
            | None \<Rightarrow> Some ''request must contain exactly one JSON value''))"

definition health :: api_response where "health = writeJSON 200 BHealth"

definition statusHandler :: "'s Server \<Rightarrow> 's \<Rightarrow> api_response \<times> 's" where
  "statusHandler srv s = (case sr_status srv s of (st, s1) \<Rightarrow> (writeJSON 200 (BStatus st), s1))"

text \<open>The event of a caller: its trust and its origin are not the caller's to choose. \<open>d\<close> is what \<open>Prepare\<close> draws.\<close>

definition received_event :: "string \<times> gtime \<times> gtime \<Rightarrow> Event \<Rightarrow> Event" where
  "received_event d event =
     (case d of (newid, now1, now2) \<Rightarrow>
        Event_Prepare newid now1 now2 (event\<lparr>ev_Trust := TrustUntrustedNetwork,
          ev_Provenance := (ev_Provenance event)\<lparr>prov_Source := ''local-api'', prov_Collector := ''http/event-ingest''\<rparr>\<rparr>))"

text \<open>\<open>http.MaxBytesReader\<close>: at most 1 MiB of the body is seen, and reading beyond it is an error.\<close>

definition ingestHandler :: "api_codec \<Rightarrow> string \<times> gtime \<times> gtime \<Rightarrow> 's Server \<Rightarrow> api_request \<Rightarrow> 's \<Rightarrow> api_response \<times> 's" where
  "ingestHandler K d srv r s =
     (case sr_ingest srv of
        None \<Rightarrow> (writeError 501 ''event ingestion is disabled'', s)
      | Some ingest \<Rightarrow>
          (case ak_event K (take maxEventBody (aq_body r)) of
             Inl e \<Rightarrow> (writeError 400 (''invalid event: '' @ e), s)
           | Inr (event0, rest) \<Rightarrow>
               (case ensureSingleJSONValue K (aq_complete r \<and> length (aq_body r) \<le> maxEventBody) rest of
                  Some e \<Rightarrow> (writeError 400 e, s)
                | None \<Rightarrow>
                    (case ingest (received_event d event0) s of
                       ((True, _), s1) \<Rightarrow> (writeError 500 ''ingest failed'', s1)
                     | ((False, findings), s1) \<Rightarrow> (writeJSON 202 (BAccepted (ev_ID (received_event d event0)) findings), s1)))))"

text \<open>\<open>subtle.ConstantTimeCompare\<close> gives 1 for equal texts.\<close>

definition authorized :: "'s Server \<Rightarrow> api_request \<Rightarrow> bool" where
  "authorized srv r =
     (let provided = TrimSpace (TrimPrefix (aq_authorization r) ''Bearer '')
      in \<not> (provided = [] \<or> length provided \<noteq> length (sr_token srv) \<or> provided \<noteq> sr_token srv))"

definition auth :: "'s Server \<Rightarrow> api_request \<Rightarrow> ('s \<Rightarrow> api_response \<times> 's) \<Rightarrow> 's \<Rightarrow> api_response \<times> 's" where
  "auth srv r next_handler s =
     (if authorized srv r then next_handler s
      else (let e = writeError 401 ''unauthorized'' in (e\<lparr>ap_headers := (''WWW-Authenticate'', ''Bearer'') # ap_headers e\<rparr>, s)))"

abbreviation no_source :: string where "no_source \<equiv> [CHR 0x27] @ ''none'' @ [CHR 0x27]"

definition security_headers :: "(string \<times> string) list" where
  "security_headers = [(''Cache-Control'', ''no-store''), (''Content-Security-Policy'', ''default-src '' @ no_source @ ''; frame-ancestors '' @ no_source),
     (''X-Content-Type-Options'', ''nosniff''), (''X-Frame-Options'', ''DENY'')]"

definition securityHeaders :: "api_response \<times> 's \<Rightarrow> api_response \<times> 's" where
  "securityHeaders = (\<lambda>(p, s). (p\<lparr>ap_headers := security_headers @ ap_headers p\<rparr>, s))"

text \<open>The routes; a \<open>GET\<close> pattern also matches \<open>HEAD\<close>.\<close>

definition plain_response :: "nat \<Rightarrow> api_response" where
  "plain_response status = \<lparr>ap_status = status, ap_headers = [], ap_body = BNone\<rparr>"

definition getting :: "api_request \<Rightarrow> bool" where "getting r = (aq_method r = ''GET'' \<or> aq_method r = ''HEAD'')"

definition route :: "api_codec \<Rightarrow> string \<times> gtime \<times> gtime \<Rightarrow> 's Server \<Rightarrow> api_request \<Rightarrow> 's \<Rightarrow> api_response \<times> 's" where
  "route K d srv r s =
     (if aq_path r = ''/healthz'' then (if getting r then (health, s) else (plain_response 405, s))
      else if aq_path r = ''/v1/status''
      then (if getting r then auth srv r (statusHandler srv) s else (plain_response 405, s))
      else if aq_path r = ''/v1/events''
      then (if aq_method r = ''POST'' then auth srv r (ingestHandler K d srv r) s else (plain_response 405, s))
      else (plain_response 404, s))"

definition serve :: "api_codec \<Rightarrow> string \<times> gtime \<times> gtime \<Rightarrow> 's Server \<Rightarrow> api_request \<Rightarrow> 's \<Rightarrow> api_response \<times> 's" where
  "serve K d srv r s = securityHeaders (route K d srv r s)"

section \<open>The server of the agent\<close>

text \<open>What \<open>Run\<close> hands to \<open>api.New\<close>: the status of the runtime and its \<open>Ingest\<close>.\<close>

definition runtime_ingest :: "runtime_codec \<Rightarrow> proc_draw \<Rightarrow> Event \<Rightarrow> Runtime \<times> world \<Rightarrow> (bool \<times> Finding list) \<times> Runtime \<times> world" where
  "runtime_ingest X pd e s =
     (case Ingest X pd e (fst s) (snd s) of ((err, findings), r1, w1) \<Rightarrow> ((err \<noteq> None, findings), (r1, w1)))"

definition local_server :: "runtime_codec \<Rightarrow> pki \<Rightarrow> proc_draw \<Rightarrow> string \<Rightarrow> string \<Rightarrow> (Runtime \<times> world) Server" where
  "local_server X K pd listen tok =
     Server_New listen tok (\<lambda>s. case Runtime_Status K (fst s) (snd s) of (st, w1) \<Rightarrow> (st, (fst s, w1))) (Some (runtime_ingest X pd))"

text \<open>\<open>Run\<close> up to the listener: without a token the agent does not start.\<close>

definition start_api :: "runtime_codec \<Rightarrow> pki \<Rightarrow> proc_draw \<Rightarrow> string option \<Rightarrow> Runtime \<Rightarrow> (token_error, (Runtime \<times> world) Server option) call" where
  "start_api X K pd rnd r =
     (if \<not> api_Enabled (cf_API (rt_cfg r)) then io_return None
      else io_bind (EnsureToken rnd (api_TokenFile (cf_API (rt_cfg r)))) (\<lambda>tok.
           io_return (Some (local_server X K pd (api_Listen (cf_API (rt_cfg r))) tok))))"


section \<open>What the interface promises\<close>

lemma rounded_examples:
  "seconds_String (round_seconds (3725 * Second + 499999999)) = ''1h2m5s''" "seconds_String (round_seconds 500000000) = ''1s''"
  by (code_simp, code_simp)

lemma round_seconds_range: "- (2 ^ 63) \<le> d \<Longrightarrow> d < 2 ^ 63 \<Longrightarrow> - (2 ^ 63) \<le> round_seconds d \<and> round_seconds d < 2 ^ 63"
  by (auto simp: round_seconds_def Let_def Second_def)

text \<open>A status report changes no file.\<close>

lemma stats_loop_files: "stats_loop path suf names a b w = (x, w') \<Longrightarrow> files w' = files w"
  by (induction path suf names a b w rule: stats_loop.induct)
    (auto split: prod.splits sum.splits if_splits dest!: os_Stat_cases(1))

lemma directoryStats_files: "directoryStats path suf w = (x, w') \<Longrightarrow> files w' = files w"
  by (auto simp: directoryStats_def os_ReadDir_def Let_def split: prod.splits sum.splits if_splits dest!: stats_loop_files next_fault_eqs)


lemma Stats_files: "Stats ob w = (x, w') \<Longrightarrow> files w' = files w"
  by (auto simp: Stats_def split: prod.splits sum.splits dest!: directoryStats_files)

lemma CertificateExpiry_files: "CertificateExpiry K q w = (x, w') \<Longrightarrow> files w' = files w"
  by (auto simp: CertificateExpiry_def io_bind_def io_wrap_def io_some_def io_fail_def io_return_def
      split: prod.splits sum.splits option.splits if_splits dest!: os_ReadFile_cases(1))

lemma Status_files: "Runtime_Status K r w = (st, w') \<Longrightarrow> files w' = files w"
  by (auto simp: Runtime_Status_def certificate_expiry_def transport_stats_def Let_def
      split: prod.splits sum.splits option.splits if_splits dest!: Stats_files CertificateExpiry_files time_Now_eqs)

lemma received_event_sel:
  "ev_Trust (received_event d e) = TrustUntrustedNetwork"
  "prov_Source (ev_Provenance (received_event d e)) = ''local-api''"
  "prov_Collector (ev_Provenance (received_event d e)) = ''http/event-ingest''"
  by (cases d, simp add: received_event_def Event_Prepare_def TrustUntrustedNetwork_def)+

lemma local_event_sel:
  "ev_Trust e \<noteq> [] \<Longrightarrow> ev_Trust (local_event pd r e) = ev_Trust e"
  "prov_Source (ev_Provenance (local_event pd r e)) = prov_Source (ev_Provenance e)"
  "prov_Collector (ev_Provenance (local_event pd r e)) = prov_Collector (ev_Provenance e)"
  "ev_AgentID (local_event pd r e) = cf_AgentID (rt_cfg r)" "ev_TenantID (local_event pd r e) = cf_TenantID (rt_cfg r)"
  by (simp_all add: local_event_def Let_def redact_Event_def Event_Prepare_def)

text \<open>What a request does to the runtime: nothing, or one call of \<open>process\<close> on behalf of a caller that has the token.\<close>

lemma serve_cases:
  assumes "serve A d (local_server X K pd listen tok) q (r, w) = (p, (r', w'))"
  obtains (silent) "r' = r" "files w' = files w" "ap_status p \<noteq> 202"
  | (ingested) e0 rest err findings where "authorized (local_server X K pd listen tok) q" "aq_method q = ''POST''" "aq_path q = ''/v1/events''"
      "ak_event A (take maxEventBody (aq_body q)) = Inr (e0, rest)"
      "process X pd (received_event d e0) r w = ((err, findings), r', w')" "ap_status p = 202 \<Longrightarrow> err = None"
proof -
  let ?srv = "local_server X K pd listen tok"
  obtain p0 where rt: "route A d ?srv q (r, w) = (p0, (r', w'))" and p: "ap_status p = ap_status p0"
    using assms by (auto simp: serve_def securityHeaders_def split: prod.splits)
  show thesis
  proof (cases "aq_path q = ''/v1/events'' \<and> aq_method q = ''POST'' \<and> authorized ?srv q")
    case False
    show thesis
    proof (cases "aq_path q = ''/v1/status'' \<and> getting q \<and> authorized ?srv q")
      case True
      obtain st w1 where st: "Runtime_Status K r w = (st, w1)" by (rule prod.exhaust)
      have "r' = r" "w' = w1" "ap_status p0 = 200"
        using rt True st by (auto simp: route_def auth_def statusHandler_def local_server_def Server_New_def writeJSON_def)
      then show thesis using silent Status_files [OF st] p by simp
    next
      case no: False
      then have "r' = r" "w' = w" "ap_status p0 \<noteq> 202"
        using rt False by (auto simp: route_def auth_def health_def writeJSON_def writeError_def plain_response_def Let_def split: if_splits)
      then show thesis using silent p by simp
    qed
  next
    case True
    then have h: "ingestHandler A d ?srv q (r, w) = (p0, (r', w'))" using rt by (simp add: route_def auth_def)
    have i: "sr_ingest ?srv = Some (runtime_ingest X pd)" by (simp add: local_server_def Server_New_def)
    show thesis
    proof (cases "\<exists>e0 rest. ak_event A (take maxEventBody (aq_body q)) = Inr (e0, rest) \<and>
        ensureSingleJSONValue A (aq_complete q \<and> length (aq_body q) \<le> maxEventBody) rest = None")
      case False
      then have "r' = r" "w' = w" "ap_status p0 = 400"
        using h i by (auto simp: ingestHandler_def writeError_def writeJSON_def split: sum.splits prod.splits option.splits)
      then show thesis using silent p by simp
    next
      case dec: True
      then obtain e0 rest where e: "ak_event A (take maxEventBody (aq_body q)) = Inr (e0, rest)"
        "ensureSingleJSONValue A (aq_complete q \<and> length (aq_body q) \<le> maxEventBody) rest = None" by blast
      obtain err findings r1 w1 where pr: "process X pd (received_event d e0) r w = ((err, findings), r1, w1)" by (metis prod.exhaust)
      have "r' = r1 \<and> w' = w1 \<and> (ap_status p0 = 202 \<longrightarrow> err = None)"
        using h i e pr by (cases err) (auto simp: ingestHandler_def runtime_ingest_def Ingest_def writeError_def writeJSON_def)
      then show thesis using ingested [of e0 rest err findings] True e(1) pr p by auto
    qed
  qed
qed


section \<open>The token on disk\<close>

lemma hex_no_space: "TrimSpace (hex_EncodeToString b) = hex_EncodeToString b"
proof (rule TrimSpace_no_space)
  have h: "\<forall>c\<in>set ''0123456789abcdef''. \<not> is_space c" by (simp add: is_space_def)
  then show "\<forall>c\<in>set (hex_EncodeToString b). \<not> is_space c" using hex_chars [of b] by blast
qed


text \<open>The API token is stable: what \<open>EnsureToken\<close> returns has at least 32 characters, and every later start on the same disk
  gets the same token.\<close>

theorem api_token_survives_restart:
  assumes "EnsureToken rnd path w = (Inr tok, w1)" and "\<forall>b. rnd = Some b \<longrightarrow> length b = 32"
    and "files w2 = files w1" and "healthy w2"
  shows "32 \<le> length tok \<and> (\<exists>w3. EnsureToken rnd' path w2 = (Inr tok, w3))"
proof -
  obtain x v where rd: "os_ReadFile path w = (x, v)" by (rule prod.exhaust)
  have "32 \<le> length tok \<and> (\<exists>body. fs_content (files w1) path = Some body \<and> TrimSpace body = tok)"
  proof (cases x)
    case (Inr body)
    then have t: "32 \<le> length (TrimSpace body)" "tok = TrimSpace body" and ch: "os_Chmod path mode_private v = (Inr (), w1)"
      using assms(1) rd by (auto simp: EnsureToken_def io_ok split: if_splits)
    have "fs_content (files v) path = Some body" using os_ReadFile_cases [OF rd] Inr by simp
    then show ?thesis using t content_Chmod [OF ch] by simp
  next
    case (Inl e)
    then obtain b where b: "rnd = Some b" "tok = hex_EncodeToString b"
      and "\<exists>w0. os_WriteFile path (hex_EncodeToString b @ [CHR 0x0A]) mode_private w0 = (Inr (), w1)"
      using assms(1) rd by (auto simp: EnsureToken_def io_ok split: if_splits)
    then show ?thesis using write_content assms(2) by (fastforce simp: TrimSpace_newline hex_no_space)
  qed
  then obtain f where f: "fs_get (files w2) path = Some f" "TrimSpace (content f) = tok" "32 \<le> length tok"
    using assms(3) by (auto simp: fs_content_def)
  then show ?thesis using assms(4) by (auto simp: EnsureToken_def io_bind_def io_wrap_def io_return_def)
qed

text \<open>The token is written in place: when the machine stops in the middle of the first write, what is left can be too short, and
  no later start succeeds.\<close>

lemma torn_token_blocks_every_start:
  assumes "fs_content (files w) path = Some (take n (hex_EncodeToString b @ [CHR 0x0A]))" and "n < 32" and "healthy w"
  shows "EnsureToken rnd path w = (Inl TokShort, w)"
proof -
  from assms(1) obtain f where f: "fs_get (files w) path = Some f" "content f = take n (hex_EncodeToString b @ [CHR 0x0A])"
    by (auto simp: fs_content_def)
  have "length (TrimSpace s) \<le> length s" for s
    unfolding TrimSpace_def by (metis length_dropWhile_le length_rev order_trans)
  then have "length (TrimSpace (content f)) < 32" by (rule le_less_trans) (use f(2) assms(2) in simp)
  then show ?thesis using f assms(3) by (simp add: EnsureToken_def)
qed

section \<open>A request\<close>

definition toy_token :: string where "toy_token = replicate 40 (CHR ''a'')"

definition toy_api_codec :: api_codec where
  "toy_api_codec = \<lparr>ak_event = (\<lambda>body. Inr (zero_Event\<lparr>ev_Trust := TrustOperator, ev_AgentID := ''forged''\<rparr>, [])), ak_trailing = (\<lambda>_. None)\<rparr>"

definition toy_post :: api_request where
  "toy_post = \<lparr>aq_method = ''POST'', aq_path = ''/v1/events'', aq_authorization = ''Bearer '' @ toy_token, aq_body = ''{}'', aq_complete = True\<rparr>"

lemma api_token_survives_restart_witness:
  "\<exists>w3. EnsureToken None ''/d/t'' (snd (EnsureToken (Some (replicate 32 (CHR ''r''))) ''/d/t'' blank_world)) =
     (Inr (hex_EncodeToString (replicate 32 (CHR ''r''))), w3)"
proof -
  have "fst (EnsureToken (Some (replicate 32 (CHR ''r''))) ''/d/t'' blank_world) = Inr (hex_EncodeToString (replicate 32 (CHR ''r'')))"
    by (simp add: EnsureToken_def blank_world_def io_bind_def io_wrap_def io_some_def io_return_def os_ReadFile_def next_fault_def fs_get_def
        os_MkdirAll_def os_WriteFile_def)
  then obtain w1 where w1: "EnsureToken (Some (replicate 32 (CHR ''r''))) ''/d/t'' blank_world = (Inr (hex_EncodeToString (replicate 32 (CHR ''r''))), w1)"
    by (metis prod.collapse)
  have "healthy w1" using w1 [symmetric]
    by (auto simp: EnsureToken_def blank_world_def io_bind_def io_wrap_def io_some_def io_return_def os_ReadFile_def next_fault_def fs_get_def
        os_MkdirAll_def os_WriteFile_def healthy_def emit_def)
  then show ?thesis using api_token_survives_restart [OF w1 _ refl] by (simp add: w1)
qed


abbreviation toy_serve :: "api_response \<times> Runtime \<times> world" where
  "toy_serve \<equiv> serve toy_api_codec (''e1'', 5, 6) (local_server toy_runtime_codec demo_pki toy_proc_draw ''127.0.0.1:9477'' toy_token)
     toy_post (toy_runtime, toy_runtime_world)"


end
