(* ===== verification/AI_Client.thy ===== *)
theory AI_Client
  imports Config Redact Go_Text
begin

text \<open>
  \<open>internal/ai/client.go\<close>: the read-only investigator. It asks a completion endpoint to explain redacted, untrusted evidence; it
  has no tools. \<open>url.Parse\<close>, the encoders and the decoder of \<open>encoding/json\<close>, the environment and the text of the system prompt
  are parameters.
\<close>

section \<open>Data\<close>

record IncidentBundle =
  in_Objective :: string
  in_Events :: "Event list"
  in_Findings :: "Finding list"

record Analysis =
  an_ProviderEndpoint :: string
  an_Model :: string
  an_Content :: string
  an_ReadOnly :: bool
  an_ToolsExposed :: bool

record AIClient =
  ac_endpoint :: string
  ac_model :: string
  ac_apiKeyEnv :: string
  ac_timeout :: duration

text \<open>What is read of a parsed URL: whether it has user information, its scheme and its host name without the port.\<close>

record endpoint_url =
  eu_user :: bool
  eu_scheme :: string
  eu_hostname :: string

text \<open>The body of a request. The temperature is 0.1.\<close>

record completion_request =
  cm_model :: string
  cm_temperature :: rat
  cm_max_tokens :: int
  cm_stream :: bool
  cm_messages :: "(string \<times> string) list"

record ai_codec =
  ax_url :: "string \<Rightarrow> endpoint_url option"
  ax_bundle :: "IncidentBundle \<Rightarrow> string option"
  ax_request :: "completion_request \<Rightarrow> string option"
  ax_address :: "string \<Rightarrow> bool"
  ax_choices :: "string \<Rightarrow> string list option"
  ax_prompt :: string
  ax_getenv :: "string \<Rightarrow> string"

datatype ai_error =
    AIDisabled | AIEndpointMissing | AIEndpointInvalid | AICredentials | AIScheme | AIHost | AIRemote | AIPlain | AITimeout | AITimeoutRange
  | AIEncode | AIEvidenceSize | AIAddress | AINetwork | AIRead | AIResponseSize | AIStatus nat string | AIDecode | AINoAnalysis

definition maxEvidenceBytes :: int where "maxEvidenceBytes = 256 * 1024"
definition maxResponseBytes :: int where "maxResponseBytes = 64 * 1024"

section \<open>The endpoint\<close>

definition is_loopback_name :: "string \<Rightarrow> bool" where
  "is_loopback_name host = (host = ''localhost'' \<or> HasPrefix host ''127.'' \<or> host = ''::1'')"

definition validateEndpoint :: "ai_codec \<Rightarrow> string \<Rightarrow> bool \<Rightarrow> ai_error option" where
  "validateEndpoint X raw allowRemote =
     (if TrimSpace raw = [] then Some AIEndpointMissing
      else case ax_url X raw of
             None \<Rightarrow> Some AIEndpointInvalid
           | Some u \<Rightarrow>
               if eu_user u then Some AICredentials
               else if eu_scheme u \<noteq> ''http'' \<and> eu_scheme u \<noteq> ''https'' then Some AIScheme
               else if eu_hostname u = [] then Some AIHost
               else (let loopback = is_loopback_name (eu_hostname u)
                     in if \<not> loopback \<and> \<not> allowRemote then Some AIRemote
                        else if \<not> loopback \<and> eu_scheme u \<noteq> ''https'' then Some AIPlain
                        else None))"

definition completionURL :: "string \<Rightarrow> string" where
  "completionURL endpoint0 =
     (let endpoint = rev (dropWhile (\<lambda>c. c = CHR ''/'') (rev endpoint0))
      in if HasSuffix endpoint ''/v1'' then endpoint @ ''/chat/completions''
         else if HasSuffix endpoint ''/chat/completions'' then endpoint
         else endpoint @ ''/v1/chat/completions'')"

definition AI_New :: "ai_codec \<Rightarrow> AI \<Rightarrow> (ai_error, AIClient) result" where
  "AI_New X cfg =
     (let client = (\<lambda>timeout. \<lparr>ac_endpoint = completionURL (ai_Endpoint cfg), ac_model = ai_Model cfg, ac_apiKeyEnv = ai_APIKeyEnv cfg,
                              ac_timeout = timeout\<rparr>)
      in if \<not> ai_Enabled cfg then Inl AIDisabled
         else case validateEndpoint X (ai_Endpoint cfg) (ai_AllowRemote cfg) of
                Some e \<Rightarrow> Inl e
              | None \<Rightarrow>
                  if ai_Timeout cfg = [] then Inr (client (30 * Second))
                  else (case ParseDuration (ai_Timeout cfg) of
                          None \<Rightarrow> Inl AITimeout
                        | Some parsed \<Rightarrow>
                            if parsed < Second \<or> parsed > 5 * Minute then Inl AITimeoutRange else Inr (client parsed)))"

section \<open>Analysis\<close>

definition default_objective :: string where
  "default_objective = ''Explain the likely attack chain, confidence, missing evidence, and safe read-only investigation steps.''"

text \<open>The bundle as it is sent: every event marked as untrusted telemetry and without its secrets.\<close>

definition prepared_bundle :: "IncidentBundle \<Rightarrow> IncidentBundle" where
  "prepared_bundle b =
     b\<lparr>in_Objective := (if TrimSpace (in_Objective b) = [] then default_objective else in_Objective b),
       in_Events := map (\<lambda>e. redact_Event (e\<lparr>ev_Trust := TrustUntrustedTelemetry\<rparr>)) (in_Events b)\<rparr>"

definition evidence_open :: string where "evidence_open = ''<UNTRUSTED_EVIDENCE_JSON>''"
definition evidence_close :: string where "evidence_close = ''</UNTRUSTED_EVIDENCE_JSON>''"

definition user_prompt :: "string \<Rightarrow> string" where
  "user_prompt encoded = evidence_open @ [CHR 0x0A] @ encoded @ [CHR 0x0A] @ evidence_close"

definition completion :: "ai_codec \<Rightarrow> AIClient \<Rightarrow> string \<Rightarrow> completion_request" where
  "completion X c encoded =
     \<lparr>cm_model = ac_model c, cm_temperature = 1 / 10, cm_max_tokens = 1400, cm_stream = False,
      cm_messages = [(''system'', ax_prompt X), (''user'', user_prompt encoded)]\<rparr>"

definition ellipsis :: string where "ellipsis = [CHR 0xE2, CHR 0x80, CHR 0xA6]"

definition safeError :: "string \<Rightarrow> string" where
  "safeError body =
     (let t = TrimSpace (String body) in if length t > 300 then take 300 t @ ellipsis else t)"

record ai_request =
  aiq_url :: string
  aiq_body :: string
  aiq_authorization :: "string option"

definition authorization :: "ai_codec \<Rightarrow> AIClient \<Rightarrow> string option" where
  "authorization X c =
     (if ac_apiKeyEnv c = [] then None
      else let key = TrimSpace (ax_getenv X (ac_apiKeyEnv c)) in if key = [] then None else Some (''Bearer '' @ key))"

text \<open>From the response on: a status and the whole body, of which at most 64 KiB are accepted.\<close>

definition read_analysis :: "ai_codec \<Rightarrow> AIClient \<Rightarrow> http_reply \<Rightarrow> (ai_error, Analysis) result" where
  "read_analysis X c reply =
     (case reply of
        None \<Rightarrow> Inl AINetwork
      | Some (status, None) \<Rightarrow> Inl AIRead
      | Some (status, Some whole) \<Rightarrow>
          (let body = LimitRead (maxResponseBytes + 1) whole
           in if int (length body) > maxResponseBytes then Inl AIResponseSize
              else if status < 200 \<or> status \<ge> 300 then Inl (AIStatus status (safeError body))
              else case ax_choices X body of
                     None \<Rightarrow> Inl AIDecode
                   | Some [] \<Rightarrow> Inl AINoAnalysis
                   | Some (answer # _) \<Rightarrow>
                       if TrimSpace answer = [] then Inl AINoAnalysis
                       else Inr \<lparr>an_ProviderEndpoint = ac_endpoint c, an_Model = ac_model c, an_Content = String answer,
                              an_ReadOnly = True, an_ToolsExposed = False\<rparr>))"

definition Analyze :: "ai_codec \<Rightarrow> AIClient \<Rightarrow> IncidentBundle \<Rightarrow> http_reply \<Rightarrow> (ai_error, Analysis) result \<times> ai_request option" where
  "Analyze X c bundle reply =
     (case ax_bundle X (prepared_bundle bundle) of
        None \<Rightarrow> (Inl AIEncode, None)
      | Some encoded \<Rightarrow>
          if int (length encoded) > maxEvidenceBytes then (Inl AIEvidenceSize, None)
          else (case ax_request X (completion X c encoded) of
                  None \<Rightarrow> (Inl AIEncode, None)
                | Some body \<Rightarrow>
                    if \<not> ax_address X (ac_endpoint c) then (Inl AIAddress, None)
                    else (read_analysis X c reply,
                          Some \<lparr>aiq_url = ac_endpoint c, aiq_body = body, aiq_authorization = authorization X c\<rparr>)))"

section \<open>What leaves the host\<close>

lemma last_occurrence:
  assumes "mid @ c # t = xs @ c # t @ b" and "c \<notin> set mid" and "c \<notin> set t"
  shows "b = []"
proof -
  have "count_list (mid @ c # t) c = 1" using assms(2,3) by (simp add: count_list_0_iff)
  moreover have "count_list (xs @ c # t @ b) c = count_list xs c + 1 + count_list b c" using assms(3) by (simp add: count_list_0_iff)
  ultimately have "c \<notin> set xs" using assms(1) by (metis add_is_0 add_right_cancel add.assoc add.commute count_list_0_iff add_eq_self_zero)
  then have "takeWhile (\<lambda>d. d \<noteq> c) (xs @ c # t @ b) = xs" by (induction xs) auto
  moreover have "takeWhile (\<lambda>d. d \<noteq> c) (mid @ c # t) = mid" using assms(2) by (induction mid) auto
  ultimately show ?thesis using assms(1) by simp
qed

text \<open>The closing tag occurs in the message once, at its end, when the evidence itself has no \<open><\<close>.\<close>

lemma envelope_closed:
  assumes "CHR ''<'' \<notin> set encoded" and "user_prompt encoded = a @ evidence_close @ b"
  shows "b = []"
proof -
  define t where "t = ''/UNTRUSTED_EVIDENCE_JSON>''"
  define mid where "mid = tl evidence_open @ [CHR 0x0A] @ encoded @ [CHR 0x0A]"
  have c: "evidence_close = CHR ''<'' # t" by (simp add: evidence_close_def t_def)
  have o: "evidence_open = CHR ''<'' # tl evidence_open" "hd (tl evidence_open) \<noteq> hd t" "tl evidence_open \<noteq> []"
    by (simp_all add: evidence_open_def t_def)
  have u: "user_prompt encoded = CHR ''<'' # mid @ CHR ''<'' # t"
    unfolding user_prompt_def c mid_def by (subst o(1)) simp
  have n: "CHR ''<'' \<notin> set mid" "CHR ''<'' \<notin> set t" using assms(1) by (simp_all add: mid_def t_def evidence_open_def)
  show ?thesis
  proof (cases a)
    case Nil
    then have "CHR ''<'' # mid @ CHR ''<'' # t = CHR ''<'' # t @ b" using assms(2) unfolding u c by (simp only: append_Nil append_Cons)
    then have "mid @ CHR ''<'' # t = t @ b" by (simp only: list.inject)
    then have "hd mid = hd t" by (metis append_is_Nil_conv hd_append2 mid_def not_Cons_self2 o(3) t_def list.distinct(1))
    then show ?thesis using o(2,3) by (simp add: mid_def)
  next
    case (Cons x xs)
    then have "CHR ''<'' # mid @ CHR ''<'' # t = x # xs @ CHR ''<'' # t @ b" using assms(2) unfolding u c by (simp only: append_Cons append_assoc)
    then have "mid @ CHR ''<'' # t = xs @ CHR ''<'' # t @ b" by (metis list.inject)
    from last_occurrence [OF this n] show ?thesis .
  qed
qed


text \<open>A client is only made for an endpoint without credentials over http or https, and with a timeout between a second and five
  minutes; without the approval for remote endpoints its host name is \<open>localhost\<close>, \<open>::1\<close> or begins with \<open>127.\<close>, and any other host
  needs https.\<close>

theorem ai_endpoint_is_validated:
  assumes "AI_New X cfg = Inr c"
  shows "\<exists>u. ax_url X (ai_Endpoint cfg) = Some u \<and> \<not> eu_user u \<and> eu_scheme u \<in> {''http'', ''https''} \<and> eu_hostname u \<noteq> []
    \<and> (is_loopback_name (eu_hostname u) \<or> (ai_AllowRemote cfg \<and> eu_scheme u = ''https''))
    \<and> Second \<le> ac_timeout c \<and> ac_timeout c \<le> 5 * Minute"
proof -
  from assms have v: "validateEndpoint X (ai_Endpoint cfg) (ai_AllowRemote cfg) = None"
    by (auto simp: AI_New_def Let_def split: if_splits option.splits)
  then obtain u where u: "ax_url X (ai_Endpoint cfg) = Some u" by (auto simp: validateEndpoint_def split: if_splits option.splits)
  have "Second \<le> ac_timeout c \<and> ac_timeout c \<le> 5 * Minute"
    using assms v by (auto simp: AI_New_def Let_def duration_defs split: if_splits option.splits)
  then show ?thesis using v u by (auto simp: validateEndpoint_def Let_def split: if_splits)
qed

text \<open>A host name that only begins with \<open>127.\<close> counts as local: evidence is sent to it over plain http without the approval.\<close>

lemma remote_host_counts_as_local:
  assumes "ax_url X (ai_Endpoint cfg) = Some \<lparr>eu_user = False, eu_scheme = ''http'', eu_hostname = ''127.0.0.1.example.org''\<rparr>"
    and "TrimSpace (ai_Endpoint cfg) \<noteq> []" and "ai_Enabled cfg" and "ai_Timeout cfg = []"
  shows "\<exists>c. AI_New X cfg = Inr c \<and> ac_endpoint c = completionURL (ai_Endpoint cfg)"
  using assms by (simp add: AI_New_def validateEndpoint_def is_loopback_name_def Let_def)

section \<open>A request\<close>

definition toy_ai_codec :: ai_codec where
  "toy_ai_codec = \<lparr>ax_url = (\<lambda>_. Some \<lparr>eu_user = False, eu_scheme = ''http'', eu_hostname = ''localhost''\<rparr>),
     ax_bundle = (\<lambda>b. Some (in_Objective b)), ax_request = (\<lambda>q. Some (snd (cm_messages q ! 1))), ax_address = (\<lambda>_. True),
     ax_choices = (\<lambda>body. Some [body]), ax_prompt = ''p'', ax_getenv = (\<lambda>_. [])\<rparr>"

definition toy_ai_config :: AI where
  "toy_ai_config = \<lparr>ai_Enabled = True, ai_Endpoint = ''http://localhost:8080/'', ai_Model = ''m'', ai_APIKeyEnv = [], ai_AllowRemote = False,
     ai_Timeout = ''20s''\<rparr>"

lemma ai_endpoint_is_validated_witness:
  "\<exists>c. AI_New toy_ai_codec toy_ai_config = Inr c \<and> ac_endpoint c = ''http://localhost:8080/v1/chat/completions'' \<and> ac_timeout c \<le> 5 * Minute"
proof -
  have "map_sum (\<lambda>e. ()) ac_endpoint (AI_New toy_ai_codec toy_ai_config) = Inr ''http://localhost:8080/v1/chat/completions''" by code_simp
  then obtain c where c: "AI_New toy_ai_codec toy_ai_config = Inr c" "ac_endpoint c = ''http://localhost:8080/v1/chat/completions''"
    by (cases "AI_New toy_ai_codec toy_ai_config") auto
  then show ?thesis using ai_endpoint_is_validated [OF c(1)] by blast
qed


end
