(* ===== verification/Signed_Requests.thy ===== *)
theory Signed_Requests
  imports Responder PolicyUpdate Config Enrollment
begin

text \<open>
  The HTTP clients of \<open>internal/responseexec\<close> and \<open>internal/policyupdate\<close>: how they are made, what they sign, and how the two runners
  put client, ledger and manager together. Both speak TLS with the client certificate of the agent and sign their requests with its
  identity key. \<open>net/url\<close> beyond escaping is a parameter.
\<close>

section \<open>Addresses\<close>

text \<open>A parsed URL: scheme, host, path, and \<open>String()\<close> of it with another path and neither query nor fragment.\<close>

record request_url =
  ru_Scheme :: string
  ru_Host :: string
  ru_Path :: string
  ru_at :: "string \<Rightarrow> string"

type_synonym url_codec = "string \<Rightarrow> request_url option"

definition https_url :: "url_codec \<Rightarrow> string \<Rightarrow> request_url option" where
  "https_url U s =
     (case U (TrimSpace s) of
        None \<Rightarrow> None
      | Some u \<Rightarrow> if ru_Scheme u \<noteq> ''https'' \<or> ru_Host u = [] then None else Some u)"

text \<open>\<open>url.PathEscape\<close>\<close>

definition path_safe :: "char \<Rightarrow> bool" where
  "path_safe c = (alnum c \<or> c \<in> set ''-_.~$&+=:@'')"

definition upper_hex_byte :: "char \<Rightarrow> string" where
  "upper_hex_byte c = ToUpper (hex_byte c)"

definition PathEscape :: "string \<Rightarrow> string" where
  "PathEscape s = concat (map (\<lambda>c. if path_safe c then [c] else CHR ''%'' # upper_hex_byte c) s)"

lemma PathEscape_examples: "PathEscape ''act-1'' = ''act-1''" "PathEscape ''a b'' = ''a%20b''" "PathEscape ''a%20b'' = ''a%2520b''"
  by (code_simp, code_simp, code_simp)

definition EndpointFromTransport :: "url_codec \<Rightarrow> string \<Rightarrow> string option" where
  "EndpointFromTransport U transportEndpoint = map_option (\<lambda>u. ru_at u ''/v1/agent/policy'') (https_url U transportEndpoint)"

section \<open>The clients\<close>

record ResponseClientOptions =
  co_TransportEndpoint :: string
  co_AgentID :: string
  co_TenantID :: string
  co_CertFile :: string
  co_KeyFile :: string
  co_CAFile :: string
  co_ServerName :: string
  co_TrustRootFile :: string
  co_Timeout :: duration

record ResponseClient =
  rc_options :: ResponseClientOptions
  rc_privateKey :: string
  rc_baseURL :: request_url

record PolicyClientOptions =
  po_Endpoint :: string
  po_AgentID :: string
  po_TenantID :: string
  po_CertFile :: string
  po_KeyFile :: string
  po_CAFile :: string
  po_ServerName :: string
  po_Timeout :: duration

record PolicyClient =
  pc_options :: PolicyClientOptions
  pc_privateKey :: string

datatype signed_error =
    SgEndpoint | SgIdentifiers | SgTimeout | SgTrustRoot | SgKey | SgTLS enroll_error | SgLedger ledger_error | SgManager update_error
  | SgInspect oserr | SgNotConfigured

definition NewResponseClient :: "pki \<Rightarrow> url_codec \<Rightarrow> ResponseClientOptions \<Rightarrow> (signed_error, ResponseClient) call" where
  "NewResponseClient K U opts =
     io_bind (io_some SgEndpoint (https_url U (co_TransportEndpoint opts))) (\<lambda>parsed.
     io_bind (io_check (TrimSpace (co_AgentID opts) = [] \<or> TrimSpace (co_TenantID opts) = []) SgIdentifiers) (\<lambda>_.
     io_bind (io_check (co_Timeout opts < Second \<or> co_Timeout opts > 2 * Minute) SgTimeout) (\<lambda>_.
     io_bind (io_check (TrimSpace (co_TrustRootFile opts) = []) SgTrustRoot) (\<lambda>_.
     io_bind (io_wrap (\<lambda>_. SgKey) (identity_Load (key_parse K) (co_KeyFile opts))) (\<lambda>privateKey.
     io_bind (io_wrap SgTLS (ClientTLSConfig K (co_CertFile opts) (co_KeyFile opts) (co_CAFile opts))) (\<lambda>_.
     io_return \<lparr>rc_options = opts, rc_privateKey = privateKey, rc_baseURL = parsed\<rparr>))))))"

definition NewPolicyClient :: "pki \<Rightarrow> url_codec \<Rightarrow> PolicyClientOptions \<Rightarrow> (signed_error, PolicyClient) call" where
  "NewPolicyClient K U opts =
     io_bind (io_some SgEndpoint (https_url U (po_Endpoint opts))) (\<lambda>_.
     io_bind (io_check (TrimSpace (po_AgentID opts) = [] \<or> TrimSpace (po_TenantID opts) = []) SgIdentifiers) (\<lambda>_.
     io_bind (io_check (po_Timeout opts < Second \<or> po_Timeout opts > 2 * Minute) SgTimeout) (\<lambda>_.
     io_bind (io_wrap (\<lambda>_. SgKey) (identity_Load (key_parse K) (po_KeyFile opts))) (\<lambda>privateKey.
     io_bind (io_wrap SgTLS (ClientTLSConfig K (po_CertFile opts) (po_KeyFile opts) (po_CAFile opts))) (\<lambda>_.
     io_return \<lparr>pc_options = opts, pc_privateKey = privateKey\<rparr>)))))"

definition response_endpoint :: "ResponseClient \<Rightarrow> string \<Rightarrow> string" where
  "response_endpoint c path = ru_at (rc_baseURL c) path"

section \<open>Requests\<close>

record signed_request =
  sq_Method :: string
  sq_URL :: string
  sq_Headers :: "(string \<times> string) list"
  sq_Body :: string

definition header :: "signed_request \<Rightarrow> string \<Rightarrow> string" where
  "header r k = (case map_of (sq_Headers r) k of None \<Rightarrow> [] | Some v \<Rightarrow> v)"

text \<open>\<open>strconv.FormatInt(time.Now().UTC().Unix(), 10)\<close>\<close>

definition unix_timestamp :: "gtime \<Rightarrow> string" where "unix_timestamp now = Itoa (Unix now)"

definition get_message :: "string \<Rightarrow> string \<Rightarrow> string \<Rightarrow> string \<Rightarrow> string" where
  "get_message path timestamp tenantID agentID =
     ''GET'' @ [newline] @ path @ [newline] @ timestamp @ [newline] @ tenantID @ [newline] @ agentID"

definition signature_header :: "crypto \<Rightarrow> string \<Rightarrow> string \<Rightarrow> string" where
  "signature_header C key message = b64_EncodeToString (ed25519_Sign C key message)"

definition signed_headers :: "string \<Rightarrow> string \<Rightarrow> string \<Rightarrow> string \<Rightarrow> (string \<times> string) list" where
  "signed_headers agentID tenantID timestamp signature =
     [(''X-NTShield-Agent-ID'', agentID), (''X-NTShield-Tenant-ID'', tenantID), (''X-NTShield-Timestamp'', timestamp),
      (''X-NTShield-Signature'', signature)]"

text \<open>The request of \<open>signedGET\<close>; \<open>None\<close> when the address does not parse.\<close>

definition signedGET :: "crypto \<Rightarrow> url_codec \<Rightarrow> gtime \<Rightarrow> ResponseClient \<Rightarrow> string \<Rightarrow> signed_request option" where
  "signedGET C U now c endpoint =
     (case U endpoint of
        None \<Rightarrow> None
      | Some u \<Rightarrow>
          let timestamp = unix_timestamp now; opts = rc_options c;
              message = get_message (ru_Path u) timestamp (co_TenantID opts) (co_AgentID opts)
          in Some \<lparr>sq_Method = ''GET'', sq_URL = endpoint,
               sq_Headers = signed_headers (co_AgentID opts) (co_TenantID opts) timestamp (signature_header C (rc_privateKey c) message),
               sq_Body = []\<rparr>)"

definition policy_request :: "crypto \<Rightarrow> gtime \<Rightarrow> PolicyClient \<Rightarrow> signed_request" where
  "policy_request C now c =
     (let timestamp = unix_timestamp now; opts = pc_options c
      in \<lparr>sq_Method = ''GET'', sq_URL = po_Endpoint opts,
          sq_Headers = signed_headers (po_AgentID opts) (po_TenantID opts) timestamp
            (signature_header C (pc_privateKey c) (RequestMessage (po_AgentID opts) (po_TenantID opts) timestamp)),
          sq_Body = []\<rparr>)"

text \<open>\<open>PostResult\<close>: the signature covers the body.\<close>

definition result_request :: "crypto \<Rightarrow> (string \<Rightarrow> bool) \<Rightarrow> ResponseClient \<Rightarrow> string \<Rightarrow> string \<Rightarrow> signed_request option" where
  "result_request C valid c actionID body =
     (if TrimSpace actionID = [] \<or> \<not> valid body then None
      else Some \<lparr>sq_Method = ''POST'', sq_URL = response_endpoint c (''/v1/agent/responses/'' @ PathEscape actionID @ ''/result''),
             sq_Headers = [(''Content-Type'', ''application/json''), (''X-NTShield-Agent-ID'', co_AgentID (rc_options c)),
               (''X-NTShield-Tenant-ID'', co_TenantID (rc_options c)), (''X-NTShield-Signature'', signature_header C (rc_privateKey c) body)],
             sq_Body = body\<rparr>)"

text \<open>What becomes of the reply: at most 4 MiB of the body are read, and only status 200 is a success.\<close>

definition maxResponseHTTPBody :: int where "maxResponseHTTPBody = 4 * 1024 * 1024"

definition readBoundedResponse :: "string option \<Rightarrow> string option" where
  "readBoundedResponse body = map_option (LimitRead maxResponseHTTPBody) body"

definition post_outcome :: "http_reply \<Rightarrow> (client_error, unit) result" where
  "post_outcome reply =
     (case reply of
        None \<Rightarrow> Inl CErrNetwork
      | Some (status, body) \<Rightarrow>
          (case readBoundedResponse body of
             None \<Rightarrow> Inl CErrNetwork
           | Some _ \<Rightarrow> if status \<noteq> 200 then Inl (CErrStatus status) else Inr ()))"

section \<open>The runners\<close>

record RunnerOptions =
  ro_DataDir :: string
  ro_AgentID :: string
  ro_TenantID :: string
  ro_PolicyFile :: string
  ro_AllowedPaths :: "string list"
  ro_TransportEndpoint :: string
  ro_CertFile :: string
  ro_KeyFile :: string
  ro_CAFile :: string
  ro_ServerName :: string
  ro_Timeout :: duration
  ro_Interval :: duration

record ResponseRunner =
  rn_options :: RunnerOptions
  rn_client :: ResponseClient
  rn_ledger :: Ledger

record PolicyRunner =
  pr_manager :: Manager
  pr_client :: PolicyClient
  pr_interval :: duration

definition NewResponseRunner :: "crypto \<Rightarrow> pki \<Rightarrow> url_codec \<Rightarrow> ledger_codec \<Rightarrow> RunnerOptions \<Rightarrow> (signed_error, ResponseRunner) call" where
  "NewResponseRunner C K U L opts0 =
     (let opts = (if ro_Interval opts0 \<le> 0 then opts0\<lparr>ro_Interval := 5 * Second\<rparr> else opts0)
      in io_bind (NewResponseClient K U \<lparr>co_TransportEndpoint = ro_TransportEndpoint opts, co_AgentID = ro_AgentID opts,
            co_TenantID = ro_TenantID opts, co_CertFile = ro_CertFile opts, co_KeyFile = ro_KeyFile opts, co_CAFile = ro_CAFile opts,
            co_ServerName = ro_ServerName opts, co_TrustRootFile = filepath_Join [ro_DataDir opts, ''response-signing.pub''],
            co_Timeout = ro_Timeout opts\<rparr>) (\<lambda>client.
         io_bind (io_wrap SgLedger (OpenLedger C L (key_parse K) (filepath_Join [ro_DataDir opts, ''response-ledger.json'']) (ro_KeyFile opts))) (\<lambda>ledger.
         io_return \<lparr>rn_options = opts, rn_client = client, rn_ledger = ledger\<rparr>)))"

definition NewPolicyRunner :: "crypto \<Rightarrow> pki \<Rightarrow> url_codec \<Rightarrow> policy_codec \<Rightarrow> (string \<Rightarrow> string option) \<Rightarrow> RunnerOptions
    \<Rightarrow> (signed_error, PolicyRunner) call" where
  "NewPolicyRunner C K U J pk opts0 =
     (let trustRoot = filepath_Join [ro_DataDir opts0, ''policy-signing.pub''];
          opts = (if ro_Interval opts0 \<le> 0 then opts0\<lparr>ro_Interval := 5 * Minute\<rparr> else opts0)
      in io_bind (io_wrap (\<lambda>e. if e = ErrNotExist then SgNotConfigured else SgInspect e) (os_Stat trustRoot)) (\<lambda>_.
         io_bind (io_some SgEndpoint (EndpointFromTransport U (ro_TransportEndpoint opts))) (\<lambda>endpoint.
         io_bind (io_wrap SgManager (NewManager C J pk (key_parse K) \<lparr>mo_AgentID = ro_AgentID opts, mo_TenantID = ro_TenantID opts,
            mo_PolicyFile = ro_PolicyFile opts, mo_TrustRootFile = trustRoot, mo_IdentityKeyFile = ro_KeyFile opts,
            mo_StateFile = filepath_Join [ro_DataDir opts, ''policy-state.json'']\<rparr>)) (\<lambda>manager.
         io_bind (NewPolicyClient K U \<lparr>po_Endpoint = endpoint, po_AgentID = ro_AgentID opts, po_TenantID = ro_TenantID opts,
            po_CertFile = ro_CertFile opts, po_KeyFile = ro_KeyFile opts, po_CAFile = ro_CAFile opts, po_ServerName = ro_ServerName opts,
            po_Timeout = ro_Timeout opts\<rparr>) (\<lambda>client.
         io_return \<lparr>pr_manager = manager, pr_client = client, pr_interval = ro_Interval opts\<rparr>)))))"

section \<open>Facts\<close>

lemma split_at_newline:
  "newline \<notin> set a \<Longrightarrow> newline \<notin> set b \<Longrightarrow> a @ newline # x = b @ newline # y \<Longrightarrow> a = b \<and> x = y"
proof (induction a arbitrary: b)
  case (Cons c a)
  then show ?case by (cases b) auto
next
  case Nil
  then show ?case by (cases b) auto
qed

text \<open>The message names the request: path, time, tenant and agent can be read back from it.\<close>

lemma get_message_inject:
  assumes "get_message p t n a = get_message p' t' n' a'"
    and "newline \<notin> set p" "newline \<notin> set p'" "newline \<notin> set t" "newline \<notin> set t'" "newline \<notin> set n" "newline \<notin> set n'"
  shows "p = p' \<and> t = t' \<and> n = n' \<and> a = a'"
proof -
  have "p @ newline # t @ newline # n @ newline # a = p' @ newline # t' @ newline # n' @ newline # a'"
    using assms(1) by (simp add: get_message_def)
  from split_at_newline [OF assms(2,3) this] have p: "p = p'" and 1: "t @ newline # n @ newline # a = t' @ newline # n' @ newline # a'" by simp_all
  from split_at_newline [OF assms(4,5) 1] have t: "t = t'" and 2: "n @ newline # a = n' @ newline # a'" by simp_all
  from split_at_newline [OF assms(6,7) 2] p t show ?thesis by simp
qed

lemma RequestMessage_get: "RequestMessage a n t = get_message ''/v1/agent/policy'' t n a"
  by (simp add: RequestMessage_def get_message_def)

lemma timestamp_no_newline: "newline \<notin> set (unix_timestamp now)"
proof -
  have "newline \<notin> set (nat_digits n)" for n using nat_digits_chars [of n] by auto
  then show ?thesis by (simp add: unix_timestamp_def Itoa_def)
qed


lemma signature_decodes: "b64_DecodeString (signature_header C key m) = Some (ed25519_Sign C key m)"
  by (simp add: signature_header_def)


text \<open>An identifier that needs escaping is escaped twice: \<open>PostResult\<close> puts the escaped text into the path of the URL, whose
  \<open>String\<close> escapes the percent signs once more.\<close>

lemma escaped_twice: "PathEscape (PathEscape ''a b'') = ''a%2520b''"
  by code_simp

section \<open>A request\<close>

definition toy_request_url :: request_url where
  "toy_request_url = \<lparr>ru_Scheme = ''https'', ru_Host = ''cp'', ru_Path = ''/v1/agent/responses'', ru_at = (\<lambda>p. ''https://cp'' @ p)\<rparr>"

definition toy_response_client :: ResponseClient where
  "toy_response_client = \<lparr>rc_options = \<lparr>co_TransportEndpoint = ''https://cp'', co_AgentID = ''a'', co_TenantID = ''t'', co_CertFile = [],
     co_KeyFile = [], co_CAFile = [], co_ServerName = [], co_TrustRootFile = ''/r'', co_Timeout = Second\<rparr>, rc_privateKey = ''k'',
     rc_baseURL = toy_request_url\<rparr>"

definition toy_policy_client :: PolicyClient where
  "toy_policy_client = \<lparr>pc_options = \<lparr>po_Endpoint = ''https://cp'', po_AgentID = ''a'', po_TenantID = ''t'', po_CertFile = [],
     po_KeyFile = [], po_CAFile = [], po_ServerName = [], po_Timeout = Second\<rparr>, pc_privateKey = ''k''\<rparr>"


end
