(* ===== verification/Spec2Isabelle.thy ===== *)
theory Spec2Isabelle
  imports Policy File_Install Journal Registry Quarantine Containment Lease Ledger Responder PolicyUpdate Sender
    Normalize Redact Detection_Rules Inventory Detection Baseline Parser Config Tailer Cursor Runtime Auditd Journald
    Central_Client Api_Server AI_Client Signed_Requests
begin

text \<open>
  The NTAgentShield host agent (\<open>src/agent\<close>, Go). The agent watches a host, records what it sees in a hash-chained
  journal, queues telemetry for a control plane, and carries out a small set of containment actions, each only under an
  operator's signed approval.

  \<^bold>\<open>Parts and how they interact.\<close> Collectors produce events (\<open>internal/model\<close>), the pipeline prepares them, detects on
  them, appends them to the journal (\<open>internal/store\<close>) and enqueues them in the outbox (\<open>internal/transport\<close>); the sender
  renews the client certificate (\<open>internal/enrollment\<close>) and flushes the outbox to the control plane. The response runner
  (\<open>internal/responseexec\<close>) fetches signed leases, records them in a replay ledger, and hands the action to the tool
  registry (\<open>internal/tools\<close>), which asks the policy engine (\<open>internal/policy\<close>) before any tool runs. The policy updater
  (\<open>internal/policyupdate\<close>) replaces the policy file by signed, monotonically numbered bundles.

  \<^bold>\<open>Theories.\<close>
  \<^item> Language and system: \<open>NTS_Prelude\<close> (results, 64-bit integers, time), \<open>Go_Strings\<close> (\<open>strings\<close>, hex, base64),
    \<open>Go_Path\<close> (\<open>path/filepath\<close>), \<open>Go_Time\<close> (formats, line scanner), \<open>Go_Net\<close> (\<open>net.ParseIP\<close>), \<open>Go_Crypto\<close> (the primitives,
    a parameter record with named laws), \<open>Go_OS\<close> (files, faults, clock, crash states), \<open>Go_IO\<close> (sequences of calls).
  \<^item> \<open>File_Install\<close>: \<open>writePrivateFile\<close> (identity, tools), \<open>atomicWrite\<close> (enrollment), \<open>replaceFile\<close> (policyupdate),
    \<open>replaceLedgerFile\<close> (responseexec); the locales \<open>installer\<close>, \<open>atomic_installer\<close>, \<open>backup_installer\<close> state what a caller may
    rely on and are interpreted on these routines.
  \<^item> \<open>Model\<close>: \<open>model.go\<close>. \<open>Policy\<close>: \<open>policy/engine.go\<close>, with the locale \<open>policy_gate\<close>.
  \<^item> \<open>Journal\<close>: \<open>store/journal.go\<close>, with the locale \<open>hash_chain\<close>.
  \<^item> \<open>Tools\<close>, \<open>Registry\<close>, \<open>Quarantine\<close> (with \<open>identity.go\<close>), \<open>Containment\<close>: the tools and the registry of \<open>internal/tools\<close>.
  \<^item> \<open>Lease\<close>, \<open>Ledger\<close> (locale \<open>replay_guard\<close>), \<open>Responder\<close>: \<open>internal/responseexec\<close>.
  \<^item> \<open>PolicyUpdate\<close>: \<open>internal/policyupdate\<close>.
  \<^item> \<open>Outbox\<close> (locale \<open>durable_queue\<close>), \<open>Schema\<close>, \<open>Sender\<close>: \<open>internal/transport\<close>; \<open>Enrollment\<close>: \<open>internal/enrollment\<close>.

  \<^bold>\<open>How the code is represented.\<close> A Go string or byte slice is a list of bytes; a struct is a record with prefixed field
  names; an \<open>interface{}\<close> is the datatype \<open>gval\<close>; \<open>time.Time\<close> is the number of nanoseconds since year 1. A function that
  returns an error returns a sum. Code that touches the system takes and returns a \<open>world\<close>: the files, the faults the next
  calls will meet, the events already issued, and a clock that moves arbitrarily. Every system call may fail, a write may
  be torn, and \<open>crashes\<close> gives the states the disk can be in when the machine stops during a run; \<open>crash_safe\<close>, \<open>quiet\<close> and
  \<open>steps\<close> are the vocabulary of the safety theorems. Tools act on a \<open>host\<close>, a world with processes and packet-filter tables.

  \<^bold>\<open>Parameters.\<close> Cryptography, JSON, PEM, X.509, URL parsing, the packet filter and the network are arguments of the
  definitions; the theorems that need something of them say so in a hypothesis (signatures verify, a decoder inverts the
  encoder on the value that was written). Each such hypothesis is met by a concrete instance in a witness.

  \<^bold>\<open>What is shown.\<close> Policy: exactly which requests are allowed; an approval covers one action; denials are final.
  Registry and tools: nothing changes the host without a cleared approval for exactly that action; paths are confined to
  the allowed roots; one process at most is killed. Quarantine: a file is never lost, a restore never overwrites.
  Containment: only the agent's own table is deleted, and success is recorded. Journal: appends keep the chain, the last
  hash determines all records, reopening restores the state. Leases and ledger: only signed leases for this agent are
  executed, at most once, and the record is on disk before the action starts. Policy updates: epochs only grow, applied
  policies were authorised, a restart keeps the epoch. Transport: enqueueing is durable, a flush loses nothing, posts only
  the agent's own events once each, and drains the queue when nothing fails. Enrolment: the signing key is pinned and
  an installed certificate is the agent's own. Several theorems show defects: an append after a failed sync breaks the
  chain, a crash while the ledger is replaced forgets it, a crash in the middle of a policy update blocks every restart,
  and a refused renewal has already replaced the certificates.

  \<^bold>\<open>Bounds.\<close> Loops are structural recursions or functions with a termination proof; no fuel is used. The at-most-once theorem
  holds within the 4096 entries the ledger keeps.

  \<^bold>\<open>Not modelled.\<close> Mutexes and goroutines (operations are sequential), HTTP transport and TLS, logging, Windows back ends,
  the command line programs, and the packages the manifest lists as not modelled.
\<close>

end
